(* ===== verification/Prelude.thy ===== *)
theory Prelude
  imports Main "HOL-Library.Char_ord"
begin

text \<open>
  Shared vocabulary of the development: the failures the packages throw, the result type that
  carries them, JavaScript text and hexadecimal strings, and generic lemmas on lists.

  A JavaScript string is a HOL \<open>string\<close> over the ASCII characters (every string whose case the
  program folds is an address, a hash or a packet).  A \<open>bigint\<close> is an \<open>int\<close>; a \<open>number\<close> that the
  program uses as an index is an \<open>int\<close> whose safe-integer range is checked where the code checks it.
\<close>

section \<open>Failures and results\<close>

datatype core_code =
    INVALID_INPUT | INSUFFICIENT | UNCONSTRUCTABLE | UNCONFIRMED | HISTORY_UNAVAILABLE
  | INCONSISTENT | SIGNATURE_REJECTED | SIGNATURE_INVALID | RPC | UNSUPPORTED | CRYPTO
  | STORAGE_UNKNOWN | CONFLICT

datatype crypto_code =
    C_INPUT | C_RANDOM | C_SCALAR_EXHAUSTED | C_CHALLENGE_EXHAUSTED | C_DECRYPT | C_PLAINTEXT
  | C_COMMITMENT | C_INTERNAL

text \<open>
  Every thrown value the model distinguishes: the two failure classes of the packages, the
  \<open>RangeError\<close>s of the arithmetic helpers, and any other exception (a library's own error).
\<close>

datatype failure =
    CoreFailure core_code string
  | CryptoFailure crypto_code string
  | RangeError string
  | OtherError string

type_synonym 'a res = "failure + 'a"

named_theorems res_simps \<open>simplification of sequenced fallible computations\<close>
named_theorems text_simps \<open>case folding and hexadecimal text\<close>

definition rbind :: "'e + 'a \<Rightarrow> ('a \<Rightarrow> 'e + 'b) \<Rightarrow> 'e + 'b" where
  "rbind m f = (case m of Inl e \<Rightarrow> Inl e | Inr a \<Rightarrow> f a)"

definition require :: "bool \<Rightarrow> 'e \<Rightarrow> 'e + unit" where
  "require b e = (if b then Inr () else Inl e)"

text \<open>\<open>try m catch (throw e)\<close>: every failure of \<open>m\<close> is replaced by \<open>e\<close>.\<close>

definition recast :: "'e \<Rightarrow> 'x + 'a \<Rightarrow> 'e + 'a" where
  "recast e m = (case m of Inl _ \<Rightarrow> Inl e | Inr a \<Rightarrow> Inr a)"

definition is_ok :: "'e + 'a \<Rightarrow> bool" where
  "is_ok m = (case m of Inl _ \<Rightarrow> False | Inr _ \<Rightarrow> True)"

lemma rbind_Inl [simp]: "rbind (Inl e) f = Inl e"
  and rbind_Inr [simp]: "rbind (Inr a) f = f a"
  by (simp_all add: rbind_def)

lemma rbind_eq_Inr [res_simps]: "rbind m f = Inr b \<longleftrightarrow> (\<exists>a. m = Inr a \<and> f a = Inr b)"
  by (cases m) (auto simp: rbind_def)

lemma require_eq_Inr [res_simps]: "require b e = Inr u \<longleftrightarrow> b"
  by (simp add: require_def)

lemma require_True [simp]: "require True e = Inr ()"
  and require_False [simp]: "require False e = Inl e"
  by (simp_all add: require_def)

lemma rbind_require [simp]: "rbind (require b e) f = (if b then f () else Inl e)"
  by (simp add: require_def)

lemma recast_Inr [simp]: "recast e (Inr a) = Inr a"
  and recast_Inl [simp]: "recast e (Inl x) = Inl e"
  by (simp_all add: recast_def)

lemma recast_eq_Inr [res_simps]: "recast e m = Inr b \<longleftrightarrow> m = Inr b"
  by (cases m) (auto simp: recast_def)

lemma recast_eq_Inl [res_simps]: "recast e m = Inl x \<longleftrightarrow> x = e \<and> (\<exists>y. m = Inl y)"
  by (cases m) (auto simp: recast_def)

lemma is_ok_Inr [simp]: "is_ok (Inr a)"
  and is_ok_Inl [simp]: "\<not> is_ok (Inl e)"
  by (simp_all add: is_ok_def)

lemma is_ok_iff: "is_ok m \<longleftrightarrow> (\<exists>a. m = Inr a)"
  by (cases m) auto

text \<open>\<open>xs.map(f)\<close> where \<open>f\<close> may throw: the first failure, in index order, is the failure.\<close>

fun mapM :: "('a \<Rightarrow> 'e + 'b) \<Rightarrow> 'a list \<Rightarrow> 'e + 'b list" where
  "mapM f [] = Inr []"
| "mapM f (x # xs) = rbind (f x) (\<lambda>y. rbind (mapM f xs) (\<lambda>ys. Inr (y # ys)))"

lemma mapM_eq_Inr: "mapM f xs = Inr ys \<longleftrightarrow> list_all2 (\<lambda>x y. f x = Inr y) xs ys"
  by (induction xs arbitrary: ys) (auto simp: res_simps list_all2_Cons1)

lemma mapM_length: "mapM f xs = Inr ys \<Longrightarrow> length ys = length xs"
  by (auto simp: mapM_eq_Inr dest: list_all2_lengthD)

lemma mapM_total: "(\<And>x. x \<in> set xs \<Longrightarrow> f x = Inr (g x)) \<Longrightarrow> mapM f xs = Inr (map g xs)"
  by (induction xs) auto

lemma mapM_Inl: "mapM f xs = Inl e \<Longrightarrow> \<exists>x \<in> set xs. f x = Inl e"
  by (induction xs) (auto simp: rbind_def split: sum.splits)

text \<open>\<open>xs.reduce(f, a)\<close> where \<open>f\<close> may throw.\<close>

fun foldM :: "('b \<Rightarrow> 'a \<Rightarrow> 'e + 'b) \<Rightarrow> 'b \<Rightarrow> 'a list \<Rightarrow> 'e + 'b" where
  "foldM f b [] = Inr b"
| "foldM f b (x # xs) = rbind (f b x) (\<lambda>b'. foldM f b' xs)"

lemma foldM_append: "foldM f b (xs @ ys) = rbind (foldM f b xs) (\<lambda>b'. foldM f b' ys)"
  by (induction xs arbitrary: b) (auto simp: rbind_def split: sum.splits)

lemma foldM_total:
  "I b \<Longrightarrow> (\<And>b x. I b \<Longrightarrow> x \<in> set xs \<Longrightarrow> f b x = Inr (g b x) \<and> I (g b x)) \<Longrightarrow>
   foldM f b xs = Inr (foldl g b xs) \<and> I (foldl g b xs)"
  by (induction xs arbitrary: b) auto

text \<open>A fold keeps whatever every successful step keeps.\<close>

lemma foldM_invariant:
  assumes "foldM f b xs = Inr c" and "I b"
    and step: "\<And>b x b'. I b \<Longrightarrow> x \<in> set xs \<Longrightarrow> f b x = Inr b' \<Longrightarrow> I b'"
  shows "I c"
  using assms
proof (induction xs arbitrary: b)
  case Nil
  then show ?case by simp
next
  case (Cons x xs)
  from Cons.prems(1) obtain b' where b': "f b x = Inr b'" and rest: "foldM f b' xs = Inr c"
    by (auto simp: rbind_eq_Inr)
  have "I b'" by (rule Cons.prems(3) [OF Cons.prems(2) _ b']) simp
  with rest show ?case
    by (rule Cons.IH) (rule Cons.prems(3), auto)
qed

text \<open>A fold simulates another along an abstraction that every successful step respects.\<close>

lemma foldM_simulation:
  assumes "foldM f b xs = Inr c" and "I b"
    and step: "\<And>b x b'. I b \<Longrightarrow> x \<in> set xs \<Longrightarrow> f b x = Inr b' \<Longrightarrow> g (view b) x = Inr (view b') \<and> I b'"
  shows "foldM g (view b) xs = Inr (view c) \<and> I c"
  using assms
proof (induction xs arbitrary: b)
  case (Cons x xs)
  from Cons.prems(1) obtain b' where b': "f b x = Inr b'" and rest: "foldM f b' xs = Inr c"
    by (auto simp: rbind_eq_Inr)
  have s: "g (view b) x = Inr (view b') \<and> I b'" by (rule Cons.prems(3) [OF Cons.prems(2) _ b']) simp
  have "foldM g (view b') xs = Inr (view c) \<and> I c"
    by (rule Cons.IH [OF rest]) (use s Cons.prems(3) in auto)
  with s show ?case by simp
qed simp

lemma foldM_map: "foldM f b (map h xs) = foldM (\<lambda>b x. f b (h x)) b xs"
  by (induction xs arbitrary: b) simp_all

lemma foldM_nth: "foldM (\<lambda>b i. f b (xs ! i)) b [0..<length xs] = foldM f b xs"
  using foldM_map [of f b "nth xs" "[0..<length xs]"] by (simp add: map_nth)

text \<open>Indexed map, as \<open>xs.map((x, i) => ...)\<close>.\<close>

definition mapi :: "(nat \<Rightarrow> 'a \<Rightarrow> 'b) \<Rightarrow> 'a list \<Rightarrow> 'b list" where
  "mapi f xs = map (\<lambda>(i, x). f i x) (zip [0..<length xs] xs)"

lemma length_mapi [simp]: "length (mapi f xs) = length xs"
  by (simp add: mapi_def)

lemma nth_mapi [simp]: "i < length xs \<Longrightarrow> mapi f xs ! i = f i (xs ! i)"
  by (simp add: mapi_def)

lemma mapi_eqI:
  "length ys = length xs \<Longrightarrow> (\<And>i. i < length xs \<Longrightarrow> ys ! i = f i (xs ! i)) \<Longrightarrow> mapi f xs = ys"
  by (rule nth_equalityI) auto

section \<open>Safe integers\<close>

definition isSafeInteger :: "int \<Rightarrow> bool" where
  "isSafeInteger n \<longleftrightarrow> \<bar>n\<bar> \<le> 9007199254740991"

section \<open>Case folding\<close>

definition lower_char :: "char \<Rightarrow> char" where
  "lower_char c =
     (if 65 \<le> (of_char c :: nat) \<and> (of_char c :: nat) \<le> 90 then char_of ((of_char c :: nat) + 32)
      else c)"

definition toLowerCase :: "string \<Rightarrow> string" where
  "toLowerCase s = map lower_char s"

text \<open>The comparison \<open>a.toLowerCase() === b.toLowerCase()\<close> that the packages call
  \<open>equal\<close>, \<open>same\<close>, \<open>sameAddress\<close> or \<open>sameHash\<close>.\<close>

definition sameText :: "string \<Rightarrow> string \<Rightarrow> bool" where
  "sameText a b \<longleftrightarrow> toLowerCase a = toLowerCase b"

lemma sameText_refl [simp]: "sameText a a"
  by (simp add: sameText_def)

lemma sameText_sym: "sameText a b \<Longrightarrow> sameText b a"
  by (simp add: sameText_def)

lemma sameText_trans [trans]: "sameText a b \<Longrightarrow> sameText b c \<Longrightarrow> sameText a c"
  by (simp add: sameText_def)

lemma sameText_cong: "sameText a b \<Longrightarrow> sameText a c = sameText b c"
  by (simp add: sameText_def)

lemma lower_char_idem [simp]: "lower_char (lower_char c) = lower_char c"
proof -
  have "(of_char (char_of (n + 32) :: char) :: nat) = n + 32" if "n \<le> 90" for n :: nat
    using that by simp
  then show ?thesis by (auto simp: lower_char_def)
qed

lemma toLowerCase_idem [simp]: "toLowerCase (toLowerCase s) = toLowerCase s"
  by (simp add: toLowerCase_def comp_def)

lemma length_toLowerCase [simp]: "length (toLowerCase s) = length s"
  by (simp add: toLowerCase_def)

section \<open>Hexadecimal text\<close>

definition is_hex :: "char \<Rightarrow> bool" where
  "is_hex c =
     (let n = (of_char c :: nat)
      in 48 \<le> n \<and> n \<le> 57 \<or> 65 \<le> n \<and> n \<le> 70 \<or> 97 \<le> n \<and> n \<le> 102)"

definition hex_value :: "char \<Rightarrow> nat" where
  "hex_value c =
     (let n = (of_char c :: nat)
      in if n \<le> 57 then n - 48 else if n \<le> 70 then n - 55 else n - 87)"

text \<open>The regular expression \<open>^0x[0-9a-fA-F]{2n}$\<close> of the \<open>bytes\<close> helpers.\<close>

definition bytes :: "string \<Rightarrow> nat \<Rightarrow> bool" where
  "bytes s n \<longleftrightarrow> take 2 s = ''0x'' \<and> length s = 2 + 2 * n \<and> list_all is_hex (drop 2 s)"

definition hex_digits_value :: "string \<Rightarrow> nat" where
  "hex_digits_value ds = foldl (\<lambda>a c. a * 16 + hex_value c) 0 ds"

text \<open>\<open>BigInt(s)\<close> of a \<open>0x\<close> string.\<close>

definition BigInt_hex :: "string \<Rightarrow> int" where
  "BigInt_hex s = int (hex_digits_value (drop 2 s))"

lemma hex_value_less: "is_hex c \<Longrightarrow> hex_value c < 16"
  by (auto simp: is_hex_def hex_value_def Let_def)

lemma hex_value_lower [simp]: "is_hex c \<Longrightarrow> hex_value (lower_char c) = hex_value c"
  by (auto simp: is_hex_def hex_value_def lower_char_def Let_def)

lemma of_char_inj: "(of_char c :: nat) = of_char d \<longleftrightarrow> c = d"
  by (metis char_of_char)

lemma hex_code_inj:
  fixes m n :: nat
  assumes "48 \<le> m \<and> m \<le> 57 \<or> 65 \<le> m \<and> m \<le> 70 \<or> 97 \<le> m \<and> m \<le> 102"
    and "48 \<le> n \<and> n \<le> 57 \<or> 65 \<le> n \<and> n \<le> 70 \<or> 97 \<le> n \<and> n \<le> 102"
    and "(if m \<le> 57 then m - 48 else if m \<le> 70 then m - 55 else m - 87) =
         (if n \<le> 57 then n - 48 else if n \<le> 70 then n - 55 else n - 87)"
  shows "(if 65 \<le> m \<and> m \<le> 90 then m + 32 else m) = (if 65 \<le> n \<and> n \<le> 90 then n + 32 else n)"
  using assms by (auto split: if_splits)

lemma hex_value_inj:
  assumes "is_hex c" and "is_hex d" and "hex_value c = hex_value d"
  shows "lower_char c = lower_char d"
proof -
  let ?low = "\<lambda>n. if 65 \<le> n \<and> n \<le> (90::nat) then n + 32 else n"
  have low: "lower_char e = char_of (?low (of_char e :: nat))" for e
    by (simp add: lower_char_def)
  have "?low (of_char c) = ?low (of_char d)"
    by (rule hex_code_inj) (use assms in \<open>simp_all only: is_hex_def hex_value_def Let_def\<close>)
  then show ?thesis by (simp only: low)
qed

lemma foldl_hex: "foldl (\<lambda>a c. a * 16 + hex_value c) n ds = n * 16 ^ length ds + hex_digits_value ds"
proof (induction ds arbitrary: n)
  case Nil
  show ?case by (simp add: hex_digits_value_def)
next
  case (Cons c ds)
  have "hex_digits_value (c # ds) = hex_value c * 16 ^ length ds + hex_digits_value ds"
    by (simp add: hex_digits_value_def [of "c # ds"] Cons.IH)
  moreover have "foldl (\<lambda>a c. a * 16 + hex_value c) n (c # ds) =
      (n * 16 + hex_value c) * 16 ^ length ds + hex_digits_value ds"
    by (simp only: foldl_Cons Cons.IH)
  ultimately show ?case by (simp add: algebra_simps)
qed

lemma hex_digits_value_Cons:
  "hex_digits_value (c # ds) = hex_value c * 16 ^ length ds + hex_digits_value ds"
  using foldl_hex [of "hex_value c" ds] by (simp add: hex_digits_value_def [of "c # ds"])

lemma hex_digits_value_Nil [simp]: "hex_digits_value [] = 0"
  by (simp add: hex_digits_value_def)

lemma hex_digits_value_bound: "list_all is_hex ds \<Longrightarrow> hex_digits_value ds < 16 ^ length ds"
proof (induction ds)
  case Nil
  show ?case by simp
next
  case (Cons c ds)
  have "hex_value c \<le> 15" using Cons.prems hex_value_less [of c] by simp
  then have "hex_value c * 16 ^ length ds \<le> 15 * 16 ^ length ds"
    by (rule mult_le_mono1)
  moreover have "hex_digits_value ds < 16 ^ length ds" using Cons by simp
  ultimately have "hex_digits_value (c # ds) < 16 * 16 ^ length ds"
    unfolding hex_digits_value_Cons by linarith
  then show ?case by simp
qed

lemma hex_digits_value_inj:
  "list_all is_hex ds \<Longrightarrow> list_all is_hex es \<Longrightarrow> length ds = length es \<Longrightarrow>
   hex_digits_value ds = hex_digits_value es \<Longrightarrow> map lower_char ds = map lower_char es"
proof (induction ds es rule: list_induct2')
  case (4 c ds d es)
  let ?N = "16 ^ length ds"
  have b: "hex_digits_value ds < ?N" "hex_digits_value es < ?N"
    using "4.prems" hex_digits_value_bound [of ds] hex_digits_value_bound [of es] by simp_all
  have eq: "hex_value c * ?N + hex_digits_value ds = hex_value d * ?N + hex_digits_value es"
    using "4.prems" by (simp add: hex_digits_value_Cons)
  have hi: "(a * ?N + b) div ?N = a" and lo: "(a * ?N + b) mod ?N = b" if "b < ?N" for a b :: nat
    using that by simp_all
  have "hex_value c = hex_value d" "hex_digits_value ds = hex_digits_value es"
    using arg_cong [OF eq, of "\<lambda>n. n div ?N"] arg_cong [OF eq, of "\<lambda>n. n mod ?N"]
    by (simp_all only: hi [OF b(1)] hi [OF b(2)] lo [OF b(1)] lo [OF b(2)])
  with 4 show ?case by (simp add: hex_value_inj)
qed simp_all

lemma hex_digits_value_lower:
  "list_all is_hex ds \<Longrightarrow> hex_digits_value (map lower_char ds) = hex_digits_value ds"
  by (induction ds) (simp_all add: hex_digits_value_Cons)

lemma bytesD:
  assumes "bytes s n"
  obtains ds where "s = ''0x'' @ ds" and "length ds = 2 * n" and "list_all is_hex ds"
proof -
  have "s = take 2 s @ drop 2 s" by simp
  with assms show ?thesis
    by (intro that [of "drop 2 s"]) (simp_all add: bytes_def)
qed

text \<open>Two well-formed identifiers of the same size denote the same number exactly when they
  agree up to letter case: the numeric and the textual comparisons of the code coincide.\<close>

lemma BigInt_hex_eq_iff:
  assumes "bytes a n" and "bytes b n"
  shows "BigInt_hex a = BigInt_hex b \<longleftrightarrow> sameText a b"
proof -
  from assms(1) obtain ds where a: "a = ''0x'' @ ds" "length ds = 2 * n" "list_all is_hex ds"
    by (rule bytesD)
  from assms(2) obtain es where b: "b = ''0x'' @ es" "length es = 2 * n" "list_all is_hex es"
    by (rule bytesD)
  have "hex_digits_value ds = hex_digits_value es \<longleftrightarrow> map lower_char ds = map lower_char es"
    using a b hex_digits_value_inj hex_digits_value_lower by metis
  then show ?thesis
    by (simp add: a b BigInt_hex_def sameText_def toLowerCase_def)
qed

lemma BigInt_hex_nonneg [simp]: "0 \<le> BigInt_hex s"
  by (simp add: BigInt_hex_def)

lemma BigInt_hex_bound:
  assumes "bytes s n"
  shows "BigInt_hex s < 2 ^ (8 * n)"
proof -
  from assms obtain ds where s: "s = ''0x'' @ ds" "length ds = 2 * n" "list_all is_hex ds"
    by (rule bytesD)
  have "(16::nat) ^ (2 * n) = 2 ^ (8 * n)"
    by (simp add: power_mult)
  with hex_digits_value_bound [OF s(3)] s(2) have "hex_digits_value ds < 2 ^ (8 * n)"
    by simp
  then have "int (hex_digits_value ds) < int (2 ^ (8 * n))"
    by (simp only: of_nat_less_iff)
  then show ?thesis by (simp add: s BigInt_hex_def)
qed

definition zeroAddress :: string where
  "zeroAddress = ''0x'' @ replicate 40 (CHR ''0'')"

lemma bytes_zeroAddress [simp]: "bytes zeroAddress 20"
  by (simp add: bytes_def zeroAddress_def is_hex_def list_all_length)

end
