(* ===== verification/Effects.thy ===== *)
theory Effects
  imports Prelude
begin

text \<open>
  Asynchronous ports (history, keys, signer, storage, randomness) answer from a world the program
  does not control.  An effectful call takes the world and returns a result, or the exception it
  throws, with the next world: two calls of the same port may give different answers, which is what
  the rechecks of the code are for.
\<close>

type_synonym ('w, 'e, 'a) run = "'w \<Rightarrow> ('e + 'a) \<times> 'w"

text \<open>The calls that throw the packages' failures.\<close>

type_synonym ('w, 'a) eff = "('w, failure, 'a) run"

definition ereturn :: "'a \<Rightarrow> ('w, 'e, 'a) run" where
  "ereturn a = (\<lambda>w. (Inr a, w))"

definition ethrow :: "'e \<Rightarrow> ('w, 'e, 'a) run" where
  "ethrow e = (\<lambda>w. (Inl e, w))"

text \<open>A pure computation that may throw.\<close>

definition elift :: "'e + 'a \<Rightarrow> ('w, 'e, 'a) run" where
  "elift m = (\<lambda>w. (m, w))"

definition ebind :: "('w, 'e, 'a) run \<Rightarrow> ('a \<Rightarrow> ('w, 'e, 'b) run) \<Rightarrow> ('w, 'e, 'b) run" where
  "ebind m f = (\<lambda>w. case m w of (Inl e, w') \<Rightarrow> (Inl e, w') | (Inr a, w') \<Rightarrow> f a w')"

text \<open>\<open>try { m } catch (e) { h(e) }\<close>.\<close>

definition ecatch :: "('w, 'e, 'a) run \<Rightarrow> ('e \<Rightarrow> ('w, 'x, 'a) run) \<Rightarrow> ('w, 'x, 'a) run" where
  "ecatch m h = (\<lambda>w. case m w of (Inl e, w') \<Rightarrow> h e w' | (Inr a, w') \<Rightarrow> (Inr a, w'))"

text \<open>Every failure of the call is replaced by \<open>e\<close>: \<open>try { m } catch { throw e }\<close>.\<close>

definition ecast :: "'e \<Rightarrow> ('w, 'x, 'a) run \<Rightarrow> ('w, 'e, 'a) run" where
  "ecast e m = ecatch m (\<lambda>_. ethrow e)"

fun emapM :: "('a \<Rightarrow> ('w, 'e, 'b) run) \<Rightarrow> 'a list \<Rightarrow> ('w, 'e, 'b list) run" where
  "emapM f [] = ereturn []"
| "emapM f (x # xs) = ebind (f x) (\<lambda>y. ebind (emapM f xs) (\<lambda>ys. ereturn (y # ys)))"

fun efoldM :: "('b \<Rightarrow> 'a \<Rightarrow> ('w, 'e, 'b) run) \<Rightarrow> 'b \<Rightarrow> 'a list \<Rightarrow> ('w, 'e, 'b) run" where
  "efoldM f b [] = ereturn b"
| "efoldM f b (x # xs) = ebind (f b x) (\<lambda>b'. efoldM f b' xs)"

named_theorems eff_simps \<open>running effectful computations\<close>

lemma ereturn_run [simp, eff_simps]: "ereturn a w = (Inr a, w)"
  and ethrow_run [simp, eff_simps]: "ethrow e w = (Inl e, w)"
  and elift_run [simp, eff_simps]: "elift m w = (m, w)"
  by (simp_all add: ereturn_def ethrow_def elift_def)

lemma ebind_eq_Inr [eff_simps]:
  "ebind m f w = (Inr b, w'') \<longleftrightarrow> (\<exists>a w'. m w = (Inr a, w') \<and> f a w' = (Inr b, w''))"
  by (auto simp: ebind_def split: prod.splits sum.splits)

lemma ebind_eq_Inl:
  "ebind m f w = (Inl e, w'') \<longleftrightarrow>
   m w = (Inl e, w'') \<or> (\<exists>a w'. m w = (Inr a, w') \<and> f a w' = (Inl e, w''))"
  by (auto simp: ebind_def split: prod.splits sum.splits)

lemma ebind_ereturn [simp]: "ebind (ereturn a) f w = f a w"
  and ebind_ethrow [simp]: "ebind (ethrow e) f w = (Inl e, w)"
  and ebind_elift_Inr [simp]: "ebind (elift (Inr a)) f w = f a w"
  and ebind_elift_Inl [simp]: "ebind (elift (Inl e)) f w = (Inl e, w)"
  by (simp_all add: ebind_def)

lemma ebind_run: "m w = (Inr a, w') \<Longrightarrow> ebind m f w = f a w'"
  and ebind_fail: "m w = (Inl e, w') \<Longrightarrow> ebind m f w = (Inl e, w')"
  by (simp_all add: ebind_def)

lemma ecatch_eq_Inr [eff_simps]:
  "ecatch m h w = (Inr b, w'') \<longleftrightarrow>
   m w = (Inr b, w'') \<or> (\<exists>e w'. m w = (Inl e, w') \<and> h e w' = (Inr b, w''))"
  by (auto simp: ecatch_def split: prod.splits sum.splits)

lemma ecatch_eq_Inl:
  "ecatch m h w = (Inl e, w'') \<longleftrightarrow> (\<exists>e' w'. m w = (Inl e', w') \<and> h e' w' = (Inl e, w''))"
  by (auto simp: ecatch_def split: prod.splits sum.splits)

lemma ecast_eq_Inr [eff_simps]: "ecast e m w = (Inr b, w') \<longleftrightarrow> m w = (Inr b, w')"
  by (auto simp: ecast_def ecatch_eq_Inr)

lemma ecast_eq_Inl: "ecast e m w = (Inl x, w') \<longleftrightarrow> x = e \<and> (\<exists>y. m w = (Inl y, w'))"
  by (auto simp: ecast_def ecatch_eq_Inl)

lemma ecatch_total: "(\<And>e w. \<exists>b w'. h e w = (Inr b, w')) \<Longrightarrow> \<exists>b w'. ecatch m h w = (Inr b, w')"
  by (auto simp: ecatch_def split: prod.split sum.split)

lemma emapM_length: "emapM f xs w = (Inr ys, w') \<Longrightarrow> length ys = length xs"
  by (induction xs arbitrary: ys w) (auto simp: ebind_eq_Inr)

text \<open>An effectful fold keeps whatever every successful step keeps.\<close>

lemma efoldM_invariant:
  assumes "efoldM f b xs w = (Inr c, w')" and "I b"
    and step: "\<And>b x b' w w'. I b \<Longrightarrow> x \<in> set xs \<Longrightarrow> f b x w = (Inr b', w') \<Longrightarrow> I b'"
  shows "I c"
  using assms
proof (induction xs arbitrary: b w)
  case Nil
  then show ?case by simp
next
  case (Cons x xs)
  from Cons.prems(1) obtain b' w1 where b': "f b x w = (Inr b', w1)" and rest: "efoldM f b' xs w1 = (Inr c, w')"
    by (auto simp: ebind_eq_Inr)
  have "I b'" by (rule Cons.prems(3) [OF Cons.prems(2) _ b']) simp
  with rest show ?case by (rule Cons.IH) (rule Cons.prems(3), auto)
qed

lemma efoldM_simulation:
  assumes "efoldM f b xs w = (Inr c, w')" and "I b"
    and step: "\<And>b x b' w w'. I b \<Longrightarrow> x \<in> set xs \<Longrightarrow> f b x w = (Inr b', w') \<Longrightarrow> g (view b) x = Inr (view b') \<and> I b'"
  shows "foldM g (view b) xs = Inr (view c) \<and> I c"
  using assms
proof (induction xs arbitrary: b w)
  case (Cons x xs)
  from Cons.prems(1) obtain b' w1 where b': "f b x w = (Inr b', w1)" and rest: "efoldM f b' xs w1 = (Inr c, w')"
    by (auto simp: ebind_eq_Inr)
  have s: "g (view b) x = Inr (view b') \<and> I b'" by (rule Cons.prems(3) [OF Cons.prems(2) _ b']) simp
  have "foldM g (view b') xs = Inr (view c) \<and> I c"
  proof (rule Cons.IH [OF rest])
    show "I b'" using s by simp
  qed (rule Cons.prems(3), simp_all)
  with s show ?case by simp
qed simp

end
