(* ===== verification/Bytes.thy ===== *)
theory Bytes
  imports Prelude "HOL-Library.Word"
begin

unbundle bit_operations_syntax

text \<open>
  \<open>packages/crypto/src/bytes.ts\<close>: byte arrays, their 256-bit big-endian words, and their
  hexadecimal text.  A \<open>Uint8Array\<close> is a list of 8-bit words.  Keccak-256 is a library function
  (\<open>@noble/hashes\<close>) and a parameter of the definitions that hash.
\<close>

type_synonym octets = "8 word list"

section \<open>Words\<close>

definition WORD_LIMIT :: int where
  "WORD_LIMIT = push_bit 256 1"

text \<open>The loop writes \<open>bytes[31]\<close> down to \<open>bytes[0]\<close>; \<open>acc\<close> holds what is written so far.\<close>

fun word_loop :: "nat \<Rightarrow> int \<Rightarrow> octets \<Rightarrow> octets" where
  "word_loop 0 rest acc = acc"
| "word_loop (Suc i) rest acc = word_loop i (drop_bit 8 rest) (word_of_int (rest AND 255) # acc)"

definition word256 :: "int \<Rightarrow> octets res" where
  "word256 value =
     (if value < 0 \<or> value \<ge> WORD_LIMIT then Inl (RangeError ''uint256 out of range'')
      else Inr (word_loop 32 value []))"

definition bytesToBigInt :: "octets \<Rightarrow> int" where
  "bytesToBigInt bs = foldl (\<lambda>result byte. push_bit 8 result OR uint byte) 0 bs"

definition concat_parts :: "octets list \<Rightarrow> octets" where
  "concat_parts parts = concat parts"

definition sameBytes :: "octets \<Rightarrow> octets \<Rightarrow> bool" where
  "sameBytes a b \<longleftrightarrow> length a = length b \<and> list_all (\<lambda>i. a ! i = b ! i) [0..<length a]"

definition utf8 :: "string \<Rightarrow> octets" where
  "utf8 s = map (\<lambda>c. word_of_nat (of_char c)) s"

definition tag :: "(octets \<Rightarrow> octets) \<Rightarrow> string \<Rightarrow> octets" where
  "tag keccak label = keccak (utf8 label)"

section \<open>Hexadecimal text of bytes\<close>

definition hex_char :: "nat \<Rightarrow> char" where
  "hex_char n = char_of (if n < 10 then n + 48 else n + 87)"

fun toString16 :: "nat \<Rightarrow> string" where
  "toString16 n = (if n < 16 then [hex_char n] else toString16 (n div 16) @ [hex_char (n mod 16)])"

declare toString16.simps [simp del]

definition padStart :: "nat \<Rightarrow> char \<Rightarrow> string \<Rightarrow> string" where
  "padStart n c s = replicate (n - length s) c @ s"

definition hexBytes :: "string \<Rightarrow> octets res" where
  "hexBytes value =
     (if \<not> (take 2 value = ''0x'' \<and> even (length value) \<and> list_all is_hex (drop 2 value))
      then Inl (RangeError ''invalid hex bytes'')
      else Inr (map (\<lambda>index. word_of_nat (hex_digits_value (take 2 (drop (2 + index * 2) value))))
                 [0..<(length value - 2) div 2]))"

definition bytesHex :: "octets \<Rightarrow> string" where
  "bytesHex value = concat (map (\<lambda>byte. padStart 2 (CHR ''0'') (toString16 (unat byte))) value)"

section \<open>Correctness of words\<close>

lemma WORD_LIMIT_eq: "WORD_LIMIT = 2 ^ 256"
  by (simp add: WORD_LIMIT_def)

lemma word_loop_acc: "word_loop n v acc = word_loop n v [] @ acc"
proof (induction n arbitrary: v acc)
  case 0
  show ?case by simp
next
  case (Suc n)
  show ?case
    using Suc.IH [of "drop_bit 8 v" "word_of_int (v AND 255) # acc"]
      Suc.IH [of "drop_bit 8 v" "[word_of_int (v AND 255)]"] by simp
qed

lemma word_loop_Suc: "word_loop (Suc n) v [] = word_loop n (v div 256) [] @ [word_of_int v]"
proof -
  have "v AND 255 = take_bit 8 v" by (simp add: take_bit_eq_mask mask_eq_exp_minus_1)
  then have "(word_of_int (v AND 255) :: 8 word) = word_of_int v"
    by (simp add: word_of_int_eq_iff)
  then have "word_loop (Suc n) v [] = word_loop n (v div 256) [word_of_int v]"
    by (simp add: drop_bit_eq_div)
  also have "\<dots> = word_loop n (v div 256) [] @ [word_of_int v]"
    by (rule word_loop_acc)
  finally show ?thesis .
qed

lemma length_word_loop [simp]: "length (word_loop n v acc) = n + length acc"
  by (induction n v acc rule: word_loop.induct) auto

lemma length_word256: "word256 v = Inr bs \<Longrightarrow> length bs = 32"
  by (auto simp: word256_def split: if_splits)

lemma word256_eq_Inr: "word256 v = Inr bs \<longleftrightarrow> 0 \<le> v \<and> v < 2 ^ 256 \<and> bs = word_loop 32 v []"
  by (auto simp: word256_def WORD_LIMIT_eq)

lemma push_byte: "push_bit 8 r OR uint (b :: 8 word) = r * 256 + uint b"
proof -
  have "push_bit 8 r AND uint b = 0"
    by (rule bit_eqI) (auto simp: bit_simps dest: bit_imp_le_length)
  then have "push_bit 8 r OR uint b = push_bit 8 r + uint b"
    by (simp add: disjunctive_add_eq_or)
  then show ?thesis by (simp add: push_bit_eq_mult)
qed

lemma bytesToBigInt_Nil [simp]: "bytesToBigInt [] = 0"
  by (simp add: bytesToBigInt_def)

lemma bytesToBigInt_snoc: "bytesToBigInt (bs @ [b]) = bytesToBigInt bs * 256 + uint b"
  by (simp add: bytesToBigInt_def push_byte)

lemma bytesToBigInt_nonneg [simp]: "0 \<le> bytesToBigInt bs"
  by (induction bs rule: rev_induct) (simp_all add: bytesToBigInt_snoc)

lemma bytesToBigInt_bound: "bytesToBigInt bs < 256 ^ length bs"
proof (induction bs rule: rev_induct)
  case Nil
  show ?case by simp
next
  case (snoc b bs)
  have "uint b < 256" using uint_lt2p [of b] by simp
  with snoc have "bytesToBigInt bs * 256 + uint b < (bytesToBigInt bs + 1) * 256" by simp
  also have "\<dots> \<le> 256 ^ length bs * 256"
    using snoc by (intro mult_right_mono) auto
  finally show ?case by (simp add: bytesToBigInt_snoc)
qed

lemma bytesToBigInt_word_loop: "0 \<le> v \<Longrightarrow> v < 256 ^ n \<Longrightarrow> bytesToBigInt (word_loop n v []) = v"
proof (induction n arbitrary: v)
  case 0
  then show ?case by simp
next
  case (Suc n)
  have "0 \<le> v div 256" and "v div 256 < 256 ^ n"
    using Suc.prems by (simp_all add: pos_imp_zdiv_nonneg_iff div_less_iff_less_mult mult.commute)
  moreover have "uint (word_of_int v :: 8 word) = v mod 256"
    by (simp add: uint_word_of_int)
  ultimately show ?case
    by (simp add: Suc.IH word_loop_Suc bytesToBigInt_snoc del: word_loop.simps)
qed

lemma word_loop_bytesToBigInt: "word_loop (length bs) (bytesToBigInt bs) [] = bs"
proof (induction bs rule: rev_induct)
  case Nil
  show ?case by simp
next
  case (snoc b bs)
  have b: "0 \<le> uint b" "uint b < 256" using uint_lt2p [of b] by simp_all
  then have "(bytesToBigInt bs * 256 + uint b) div 256 = bytesToBigInt bs" by simp
  moreover have "(word_of_int (bytesToBigInt bs * 256 + uint b) :: 8 word) = b"
  proof (rule word_uint_eqI)
    have "uint (word_of_int (bytesToBigInt bs * 256 + uint b) :: 8 word)
        = (bytesToBigInt bs * 256 + uint b) mod 256"
      by (simp only: uint_word_of_int) simp
    then show "uint (word_of_int (bytesToBigInt bs * 256 + uint b) :: 8 word) = uint b"
      using b by simp
  qed
  ultimately show ?case
    by (simp only: length_append_singleton bytesToBigInt_snoc word_loop_Suc snoc)
qed

lemma word256_total: "0 \<le> v \<Longrightarrow> v < 2 ^ 256 \<Longrightarrow> \<exists>bs. word256 v = Inr bs"
  by (auto simp: word256_def WORD_LIMIT_eq)

lemma bytesToBigInt_word256: "word256 v = Inr bs \<Longrightarrow> bytesToBigInt bs = v"
  by (auto simp: word256_eq_Inr intro: bytesToBigInt_word_loop)

lemma word256_bytesToBigInt: "length bs = 32 \<Longrightarrow> word256 (bytesToBigInt bs) = Inr bs"
  using bytesToBigInt_bound [of bs] word_loop_bytesToBigInt [of bs] by (simp add: word256_eq_Inr)

lemma sameBytes_iff: "sameBytes a b \<longleftrightarrow> a = b"
  by (auto simp: sameBytes_def list_all_iff intro: nth_equalityI)


section \<open>Correctness of hexadecimal text\<close>

lemma unat_byte_less: "unat (b :: 8 word) < 256"
  using unsigned_less [of b] by simp

lemma hex_char_props:
  assumes "n < 16"
  shows "is_hex (hex_char n)" and "hex_value (hex_char n) = n"
  using assms by (auto simp: is_hex_def hex_value_def hex_char_def Let_def)

lemma toString16_byte:
  assumes "n < 256"
  shows "padStart 2 (CHR ''0'') (toString16 n) = [hex_char (n div 16), hex_char (n mod 16)]"
proof -
  have "hex_char 0 = CHR ''0''" by (simp add: hex_char_def char_of_def bit_Suc_0_iff)
  moreover have "n div 16 < 16" using assms by simp
  ultimately show ?thesis
    using toString16.simps [of n] toString16.simps [of "n div 16"]
    by (cases "n < 16") (simp_all add: padStart_def numeral_2_eq_2)
qed

lemma byte_digits:
  "padStart 2 (CHR ''0'') (toString16 (unat (b :: 8 word))) = [hex_char (unat b div 16), hex_char (unat b mod 16)]"
  by (intro toString16_byte unat_byte_less)

lemma bytesHex_Nil [simp]: "bytesHex [] = []"
  by (simp add: bytesHex_def)

lemma bytesHex_Cons [simp]:
  "bytesHex (b # bs) = hex_char (unat b div 16) # hex_char (unat b mod 16) # bytesHex bs"
  by (simp add: bytesHex_def byte_digits)

lemma length_bytesHex [simp]: "length (bytesHex bs) = 2 * length bs"
  by (induction bs) auto

lemma is_hex_bytesHex: "list_all is_hex (bytesHex bs)"
proof (induction bs)
  case (Cons b bs)
  have "unat b div 16 < 16" using unat_byte_less [of b] by simp
  with Cons show ?case by (simp add: hex_char_props)
qed simp

lemma bytesHex_pair:
  "i < length bs \<Longrightarrow> take 2 (drop (i * 2) (bytesHex bs)) =
     [hex_char (unat (bs ! i) div 16), hex_char (unat (bs ! i) mod 16)]"
  by (induction bs arbitrary: i) (auto simp: nth_Cons split: nat.splits)

lemma hexBytes_bytesHex: "hexBytes (''0x'' @ bytesHex bs) = Inr bs"
proof -
  have byte: "word_of_nat (hex_digits_value (take 2 (drop (i * 2) (bytesHex bs)))) = bs ! i"
    if "i < length bs" for i
  proof -
    have lt: "unat (bs ! i) div 16 < 16" using unat_byte_less [of "bs ! i"] by simp
    have "hex_digits_value [hex_char (unat (bs ! i) div 16), hex_char (unat (bs ! i) mod 16)]
        = unat (bs ! i)"
      using lt by (simp add: hex_digits_value_Cons hex_char_props)
    then show ?thesis using bytesHex_pair [OF that] by simp
  qed
  show ?thesis
    by (auto simp: hexBytes_def is_hex_bytesHex byte intro!: nth_equalityI)
qed

lemma bytes_bytesHex: "bytes (''0x'' @ bytesHex bs) (length bs)"
  by (simp add: bytes_def is_hex_bytesHex)

lemma hexBytes_length: "bytes s n \<Longrightarrow> \<exists>bs. hexBytes s = Inr bs \<and> length bs = n"
  by (auto simp: hexBytes_def bytes_def)

end
