(* ===== verification/FixedParameters.thy ===== *)
theory FixedParameters
  imports Bytes
begin

text \<open>
  The points of \<open>group.ts\<close> and the constants of \<open>packages/crypto/src/fixed-parameters.ts\<close>: the two
  commitment bases, the two vectors of 64 bases of the range proof, the parameters hash, and the
  check that the module performs when it is loaded.
\<close>

record G1Point =
  px :: int
  py :: int

definition H_base :: G1Point where
  "H_base = \<lparr>px = 12730586376239396577779996276718232087903100639305218386364088504561595411059, py = 11546560963110481742356578822308548249278318971213841271481263934160486303484\<rparr>"

definition G_base :: G1Point where
  "G_base = \<lparr>px = 10761899322201753907488574554624072832672186484354855590619514852343117816213, py = 13379372057202721286017964291077114196925452861447087137187819632002026932859\<rparr>"

definition GS :: "G1Point list" where
  "GS = [
    \<lparr>px = 10603362801992844759260785766441345597858924465198337971275077684349122428966, py = 14859873091673312623091444918712938940869170676191153989796847532979393951473\<rparr>,
    \<lparr>px = 415119667548096293632973822224964213560610074846928324741680382513643014234, py = 8975412464101348656352286416705329879095546165678469280489112179477000747546\<rparr>,
    \<lparr>px = 12643332390633599626761284270144599024786794490228830815907283509067544578608, py = 17578000757113528344585478490273844026296192185203003737331752392828407894279\<rparr>,
    \<lparr>px = 7704764159189562679026038558185805140243126592366499042105694224019758863880, py = 12174758382630009888242608755888246970285507690109228303468608664458441601146\<rparr>,
    \<lparr>px = 11056255692444307782172609781680643836826361585517883960862528068391327305337, py = 15877697936535744157386923338721821961226366670507113345614181244742908424066\<rparr>,
    \<lparr>px = 9523495499014845785588425212250033756380769147997241689439865479765791841131, py = 15374843276057782804261158145620025576839955923028207109700320595161454942846\<rparr>,
    \<lparr>px = 17753275356134684993593831422583095645527619542342991048104017601476418483899, py = 12585828157288607105032847993296179224735344751600853627328137858731700729082\<rparr>,
    \<lparr>px = 8591593664621164917223822407748368461707849066989394661251796790260241617512, py = 8011058756719245732013981954564120055077627217353851824940470028828736518692\<rparr>,
    \<lparr>px = 4955329142043473721820351669415140548009164070846908247561664915297909686633, py = 7588021133099680496168670027988747650962877344012063966015530377616850742074\<rparr>,
    \<lparr>px = 10520776493310006174615095715254414347215745391258592169886071900702447304193, py = 4222594409587039263551911288331817207778858570756999797043510511989287176727\<rparr>,
    \<lparr>px = 6821818495829909482513780419675043674854014521513916405231784840887397533753, py = 21680690205312184611744428967196047825896693965796288849313941914754432209614\<rparr>,
    \<lparr>px = 7442277218561813077273268889427252765780765105899731820328641555302603130702, py = 8693133630529760784433020004980974938282011840332734550830463884267429219930\<rparr>,
    \<lparr>px = 16115164962976244250512995014418656764683192749823609175055969334624593039004, py = 11795694301875497960762473736801161331195542754677002731489795205511693475128\<rparr>,
    \<lparr>px = 21843958113578085672137880048739623069910355442092751286782269622478106670894, py = 20830907777515952658517015894971826364491178599596210153509819090603734384213\<rparr>,
    \<lparr>px = 885447593596772768538051229167039284938357812341227768623591583111562279957, py = 3357550337246146698872789891986824094209139037332781000633976792746386029075\<rparr>,
    \<lparr>px = 2328419108392191875518138110670506917481106483712648686295008139952317582397, py = 10711401198398893811408426003473188449287293975206982430442986365469147775773\<rparr>,
    \<lparr>px = 15698219268463814204108744862504946870878792441610013936174201032742399085237, py = 3331269440819042231633823613896616725042524738154630562022520127370627876023\<rparr>,
    \<lparr>px = 15128119571164832969800442424716418247893624085617456274000436813210905612320, py = 21006944243014992734396401604752956724033043057831853553337695948709413403283\<rparr>,
    \<lparr>px = 12667686438602390736777673002596613805382562745575109626812177435577710892363, py = 21088134525962768135672013299739075404817255587314517843930516575230593197205\<rparr>,
    \<lparr>px = 3525992303377877513708235794235875732336304801997870866950177558306482107332, py = 16121718805047887178299557428300626078448562466012750763834015658534806639765\<rparr>,
    \<lparr>px = 6422620994787246982211117436750700443585638356863019819936996974595732570033, py = 16577886984518697373313942310837108734728381298288117887523433505640047834619\<rparr>,
    \<lparr>px = 6890140493025055721846427369009214768080383636635887802847933619797303418770, py = 6685659956184927181084824339989019079377811844236156985690160471073629475862\<rparr>,
    \<lparr>px = 11468588954679241435603134956971792991713844172584993061004697669042802409749, py = 20245260062356225018370973070690557236450345367824861627120487453635180311122\<rparr>,
    \<lparr>px = 816797324539806106036098948313293592107705751462531104753464180991638607872, py = 4798389903280926389297489550175812086854209555950623644509177541424671675031\<rparr>,
    \<lparr>px = 9029265790024323203232707516113612844044112763395531364253478198898137808578, py = 12228989572651639538575134008642274396676065998129304765490946601071370862289\<rparr>,
    \<lparr>px = 19790740310922333572474780907344694424461259701953896679461077241272724211314, py = 456843439041515887188117629716235086149850668593576087246016096319510655493\<rparr>,
    \<lparr>px = 7822833216297639597529901332455551446863725534835344923829561547855239761034, py = 7209672161159394203701969637927212281625583223007113788900841836387846705028\<rparr>,
    \<lparr>px = 13356793263028312759168670426243323977138548865018821891075552325100031127377, py = 4388174198674911066838079034363813733447561851511668256302589766128754646634\<rparr>,
    \<lparr>px = 4792890043301910163774131092380402193706278626357418355388337144921061628107, py = 4972102869579842956414751331099396470542902280228441422477633149954007229318\<rparr>,
    \<lparr>px = 21275051782845095201473626508988902076727312387967619636995973434017192174312, py = 7179645391182828389524960990280275392746931642025114956258371964942167660805\<rparr>,
    \<lparr>px = 17211314014817429189785917834065544108979322651956454937162110825313393810594, py = 940174415071520895179339578865218152121165307978877995350118912215839255471\<rparr>,
    \<lparr>px = 525078296380310587447225546212326876791987491505196639929926556019637226091, py = 14579366721796201754634252084663166867510811841428711866683293693197364470292\<rparr>,
    \<lparr>px = 21619038764203739410923581170808399451375913326461347969472269434004352342593, py = 20837278467095266773608672767813747790513103226104426919893459066682647173019\<rparr>,
    \<lparr>px = 17888386498345520028858161920203305061147496287638890405209658921269896915078, py = 9805018029727371285659737871586974407572806651958725660611397332129805962189\<rparr>,
    \<lparr>px = 21709092038066222234100548525559537898446495706639249408022060238526952762116, py = 5962561009515072337726879187305687544171961311983846904247425878109095032231\<rparr>,
    \<lparr>px = 13769511962431298476401829354753778893708673141236313722981638657687104629976, py = 3059936721082461739919633770546529566804089419968597258782384195637884823717\<rparr>,
    \<lparr>px = 11129603619006594365208255460560741258043065578744557267304111354885004268992, py = 16448111922871219247099383768477201269044591802170810981497596570481315485436\<rparr>,
    \<lparr>px = 5605191356201128698974232054956696513140624757120695957615527490600971604357, py = 2465271287020178313847543696019494155611473929494331474315461792482120722507\<rparr>,
    \<lparr>px = 2179612351832083608480407824701033354916693407474602964334357009441621916361, py = 7620734572575312281474616261650047836682366644681227697388055020035113617992\<rparr>,
    \<lparr>px = 9035739402430982239411584806636043932479169125607124982691502765285120857870, py = 2701514912362640246016568805466463635282119307418057057723319465213463662585\<rparr>,
    \<lparr>px = 3504557752974052668115764251607646106305346900602045580240717853076688358834, py = 18709193596907845470318253603482586182001807851904357238891343045832717134372\<rparr>,
    \<lparr>px = 12357403848682147935928523939010002379595667899736318546452897901659554506847, py = 3893033018289742897850702580367995378844942185338864642936484975629304393439\<rparr>,
    \<lparr>px = 13858573977274597300840688760021575629988011274553838734249817292839910223925, py = 11157637513410123214597333947387295986928578337915808176852683933436902239051\<rparr>,
    \<lparr>px = 4442525226125578660359748126155312922027312917197121648060745728599395398299, py = 12698683604602669974469577184598989035991214311386349816098347133479510714003\<rparr>,
    \<lparr>px = 15483472352159859856236024793747977695647395685899379756545927405596480998637, py = 694885983433999582168420920832125453258751623352981879867876568932137841616\<rparr>,
    \<lparr>px = 7894799750533636410838293547701562680677169237777514870852432459057504085866, py = 1569270190258657137177156043780181624745594601925931652603189860789640759348\<rparr>,
    \<lparr>px = 2170377128407000894035331334444858950775805844848128012561051429181479932207, py = 18134443902929787263223216957455609147853557047989171689006594893808763505739\<rparr>,
    \<lparr>px = 6415271395027438723852155121704555320487033921137065052238983213685942901913, py = 11706933767354904890779552066667386247933153295803049971895562460599368354807\<rparr>,
    \<lparr>px = 1197344822487663305537387824118931322619820717167386909784932271284591160264, py = 10232086989122086656954229809609155880275100421255358458075058569492735815058\<rparr>,
    \<lparr>px = 7570711975838757162448298175127542652102324534047785049529980115150545615917, py = 8965191418887656901989376399612348704875006081880592780775602230529102488630\<rparr>,
    \<lparr>px = 7934870159983693058544934940425649335369502019227020198988310156197552854060, py = 1773920771876391485061741915046969479475408226529514768966646462786386287540\<rparr>,
    \<lparr>px = 18643247074160774683684016535505048193271915824366523377588179910683919717369, py = 4642753692977955667968073924207092277758132548808102240052521386661555142905\<rparr>,
    \<lparr>px = 21168981942873413921650154037531857481345160898296254616214555746575965854745, py = 1473658080851474425561339877128450624879477780423693019151269321262106152124\<rparr>,
    \<lparr>px = 4603926689873646454514828766423176390115194084218189148625432734395096202035, py = 17327693614570437142853226901849019769118454892524752441050002623052418271203\<rparr>,
    \<lparr>px = 8042024799994998776085658188622903640801212565395171196013967128456327218608, py = 10273082560136287912544078156269973374845649639534877829247136906942860340874\<rparr>,
    \<lparr>px = 19314187700639628031247275417195202740927818641477948077104494573207525827316, py = 10828228297490073656110383890520023042019957927643310505672255569595542731070\<rparr>,
    \<lparr>px = 9938229519599252736322586546124764157725325098286247494814276788705105881180, py = 2068725829267654351293098793952949684803782902683065468390630698301480241899\<rparr>,
    \<lparr>px = 14868774768582747608799176926304907475902216072433627851443669437482001914358, py = 4520824399171744461024865211402063335702195886199481220386679539901170803343\<rparr>,
    \<lparr>px = 14974929534856497518364137402280556428742003294009913455745664803228434251963, py = 7746196956341910810603814841628968604407656184808988358980144898752225784026\<rparr>,
    \<lparr>px = 9526762738368185360120167885904361753939379534054897068324614019510254916384, py = 21508040582624654110276569660058082134099813495692216813776264083267703480467\<rparr>,
    \<lparr>px = 202057690534290453642657882753133675358848641484560684381634702937025267508, py = 12791480461037412421233481671297090976218369193850478088100281850331276740204\<rparr>,
    \<lparr>px = 4330869608111456291696866322154055024579689533953188459104389316051652934046, py = 12846405304109350116284316476765167508663143432815686051278361206168896415196\<rparr>,
    \<lparr>px = 19618087862932229485266893290307270402916910469847488646338701348819720537327, py = 11393259527039274746973719033336678190579966955142662495210335034346311031873\<rparr>,
    \<lparr>px = 20889192895660797072326613059982384570121107682962767798709927413582910470083, py = 15467595480726764241421917784162199387299976047896249128390776483755784061257\<rparr>]"

definition HS :: "G1Point list" where
  "HS = [
    \<lparr>px = 15323646730173903496775422782599134179046971171677279380513779246024913312167, py = 19490460456905672013003176301149605145147222380705672383497999921558277798278\<rparr>,
    \<lparr>px = 18697698641949196599659118890698143989179018891975833690816650618348005967797, py = 5264088778694621349456732461153236104939010285831367782609522083184056568923\<rparr>,
    \<lparr>px = 9814448011357058617862391179437752459432117255494831005239274549224356593591, py = 2502223461704705845050066044295854017492628973982192695504737071392968251067\<rparr>,
    \<lparr>px = 5198793677853747883867935108479705060827176332097563762294516666499264358550, py = 10606800650053977633488269623027665228936185690984187876735293424662585810539\<rparr>,
    \<lparr>px = 3949941383895952839089412539372354649667689169075956750938582814332388327182, py = 14524380982097160901966420614957400910523713472407708176376706975540375952418\<rparr>,
    \<lparr>px = 15359623420031527653844760748017437731748341843001315345712927765093895093732, py = 9082766445582998550030421342490783629109048815526103362684894104876007193840\<rparr>,
    \<lparr>px = 15012348113648595895049518909935791654076374686648036309049270951981616446738, py = 1110080602681473343313733901529072680322182382083914903415916689812941379923\<rparr>,
    \<lparr>px = 2892607449834754567853175338112227084249183922346920460551557508370808595060, py = 14434188002033743729772632047889042255996834102697272319493249823106460051744\<rparr>,
    \<lparr>px = 10616865216400988880493903070008079873499714802129557342457409394449724544960, py = 6925339553051892555199586455276997868487541715690983149366231865356878384625\<rparr>,
    \<lparr>px = 15097959764485118607616860271855334133755138641334242790091122692807791213067, py = 19026809601858023274092888065528905609076775655044276233366772552315777842247\<rparr>,
    \<lparr>px = 20517917451692568991338396726040695921299676536916394277959504100734242574359, py = 477096210000069880215654505503671468463233521942108655035356796479680315954\<rparr>,
    \<lparr>px = 13228197526593128731820637118024995033037208471591366603068261200525647658313, py = 19595155921619418442349905126222889301630017189060552643878616161652117816729\<rparr>,
    \<lparr>px = 3413438441205178822737163732495854673419951734382883984259447013851178610419, py = 20515391145413395268915734612444094991884671808425197374242509820688099942311\<rparr>,
    \<lparr>px = 6855371973049531169546377470990679889066512138180647733421702641114359351729, py = 17999427204545863748939043459766266044713016903476981995520541212130776351925\<rparr>,
    \<lparr>px = 8078482356756001464022917729150770377799764308339103833018106311641880074927, py = 21658765418834288803518857270627496028718863660670620103535918707638437612873\<rparr>,
    \<lparr>px = 885703756370261793372537650073439665144732760391367826749970125143415912637, py = 3629665392001556209277307691373476558554430369149029380025140111612255385558\<rparr>,
    \<lparr>px = 1197944512542074640885441243909500587713406599480481423162963651178038339549, py = 11191187302206457270227672528709765925750516475640161657375010301911903122330\<rparr>,
    \<lparr>px = 4816845800423848675118219133615736525268156958205010312880781553395669903227, py = 6466221839470673960756492125731825144298421081297215941124863890002800527100\<rparr>,
    \<lparr>px = 4259568051225711037500491300994510197512319483528047913963791874612947920685, py = 9006906220889615183141884541265922561344545177203759148432116935085736336820\<rparr>,
    \<lparr>px = 10337614655646445947439681124605655603646375143400459333592417622630258319564, py = 8620129187537574692801085934621650297022029102415764002170774820352665715852\<rparr>,
    \<lparr>px = 11169781098684886696330358054640755526654961168518629390309090787739322165969, py = 16010650407668893452766759793939262582698337303551356626818017878518025704833\<rparr>,
    \<lparr>px = 17473360044429978491000057311771598237917968425642123740083593962287783019564, py = 4506176220464270201107670351980416639444218193545824827090452357404952040651\<rparr>,
    \<lparr>px = 1795164309008561911869861963635451043267993799429714941314950768411388879867, py = 1060236110861141125787264186396902251335293547715441989304449393219263690391\<rparr>,
    \<lparr>px = 17570464608214800524560120713122563943609617606671036447397669749830598294404, py = 7171210240492775000311810086712210574795893571426104593846332120650979405351\<rparr>,
    \<lparr>px = 17183201559718680079435871744681464739105840282674109957413191273063216459573, py = 15177432256879494566880206340082581054303134509806457703644527448212771865684\<rparr>,
    \<lparr>px = 7353030995286386594684199307331832997234602813700691585025532616718570600077, py = 2036743756124363308729033935009201611953248976166480115588657745279422223798\<rparr>,
    \<lparr>px = 9777676487511716406066727067731870025299925688165723633756215339442056023734, py = 19093196115961016637625588368921903396150987644282101919550343334974790383416\<rparr>,
    \<lparr>px = 7271330865923853882294859926580075628506517606616138007642959934487696097771, py = 13809492283381891228788140142420653546170473415296626928741905708100744314432\<rparr>,
    \<lparr>px = 9612060582764909624509139961730933138589257382406487970183770071443893731243, py = 8521368224453252190076444000574699717246688833628323128671133946675525338904\<rparr>,
    \<lparr>px = 6675962277533515806791904455221084261745393111562463773990621951508855195238, py = 2370223489515725960604673434893308556112336993824414616097990614909213421662\<rparr>,
    \<lparr>px = 17725937419611408786906943886244456400336448921563370870962008515759136924616, py = 3708814474207285533626324588267243734772501989241454427631472616388267655306\<rparr>,
    \<lparr>px = 10197138045918073876620526261315915334928596309138261085063854052347756754636, py = 12550930112066969179668314415199026314065539223533288997176209813871828458295\<rparr>,
    \<lparr>px = 20779265254084308618037237207551132122029550437098817307659591710682418370030, py = 3754364942256756951447729799888585401306739140583215328459784537646767877568\<rparr>,
    \<lparr>px = 17646436445237513513866657927387197713211591409189227405040738501818977951526, py = 7486140425077925482467456206875879726155286250914263163841542290426750437915\<rparr>,
    \<lparr>px = 5598280040892904323713004580141801695239988964371290096557599863802720531412, py = 10580898957002588901245871399982535023882363870689685532217811567281212028549\<rparr>,
    \<lparr>px = 20212742793196437613224870150244407951606167877966926061358186801436640039269, py = 11205420913266643782900397341199994540470586666837921924199533833294205596254\<rparr>,
    \<lparr>px = 10080852611152095390381526860730832398771834038104676955180049697372746088734, py = 10685985357656558043463707816732931888430292076011329504261665540950445750809\<rparr>,
    \<lparr>px = 12766536969142329544629288609257485174962304892248429661015877957506862904442, py = 16418546554326855158209068903450105950480500231631341640745561248723346600437\<rparr>,
    \<lparr>px = 17460044009523579427591746455094698624307978737021874199512063828934184473320, py = 10372674348695605012911917986976999676016839015211482023832309858572333564520\<rparr>,
    \<lparr>px = 21847621810361923141718561079229913128336576673868493627485945227972814697720, py = 227479533637073951026819704436301033324948878844265159719932359542090779749\<rparr>,
    \<lparr>px = 2882885837172990778138485140545480636850846363670802744464804423368219939762, py = 11178771503600957345576560703450384741392208149493121399313457372863758475312\<rparr>,
    \<lparr>px = 14394952541563003520270140765363562086975954741395174346303614472684556131876, py = 2327126937959125861440480596125665241719640305879624236191468935801804164084\<rparr>,
    \<lparr>px = 663288048570374467392842046169173083280407833962958089375618099887397079262, py = 2209925914955581735972741229575773465221087078672697874389583821134997351645\<rparr>,
    \<lparr>px = 8175263126284184775371003588533568366450644026384410599441728598473766830863, py = 14103552346230263737241635122800103133966653652965914113304551614075998740145\<rparr>,
    \<lparr>px = 16005489221624064134540019016476966381387484568247902031594559083313549742335, py = 12662437136183963723850797839671856511603487952431681642322859406453467098709\<rparr>,
    \<lparr>px = 17942507482925153459726574860328056996367203254572938591835805575278725726126, py = 14431160355404403443827998542602422426171199744270654007153205285772784837196\<rparr>,
    \<lparr>px = 16957866989672582239359173393475181554972292231755404524082378512825596081774, py = 6002125511216503136785132213621819038103116227819920683990602347650042795388\<rparr>,
    \<lparr>px = 72541735185120851260131141436172301117644382014796056760022611733479252652, py = 2917748177801147842783225760248717234918243506382134887811999232602329823327\<rparr>,
    \<lparr>px = 3753695372707439884045566599349688494171956193791703217586004697584136346297, py = 17662013233770579800355414817816369010708292319447023981169217963202129921840\<rparr>,
    \<lparr>px = 7972891881952346650317851381386216782801494036322289407801773038980072932544, py = 6867042132701881350563487604192092975155354702970218485027838049900272298789\<rparr>,
    \<lparr>px = 4810938527812716680546448640709291360887326381350750128134020502057606363149, py = 17913725504805312909337920756236092799252731418098386709517975502958639421713\<rparr>,
    \<lparr>px = 19751153479002413858323003044975980016742302339517358373798083171041897312366, py = 10811100460508142610060773960964684178708107279147098551797828242587848557894\<rparr>,
    \<lparr>px = 12149686937114505507898667762045117152086494441331620025021486521674845094970, py = 17195913098577889308584104739011457301164772983783322889474326870335315016214\<rparr>,
    \<lparr>px = 2275402308913663972055799324108163636351324645824380866313446183489333574065, py = 267221998905825164316220479189168608914540491951012242291512297151039057742\<rparr>,
    \<lparr>px = 13920882729694255875120217534172297865242068676724839565610711492266235643244, py = 13248767661265271217303067854195858145781040583352064062791260082642789296381\<rparr>,
    \<lparr>px = 15842255991822202178434447868072570086474976100809897613921906357411501709701, py = 7810493165670362307480893428416369255934291795364184653855218794950010157845\<rparr>,
    \<lparr>px = 17809553013051109629410466336294769247070880028938807465636817226979337131207, py = 8332932574619901996408712247793223909886619458721367307380746118590131328323\<rparr>,
    \<lparr>px = 13468690467365808698383418681952233979579734478329578544979640749764552041692, py = 817531181676400377940820078029474893974076572959886380457927679575552578460\<rparr>,
    \<lparr>px = 10938586671194665521542272307447632743226701427055322427115885628282441555534, py = 3616869226033554567900018165836837146582011376544932932407442433088984845896\<rparr>,
    \<lparr>px = 14253320200858604982470010164972486636846285794660899439690766559143417877578, py = 16854677803436163513671974792518197957879722423680474014463100348222417531950\<rparr>,
    \<lparr>px = 15666561808810234830896051960884315269353472992483874954484371151909005735507, py = 11305548357495099008412355812607289598162003874780711986179500183515906093759\<rparr>,
    \<lparr>px = 7782994445550796634817416538638817763962333636395663954610613042026832032515, py = 21187912737983802150884773564329677645105641909495400952649824253281586873841\<rparr>,
    \<lparr>px = 20481342722125678691171505269864747373681378400350359150996410632564804636869, py = 2483936016299924142866374060600193183448079115878627302447615212397617758825\<rparr>,
    \<lparr>px = 14560141620719680185123087150449630926585365582047883816185791247209344792976, py = 6011668562468887901854596147656035518328025612329368232254264605729125309884\<rparr>]"

definition PARAMETERS_HASH_V3 :: octets where
  "PARAMETERS_HASH_V3 =
     (case hexBytes ''0x0bfd116b8ef31332d31d3350ed24fa36d1e17865a7c1dc0758331da0755f8dae''
      of Inl _ \<Rightarrow> [] | Inr bs \<Rightarrow> bs)"

section \<open>The curve library\<close>

text \<open>
  \<open>@noble/curves\<close> is a library: the group of the curve bn254 is a parameter.  Its operations are
  on affine points, the identity being the pair \<open>(0, 0)\<close> to which \<open>group.ts\<close> converts the library's
  zero; \<open>on_curve\<close> is the check of \<open>assertValidity\<close>.
\<close>

record curve =
  on_curve :: "G1Point \<Rightarrow> bool"
  curve_add :: "G1Point \<Rightarrow> G1Point \<Rightarrow> G1Point"
  curve_neg :: "G1Point \<Rightarrow> G1Point"
  curve_mul :: "G1Point \<Rightarrow> int \<Rightarrow> G1Point"

definition zero_point :: G1Point where
  "zero_point = \<lparr>px = 0, py = 0\<rparr>"

section \<open>The check at module load\<close>

definition fixedPointBytes :: "G1Point \<Rightarrow> octets res" where
  "fixedPointBytes p = rbind (word256 (px p)) (\<lambda>a. rbind (word256 (py p)) (\<lambda>b. Inr (concat_parts [a, b])))"

definition fixedPoints :: "G1Point list" where
  "fixedPoints = H_base # G_base # GS @ HS"

definition check_fixed_point :: "curve \<Rightarrow> string set \<Rightarrow> G1Point \<Rightarrow> string set res" where
  "check_fixed_point C unique point =
     (if px point = 0 \<and> py point = 0 then Inl (OtherError ''identity fixed generator'')
      else if \<not> on_curve C point then Inl (OtherError ''bad point: not on curve'')
      else rbind (fixedPointBytes point) (\<lambda>bs.
        let encoded = bytesHex bs
        in if encoded \<in> unique then Inl (OtherError ''duplicate fixed generator'')
           else Inr (insert encoded unique)))"

definition load_fixed_parameters :: "curve \<Rightarrow> (octets \<Rightarrow> octets) \<Rightarrow> unit res" where
  "load_fixed_parameters C keccak =
     (if length fixedPoints \<noteq> 130 then Inl (OtherError ''invalid fixed generator count'')
      else rbind (foldM (check_fixed_point C) {} fixedPoints) (\<lambda>_.
        rbind (word256 64) (\<lambda>n.
        rbind (mapM fixedPointBytes fixedPoints) (\<lambda>encoded.
        let digest = keccak (concat_parts (tag keccak ''ecu/bp/parameters/v3'' # n # encoded))
        in if sameBytes digest PARAMETERS_HASH_V3 then Inr ()
           else Inl (OtherError ''fixed parameters hash mismatch'')))))"

text \<open>What a loaded module knows of its generators.\<close>

definition generators_valid :: "curve \<Rightarrow> bool" where
  "generators_valid C \<longleftrightarrow> (\<forall>p \<in> set fixedPoints. on_curve C p \<and> p \<noteq> zero_point)"

lemma check_fixed_points_valid:
  "foldM (check_fixed_point C) u ps = Inr u' \<Longrightarrow> p \<in> set ps \<Longrightarrow> on_curve C p \<and> p \<noteq> zero_point"
  by (induction ps arbitrary: u)
     (auto simp: rbind_eq_Inr check_fixed_point_def zero_point_def split: if_splits)

lemma load_generators_valid:
  "load_fixed_parameters C keccak = Inr () \<Longrightarrow> generators_valid C"
  by (auto simp: load_fixed_parameters_def generators_valid_def rbind_eq_Inr split: if_splits
           dest: check_fixed_points_valid)

lemma length_GS: "length GS = 64"
  and length_HS: "length HS = 64"
  by (simp_all add: GS_def HS_def)

lemma length_fixedPoints: "length fixedPoints = 130"
  by (simp add: fixedPoints_def length_GS length_HS)

lemma length_PARAMETERS_HASH_V3: "length PARAMETERS_HASH_V3 = 32"
  by (simp add: PARAMETERS_HASH_V3_def hexBytes_def is_hex_def split: sum.split)

end
