(* ===== verification/Group.thy ===== *)
theory Group
  imports FixedParameters "HOL-Library.Signed_Division"
begin

text \<open>
  \<open>packages/crypto/src/group.ts\<close>: canonical points of bn254, the scalar field modulo \<open>Q\<close>, vector
  operations and the commitment \<open>amount * H + blinding * G\<close>.  The wrappers \<open>nativePoint\<close> and
  \<open>publicPoint\<close> convert between affine pairs and library points; on affine pairs they are the checks
  of \<open>parsePoint\<close>.
\<close>

definition P_mod :: int where
  "P_mod = 21888242871839275222246405745257275088696311157297823662689037894645226208583"

definition Q_mod :: int where
  "Q_mod = 21888242871839275222246405745257275088548364400416034343698204186575808495617"

definition M_max :: int where
  "M_max = push_bit 64 1"

record Opening =
  amount :: int
  blinding :: int

section \<open>Points\<close>

definition parsePoint :: "curve \<Rightarrow> G1Point \<Rightarrow> bool \<Rightarrow> G1Point res" where
  "parsePoint C point allowIdentity =
     (if px point = 0 \<and> py point = 0 then
        (if allowIdentity then Inr point else Inl (RangeError ''identity point''))
      else if px point < 0 \<or> py point < 0 \<or> px point \<ge> P_mod \<or> py point \<ge> P_mod
        then Inl (RangeError ''noncanonical point'')
      else if on_curve C point then Inr point
      else Inl (OtherError ''bad point: not on curve''))"

definition nativePoint :: "curve \<Rightarrow> G1Point \<Rightarrow> G1Point res" where
  "nativePoint C point = parsePoint C point True"

definition mul :: "curve \<Rightarrow> G1Point \<Rightarrow> int \<Rightarrow> G1Point res" where
  "mul C point scalar =
     (if scalar < 0 \<or> scalar \<ge> Q_mod then Inl (RangeError ''scalar out of range'')
      else if scalar = 0 then Inr zero_point
      else rbind (nativePoint C point) (\<lambda>p. Inr (curve_mul C p scalar)))"

definition add :: "curve \<Rightarrow> G1Point \<Rightarrow> G1Point \<Rightarrow> G1Point res" where
  "add C left right =
     rbind (nativePoint C left) (\<lambda>l. rbind (nativePoint C right) (\<lambda>r. Inr (curve_add C l r)))"

definition neg :: "curve \<Rightarrow> G1Point \<Rightarrow> G1Point res" where
  "neg C point = rbind (nativePoint C point) (\<lambda>p. Inr (curve_neg C p))"

definition sum_points :: "curve \<Rightarrow> G1Point list \<Rightarrow> G1Point res" where
  "sum_points C points = foldM (add C) zero_point points"

definition samePoint :: "G1Point \<Rightarrow> G1Point \<Rightarrow> bool" where
  "samePoint left right \<longleftrightarrow> px left = px right \<and> py left = py right"

definition pointPair :: "G1Point \<Rightarrow> int list" where
  "pointPair point = [px point, py point]"

definition pointBytes :: "curve \<Rightarrow> G1Point \<Rightarrow> octets res" where
  "pointBytes C point =
     rbind (parsePoint C point True) (\<lambda>_.
     rbind (word256 (px point)) (\<lambda>a. rbind (word256 (py point)) (\<lambda>b. Inr (concat_parts [a, b]))))"

section \<open>Scalars\<close>

text \<open>JavaScript's \<open>%\<close> truncates towards zero.\<close>

definition modq :: "int \<Rightarrow> int" where
  "modq value = (let residue = value smod Q_mod in if residue < 0 then residue + Q_mod else residue)"

function powq_loop :: "int \<Rightarrow> int \<Rightarrow> int \<Rightarrow> int" where
  "powq_loop result factor pw =
     (if pw > 0 then
        powq_loop (if odd pw then modq (result * factor) else result)
          (modq (factor * factor)) (drop_bit 1 pw)
      else result)"
  by pat_completeness auto
termination
  by (relation "measure (\<lambda>(result, factor, pw). nat pw)") (auto simp: drop_bit_eq_div)

declare powq_loop.simps [simp del]

definition powq :: "int \<Rightarrow> int \<Rightarrow> int res" where
  "powq base exponent =
     (if exponent < 0 then Inl (RangeError ''negative exponent'')
      else Inr (powq_loop 1 (modq base) exponent))"

definition inverseq :: "int \<Rightarrow> int res" where
  "inverseq value =
     (if modq value = 0 then Inl (RangeError ''zero has no inverse'') else powq value (Q_mod - 2))"

definition dot :: "int list \<Rightarrow> int list \<Rightarrow> int res" where
  "dot left right =
     (if length left \<noteq> length right then Inl (RangeError ''vector dimension mismatch'')
      else Inr (modq (foldl (\<lambda>total (value, r). total + value * r) 0 (zip left right))))"

definition multi :: "curve \<Rightarrow> G1Point list \<Rightarrow> int list \<Rightarrow> G1Point res" where
  "multi C points scalars =
     (if length points \<noteq> length scalars then Inl (RangeError ''vector dimension mismatch'')
      else rbind (mapM (\<lambda>(point, s). mul C point (modq s)) (zip points scalars)) (sum_points C))"

definition commit :: "curve \<Rightarrow> Opening \<Rightarrow> G1Point res" where
  "commit C opening =
     (if amount opening < 1 \<or> amount opening > M_max then Inl (RangeError ''amount out of range'')
      else if blinding opening < 0 \<or> blinding opening \<ge> Q_mod
        then Inl (RangeError ''blinding out of range'')
      else rbind (mul C H_base (amount opening)) (\<lambda>a.
           rbind (mul C G_base (blinding opening)) (\<lambda>b. add C a b)))"

text \<open>\<open>packages/crypto/src/index.ts\<close>.\<close>

definition validateCommitment :: "curve \<Rightarrow> G1Point \<Rightarrow> unit res" where
  "validateCommitment C point = rbind (parsePoint C point True) (\<lambda>_. Inr ())"

section \<open>Scalar arithmetic is arithmetic modulo Q\<close>

lemma Q_pos [simp]: "0 < Q_mod" "Q_mod \<noteq> 0"
  by (simp_all add: Q_mod_def)

lemma abs_Q [simp]: "\<bar>Q_mod\<bar> = Q_mod"
  by (simp add: Q_mod_def)

lemma M_max_eq: "M_max = 2 ^ 64"
  by (simp add: M_max_def)

lemma M_less_Q: "M_max < Q_mod" "2 * M_max < Q_mod"
  by (simp_all add: M_max_eq Q_mod_def)

lemma Q_less_word: "Q_mod < 2 ^ 256" "P_mod < 2 ^ 256"
  by (simp_all add: Q_mod_def P_mod_def)

lemma truncated_residue:
  fixes m q r :: int
  assumes "m = (if r = 0 then 0 else q - r)" and "0 \<le> r"
  shows "(if - r < 0 then - r + q else - r) = m"
  using assms by simp

lemma modq_eq: "modq v = v mod Q_mod"
proof (cases "0 \<le> v")
  case True
  then have "v smod Q_mod = v mod Q_mod"
    by (cases "v = 0") (simp_all add: smod_int_alt_def)
  then show ?thesis by (simp add: modq_def Let_def not_less)
next
  case False
  then have v: "v smod Q_mod = - ((- v) mod Q_mod)"
    by (simp add: smod_int_alt_def)
  have "v mod Q_mod = (if (- v) mod Q_mod = 0 then 0 else Q_mod - (- v) mod Q_mod)"
    using zmod_zminus1_eq_if [of "- v" Q_mod] by simp
  moreover have "0 \<le> (- v) mod Q_mod" by (rule pos_mod_sign) simp
  ultimately show ?thesis unfolding modq_def Let_def v by (rule truncated_residue)
qed

lemma modq_range [simp]: "0 \<le> modq v" "modq v < Q_mod"
  by (simp_all add: modq_eq)

lemma powq_loop_eq:
  "0 \<le> p \<Longrightarrow> 0 \<le> r \<Longrightarrow> r < Q_mod \<Longrightarrow> powq_loop r f p = r * f ^ nat p mod Q_mod"
proof (induction r f p rule: powq_loop.induct)
  case (1 r f p)
  show ?case
  proof (cases "p > 0")
    case False
    with 1 show ?thesis by (simp add: powq_loop.simps [of r f 0])
  next
    case True
    let ?r = "if odd p then modq (r * f) else r"
    have half: "drop_bit (Suc 0) p = p div 2" by (simp add: drop_bit_eq_div)
    have p: "nat p = 2 * nat (p div 2) + (if odd p then 1 else 0)"
      using True by (auto simp: nat_eq_iff elim!: evenE oddE)
    have "powq_loop r f p = ?r * (modq (f * f)) ^ nat (p div 2) mod Q_mod"
      using True 1 by (simp add: powq_loop.simps [of r f p] half pos_imp_zdiv_nonneg_iff)
    also have "\<dots> = ?r * (f * f) ^ nat (p div 2) mod Q_mod"
      by (metis modq_eq mod_mult_right_eq power_mod)
    also have "\<dots> = r * f ^ nat p mod Q_mod"
      by (simp add: p modq_eq power_mult power2_eq_square power_add mod_mult_left_eq algebra_simps)
    finally show ?thesis .
  qed
qed

lemma powq_eq: "0 \<le> e \<Longrightarrow> powq b e = Inr (b ^ nat e mod Q_mod)"
proof -
  assume "0 \<le> e"
  moreover have "(1::int) < Q_mod" by (simp add: Q_mod_def)
  ultimately show ?thesis by (simp add: powq_def powq_loop_eq modq_eq power_mod)
qed

lemma inverseq_eq_Inr:
  "inverseq v = Inr i \<longleftrightarrow> v mod Q_mod \<noteq> 0 \<and> i = v ^ nat (Q_mod - 2) mod Q_mod"
proof -
  have "0 \<le> Q_mod - 2" by (simp add: Q_mod_def)
  then show ?thesis by (auto simp: inverseq_def modq_eq powq_eq)
qed

end
