(* ===== verification/CurveLaws.thy ===== *)
theory CurveLaws
  imports Group
begin

text \<open>
  What the packages rely on of the curve library, stated as the named hypothesis \<open>curve_laws\<close>: on
  valid affine points the operations form an abelian group, and \<open>multiply\<close> is repeated addition with
  period \<open>Q\<close>.  The lemmas derive that \<open>smul\<close>, the multiplication by any integer, is linear; the
  last section gives a concrete curve record that satisfies the laws and holds the 130 generators.
\<close>

definition valid_point :: "curve \<Rightarrow> G1Point \<Rightarrow> bool" where
  "valid_point C p \<longleftrightarrow>
     p = zero_point \<or> 0 \<le> px p \<and> px p < P_mod \<and> 0 \<le> py p \<and> py p < P_mod \<and> on_curve C p"

definition curve_laws :: "curve \<Rightarrow> bool" where
  "curve_laws C \<longleftrightarrow>
     (\<forall>p q. valid_point C p \<longrightarrow> valid_point C q \<longrightarrow>
        valid_point C (curve_add C p q) \<and> curve_add C p q = curve_add C q p) \<and>
     (\<forall>p q r. valid_point C p \<longrightarrow> valid_point C q \<longrightarrow> valid_point C r \<longrightarrow>
        curve_add C (curve_add C p q) r = curve_add C p (curve_add C q r)) \<and>
     (\<forall>p. valid_point C p \<longrightarrow> curve_add C zero_point p = p \<and>
        valid_point C (curve_neg C p) \<and> curve_add C p (curve_neg C p) = zero_point) \<and>
     (\<forall>p. valid_point C p \<longrightarrow> curve_mul C p 1 = p \<and>
        curve_add C (curve_mul C p (Q_mod - 1)) p = zero_point) \<and>
     (\<forall>p s. valid_point C p \<longrightarrow> 0 < s \<longrightarrow> s < Q_mod \<longrightarrow> valid_point C (curve_mul C p s)) \<and>
     (\<forall>p s. valid_point C p \<longrightarrow> 0 < s \<longrightarrow> s + 1 < Q_mod \<longrightarrow>
        curve_mul C p (s + 1) = curve_add C (curve_mul C p s) p)"

definition smul :: "curve \<Rightarrow> G1Point \<Rightarrow> int \<Rightarrow> G1Point" where
  "smul C p k = (if k mod Q_mod = 0 then zero_point else curve_mul C p (k mod Q_mod))"

section \<open>The wrappers on valid points\<close>

lemma valid_zero [simp]: "valid_point C zero_point"
  by (simp add: valid_point_def)

lemma parsePoint_eq_Inr:
  "parsePoint C p b = Inr q \<longleftrightarrow> q = p \<and> valid_point C p \<and> (b \<or> p \<noteq> zero_point)"
  by (cases p) (auto simp: parsePoint_def valid_point_def zero_point_def)

lemma parsePoint_valid: "valid_point C p \<Longrightarrow> parsePoint C p True = Inr p"
  by (simp add: parsePoint_eq_Inr)

lemma mul_eq_Inr:
  "mul C p s = Inr q \<longleftrightarrow> 0 \<le> s \<and> s < Q_mod \<and> (s = 0 \<or> valid_point C p) \<and> q = smul C p s"
  by (auto simp: mul_def nativePoint_def rbind_eq_Inr parsePoint_eq_Inr smul_def)

lemma mul_valid: "valid_point C p \<Longrightarrow> 0 \<le> s \<Longrightarrow> s < Q_mod \<Longrightarrow> mul C p s = Inr (smul C p s)"
  by (simp add: mul_eq_Inr)

lemma add_eq_Inr:
  "add C p q = Inr r \<longleftrightarrow> valid_point C p \<and> valid_point C q \<and> r = curve_add C p q"
  by (auto simp: add_def nativePoint_def rbind_eq_Inr parsePoint_eq_Inr)

lemma add_valid: "valid_point C p \<Longrightarrow> valid_point C q \<Longrightarrow> add C p q = Inr (curve_add C p q)"
  by (simp add: add_eq_Inr)

lemma neg_eq_Inr: "neg C p = Inr r \<longleftrightarrow> valid_point C p \<and> r = curve_neg C p"
  by (auto simp: neg_def nativePoint_def rbind_eq_Inr parsePoint_eq_Inr)

lemma samePoint_iff: "samePoint p q \<longleftrightarrow> p = q"
  by (cases p; cases q) (auto simp: samePoint_def)

lemma validateCommitment_ok: "validateCommitment C p = Inr () \<longleftrightarrow> valid_point C p"
  by (auto simp: validateCommitment_def rbind_eq_Inr parsePoint_eq_Inr)

lemma pointBytes_eq_Inr:
  "pointBytes C p = Inr bs \<Longrightarrow> valid_point C p \<and> length bs = 64"
  by (auto simp: pointBytes_def rbind_eq_Inr parsePoint_eq_Inr concat_parts_def dest!: length_word256)

lemma pointBytes_total: "valid_point C p \<Longrightarrow> \<exists>bs. pointBytes C p = Inr bs"
proof -
  assume v: "valid_point C p"
  then have "0 \<le> px p \<and> px p < P_mod" "0 \<le> py p \<and> py p < P_mod"
    by (auto simp: valid_point_def zero_point_def P_mod_def)
  then obtain a b where "word256 (px p) = Inr a" "word256 (py p) = Inr b"
    using word256_total [of "px p"] word256_total [of "py p"] Q_less_word(2) by force
  with v show ?thesis by (simp add: pointBytes_def parsePoint_valid)
qed

section \<open>Integer multiples\<close>

lemma laws_add_valid: "curve_laws C \<Longrightarrow> valid_point C p \<Longrightarrow> valid_point C q \<Longrightarrow> valid_point C (curve_add C p q)"
  and laws_add_comm: "curve_laws C \<Longrightarrow> valid_point C p \<Longrightarrow> valid_point C q \<Longrightarrow> curve_add C p q = curve_add C q p"
  and laws_add_assoc: "curve_laws C \<Longrightarrow> valid_point C p \<Longrightarrow> valid_point C q \<Longrightarrow> valid_point C r \<Longrightarrow>
        curve_add C (curve_add C p q) r = curve_add C p (curve_add C q r)"
  and laws_zero: "curve_laws C \<Longrightarrow> valid_point C p \<Longrightarrow> curve_add C zero_point p = p"
  and laws_neg_valid: "curve_laws C \<Longrightarrow> valid_point C p \<Longrightarrow> valid_point C (curve_neg C p)"
  and laws_neg: "curve_laws C \<Longrightarrow> valid_point C p \<Longrightarrow> curve_add C p (curve_neg C p) = zero_point"
  and laws_mul_1: "curve_laws C \<Longrightarrow> valid_point C p \<Longrightarrow> curve_mul C p 1 = p"
  and laws_mul_period: "curve_laws C \<Longrightarrow> valid_point C p \<Longrightarrow> curve_add C (curve_mul C p (Q_mod - 1)) p = zero_point"
  and laws_mul_valid: "curve_laws C \<Longrightarrow> valid_point C p \<Longrightarrow> 0 < s \<Longrightarrow> s < Q_mod \<Longrightarrow> valid_point C (curve_mul C p s)"
  and laws_mul_Suc: "curve_laws C \<Longrightarrow> valid_point C p \<Longrightarrow> 0 < s \<Longrightarrow> s + 1 < Q_mod \<Longrightarrow>
        curve_mul C p (s + 1) = curve_add C (curve_mul C p s) p"
  by (simp_all only: curve_laws_def) auto

lemma laws_zero_right: "curve_laws C \<Longrightarrow> valid_point C p \<Longrightarrow> curve_add C p zero_point = p"
  using laws_add_comm [of C p zero_point] laws_zero [of C p] by simp

lemma laws_left_comm:
  "curve_laws C \<Longrightarrow> valid_point C p \<Longrightarrow> valid_point C q \<Longrightarrow> valid_point C r \<Longrightarrow>
   curve_add C p (curve_add C q r) = curve_add C q (curve_add C p r)"
  by (metis laws_add_assoc laws_add_comm)

lemmas laws_ac = laws_add_assoc laws_add_comm laws_left_comm

lemma laws_cancel:
  assumes "curve_laws C" "valid_point C p" "valid_point C q" "valid_point C r"
    and "curve_add C p r = curve_add C q r"
  shows "p = q"
  by (metis assms laws_add_assoc laws_neg laws_neg_valid laws_zero_right)

lemma smul_valid: "curve_laws C \<Longrightarrow> valid_point C p \<Longrightarrow> valid_point C (smul C p k)"
proof -
  assume C: "curve_laws C" and p: "valid_point C p"
  have "0 \<le> k mod Q_mod" "k mod Q_mod < Q_mod" by simp_all
  then show ?thesis
    using laws_mul_valid [OF C p, of "k mod Q_mod"] by (auto simp: smul_def order_le_less)
qed

lemma smul_mod [simp]: "smul C p (k mod Q_mod) = smul C p k"
  by (simp add: smul_def)

lemma smul_cong: "k mod Q_mod = l mod Q_mod \<Longrightarrow> smul C p k = smul C p l"
  by (simp add: smul_def)

lemma smul_0 [simp]: "smul C p 0 = zero_point"
  by (simp add: smul_def)

lemma smul_1: "curve_laws C \<Longrightarrow> valid_point C p \<Longrightarrow> smul C p 1 = p"
  by (simp add: smul_def laws_mul_1 Q_mod_def)

lemma smul_step:
  assumes C: "curve_laws C" and p: "valid_point C p"
  shows "smul C p (k + 1) = curve_add C (smul C p k) p"
proof -
  let ?r = "k mod Q_mod"
  have r: "0 \<le> ?r" "?r < Q_mod" by simp_all
  have step: "smul C p (k + 1) = smul C p (?r + 1)"
    by (rule smul_cong) (simp add: mod_add_left_eq)
  consider "?r = 0" | "0 < ?r" "?r + 1 < Q_mod" | "?r = Q_mod - 1" using r by linarith
  then have "smul C p (?r + 1) = curve_add C (smul C p ?r) p"
  proof cases
    case 1
    then show ?thesis using smul_1 [OF C p] laws_zero [OF C p] by simp
  next
    case 2
    then show ?thesis using laws_mul_Suc [OF C p 2] by (simp add: smul_def)
  next
    case 3
    have "Q_mod - 1 \<noteq> 0" "(Q_mod - 1) mod Q_mod = Q_mod - 1" by (simp_all add: Q_mod_def)
    with 3 show ?thesis using laws_mul_period [OF C p] by (simp add: smul_def)
  qed
  then show ?thesis by (simp add: step)
qed

lemma smul_step_down:
  assumes C: "curve_laws C" and p: "valid_point C p"
  shows "curve_add C (smul C p (k - 1)) p = smul C p k"
  using smul_step [OF C p, of "k - 1"] by simp

lemma smul_add:
  assumes C: "curve_laws C" and p: "valid_point C p"
  shows "smul C p (a + b) = curve_add C (smul C p a) (smul C p b)"
proof (induction b rule: int_induct [of _ 0])
  case base
  show ?case using laws_zero_right [OF C smul_valid [OF C p]] by simp
next
  case (step1 i)
  have "smul C p (a + (i + 1)) = curve_add C (smul C p (a + i)) p"
    using smul_step [OF C p, of "a + i"] by (simp add: add.assoc)
  also have "\<dots> = curve_add C (smul C p a) (curve_add C (smul C p i) p)"
    by (simp add: step1 laws_add_assoc [OF C] smul_valid [OF C p] p)
  finally show ?case by (simp add: smul_step [OF C p])
next
  case (step2 i)
  have "curve_add C (smul C p (a + (i - 1))) p = smul C p (a + i)"
    using smul_step_down [OF C p, of "a + i"] by (simp add: add_diff_eq)
  also have "\<dots> = curve_add C (curve_add C (smul C p a) (smul C p (i - 1))) p"
    by (simp add: step2 laws_add_assoc [OF C] smul_valid [OF C p] p smul_step_down [OF C p])
  finally show ?case
    by (rule laws_cancel [OF C smul_valid [OF C p] _ p, rotated])
       (simp add: laws_add_valid [OF C] smul_valid [OF C p])
qed

lemma smul_distrib:
  assumes C: "curve_laws C" and p: "valid_point C p" and q: "valid_point C q"
  shows "smul C (curve_add C p q) k = curve_add C (smul C p k) (smul C q k)"
proof -
  have pq: "valid_point C (curve_add C p q)" by (rule laws_add_valid [OF C p q])
  note v = p q pq smul_valid [OF C p] smul_valid [OF C q] smul_valid [OF C pq]
    laws_add_valid [OF C]
  have up: "smul C (curve_add C p q) (int n) = curve_add C (smul C p (int n)) (smul C q (int n))" for n
  proof (induction n)
    case 0
    show ?case by (simp add: laws_zero [OF C])
  next
    case (Suc n)
    have "smul C (curve_add C p q) (int (Suc n)) = curve_add C (smul C (curve_add C p q) (int n)) (curve_add C p q)"
      using smul_step [OF C pq, of "int n"] by (simp add: add.commute)
    also have "\<dots> = curve_add C (curve_add C (smul C p (int n)) p) (curve_add C (smul C q (int n)) q)"
      by (simp add: Suc laws_ac [OF C] v)
    finally show ?case
      using smul_step [OF C p, of "int n"] smul_step [OF C q, of "int n"] by (simp add: add.commute)
  qed
  have "smul C r k = smul C r (int (nat (k mod Q_mod)))" for r by simp
  then show ?thesis using up [of "nat (k mod Q_mod)"] by simp
qed

lemma smul_mult:
  assumes C: "curve_laws C" and p: "valid_point C p"
  shows "smul C (smul C p a) b = smul C p (a * b)"
proof -
  have up: "smul C (smul C p a) (int n) = smul C p (a * int n)" for n
  proof (induction n)
    case (Suc n)
    then show ?case
      using smul_step [OF C smul_valid [OF C p], of a "int n"] smul_add [OF C p, of "a * int n" a]
      by (simp add: algebra_simps)
  qed simp
  have "smul C p (a * b) = smul C p (a * (b mod Q_mod))"
    by (rule smul_cong) (simp add: mod_mult_right_eq)
  then show ?thesis using up [of "nat (b mod Q_mod)"] by simp
qed

lemma neg_smul:
  assumes C: "curve_laws C" and p: "valid_point C p"
  shows "curve_neg C p = smul C p (- 1)"
proof -
  have "curve_add C (curve_neg C p) p = zero_point"
    using laws_neg [OF C p] laws_add_comm [OF C p laws_neg_valid [OF C p]] by simp
  also have "\<dots> = curve_add C (smul C p (- 1)) p"
    using smul_step [OF C p, of "- 1"] by simp
  finally show ?thesis
    by (rule laws_cancel [OF C laws_neg_valid [OF C p] smul_valid [OF C p] p])
qed

lemma smul_zero_point: "curve_laws C \<Longrightarrow> smul C zero_point k = zero_point"
  using smul_mult [of C zero_point 0 k] by simp

lemmas smul_linear = smul_add smul_distrib smul_mult neg_smul smul_zero_point

section \<open>Commitments\<close>

text \<open>The opening that the code accepts, and the linear form of its commitment.\<close>

definition valid_opening :: "Opening \<Rightarrow> bool" where
  "valid_opening o' \<longleftrightarrow> 1 \<le> amount o' \<and> amount o' \<le> M_max \<and> 0 \<le> blinding o' \<and> blinding o' < Q_mod"

definition lin2 :: "curve \<Rightarrow> int \<Rightarrow> int \<Rightarrow> G1Point" where
  "lin2 C a b = curve_add C (smul C H_base a) (smul C G_base b)"

lemma generators_base:
  assumes "generators_valid C"
  shows "valid_point C H_base" and "valid_point C G_base"
  using assms
  by (auto simp: generators_valid_def fixedPoints_def valid_point_def H_base_def G_base_def P_mod_def)

lemma commit_eq_Inr:
  assumes C: "curve_laws C" and g: "generators_valid C"
  shows "commit C o' = Inr c \<longleftrightarrow> valid_opening o' \<and> c = lin2 C (amount o') (blinding o')"
proof -
  have "amount o' \<le> M_max \<Longrightarrow> amount o' < Q_mod" using M_less_Q by simp
  then show ?thesis
    using generators_base [OF g] smul_valid [OF C]
    by (auto simp: commit_def valid_opening_def rbind_eq_Inr mul_eq_Inr add_eq_Inr lin2_def)
qed

lemma commit_valid:
  "curve_laws C \<Longrightarrow> generators_valid C \<Longrightarrow> valid_opening o' \<Longrightarrow>
   commit C o' = Inr (lin2 C (amount o') (blinding o'))"
  by (simp add: commit_eq_Inr)

lemma lin2_valid: "curve_laws C \<Longrightarrow> generators_valid C \<Longrightarrow> valid_point C (lin2 C a b)"
  by (simp add: lin2_def laws_add_valid smul_valid generators_base)

lemma lin2_add:
  assumes C: "curve_laws C" and g: "generators_valid C"
  shows "curve_add C (lin2 C a b) (lin2 C c d) = lin2 C (a + c) (b + d)"
proof -
  note v = generators_base [OF g] smul_valid [OF C] laws_add_valid [OF C]
  show ?thesis by (simp add: lin2_def smul_add [OF C] v laws_ac [OF C])
qed

lemma lin2_neg:
  assumes C: "curve_laws C" and g: "generators_valid C"
  shows "curve_neg C (lin2 C a b) = lin2 C (- a) (- b)"
proof -
  note v = generators_base [OF g] smul_valid [OF C] laws_add_valid [OF C]
  have "curve_neg C (lin2 C a b) = smul C (lin2 C a b) (- 1)"
    by (rule neg_smul [OF C lin2_valid [OF C g]])
  then show ?thesis by (simp add: lin2_def smul_distrib [OF C] smul_mult [OF C] v)
qed

lemma lin2_H: "curve_laws C \<Longrightarrow> generators_valid C \<Longrightarrow> smul C H_base a = lin2 C a 0"
  by (simp add: lin2_def laws_zero_right smul_valid generators_base)

lemma lin2_G: "curve_laws C \<Longrightarrow> generators_valid C \<Longrightarrow> smul C G_base b = lin2 C 0 b"
  by (simp add: lin2_def laws_zero smul_valid generators_base)

lemma lin2_zero: "curve_laws C \<Longrightarrow> lin2 C 0 0 = zero_point"
  by (simp add: lin2_def laws_zero)

lemma lin2_cong:
  "a mod Q_mod = a' mod Q_mod \<Longrightarrow> b mod Q_mod = b' mod Q_mod \<Longrightarrow> lin2 C a b = lin2 C a' b'"
  unfolding lin2_def by (metis smul_cong)

lemma foldl_lin2:
  assumes C: "curve_laws C" and g: "generators_valid C"
  shows "sum_points C (map (\<lambda>(a, b). lin2 C a b) xs) = Inr (lin2 C (sum_list (map fst xs)) (sum_list (map snd xs)))"
proof -
  have "foldM (add C) (lin2 C u v) (map (\<lambda>(a, b). lin2 C a b) xs)
      = Inr (lin2 C (u + sum_list (map fst xs)) (v + sum_list (map snd xs)))" for u v
    by (induction xs arbitrary: u v)
       (auto simp: add_valid lin2_valid [OF C g] lin2_add [OF C g] add.assoc)
  from this [of 0 0] show ?thesis by (simp add: sum_points_def lin2_zero [OF C])
qed

section \<open>A concrete curve record\<close>

text \<open>
  Pairs of residues with componentwise addition modulo \<open>Q\<close>.  It is not bn254; it shows that the
  hypotheses of the theorems can hold together, on the generators of the program.
\<close>

definition model_curve :: curve where
  "model_curve = \<lparr>on_curve = (\<lambda>p. px p < Q_mod \<and> py p < Q_mod),
     curve_add = (\<lambda>p q. \<lparr>px = (px p + px q) mod Q_mod, py = (py p + py q) mod Q_mod\<rparr>),
     curve_neg = (\<lambda>p. \<lparr>px = (- px p) mod Q_mod, py = (- py p) mod Q_mod\<rparr>),
     curve_mul = (\<lambda>p s. \<lparr>px = (s * px p) mod Q_mod, py = (s * py p) mod Q_mod\<rparr>)\<rparr>"

lemma model_valid:
  "valid_point model_curve p \<longleftrightarrow> 0 \<le> px p \<and> px p < Q_mod \<and> 0 \<le> py p \<and> py p < Q_mod"
  by (cases p) (auto simp: valid_point_def model_curve_def zero_point_def P_mod_def Q_mod_def)

lemma model_curve_laws: "curve_laws model_curve"
proof -
  have ring: "(a mod Q_mod + b) mod Q_mod = (a + b) mod Q_mod"
    "(a + b mod Q_mod) mod Q_mod = (a + b) mod Q_mod" for a b by (simp_all add: mod_simps)
  have mult: "(a + a * (Q_mod - 1)) mod Q_mod = 0" "a * (b + 1) = a + b * a" for a b
    by (simp_all add: algebra_simps)
  show ?thesis
    unfolding curve_laws_def model_valid
    by (auto simp: model_curve_def ring mult zero_point_def ac_simps distrib_right left_diff_distrib)
qed

lemma model_generator_lists:
  "list_all (\<lambda>p. 0 < px p \<and> px p < Q_mod \<and> 0 \<le> py p \<and> py p < Q_mod) GS"
  "list_all (\<lambda>p. 0 < px p \<and> px p < Q_mod \<and> 0 \<le> py p \<and> py p < Q_mod) HS"
  by code_simp+

lemma model_generators: "generators_valid model_curve"
proof -
  have "px p < Q_mod \<and> py p < Q_mod \<and> px p \<noteq> 0" if "p \<in> set fixedPoints" for p
    using that model_generator_lists
    by (auto simp: fixedPoints_def list_all_iff H_base_def G_base_def Q_mod_def)
  then show ?thesis
    by (force simp: generators_valid_def model_curve_def zero_point_def)
qed

text \<open>The order of a base, as a named hypothesis on the curve.\<close>

definition has_full_order :: "curve \<Rightarrow> G1Point \<Rightarrow> bool" where
  "has_full_order C p \<longleftrightarrow> (\<forall>k. smul C p k = zero_point \<longrightarrow> k mod Q_mod = 0)"

lemma full_orderI:
  assumes "u * px p mod Q_mod = 1"
  shows "has_full_order model_curve p"
  unfolding has_full_order_def
proof (intro allI impI)
  fix k
  assume z: "smul model_curve p k = zero_point"
  show "k mod Q_mod = 0"
  proof (rule ccontr)
    assume "k mod Q_mod \<noteq> 0"
    with z have "(k mod Q_mod) * px p mod Q_mod = 0"
      by (simp add: smul_def model_curve_def zero_point_def)
    then have "Q_mod dvd k * px p" by (simp add: mod_eq_0_iff_dvd mod_mult_left_eq)
    then have "Q_mod dvd k * (u * px p)" by (metis dvd_mult mult.left_commute)
    moreover have "k * (u * px p) mod Q_mod = k mod Q_mod"
      using assms by (metis mod_mult_right_eq mult.right_neutral)
    ultimately show False using \<open>k mod Q_mod \<noteq> 0\<close> by (simp add: mod_eq_0_iff_dvd)
  qed
qed

lemma model_inverses:
  "15771322223797979624311577483480087232777432696520125278895379027744586966281 * px H_base mod Q_mod = 1"
  "18907286459763897962684671415595917617221896849430633218114167584243270997419 * px G_base mod Q_mod = 1"
  by code_simp+

lemma model_full_order: "has_full_order model_curve H_base" "has_full_order model_curve G_base"
  by (rule full_orderI, rule model_inverses)+

end
