(* ===== verification/ScalarSource.thy ===== *)
theory ScalarSource
  imports Effects CurveLaws
begin

text \<open>
  \<open>packages/crypto/src/random.ts\<close>: rejection sampling of scalars, at most 256 candidates from a
  source that may throw.  The system generator \<open>getRandomValues\<close> is a parameter.
\<close>

fun sample_loop :: "nat \<Rightarrow> ('w, int) eff \<Rightarrow> bool \<Rightarrow> ('w, int) eff" where
  "sample_loop 0 nextCandidate allowZero = ethrow (CryptoFailure C_SCALAR_EXHAUSTED ''scalar'')"
| "sample_loop (Suc n) nextCandidate allowZero =
     ebind (ecatch nextCandidate (\<lambda>_. ethrow (CryptoFailure C_RANDOM ''scalar''))) (\<lambda>candidate.
       if candidate \<ge> (if allowZero then 0 else 1) \<and> candidate < Q_mod then ereturn candidate
       else sample_loop n nextCandidate allowZero)"

definition sampleScalar :: "('w, int) eff \<Rightarrow> bool \<Rightarrow> ('w, int) eff" where
  "sampleScalar nextCandidate allowZero = sample_loop 256 nextCandidate allowZero"

definition secure_source :: "(nat \<Rightarrow> ('w, octets) eff) \<Rightarrow> ('w, int) eff" where
  "secure_source getRandomValues = ebind (getRandomValues 32) (\<lambda>bs. ereturn (bytesToBigInt bs))"

definition randomBlinding :: "(nat \<Rightarrow> ('w, octets) eff) \<Rightarrow> ('w, int) eff" where
  "randomBlinding getRandomValues = sampleScalar (secure_source getRandomValues) True"

text \<open>A run of the source: \<open>n\<close> answers in order, from \<open>w\<close> to \<open>w'\<close>.\<close>

inductive drawn :: "('w, int) eff \<Rightarrow> 'w \<Rightarrow> int list \<Rightarrow> 'w \<Rightarrow> bool" for src where
  drawn_Nil: "drawn src w [] w"
| drawn_Cons: "src w = (Inr c, w') \<Longrightarrow> drawn src w' cs w'' \<Longrightarrow> drawn src w (c # cs) w''"

inductive_cases drawn_NilE: "drawn src w [] w'"
inductive_cases drawn_ConsE: "drawn src w (c # cs) w'"

definition scalar_accepted :: "bool \<Rightarrow> int \<Rightarrow> bool" where
  "scalar_accepted allowZero c \<longleftrightarrow> (if allowZero then 0 else 1) \<le> c \<and> c < Q_mod"

lemma sample_loop_sound:
  "sample_loop n src z w = (Inr c, w') \<Longrightarrow> scalar_accepted z c"
  by (induction n arbitrary: w)
     (auto simp: eff_simps scalar_accepted_def split: if_splits)

lemma sample_loop_first:
  "drawn src w (cs @ [c]) w' \<Longrightarrow> list_all (\<lambda>c. \<not> scalar_accepted z c) cs \<Longrightarrow> scalar_accepted z c \<Longrightarrow>
   length cs < n \<Longrightarrow> sample_loop n src z w = (Inr c, w')"
proof (induction cs arbitrary: w n)
  case Nil
  from Nil.prems(1) have "src w = (Inr c, w')"
    by (auto elim!: drawn_ConsE drawn_NilE)
  with Nil show ?case
    by (cases n) (auto simp: ebind_def ecatch_def scalar_accepted_def)
next
  case (Cons d cs)
  from Cons.prems(1) obtain w1 where "src w = (Inr d, w1)" and "drawn src w1 (cs @ [c]) w'"
    by (auto elim: drawn_ConsE)
  with Cons show ?case
    by (cases n) (auto simp: ebind_def ecatch_def scalar_accepted_def)
qed

lemma sample_loop_exhausted:
  "drawn src w cs w' \<Longrightarrow> list_all (\<lambda>c. \<not> scalar_accepted z c) cs \<Longrightarrow> length cs = n \<Longrightarrow>
   sample_loop n src z w = (Inl (CryptoFailure C_SCALAR_EXHAUSTED ''scalar''), w')"
  by (induction arbitrary: n rule: drawn.induct)
     (auto simp: ebind_def ecatch_def scalar_accepted_def)

lemma randomBlinding_range: "randomBlinding rng w = (Inr b, w') \<Longrightarrow> 0 \<le> b \<and> b < Q_mod"
  unfolding randomBlinding_def sampleScalar_def
  by (drule sample_loop_sound) (simp add: scalar_accepted_def)

end
