(* ===== verification/Balance.thy ===== *)
theory Balance
  imports ScalarSource
begin

text \<open>
  \<open>packages/crypto/src/balance.ts\<close>: the point that an operation leaves over, its discrete
  logarithm to the blinding base, and the Schnorr proof of it.  The verifier of
  \<open>contracts/src/verifier/BalanceProofV3.sol\<close> is modelled beside it, so that completeness is a theorem.
\<close>

record BalanceProof =
  Rx :: int
  Ry :: int
  proof_s :: int

record BalanceProofInput =
  bpi_X :: G1Point
  bpi_x :: int
  bpi_chainId :: int
  bpi_pool :: octets
  bpi_operationId :: octets

record BalanceChallengeStep =
  step_counter :: nat
  step_preimage :: string
  step_candidate :: int
  step_accepted :: bool

definition validateContext :: "int \<Rightarrow> octets \<Rightarrow> octets \<Rightarrow> unit res" where
  "validateContext chainId pool operationId =
     (if chainId < 0 \<or> chainId \<ge> push_bit 256 1 \<or> length pool \<noteq> 20 \<or> length operationId \<noteq> 32
      then Inl (CryptoFailure C_INPUT ''balance.context'') else Inr ())"

definition computeBalancePoint :: "curve \<Rightarrow> G1Point list \<Rightarrow> G1Point list \<Rightarrow> int \<Rightarrow> int \<Rightarrow> G1Point res" where
  "computeBalancePoint C inputCommitments outputCommitments deposit withdraw =
     (if length inputCommitments > 2 \<or> length outputCommitments > 2
         \<or> deposit < 0 \<or> deposit > M_max \<or> withdraw < 0 \<or> withdraw > 2 * M_max
      then Inl (CryptoFailure C_INPUT ''balance.amounts'')
      else recast (CryptoFailure C_INPUT ''balance.commitments'')
        (rbind (mapM (\<lambda>p. parsePoint C p True) inputCommitments) (\<lambda>_.
         rbind (mapM (\<lambda>p. parsePoint C p True) outputCommitments) (\<lambda>_.
         rbind (mul C H_base deposit) (\<lambda>hd.
         rbind (mapM (neg C) outputCommitments) (\<lambda>negated.
         rbind (mul C H_base withdraw) (\<lambda>hw.
         rbind (neg C hw) (\<lambda>nhw.
         sum_points C (inputCommitments @ [hd] @ negated @ [nhw])))))))))"

definition balanceWitness :: "int list \<Rightarrow> int list \<Rightarrow> int res" where
  "balanceWitness inputBlindings outputBlindings =
     (if length inputBlindings > 2 \<or> length outputBlindings > 2
         \<or> \<not> list_all (\<lambda>b. \<not> (b < 0 \<or> b \<ge> Q_mod)) (inputBlindings @ outputBlindings)
      then Inl (CryptoFailure C_INPUT ''balance.blindings'')
      else let incoming = foldl (+) 0 inputBlindings; outgoing = foldl (+) 0 outputBlindings
           in Inr (modq (incoming - outgoing)))"

text \<open>The hashed bytes of one attempt.\<close>

definition challenge_preimage ::
  "curve \<Rightarrow> (octets \<Rightarrow> octets) \<Rightarrow> int \<Rightarrow> octets \<Rightarrow> octets \<Rightarrow> G1Point \<Rightarrow> G1Point \<Rightarrow> nat \<Rightarrow> octets res" where
  "challenge_preimage C keccak chainId addressWord operationId X R counter =
     rbind (word256 chainId) (\<lambda>chain.
     rbind (pointBytes C G_base) (\<lambda>g.
     rbind (pointBytes C X) (\<lambda>x.
     rbind (pointBytes C R) (\<lambda>r.
     rbind (word256 (int counter)) (\<lambda>n.
       Inr (concat_parts [tag keccak ''ecu/balance-schnorr/bn254/v1'', chain, addressWord,
              PARAMETERS_HASH_V3, operationId, g, x, r, n]))))))"

fun challenge_loop ::
  "(octets \<Rightarrow> octets) \<Rightarrow> (nat \<Rightarrow> octets res) \<Rightarrow> nat \<Rightarrow> nat \<Rightarrow> BalanceChallengeStep list
   \<Rightarrow> BalanceChallengeStep list res" where
  "challenge_loop keccak preimage_of 0 counter trace =
     Inl (CryptoFailure C_CHALLENGE_EXHAUSTED ''balance'')"
| "challenge_loop keccak preimage_of (Suc n) counter trace =
     rbind (preimage_of counter) (\<lambda>preimage.
       let candidate = bytesToBigInt (keccak preimage);
           accepted = (candidate > 0 \<and> candidate < Q_mod);
           trace' = trace @ [\<lparr>step_counter = counter, step_preimage = ''0x'' @ bytesHex preimage,
             step_candidate = candidate, step_accepted = accepted\<rparr>]
       in if accepted then Inr trace'
          else challenge_loop keccak preimage_of n (Suc counter) trace')"

definition balanceChallengeTrace ::
  "curve \<Rightarrow> (octets \<Rightarrow> octets) \<Rightarrow> int \<Rightarrow> octets \<Rightarrow> octets \<Rightarrow> G1Point \<Rightarrow> G1Point
   \<Rightarrow> BalanceChallengeStep list res" where
  "balanceChallengeTrace C keccak chainId pool operationId X R =
     rbind (validateContext chainId pool operationId) (\<lambda>_.
     rbind (recast (CryptoFailure C_INPUT ''balance.points'')
       (rbind (parsePoint C X True) (\<lambda>_. parsePoint C R False))) (\<lambda>_.
       let addressWord = concat_parts [replicate 12 0, pool]
       in challenge_loop keccak (challenge_preimage C keccak chainId addressWord operationId X R) 256 0 []))"

definition proveBalanceWithSource ::
  "curve \<Rightarrow> (octets \<Rightarrow> octets) \<Rightarrow> BalanceProofInput \<Rightarrow> ('w, int) eff \<Rightarrow> ('w, BalanceProof) eff" where
  "proveBalanceWithSource C keccak inp source =
     ebind (elift (validateContext (bpi_chainId inp) (bpi_pool inp) (bpi_operationId inp))) (\<lambda>_.
     if bpi_x inp < 0 \<or> bpi_x inp \<ge> Q_mod then ethrow (CryptoFailure C_INPUT ''balance.witness'')
     else ebind (elift (recast (CryptoFailure C_INPUT ''balance.witness'') (parsePoint C (bpi_X inp) True))) (\<lambda>_.
     ebind (elift (mul C G_base (bpi_x inp))) (\<lambda>expected.
     if \<not> samePoint (bpi_X inp) expected then ethrow (CryptoFailure C_INPUT ''balance.witness'')
     else ebind (sampleScalar source False) (\<lambda>nonce.
     ebind (elift (mul C G_base nonce)) (\<lambda>R.
     ebind (elift (balanceChallengeTrace C keccak (bpi_chainId inp) (bpi_pool inp) (bpi_operationId inp)
              (bpi_X inp) R)) (\<lambda>trace.
     let challenge = step_candidate (last trace)
     in ereturn \<lparr>Rx = px R, Ry = py R, proof_s = modq (nonce + challenge * bpi_x inp)\<rparr>))))))"

definition generateBalanceProof ::
  "curve \<Rightarrow> (octets \<Rightarrow> octets) \<Rightarrow> (nat \<Rightarrow> ('w, octets) eff) \<Rightarrow> BalanceProofInput \<Rightarrow> ('w, BalanceProof) eff" where
  "generateBalanceProof C keccak getRandomValues inp =
     ecatch (proveBalanceWithSource C keccak inp (secure_source getRandomValues))
       (\<lambda>error. case error of
          CryptoFailure _ _ \<Rightarrow> ethrow error
        | _ \<Rightarrow> ethrow (CryptoFailure C_INTERNAL ''balanceProof''))"

section \<open>The on-chain verifier\<close>

text \<open>
  \<open>BalanceProofV3.verify\<close>: \<open>chainid\<close> is the chain's, \<open>sender\<close> the calling pool.  A revert is a
  failure.  The precompiles 6 and 7 are the curve's addition and multiplication, and \<open>abi.encode\<close> of
  static words is their concatenation.
\<close>

definition sol_isChallenge :: "int \<Rightarrow> bool" where
  "sol_isChallenge candidate \<longleftrightarrow> candidate \<noteq> 0 \<and> candidate < Q_mod"

fun sol_challenge_loop :: "(octets \<Rightarrow> octets) \<Rightarrow> (nat \<Rightarrow> octets res) \<Rightarrow> nat \<Rightarrow> nat \<Rightarrow> int res" where
  "sol_challenge_loop keccak encode 0 counter = Inl (OtherError ''ChallengeExhausted'')"
| "sol_challenge_loop keccak encode (Suc n) counter =
     rbind (encode counter) (\<lambda>bs.
       let candidate = bytesToBigInt (keccak bs)
       in if sol_isChallenge candidate then Inr candidate
          else sol_challenge_loop keccak encode n (Suc counter))"

definition sol_challenge ::
  "(octets \<Rightarrow> octets) \<Rightarrow> int \<Rightarrow> octets \<Rightarrow> octets \<Rightarrow> G1Point \<Rightarrow> G1Point \<Rightarrow> G1Point \<Rightarrow> int res" where
  "sol_challenge keccak chainid sender operationId X R G =
     sol_challenge_loop keccak (\<lambda>counter.
       rbind (mapM word256 [chainid]) (\<lambda>chain.
       rbind (mapM word256 [px G, py G, px X, py X, px R, py R, int counter]) (\<lambda>ws.
         Inr (tag keccak ''ecu/balance-schnorr/bn254/v1'' @ concat chain @ (replicate 12 0 @ sender)
              @ PARAMETERS_HASH_V3 @ operationId @ concat ws)))) 256 0"

definition sol_verify_balance ::
  "curve \<Rightarrow> (octets \<Rightarrow> octets) \<Rightarrow> int \<Rightarrow> octets \<Rightarrow> octets \<Rightarrow> G1Point \<Rightarrow> G1Point \<Rightarrow> int \<Rightarrow> bool res" where
  "sol_verify_balance C keccak chainid sender operationId X R s =
     (if \<not> (valid_point C X \<and> valid_point C R \<and> R \<noteq> zero_point) then Inl (OtherError ''InvalidPoint'')
      else if \<not> (0 \<le> s \<and> s < Q_mod) then Inl (OtherError ''InvalidScalar'')
      else rbind (sol_challenge keccak chainid sender operationId X R G_base) (\<lambda>c.
           rbind (mul C G_base s) (\<lambda>left.
           rbind (mul C X c) (\<lambda>xc.
           rbind (add C R xc) (\<lambda>right. Inr (samePoint left right))))))"

section \<open>Lemmas\<close>

lemma foldl_plus: "foldl (+) a xs = a + sum_list xs" for a :: int
  by (induction xs arbitrary: a) auto

lemma balanceWitness_eq_Inr:
  "balanceWitness ins outs = Inr x \<longleftrightarrow>
   length ins \<le> 2 \<and> length outs \<le> 2 \<and> (\<forall>b \<in> set ins \<union> set outs. 0 \<le> b \<and> b < Q_mod)
   \<and> x = (sum_list ins - sum_list outs) mod Q_mod"
  by (auto simp: balanceWitness_def Let_def foldl_plus modq_eq list_all_iff not_less not_le)

lemma challenge_loop_trace:
  "challenge_loop keccak pre n k trace = Inr t \<Longrightarrow>
   \<exists>steps. t = trace @ steps \<and> steps \<noteq> [] \<and> length steps \<le> n \<and>
     list_all (\<lambda>s. \<not> step_accepted s) (butlast steps) \<and> step_accepted (last steps) \<and>
     0 < step_candidate (last steps) \<and> step_candidate (last steps) < Q_mod \<and>
     map step_counter steps = [k..<k + length steps]"
proof (induction n arbitrary: k trace)
  case 0
  then show ?case by simp
next
  case (Suc n)
  from Suc.prems obtain bs where bs: "pre k = Inr bs" by (auto simp: rbind_eq_Inr)
  let ?c = "bytesToBigInt (keccak bs)"
  let ?step = "\<lparr>step_counter = k, step_preimage = ''0x'' @ bytesHex bs, step_candidate = ?c,
    step_accepted = (?c > 0 \<and> ?c < Q_mod)\<rparr>"
  show ?case
  proof (cases "?c > 0 \<and> ?c < Q_mod")
    case True
    with Suc.prems bs show ?thesis by (intro exI [of _ "[?step]"]) (auto simp: Let_def)
  next
    case False
    with Suc.prems bs have "challenge_loop keccak pre n (Suc k) (trace @ [?step]) = Inr t"
      by (auto simp: Let_def)
    from Suc.IH [OF this] obtain steps where
      "t = (trace @ [?step]) @ steps" "steps \<noteq> []" "length steps \<le> n"
      "list_all (\<lambda>s. \<not> step_accepted s) (butlast steps)" "step_accepted (last steps)"
      "0 < step_candidate (last steps)" "step_candidate (last steps) < Q_mod"
      "map step_counter steps = [Suc k..<Suc k + length steps]" by blast
    with False show ?thesis
      by (intro exI [of _ "?step # steps"]) (auto simp: upt_conv_Cons Suc_le_eq)
  qed
qed

lemma challenge_loop_agrees:
  "challenge_loop keccak pre n k trace = Inr t \<Longrightarrow> (\<And>i. encode i = pre i) \<Longrightarrow>
   sol_challenge_loop keccak encode n k = Inr (step_candidate (last t))"
  by (induction n arbitrary: k trace)
     (auto simp: rbind_eq_Inr Let_def sol_isChallenge_def less_le split: if_splits)

lemma balanceChallengeTrace_challenge:
  assumes "balanceChallengeTrace C keccak chainId pool opId X R = Inr t"
    and "valid_point C G_base"
  shows "sol_challenge keccak chainId pool opId X R G_base = Inr (step_candidate (last t))"
    and "valid_point C X" and "valid_point C R" and "R \<noteq> zero_point"
    and "0 < step_candidate (last t)" and "step_candidate (last t) < Q_mod"
proof -
  let ?pre = "challenge_preimage C keccak chainId (replicate 12 0 @ pool) opId X R"
  from assms(1) have loop: "challenge_loop keccak ?pre 256 0 [] = Inr t"
    and X: "valid_point C X" and R: "valid_point C R" "R \<noteq> zero_point"
    by (auto simp: balanceChallengeTrace_def rbind_eq_Inr recast_eq_Inr parsePoint_eq_Inr
        Let_def concat_parts_def)
  show "valid_point C X" "valid_point C R" "R \<noteq> zero_point" by (fact X R)+
  have pb: "pointBytes C p = rbind (mapM word256 [px p, py p]) (\<lambda>ws. Inr (concat ws))"
    if "valid_point C p" for p
    using that by (simp add: pointBytes_def parsePoint_valid concat_parts_def rbind_def split: sum.split)
  show "sol_challenge keccak chainId pool opId X R G_base = Inr (step_candidate (last t))"
    unfolding sol_challenge_def
    by (rule challenge_loop_agrees [OF loop])
       (simp add: challenge_preimage_def pb assms(2) X R(1) concat_parts_def rbind_def split: sum.split)
  from challenge_loop_trace [OF loop] show "0 < step_candidate (last t)" "step_candidate (last t) < Q_mod"
    by auto
qed

lemma parse_commitments: "list_all (valid_point C) ps \<Longrightarrow> mapM (\<lambda>p. parsePoint C p True) ps = Inr ps"
  by (induction ps) (auto simp: parsePoint_valid)

lemma commit_lin2:
  assumes C: "curve_laws C" and g: "generators_valid C" and "mapM (commit C) os = Inr cs"
  shows "cs = map (\<lambda>(a, b). lin2 C a b) (map (\<lambda>o'. (amount o', blinding o')) os)"
    and "list_all (valid_point C) cs" and "list_all valid_opening os"
  using assms(3)
  by (induction os arbitrary: cs; auto simp: rbind_eq_Inr commit_eq_Inr [OF C g] lin2_valid [OF C g])+


lemma neg_commitments:
  assumes C: "curve_laws C" and g: "generators_valid C"
  shows "mapM (neg C) (map (\<lambda>(a, b). lin2 C a b) xs) = Inr (map (\<lambda>(a, b). lin2 C (- a) (- b)) xs)"
  by (induction xs) (auto simp: neg_def nativePoint_def parsePoint_valid lin2_valid [OF C g] lin2_neg [OF C g])

text \<open>The balance point is the linear combination of the bases by what the operation leaves over:
  the amounts in front of the value base, the blindings in front of the blinding base.\<close>

lemma sum_list_neg: "(\<Sum>x\<leftarrow>xs. - f x) = - sum_list (map f xs)" for f :: "'a \<Rightarrow> int"
  by (induction xs) auto

lemma balance_point_linear:
  assumes C: "curve_laws C" and g: "generators_valid C"
    and ins: "mapM (commit C) ins = Inr ci" and outs: "mapM (commit C) outs = Inr co"
    and len: "length ins \<le> 2" "length outs \<le> 2"
    and d: "0 \<le> d" "d \<le> M_max" and w: "0 \<le> w" "w \<le> 2 * M_max"
  shows "computeBalancePoint C ci co d w =
    Inr (lin2 C (sum_list (map amount ins) + d - sum_list (map amount outs) - w)
           (sum_list (map blinding ins) - sum_list (map blinding outs)))"
proof -
  let ?pairs = "map (\<lambda>o'. (amount o', blinding o'))"
  note ci = commit_lin2 [OF C g ins] and co = commit_lin2 [OF C g outs]
  have dw: "d < Q_mod" "w < Q_mod" using d w M_less_Q by simp_all
  have neg_hw: "neg C (smul C H_base w) = Inr (lin2 C (- w) 0)"
    using lin2_neg [OF C g, of w 0]
    by (simp add: neg_eq_Inr lin2_H [OF C g] lin2_valid [OF C g])
  have "sum_points C (ci @ [smul C H_base d] @ map (\<lambda>(a, b). lin2 C (- a) (- b)) (?pairs outs) @ [lin2 C (- w) 0])
      = sum_points C (map (\<lambda>(a, b). lin2 C a b)
          (?pairs ins @ [(d, 0)] @ map (\<lambda>(a, b). (- a, - b)) (?pairs outs) @ [(- w, 0)]))"
    by (simp add: ci(1) lin2_H [OF C g] comp_def case_prod_beta)
  also have "\<dots> = Inr (lin2 C (sum_list (map amount ins) + d - sum_list (map amount outs) - w)
           (sum_list (map blinding ins) - sum_list (map blinding outs)))"
    by (subst foldl_lin2 [OF C g])
       (simp add: comp_def case_prod_beta sum_list_neg algebra_simps)
  finally have "sum_points C (ci @ [smul C H_base d] @ map (\<lambda>(a, b). lin2 C (- a) (- b)) (?pairs outs) @ [lin2 C (- w) 0])
      = Inr (lin2 C (sum_list (map amount ins) + d - sum_list (map amount outs) - w)
           (sum_list (map blinding ins) - sum_list (map blinding outs)))" .
  moreover have "length ci \<le> 2" "length co \<le> 2" using len ci(1) co(1) by simp_all
  moreover have "mapM (neg C) co = Inr (map (\<lambda>(a, b). lin2 C (- a) (- b)) (?pairs outs))"
    unfolding co(1) by (rule neg_commitments [OF C g])
  ultimately show ?thesis
    using ci(2) co(2) d w dw
    by (simp add: computeBalancePoint_def parse_commitments mul_valid generators_base [OF g] neg_hw)
qed

lemma opening_sum_bound:
  "list_all valid_opening os \<Longrightarrow> length os \<le> 2 \<Longrightarrow> 0 \<le> sum_list (map amount os) \<and> sum_list (map amount os) \<le> 2 * M_max"
  by (cases os rule: list.exhaust; cases "tl os") (auto simp: valid_opening_def M_max_eq)

lemma prove_balance_verifies:
  assumes C: "curve_laws C" and g: "generators_valid C"
    and run: "proveBalanceWithSource C keccak inp source w = (Inr pf, w')"
  shows "sol_verify_balance C keccak (bpi_chainId inp) (bpi_pool inp) (bpi_operationId inp)
           (bpi_X inp) \<lparr>px = Rx pf, py = Ry pf\<rparr> (proof_s pf) = Inr True"
proof -
  from run obtain nonce w1 R t where x: "0 \<le> bpi_x inp" "bpi_x inp < Q_mod"
    and X: "bpi_X inp = smul C G_base (bpi_x inp)"
    and nonce: "sampleScalar source False w = (Inr nonce, w1)" and R: "R = smul C G_base nonce"
    and t: "balanceChallengeTrace C keccak (bpi_chainId inp) (bpi_pool inp) (bpi_operationId inp) (bpi_X inp) R = Inr t"
    and pf: "pf = \<lparr>Rx = px R, Ry = py R, proof_s = modq (nonce + step_candidate (last t) * bpi_x inp)\<rparr>"
    by (auto simp: proveBalanceWithSource_def eff_simps Let_def mul_eq_Inr samePoint_iff split: if_splits)
  let ?c = "step_candidate (last t)"
  note ch = balanceChallengeTrace_challenge [OF t generators_base(2) [OF g]]
  have Rp: "\<lparr>px = Rx pf, py = Ry pf\<rparr> = R" by (simp add: pf)
  have s_range: "0 \<le> proof_s pf" "proof_s pf < Q_mod" using Q_pos by (simp_all add: pf modq_eq)
  note vG = generators_base(2) [OF g]
  have s: "smul C G_base (proof_s pf) = curve_add C R (smul C (bpi_X inp) ?c)"
    by (simp add: pf modq_eq R X smul_mult [OF C vG] smul_add [OF C vG] mult.commute)
  have xc: "mul C (bpi_X inp) ?c = Inr (smul C (bpi_X inp) ?c)"
    using ch by (simp add: mul_valid)
  have "add C R (smul C (bpi_X inp) ?c) = Inr (curve_add C R (smul C (bpi_X inp) ?c))"
    using ch by (simp add: add_valid smul_valid [OF C])
  then show ?thesis
    using ch vG s_range by (simp add: sol_verify_balance_def Rp mul_valid xc s samePoint_iff)
qed

lemma challenge_loop_total:
  "(\<And>i. i < k + n \<Longrightarrow> \<exists>bs. pre i = Inr bs) \<Longrightarrow> challenge_loop keccak pre n k trace = Inl e \<Longrightarrow>
   e = CryptoFailure C_CHALLENGE_EXHAUSTED ''balance''"
proof (induction n arbitrary: k trace)
  case 0
  then show ?case by simp
next
  case (Suc n)
  from Suc.prems(1) [of k] obtain bs where bs: "pre k = Inr bs" by auto
  have "\<exists>bs. pre i = Inr bs" if "i < Suc k + n" for i using Suc.prems(1) [of i] that by simp
  moreover obtain tr where "challenge_loop keccak pre n (Suc k) tr = Inl e"
    using Suc.prems(2) bs by (auto simp: Let_def split: if_splits)
  ultimately show ?case by (rule Suc.IH)
qed

lemma validateContext_eq_Inr:
  "validateContext chainId pool opId = Inr () \<longleftrightarrow>
   0 \<le> chainId \<and> chainId < 2 ^ 256 \<and> length pool = 20 \<and> length opId = 32"
  by (auto simp: validateContext_def)

lemma challenge_preimage_total:
  assumes "generators_valid C" "valid_point C X" "valid_point C R" "0 \<le> chainId" "chainId < 2 ^ 256" "i < 256"
  shows "\<exists>bs. challenge_preimage C keccak chainId a opId X R i = Inr bs"
proof -
  obtain c g x r n where "word256 chainId = Inr c" "pointBytes C G_base = Inr g" "pointBytes C X = Inr x"
    "pointBytes C R = Inr r" "word256 (int i) = Inr n"
    using assms pointBytes_total [of C] generators_base [of C] word256_total [of chainId]
      word256_total [of "int i"] by fastforce
  then show ?thesis by (simp add: challenge_preimage_def)
qed

lemma balanceChallengeTrace_Inl:
  assumes g: "generators_valid C" and X: "valid_point C X" and R: "valid_point C R" "R \<noteq> zero_point"
    and ctx: "validateContext chainId pool opId = Inr ()"
    and run: "balanceChallengeTrace C keccak chainId pool opId X R = Inl e"
  shows "e = CryptoFailure C_CHALLENGE_EXHAUSTED ''balance''"
proof -
  note c = ctx [unfolded validateContext_eq_Inr]
  have "parsePoint C R False = Inr R" using R by (simp add: parsePoint_eq_Inr)
  with run ctx X have "challenge_loop keccak
      (challenge_preimage C keccak chainId (concat_parts [replicate 12 0, pool]) opId X R) 256 0 [] = Inl e"
    by (simp add: balanceChallengeTrace_def parsePoint_valid Let_def)
  then show ?thesis
    by (rule challenge_loop_total [rotated]) (use c in \<open>auto intro!: challenge_preimage_total [OF g X R(1)]\<close>)
qed

lemma sample_loop_Inl:
  "sample_loop n src z w = (Inl e, w') \<Longrightarrow>
   e = CryptoFailure C_RANDOM ''scalar'' \<or> e = CryptoFailure C_SCALAR_EXHAUSTED ''scalar''"
  by (induction n arbitrary: w) (auto simp: ebind_eq_Inl ecatch_eq_Inl split: if_splits)

lemma prove_balance_total:
  assumes C: "curve_laws C" and g: "generators_valid C" and ord: "has_full_order C G_base"
    and ctx: "validateContext (bpi_chainId inp) (bpi_pool inp) (bpi_operationId inp) = Inr ()"
    and x: "0 \<le> bpi_x inp" "bpi_x inp < Q_mod" and X: "bpi_X inp = smul C G_base (bpi_x inp)"
    and run: "proveBalanceWithSource C keccak inp source w = (Inl e, w')"
  shows "e \<in> {CryptoFailure C_RANDOM ''scalar'', CryptoFailure C_SCALAR_EXHAUSTED ''scalar'',
              CryptoFailure C_CHALLENGE_EXHAUSTED ''balance''}"
proof -
  note vG = generators_base(2) [OF g]
  have vX: "valid_point C (bpi_X inp)" by (simp add: X smul_valid [OF C vG])
  note pre = ctx x X vX vG
  have body: "ebind (sampleScalar source False) (\<lambda>nonce. ebind (elift (mul C G_base nonce)) (\<lambda>R.
     ebind (elift (balanceChallengeTrace C keccak (bpi_chainId inp) (bpi_pool inp) (bpi_operationId inp)
              (bpi_X inp) R)) (\<lambda>trace.
     let challenge = step_candidate (last trace)
     in ereturn \<lparr>Rx = px R, Ry = py R, proof_s = modq (nonce + challenge * bpi_x inp)\<rparr>))) w = (Inl e, w')"
    using run pre by (simp add: proveBalanceWithSource_def mul_valid parsePoint_valid samePoint_iff)
  show ?thesis
  proof (cases "sampleScalar source False w")
    case (Pair r w1)
    show ?thesis
    proof (cases r)
      case (Inl e')
      with Pair body have "e' = e" by (simp add: ebind_def)
      with Pair Inl show ?thesis
        using sample_loop_Inl [of 256 source False w e w1] by (auto simp: sampleScalar_def)
    next
      case (Inr nonce)
      let ?R = "smul C G_base nonce"
      have n: "1 \<le> nonce" "nonce < Q_mod"
        using sample_loop_sound [of 256 source False w nonce w1] Pair Inr
        by (auto simp: sampleScalar_def scalar_accepted_def)
      then have "nonce mod Q_mod \<noteq> 0" by simp
      with ord have R0: "?R \<noteq> zero_point" by (auto simp: has_full_order_def)
      have "balanceChallengeTrace C keccak (bpi_chainId inp) (bpi_pool inp) (bpi_operationId inp)
              (bpi_X inp) ?R = Inl e"
        using body Pair Inr n vG
        by (auto simp: ebind_def mul_valid Let_def split: sum.splits prod.splits)
      then show ?thesis
        using balanceChallengeTrace_Inl [OF g vX smul_valid [OF C vG] R0 ctx] by simp
    qed
  qed
qed

lemma balance_point_iff:
  assumes C: "curve_laws C" and g: "generators_valid C" and ord: "has_full_order C H_base"
    and ins: "mapM (commit C) ins = Inr ci" and outs: "mapM (commit C) outs = Inr co"
    and X: "computeBalancePoint C ci co d w = Inr X"
    and x: "balanceWitness (map blinding ins) (map blinding outs) = Inr x"
  shows "X = smul C G_base x \<longleftrightarrow>
    sum_list (map amount ins) + d = sum_list (map amount outs) + w"
proof -
  let ?delta = "sum_list (map amount ins) + d - sum_list (map amount outs) - w"
  from X have len: "length ins \<le> 2" "length outs \<le> 2" and d: "0 \<le> d" "d \<le> M_max" and w: "0 \<le> w" "w \<le> 2 * M_max"
    using mapM_length [OF ins] mapM_length [OF outs]
    by (auto simp: computeBalancePoint_def not_less not_le split: if_splits)
  from x have x: "x = (sum_list (map blinding ins) - sum_list (map blinding outs)) mod Q_mod"
    by (simp add: balanceWitness_eq_Inr)
  have "list_all valid_opening ins" "list_all valid_opening outs"
    using ins outs by (auto simp: mapM_eq_Inr commit_eq_Inr [OF C g] list_all2_conv_all_nth list_all_length)
  then have bound: "\<bar>?delta\<bar> \<le> 4 * M_max"
    using opening_sum_bound [of ins] opening_sum_bound [of outs] len d w by linarith
  have small: "4 * M_max < Q_mod" by (simp add: M_max_eq Q_mod_def)
  have "X = lin2 C ?delta x"
    using X balance_point_linear [OF C g ins outs len d w]
    by (simp add: x lin2_cong [of ?delta ?delta "_ mod Q_mod"])
  then have Xe: "X = curve_add C (smul C H_base ?delta) (smul C G_base x)" by (simp add: lin2_def)
  note vH = smul_valid [OF C generators_base(1) [OF g]] and vG = smul_valid [OF C generators_base(2) [OF g]]
  show ?thesis
  proof
    assume "X = smul C G_base x"
    with Xe have "curve_add C (smul C H_base ?delta) (smul C G_base x)
        = curve_add C zero_point (smul C G_base x)"
      by (simp add: laws_zero [OF C vG])
    from laws_cancel [OF C vH valid_zero vG this] have "smul C H_base ?delta = zero_point" .
    with ord have "?delta mod Q_mod = 0" by (simp add: has_full_order_def)
    then have "Q_mod dvd ?delta" by (simp add: mod_eq_0_iff_dvd)
    with bound small have "?delta = 0"
      using dvd_imp_le_int [of ?delta Q_mod] abs_Q by fastforce
    then show "sum_list (map amount ins) + d = sum_list (map amount outs) + w" by simp
  next
    assume "sum_list (map amount ins) + d = sum_list (map amount outs) + w"
    then have "?delta = 0" by simp
    then show "X = smul C G_base x" using Xe by (simp add: laws_zero [OF C vG])
  qed
qed

lemma sol_verify_balance_eq:
  assumes "valid_point C G_base" "valid_point C X" "valid_point C R" "curve_laws C"
    and "sol_challenge keccak chainid sender opId X R G_base = Inr c" "0 \<le> c" "c < Q_mod"
  shows "sol_verify_balance C keccak chainid sender opId X R s = Inr True \<longleftrightarrow>
    R \<noteq> zero_point \<and> 0 \<le> s \<and> s < Q_mod \<and> smul C G_base s = curve_add C R (smul C X c)"
  using assms
  by (auto simp: sol_verify_balance_def mul_valid add_valid smul_valid samePoint_iff)

lemma sol_challenge_loop_range:
  "sol_challenge_loop keccak encode n k = Inr c \<Longrightarrow> 0 < c \<and> c < Q_mod"
proof (induction n arbitrary: k)
  case (Suc n)
  have "0 \<le> bytesToBigInt (keccak bs)" for bs by simp
  with Suc show ?case
    by (auto simp: rbind_eq_Inr Let_def sol_isChallenge_def le_less split: if_splits)
qed simp

lemma sol_challenge_range: "sol_challenge keccak chainid sender opId X R G = Inr c \<Longrightarrow> 0 < c \<and> c < Q_mod"
  unfolding sol_challenge_def by (rule sol_challenge_loop_range)

lemma schnorr_extraction:
  assumes C: "curve_laws C" and g: "generators_valid C"
    and c1: "sol_challenge keccak1 chainid sender opId X R G_base = Inr c1"
    and c2: "sol_challenge keccak2 chainid sender opId X R G_base = Inr c2"
    and v1: "sol_verify_balance C keccak1 chainid sender opId X R s1 = Inr True"
    and v2: "sol_verify_balance C keccak2 chainid sender opId X R s2 = Inr True"
  shows "smul C X (c1 - c2) = smul C G_base (s1 - s2)"
proof -
  note vG = generators_base(2) [OF g]
  have v: "valid_point C X" "valid_point C R"
    using v1 by (auto simp: sol_verify_balance_def split: if_splits)
  note r1 = sol_challenge_range [OF c1] and r2 = sol_challenge_range [OF c2]
  have e1: "smul C G_base s1 = curve_add C R (smul C X c1)"
    using v1 sol_verify_balance_eq [OF vG v C c1] r1 by simp
  have e2: "smul C G_base s2 = curve_add C R (smul C X c2)"
    using v2 sol_verify_balance_eq [OF vG v C c2] r2 by simp
  have X1: "smul C X c1 = curve_add C (smul C X (c1 - c2)) (smul C X c2)"
    using smul_add [OF C v(1), of "c1 - c2" c2] by simp
  have G1: "smul C G_base s1 = curve_add C (smul C G_base (s1 - s2)) (smul C G_base s2)"
    using smul_add [OF C vG, of "s1 - s2" s2] by simp
  note vs = smul_valid [OF C v(1)] smul_valid [OF C vG] v(2) laws_add_valid [OF C]
  have "curve_add C (smul C G_base (s1 - s2)) (smul C G_base s2)
      = curve_add C (smul C X (c1 - c2)) (smul C G_base s2)"
    using G1 e1 e2 X1 vs by (simp add: laws_left_comm [OF C])
  from laws_cancel [OF C vs(2,1,2) this] show ?thesis by simp
qed

section \<open>Properties\<close>

text \<open>C1: For inputs and outputs whose openings the code can commit to, the balance point that
  \<open>computeBalancePoint\<close> returns is the multiple of the blinding base that \<open>balanceWitness\<close> names exactly
  when the amounts balance: nothing is created or lost over inputs, deposit, outputs and withdrawal.
  The curve is any group with the two bases; the value base has full order.\<close>

theorem balance_point_iff_amounts:
  assumes "curve_laws C" and "generators_valid C" and "has_full_order C H_base"
    and "mapM (commit C) ins = Inr ci" and "mapM (commit C) outs = Inr co"
    and "computeBalancePoint C ci co d w = Inr X"
    and "balanceWitness (map blinding ins) (map blinding outs) = Inr x"
  shows "X = smul C G_base x \<longleftrightarrow>
    sum_list (map amount ins) + d = sum_list (map amount outs) + w"
  by (rule balance_point_iff [OF assms])

theorem balance_point_iff_amounts_witness:
  "\<exists>X x. computeBalancePoint model_curve [lin2 model_curve 5 3] [lin2 model_curve 2 1] 0 3 = Inr X \<and>
     balanceWitness [3] [1] = Inr x \<and> X = smul model_curve G_base x"
proof -
  note laws = model_curve_laws model_generators
  have c: "mapM (commit model_curve) [\<lparr>amount = 5, blinding = 3\<rparr>] = Inr [lin2 model_curve 5 3]"
    "mapM (commit model_curve) [\<lparr>amount = 2, blinding = 1\<rparr>] = Inr [lin2 model_curve 2 1]"
    by (simp_all add: commit_valid [OF laws] valid_opening_def M_max_eq Q_mod_def)
  have x: "balanceWitness (map blinding [\<lparr>amount = 5, blinding = 3\<rparr>])
      (map blinding [\<lparr>amount = 2, blinding = 1\<rparr>]) = Inr 2"
    by (simp add: balanceWitness_eq_Inr Q_mod_def)
  obtain X where X: "computeBalancePoint model_curve [lin2 model_curve 5 3] [lin2 model_curve 2 1] 0 3 = Inr X"
    using balance_point_linear [OF laws c] by (simp add: M_max_eq)
  show ?thesis
    using balance_point_iff_amounts [OF laws model_full_order(1) c X x] X x by simp
qed

text \<open>C2: When the amounts balance, \<open>proveBalanceWithSource\<close> either returns a proof that the contract's
  verifier accepts for the same chain, pool, operation and point, or throws because the random source
  failed, its 256 candidates were rejected, or the 256 challenge attempts were: no other failure is
  possible, whatever the hash and the source answer.\<close>

theorem balanced_operation_proves:
  assumes "curve_laws C" and "generators_valid C"
    and "has_full_order C H_base" and "has_full_order C G_base"
    and "mapM (commit C) ins = Inr ci" and "mapM (commit C) outs = Inr co"
    and "computeBalancePoint C ci co d wd = Inr X"
    and "balanceWitness (map blinding ins) (map blinding outs) = Inr x"
    and "sum_list (map amount ins) + d = sum_list (map amount outs) + wd"
    and "validateContext chainId pool opId = Inr ()"
  shows "case fst (proveBalanceWithSource C keccak
      \<lparr>bpi_X = X, bpi_x = x, bpi_chainId = chainId, bpi_pool = pool, bpi_operationId = opId\<rparr> source w) of
    Inr pf \<Rightarrow> sol_verify_balance C keccak chainId pool opId X \<lparr>px = Rx pf, py = Ry pf\<rparr> (proof_s pf) = Inr True
  | Inl e \<Rightarrow> e \<in> {CryptoFailure C_RANDOM ''scalar'', CryptoFailure C_SCALAR_EXHAUSTED ''scalar'',
              CryptoFailure C_CHALLENGE_EXHAUSTED ''balance''}"
proof -
  let ?inp = "\<lparr>bpi_X = X, bpi_x = x, bpi_chainId = chainId, bpi_pool = pool, bpi_operationId = opId\<rparr>"
  have X: "X = smul C G_base x" using balance_point_iff [OF assms(1-3,5-8)] assms(9) by simp
  have x: "0 \<le> x" "x < Q_mod" using assms(8) Q_pos by (auto simp: balanceWitness_eq_Inr)
  show ?thesis
  proof (cases "proveBalanceWithSource C keccak ?inp source w")
    case (Pair r w')
    then show ?thesis
      using prove_balance_verifies [OF assms(1,2), of keccak ?inp source w _ w']
        prove_balance_total [OF assms(1,2,4), of ?inp keccak source w _ w'] X x assms(10)
      by (cases r) auto
  qed
qed

theorem balanced_operation_proves_witness:
  "\<exists>X. case fst (proveBalanceWithSource model_curve (\<lambda>_. word_loop 32 1 [])
      \<lparr>bpi_X = X, bpi_x = 2, bpi_chainId = 1, bpi_pool = replicate 20 0, bpi_operationId = replicate 32 0\<rparr>
      (\<lambda>w. (Inr 5, w)) ()) of
    Inr pf \<Rightarrow> sol_verify_balance model_curve (\<lambda>_. word_loop 32 1 []) 1 (replicate 20 0) (replicate 32 0) X
      \<lparr>px = Rx pf, py = Ry pf\<rparr> (proof_s pf) = Inr True
  | Inl e \<Rightarrow> e \<in> {CryptoFailure C_RANDOM ''scalar'', CryptoFailure C_SCALAR_EXHAUSTED ''scalar'',
              CryptoFailure C_CHALLENGE_EXHAUSTED ''balance''}"
proof -
  note laws = model_curve_laws model_generators
  have c: "mapM (commit model_curve) [\<lparr>amount = 5, blinding = 3\<rparr>] = Inr [lin2 model_curve 5 3]"
    "mapM (commit model_curve) [\<lparr>amount = 2, blinding = 1\<rparr>] = Inr [lin2 model_curve 2 1]"
    by (simp_all add: commit_valid [OF laws] valid_opening_def M_max_eq Q_mod_def)
  have x: "balanceWitness (map blinding [\<lparr>amount = 5, blinding = 3\<rparr>])
      (map blinding [\<lparr>amount = 2, blinding = 1\<rparr>]) = Inr 2"
    by (simp add: balanceWitness_eq_Inr Q_mod_def)
  obtain X where X: "computeBalancePoint model_curve [lin2 model_curve 5 3] [lin2 model_curve 2 1] 0 3 = Inr X"
    using balance_point_linear [OF laws c] by (simp add: M_max_eq)
  show ?thesis
    by (rule exI [of _ X], rule balanced_operation_proves [OF laws model_full_order c X x])
       (simp_all add: validateContext_eq_Inr)
qed

text \<open>C3: Special soundness of the on-chain balance verifier: two accepted proofs with the same \<open>R\<close>
  under different challenges determine the discrete logarithm of \<open>X\<close> to the blinding base.\<close>

theorem balance_proof_extracts:
  assumes "curve_laws C" and "generators_valid C"
    and "sol_challenge keccak1 chainid sender opId X R G_base = Inr c1"
    and "sol_challenge keccak2 chainid sender opId X R G_base = Inr c2"
    and "sol_verify_balance C keccak1 chainid sender opId X R s1 = Inr True"
    and "sol_verify_balance C keccak2 chainid sender opId X R s2 = Inr True"
    and "u * (c1 - c2) mod Q_mod = 1"
  shows "X = smul C G_base (u * (s1 - s2))"
proof -
  have v: "valid_point C X" using assms(5) by (auto simp: sol_verify_balance_def split: if_splits)
  have "X = smul C X (u * (c1 - c2))"
    using smul_cong [of "u * (c1 - c2)" 1 C X] assms(7) smul_1 [OF assms(1) v] by (simp add: Q_mod_def)
  also have "\<dots> = smul C (smul C X (c1 - c2)) u" by (simp add: smul_mult [OF assms(1) v] mult.commute)
  also have "\<dots> = smul C (smul C G_base (s1 - s2)) u"
    by (simp only: schnorr_extraction [OF assms(1-6)])
  also have "\<dots> = smul C G_base (u * (s1 - s2))"
    by (simp add: smul_mult [OF assms(1) generators_base(2) [OF assms(2)]] mult.commute)
  finally show ?thesis .
qed

lemma constant_challenge:
  assumes "valid_point C G_base" "valid_point C X" "valid_point C R"
    and "0 < c" "c < Q_mod"
  shows "sol_challenge (\<lambda>_. word_loop 32 c []) 1 p opId X R G_base = Inr c"
proof -
  have w: "\<exists>bs. word256 (px p) = Inr bs" "\<exists>bs. word256 (py p) = Inr bs" if "valid_point C p" for p
    using that Q_less_word
    by (auto simp: valid_point_def zero_point_def intro!: word256_total)
  obtain a b c1 d e f where
    "word256 (px G_base) = Inr a" "word256 (py G_base) = Inr b" "word256 (px X) = Inr c1"
    "word256 (py X) = Inr d" "word256 (px R) = Inr e" "word256 (py R) = Inr f"
    using assms w by meson
  moreover have "\<exists>bs. word256 1 = Inr bs" "\<exists>bs. word256 0 = Inr bs" by (auto intro!: word256_total)
  moreover have "bytesToBigInt (word_loop 32 c []) = c"
    using assms(4,5) Q_less_word by (intro bytesToBigInt_word_loop) auto
  moreover have "sol_challenge_loop k f 256 0 = rbind (f 0) (\<lambda>bs. let candidate = bytesToBigInt (k bs)
       in if sol_isChallenge candidate then Inr candidate else sol_challenge_loop k f 255 (Suc 0))" for k f
    using sol_challenge_loop.simps(2) [of k f 255 0] by simp
  ultimately show ?thesis
    using assms(4,5) by (auto simp: sol_challenge_def sol_isChallenge_def Let_def)
qed

theorem balance_proof_extracts_witness:
  "\<exists>X. X = smul model_curve G_base (1 * (11 - 8)) \<and> X \<noteq> zero_point"
proof -
  note laws = model_curve_laws model_generators
  let ?X = "smul model_curve G_base 3" and ?R = "smul model_curve G_base 5"
  note vG = generators_base(2) [OF laws(2)] and v = smul_valid [OF laws(1) generators_base(2) [OF laws(2)]]
  have nz: "smul model_curve G_base k \<noteq> zero_point" if "0 < k" "k < Q_mod" for k
  proof -
    have "k mod Q_mod \<noteq> 0" using that by simp
    then show ?thesis using model_full_order(2) unfolding has_full_order_def by blast
  qed
  have ch: "sol_challenge (\<lambda>_. word_loop 32 c []) 1 (replicate 20 0) (replicate 32 0) ?X ?R G_base = Inr c"
    if "0 < c" "c < Q_mod" for c
    by (rule constant_challenge [OF vG v v that])
  have ok: "sol_verify_balance model_curve (\<lambda>_. word_loop 32 c []) 1 (replicate 20 0) (replicate 32 0)
      ?X ?R (5 + 3 * c) = Inr True" if "0 < c" "c < 3" for c
  proof -
    have c: "c < Q_mod" "5 + 3 * c < Q_mod" using that by (simp_all add: Q_mod_def)
    have "smul model_curve G_base (5 + 3 * c) = curve_add model_curve ?R (smul model_curve ?X c)"
      by (simp add: smul_add [OF laws(1) vG] smul_mult [OF laws(1) vG])
    then show ?thesis
      using sol_verify_balance_eq [OF vG v v laws(1) ch [OF that(1) c(1)]] that c nz [of 5]
      by (simp add: Q_mod_def)
  qed
  have "?X = smul model_curve G_base (1 * (11 - 8))"
    by (rule balance_proof_extracts [OF laws ch [of 2] ch [of 1] ok [of 2, simplified] ok [of 1, simplified]])
       (simp_all add: Q_mod_def)
  then show ?thesis using nz [of 3] by (intro exI [of _ ?X]) (simp add: Q_mod_def)
qed

end
