(* ===== verification/CryptoReceipt.thy ===== *)
theory CryptoReceipt
  imports Balance
begin

text \<open>
  \<open>packages/crypto/src/receipt.ts\<close>: the opening of a note, encoded in 64 bytes and sealed to the
  recipient.  HPKE and X25519 are libraries: a record of their calls is a parameter, each call
  answering or throwing, and \<open>hpke_laws\<close> states what RFC 9180 promises of a key pair.
\<close>

record ('w, 'pk, 'snd, 'sk, 'rcp) hpke =
  getSharedSecret :: "octets \<Rightarrow> octets \<Rightarrow> unit res"
  deserializePublicKey :: "octets \<Rightarrow> 'pk res"
  createSenderContext :: "'pk \<Rightarrow> octets \<Rightarrow> ('w, 'snd) eff"
  sender_enc :: "'snd \<Rightarrow> octets"
  sender_seal :: "'snd \<Rightarrow> octets \<Rightarrow> octets res"
  deserializePrivateKey :: "octets \<Rightarrow> 'sk res"
  createRecipientContext :: "'sk \<Rightarrow> octets \<Rightarrow> octets \<Rightarrow> 'rcp res"
  recipient_open :: "'rcp \<Rightarrow> octets \<Rightarrow> octets res"

record EncryptReceiptInput =
  eri_recipientPublicKey :: octets
  eri_info :: octets
  eri_opening :: Opening

record DecryptReceiptInput =
  dri_recipientPrivateKey :: octets
  dri_info :: octets
  dri_packet :: octets
  dri_commitment :: G1Point

definition encodeOpening :: "Opening \<Rightarrow> octets res" where
  "encodeOpening opening =
     (if amount opening < 1 \<or> amount opening > M_max \<or> blinding opening < 0 \<or> blinding opening \<ge> Q_mod
      then Inl (CryptoFailure C_INPUT ''receipt.opening'')
      else rbind (word256 (amount opening)) (\<lambda>a.
           rbind (word256 (blinding opening)) (\<lambda>b. Inr (concat_parts [a, b]))))"

definition decodeOpening :: "octets \<Rightarrow> Opening res" where
  "decodeOpening plaintext =
     (if length plaintext \<noteq> 64 then Inl (CryptoFailure C_PLAINTEXT ''receipt'')
      else let a = bytesToBigInt (take 32 plaintext); b = bytesToBigInt (drop 32 plaintext)
           in if a < 1 \<or> a > M_max \<or> b \<ge> Q_mod then Inl (CryptoFailure C_PLAINTEXT ''receipt'')
              else Inr \<lparr>amount = a, blinding = b\<rparr>)"

definition encryptReceipt ::
  "('w, 'pk, 'snd, 'sk, 'rcp) hpke \<Rightarrow> EncryptReceiptInput \<Rightarrow> ('w, octets) eff" where
  "encryptReceipt suite inp =
     (if length (eri_info inp) \<noteq> 32 then ethrow (CryptoFailure C_INPUT ''receipt.info'')
      else if length (eri_recipientPublicKey inp) \<noteq> 32 then ethrow (CryptoFailure C_INPUT ''receipt.key'')
      else ebind (elift (encodeOpening (eri_opening inp))) (\<lambda>plaintext.
      ebind (elift (recast (CryptoFailure C_INPUT ''receipt.key'')
        (rbind (getSharedSecret suite (replicate 32 1) (eri_recipientPublicKey inp)) (\<lambda>_.
           deserializePublicKey suite (eri_recipientPublicKey inp))))) (\<lambda>recipientPublicKey.
      ebind (ecatch (createSenderContext suite recipientPublicKey (eri_info inp))
               (\<lambda>_. ethrow (CryptoFailure C_RANDOM ''receipt''))) (\<lambda>sender.
      ebind (elift (recast (CryptoFailure C_INTERNAL ''receipt'') (sender_seal suite sender plaintext))) (\<lambda>ciphertext.
        let packet = concat_parts [sender_enc suite sender, ciphertext]
        in if length packet \<noteq> 112 then ethrow (CryptoFailure C_INTERNAL ''receipt.packet'')
           else ereturn packet)))))"

definition decryptReceipt ::
  "curve \<Rightarrow> ('w, 'pk, 'snd, 'sk, 'rcp) hpke \<Rightarrow> DecryptReceiptInput \<Rightarrow> Opening res" where
  "decryptReceipt C suite inp =
     (if length (dri_info inp) \<noteq> 32 then Inl (CryptoFailure C_INPUT ''receipt.info'')
      else if length (dri_packet inp) \<noteq> 112 then Inl (CryptoFailure C_INPUT ''receipt.packet'')
      else if length (dri_recipientPrivateKey inp) \<noteq> 32 then Inl (CryptoFailure C_INPUT ''receipt.key'')
      else rbind (recast (CryptoFailure C_INPUT ''receipt.commitment'') (parsePoint C (dri_commitment inp) True)) (\<lambda>_.
      rbind (recast (CryptoFailure C_DECRYPT ''receipt'')
        (rbind (deserializePrivateKey suite (dri_recipientPrivateKey inp)) (\<lambda>recipientKey.
         rbind (createRecipientContext suite recipientKey (take 32 (dri_packet inp)) (dri_info inp)) (\<lambda>recipient.
           recipient_open suite recipient (drop 32 (dri_packet inp)))))) (\<lambda>plaintext.
      rbind (decodeOpening plaintext) (\<lambda>opening.
      rbind (commit C opening) (\<lambda>expected.
        if \<not> samePoint expected (dri_commitment inp) then Inl (CryptoFailure C_COMMITMENT ''receipt'')
        else Inr opening)))))"

text \<open>What the suite promises of a matching pair: a 32-byte encapsulation, a 16-byte authentication tag,
  and a recipient that opens what the sender sealed under the same \<open>info\<close>.\<close>

definition hpke_laws :: "('w, 'pk, 'snd, 'sk, 'rcp) hpke \<Rightarrow> octets \<Rightarrow> octets \<Rightarrow> bool" where
  "hpke_laws suite pkBytes skBytes \<longleftrightarrow>
     (\<forall>pk info w snd w' pt ct.
        deserializePublicKey suite pkBytes = Inr pk \<longrightarrow> createSenderContext suite pk info w = (Inr snd, w') \<longrightarrow>
        sender_seal suite snd pt = Inr ct \<longrightarrow>
        length (sender_enc suite snd) = 32 \<and> length ct = length pt + 16 \<and>
        (\<exists>sk rcp. deserializePrivateKey suite skBytes = Inr sk \<and>
           createRecipientContext suite sk (sender_enc suite snd) info = Inr rcp \<and>
           recipient_open suite rcp ct = Inr pt))"

section \<open>Lemmas\<close>

lemma encodeOpening_eq_Inr:
  "encodeOpening op = Inr bs \<longleftrightarrow>
   valid_opening op \<and> bs = word_loop 32 (amount op) [] @ word_loop 32 (blinding op) []"
proof -
  have "amount op < 2 ^ 256" if "amount op \<le> M_max" using that M_less_Q Q_less_word by linarith
  then show ?thesis
    using Q_less_word
    by (auto simp: encodeOpening_def valid_opening_def rbind_eq_Inr word256_eq_Inr concat_parts_def)
qed

lemma encodeOpening_length: "encodeOpening op = Inr bs \<Longrightarrow> length bs = 64"
  by (simp add: encodeOpening_eq_Inr)

lemma decodeOpening_encodeOpening:
  assumes "encodeOpening op = Inr bs"
  shows "decodeOpening bs = Inr op"
proof -
  from assms have v: "valid_opening op" and bs: "bs = word_loop 32 (amount op) [] @ word_loop 32 (blinding op) []"
    by (simp_all add: encodeOpening_eq_Inr)
  have "amount op < 256 ^ 32" "blinding op < 256 ^ 32"
    using v M_less_Q Q_less_word by (simp_all add: valid_opening_def)
  with v show ?thesis
    by (simp add: bs decodeOpening_def valid_opening_def bytesToBigInt_word_loop Let_def)
qed

lemma decodeOpening_sound:
  assumes "decodeOpening bs = Inr op"
  shows "valid_opening op" and "encodeOpening op = Inr bs"
proof -
  from assms have l: "length bs = 64"
    and op: "amount op = bytesToBigInt (take 32 bs)" "blinding op = bytesToBigInt (drop 32 bs)"
    and "1 \<le> amount op" "amount op \<le> M_max" "blinding op < Q_mod"
    by (auto simp: decodeOpening_def Let_def split: if_splits)
  then show v: "valid_opening op" by (simp add: valid_opening_def)
  have "word_loop 32 (amount op) [] = take 32 bs" "word_loop 32 (blinding op) [] = drop 32 bs"
    using word_loop_bytesToBigInt [of "take 32 bs"] word_loop_bytesToBigInt [of "drop 32 bs"] l op by simp_all
  with v show "encodeOpening op = Inr bs" by (simp add: encodeOpening_eq_Inr)
qed

lemma decodeOpening_Inl: "decodeOpening bs = Inl e \<Longrightarrow> e = CryptoFailure C_PLAINTEXT ''receipt''"
  by (auto simp: decodeOpening_def Let_def split: if_splits)

lemma encryptReceipt_eq_Inr:
  "encryptReceipt suite inp w = (Inr packet, w') \<longleftrightarrow>
   length (eri_info inp) = 32 \<and> length (eri_recipientPublicKey inp) = 32 \<and> length packet = 112 \<and>
   (\<exists>pt u pk snd ct. encodeOpening (eri_opening inp) = Inr pt \<and>
      getSharedSecret suite (replicate 32 1) (eri_recipientPublicKey inp) = Inr u \<and>
      deserializePublicKey suite (eri_recipientPublicKey inp) = Inr pk \<and>
      createSenderContext suite pk (eri_info inp) w = (Inr snd, w') \<and>
      sender_seal suite snd pt = Inr ct \<and> packet = sender_enc suite snd @ ct)"
  by (auto simp: encryptReceipt_def eff_simps res_simps Let_def concat_parts_def split: if_splits)

lemma decryptReceipt_sound:
  assumes "curve_laws C" and "generators_valid C" and "decryptReceipt C suite inp = Inr op"
  shows "valid_opening op \<and> commit C op = Inr (dri_commitment inp) \<and>
    dri_commitment inp = lin2 C (amount op) (blinding op)"
proof -
  from assms(3) obtain c where "commit C op = Inr c" "samePoint c (dri_commitment inp)"
    by (auto simp: decryptReceipt_def rbind_eq_Inr recast_eq_Inr split: if_splits)
  then have "commit C op = Inr (dri_commitment inp)" by (simp add: samePoint_iff)
  with commit_eq_Inr [OF assms(1,2)] show ?thesis by blast
qed

lemma receipt_round_trip:
  assumes C: "curve_laws C" and g: "generators_valid C"
    and laws: "hpke_laws suite (eri_recipientPublicKey inp) sk" and sk: "length sk = 32"
    and enc: "encryptReceipt suite inp w = (Inr packet, w')"
    and c: "commit C (eri_opening inp) = Inr c"
  shows "decryptReceipt C suite \<lparr>dri_recipientPrivateKey = sk, dri_info = eri_info inp,
           dri_packet = packet, dri_commitment = c\<rparr> = Inr (eri_opening inp)"
proof -
  from enc obtain pt u pk snd ct where l: "length (eri_info inp) = 32" "length packet = 112"
    and pt: "encodeOpening (eri_opening inp) = Inr pt"
    and pk: "deserializePublicKey suite (eri_recipientPublicKey inp) = Inr pk"
    and snd: "createSenderContext suite pk (eri_info inp) w = (Inr snd, w')"
    and ct: "sender_seal suite snd pt = Inr ct" and packet: "packet = sender_enc suite snd @ ct"
    by (auto simp: encryptReceipt_eq_Inr)
  from laws pk snd ct obtain sk' rcp where "length (sender_enc suite snd) = 32"
    and "deserializePrivateKey suite sk = Inr sk'"
    and "createRecipientContext suite sk' (sender_enc suite snd) (eri_info inp) = Inr rcp"
    and "recipient_open suite rcp ct = Inr pt"
    unfolding hpke_laws_def by blast
  moreover have "valid_point C c" using c by (simp add: commit_eq_Inr [OF C g] lin2_valid [OF C g])
  ultimately show ?thesis
    using l sk c decodeOpening_encodeOpening [OF pt]
    by (simp add: decryptReceipt_def packet parsePoint_valid samePoint_iff)
qed

text \<open>A suite that keeps the laws: the sender encapsulates nothing and pads the plaintext.\<close>

definition model_hpke :: "(unit, octets, octets, octets, octets) hpke" where
  "model_hpke = \<lparr>getSharedSecret = \<lambda>_ _. Inr (), deserializePublicKey = Inr,
     createSenderContext = \<lambda>pk info. ereturn info, sender_enc = \<lambda>_. replicate 32 7,
     sender_seal = \<lambda>info pt. Inr (pt @ replicate 16 0), deserializePrivateKey = Inr,
     createRecipientContext = \<lambda>sk e info. Inr info, recipient_open = \<lambda>info ct. Inr (take (length ct - 16) ct)\<rparr>"

lemma model_hpke_laws: "hpke_laws model_hpke pk sk"
  by (auto simp: hpke_laws_def model_hpke_def)

section \<open>Properties\<close>

text \<open>C4: The 64-byte encoding of an opening is exact: the decoder accepts precisely the byte strings the
  encoder produces, and returns the opening they encode; every other input is a \<open>PLAINTEXT\<close> failure.\<close>

theorem opening_encoding_exact:
  "(encodeOpening op = Inr bs \<longleftrightarrow> decodeOpening bs = Inr op) \<and>
   (\<forall>e. decodeOpening bs = Inl e \<longrightarrow> e = CryptoFailure C_PLAINTEXT ''receipt'')"
  using decodeOpening_encodeOpening decodeOpening_sound(2) decodeOpening_Inl by blast

theorem opening_encoding_exact_witness:
  "decodeOpening (word_loop 32 7 (word_loop 32 9 [])) = Inr \<lparr>amount = 7, blinding = 9\<rparr> \<and>
   decodeOpening [] = Inl (CryptoFailure C_PLAINTEXT ''receipt'')"
proof -
  have "encodeOpening \<lparr>amount = 7, blinding = 9\<rparr> = Inr (word_loop 32 7 (word_loop 32 9 []))"
    using word_loop_acc [of 32 7 "word_loop 32 9 []"]
    by (simp add: encodeOpening_eq_Inr valid_opening_def M_max_eq Q_mod_def del: word_loop.simps)
  then have "decodeOpening (word_loop 32 7 (word_loop 32 9 [])) = Inr \<lparr>amount = 7, blinding = 9\<rparr>"
    using opening_encoding_exact by blast
  moreover have "decodeOpening [] = Inl (CryptoFailure C_PLAINTEXT ''receipt'')"
    by (simp add: decodeOpening_def)
  ultimately show ?thesis by (rule conjI)
qed

text \<open>C5: A packet that \<open>encryptReceipt\<close> returns is opened by \<open>decryptReceipt\<close> with the matching private key,
  the same \<open>info\<close> and the commitment of the opening: the recipient obtains the sender's opening, and any
  opening \<open>decryptReceipt\<close> returns for any packet and key opens the commitment it was given.\<close>

theorem receipt_packet_opens:
  assumes "curve_laws C" and "generators_valid C"
    and "hpke_laws suite (eri_recipientPublicKey inp) sk" and "length sk = 32"
    and "encryptReceipt suite inp w = (Inr packet, w')"
    and "commit C (eri_opening inp) = Inr c"
  shows "decryptReceipt C suite \<lparr>dri_recipientPrivateKey = sk, dri_info = eri_info inp,
           dri_packet = packet, dri_commitment = c\<rparr> = Inr (eri_opening inp)
    \<and> (\<forall>anything op. decryptReceipt C suite anything = Inr op \<longrightarrow>
          valid_opening op \<and> commit C op = Inr (dri_commitment anything))"
  using receipt_round_trip [OF assms] decryptReceipt_sound [OF assms(1,2)] by blast

theorem receipt_packet_opens_witness:
  "\<exists>packet c. decryptReceipt model_curve model_hpke \<lparr>dri_recipientPrivateKey = replicate 32 2,
      dri_info = replicate 32 3, dri_packet = packet, dri_commitment = c\<rparr> = Inr \<lparr>amount = 7, blinding = 9\<rparr>"
proof -
  note laws = model_curve_laws model_generators
  let ?op = "\<lparr>amount = 7, blinding = 9\<rparr>"
  let ?inp = "\<lparr>eri_recipientPublicKey = replicate 32 1, eri_info = replicate 32 3, eri_opening = ?op\<rparr>"
  have v: "valid_opening ?op" by (simp add: valid_opening_def M_max_eq Q_mod_def)
  then have pt: "encodeOpening ?op = Inr (word_loop 32 7 [] @ word_loop 32 9 [])"
    by (simp add: encodeOpening_eq_Inr del: word_loop.simps)
  let ?packet = "replicate 32 7 @ (word_loop 32 7 [] @ word_loop 32 9 []) @ replicate 16 0"
  have e: "encryptReceipt model_hpke ?inp () = (Inr ?packet, ())"
    using pt by (auto simp: encryptReceipt_eq_Inr model_hpke_def)
  have c: "commit model_curve (eri_opening ?inp) = Inr (lin2 model_curve 7 9)"
    using commit_valid [OF laws v] by simp
  have sk: "length (replicate 32 (2 :: 8 word)) = 32" by simp
  show ?thesis using receipt_packet_opens [OF laws model_hpke_laws sk e c] by auto
qed

end
