(* ===== verification/RangeTranscript.thy ===== *)
theory RangeTranscript
  imports CryptoReceipt
begin

text \<open>
  \<open>packages/crypto/src/range/transcript.ts\<close>: the Fiat-Shamir transcript of the range proof, and its
  contract twin \<open>contracts/src/verifier/RangeTranscriptV3.sol\<close>.  A transcript is its prefix of bytes;
  a challenge is the first of at most 256 hashes that is a nonzero scalar.
\<close>

datatype ChallengeStage = stage_y | stage_z | stage_x | stage_u | stage_round

record RangeTranscript =
  rt_prefix :: octets
  rt_lastCounter :: "nat option"

definition acceptChallengeCandidate :: "int \<Rightarrow> bool" where
  "acceptChallengeCandidate candidate \<longleftrightarrow> candidate > 0 \<and> candidate < Q_mod"

text \<open>The loop of \<open>firstAcceptedCandidate\<close>, \<open>n\<close> counters from \<open>counter\<close> on.\<close>

fun candidate_loop :: "(nat \<Rightarrow> int) \<Rightarrow> string \<Rightarrow> nat \<Rightarrow> nat \<Rightarrow> (int \<times> nat) res" where
  "candidate_loop candidate stage 0 counter = Inl (CryptoFailure C_CHALLENGE_EXHAUSTED stage)"
| "candidate_loop candidate stage (Suc n) counter =
     (let value = candidate counter
      in if acceptChallengeCandidate value then Inr (value, counter)
         else candidate_loop candidate stage n (Suc counter))"

definition firstAcceptedCandidate :: "(nat \<Rightarrow> int) \<Rightarrow> string \<Rightarrow> (int \<times> nat) res" where
  "firstAcceptedCandidate candidate stage = candidate_loop candidate stage 256 0"

fun stage_name :: "ChallengeStage \<Rightarrow> string" where
  "stage_name stage_y = ''y''"
| "stage_name stage_z = ''z''"
| "stage_name stage_x = ''x''"
| "stage_name stage_u = ''u''"
| "stage_name stage_round = ''round''"

fun stageTags :: "(octets \<Rightarrow> octets) \<Rightarrow> ChallengeStage \<Rightarrow> octets" where
  "stageTags keccak stage_y = tag keccak ''ecu/bp/y/v3''"
| "stageTags keccak stage_z = tag keccak ''ecu/bp/z/v3''"
| "stageTags keccak stage_x = tag keccak ''ecu/bp/x/v3''"
| "stageTags keccak stage_u = tag keccak ''ecu/bp/u/v3''"
| "stageTags keccak stage_round = tag keccak ''ecu/bp/round/v3''"

definition candidateTag :: "(octets \<Rightarrow> octets) \<Rightarrow> octets" where
  "candidateTag keccak = tag keccak ''ecu/bp/challenge/v3''"

definition acceptedTag :: "(octets \<Rightarrow> octets) \<Rightarrow> octets" where
  "acceptedTag keccak = tag keccak ''ecu/bp/accepted/v3''"

definition new_transcript ::
  "curve \<Rightarrow> (octets \<Rightarrow> octets) \<Rightarrow> octets \<Rightarrow> int \<Rightarrow> G1Point \<Rightarrow> RangeTranscript res" where
  "new_transcript C keccak operationId outputIndex cRange =
     (if length operationId \<noteq> 32 then Inl (CryptoFailure C_INPUT ''operationId'')
      else rbind (word256 64) (\<lambda>bits. rbind (word256 1) (\<lambda>aggregated.
           rbind (word256 outputIndex) (\<lambda>index. rbind (pointBytes C cRange) (\<lambda>c.
           Inr \<lparr>rt_prefix = concat_parts [tag keccak ''ecu/bp/range/BN254/v3'', bits, aggregated,
                  PARAMETERS_HASH_V3, operationId, tag keccak ''ecu/bp/range-output/v3'', index, c],
                rt_lastCounter = None\<rparr>)))))"

definition stateHex :: "(octets \<Rightarrow> octets) \<Rightarrow> RangeTranscript \<Rightarrow> string" where
  "stateHex keccak T = ''0x'' @ bytesHex (keccak (rt_prefix T))"

text \<open>The counters are at most 255, and a payload is far below \<open>2 ^ 256\<close> bytes: \<open>word\<close> does not throw on them.\<close>

definition nat_word :: "nat \<Rightarrow> octets" where
  "nat_word n = word_loop 32 (int n) []"

definition challenge ::
  "(octets \<Rightarrow> octets) \<Rightarrow> RangeTranscript \<Rightarrow> ChallengeStage \<Rightarrow> octets \<Rightarrow> (int \<times> RangeTranscript) res" where
  "challenge keccak T stage payload =
     (let segment = concat_parts [stageTags keccak stage, nat_word (length payload), payload]
      in rbind (firstAcceptedCandidate
                 (\<lambda>index. bytesToBigInt (keccak (concat_parts [rt_prefix T, segment, candidateTag keccak, nat_word index])))
                 (stage_name stage))
           (\<lambda>(value, counter).
         rbind (word256 value) (\<lambda>v.
         Inr (value, \<lparr>rt_prefix = concat_parts [rt_prefix T, segment, acceptedTag keccak, v],
                rt_lastCounter = Some counter\<rparr>))))"

definition bindInner ::
  "curve \<Rightarrow> (octets \<Rightarrow> octets) \<Rightarrow> RangeTranscript \<Rightarrow> G1Point \<Rightarrow> G1Point \<Rightarrow> RangeTranscript res" where
  "bindInner C keccak T p uPoint =
     rbind (word256 64) (\<lambda>n. rbind (pointBytes C p) (\<lambda>pb. rbind (pointBytes C uPoint) (\<lambda>ub.
       let payload = concat_parts [n, pb, ub]
       in Inr (T\<lparr>rt_prefix := concat_parts [rt_prefix T, tag keccak ''ecu/bp/inner/v3'',
                  nat_word (length payload), payload]\<rparr>))))"

section \<open>Lemmas\<close>

lemma candidate_loop_eq_Inr:
  "candidate_loop f s n k = Inr (v, c) \<longleftrightarrow>
   k \<le> c \<and> c < k + n \<and> v = f c \<and> acceptChallengeCandidate v \<and> (\<forall>i. k \<le> i \<and> i < c \<longrightarrow> \<not> acceptChallengeCandidate (f i))"
proof (induction n arbitrary: k)
  case 0
  then show ?case by auto
next
  case (Suc n)
  show ?case
  proof (cases "acceptChallengeCandidate (f k)")
    case True
    then show ?thesis by (auto simp: Let_def) (metis le_neq_implies_less le_refl)+
  next
    case False
    then show ?thesis using Suc.IH [of "Suc k"]
      by (auto simp: Let_def Suc_le_eq) (metis le_neq_implies_less)+
  qed
qed

lemma candidate_loop_eq_Inl:
  "candidate_loop f s n k = Inl e \<longleftrightarrow>
   e = CryptoFailure C_CHALLENGE_EXHAUSTED s \<and> (\<forall>i. k \<le> i \<and> i < k + n \<longrightarrow> \<not> acceptChallengeCandidate (f i))"
proof (induction n arbitrary: k)
  case (Suc n)
  then show ?case
    by (auto simp: Let_def Suc_le_eq) (metis le_neq_implies_less add_Suc_right less_add_Suc1)+
qed auto

lemma challenge_range: "challenge keccak T s p = Inr (c, T') \<Longrightarrow> 0 < c \<and> c < Q_mod"
  by (auto simp: challenge_def rbind_eq_Inr Let_def firstAcceptedCandidate_def candidate_loop_eq_Inr
      acceptChallengeCandidate_def)

lemma challenge_Inl: "challenge keccak T s p = Inl e \<Longrightarrow> e = CryptoFailure C_CHALLENGE_EXHAUSTED (stage_name s)"
proof -
  assume a: "challenge keccak T s p = Inl e"
  let ?f = "\<lambda>index. bytesToBigInt (keccak (concat_parts [rt_prefix T,
      concat_parts [stageTags keccak s, nat_word (length p), p], candidateTag keccak, nat_word index]))"
  show ?thesis
  proof (cases "candidate_loop ?f (stage_name s) 256 0")
    case (Inl e')
    with a have "e = e'" by (simp add: challenge_def firstAcceptedCandidate_def Let_def)
    with Inl show ?thesis by (simp add: candidate_loop_eq_Inl)
  next
    case (Inr vc)
    then obtain v c where vc: "candidate_loop ?f (stage_name s) 256 0 = Inr (v, c)" by (cases vc) auto
    then have "0 \<le> v" "v < 2 ^ 256"
      using Q_less_word by (auto simp: candidate_loop_eq_Inr acceptChallengeCandidate_def)
    then obtain bs where "word256 v = Inr bs" using word256_total by blast
    with vc a show ?thesis by (simp add: challenge_def firstAcceptedCandidate_def Let_def)
  qed
qed

end
