(* ===== verification/RangeProof.thy ===== *)
theory RangeProof
  imports RangeTranscript
begin

text \<open>
  \<open>packages/crypto/src/range/{types,body,fold,prove}.ts\<close>: the range proof of one opening over 64 bits.
  \<open>buildRangeBody\<close> commits to the bits and the masks, \<open>finishRangeBody\<close> folds the two vectors six times.
\<close>

record RangeBody =
  C_range :: G1Point
  rb_A :: G1Point
  rb_S :: G1Point
  rb_T1 :: G1Point
  rb_T2 :: G1Point
  tauX :: int
  rb_mu :: int
  rb_t :: int
  rb_le :: "int list"
  rb_re :: "int list"
  rb_g :: "G1Point list"
  hAdjusted :: "G1Point list"
  uPoint :: G1Point
  innerPoint :: G1Point
  rb_transcript :: RangeTranscript

record RangeProof =
  coords :: "int list"
  scalars :: "int list"
  rp_ls :: "int list"
  rp_rs :: "int list"

section \<open>The body\<close>

definition two_commit :: "curve \<Rightarrow> int \<Rightarrow> int \<Rightarrow> G1Point res" where
  "two_commit C a b = rbind (mul C H_base a) (\<lambda>p. rbind (mul C G_base b) (\<lambda>q. sum_points C [p, q]))"

definition vector_commit :: "curve \<Rightarrow> int list \<Rightarrow> int list \<Rightarrow> int \<Rightarrow> G1Point res" where
  "vector_commit C left right blind =
     rbind (multi C GS left) (\<lambda>p. rbind (multi C HS right) (\<lambda>q. rbind (mul C G_base blind) (\<lambda>r.
       sum_points C [p, q, r])))"

definition point_pair_bytes :: "curve \<Rightarrow> G1Point \<Rightarrow> G1Point \<Rightarrow> octets res" where
  "point_pair_bytes C p q =
     rbind (pointBytes C p) (\<lambda>a. rbind (pointBytes C q) (\<lambda>b. Inr (concat_parts [a, b])))"

text \<open>The bits of the shifted amount, least significant first.\<close>

definition amount_bits :: "int \<Rightarrow> int list" where
  "amount_bits shiftedAmount = map (\<lambda>i. drop_bit i shiftedAmount AND 1) [0..<64]"

definition nextScalar :: "('w, int) eff \<Rightarrow> ('w, int) eff" where
  "nextScalar source = sampleScalar source True"

definition buildRangeBody ::
  "curve \<Rightarrow> (octets \<Rightarrow> octets) \<Rightarrow> Opening \<Rightarrow> octets \<Rightarrow> int \<Rightarrow> ('w, int) eff \<Rightarrow> ('w, RangeBody) eff" where
  "buildRangeBody C keccak opening operationId outputIndex source =
     (if amount opening < 1 \<or> amount opening > M_max \<or> blinding opening < 0 \<or> blinding opening \<ge> Q_mod
      then ethrow (CryptoFailure C_INPUT ''opening'')
      else if length operationId \<noteq> 32 \<or> outputIndex < 0 \<or> outputIndex \<ge> push_bit 256 1
      then ethrow (CryptoFailure C_INPUT ''rangeContext'')
      else
      ebind (elift (rbind (commit C opening) (\<lambda>c. rbind (neg C H_base) (\<lambda>n. add C c n)))) (\<lambda>cRange.
      let shiftedAmount = amount opening - 1;
          bits = amount_bits shiftedAmount;
          shifted = map (\<lambda>bit. modq (bit - 1)) bits
      in
      ebind (emapM (\<lambda>_. nextScalar source) [0..<64]) (\<lambda>leftMask.
      ebind (emapM (\<lambda>_. nextScalar source) [0..<64]) (\<lambda>rightMask.
      ebind (nextScalar source) (\<lambda>alpha.
      ebind (nextScalar source) (\<lambda>rho.
      ebind (elift (vector_commit C bits shifted alpha)) (\<lambda>A.
      ebind (elift (vector_commit C leftMask rightMask rho)) (\<lambda>S.
      ebind (elift (new_transcript C keccak operationId outputIndex cRange)) (\<lambda>tr0.
      ebind (elift (rbind (point_pair_bytes C A S) (challenge keccak tr0 stage_y))) (\<lambda>(y, tr1).
      ebind (elift (challenge keccak tr1 stage_z [])) (\<lambda>(z, tr2).
      let z2 = modq (z * z) in
      ebind (elift (mapM (\<lambda>i. powq y (int i)) [0..<64])) (\<lambda>yPow.
      let leftConstant = map (\<lambda>bit. modq (bit - z)) bits;
          rightConstant = mapi (\<lambda>i bit. modq (yPow ! i * (bit - 1 + z) + z2 * push_bit i 1)) bits;
          rightLinear = mapi (\<lambda>i s. modq (yPow ! i * s)) rightMask
      in
      ebind (elift (rbind (dot leftMask rightConstant) (\<lambda>a.
                    rbind (dot leftConstant rightLinear) (\<lambda>b. Inr (modq (a + b)))))) (\<lambda>t1.
      ebind (elift (dot leftMask rightLinear)) (\<lambda>t2.
      ebind (nextScalar source) (\<lambda>tau1.
      ebind (nextScalar source) (\<lambda>tau2.
      ebind (elift (two_commit C t1 tau1)) (\<lambda>T1.
      ebind (elift (two_commit C t2 tau2)) (\<lambda>T2.
      ebind (elift (rbind (point_pair_bytes C T1 T2) (challenge keccak tr2 stage_x))) (\<lambda>(x, tr3).
      let le = mapi (\<lambda>i s. modq (s + leftMask ! i * x)) leftConstant;
          re = mapi (\<lambda>i s. modq (s + rightLinear ! i * x)) rightConstant
      in
      ebind (elift (mapM (\<lambda>(point, yi). rbind (inverseq yi) (mul C point)) (zip HS yPow))) (\<lambda>hAdj.
      ebind (elift (dot le re)) (\<lambda>t.
      let tau = modq (z2 * blinding opening + tau1 * x + tau2 * x * x);
          mu = modq (alpha + rho * x)
      in
      ebind (elift (rbind (mapM word256 [tau, mu, t]) (\<lambda>ws. challenge keccak tr3 stage_u (concat_parts ws)))) (\<lambda>(uChallenge, tr4).
      ebind (elift (mul C H_base uChallenge)) (\<lambda>u.
      ebind (elift (rbind (multi C GS le) (\<lambda>p. rbind (multi C hAdj re) (\<lambda>q. rbind (mul C u t) (\<lambda>r.
               sum_points C [p, q, r]))))) (\<lambda>inner.
      ebind (elift (bindInner C keccak tr4 inner u)) (\<lambda>tr5.
      ereturn \<lparr>C_range = cRange, rb_A = A, rb_S = S, rb_T1 = T1, rb_T2 = T2, tauX = tau, rb_mu = mu,
        rb_t = t, rb_le = le, rb_re = re, rb_g = GS, hAdjusted = hAdj, uPoint = u, innerPoint = inner,
        rb_transcript = tr5\<rparr>)))))))))))))))))))))))))"

section \<open>The fold\<close>

definition columns :: "G1Point list \<Rightarrow> int list" where
  "columns points = map px points @ map py points"

text \<open>The variables of the loop of \<open>finishRangeBody\<close>; \<open>fs_rounds\<close> keeps the challenges, for the proofs.\<close>

record FoldState =
  fs_le :: "int list"
  fs_re :: "int list"
  fs_g :: "G1Point list"
  fs_h :: "G1Point list"
  fs_left :: "G1Point list"
  fs_right :: "G1Point list"
  fs_transcript :: RangeTranscript
  fs_rounds :: "int list"

definition cross_term ::
  "curve \<Rightarrow> G1Point list \<Rightarrow> int list \<Rightarrow> G1Point list \<Rightarrow> int list \<Rightarrow> G1Point \<Rightarrow> G1Point res" where
  "cross_term C gs l hs r u =
     rbind (multi C gs l) (\<lambda>p. rbind (multi C hs r) (\<lambda>q. rbind (dot l r) (\<lambda>d. rbind (mul C u d) (\<lambda>s.
       sum_points C [p, q, s]))))"

definition fold_points :: "curve \<Rightarrow> G1Point list \<Rightarrow> G1Point list \<Rightarrow> int \<Rightarrow> int \<Rightarrow> G1Point list res" where
  "fold_points C lo hi a b =
     mapM (\<lambda>(p, q). rbind (mul C p a) (\<lambda>p'. rbind (mul C q b) (\<lambda>q'. sum_points C [p', q']))) (zip lo hi)"

definition fold_scalars :: "int list \<Rightarrow> int list \<Rightarrow> int \<Rightarrow> int \<Rightarrow> int list" where
  "fold_scalars lo hi a b = map2 (\<lambda>v w. modq (v * a + w * b)) lo hi"

definition fold_round ::
  "curve \<Rightarrow> (octets \<Rightarrow> octets) \<Rightarrow> G1Point \<Rightarrow> FoldState \<Rightarrow> nat \<Rightarrow> FoldState res" where
  "fold_round C keccak u st rnd =
     (let half = length (fs_le st) div 2;
          ll = take half (fs_le st); lh = drop half (fs_le st);
          rl = take half (fs_re st); rh = drop half (fs_re st);
          glo = take half (fs_g st); ghi = drop half (fs_g st);
          hlo = take half (fs_h st); hhi = drop half (fs_h st)
      in rbind (cross_term C ghi ll hlo rh u) (\<lambda>left.
         rbind (cross_term C glo lh hhi rl u) (\<lambda>right.
         rbind (rbind (word256 (int rnd)) (\<lambda>n. rbind (point_pair_bytes C left right) (\<lambda>pb.
                  challenge keccak (fs_transcript st) stage_round (concat_parts [n, pb])))) (\<lambda>(c, tr).
         rbind (inverseq c) (\<lambda>inverse.
         rbind (fold_points C glo ghi inverse c) (\<lambda>g'.
         rbind (fold_points C hlo hhi c inverse) (\<lambda>h'.
         Inr \<lparr>fs_le = fold_scalars ll lh c inverse, fs_re = fold_scalars rl rh inverse c,
              fs_g = g', fs_h = h', fs_left = fs_left st @ [left], fs_right = fs_right st @ [right],
              fs_transcript = tr, fs_rounds = fs_rounds st @ [c]\<rparr>)))))))"

definition finishRangeBody :: "curve \<Rightarrow> (octets \<Rightarrow> octets) \<Rightarrow> RangeBody \<Rightarrow> RangeProof res" where
  "finishRangeBody C keccak body =
     rbind (foldM (fold_round C keccak (uPoint body))
        \<lparr>fs_le = rb_le body, fs_re = rb_re body, fs_g = rb_g body, fs_h = hAdjusted body,
         fs_left = [], fs_right = [], fs_transcript = rb_transcript body, fs_rounds = []\<rparr> [0..<6]) (\<lambda>st.
     let cs = concat (map pointPair [C_range body, rb_A body, rb_S body, rb_T1 body, rb_T2 body]);
         ss = [tauX body, rb_mu body, rb_t body, fs_le st ! 0, fs_re st ! 0];
         ls = columns (fs_left st); rs = columns (fs_right st)
     in if length cs \<noteq> 10 \<or> length ss \<noteq> 5 \<or> length ls \<noteq> 12 \<or> length rs \<noteq> 12
        then Inl (OtherError ''range proof shape mismatch'')
        else Inr \<lparr>coords = cs, scalars = ss, rp_ls = ls, rp_rs = rs\<rparr>)"

definition generateRangeProof ::
  "curve \<Rightarrow> (octets \<Rightarrow> octets) \<Rightarrow> (nat \<Rightarrow> ('w, octets) eff) \<Rightarrow> Opening \<Rightarrow> octets \<Rightarrow> int
   \<Rightarrow> ('w, RangeProof) eff" where
  "generateRangeProof C keccak getRandomValues opening operationId outputIndex =
     ecatch (ebind (buildRangeBody C keccak opening operationId outputIndex (secure_source getRandomValues))
               (\<lambda>body. elift (finishRangeBody C keccak body)))
       (\<lambda>error. case error of
          CryptoFailure _ _ \<Rightarrow> ethrow error
        | _ \<Rightarrow> ethrow (CryptoFailure C_INTERNAL ''rangeProof''))"

end
