(* ===== verification/RangeFold.thy ===== *)
theory RangeFold
  imports RangeProof
begin

text \<open>
  Multi-scalar sums as linear forms, and the correctness of the folding rounds of
  \<open>packages/crypto/src/range/fold.ts\<close>: each round keeps the inner-product relation that the contract's
  \<open>verifyInner\<close> updates with \<open>challenge^2 * L + inverse^2 * R\<close>.
\<close>

fun msm :: "curve \<Rightarrow> G1Point list \<Rightarrow> int list \<Rightarrow> G1Point" where
  "msm C (p # ps) (k # ks) = curve_add C (smul C p k) (msm C ps ks)"
| "msm C _ _ = zero_point"

definition valid_points :: "curve \<Rightarrow> G1Point list \<Rightarrow> bool" where
  "valid_points C ps \<longleftrightarrow> list_all (valid_point C) ps"

fun inner_product :: "int list \<Rightarrow> int list \<Rightarrow> int" where
  "inner_product (a # as) (b # bs) = a * b + inner_product as bs"
| "inner_product _ _ = 0"

lemma valid_points_simps [simp]:
  "valid_points C []" "valid_points C (p # ps) \<longleftrightarrow> valid_point C p \<and> valid_points C ps"
  "valid_points C (ps @ qs) \<longleftrightarrow> valid_points C ps \<and> valid_points C qs"
  by (auto simp: valid_points_def)

lemma valid_points_take [simp]: "valid_points C ps \<Longrightarrow> valid_points C (take n ps)"
  and valid_points_drop [simp]: "valid_points C ps \<Longrightarrow> valid_points C (drop n ps)"
  by (metis append_take_drop_id valid_points_simps(3))+

lemma valid_GS_HS: "generators_valid C \<Longrightarrow> valid_points C GS \<and> valid_points C HS"
proof -
  assume g: "generators_valid C"
  have "P_mod > Q_mod" by (simp add: P_mod_def Q_mod_def)
  with g model_generator_lists show ?thesis
    by (fastforce simp: generators_valid_def valid_points_def fixedPoints_def list_all_iff valid_point_def)
qed

lemma msm_valid: "curve_laws C \<Longrightarrow> valid_points C ps \<Longrightarrow> valid_point C (msm C ps ks)"
  by (induction ps ks rule: msm.induct [of _ C]) (auto intro: laws_add_valid smul_valid)

lemma curve_add4:
  assumes "curve_laws C" "valid_point C a" "valid_point C b" "valid_point C c" "valid_point C d"
  shows "curve_add C (curve_add C a b) (curve_add C c d) = curve_add C (curve_add C a c) (curve_add C b d)"
  using assms by (simp add: laws_ac laws_add_valid)

lemma msm_append:
  "curve_laws C \<Longrightarrow> valid_points C ps \<Longrightarrow> valid_points C qs \<Longrightarrow> length ps = length ks \<Longrightarrow>
   msm C (ps @ qs) (ks @ ls) = curve_add C (msm C ps ks) (msm C qs ls)"
  by (induction ps ks rule: list_induct2')
     (auto simp: laws_zero laws_add_assoc msm_valid smul_valid)

lemma msm_add:
  "curve_laws C \<Longrightarrow> valid_points C ps \<Longrightarrow> length ks = length ps \<Longrightarrow> length ls = length ps \<Longrightarrow>
   msm C ps (map2 (+) ks ls) = curve_add C (msm C ps ks) (msm C ps ls)"
proof (induction ps arbitrary: ks ls)
  case Nil
  then show ?case by (simp add: laws_zero)
next
  case (Cons p ps)
  then obtain k ks' l ls' where "ks = k # ks'" "ls = l # ls'"
    by (cases ks; cases ls) auto
  with Cons show ?case by (auto simp: smul_add curve_add4 msm_valid smul_valid)
qed

lemma msm_scale:
  "curve_laws C \<Longrightarrow> valid_points C ps \<Longrightarrow> msm C ps (map ((*) c) ks) = smul C (msm C ps ks) c"
  by (induction ps ks rule: msm.induct [of _ C])
     (auto simp: smul_distrib smul_mult msm_valid smul_valid smul_zero_point mult.commute)

lemma msm_mod: "msm C ps (map (\<lambda>k. k mod Q_mod) ks) = msm C ps ks"
  by (induction ps ks rule: msm.induct [of _ C]) auto

lemma msm_cong: "list_all2 (\<lambda>k l. k mod Q_mod = l mod Q_mod) ks ls \<Longrightarrow> msm C ps ks = msm C ps ls"
proof (induction ks ls arbitrary: ps rule: list_all2_induct)
  case (Cons k ks l ls)
  then show ?case by (cases ps) (auto intro: arg_cong2 [where f = "curve_add C"] smul_cong)
qed simp

text \<open>Points that are themselves combinations of two lists.\<close>

lemma msm_points_add:
  "curve_laws C \<Longrightarrow> valid_points C ps \<Longrightarrow> valid_points C qs \<Longrightarrow> length ps = length qs \<Longrightarrow>
   msm C (map2 (\<lambda>p q. curve_add C (smul C p a) (smul C q b)) ps qs) ks =
   curve_add C (msm C ps (map ((*) a) ks)) (msm C qs (map ((*) b) ks))"
proof (induction ps arbitrary: qs ks)
  case Nil
  then show ?case by (simp add: laws_zero)
next
  case (Cons p ps)
  then obtain q qs' where qs: "qs = q # qs'" by (cases qs) auto
  show ?case
  proof (cases ks)
    case Nil
    then show ?thesis using Cons.prems by (simp add: laws_zero)
  next
    case (Cons k ks')
    with Cons.prems Cons.IH [of qs' ks'] qs show ?thesis
      by (auto simp: smul_distrib smul_mult smul_valid curve_add4 msm_valid laws_add_valid)
  qed
qed

section \<open>The code's sums are linear forms\<close>

lemma smul_modq [simp]: "smul C p (modq k) = smul C p k"
  by (simp add: modq_eq)

lemma sum_points3:
  "curve_laws C \<Longrightarrow> valid_point C p \<Longrightarrow> valid_point C q \<Longrightarrow> valid_point C r \<Longrightarrow>
   sum_points C [p, q, r] = Inr (curve_add C (curve_add C p q) r)"
  by (simp add: sum_points_def add_valid laws_zero laws_add_valid)

lemma sum_points2:
  "curve_laws C \<Longrightarrow> valid_point C p \<Longrightarrow> valid_point C q \<Longrightarrow> sum_points C [p, q] = Inr (curve_add C p q)"
  by (simp add: sum_points_def add_valid laws_zero laws_add_valid)

lemma sum_points_smul:
  "curve_laws C \<Longrightarrow> valid_points C ps \<Longrightarrow> valid_point C a \<Longrightarrow> length ks = length ps \<Longrightarrow>
   foldM (add C) a (map2 (smul C) ps ks) = Inr (curve_add C a (msm C ps ks))"
proof (induction ps arbitrary: ks a)
  case Nil
  then show ?case by (simp add: laws_zero_right)
next
  case (Cons p ps)
  then obtain k ks' where "ks = k # ks'" by (cases ks) auto
  with Cons show ?case
    by (simp add: add_valid smul_valid laws_add_valid laws_add_assoc msm_valid)
qed

lemma multi_eq:
  assumes C: "curve_laws C" and v: "valid_points C ps" and l: "length ks = length ps"
  shows "multi C ps ks = Inr (msm C ps ks)"
proof -
  have "mapM (\<lambda>(p, s). mul C p (modq s)) (zip ps ks) = Inr (map2 (smul C) ps ks)"
    using v l
  proof (induction ps arbitrary: ks)
    case (Cons p ps)
    then obtain k ks' where "ks = k # ks'" by (cases ks) auto
    with Cons show ?case by (simp add: mul_valid modq_range)
  qed simp
  then show ?thesis
    using sum_points_smul [OF C v valid_zero l] l
    by (simp add: multi_def sum_points_def laws_zero [OF C] msm_valid [OF C v])
qed

lemma multi_Inl: "length ks \<noteq> length ps \<Longrightarrow> multi C ps ks = Inl (RangeError ''vector dimension mismatch'')"
  by (simp add: multi_def)

lemma foldl_products:
  "foldl (\<lambda>total (v, r). total + v * r) a (zip xs ys) = a + inner_product xs ys" for a :: int
  by (induction xs ys arbitrary: a rule: inner_product.induct) auto

lemma dot_eq: "length xs = length ys \<Longrightarrow> dot xs ys = Inr (modq (inner_product xs ys))"
  by (simp add: dot_def foldl_products)

lemma fold_points_eq:
  assumes C: "curve_laws C" and "valid_points C ps" "valid_points C qs" "length ps = length qs"
    and "0 \<le> a" "a < Q_mod" "0 \<le> b" "b < Q_mod"
  shows "fold_points C ps qs a b = Inr (map2 (\<lambda>p q. curve_add C (smul C p a) (smul C q b)) ps qs)"
  unfolding fold_points_def using assms(2-4)
proof (induction ps arbitrary: qs)
  case (Cons p ps)
  then obtain q qs' where "qs = q # qs'" by (cases qs) auto
  with Cons assms(5-) show ?case by (simp add: mul_valid sum_points2 [OF C] smul_valid [OF C])
qed simp

lemma valid_points_map2:
  "curve_laws C \<Longrightarrow> valid_points C ps \<Longrightarrow> valid_points C qs \<Longrightarrow>
   valid_points C (map2 (\<lambda>p q. curve_add C (smul C p a) (smul C q b)) ps qs)"
  by (induction ps qs rule: list_induct2') (auto intro: laws_add_valid smul_valid)

lemma cross_term_eq:
  assumes C: "curve_laws C" and "valid_points C gs" "valid_points C hs" "valid_point C u"
    and "length l = length gs" "length r = length hs" "length l = length r"
  shows "cross_term C gs l hs r u =
    Inr (curve_add C (curve_add C (msm C gs l) (msm C hs r)) (smul C u (inner_product l r)))"
  using assms
  by (simp add: cross_term_def multi_eq dot_eq mul_valid modq_range sum_points3 msm_valid smul_valid)

section \<open>One round\<close>

text \<open>Fermat's theorem at the challenges of the transcript.  \<open>Q\<close> is the prime order of bn254, so it holds of
  every nonzero scalar; it is what makes \<open>inverseq\<close> an inverse.\<close>

definition unit_scalar :: "int \<Rightarrow> bool" where
  "unit_scalar c \<longleftrightarrow> c * c ^ nat (Q_mod - 2) mod Q_mod = 1"

definition challenge_units :: "(octets \<Rightarrow> octets) \<Rightarrow> bool" where
  "challenge_units keccak \<longleftrightarrow>
     (\<forall>bs. acceptChallengeCandidate (bytesToBigInt (keccak bs)) \<longrightarrow> unit_scalar (bytesToBigInt (keccak bs)))"

lemma challenge_unit:
  "challenge_units keccak \<Longrightarrow> challenge keccak T s p = Inr (c, T') \<Longrightarrow> unit_scalar c"
  by (auto simp: challenge_def rbind_eq_Inr Let_def firstAcceptedCandidate_def candidate_loop_eq_Inr challenge_units_def)

lemma inverseq_unit:
  assumes "unit_scalar c"
  obtains i where "inverseq c = Inr i" and "c * i mod Q_mod = 1" and "0 \<le> i" and "i < Q_mod"
proof -
  let ?i = "c ^ nat (Q_mod - 2) mod Q_mod"
  have one: "c * ?i mod Q_mod = 1" using assms by (simp add: unit_scalar_def mod_mult_right_eq)
  then have "c mod Q_mod \<noteq> 0" by (auto simp: mod_mult_left_eq [symmetric, of c])
  then have "inverseq c = Inr ?i" by (simp add: inverseq_eq_Inr)
  with one show ?thesis using Q_pos by (intro that) auto
qed

lemma fold_scalars_scaled:
  assumes "a * b mod Q_mod = 1"
  shows "length kl = length kh \<Longrightarrow> list_all2 (\<lambda>k l. k mod Q_mod = l mod Q_mod)
      (map ((*) a) (fold_scalars kl kh b a)) (map2 (+) kl (map ((*) (a * a)) kh))"
  unfolding fold_scalars_def
proof (induction kl kh rule: list_induct2)
  case (Cons v kl w kh)
  have "a * modq (v * b + w * a) mod Q_mod = (v * (a * b) + a * a * w) mod Q_mod"
    by (simp add: modq_eq mod_mult_right_eq algebra_simps)
  also have "\<dots> = (v + a * a * w) mod Q_mod"
    using mod_mult_right_eq [of v "a * b" Q_mod] assms by (metis mod_add_left_eq mult.right_neutral)
  finally show ?case using Cons by simp
qed simp

lemma fold_scalars_swap: "fold_scalars kl kh b a = fold_scalars kh kl a b" if "length kl = length kh"
  using that unfolding fold_scalars_def
  by (induction kl kh rule: list_induct2) (auto simp: add.commute)

lemma length_fold_scalars [simp]: "length (fold_scalars kl kh a b) = min (length kl) (length kh)"
  by (simp add: fold_scalars_def)

lemma fold_msm:
  assumes C: "curve_laws C" and v: "valid_points C lo" "valid_points C hi"
    and l: "length hi = length lo" "length kl = length lo" "length kh = length lo" and ab: "a * b mod Q_mod = 1"
  shows "msm C (map2 (\<lambda>p q. curve_add C (smul C p a) (smul C q b)) lo hi) (fold_scalars kl kh b a)
    = curve_add C (curve_add C (msm C lo kl) (smul C (msm C lo kh) (a * a)))
                  (curve_add C (msm C hi kh) (smul C (msm C hi kl) (b * b)))"
proof -
  have ba: "b * a mod Q_mod = 1" using ab by (simp add: mult.commute)
  have lk: "length kl = length kh" using l by simp
  have "msm C lo (map ((*) a) (fold_scalars kl kh b a)) = msm C lo (map2 (+) kl (map ((*) (a * a)) kh))"
    by (rule msm_cong, rule fold_scalars_scaled [OF ab lk])
  also have "\<dots> = curve_add C (msm C lo kl) (smul C (msm C lo kh) (a * a))"
    using l by (simp add: msm_add [OF C v(1)] msm_scale [OF C v(1)])
  finally have lo: "msm C lo (map ((*) a) (fold_scalars kl kh b a)) = \<dots>" .
  have "msm C hi (map ((*) b) (fold_scalars kl kh b a)) = msm C hi (map2 (+) kh (map ((*) (b * b)) kl))"
    unfolding fold_scalars_swap [OF lk]
    by (rule msm_cong, rule fold_scalars_scaled [OF ba lk [symmetric]])
  also have "\<dots> = curve_add C (msm C hi kh) (smul C (msm C hi kl) (b * b))"
    using l by (simp add: msm_add [OF C v(2)] msm_scale [OF C v(2)])
  finally show ?thesis
    using l by (simp add: msm_points_add [OF C v] lo)
qed

lemma fold_product:
  assumes ab: "a * b mod Q_mod = 1"
  shows "modq (k * a + h * b) * modq (r * b + s * a) mod Q_mod =
    (k * r + h * s + a * a * (k * s) + b * b * (h * r)) mod Q_mod"
proof -
  have one: "(k * r + h * s) * (a * b) mod Q_mod = (k * r + h * s) mod Q_mod"
    using mod_mult_right_eq [of "k * r + h * s" "a * b" Q_mod] ab by (metis mult.right_neutral)
  have "modq (k * a + h * b) * modq (r * b + s * a) mod Q_mod = (k * a + h * b) * (r * b + s * a) mod Q_mod"
    by (simp only: modq_eq mod_mult_eq)
  also have "(k * a + h * b) * (r * b + s * a) = (k * r + h * s) * (a * b) + (a * a * (k * s) + b * b * (h * r))"
    by (simp only: ring_distribs ac_simps)
  also have "((k * r + h * s) * (a * b) + (a * a * (k * s) + b * b * (h * r))) mod Q_mod
      = (k * r + h * s + (a * a * (k * s) + b * b * (h * r))) mod Q_mod"
    by (rule mod_add_cong [OF one refl])
  finally show ?thesis by (simp only: ac_simps)
qed

lemma fold_inner_product:
  assumes ab: "a * b mod Q_mod = 1"
  shows "length kl = n \<Longrightarrow> length kh = n \<Longrightarrow> length rl = n \<Longrightarrow> length rh = n \<Longrightarrow>
    inner_product (fold_scalars kl kh a b) (fold_scalars rl rh b a) mod Q_mod =
    (inner_product kl rl + inner_product kh rh + a * a * inner_product kl rh + b * b * inner_product kh rl) mod Q_mod"
proof (induction n arbitrary: kl kh rl rh)
  case 0
  then show ?case by (simp add: fold_scalars_def)
next
  case (Suc n)
  then obtain k kl' h kh' r rl' s rh' where e: "kl = k # kl'" "kh = h # kh'" "rl = r # rl'" "rh = s # rh'"
    and l: "length kl' = n" "length kh' = n" "length rl' = n" "length rh' = n"
    by (cases kl; cases kh; cases rl; cases rh) auto
  note ih = Suc.IH [OF l]
  have "inner_product (fold_scalars kl kh a b) (fold_scalars rl rh b a)
      = modq (k * a + h * b) * modq (r * b + s * a) + inner_product (fold_scalars kl' kh' a b) (fold_scalars rl' rh' b a)"
    by (simp add: e fold_scalars_def)
  then have "inner_product (fold_scalars kl kh a b) (fold_scalars rl rh b a) mod Q_mod
      = ((k * r + h * s + a * a * (k * s) + b * b * (h * r)) + (inner_product kl' rl' + inner_product kh' rh'
          + a * a * inner_product kl' rh' + b * b * inner_product kh' rl')) mod Q_mod"
    using mod_add_cong [OF fold_product [OF ab] ih] by (rule ssubst)
  also have "(k * r + h * s + a * a * (k * s) + b * b * (h * r)) + (inner_product kl' rl' + inner_product kh' rh'
          + a * a * inner_product kl' rh' + b * b * inner_product kh' rl')
      = inner_product kl rl + inner_product kh rh + a * a * inner_product kl rh + b * b * inner_product kh rl"
    unfolding e inner_product.simps by (simp add: distrib_left)
  finally show ?case .
qed

definition fold_wf :: "curve \<Rightarrow> nat \<Rightarrow> FoldState \<Rightarrow> bool" where
  "fold_wf C n st \<longleftrightarrow> length (fs_le st) = n \<and> length (fs_re st) = n \<and> length (fs_g st) = n \<and>
     length (fs_h st) = n \<and> valid_points C (fs_g st) \<and> valid_points C (fs_h st)"

text \<open>The inner-product commitment a state stands for.\<close>

definition fold_point :: "curve \<Rightarrow> G1Point \<Rightarrow> FoldState \<Rightarrow> G1Point" where
  "fold_point C u st = curve_add C (curve_add C (msm C (fs_g st) (fs_le st)) (msm C (fs_h st) (fs_re st)))
     (smul C u (inner_product (fs_le st) (fs_re st)))"

lemma inner_product_append:
  "length as = length bs \<Longrightarrow> inner_product (as @ cs) (bs @ ds) = inner_product as bs + inner_product cs ds"
  by (induction as bs rule: list_induct2) auto

lemma gather_round:
  assumes C: "curve_laws C"
    and "valid_point C g1" "valid_point C g2" "valid_point C g3" "valid_point C g4"
    and "valid_point C h1" "valid_point C h2" "valid_point C h3" "valid_point C h4"
    and "valid_point C u1" "valid_point C u2" "valid_point C u3" "valid_point C u4"
  shows "curve_add C (curve_add C (curve_add C (curve_add C g1 g2) (curve_add C g3 g4))
            (curve_add C (curve_add C h1 h2) (curve_add C h3 h4)))
          (curve_add C (curve_add C u1 u2) (curve_add C u3 u4))
    = curve_add C (curve_add C (curve_add C (curve_add C g4 h2) u3) (curve_add C (curve_add C g2 h4) u4))
        (curve_add C (curve_add C (curve_add C g1 g3) (curve_add C h1 h3)) (curve_add C u1 u2))"
  using assms(2-) by (simp add: laws_ac [OF C] laws_add_valid [OF C])

lemma fold_round_point:
  assumes C: "curve_laws C" and units: "challenge_units keccak" and u: "valid_point C u"
    and wf: "fold_wf C (2 * n) st" and run: "fold_round C keccak u st rnd = Inr st'"
  obtains L R c i where "fs_left st' = fs_left st @ [L]" "fs_right st' = fs_right st @ [R]"
    "fs_rounds st' = fs_rounds st @ [c]" "valid_point C L" "valid_point C R" "0 < c" "c < Q_mod"
    "inverseq c = Inr i" "c * i mod Q_mod = 1" "fold_wf C n st'"
    "fold_point C u st' = curve_add C (curve_add C (smul C L (c * c)) (smul C R (i * i))) (fold_point C u st)"
proof -
  let ?ll = "take n (fs_le st)" and ?lh = "drop n (fs_le st)"
  let ?rl = "take n (fs_re st)" and ?rh = "drop n (fs_re st)"
  let ?glo = "take n (fs_g st)" and ?ghi = "drop n (fs_g st)"
  let ?hlo = "take n (fs_h st)" and ?hhi = "drop n (fs_h st)"
  let ?L = "curve_add C (curve_add C (msm C ?ghi ?ll) (msm C ?hlo ?rh)) (smul C u (inner_product ?ll ?rh))"
  let ?R = "curve_add C (curve_add C (msm C ?glo ?lh) (msm C ?hhi ?rl)) (smul C u (inner_product ?lh ?rl))"
  from wf have l: "length (fs_le st) = 2 * n" "length (fs_re st) = 2 * n" "length (fs_g st) = 2 * n"
    "length (fs_h st) = 2 * n" and v: "valid_points C (fs_g st)" "valid_points C (fs_h st)"
    by (auto simp: fold_wf_def)
  note vs = v valid_points_take valid_points_drop
  note vv = msm_valid [OF C] smul_valid [OF C] laws_add_valid [OF C]
  have left: "cross_term C ?ghi ?ll ?hlo ?rh u = Inr ?L" and right: "cross_term C ?glo ?lh ?hhi ?rl u = Inr ?R"
    using l by (simp_all add: cross_term_eq [OF C] u vs)
  from run l left right obtain c tr i g' h' T w where
    ch: "challenge keccak (fs_transcript st) stage_round w = Inr (c, tr)" and i: "inverseq c = Inr i"
    and g': "fold_points C ?glo ?ghi i c = Inr g'" and h': "fold_points C ?hlo ?hhi c i = Inr h'"
    and st': "st' = \<lparr>fs_le = fold_scalars ?ll ?lh c i, fs_re = fold_scalars ?rl ?rh i c, fs_g = g', fs_h = h',
      fs_left = fs_left st @ [?L], fs_right = fs_right st @ [?R], fs_transcript = tr, fs_rounds = fs_rounds st @ [c]\<rparr>"
    by (auto simp: fold_round_def Let_def rbind_eq_Inr)
  note c = challenge_range [OF ch]
  obtain i' where "inverseq c = Inr i'" and ci: "c * i' mod Q_mod = 1" "0 \<le> i'" "i' < Q_mod"
    by (rule inverseq_unit [OF challenge_unit [OF units ch]])
  with i have [simp]: "i' = i" by simp
  have ic: "i * c mod Q_mod = 1" using ci by (simp add: mult.commute)
  have g'e: "g' = map2 (\<lambda>p q. curve_add C (smul C p i) (smul C q c)) ?glo ?ghi"
    using g' fold_points_eq [OF C, of ?glo ?ghi i c] l c ci vs by simp
  have h'e: "h' = map2 (\<lambda>p q. curve_add C (smul C p c) (smul C q i)) ?hlo ?hhi"
    using h' fold_points_eq [OF C, of ?hlo ?hhi c i] l c ci vs by simp
  have wf': "fold_wf C n st'"
    using l vs by (simp add: fold_wf_def st' g'e h'e valid_points_map2 [OF C])
  have mg: "msm C g' (fold_scalars ?ll ?lh c i) =
      curve_add C (curve_add C (msm C ?glo ?ll) (smul C (msm C ?glo ?lh) (i * i)))
                  (curve_add C (msm C ?ghi ?lh) (smul C (msm C ?ghi ?ll) (c * c)))"
    unfolding g'e by (rule fold_msm [OF C _ _ _ _ _ ic]) (use l vs in auto)
  have mh: "msm C h' (fold_scalars ?rl ?rh i c) =
      curve_add C (curve_add C (msm C ?hlo ?rl) (smul C (msm C ?hlo ?rh) (c * c)))
                  (curve_add C (msm C ?hhi ?rh) (smul C (msm C ?hhi ?rl) (i * i)))"
    unfolding h'e by (rule fold_msm [OF C]) (use l vs ci in auto)
  have "inner_product (fold_scalars ?ll ?lh c i) (fold_scalars ?rl ?rh i c) mod Q_mod =
    (inner_product ?ll ?rl + inner_product ?lh ?rh + c * c * inner_product ?ll ?rh + i * i * inner_product ?lh ?rl) mod Q_mod"
    by (rule fold_inner_product) (use l ci in auto)
  from smul_cong [OF this, of C u]
  have mu: "smul C u (inner_product (fold_scalars ?ll ?lh c i) (fold_scalars ?rl ?rh i c)) =
      curve_add C (curve_add C (smul C u (inner_product ?ll ?rl)) (smul C u (inner_product ?lh ?rh)))
        (curve_add C (smul C (smul C u (inner_product ?ll ?rh)) (c * c)) (smul C (smul C u (inner_product ?lh ?rl)) (i * i)))"
    by (simp add: smul_add [OF C u] smul_mult [OF C u] laws_add_assoc [OF C] vv u mult.commute)
  have split: "msm C (fs_g st) (fs_le st) = curve_add C (msm C ?glo ?ll) (msm C ?ghi ?lh)"
    "msm C (fs_h st) (fs_re st) = curve_add C (msm C ?hlo ?rl) (msm C ?hhi ?rh)"
    "inner_product (fs_le st) (fs_re st) = inner_product ?ll ?rl + inner_product ?lh ?rh"
    using msm_append [OF C, of ?glo ?ghi ?ll ?lh] msm_append [OF C, of ?hlo ?hhi ?rl ?rh]
      inner_product_append [of ?ll ?rl ?lh ?rh] l vs by simp_all
  have "fold_point C u st' = curve_add C (curve_add C (smul C ?L (c * c)) (smul C ?R (i * i))) (fold_point C u st)"
    unfolding fold_point_def st' FoldState.simps mg mh mu
    by (subst gather_round [OF C]) (simp_all add: split smul_distrib [OF C] smul_add [OF C u] vv vs u)
  then show ?thesis
    using c ci(1) i wf' u vs by (intro that [of ?L ?R c i]) (simp_all add: st' vv)
qed

section \<open>All rounds\<close>

definition inverse_of :: "int \<Rightarrow> int" where
  "inverse_of c = c ^ nat (Q_mod - 2) mod Q_mod"

text \<open>The coefficient of each generator in the folded generator: the verifier's \<open>calculateInnerWeights\<close>,
  by rounds.\<close>

fun fold_weights :: "int list \<Rightarrow> int list" where
  "fold_weights [] = [1]"
| "fold_weights (c # cs) = map ((*) (inverse_of c)) (fold_weights cs) @ map ((*) c) (fold_weights cs)"

text \<open>The commitment that \<open>verifyInner\<close> updates in every round.\<close>

definition verifier_step :: "curve \<Rightarrow> G1Point \<Rightarrow> G1Point \<times> G1Point \<times> int \<Rightarrow> G1Point" where
  "verifier_step C P = (\<lambda>(L, R, c).
     curve_add C (curve_add C (smul C L (c * c)) (smul C R (inverse_of c * inverse_of c))) P)"

lemma length_fold_weights [simp]: "length (fold_weights cs) = 2 ^ length cs"
  by (induction cs) auto

lemma fold_round_generators:
  assumes C: "curve_laws C" and units: "challenge_units keccak" and u: "valid_point C u"
    and wf: "fold_wf C (2 * n) st" and run: "fold_round C keccak u st rnd = Inr st'"
    and c: "fs_rounds st' = fs_rounds st @ [c]" and w: "length ws = n"
  shows "msm C (fs_g st') ws = msm C (fs_g st) (map ((*) (inverse_of c)) ws @ map ((*) c) ws)"
    and "msm C (fs_h st') ws = msm C (fs_h st) (map ((*) c) ws @ map ((*) (inverse_of c)) ws)"
proof -
  from wf have l: "length (fs_le st) = 2 * n" "length (fs_g st) = 2 * n"
    "length (fs_h st) = 2 * n" and v: "valid_points C (fs_g st)" "valid_points C (fs_h st)"
    by (auto simp: fold_wf_def)
  from run c obtain tr i T p where ch: "challenge keccak (fs_transcript st) stage_round p = Inr (c, tr)"
    and i: "inverseq c = Inr i"
    and g': "fold_points C (take n (fs_g st)) (drop n (fs_g st)) i c = Inr (fs_g st')"
    and h': "fold_points C (take n (fs_h st)) (drop n (fs_h st)) c i = Inr (fs_h st')"
    using l by (auto simp: fold_round_def Let_def rbind_eq_Inr)
  have [simp]: "inverse_of c = i" using i by (simp add: inverseq_eq_Inr inverse_of_def)
  obtain i' where "inverseq c = Inr i'" and "0 \<le> i'" "i' < Q_mod"
    by (rule inverseq_unit [OF challenge_unit [OF units ch]])
  with i have ir: "0 \<le> i" "i < Q_mod" by simp_all
  note vs = v valid_points_take valid_points_drop
  have gt: "msm C (fs_g st) (as @ bs) = curve_add C (msm C (take n (fs_g st)) as) (msm C (drop n (fs_g st)) bs)"
    "msm C (fs_h st) (as @ bs) = curve_add C (msm C (take n (fs_h st)) as) (msm C (drop n (fs_h st)) bs)"
    if "length as = n" for as bs
    using msm_append [OF C, of "take n (fs_g st)" "drop n (fs_g st)" as bs]
      msm_append [OF C, of "take n (fs_h st)" "drop n (fs_h st)" as bs] l vs that by simp_all
  show "msm C (fs_g st') ws = msm C (fs_g st) (map ((*) (inverse_of c)) ws @ map ((*) c) ws)"
  proof -
    have "fs_g st' = map2 (\<lambda>p q. curve_add C (smul C p i) (smul C q c)) (take n (fs_g st)) (drop n (fs_g st))"
      using g' fold_points_eq [OF C, of "take n (fs_g st)" "drop n (fs_g st)" i c]
        challenge_range [OF ch] ir l vs by simp
    then show ?thesis using l vs w by (simp only: msm_points_add [OF C]) (simp add: gt msm_points_add [OF C])
  qed
  show "msm C (fs_h st') ws = msm C (fs_h st) (map ((*) c) ws @ map ((*) (inverse_of c)) ws)"
  proof -
    have "fs_h st' = map2 (\<lambda>p q. curve_add C (smul C p c) (smul C q i)) (take n (fs_h st)) (drop n (fs_h st))"
      using h' fold_points_eq [OF C, of "take n (fs_h st)" "drop n (fs_h st)" c i]
        challenge_range [OF ch] ir l vs by simp
    then show ?thesis using l vs w by (simp only: msm_points_add [OF C]) (simp add: gt msm_points_add [OF C])
  qed
qed

lemma fold_rounds:
  assumes C: "curve_laws C" and units: "challenge_units keccak" and u: "valid_point C u"
  shows "fold_wf C (2 ^ length rnds) st \<Longrightarrow> foldM (fold_round C keccak u) st rnds = Inr st' \<Longrightarrow>
    \<exists>Ls Rs cs. length Ls = length rnds \<and> length Rs = length rnds \<and> length cs = length rnds \<and>
      fs_left st' = fs_left st @ Ls \<and> fs_right st' = fs_right st @ Rs \<and> fs_rounds st' = fs_rounds st @ cs \<and>
      valid_points C Ls \<and> valid_points C Rs \<and> list_all (\<lambda>c. 0 < c \<and> c < Q_mod \<and> unit_scalar c) cs \<and>
      fold_wf C 1 st' \<and>
      fs_g st' = [msm C (fs_g st) (fold_weights cs)] \<and> fs_h st' = [msm C (fs_h st) (rev (fold_weights cs))] \<and>
      fold_point C u st' = foldl (verifier_step C) (fold_point C u st) (zip Ls (zip Rs cs))"
proof (induction rnds arbitrary: st)
  case Nil
  have one: "[msm C ps [1]] = ps" if "length ps = 1" "valid_points C ps" for ps
    using that C by (cases ps) (auto simp: smul_1 laws_zero_right)
  from Nil show ?case by (auto simp: fold_wf_def one)
next
  case (Cons rnd rnds)
  from Cons.prems(2) obtain st1 where r1: "fold_round C keccak u st rnd = Inr st1"
    and rest: "foldM (fold_round C keccak u) st1 rnds = Inr st'" by (auto simp: rbind_eq_Inr)
  have wf: "fold_wf C (2 * 2 ^ length rnds) st" using Cons.prems(1) by simp
  from fold_round_point [OF C units u wf r1] obtain L R c i where
    st1: "fs_left st1 = fs_left st @ [L]" "fs_right st1 = fs_right st @ [R]" "fs_rounds st1 = fs_rounds st @ [c]"
    and v: "valid_point C L" "valid_point C R" "0 < c" "c < Q_mod" and i: "inverseq c = Inr i" "c * i mod Q_mod = 1"
    and wf1: "fold_wf C (2 ^ length rnds) st1"
    and P: "fold_point C u st1 = curve_add C (curve_add C (smul C L (c * c)) (smul C R (i * i))) (fold_point C u st)"
    by metis
  from i have ii: "i = inverse_of c" by (simp add: inverseq_eq_Inr inverse_of_def)
  have unit: "unit_scalar c"
    using i(2) unfolding ii inverse_of_def unit_scalar_def by (simp add: mod_mult_right_eq)
  from Cons.IH [OF wf1 rest] obtain Ls Rs cs where
    l: "length Ls = length rnds" "length Rs = length rnds" "length cs = length rnds"
    and st': "fs_left st' = fs_left st1 @ Ls" "fs_right st' = fs_right st1 @ Rs" "fs_rounds st' = fs_rounds st1 @ cs"
    and v': "valid_points C Ls" "valid_points C Rs" "list_all (\<lambda>c. 0 < c \<and> c < Q_mod \<and> unit_scalar c) cs"
    and wf': "fold_wf C 1 st'"
    and gh: "fs_g st' = [msm C (fs_g st1) (fold_weights cs)]" "fs_h st' = [msm C (fs_h st1) (rev (fold_weights cs))]"
    and P': "fold_point C u st' = foldl (verifier_step C) (fold_point C u st1) (zip Ls (zip Rs cs))"
    by blast
  have g: "fs_g st' = [msm C (fs_g st) (fold_weights (c # cs))]"
    using fold_round_generators(1) [OF C units u wf r1 st1(3), of "fold_weights cs"] gh(1) l(3) by simp
  have h: "fs_h st' = [msm C (fs_h st) (rev (fold_weights (c # cs)))]"
    using fold_round_generators(2) [OF C units u wf r1 st1(3), of "rev (fold_weights cs)"] gh(2) l(3)
    by (simp add: rev_map)
  have "fold_point C u st' = foldl (verifier_step C) (fold_point C u st) (zip (L # Ls) (zip (R # Rs) (c # cs)))"
    using P' by (simp add: P verifier_step_def ii)
  then show ?case
    using l st1 st' v v' unit g h wf'
    by (intro exI [of _ "L # Ls"] exI [of _ "R # Rs"] exI [of _ "c # cs"]) auto
qed

lemma fold_round_Inl:
  assumes C: "curve_laws C" and units: "challenge_units keccak" and u: "valid_point C u"
    and wf: "fold_wf C (2 * n) st" and rnd: "int rnd < 2 ^ 256" and run: "fold_round C keccak u st rnd = Inl e"
  shows "\<exists>T p. challenge keccak T stage_round p = Inl e"
proof -
  from wf have l: "length (fs_le st) = 2 * n" "length (fs_re st) = 2 * n" "length (fs_g st) = 2 * n"
    "length (fs_h st) = 2 * n" and v: "valid_points C (fs_g st)" "valid_points C (fs_h st)"
    by (auto simp: fold_wf_def)
  note vs = v valid_points_take valid_points_drop
  note vv = msm_valid [OF C] smul_valid [OF C] laws_add_valid [OF C]
  obtain L R where left: "cross_term C (drop n (fs_g st)) (take n (fs_le st)) (take n (fs_h st)) (drop n (fs_re st)) u = Inr L"
    and right: "cross_term C (take n (fs_g st)) (drop n (fs_le st)) (drop n (fs_h st)) (take n (fs_re st)) u = Inr R"
    and LR: "valid_point C L" "valid_point C R"
    using l by (simp add: cross_term_eq [OF C] u vs vv)
  obtain a b w where w: "pointBytes C L = Inr a" "pointBytes C R = Inr b" "word256 (int rnd) = Inr w"
    using LR pointBytes_total word256_total [of "int rnd"] rnd by fastforce
  let ?p = "concat_parts [w, concat_parts [a, b]]"
  show ?thesis
  proof (cases "challenge keccak (fs_transcript st) stage_round ?p")
    case (Inl e')
    then show ?thesis using run l left right w
      by (auto simp: fold_round_def Let_def point_pair_bytes_def)
  next
    case (Inr x)
    then obtain c tr where ch: "challenge keccak (fs_transcript st) stage_round ?p = Inr (c, tr)" by (cases x) auto
    note c = challenge_range [OF ch]
    obtain i where i: "inverseq c = Inr i" "0 \<le> i" "i < Q_mod"
      by (rule inverseq_unit [OF challenge_unit [OF units ch]])
    have False
      using run l left right w ch i c fold_points_eq [OF C] vs
      by (simp add: fold_round_def Let_def point_pair_bytes_def)
    then show ?thesis ..
  qed
qed

lemma fold_rounds_total:
  assumes C: "curve_laws C" and units: "challenge_units keccak" and u: "valid_point C u"
  shows "fold_wf C (2 ^ length rnds) st \<Longrightarrow> list_all (\<lambda>r. int r < 2 ^ 256) rnds \<Longrightarrow>
    foldM (fold_round C keccak u) st rnds = Inl e \<Longrightarrow> \<exists>T p. challenge keccak T stage_round p = Inl e"
proof (induction rnds arbitrary: st)
  case (Cons r rnds)
  have wf: "fold_wf C (2 * 2 ^ length rnds) st" using Cons.prems(1) by simp
  show ?case
  proof (cases "fold_round C keccak u st r")
    case (Inl e')
    with Cons.prems show ?thesis using fold_round_Inl [OF C units u wf _ Inl] by simp
  next
    case (Inr st1)
    from fold_round_point [OF C units u wf Inr] have "fold_wf C (2 ^ length rnds) st1" by metis
    with Inr Cons show ?thesis by simp
  qed
qed simp

definition body_wf :: "curve \<Rightarrow> RangeBody \<Rightarrow> bool" where
  "body_wf C body \<longleftrightarrow> valid_point C (uPoint body) \<and> length (rb_le body) = 64 \<and> length (rb_re body) = 64 \<and>
     length (rb_g body) = 64 \<and> length (hAdjusted body) = 64 \<and> valid_points C (rb_g body) \<and> valid_points C (hAdjusted body)"

lemma finishRangeBody_Inl:
  assumes C: "curve_laws C" and units: "challenge_units keccak" and wf: "body_wf C body"
    and run: "finishRangeBody C keccak body = Inl e"
  shows "\<exists>T p. challenge keccak T stage_round p = Inl e"
proof -
  let ?st = "\<lparr>fs_le = rb_le body, fs_re = rb_re body, fs_g = rb_g body, fs_h = hAdjusted body,
         fs_left = [], fs_right = [], fs_transcript = rb_transcript body, fs_rounds = []\<rparr>"
  have u: "valid_point C (uPoint body)" and swf: "fold_wf C (2 ^ length [0..<6::nat]) ?st"
    using wf by (simp_all add: body_wf_def fold_wf_def)
  show ?thesis
  proof (cases "foldM (fold_round C keccak (uPoint body)) ?st [0..<6]")
    case (Inl e')
    moreover have "list_all (\<lambda>r. int r < 2 ^ 256) [0..<6]" by (simp add: list_all_iff)
    ultimately show ?thesis
      using run fold_rounds_total [OF C units u swf] by (simp add: finishRangeBody_def)
  next
    case (Inr st)
    from fold_rounds [OF C units u swf Inr] have "length (fs_left st) = 6" "length (fs_right st) = 6" by auto
    with run Inr show ?thesis
      by (simp add: finishRangeBody_def Let_def columns_def pointPair_def)
  qed
qed

lemma constant_units: "challenge_units (\<lambda>_. word_loop 32 1 [])"
proof -
  have "bytesToBigInt (word_loop 32 1 []) = 1" by (rule bytesToBigInt_word_loop) auto
  moreover have "1 < Q_mod" by (simp add: Q_mod_def)
  ultimately show ?thesis by (simp add: challenge_units_def unit_scalar_def)
qed

lemma constant_transcript_challenge: "\<exists>T'. challenge (\<lambda>_. word_loop 32 1 []) T s p = Inr (1, T')"
proof -
  have one: "bytesToBigInt (word_loop 32 1 []) = 1" by (rule bytesToBigInt_word_loop) auto
  have "acceptChallengeCandidate 1" by (simp add: acceptChallengeCandidate_def Q_mod_def)
  moreover obtain bs where "word256 1 = Inr bs" using word256_total [of 1] by auto
  moreover have "candidate_loop f s' 256 0 = (if acceptChallengeCandidate (f 0) then Inr (f 0, 0)
      else candidate_loop f s' 255 (Suc 0))" for f s'
    using candidate_loop.simps(2) [of f s' 255 0] by (simp add: Let_def)
  ultimately show ?thesis
    unfolding challenge_def firstAcceptedCandidate_def Let_def by (simp add: one)
qed

end
