(* ===== verification/RangeVerifier.thy ===== *)
theory RangeVerifier
  imports RangeFold
begin

text \<open>
  The contract's verifier of the range proof: \<open>contracts/src/verifier/RangeProofV3.sol\<close>,
  \<open>RangeTranscriptV3.sol\<close> and the point and scalar operations of \<open>Bn254.sol\<close> they use.  A revert is a
  failure.  The precompiles 6 and 7 are the addition and multiplication of the curve, and the negation
  of a point is the curve's; precompile 5 is modular exponentiation.  The constructor stores the
  parameters whose hash it checks, the fixed ones.  A \<open>uint256\<close> is a nonnegative integer below \<open>2 ^ 256\<close>.
\<close>

section \<open>Bn254\<close>

definition sol_revert :: "string \<Rightarrow> 'a res" where
  "sol_revert e = Inl (OtherError e)"

definition sol_isScalar :: "int \<Rightarrow> bool" where
  "sol_isScalar s \<longleftrightarrow> 0 \<le> s \<and> s < Q_mod"

definition sol_add :: "curve \<Rightarrow> G1Point \<Rightarrow> G1Point \<Rightarrow> G1Point res" where
  "sol_add C p q =
     (if \<not> valid_point C p \<or> \<not> valid_point C q then sol_revert ''InvalidPoint''
      else let r = curve_add C p q in if valid_point C r then Inr r else sol_revert ''PrecompileFailure'')"

definition sol_mul :: "curve \<Rightarrow> G1Point \<Rightarrow> int \<Rightarrow> G1Point res" where
  "sol_mul C p s =
     (if \<not> valid_point C p then sol_revert ''InvalidPoint''
      else if \<not> sol_isScalar s then sol_revert ''InvalidScalar''
      else let r = (if s = 0 then zero_point else curve_mul C p s)
           in if valid_point C r then Inr r else sol_revert ''PrecompileFailure'')"

definition sol_neg :: "curve \<Rightarrow> G1Point \<Rightarrow> G1Point res" where
  "sol_neg C p = (if \<not> valid_point C p then sol_revert ''InvalidPoint'' else Inr (curve_neg C p))"

definition sol_addScalar :: "int \<Rightarrow> int \<Rightarrow> int res" where
  "sol_addScalar a b =
     (if \<not> sol_isScalar a \<or> \<not> sol_isScalar b then sol_revert ''InvalidScalar'' else Inr ((a + b) mod Q_mod))"

definition sol_subScalar :: "int \<Rightarrow> int \<Rightarrow> int res" where
  "sol_subScalar a b =
     (if \<not> sol_isScalar a \<or> \<not> sol_isScalar b then sol_revert ''InvalidScalar''
      else Inr (if a \<ge> b then a - b else Q_mod - (b - a)))"

definition sol_negScalar :: "int \<Rightarrow> int res" where
  "sol_negScalar a =
     (if \<not> sol_isScalar a then sol_revert ''InvalidScalar'' else Inr (if a = 0 then 0 else Q_mod - a))"

definition sol_mulScalar :: "int \<Rightarrow> int \<Rightarrow> int res" where
  "sol_mulScalar a b =
     (if \<not> sol_isScalar a \<or> \<not> sol_isScalar b then sol_revert ''InvalidScalar'' else Inr ((a * b) mod Q_mod))"

definition sol_invScalar :: "int \<Rightarrow> int res" where
  "sol_invScalar a =
     (if a = 0 \<or> \<not> sol_isScalar a then sol_revert ''InvalidScalar'' else Inr (a ^ nat (Q_mod - 2) mod Q_mod))"

section \<open>The transcript\<close>

text \<open>\<open>abi.encode\<close> of words, and \<open>encodeWords\<close>.\<close>

definition sol_words :: "int list \<Rightarrow> octets" where
  "sol_words ws = concat (map (\<lambda>v. word_loop 32 v []) ws)"

definition sol_initialPrefix :: "(octets \<Rightarrow> octets) \<Rightarrow> octets \<Rightarrow> int \<Rightarrow> G1Point \<Rightarrow> octets" where
  "sol_initialPrefix keccak operationId outputIndex p =
     tag keccak ''ecu/bp/range/BN254/v3'' @ sol_words [64, 1] @ PARAMETERS_HASH_V3 @ operationId
     @ tag keccak ''ecu/bp/range-output/v3'' @ sol_words [outputIndex, px p, py p]"

definition sol_enterInner :: "(octets \<Rightarrow> octets) \<Rightarrow> octets \<Rightarrow> G1Point \<Rightarrow> G1Point \<Rightarrow> octets" where
  "sol_enterInner keccak pre p base =
     (let payload = sol_words [64, px p, py p, px base, py base]
      in pre @ (tag keccak ''ecu/bp/inner/v3'' @ sol_words [int (length payload)]) @ payload)"

definition sol_challengeStep :: "(octets \<Rightarrow> octets) \<Rightarrow> octets \<Rightarrow> octets \<Rightarrow> octets \<Rightarrow> (octets \<times> int) res" where
  "sol_challengeStep keccak pre stageTag payload =
     (let segment = stageTag @ sol_words [int (length payload)] @ payload
      in rbind (sol_challenge_loop keccak
           (\<lambda>counter. Inr (pre @ segment @ tag keccak ''ecu/bp/challenge/v3'' @ sol_words [int counter])) 256 0)
         (\<lambda>c. Inr (pre @ segment @ tag keccak ''ecu/bp/accepted/v3'' @ sol_words [c], c)))"

definition sol_challengeForPoints ::
  "(octets \<Rightarrow> octets) \<Rightarrow> octets \<Rightarrow> octets \<Rightarrow> G1Point \<Rightarrow> G1Point \<Rightarrow> (octets \<times> int) res" where
  "sol_challengeForPoints keccak state stageTag p q =
     sol_challengeStep keccak state stageTag (sol_words [px p, py p, px q, py q])"

definition sol_challengeForScalars ::
  "(octets \<Rightarrow> octets) \<Rightarrow> octets \<Rightarrow> int \<Rightarrow> int \<Rightarrow> int \<Rightarrow> (octets \<times> int) res" where
  "sol_challengeForScalars keccak state tau mu t =
     sol_challengeStep keccak state (tag keccak ''ecu/bp/u/v3'') (sol_words [tau, mu, t])"

definition sol_challengeForRound ::
  "(octets \<Rightarrow> octets) \<Rightarrow> octets \<Rightarrow> nat \<Rightarrow> G1Point \<Rightarrow> G1Point \<Rightarrow> (octets \<times> int) res" where
  "sol_challengeForRound keccak state roundIndex left right =
     sol_challengeStep keccak state (tag keccak ''ecu/bp/round/v3'')
       (sol_words [int roundIndex, px left, py left, px right, py right])"

section \<open>Vectors of 64\<close>

text \<open>The powers from \<open>p\<close> on, \<open>n\<close> more of them.\<close>

fun sol_powers_loop :: "nat \<Rightarrow> int \<Rightarrow> int \<Rightarrow> int list res" where
  "sol_powers_loop 0 p base = Inr []"
| "sol_powers_loop (Suc n) p base =
     rbind (sol_mulScalar p base) (\<lambda>q. rbind (sol_powers_loop n q base) (\<lambda>qs. Inr (q # qs)))"

definition sol_powers :: "int \<Rightarrow> int list res" where
  "sol_powers base = rbind (sol_powers_loop 63 1 base) (\<lambda>qs. Inr (1 # qs))"

definition sol_sumScalars :: "int list \<Rightarrow> int res" where
  "sol_sumScalars xs = foldM sol_addScalar 0 xs"

definition sol_sumPoints :: "curve \<Rightarrow> G1Point list \<Rightarrow> G1Point res" where
  "sol_sumPoints C ps = foldM (\<lambda>s i. sol_add C s (ps ! i)) (ps ! 0) [1..<64]"

definition sol_commit :: "curve \<Rightarrow> G1Point list \<Rightarrow> int list \<Rightarrow> G1Point res" where
  "sol_commit C ps ks =
     rbind (sol_mul C (ps ! 0) (ks ! 0)) (\<lambda>first.
       foldM (\<lambda>c i. rbind (sol_mul C (ps ! i) (ks ! i)) (sol_add C c)) first [1..<64])"

definition sol_commitReversed :: "curve \<Rightarrow> G1Point list \<Rightarrow> int list \<Rightarrow> G1Point res" where
  "sol_commitReversed C ps ks =
     rbind (sol_mul C (ps ! 0) (ks ! (64 - 1))) (\<lambda>first.
       foldM (\<lambda>c i. rbind (sol_mul C (ps ! i) (ks ! (64 - 1 - i))) (sol_add C c)) first [1..<64])"

definition sol_inverseScaleGenerators :: "curve \<Rightarrow> int list \<Rightarrow> G1Point list res" where
  "sol_inverseScaleGenerators C scales =
     mapM (\<lambda>i. rbind (sol_invScalar (scales ! i)) (sol_mul C (HS ! i))) [0..<64]"

text \<open>The weight of index \<open>index\<close>: the inverse of the product of the challenges, times the square of
  the challenge of every round whose bit is set.\<close>

definition sol_weight :: "int list \<Rightarrow> int \<Rightarrow> nat \<Rightarrow> int res" where
  "sol_weight challenges inverseProduct index =
     foldM (\<lambda>weight bitIndex.
       if (int index AND push_bit bitIndex 1) \<noteq> 0
       then let c = challenges ! (6 - 1 - bitIndex)
            in rbind (sol_mulScalar c c) (sol_mulScalar weight)
       else Inr weight) inverseProduct [0..<6]"

definition sol_calculateInnerWeights :: "int list \<Rightarrow> int list res" where
  "sol_calculateInnerWeights challenges =
     rbind (foldM (\<lambda>product i. sol_mulScalar product (challenges ! i)) 1 [0..<6]) (\<lambda>product.
     rbind (sol_invScalar product) (\<lambda>inverseProduct.
       mapM (sol_weight challenges inverseProduct) [0..<64]))"

section \<open>The proof\<close>

record SolRangeProof =
  vp_A :: G1Point
  vp_S :: G1Point
  vp_T1 :: G1Point
  vp_T2 :: G1Point
  vp_tauX :: int
  vp_mu :: int
  vp_t :: int
  vp_left :: "G1Point list"
  vp_right :: "G1Point list"
  vp_a :: int
  vp_b :: int

definition sol_point :: "int list \<Rightarrow> nat \<Rightarrow> nat \<Rightarrow> G1Point" where
  "sol_point xs i j = \<lparr>px = xs ! i, py = xs ! j\<rparr>"

text \<open>The ABI decoder gives \<open>coords\<close> and \<open>scalars\<close> their fixed lengths and reverts on other calldata.\<close>

definition sol_decodeProof ::
  "curve \<Rightarrow> int list \<Rightarrow> int list \<Rightarrow> int list \<Rightarrow> int list \<Rightarrow> SolRangeProof res" where
  "sol_decodeProof C cs ss ls rs =
     (if length cs \<noteq> 10 \<or> length ss \<noteq> 5 then sol_revert ''abi''
      else if \<not> (length ls = 2 * 6 \<and> length rs = 2 * 6) then sol_revert ''require''
      else if \<not> valid_point C (sol_point cs 0 1) then sol_revert ''require''
      else if \<not> list_all sol_isScalar ss then sol_revert ''require''
      else if \<not> (valid_point C (sol_point cs 2 3) \<and> valid_point C (sol_point cs 4 5)
               \<and> valid_point C (sol_point cs 6 7) \<and> valid_point C (sol_point cs 8 9)) then sol_revert ''require''
      else if \<not> list_all (\<lambda>i. valid_point C (sol_point ls i (6 + i)) \<and> valid_point C (sol_point rs i (6 + i))) [0..<6]
      then sol_revert ''require''
      else Inr \<lparr>vp_A = sol_point cs 2 3, vp_S = sol_point cs 4 5, vp_T1 = sol_point cs 6 7, vp_T2 = sol_point cs 8 9,
        vp_tauX = ss ! 0, vp_mu = ss ! 1, vp_t = ss ! 2,
        vp_left = map (\<lambda>i. sol_point ls i (6 + i)) [0..<6], vp_right = map (\<lambda>i. sol_point rs i (6 + i)) [0..<6],
        vp_a = ss ! 3, vp_b = ss ! 4\<rparr>)"

definition sol_satisfiesPolynomialCommitment ::
  "curve \<Rightarrow> G1Point \<Rightarrow> SolRangeProof \<Rightarrow> int \<Rightarrow> int \<Rightarrow> int \<Rightarrow> bool res" where
  "sol_satisfiesPolynomialCommitment C K prf x zz delta =
     rbind (sol_mul C H_base (vp_t prf)) (\<lambda>ht.
     rbind (sol_mul C G_base (vp_tauX prf)) (\<lambda>gt.
     rbind (sol_add C ht gt) (\<lambda>expected.
     rbind (sol_mul C (vp_T1 prf) x) (\<lambda>a1.
     rbind (sol_mulScalar x x) (\<lambda>xx.
     rbind (sol_mul C (vp_T2 prf) xx) (\<lambda>t2.
     rbind (sol_add C a1 t2) (\<lambda>a2.
     rbind (sol_mul C K zz) (\<lambda>kz.
     rbind (sol_add C a2 kz) (\<lambda>a3.
     rbind (sol_mul C H_base delta) (\<lambda>hd'.
     rbind (sol_add C a3 hd') (\<lambda>actual.
       Inr (samePoint actual expected))))))))))))"

text \<open>The loop over \<open>exponents\<close> with its running \<open>powerOfTwo\<close>.\<close>

definition sol_exponents :: "int list \<Rightarrow> int \<Rightarrow> int \<Rightarrow> (int list \<times> int) res" where
  "sol_exponents ys z zz =
     foldM (\<lambda>(es, powerOfTwo) i.
       rbind (sol_mulScalar (ys ! i) z) (\<lambda>a.
       rbind (sol_mulScalar powerOfTwo zz) (\<lambda>b.
       rbind (sol_addScalar a b) (\<lambda>e.
       rbind (sol_mulScalar powerOfTwo 2) (\<lambda>doubled. Inr (es @ [e], doubled)))))) ([], 1) [0..<64]"

definition sol_deriveInnerCommitment ::
  "curve \<Rightarrow> SolRangeProof \<Rightarrow> int list \<Rightarrow> int \<Rightarrow> int \<Rightarrow> int \<Rightarrow> G1Point \<Rightarrow> G1Point list \<Rightarrow> G1Point res" where
  "sol_deriveInnerCommitment C prf ys z zz x innerBase hPrimes =
     rbind (sol_exponents ys z zz) (\<lambda>(exponents, _).
     rbind (sol_mul C (vp_S prf) x) (\<lambda>sx.
     rbind (sol_add C (vp_A prf) sx) (\<lambda>c1.
     rbind (sol_sumPoints C GS) (\<lambda>gsum.
     rbind (sol_negScalar z) (\<lambda>nz.
     rbind (sol_mul C gsum nz) (\<lambda>gz.
     rbind (sol_add C c1 gz) (\<lambda>c2.
     rbind (sol_commit C hPrimes exponents) (\<lambda>he.
     rbind (sol_add C c2 he) (\<lambda>c3.
     rbind (sol_mul C G_base (vp_mu prf)) (\<lambda>gm.
     rbind (sol_neg C gm) (\<lambda>ngm.
     rbind (sol_add C c3 ngm) (\<lambda>c4.
     rbind (sol_mul C innerBase (vp_t prf)) (\<lambda>ut.
       sol_add C c4 ut)))))))))))))"

text \<open>One turn of the loop of \<open>verifyInner\<close>: the transcript, the commitment and the challenges so far.\<close>

definition sol_inner_round ::
  "curve \<Rightarrow> (octets \<Rightarrow> octets) \<Rightarrow> G1Point list \<Rightarrow> G1Point list \<Rightarrow> octets \<times> G1Point \<times> int list \<Rightarrow> nat
   \<Rightarrow> (octets \<times> G1Point \<times> int list) res" where
  "sol_inner_round C keccak lefts rights = (\<lambda>(state, commitment, cs) roundIndex.
     rbind (sol_challengeForRound keccak state roundIndex (lefts ! roundIndex) (rights ! roundIndex)) (\<lambda>(state', c).
     rbind (sol_invScalar c) (\<lambda>inverse.
     rbind (sol_mulScalar c c) (\<lambda>cc.
     rbind (sol_mul C (lefts ! roundIndex) cc) (\<lambda>l.
     rbind (sol_mulScalar inverse inverse) (\<lambda>ii.
     rbind (sol_mul C (rights ! roundIndex) ii) (\<lambda>r.
     rbind (sol_add C l r) (\<lambda>lr.
     rbind (sol_add C lr commitment) (\<lambda>commitment'.
       Inr (state', commitment', cs @ [c]))))))))))"

definition sol_verifyInner ::
  "curve \<Rightarrow> (octets \<Rightarrow> octets) \<Rightarrow> octets \<Rightarrow> G1Point \<Rightarrow> G1Point \<Rightarrow> G1Point list \<Rightarrow> SolRangeProof \<Rightarrow> bool res" where
  "sol_verifyInner C keccak state commitment innerBase hPrimes prf =
     rbind (foldM (sol_inner_round C keccak (vp_left prf) (vp_right prf)) (state, commitment, []) [0..<6])
       (\<lambda>(_, commitment', cs).
     rbind (sol_calculateInnerWeights cs) (\<lambda>weights.
     rbind (sol_commit C GS weights) (\<lambda>foldedG.
     rbind (sol_commitReversed C hPrimes weights) (\<lambda>foldedH.
     rbind (sol_mul C foldedG (vp_a prf)) (\<lambda>ga.
     rbind (sol_mul C foldedH (vp_b prf)) (\<lambda>hb.
     rbind (sol_add C ga hb) (\<lambda>gh.
     rbind (sol_mulScalar (vp_a prf) (vp_b prf)) (\<lambda>ab.
     rbind (sol_mul C innerBase ab) (\<lambda>uab.
     rbind (sol_add C gh uab) (\<lambda>expected.
       Inr (samePoint expected commitment')))))))))))"

definition sol_verifyRange ::
  "curve \<Rightarrow> (octets \<Rightarrow> octets) \<Rightarrow> G1Point \<Rightarrow> SolRangeProof \<Rightarrow> octets \<Rightarrow> bool res" where
  "sol_verifyRange C keccak K prf initialState =
     rbind (sol_challengeForPoints keccak initialState (tag keccak ''ecu/bp/y/v3'') (vp_A prf) (vp_S prf)) (\<lambda>(s1, y).
     rbind (sol_powers y) (\<lambda>ys.
     rbind (sol_challengeStep keccak s1 (tag keccak ''ecu/bp/z/v3'') []) (\<lambda>(s2, z).
     rbind (sol_mulScalar z z) (\<lambda>zz.
     rbind (sol_mulScalar zz z) (\<lambda>zzz.
     rbind (sol_challengeForPoints keccak s2 (tag keccak ''ecu/bp/x/v3'') (vp_T1 prf) (vp_T2 prf)) (\<lambda>(s3, x).
     rbind (sol_sumScalars ys) (\<lambda>total.
     rbind (sol_subScalar z zz) (\<lambda>d1.
     rbind (sol_mulScalar total d1) (\<lambda>d2.
     rbind (sol_mulScalar zzz 18446744073709551615) (\<lambda>d3.
     rbind (sol_subScalar d2 d3) (\<lambda>delta.
     rbind (sol_satisfiesPolynomialCommitment C K prf x zz delta) (\<lambda>satisfied.
     if \<not> satisfied then Inr False else
     rbind (sol_challengeForScalars keccak s3 (vp_tauX prf) (vp_mu prf) (vp_t prf)) (\<lambda>(s4, uChallenge).
     rbind (sol_mul C H_base uChallenge) (\<lambda>innerBase.
     rbind (sol_inverseScaleGenerators C ys) (\<lambda>hPrimes.
     rbind (sol_deriveInnerCommitment C prf ys z zz x innerBase hPrimes) (\<lambda>innerCommitment.
       sol_verifyInner C keccak (sol_enterInner keccak s4 innerCommitment innerBase) innerCommitment innerBase
         hPrimes prf))))))))))))))))"

definition sol_verify_range ::
  "curve \<Rightarrow> (octets \<Rightarrow> octets) \<Rightarrow> octets \<Rightarrow> int \<Rightarrow> int list \<Rightarrow> int list \<Rightarrow> int list \<Rightarrow> int list \<Rightarrow> bool res" where
  "sol_verify_range C keccak operationId outputIndex cs ss ls rs =
     rbind (sol_decodeProof C cs ss ls rs) (\<lambda>prf.
       let K = sol_point cs 0 1
       in sol_verifyRange C keccak K prf (sol_initialPrefix keccak operationId outputIndex K))"

end
