(* ===== verification/RangeCompleteness.thy ===== *)
theory RangeCompleteness
  imports RangeVerifier
begin

text \<open>
  Completeness of the range proof: what \<open>generateRangeProof\<close> of \<open>packages/crypto/src/range\<close> returns is
  accepted by the contract's verifier.
\<close>

section \<open>The verifier's operations on valid values\<close>

lemma sol_isScalar_mod [simp]: "sol_isScalar (k mod Q_mod)"
  by (simp add: sol_isScalar_def)

lemma sol_add_eq: "curve_laws C \<Longrightarrow> valid_point C p \<Longrightarrow> valid_point C q \<Longrightarrow> sol_add C p q = Inr (curve_add C p q)"
  by (simp add: sol_add_def laws_add_valid Let_def)

lemma sol_mul_eq: "curve_laws C \<Longrightarrow> valid_point C p \<Longrightarrow> sol_isScalar s \<Longrightarrow> sol_mul C p s = Inr (smul C p s)"
  using smul_valid [of C p s] by (auto simp: sol_mul_def sol_isScalar_def smul_def Let_def)

lemma sol_neg_eq: "valid_point C p \<Longrightarrow> sol_neg C p = Inr (curve_neg C p)"
  by (simp add: sol_neg_def)

lemma sol_scalar_eq:
  assumes "sol_isScalar a" and "sol_isScalar b"
  shows "sol_addScalar a b = Inr ((a + b) mod Q_mod)"
    and "sol_subScalar a b = Inr ((a - b) mod Q_mod)"
    and "sol_mulScalar a b = Inr ((a * b) mod Q_mod)"
    and "sol_negScalar a = Inr ((- a) mod Q_mod)"
proof -
  have "(a - b) mod Q_mod = (if a \<ge> b then a - b else Q_mod - (b - a))"
  proof (cases "a \<ge> b")
    case False
    then have "(a - b) mod Q_mod = (a - b + Q_mod) mod Q_mod" by simp
    also have "\<dots> = a - b + Q_mod" using False assms by (intro mod_pos_pos_trivial) (auto simp: sol_isScalar_def)
    finally show ?thesis using False by simp
  qed (use assms in \<open>auto simp: sol_isScalar_def\<close>)
  then show "sol_subScalar a b = Inr ((a - b) mod Q_mod)" using assms by (simp add: sol_subScalar_def)
  have "(- a) mod Q_mod = (if a = 0 then 0 else Q_mod - a)"
    using zmod_zminus1_eq_if [of a Q_mod] assms(1) by (auto simp: sol_isScalar_def)
  then show "sol_negScalar a = Inr ((- a) mod Q_mod)" using assms by (simp add: sol_negScalar_def)
qed (use assms in \<open>simp_all add: sol_addScalar_def sol_mulScalar_def\<close>)

lemma unit_nonzero: "unit_scalar c \<Longrightarrow> c mod Q_mod \<noteq> 0"
  by (auto simp: unit_scalar_def mod_mult_left_eq [symmetric, of c])

lemma sol_invScalar_eq: "sol_isScalar c \<Longrightarrow> unit_scalar c \<Longrightarrow> sol_invScalar c = Inr (inverse_of c)"
  using unit_nonzero [of c] by (auto simp: sol_invScalar_def inverse_of_def)

lemma inverse_unit: "unit_scalar c \<Longrightarrow> c * inverse_of c mod Q_mod = 1"
  by (simp add: unit_scalar_def inverse_of_def mod_mult_right_eq)

lemma inverse_mult: "inverse_of (a * b) = inverse_of a * inverse_of b mod Q_mod"
  by (simp add: inverse_of_def power_mult_distrib mod_mult_eq)

lemma inverse_mod: "inverse_of (a mod Q_mod) = inverse_of a"
  by (simp add: inverse_of_def power_mod)

lemma unit_mod [simp]: "unit_scalar (a mod Q_mod) = unit_scalar a"
proof -
  have "(a mod Q_mod) * (a mod Q_mod) ^ n mod Q_mod = a * a ^ n mod Q_mod" for n
    using power_mod [of a Q_mod "Suc n"] by simp
  then show ?thesis by (simp only: unit_scalar_def)
qed

lemma unit_mult: "unit_scalar a \<Longrightarrow> unit_scalar b \<Longrightarrow> unit_scalar (a * b)"
proof -
  assume a: "unit_scalar a" and b: "unit_scalar b"
  let ?n = "nat (Q_mod - 2)"
  have "a * b * (a * b) ^ ?n = (a * a ^ ?n) * (b * b ^ ?n)" by (simp add: power_mult_distrib ac_simps)
  then show ?thesis
    using mod_mult_eq [of "a * a ^ ?n" Q_mod "b * b ^ ?n"] a b
    by (simp only: unit_scalar_def) (simp add: Q_mod_def)
qed

lemma unit_1: "unit_scalar 1"
  by (simp add: unit_scalar_def Q_mod_def)

lemma unit_power: "unit_scalar a \<Longrightarrow> unit_scalar (a ^ n)"
  by (induction n) (auto simp: unit_1 unit_mult)

section \<open>The transcripts agree\<close>

lemma sol_words_Cons [simp]: "sol_words [] = []" "sol_words (w # ws) = word_loop 32 w [] @ sol_words ws"
  by (simp_all add: sol_words_def)

lemma length_sol_words [simp]: "length (sol_words ws) = 32 * length ws"
  by (induction ws) auto

lemma pointBytes_words: "valid_point C p \<Longrightarrow> pointBytes C p = Inr (sol_words [px p, py p])"
proof -
  assume v: "valid_point C p"
  then have "0 \<le> px p \<and> px p < 2 ^ 256" "0 \<le> py p \<and> py p < 2 ^ 256"
    using Q_less_word(2) by (auto simp: valid_point_def zero_point_def)
  then have "word256 (px p) = Inr (word_loop 32 (px p) [])" "word256 (py p) = Inr (word_loop 32 (py p) [])"
    by (simp_all add: word256_eq_Inr)
  with v show ?thesis by (simp add: pointBytes_def parsePoint_valid concat_parts_def)
qed

lemma word256_words: "0 \<le> v \<Longrightarrow> v < 2 ^ 256 \<Longrightarrow> word256 v = Inr (sol_words [v])"
  by (simp add: word256_eq_Inr)

lemma word256_scalar: "sol_isScalar v \<Longrightarrow> word256 v = Inr (sol_words [v])"
  using Q_less_word by (intro word256_words) (auto simp: sol_isScalar_def)

lemma candidate_loops:
  "candidate_loop (\<lambda>i. bytesToBigInt (keccak (f i))) s n k = Inr (c, j) \<Longrightarrow>
   sol_challenge_loop keccak (\<lambda>i. Inr (f i)) n k = Inr c"
  by (induction n arbitrary: k)
     (auto simp: Let_def sol_isChallenge_def acceptChallengeCandidate_def less_le split: if_splits)

lemma challenge_step:
  assumes "challenge keccak T stage payload = Inr (c, T')"
  shows "sol_challengeStep keccak (rt_prefix T) (stageTags keccak stage) payload = Inr (rt_prefix T', c)"
proof -
  let ?seg = "stageTags keccak stage @ sol_words [int (length payload)] @ payload"
  let ?f = "\<lambda>i. rt_prefix T @ ?seg @ tag keccak ''ecu/bp/challenge/v3'' @ sol_words [int i]"
  from assms obtain j v where
    l: "candidate_loop (\<lambda>i. bytesToBigInt (keccak (?f i))) (stage_name stage) 256 0 = Inr (c, j)"
    and v: "word256 c = Inr v" and T': "rt_prefix T' = rt_prefix T @ ?seg @ acceptedTag keccak @ v"
    by (auto simp: challenge_def firstAcceptedCandidate_def Let_def rbind_eq_Inr concat_parts_def nat_word_def candidateTag_def)
  from v have "v = sol_words [c]" by (simp add: word256_eq_Inr)
  then show ?thesis
    using candidate_loops [where f = ?f, OF l] T'
    by (simp add: sol_challengeStep_def Let_def acceptedTag_def del: sol_words_Cons)
qed

section \<open>The verifier's vectors\<close>

lemma isScalar_1 [simp]: "sol_isScalar 1" "sol_isScalar 0" "sol_isScalar 2" "sol_isScalar 18446744073709551615"
  by (simp_all add: sol_isScalar_def Q_mod_def)

lemma sol_powers_loop_eq:
  "sol_isScalar y \<Longrightarrow> sol_powers_loop n (y ^ k mod Q_mod) y = Inr (map (\<lambda>i. y ^ i mod Q_mod) [Suc k..<Suc k + n])"
proof (induction n arbitrary: k)
  case (Suc n)
  have "sol_mulScalar (y ^ k mod Q_mod) y = Inr (y ^ Suc k mod Q_mod)"
    using Suc.prems by (simp add: sol_scalar_eq mod_mult_left_eq) (simp add: mult.commute)
  then show ?case
    using Suc.IH [OF Suc.prems, of "Suc k"] by (simp add: upt_conv_Cons [of "Suc k"] del: upt_Suc)
qed simp

lemma sol_powers_eq: "sol_isScalar y \<Longrightarrow> sol_powers y = Inr (map (\<lambda>i. y ^ i mod Q_mod) [0..<64])"
proof -
  assume y: "sol_isScalar y"
  have one: "y ^ 0 mod Q_mod = 1" by (simp add: Q_mod_def)
  have "map (\<lambda>i. y ^ i mod Q_mod) [0..<64] = (y ^ 0 mod Q_mod) # map (\<lambda>i. y ^ i mod Q_mod) [Suc 0..<Suc 0 + 63]"
    by (subst upt_conv_Cons) simp_all
  then show ?thesis using sol_powers_loop_eq [OF y, of 63 0] one by (simp add: sol_powers_def del: upt_Suc)
qed

lemma sol_sum_fold:
  "sol_isScalar a \<Longrightarrow> list_all sol_isScalar xs \<Longrightarrow> foldM sol_addScalar a xs = Inr ((a + sum_list xs) mod Q_mod)"
proof (induction xs arbitrary: a)
  case Nil
  then show ?case by (simp add: sol_isScalar_def)
next
  case (Cons x xs)
  then show ?case by (simp add: sol_scalar_eq mod_add_left_eq add.assoc)
qed

lemma sol_sumScalars_eq: "list_all sol_isScalar xs \<Longrightarrow> sol_sumScalars xs = Inr (sum_list xs mod Q_mod)"
  using sol_sum_fold [of 0 xs] by (simp add: sol_sumScalars_def)

lemma foldM_cong: "(\<And>b x. x \<in> set xs \<Longrightarrow> f b x = g b x) \<Longrightarrow> foldM f b xs = foldM g b xs"
  by (induction xs arbitrary: b) auto

lemma sol_commit_fold:
  "curve_laws C \<Longrightarrow> valid_points C ps \<Longrightarrow> valid_point C a \<Longrightarrow> list_all sol_isScalar ks \<Longrightarrow>
   foldM (\<lambda>c (p, k). rbind (sol_mul C p k) (sol_add C c)) a (zip ps ks) = Inr (curve_add C a (msm C ps ks))"
  by (induction ps ks arbitrary: a rule: msm.induct [of _ C])
     (auto simp: sol_mul_eq sol_add_eq smul_valid laws_add_valid laws_add_assoc msm_valid laws_zero_right)

lemma sol_commit_eq:
  assumes C: "curve_laws C" and v: "valid_points C ps" and l: "length ps = 64" "length ks = 64"
    and s: "list_all sol_isScalar ks"
  shows "sol_commit C ps ks = Inr (msm C ps ks)"
proof -
  obtain p ps' k ks' where e: "ps = p # ps'" "ks = k # ks'" using l by (cases ps; cases ks) auto
  let ?g = "\<lambda>c (p, k). rbind (sol_mul C p k) (sol_add C c)"
  have z: "zip ps' ks' = map (\<lambda>i. (ps ! i, ks ! i)) [1..<64]"
    using l by (intro nth_equalityI) (auto simp: e nth_append)
  have "foldM (\<lambda>c i. rbind (sol_mul C (ps ! i) (ks ! i)) (sol_add C c)) a [1..<64] = foldM ?g a (zip ps' ks')" for a
    unfolding z foldM_map by simp
  then show ?thesis
    using C v s sol_commit_fold [of C ps' "smul C p k" ks'] by (simp add: sol_commit_def e sol_mul_eq smul_valid)
qed

lemma sol_commitReversed_eq: "length ks = 64 \<Longrightarrow> sol_commitReversed C ps ks = sol_commit C ps (rev ks)"
  unfolding sol_commitReversed_def sol_commit_def
  by (intro arg_cong2 [where f = rbind] ext foldM_cong) (simp_all add: rev_nth)

lemma sol_sumPoints_eq:
  assumes C: "curve_laws C" and v: "valid_points C ps" and l: "length ps = 64"
  shows "sol_sumPoints C ps = Inr (msm C ps (replicate 64 1))"
proof -
  obtain p ps' where e: "ps = p # ps'" "length ps' = 63" using l by (cases ps) auto
  have "foldM (sol_add C) a qs = Inr (curve_add C a (msm C qs (replicate (length qs) 1)))"
    if "valid_points C qs" "valid_point C a" for a qs
    using that
    by (induction qs arbitrary: a)
       (auto simp: sol_add_eq C laws_add_valid laws_add_assoc msm_valid laws_zero_right smul_1 smul_valid)
  moreover have "ps' = map ((!) ps) [1..<64]"
    using e by (intro nth_equalityI) auto
  then have "foldM (\<lambda>s i. sol_add C s (ps ! i)) a [1..<64] = foldM (sol_add C) a ps'" for a
    using foldM_map [of "sol_add C" a "(!) ps" "[1..<64]"] by simp
  moreover have "replicate 64 (1::int) = 1 # replicate 63 1" by (simp add: numeral_eq_Suc)
  ultimately show ?thesis
    using v e by (simp add: sol_sumPoints_def smul_1 C)
qed

lemma sol_exponents_eq:
  assumes "sol_isScalar z" "sol_isScalar zz" "length ys = 64" "list_all sol_isScalar ys"
  shows "\<exists>p. sol_exponents ys z zz = Inr (map (\<lambda>i. (ys ! i * z + 2 ^ i * zz) mod Q_mod) [0..<64], p)"
proof -
  let ?f = "\<lambda>(es, powerOfTwo) i.
       rbind (sol_mulScalar (ys ! i) z) (\<lambda>a.
       rbind (sol_mulScalar powerOfTwo zz) (\<lambda>b.
       rbind (sol_addScalar a b) (\<lambda>e.
       rbind (sol_mulScalar powerOfTwo 2) (\<lambda>next. Inr (es @ [e], next)))))"
  have "n \<le> 64 \<Longrightarrow> foldM ?f ([], 1) [0..<n] =
      Inr (map (\<lambda>i. (ys ! i * z + 2 ^ i * zz) mod Q_mod) [0..<n], 2 ^ n mod Q_mod)" for n
  proof (induction n)
    case 0
    show ?case by (simp add: Q_mod_def)
  next
    case (Suc n)
    moreover have "sol_isScalar (ys ! n)" using assms Suc by (simp add: list_all_length)
    ultimately show ?case
      using assms by (simp add: foldM_append sol_scalar_eq mod_simps mult.commute)
  qed
  from this [of 64] show ?thesis by (simp add: sol_exponents_def)
qed

section \<open>The verifier's weights are the fold's\<close>

definition weight_factor :: "int list \<Rightarrow> nat \<Rightarrow> nat \<Rightarrow> int" where
  "weight_factor cs i b = (if bit i b then cs ! (length cs - 1 - b) * cs ! (length cs - 1 - b) else 1)"

definition weight_product :: "int list \<Rightarrow> nat \<Rightarrow> int" where
  "weight_product cs i = (\<Prod>b<length cs. weight_factor cs i b)"

lemma weight_product_Cons:
  "weight_product (c # cs) i = weight_product cs i * (if bit i (length cs) then c * c else 1)"
proof -
  have "weight_factor (c # cs) i b = weight_factor cs i b" if "b < length cs" for b
    using that by (simp add: weight_factor_def nth_Cons')
  then show ?thesis by (simp add: weight_product_def lessThan_Suc mult.commute) (simp add: weight_factor_def)
qed

lemma weight_product_low: "weight_product cs (take_bit (length cs) i) = weight_product cs i"
  unfolding weight_product_def weight_factor_def by (intro prod.cong) (auto simp: bit_take_bit_iff)

lemma fold_weights_nth:
  "list_all unit_scalar cs \<Longrightarrow> i < 2 ^ length cs \<Longrightarrow>
   fold_weights cs ! i mod Q_mod = inverse_of (prod_list cs) * weight_product cs i mod Q_mod"
proof (induction cs arbitrary: i)
  case Nil
  have "inverse_of 1 = 1" by (simp add: inverse_of_def Q_mod_def)
  then show ?case using Nil by (simp add: weight_product_def)
next
  case (Cons c cs)
  let ?n = "length cs" and ?P = "prod_list cs"
  have inv: "inverse_of (c * ?P) = inverse_of c * inverse_of ?P mod Q_mod" by (rule inverse_mult)
  have u: "unit_scalar c" "list_all unit_scalar cs" using Cons.prems(1) by simp_all
  show ?case
  proof (cases "i < 2 ^ ?n")
    case True
    then have "\<not> bit i ?n" by (simp add: bit_nat_iff bit_iff_odd)
    moreover have "fold_weights (c # cs) ! i = inverse_of c * fold_weights cs ! i"
      using True by (simp add: nth_append)
    moreover have "inverse_of c * fold_weights cs ! i mod Q_mod
        = inverse_of c * (inverse_of ?P * weight_product cs i) mod Q_mod"
      using Cons.IH [OF u(2) True] by (metis mod_mult_right_eq)
    ultimately show ?thesis
      by (simp only: weight_product_Cons inv prod_list.Cons mod_mult_left_eq) (simp add: mult.assoc)
  next
    case False
    let ?j = "i - 2 ^ ?n"
    have j: "?j < 2 ^ ?n" "i = 2 ^ ?n + ?j" using False Cons.prems(2) by auto
    have "?j = take_bit ?n i" using j by (simp add: take_bit_eq_mod le_mod_geq False not_less)
    then have w: "weight_product cs ?j = weight_product cs i" by (simp add: weight_product_low)
    have "i div 2 ^ ?n = 1" using j by (intro div_nat_eqI) auto
    then have b: "bit i ?n" by (simp add: bit_iff_odd)
    have f: "fold_weights (c # cs) ! i = c * fold_weights cs ! ?j"
      using False j by (simp add: nth_append)
    have "inverse_of c * inverse_of ?P * (weight_product cs i * (c * c)) mod Q_mod
        = (c * inverse_of c) * (c * (inverse_of ?P * weight_product cs i)) mod Q_mod"
      by (simp add: ac_simps)
    also have "\<dots> = c * (inverse_of ?P * weight_product cs i) mod Q_mod"
      using inverse_unit [OF u(1)] by (metis mod_mult_left_eq mult_1)
    also have "\<dots> = c * fold_weights cs ! ?j mod Q_mod"
      using Cons.IH [OF u(2) j(1)] w by (metis mod_mult_right_eq)
    finally show ?thesis
      using b by (simp only: weight_product_Cons inv prod_list.Cons mod_mult_left_eq f if_True)
  qed
qed

lemma sol_weight_eq:
  assumes "length cs = 6" and s: "list_all sol_isScalar cs" and w: "sol_isScalar w"
  shows "sol_weight cs w i = Inr (w * weight_product cs i mod Q_mod)"
proof -
  let ?f = "\<lambda>weight bitIndex.
       if (int i AND push_bit bitIndex 1) \<noteq> 0
       then let c = cs ! (6 - 1 - bitIndex)
            in rbind (sol_mulScalar c c) (sol_mulScalar weight)
       else Inr weight"
  have "n \<le> 6 \<Longrightarrow> foldM ?f w [0..<n] = Inr (w * (\<Prod>b<n. weight_factor cs i b) mod Q_mod)" for n
  proof (induction n)
    case 0
    then show ?case using w by (simp add: sol_isScalar_def)
  next
    case (Suc n)
    have "sol_isScalar (cs ! (5 - n))" using s assms(1) Suc.prems by (simp add: list_all_length)
    moreover have "int i AND push_bit n 1 = 0 \<longleftrightarrow> \<not> bit i n"
      by (simp add: and_exp_eq_0_iff_not_bit push_bit_eq_mult bit_of_nat_iff)
    moreover have "weight_factor cs i n = (if bit i n then cs ! (5 - n) * cs ! (5 - n) else 1)"
      by (simp add: weight_factor_def assms(1))
    moreover have "foldM ?f w [0..<n] = Inr (w * (\<Prod>b<n. weight_factor cs i b) mod Q_mod)"
      using Suc by simp
    ultimately show ?case
      by (simp add: foldM_append sol_scalar_eq mod_mult_eq lessThan_Suc Let_def del: push_bit_of_1)
         (simp add: ac_simps)
  qed
  from this [of 6] show ?thesis by (simp add: sol_weight_def weight_product_def assms(1))
qed

lemma sol_product_fold:
  "sol_isScalar p \<Longrightarrow> list_all sol_isScalar cs \<Longrightarrow> foldM sol_mulScalar p cs = Inr (p * prod_list cs mod Q_mod)"
proof (induction cs arbitrary: p)
  case Nil
  then show ?case by (simp add: sol_isScalar_def)
next
  case (Cons c cs)
  then show ?case by (simp add: sol_scalar_eq mod_mult_left_eq mult.assoc)
qed

lemma unit_prod_list: "list_all unit_scalar cs \<Longrightarrow> unit_scalar (prod_list cs)"
  by (induction cs) (auto simp: unit_1 unit_mult)

lemma sol_calculateInnerWeights_eq:
  assumes l: "length cs = 6" and s: "list_all sol_isScalar cs" and u: "list_all unit_scalar cs"
  obtains ws where "sol_calculateInnerWeights cs = Inr ws" "length ws = 64" "list_all sol_isScalar ws"
    "list_all2 (\<lambda>k l. k mod Q_mod = l mod Q_mod) ws (fold_weights cs)"
proof -
  let ?inv = "inverse_of (prod_list cs)"
  have "foldM (\<lambda>product i. sol_mulScalar product (cs ! i)) 1 [0..<6] = Inr (prod_list cs mod Q_mod)"
    using foldM_nth [where f = sol_mulScalar and b = 1 and xs = cs] sol_product_fold [of 1 cs] l s by simp
  moreover have "sol_invScalar (prod_list cs mod Q_mod) = Inr ?inv"
    using unit_prod_list [OF u] by (simp add: sol_invScalar_eq inverse_mod)
  moreover have "sol_isScalar ?inv" by (simp add: inverse_of_def)
  then have "mapM (sol_weight cs ?inv) [0..<64] = Inr (map (\<lambda>i. ?inv * weight_product cs i mod Q_mod) [0..<64])"
    by (intro mapM_total sol_weight_eq l s)
  ultimately have "sol_calculateInnerWeights cs = Inr (map (\<lambda>i. ?inv * weight_product cs i mod Q_mod) [0..<64])"
    by (simp add: sol_calculateInnerWeights_def)
  then show ?thesis
    using fold_weights_nth [OF u] l
    by (intro that) (auto simp: list_all2_conv_all_nth list_all_iff)
qed

section \<open>The verifier repeats the fold\<close>

lemma fold_round_transcript:
  assumes "fold_round C keccak u st rnd = Inr st'"
  obtains L R c where "fs_left st' = fs_left st @ [L]" and "fs_right st' = fs_right st @ [R]"
    and "fs_rounds st' = fs_rounds st @ [c]"
    and "sol_challengeForRound keccak (rt_prefix (fs_transcript st)) rnd L R = Inr (rt_prefix (fs_transcript st'), c)"
proof -
  from assms obtain L R c pb w where
    st': "fs_left st' = fs_left st @ [L]" "fs_right st' = fs_right st @ [R]" "fs_rounds st' = fs_rounds st @ [c]"
    and w: "word256 (int rnd) = Inr w" and pb: "point_pair_bytes C L R = Inr pb"
    and ch: "challenge keccak (fs_transcript st) stage_round (concat_parts [w, pb]) = Inr (c, fs_transcript st')"
    by (auto simp: fold_round_def Let_def rbind_eq_Inr)
  from pb have v: "valid_point C L" "valid_point C R"
    by (auto simp: point_pair_bytes_def rbind_eq_Inr dest: pointBytes_eq_Inr)
  with pb have "pb = sol_words [px L, py L] @ sol_words [px R, py R]"
    by (simp add: point_pair_bytes_def pointBytes_words concat_parts_def)
  with w have "concat_parts [w, pb] = sol_words [int rnd, px L, py L, px R, py R]"
    by (simp add: word256_eq_Inr concat_parts_def)
  with challenge_step [OF ch] st' show ?thesis
    by (intro that [of L R c]) (simp_all add: sol_challengeForRound_def)
qed

lemma sol_rounds:
  assumes C: "curve_laws C" and units: "challenge_units keccak" and u: "valid_point C u"
  shows "fold_wf C (2 ^ length rnds) st \<Longrightarrow> foldM (fold_round C keccak u) st rnds = Inr st' \<Longrightarrow>
    rnds = [k..<m] \<Longrightarrow> length (fs_left st) = k \<Longrightarrow> length (fs_right st) = k \<Longrightarrow>
    foldM (sol_inner_round C keccak (fs_left st') (fs_right st'))
      (rt_prefix (fs_transcript st), fold_point C u st, fs_rounds st) rnds =
    Inr (rt_prefix (fs_transcript st'), fold_point C u st', fs_rounds st')"
proof (induction rnds arbitrary: st k)
  case Nil
  then show ?case by simp
next
  case (Cons rnd rnds)
  from Cons.prems(2) obtain st1 where r1: "fold_round C keccak u st rnd = Inr st1"
    and rest: "foldM (fold_round C keccak u) st1 rnds = Inr st'" by (auto simp: rbind_eq_Inr)
  have rk: "rnd = k" "rnds = [Suc k..<m]"
    using Cons.prems(3) by (cases "k < m"; simp add: upt_conv_Cons del: upt_Suc)+
  have wf: "fold_wf C (2 * 2 ^ length rnds) st" using Cons.prems(1) by simp
  from fold_round_point [OF C units u wf r1] obtain L R c i where
    st1: "fs_left st1 = fs_left st @ [L]" "fs_right st1 = fs_right st @ [R]" "fs_rounds st1 = fs_rounds st @ [c]"
    and v: "valid_point C L" "valid_point C R" "0 < c" "c < Q_mod" and i: "inverseq c = Inr i" "c * i mod Q_mod = 1"
    and wf1: "fold_wf C (2 ^ length rnds) st1"
    and P: "fold_point C u st1 = curve_add C (curve_add C (smul C L (c * c)) (smul C R (i * i))) (fold_point C u st)"
    by metis
  from fold_round_transcript [OF r1] st1 have
    ch: "sol_challengeForRound keccak (rt_prefix (fs_transcript st)) k L R = Inr (rt_prefix (fs_transcript st1), c)"
    unfolding rk(1) by (metis append1_eq_conv)
  from i have ii: "i = inverse_of c" by (simp add: inverseq_eq_Inr inverse_of_def)
  have unit: "unit_scalar c"
    using i(2) unfolding ii inverse_of_def unit_scalar_def by (simp add: mod_mult_right_eq)
  from fold_rounds [OF C units u wf1 rest] obtain Ls Rs where
    st': "fs_left st' = fs_left st1 @ Ls" "fs_right st' = fs_right st1 @ Rs" by blast
  have nth: "fs_left st' ! k = L" "fs_right st' ! k = R"
    using st' st1 Cons.prems(4,5) by (simp_all add: nth_append)
  have vP: "valid_point C (fold_point C u st)"
    using wf u by (simp add: fold_point_def fold_wf_def laws_add_valid msm_valid smul_valid C)
  have s: "sol_isScalar c" "sol_isScalar (inverse_of c)"
    using v by (simp_all add: sol_isScalar_def inverse_of_def)
  have "sol_inner_round C keccak (fs_left st') (fs_right st')
      (rt_prefix (fs_transcript st), fold_point C u st, fs_rounds st) rnd =
    Inr (rt_prefix (fs_transcript st1), fold_point C u st1, fs_rounds st1)"
    using s unit v vP
    by (simp add: sol_inner_round_def nth rk(1) ch sol_invScalar_eq sol_scalar_eq sol_mul_eq C sol_add_eq
        smul_valid laws_add_valid P ii st1)
  moreover have "length (fs_left st1) = Suc k" "length (fs_right st1) = Suc k"
    using st1 Cons.prems(4,5) by simp_all
  ultimately show ?case using Cons.IH [OF wf1 rest rk(2)] by simp
qed

definition scalar_state :: "FoldState \<Rightarrow> bool" where
  "scalar_state st \<longleftrightarrow> list_all sol_isScalar (fs_le st) \<and> list_all sol_isScalar (fs_re st)"

lemma fold_round_scalars: "fold_round C keccak u st rnd = Inr st' \<Longrightarrow> scalar_state st'"
  by (auto simp: fold_round_def Let_def rbind_eq_Inr scalar_state_def fold_scalars_def list_all_iff sol_isScalar_def)

lemma msm_weights: "list_all2 (\<lambda>k l. k mod Q_mod = l mod Q_mod) ws vs \<Longrightarrow>
    msm C ps ws = msm C ps vs \<and> msm C ps (rev ws) = msm C ps (rev vs)"
  by (intro conjI msm_cong) (simp_all add: list_all2_rev)

text \<open>What \<open>finishRangeBody\<close> returns, and that the inner check accepts it from the state and the
  commitment that the body bound.\<close>

lemma sol_verifyInner_accepts:
  assumes C: "curve_laws C" and units: "challenge_units keccak" and wf: "body_wf C body" and g: "rb_g body = GS"
    and sc: "list_all sol_isScalar (rb_le body)" "list_all sol_isScalar (rb_re body)"
    and P: "innerPoint body = curve_add C (curve_add C (msm C GS (rb_le body)) (msm C (hAdjusted body) (rb_re body)))
         (smul C (uPoint body) (inner_product (rb_le body) (rb_re body)))"
    and fin: "finishRangeBody C keccak body = Inr pf"
  obtains Ls Rs a b where "length Ls = 6" "length Rs = 6" "valid_points C Ls" "valid_points C Rs"
    "sol_isScalar a" "sol_isScalar b"
    "coords pf = concat (map pointPair [C_range body, rb_A body, rb_S body, rb_T1 body, rb_T2 body])"
    "scalars pf = [tauX body, rb_mu body, rb_t body, a, b]"
    "rp_ls pf = columns Ls" "rp_rs pf = columns Rs"
    "\<And>pr. vp_left pr = Ls \<Longrightarrow> vp_right pr = Rs \<Longrightarrow> vp_a pr = a \<Longrightarrow> vp_b pr = b \<Longrightarrow>
      sol_verifyInner C keccak (rt_prefix (rb_transcript body)) (innerPoint body) (uPoint body) (hAdjusted body) pr
        = Inr True"
proof -
  let ?st = "\<lparr>fs_le = rb_le body, fs_re = rb_re body, fs_g = rb_g body, fs_h = hAdjusted body,
         fs_left = [], fs_right = [], fs_transcript = rb_transcript body, fs_rounds = []\<rparr>"
  have u: "valid_point C (uPoint body)" using wf by (simp add: body_wf_def)
  have G: "valid_points C GS" "length GS = 64" and h: "valid_points C (hAdjusted body)" "length (hAdjusted body) = 64"
    using wf g by (simp_all add: body_wf_def)
  from fin obtain st where run: "foldM (fold_round C keccak (uPoint body)) ?st [0..<6] = Inr st"
    and pf: "rp_ls pf = columns (fs_left st)" "rp_rs pf = columns (fs_right st)"
      "coords pf = concat (map pointPair [C_range body, rb_A body, rb_S body, rb_T1 body, rb_T2 body])"
      "scalars pf = [tauX body, rb_mu body, rb_t body, fs_le st ! 0, fs_re st ! 0]"
    by (auto simp: finishRangeBody_def rbind_eq_Inr Let_def split: if_splits)
  have swf: "fold_wf C (2 ^ length [0..<6::nat]) ?st" using wf by (simp add: fold_wf_def body_wf_def)
  from fold_rounds [OF C units u swf run] obtain Ls Rs cs where
    st: "length Ls = 6" "length Rs = 6" "length cs = 6" "fs_left st = Ls" "fs_right st = Rs" "fs_rounds st = cs"
      "valid_points C Ls" "valid_points C Rs" "fold_wf C 1 st"
      "list_all (\<lambda>c. 0 < c \<and> c < Q_mod \<and> unit_scalar c) cs"
      "fs_g st = [msm C GS (fold_weights cs)]" "fs_h st = [msm C (hAdjusted body) (rev (fold_weights cs))]"
    by (auto simp: g)
  from st(9) obtain a b where ab: "fs_le st = [a]" "fs_re st = [b]"
    by (auto simp: fold_wf_def length_Suc_conv)
  have "scalar_state st"
    by (rule foldM_invariant [OF run]) (use sc in \<open>auto simp: scalar_state_def dest: fold_round_scalars\<close>)
  then have sab: "sol_isScalar a" "sol_isScalar b" by (simp_all add: scalar_state_def ab)
  have cs: "list_all sol_isScalar cs" "list_all unit_scalar cs"
    using st(10) by (auto simp: list_all_iff sol_isScalar_def)
  from sol_calculateInnerWeights_eq [OF st(3) cs] obtain ws where
    ws: "sol_calculateInnerWeights cs = Inr ws" "length ws = 64" "list_all sol_isScalar ws"
      "list_all2 (\<lambda>k l. k mod Q_mod = l mod Q_mod) ws (fold_weights cs)" by blast
  note folded = msm_weights [OF ws(4), of C]
  have loop: "foldM (sol_inner_round C keccak Ls Rs) (rt_prefix (rb_transcript body), innerPoint body, []) [0..<6] =
      Inr (rt_prefix (fs_transcript st), fold_point C (uPoint body) st, cs)"
    using sol_rounds [OF C units u swf run refl] by (simp add: st(4-6) fold_point_def P g)
  have G': "sol_commit C GS ws = Inr (msm C GS (fold_weights cs))"
    using sol_commit_eq [OF C G ws(2,3)] folded by simp
  have h': "sol_commitReversed C (hAdjusted body) ws = Inr (msm C (hAdjusted body) (rev (fold_weights cs)))"
    using sol_commit_eq [OF C h, of "rev ws"] ws(2,3) folded by (simp add: sol_commitReversed_eq)
  have vs: "valid_point C (msm C GS ks)" "valid_point C (msm C (hAdjusted body) ks)" for ks
    by (simp_all add: msm_valid C G h)
  show ?thesis
  proof (rule that [of Ls Rs a b])
    fix pr :: SolRangeProof
    assume "vp_left pr = Ls" "vp_right pr = Rs" "vp_a pr = a" "vp_b pr = b"
    then show "sol_verifyInner C keccak (rt_prefix (rb_transcript body)) (innerPoint body) (uPoint body)
        (hAdjusted body) pr = Inr True"
      by (simp add: sol_verifyInner_def loop ws(1) G' h' sol_mul_eq sol_add_eq sol_scalar_eq C vs sab u smul_valid
          laws_add_valid samePoint_iff fold_point_def st(11,12) ab laws_zero_right)
  qed (use st pf ab sab in simp_all)
qed

section \<open>Vectors as functions of the index\<close>

definition vecf :: "(nat \<Rightarrow> int) \<Rightarrow> int list" where
  "vecf F = map F [0..<64]"

definition vec_is :: "int list \<Rightarrow> (nat \<Rightarrow> int) \<Rightarrow> bool" where
  "vec_is xs F \<longleftrightarrow> length xs = 64 \<and> (\<forall>i<64. xs ! i mod Q_mod = F i mod Q_mod)"

lemma length_vecf [simp]: "length (vecf F) = 64"
  by (simp add: vecf_def)

lemma nth_vecf [simp]: "i < 64 \<Longrightarrow> vecf F ! i = F i"
  by (simp add: vecf_def)

lemma vec_isI: "length xs = 64 \<Longrightarrow> (\<And>i. i < 64 \<Longrightarrow> xs ! i mod Q_mod = F i mod Q_mod) \<Longrightarrow> vec_is xs F"
  by (simp add: vec_is_def)

lemma vec_is_vecf: "vec_is (vecf F) F"
  by (simp add: vec_is_def)

lemma msm_vec: "vec_is xs F \<Longrightarrow> msm C ps xs = msm C ps (vecf F)"
  by (rule msm_cong) (simp add: vec_is_def list_all2_conv_all_nth)

lemma msm_vec_cong: "(\<And>i. i < 64 \<Longrightarrow> F i mod Q_mod = G i mod Q_mod) \<Longrightarrow> msm C ps (vecf F) = msm C ps (vecf G)"
  by (rule msm_vec) (simp add: vec_is_def)

lemma msm_vec_add:
  assumes "curve_laws C" and "valid_points C ps" and "length ps = 64"
  shows "curve_add C (msm C ps (vecf F)) (msm C ps (vecf G)) = msm C ps (vecf (\<lambda>i. F i + G i))"
proof -
  have "map2 (+) (vecf F) (vecf G) = vecf (\<lambda>i. F i + G i)"
    by (intro nth_equalityI) simp_all
  then show ?thesis using msm_add [OF assms(1,2), of "vecf F" "vecf G"] assms(3) by simp
qed

lemma msm_vec_scale:
  assumes "curve_laws C" and "valid_points C ps"
  shows "smul C (msm C ps (vecf F)) c = msm C ps (vecf (\<lambda>i. c * F i))"
  using msm_scale [OF assms, of c "vecf F"] by (simp add: vecf_def comp_def)

lemma msm_points_scale:
  "curve_laws C \<Longrightarrow> valid_points C ps \<Longrightarrow> length ds = length ps \<Longrightarrow> length ks = length ps \<Longrightarrow>
   msm C (map2 (smul C) ps ds) ks = msm C ps (map2 (*) ds ks)"
proof (induction ps arbitrary: ds ks)
  case (Cons p ps)
  then obtain d ds' k ks' where "ds = d # ds'" "ks = k # ks'" by (cases ds; cases ks) auto
  with Cons show ?case by (simp add: smul_mult)
qed simp

lemma inner_product_sum:
  "length xs = length ys \<Longrightarrow> inner_product xs ys = (\<Sum>i<length ys. xs ! i * ys ! i)"
  by (induction xs ys rule: list_induct2) (simp_all add: sum.lessThan_Suc_shift del: sum.lessThan_Suc)

lemma inner_product_vec:
  assumes "vec_is xs F" and "vec_is ys G"
  shows "inner_product xs ys mod Q_mod = (\<Sum>i<64. F i * G i) mod Q_mod"
proof -
  have e: "xs ! i * ys ! i mod Q_mod = F i * G i mod Q_mod" if "i < 64" for i
    using assms that by (intro mod_mult_cong) (simp_all add: vec_is_def)
  have "(\<Sum>i<64. xs ! i * ys ! i) mod Q_mod = (\<Sum>i<64. (xs ! i * ys ! i) mod Q_mod) mod Q_mod"
    by (rule mod_sum_eq [symmetric])
  also have "\<dots> = (\<Sum>i<64. (F i * G i) mod Q_mod) mod Q_mod"
    by (simp add: e)
  also have "\<dots> = (\<Sum>i<64. F i * G i) mod Q_mod" by (rule mod_sum_eq)
  finally show ?thesis using assms by (simp add: inner_product_sum vec_is_def)
qed

lemma dot_vec: "vec_is xs F \<Longrightarrow> vec_is ys G \<Longrightarrow> dot xs ys = Inr ((\<Sum>i<64. F i * G i) mod Q_mod)"
  by (simp add: dot_eq modq_eq inner_product_vec vec_is_def)

section \<open>The bits of the amount\<close>

definition amount_bit :: "int \<Rightarrow> nat \<Rightarrow> int" where
  "amount_bit v i = (if bit v i then 1 else 0)"

lemma amount_bit_square: "amount_bit v i * amount_bit v i = amount_bit v i"
  by (simp add: amount_bit_def)

lemma amount_bits_eq: "amount_bits v = vecf (amount_bit v)"
  by (simp add: amount_bits_def vecf_def amount_bit_def bit_iff_odd_drop_bit and_one_eq mod2_eq_if)

lemma amount_bit_sum: "0 \<le> v \<Longrightarrow> v < 2 ^ 64 \<Longrightarrow> (\<Sum>i<64. amount_bit v i * 2 ^ i) = v"
proof -
  assume v: "0 \<le> v" "v < 2 ^ 64"
  have "(\<Sum>i<n. amount_bit v i * 2 ^ i) = take_bit n v" for n
    by (induction n) (simp_all add: amount_bit_def take_bit_Suc_from_most add.commute)
  then show ?thesis using v by (simp add: take_bit_int_eq_self)
qed

text \<open>The coefficients of the polynomial \<open>t\<close> that the verifier expects: \<open>delta\<close> is what the amount and the
  challenges leave of the constant term.\<close>

lemma constant_term:
  fixes y z :: int
  assumes b: "\<And>i. b i * b i = (b i :: int)"
  shows "(\<Sum>i<64. (b i - z) * (y ^ i * (b i - 1 + z) + z * z * 2 ^ i)) =
    z * z * (\<Sum>i<64. b i * 2 ^ i) + ((\<Sum>i<64. y ^ i) * (z - z * z) - z * z * z * (2 ^ 64 - 1))"
proof -
  have t: "(b i - z) * (y ^ i * (b i - 1 + z) + z * z * 2 ^ i) =
      z * z * (b i * 2 ^ i) + (y ^ i * (z - z * z) - z * z * z * 2 ^ i)" for i
  proof -
    have "(b i - z) * (b i - 1 + z) = b i * b i - b i + (z - z * z)" by (simp add: algebra_simps)
    then have e: "(b i - z) * (b i - 1 + z) = z - z * z" by (simp only: b)
    have "(b i - z) * (y ^ i * (b i - 1 + z) + z * z * 2 ^ i) =
      y ^ i * ((b i - z) * (b i - 1 + z)) + (b i - z) * (z * z * 2 ^ i)" by (simp add: algebra_simps)
    also have "\<dots> = y ^ i * (z - z * z) + (b i - z) * (z * z * 2 ^ i)" by (simp only: e)
    finally show ?thesis by (simp add: algebra_simps)
  qed
  have "(\<Sum>i<n. (2::int) ^ i) = 2 ^ n - 1" for n by (induction n) simp_all
  then show ?thesis
    by (simp only: t sum.distrib sum_subtractf sum_distrib_left [symmetric] sum_distrib_right [symmetric])
qed

lemma product_terms:
  fixes x :: int
  shows "(\<Sum>i<64. (lc i + l i * x) * (rc i + rl i * x)) =
    (\<Sum>i<64. lc i * rc i) + x * ((\<Sum>i<64. l i * rc i) + (\<Sum>i<64. lc i * rl i)) + x * x * (\<Sum>i<64. l i * rl i)"
  by (simp add: sum.distrib [symmetric] sum_distrib_left algebra_simps)

section \<open>Runs whose failures are known\<close>

text \<open>Whatever the world answers, the run fails only within \<open>E\<close> and returns only values with \<open>P\<close>.\<close>

definition always :: "'e set \<Rightarrow> ('a \<Rightarrow> bool) \<Rightarrow> ('w, 'e, 'a) run \<Rightarrow> bool" where
  "always E P m \<longleftrightarrow> (\<forall>w. case fst (m w) of Inl e \<Rightarrow> e \<in> E | Inr a \<Rightarrow> P a)"

lemma always_return: "P a \<Longrightarrow> always E P (ereturn a)"
  by (simp add: always_def)

lemma always_bind:
  assumes "always E Q m" and "\<And>a. Q a \<Longrightarrow> always E P (f a)"
  shows "always E P (ebind m f)"
  unfolding always_def
proof
  fix w
  show "case fst (ebind m f w) of Inl e \<Rightarrow> e \<in> E | Inr a \<Rightarrow> P a"
  proof (cases "m w")
    case (Pair r w')
    with assms(1) have "case r of Inl e \<Rightarrow> e \<in> E | Inr a \<Rightarrow> Q a"
      unfolding always_def by (metis fst_conv)
    then show ?thesis
      using assms(2) Pair by (cases r) (auto simp: ebind_def always_def)
  qed
qed

lemma always_lift: "(case m of Inl e \<Rightarrow> e \<in> E | Inr a \<Rightarrow> P a) \<Longrightarrow> always E P (elift m)"
  by (simp add: always_def)

lemma always_known: "m = Inr a \<Longrightarrow> always E P (f a) \<Longrightarrow> always E P (ebind (elift m) f)"
  by (simp add: always_def ebind_def)

lemma always_mono: "always E Q m \<Longrightarrow> (\<And>a. Q a \<Longrightarrow> P a) \<Longrightarrow> always E P m"
  by (fastforce simp: always_def split: sum.splits)

definition range_failures :: "failure set" where
  "range_failures = {CryptoFailure C_RANDOM ''scalar'', CryptoFailure C_SCALAR_EXHAUSTED ''scalar''} \<union>
     range (\<lambda>s. CryptoFailure C_CHALLENGE_EXHAUSTED (stage_name s))"

lemma always_scalar: "always range_failures sol_isScalar (nextScalar source)"
  unfolding always_def
proof
  fix w
  show "case fst (nextScalar source w) of Inl e \<Rightarrow> e \<in> range_failures | Inr a \<Rightarrow> sol_isScalar a"
  proof (cases "nextScalar source w")
    case (Pair r w')
    then show ?thesis
      using sample_loop_Inl [of 256 source True w] sample_loop_sound [of 256 source True w]
      by (cases r) (auto simp: nextScalar_def sampleScalar_def range_failures_def scalar_accepted_def sol_isScalar_def)
  qed
qed

lemma always_scalars:
  assumes "always E sol_isScalar (nextScalar source)"
  shows "always E (\<lambda>ys. length ys = length xs \<and> list_all sol_isScalar ys) (emapM (\<lambda>_. nextScalar source) xs)"
proof (induction xs)
  case Nil
  show ?case by (simp add: always_def)
next
  case (Cons x xs)
  show ?case
    by (simp, rule always_bind [OF assms], rule always_bind [OF Cons], rule always_return) simp
qed

text \<open>The failures of the challenges are within \<open>E\<close>.\<close>

definition challenge_failures :: "(octets \<Rightarrow> octets) \<Rightarrow> failure set \<Rightarrow> bool" where
  "challenge_failures keccak E \<longleftrightarrow> (\<forall>T stage payload e. challenge keccak T stage payload = Inl e \<longrightarrow> e \<in> E)"

lemma range_challenge_failures: "challenge_failures keccak range_failures"
  by (auto simp: challenge_failures_def range_failures_def dest: challenge_Inl)

lemma always_challenge:
  assumes "challenge_units keccak" and "challenge_failures keccak E"
  shows "always E (\<lambda>(c, T'). sol_isScalar c \<and> unit_scalar c \<and>
      sol_challengeStep keccak (rt_prefix T) (stageTags keccak stage) payload = Inr (rt_prefix T', c))
    (elift (challenge keccak T stage payload))"
proof (rule always_lift)
  show "case challenge keccak T stage payload of Inl e \<Rightarrow> e \<in> E | Inr a \<Rightarrow> (case a of (c, T') \<Rightarrow>
      sol_isScalar c \<and> unit_scalar c \<and>
      sol_challengeStep keccak (rt_prefix T) (stageTags keccak stage) payload = Inr (rt_prefix T', c))"
  proof (cases "challenge keccak T stage payload")
    case (Inl e)
    then show ?thesis using assms(2) by (simp add: challenge_failures_def)
  next
    case (Inr a)
    then show ?thesis
      using challenge_range [of keccak T stage payload] challenge_unit [OF assms(1), of T stage payload]
        challenge_step [of keccak T stage payload]
      by (cases a) (auto simp: sol_isScalar_def)
  qed
qed

section \<open>The two equations of the verifier\<close>

lemma lin2_scale:
  "curve_laws C \<Longrightarrow> generators_valid C \<Longrightarrow> smul C (lin2 C a b) k = lin2 C (a * k) (b * k)"
  by (simp add: lin2_def smul_distrib smul_mult smul_valid generators_base)

definition delta_term :: "int \<Rightarrow> int \<Rightarrow> int" where
  "delta_term y z = (\<Sum>i<64. y ^ i) * (z - z * z) - z * z * z * (2 ^ 64 - 1)"

lemma polynomial_equation:
  assumes C: "curve_laws C" and g: "generators_valid C"
    and t: "t mod Q_mod = (z * z * v + delta_term y z + x * t1 + x * x * t2) mod Q_mod"
    and tau: "tau mod Q_mod = (z * z * r + tau1 * x + tau2 * x * x) mod Q_mod"
  shows "curve_add C (curve_add C (curve_add C (smul C (lin2 C t1 tau1) x) (smul C (lin2 C t2 tau2) (x * x)))
      (smul C (lin2 C v r) (z * z))) (smul C H_base (delta_term y z)) = curve_add C (smul C H_base t) (smul C G_base tau)"
proof -
  have "curve_add C (curve_add C (curve_add C (smul C (lin2 C t1 tau1) x) (smul C (lin2 C t2 tau2) (x * x)))
      (smul C (lin2 C v r) (z * z))) (smul C H_base (delta_term y z))
    = lin2 C (z * z * v + delta_term y z + x * t1 + x * x * t2) (z * z * r + tau1 * x + tau2 * x * x)"
    by (simp add: lin2_scale [OF C g] lin2_H [OF C g] lin2_add [OF C g] ac_simps)
  also have "\<dots> = lin2 C t tau" using t tau by (intro lin2_cong) simp_all
  finally show ?thesis by (simp add: lin2_def)
qed

definition vec3 :: "curve \<Rightarrow> int list \<Rightarrow> int list \<Rightarrow> int \<Rightarrow> G1Point" where
  "vec3 C l r k = curve_add C (curve_add C (msm C GS l) (msm C HS r)) (smul C G_base k)"

lemma gather_inner:
  assumes C: "curve_laws C"
    and "valid_point C a1" "valid_point C a2" "valid_point C a3" "valid_point C s1" "valid_point C s2"
    and "valid_point C s3" "valid_point C gz" "valid_point C he" "valid_point C n" "valid_point C ut"
    and z: "curve_add C a3 (curve_add C s3 n) = zero_point"
  shows "curve_add C (curve_add C (curve_add C (curve_add C (curve_add C (curve_add C (curve_add C a1 a2) a3)
      (curve_add C (curve_add C s1 s2) s3)) gz) he) n) ut =
    curve_add C (curve_add C (curve_add C (curve_add C a1 s1) gz) (curve_add C (curve_add C a2 s2) he)) ut"
proof -
  have "curve_add C (curve_add C (curve_add C (curve_add C (curve_add C (curve_add C (curve_add C a1 a2) a3)
      (curve_add C (curve_add C s1 s2) s3)) gz) he) n) ut =
    curve_add C (curve_add C (curve_add C (curve_add C (curve_add C a1 s1) gz) (curve_add C (curve_add C a2 s2) he)) ut)
      (curve_add C a3 (curve_add C s3 n))"
    using assms(2-11) by (simp add: laws_ac [OF C] laws_add_valid [OF C])
  then show ?thesis using assms(2-11) by (simp add: z laws_zero_right [OF C] laws_add_valid [OF C])
qed

lemma inner_equation:
  assumes C: "curve_laws C" and g: "generators_valid C" and y: "unit_scalar y"
    and le: "vec_is le (\<lambda>i. b i - z + l i * x)"
    and re: "vec_is re (\<lambda>i. y ^ i * (b i - 1 + z) + z * z * 2 ^ i + y ^ i * r i * x)"
    and mu: "mu mod Q_mod = (alpha + rho * x) mod Q_mod" and ut: "valid_point C ut"
    and h: "hAdj = map2 (smul C) HS (vecf (\<lambda>i. inverse_of (y ^ i)))"
  shows "curve_add C (curve_add C (curve_add C (curve_add C (curve_add C (vec3 C (vecf b) (vecf (\<lambda>i. b i - 1)) alpha)
      (smul C (vec3 C (vecf l) (vecf r) rho) x)) (smul C (msm C GS (replicate 64 1)) (- z)))
      (msm C hAdj (vecf (\<lambda>i. y ^ i * z + 2 ^ i * (z * z))))) (curve_neg C (smul C G_base mu))) ut =
    curve_add C (curve_add C (msm C GS le) (msm C hAdj re)) ut"
proof -
  have G: "valid_points C GS" and H: "valid_points C HS" using valid_GS_HS [OF g] by simp_all
  note bases = generators_base [OF g]
  let ?inv = "\<lambda>i. inverse_of (y ^ i)"
  have adj: "msm C hAdj ks = msm C HS (map2 (*) (vecf ?inv) ks)" if "length ks = 64" for ks
    unfolding h by (rule msm_points_scale [OF C H]) (simp_all add: length_HS that)
  have one: "replicate 64 1 = vecf (\<lambda>_. 1)" by (intro nth_equalityI) simp_all
  have neg: "curve_neg C (smul C G_base mu) = smul C G_base (- (alpha + rho * x))"
  proof -
    have "curve_neg C (smul C G_base mu) = smul C G_base (mu * - 1)"
      by (simp only: neg_smul [OF C smul_valid [OF C bases(2)]] smul_mult [OF C bases(2)])
    also have "\<dots> = smul C G_base (- (alpha + rho * x))"
      by (intro smul_cong) (metis mod_minus_eq mu mult_minus1_right)
    finally show ?thesis .
  qed
  have cancel: "curve_add C (smul C G_base alpha) (curve_add C (smul C G_base (rho * x)) (smul C G_base (- (alpha + rho * x))))
      = zero_point"
    by (simp add: smul_add [OF C bases(2), symmetric])
  have left: "msm C GS (vecf (\<lambda>i. b i + x * l i + - z * 1)) = msm C GS le"
    using msm_vec [OF le] by (simp add: mult.commute algebra_simps)
  have e: "map2 (*) (vecf ?inv) (vecf F) = vecf (\<lambda>i. ?inv i * F i)" for F
    by (intro nth_equalityI) simp_all
  have rel: "vec_is (map2 (*) (vecf ?inv) re) (\<lambda>i. b i - 1 + x * r i + ?inv i * (y ^ i * z + 2 ^ i * (z * z)))"
  proof (rule vec_isI)
    fix i :: nat
    assume i: "i < 64"
    then have "map2 (*) (vecf ?inv) re ! i = ?inv i * re ! i" using re by (simp add: vec_is_def)
    moreover have "re ! i mod Q_mod = (y ^ i * (b i - 1 + z) + z * z * 2 ^ i + y ^ i * r i * x) mod Q_mod"
      using re i by (simp add: vec_is_def)
    ultimately have "map2 (*) (vecf ?inv) re ! i mod Q_mod
        = ?inv i * (y ^ i * (b i - 1 + z) + z * z * 2 ^ i + y ^ i * r i * x) mod Q_mod"
      by (metis mod_mult_right_eq)
    also have "?inv i * (y ^ i * (b i - 1 + z) + z * z * 2 ^ i + y ^ i * r i * x)
        = (y ^ i * ?inv i) * (b i - 1 + x * r i) + ?inv i * (y ^ i * z + 2 ^ i * (z * z))"
      by (simp add: algebra_simps)
    also have "\<dots> mod Q_mod = (b i - 1 + x * r i + ?inv i * (y ^ i * z + 2 ^ i * (z * z))) mod Q_mod"
    proof (rule mod_add_cong)
      show "y ^ i * ?inv i * (b i - 1 + x * r i) mod Q_mod = (b i - 1 + x * r i) mod Q_mod"
        using inverse_unit [OF unit_power [OF y]] by (metis mod_mult_left_eq mult_1)
    qed simp
    finally show "map2 (*) (vecf ?inv) re ! i mod Q_mod
      = (b i - 1 + x * r i + ?inv i * (y ^ i * z + 2 ^ i * (z * z))) mod Q_mod" .
  qed (use re in \<open>simp add: vec_is_def\<close>)
  have right: "msm C HS (vecf (\<lambda>i. b i - 1 + x * r i + ?inv i * (y ^ i * z + 2 ^ i * (z * z)))) = msm C hAdj re"
    using msm_vec [OF rel] adj [of re] re by (simp add: vec_is_def)
  note vs = msm_valid [OF C G] msm_valid [OF C H] smul_valid [OF C] bases laws_add_valid [OF C]
  have scaled: "smul C (vec3 C (vecf l) (vecf r) rho) x = curve_add C (curve_add C (msm C GS (vecf (\<lambda>i. x * l i)))
      (msm C HS (vecf (\<lambda>i. x * r i)))) (smul C G_base (rho * x))"
    by (simp add: vec3_def smul_distrib [OF C] smul_mult [OF C] msm_vec_scale [OF C G] msm_vec_scale [OF C H] vs)
  show ?thesis
    unfolding scaled
    unfolding one msm_vec_scale [OF C G] neg vec3_def adj [OF length_vecf] e
    by (subst gather_inner [OF C _ _ _ _ _ _ _ _ _ ut cancel])
       (simp_all add: vs msm_vec_add [OF C G length_GS] msm_vec_add [OF C H length_HS] left right del: mult_minus_left mult_1_right)
qed

section \<open>The body\<close>

text \<open>What the verifier will find in a body: the challenges it will draw from the same transcript, the two
  equations it will check, and the commitment it will derive.\<close>

definition body_verifies :: "curve \<Rightarrow> (octets \<Rightarrow> octets) \<Rightarrow> octets \<Rightarrow> int \<Rightarrow> RangeBody \<Rightarrow> bool" where
  "body_verifies C keccak operationId outputIndex body \<longleftrightarrow> (\<exists>y z x uc s1 s2 s3 s4.
     sol_challengeForPoints keccak (sol_initialPrefix keccak operationId outputIndex (C_range body))
       (tag keccak ''ecu/bp/y/v3'') (rb_A body) (rb_S body) = Inr (s1, y) \<and>
     sol_challengeStep keccak s1 (tag keccak ''ecu/bp/z/v3'') [] = Inr (s2, z) \<and>
     sol_challengeForPoints keccak s2 (tag keccak ''ecu/bp/x/v3'') (rb_T1 body) (rb_T2 body) = Inr (s3, x) \<and>
     sol_challengeForScalars keccak s3 (tauX body) (rb_mu body) (rb_t body) = Inr (s4, uc) \<and>
     list_all sol_isScalar [y, z, x, uc] \<and> unit_scalar y \<and> uPoint body = smul C H_base uc \<and>
     rt_prefix (rb_transcript body) = sol_enterInner keccak s4 (innerPoint body) (uPoint body) \<and>
     hAdjusted body = map2 (smul C) HS (vecf (\<lambda>i. inverse_of (y ^ i))) \<and>
     curve_add C (curve_add C (curve_add C (smul C (rb_T1 body) x) (smul C (rb_T2 body) (x * x)))
       (smul C (C_range body) (z * z))) (smul C H_base (delta_term y z)) =
       curve_add C (smul C H_base (rb_t body)) (smul C G_base (tauX body)) \<and>
     curve_add C (curve_add C (curve_add C (curve_add C (curve_add C (rb_A body)
       (smul C (rb_S body) x)) (smul C (msm C GS (replicate 64 1)) (- z)))
       (msm C (hAdjusted body) (vecf (\<lambda>i. y ^ i * z + 2 ^ i * (z * z))))) (curve_neg C (smul C G_base (rb_mu body))))
       (smul C (uPoint body) (rb_t body)) = innerPoint body)"

definition body_shape :: "curve \<Rightarrow> RangeBody \<Rightarrow> bool" where
  "body_shape C body \<longleftrightarrow> body_wf C body \<and> rb_g body = GS \<and>
     list_all (valid_point C) [C_range body, rb_A body, rb_S body, rb_T1 body, rb_T2 body, innerPoint body] \<and>
     list_all sol_isScalar [tauX body, rb_mu body, rb_t body] \<and>
     list_all sol_isScalar (rb_le body) \<and> list_all sol_isScalar (rb_re body) \<and>
     innerPoint body = curve_add C (curve_add C (msm C GS (rb_le body)) (msm C (hAdjusted body) (rb_re body)))
       (smul C (uPoint body) (inner_product (rb_le body) (rb_re body)))"

lemma two_commit_eq:
  "curve_laws C \<Longrightarrow> generators_valid C \<Longrightarrow> sol_isScalar a \<Longrightarrow> sol_isScalar b \<Longrightarrow> two_commit C a b = Inr (lin2 C a b)"
  by (simp add: two_commit_def sol_isScalar_def mul_valid generators_base sum_points2 smul_valid lin2_def)

lemma vector_commit_eq:
  "curve_laws C \<Longrightarrow> generators_valid C \<Longrightarrow> length l = 64 \<Longrightarrow> length r = 64 \<Longrightarrow> sol_isScalar k \<Longrightarrow>
   vector_commit C l r k = Inr (vec3 C l r k)"
  using valid_GS_HS [of C]
  by (simp add: vector_commit_def vec3_def multi_eq length_GS length_HS sol_isScalar_def mul_valid generators_base
      sum_points3 smul_valid msm_valid)

lemma vec3_valid: "curve_laws C \<Longrightarrow> generators_valid C \<Longrightarrow> valid_point C (vec3 C l r k)"
  using valid_GS_HS [of C]
  by (simp add: vec3_def laws_add_valid msm_valid smul_valid generators_base)

lemma point_pair_words: "valid_point C p \<Longrightarrow> valid_point C q \<Longrightarrow>
   point_pair_bytes C p q = Inr (sol_words [px p, py p, px q, py q])"
  by (simp add: point_pair_bytes_def pointBytes_words concat_parts_def)

lemma new_transcript_eq:
  assumes "valid_point C K" and "length operationId = 32" and "0 \<le> outputIndex" "outputIndex < 2 ^ 256"
  obtains T where "new_transcript C keccak operationId outputIndex K = Inr T"
    and "rt_prefix T = sol_initialPrefix keccak operationId outputIndex K"
  using assms
  by (simp add: new_transcript_def word256_eq_Inr pointBytes_words word256_words sol_initialPrefix_def concat_parts_def)

lemma bindInner_eq:
  assumes "valid_point C p" and "valid_point C u"
  obtains T' where "bindInner C keccak T p u = Inr T'" and "rt_prefix T' = sol_enterInner keccak (rt_prefix T) p u"
  using assms
  by (simp add: bindInner_def pointBytes_words word256_words Let_def sol_enterInner_def concat_parts_def nat_word_def)

lemma commit_shift:
  assumes "curve_laws C" and "generators_valid C" and "valid_opening o'"
  shows "rbind (commit C o') (\<lambda>c. rbind (neg C H_base) (add C c)) = Inr (lin2 C (amount o' - 1) (blinding o'))"
proof -
  note g = assms(1,2)
  have n: "neg C H_base = Inr (lin2 C (- 1) 0)"
    using lin2_neg [OF g, of 1 0] generators_base [OF assms(2)] lin2_H [OF g, of 1] smul_1 [OF assms(1)]
    by (simp add: neg_eq_Inr)
  show ?thesis
    by (simp add: commit_valid [OF assms] n add_valid lin2_valid [OF g] lin2_add [OF g])
qed

lemma always_bind2:
  assumes "always E (\<lambda>(a, b). Q a b) m" and "\<And>a b. Q a b \<Longrightarrow> always E P (f a b)"
  shows "always E P (ebind m (\<lambda>(a, b). f a b))"
  by (rule always_bind [OF assms(1)]) (auto intro: assms(2))

lemma always_point_challenge:
  assumes "challenge_units keccak" and "challenge_failures keccak E" and "valid_point C p" and "valid_point C q"
  shows "always E (\<lambda>(c, T'). sol_isScalar c \<and> unit_scalar c \<and>
      sol_challengeForPoints keccak (rt_prefix T) (stageTags keccak stage) p q = Inr (rt_prefix T', c))
    (elift (rbind (point_pair_bytes C p q) (challenge keccak T stage)))"
  using always_challenge [OF assms(1,2)]
  by (simp add: point_pair_words [OF assms(3,4)] sol_challengeForPoints_def del: sol_words_Cons)

lemma always_scalar_challenge:
  assumes "challenge_units keccak" and "challenge_failures keccak E" and "sol_isScalar a" and "sol_isScalar b" and "sol_isScalar c"
  shows "always E (\<lambda>(u, T'). sol_isScalar u \<and> unit_scalar u \<and>
      sol_challengeForScalars keccak (rt_prefix T) a b c = Inr (rt_prefix T', u))
    (elift (rbind (mapM word256 [a, b, c]) (\<lambda>ws. challenge keccak T stage_u (concat_parts ws))))"
proof -
  have "rbind (mapM word256 [a, b, c]) (\<lambda>ws. challenge keccak T stage_u (concat_parts ws))
      = challenge keccak T stage_u (sol_words [a, b, c])"
    using assms by (simp add: word256_scalar concat_parts_def)
  then show ?thesis
    using always_challenge [OF assms(1,2), of T stage_u "sol_words [a, b, c]"]
    by (simp add: sol_challengeForScalars_def del: sol_words_Cons)
qed

lemma always_bindInner:
  assumes "valid_point C p" and "valid_point C u"
    and "\<And>T'. rt_prefix T' = sol_enterInner keccak (rt_prefix T) p u \<Longrightarrow> always E P (f T')"
  shows "always E P (ebind (elift (bindInner C keccak T p u)) f)"
  by (rule bindInner_eq [OF assms(1,2), of keccak T]) (simp add: always_known assms(3))

lemma powers_eq: "mapM (\<lambda>i. powq y (int i)) [0..<64] = Inr (vecf (\<lambda>i. y ^ i mod Q_mod))"
  unfolding vecf_def by (rule mapM_total) (simp add: powq_eq)

lemma adjusted_eq:
  assumes C: "curve_laws C" and g: "generators_valid C" and y: "unit_scalar y"
  shows "mapM (\<lambda>(point, yi). rbind (inverseq yi) (mul C point)) (zip HS (vecf (\<lambda>i. y ^ i mod Q_mod)))
    = Inr (map2 (smul C) HS (vecf (\<lambda>i. inverse_of (y ^ i))))"
proof -
  have H: "valid_points C HS" using valid_GS_HS [OF g] by simp
  have inv: "inverseq (y ^ i mod Q_mod) = Inr (inverse_of (y ^ i))" for i
    using unit_nonzero [OF unit_power [OF y], of i] inverse_mod [of "y ^ i"]
    by (simp add: inverseq_eq_Inr inverse_of_def)
  have m: "mul C p (inverse_of k) = Inr (smul C p (inverse_of k))" if "valid_point C p" for p k
    using that by (simp add: mul_valid inverse_of_def)
  have "mapM (\<lambda>(point, yi). rbind (inverseq yi) (mul C point)) (zip ps (map (\<lambda>i. y ^ i mod Q_mod) ns))
    = Inr (map2 (smul C) ps (map (\<lambda>i. inverse_of (y ^ i)) ns))" if "valid_points C ps" for ps ns
    using that
  proof (induction ps arbitrary: ns)
    case (Cons p ps)
    then show ?case by (cases ns) (simp_all add: inv m)
  qed simp
  from this [OF H] show ?thesis by (simp add: vecf_def)
qed

lemma valid_adjusted: "curve_laws C \<Longrightarrow> valid_points C ps \<Longrightarrow> valid_points C (map2 (smul C) ps ks)"
  by (induction ps ks rule: list_induct2') (auto intro: smul_valid)

lemma inner_commit_eq:
  assumes C: "curve_laws C" and v: "valid_points C ps" "valid_points C qs" "valid_point C u"
    and l: "length ks = length ps" "length ls = length qs" and t: "sol_isScalar t"
  shows "rbind (multi C ps ks) (\<lambda>p. rbind (multi C qs ls) (\<lambda>q. rbind (mul C u t) (\<lambda>r. sum_points C [p, q, r])))
    = Inr (curve_add C (curve_add C (msm C ps ks) (msm C qs ls)) (smul C u t))"
  using assms by (simp add: multi_eq sol_isScalar_def mul_valid sum_points3 msm_valid smul_valid)

section \<open>The vectors of the body\<close>

lemma modq_mod [simp]: "modq k mod Q_mod = k mod Q_mod"
  by (simp add: modq_eq)

lemma modq_scalar [simp]: "sol_isScalar (modq k)"
  by (simp add: sol_isScalar_def)

lemma left_constant_vec: "vec_is (map (\<lambda>bit. modq (bit - z)) (vecf b)) (\<lambda>i. b i - z)"
  by (rule vec_isI) simp_all

lemma right_constant_vec:
  "vec_is (mapi (\<lambda>i bit. modq (vecf (\<lambda>i. y ^ i mod Q_mod) ! i * (bit - 1 + z) + modq (z * z) * push_bit i 1)) (vecf b))
     (\<lambda>i. y ^ i * (b i - 1 + z) + z * z * 2 ^ i)"
proof (rule vec_isI)
  fix i :: nat
  assume "i < 64"
  then show "mapi (\<lambda>i bit. modq (vecf (\<lambda>i. y ^ i mod Q_mod) ! i * (bit - 1 + z) + modq (z * z) * push_bit i 1)) (vecf b) ! i
      mod Q_mod = (y ^ i * (b i - 1 + z) + z * z * 2 ^ i) mod Q_mod"
    by (simp add: modq_eq push_bit_eq_mult) (intro mod_add_cong mod_mult_cong; simp)
qed simp

lemma right_linear_vec:
  "length rm = 64 \<Longrightarrow> vec_is (mapi (\<lambda>i s. modq (vecf (\<lambda>i. y ^ i mod Q_mod) ! i * s)) rm) (\<lambda>i. y ^ i * rm ! i)"
  by (rule vec_isI) (simp_all add: modq_eq mod_mult_left_eq)

lemma blend_vec:
  assumes "vec_is cs F" and "vec_is ls G"
  shows "vec_is (mapi (\<lambda>i s. modq (s + ls ! i * x)) cs) (\<lambda>i. F i + G i * x)"
proof (rule vec_isI)
  fix i :: nat
  assume i: "i < 64"
  then have "mapi (\<lambda>i s. modq (s + ls ! i * x)) cs ! i mod Q_mod = (cs ! i + ls ! i * x) mod Q_mod"
    using assms by (simp add: vec_is_def)
  also have "\<dots> = (F i + G i * x) mod Q_mod"
    using assms i by (intro mod_add_cong mod_mult_cong) (simp_all add: vec_is_def)
  finally show "mapi (\<lambda>i s. modq (s + ls ! i * x)) cs ! i mod Q_mod = (F i + G i * x) mod Q_mod" .
qed (use assms in \<open>simp add: vec_is_def\<close>)

lemma mapi_scalars: "list_all sol_isScalar (mapi (\<lambda>i s. modq (f i s)) xs)"
  by (auto simp: mapi_def list_all_iff)

lemma vec_is_nth: "length xs = 64 \<Longrightarrow> vec_is xs (\<lambda>i. xs ! i)"
  by (simp add: vec_is_def)

lemma vec3_vec: "vec_is l F \<Longrightarrow> vec_is r G \<Longrightarrow> vec3 C l r k = vec3 C (vecf F) (vecf G) k"
  by (simp add: vec3_def msm_vec)

lemma coefficient_equation:
  assumes v: "0 \<le> v" "v < 2 ^ 64" and b: "b = amount_bit v"
    and lc: "vec_is lc (\<lambda>i. b i - z)" and rc: "vec_is rc (\<lambda>i. y ^ i * (b i - 1 + z) + z * z * 2 ^ i)"
    and lm: "length lm = 64" and rl: "vec_is rl (\<lambda>i. y ^ i * rm ! i)"
    and le: "vec_is le (\<lambda>i. b i - z + lm ! i * x)"
    and re: "vec_is re (\<lambda>i. y ^ i * (b i - 1 + z) + z * z * 2 ^ i + y ^ i * rm ! i * x)"
  shows "inner_product le re mod Q_mod = (z * z * v + delta_term y z
      + x * modq (modq (inner_product lm rc) + modq (inner_product lc rl)) + x * x * modq (inner_product lm rl)) mod Q_mod"
proof -
  let ?R = "\<lambda>i. y ^ i * (b i - 1 + z) + z * z * 2 ^ i"
  let ?p = "\<Sum>i<64. lm ! i * ?R i" and ?q = "\<Sum>i<64. (b i - z) * (y ^ i * rm ! i)"
    and ?s = "\<Sum>i<64. lm ! i * (y ^ i * rm ! i)"
  have const: "(\<Sum>i<64. (b i - z) * ?R i) = z * z * v + delta_term y z"
    using constant_term [of b z y] amount_bit_sum [OF v] by (simp add: b amount_bit_square delta_term_def)
  have "inner_product le re mod Q_mod = (\<Sum>i<64. (b i - z + lm ! i * x) * (?R i + y ^ i * rm ! i * x)) mod Q_mod"
    by (rule inner_product_vec [OF le re])
  also have "\<dots> = (z * z * v + delta_term y z + x * (?p + ?q) + x * x * ?s) mod Q_mod"
    unfolding product_terms const ..
  also have "\<dots> = (z * z * v + delta_term y z + x * modq (modq (inner_product lm rc) + modq (inner_product lc rl))
      + x * x * modq (inner_product lm rl)) mod Q_mod"
  proof (intro mod_add_cong mod_mult_cong refl)
    have "(?p + ?q) mod Q_mod = (inner_product lm rc + inner_product lc rl) mod Q_mod"
      using inner_product_vec [OF vec_is_nth [OF lm] rc] inner_product_vec [OF lc rl]
      by (intro mod_add_cong) simp_all
    then show "(?p + ?q) mod Q_mod = modq (modq (inner_product lm rc) + modq (inner_product lc rl)) mod Q_mod"
      by (simp add: modq_eq mod_add_eq)
    show "?s mod Q_mod = modq (inner_product lm rl) mod Q_mod"
      using inner_product_vec [OF vec_is_nth [OF lm] rl] by simp
  qed
  finally show ?thesis .
qed

lemma body_final:
  assumes C: "curve_laws C" and g: "generators_valid C" and v: "0 \<le> v" "v < 2 ^ 64" and b: "b = amount_bit v"
    and body: "body = \<lparr>C_range = K, rb_A = A, rb_S = S, rb_T1 = T1, rb_T2 = T2, tauX = tau, rb_mu = mu,
        rb_t = t, rb_le = le, rb_re = re, rb_g = GS, hAdjusted = hAdj, uPoint = u, innerPoint = inner,
        rb_transcript = tr\<rparr>"
    and K: "K = lin2 C v r"
    and A: "A = vec3 C (vecf b) (map (\<lambda>bit. modq (bit - 1)) (vecf b)) alpha" and S: "S = vec3 C lm rm rho"
    and T: "T1 = lin2 C t1 tau1" "T2 = lin2 C t2 tau2"
    and ch: "sol_challengeForPoints keccak (sol_initialPrefix keccak opId idx K) (tag keccak ''ecu/bp/y/v3'') A S = Inr (s1, y)"
      "sol_challengeStep keccak s1 (tag keccak ''ecu/bp/z/v3'') [] = Inr (s2, z)"
      "sol_challengeForPoints keccak s2 (tag keccak ''ecu/bp/x/v3'') T1 T2 = Inr (s3, x)"
      "sol_challengeForScalars keccak s3 tau mu t = Inr (s4, uc)"
    and sc: "sol_isScalar y" "sol_isScalar z" "sol_isScalar x" "sol_isScalar uc" and y: "unit_scalar y"
    and len: "length lm = 64" "length rm = 64"
    and le: "le = mapi (\<lambda>i s. modq (s + lm ! i * x)) lc" and re: "re = mapi (\<lambda>i s. modq (s + rl ! i * x)) rc"
    and lc: "lc = map (\<lambda>bit. modq (bit - z)) (vecf b)"
    and rc: "rc = mapi (\<lambda>i bit. modq (vecf (\<lambda>i. y ^ i mod Q_mod) ! i * (bit - 1 + z) + modq (z * z) * push_bit i 1)) (vecf b)"
    and rl: "rl = mapi (\<lambda>i s. modq (vecf (\<lambda>i. y ^ i mod Q_mod) ! i * s)) rm"
    and t1: "t1 = modq (modq (inner_product lm rc) + modq (inner_product lc rl))" and t2: "t2 = modq (inner_product lm rl)"
    and hAdj: "hAdj = map2 (smul C) HS (vecf (\<lambda>i. inverse_of (y ^ i)))" and t: "t = modq (inner_product le re)"
    and tau: "tau = modq (modq (z * z) * r + tau1 * x + tau2 * x * x)" and mu: "mu = modq (alpha + rho * x)"
    and u: "u = smul C H_base uc"
    and inner: "inner = curve_add C (curve_add C (msm C GS le) (msm C hAdj re)) (smul C u t)"
    and T5: "rt_prefix tr = sol_enterInner keccak s4 inner u"
  shows "C_range body = K \<and> body_shape C body \<and> body_verifies C keccak opId idx body"
proof -
  have G: "valid_points C GS" and H: "valid_points C HS" using valid_GS_HS [OF g] by simp_all
  have ha: "valid_points C hAdj" "length hAdj = 64" by (simp_all add: hAdj valid_adjusted C H length_HS)
  have vu: "valid_point C u" by (simp add: u smul_valid C generators_base [OF g])
  have lc': "vec_is lc (\<lambda>i. b i - z)" unfolding lc by (rule left_constant_vec)
  have rc': "vec_is rc (\<lambda>i. y ^ i * (b i - 1 + z) + z * z * 2 ^ i)" unfolding rc by (rule right_constant_vec)
  have rl': "vec_is rl (\<lambda>i. y ^ i * rm ! i)" unfolding rl by (rule right_linear_vec [OF len(2)])
  have le': "vec_is le (\<lambda>i. b i - z + lm ! i * x)"
    unfolding le by (rule blend_vec [OF lc' vec_is_nth [OF len(1)]])
  have re': "vec_is re (\<lambda>i. y ^ i * (b i - 1 + z) + z * z * 2 ^ i + y ^ i * rm ! i * x)"
    unfolding re by (rule blend_vec [OF rc' rl'])
  have len': "length le = 64" "length re = 64" using le' re' by (simp_all add: vec_is_def)
  have sh: "vec_is (map (\<lambda>bit. modq (bit - 1)) (vecf b)) (\<lambda>i. b i - 1)" by (rule left_constant_vec)
  have ut: "smul C u t = smul C u (inner_product le re)" by (simp add: t)
  have "body_shape C body"
    using G H ha vu len'
    by (simp add: body_shape_def body_wf_def body length_GS A S T K vec3_valid C g lin2_valid inner
        laws_add_valid msm_valid smul_valid ut le re mapi_scalars tau mu t)
  moreover have "curve_add C (curve_add C (curve_add C (smul C T1 x) (smul C T2 (x * x)))
       (smul C K (z * z))) (smul C H_base (delta_term y z)) = curve_add C (smul C H_base t) (smul C G_base tau)"
    unfolding T K
  proof (rule polynomial_equation [OF C g])
    show "t mod Q_mod = (z * z * v + delta_term y z + x * t1 + x * x * t2) mod Q_mod"
      using coefficient_equation [OF v b lc' rc' len(1) rl' le' re'] by (simp add: t t1 t2)
    show "tau mod Q_mod = (z * z * r + tau1 * x + tau2 * x * x) mod Q_mod"
      unfolding tau modq_mod by (intro mod_add_cong mod_mult_cong refl) simp
  qed
  moreover have "curve_add C (curve_add C (curve_add C (curve_add C (curve_add C A (smul C S x))
       (smul C (msm C GS (replicate 64 1)) (- z)))
       (msm C hAdj (vecf (\<lambda>i. y ^ i * z + 2 ^ i * (z * z))))) (curve_neg C (smul C G_base mu))) (smul C u t) = inner"
    unfolding A S inner vec3_vec [OF vec_is_vecf sh] vec3_vec [OF vec_is_nth [OF len(1)] vec_is_nth [OF len(2)]]
    by (rule inner_equation [OF C g y le' re' _ smul_valid [OF C vu] hAdj]) (simp add: mu)
  ultimately show ?thesis
    using sc y ch T5
    by (auto simp: body_verifies_def body u hAdj [symmetric])
qed

lemma dots_eq:
  "length xs = length ys \<Longrightarrow> length us = length vs \<Longrightarrow>
   rbind (dot xs ys) (\<lambda>a. rbind (dot us vs) (\<lambda>b. Inr (modq (a + b)))) =
   Inr (modq (modq (inner_product xs ys) + modq (inner_product us vs)))"
  by (simp add: dot_eq)

lemma build_body:
  assumes C: "curve_laws C" and g: "generators_valid C" and units: "challenge_units keccak"
    and fail: "challenge_failures keccak E" and src: "always E sol_isScalar (nextScalar source)"
    and o': "valid_opening o'" and opId: "length operationId = 32" and idx: "0 \<le> outputIndex" "outputIndex < 2 ^ 256"
  shows "always E (\<lambda>body. C_range body = lin2 C (amount o' - 1) (blinding o') \<and>
      body_shape C body \<and> body_verifies C keccak operationId outputIndex body)
    (buildRangeBody C keccak o' operationId outputIndex source)"
proof -
  let ?v = "amount o' - 1" and ?r = "blinding o'"
  let ?K = "lin2 C ?v ?r"
  have v: "0 \<le> ?v" "?v < 2 ^ 64" using o' by (simp_all add: valid_opening_def M_max_eq)
  have i1: "\<not> (amount o' < 1 \<or> amount o' > M_max \<or> blinding o' < 0 \<or> blinding o' \<ge> Q_mod)"
    using o' by (simp add: valid_opening_def)
  have i2: "\<not> (length operationId \<noteq> 32 \<or> outputIndex < 0 \<or> outputIndex \<ge> push_bit 256 1)"
    using opId idx by simp
  obtain T0 where T0: "new_transcript C keccak operationId outputIndex ?K = Inr T0"
    "rt_prefix T0 = sol_initialPrefix keccak operationId outputIndex ?K"
    by (rule new_transcript_eq [OF lin2_valid [OF C g] opId idx])
  have vG: "valid_points C GS" "length GS = 64" and H: "valid_points C HS" "length HS = 64"
    using valid_GS_HS [OF g] by (simp_all add: length_GS length_HS)
  note bases = generators_base [OF g]
  have mulH: "mul C H_base k = Inr (smul C H_base k)" if "sol_isScalar k" for k
    using that bases by (simp add: mul_valid sol_isScalar_def)
  show ?thesis
    unfolding buildRangeBody_def Let_def if_not_P [OF i1] if_not_P [OF i2] amount_bits_eq
    apply (rule always_known [OF commit_shift [OF C g o']])
    apply (rule always_bind [OF always_scalars [OF src]], rule always_bind [OF always_scalars [OF src]])
    apply (rule always_bind [OF src], rule always_bind [OF src])
    apply (rule always_known, (rule vector_commit_eq [OF C g]; simp))
    apply (rule always_known, (rule vector_commit_eq [OF C g]; simp))
    apply (rule always_known [OF T0(1)])
    apply (rule always_bind2 [OF always_point_challenge [OF units fail vec3_valid [OF C g] vec3_valid [OF C g]]])
    apply (rule always_bind2 [OF always_challenge [OF units fail]])
    apply (rule always_known [OF powers_eq])
    apply (rule always_known, (rule dots_eq; simp))
    apply (rule always_known, (rule dot_eq; simp))
    apply (rule always_bind [OF src], rule always_bind [OF src])
    apply (rule always_known, (rule two_commit_eq [OF C g]; simp))
    apply (rule always_known, (rule two_commit_eq [OF C g]; simp))
    apply (rule always_bind2 [OF always_point_challenge [OF units fail lin2_valid [OF C g] lin2_valid [OF C g]]])
    apply (rule always_known, (rule adjusted_eq [OF C g]; simp))
    apply (rule always_known, (rule dot_eq; simp))
    apply (rule always_bind2, rule always_scalar_challenge [OF units fail]; (rule modq_scalar)?)
    apply (rule always_known, (rule mulH; simp))
    apply (rule always_known, (rule inner_commit_eq [OF C vG(1) valid_adjusted [OF C H(1)] smul_valid [OF C bases(1)]];
        simp add: vG(2) H(2)))
    apply (rule always_bindInner)
      apply (simp add: laws_add_valid msm_valid smul_valid C vG H bases valid_adjusted)
     apply (simp add: smul_valid C bases)
    apply (rule always_return)
    apply (elim conjE)
    apply (simp only: T0(2) stageTags.simps)
    apply (rule body_final [OF C g v refl refl])
                        apply (assumption | rule refl | (simp only: length_upt diff_zero))+
    done
qed

section \<open>Acceptance\<close>

lemma sol_inverseScale_eq:
  assumes C: "curve_laws C" and g: "generators_valid C" and y: "unit_scalar y"
  shows "sol_inverseScaleGenerators C (vecf (\<lambda>i. y ^ i mod Q_mod)) = Inr (map2 (smul C) HS (vecf (\<lambda>i. inverse_of (y ^ i))))"
proof -
  have H: "valid_points C HS" using valid_GS_HS [OF g] by simp
  have "sol_inverseScaleGenerators C (vecf (\<lambda>i. y ^ i mod Q_mod))
      = Inr (map (\<lambda>i. smul C (HS ! i) (inverse_of (y ^ i))) [0..<64])"
    unfolding sol_inverseScaleGenerators_def
  proof (rule mapM_total)
    fix i :: nat
    assume "i \<in> set [0..<64]"
    then have i: "i < 64" by simp
    have "valid_point C (HS ! i)" using H i by (simp add: valid_points_def list_all_length length_HS)
    moreover have "sol_isScalar (inverse_of (y ^ i))" by (simp add: inverse_of_def)
    ultimately show "rbind (sol_invScalar (vecf (\<lambda>i. y ^ i mod Q_mod) ! i)) (sol_mul C (HS ! i))
        = Inr (smul C (HS ! i) (inverse_of (y ^ i)))"
      using i unit_power [OF y, of i] by (simp add: sol_invScalar_eq inverse_mod sol_mul_eq C)
  qed
  also have "map (\<lambda>i. smul C (HS ! i) (inverse_of (y ^ i))) [0..<64] = map2 (smul C) HS (vecf (\<lambda>i. inverse_of (y ^ i)))"
    by (intro nth_equalityI) (simp_all add: length_HS)
  finally show ?thesis .
qed

lemma columns_point: "length ps = 6 \<Longrightarrow> i < 6 \<Longrightarrow> sol_point (columns ps) i (6 + i) = ps ! i"
  by (simp add: sol_point_def columns_def nth_append)

lemma columns_points: "length ps = 6 \<Longrightarrow> map (\<lambda>i. sol_point (columns ps) i (6 + i)) [0..<6] = ps"
  by (intro nth_equalityI) (simp_all add: columns_point)

lemma columns_valid: "length ps = 6 \<Longrightarrow> valid_points C ps \<Longrightarrow> i < 6 \<Longrightarrow> valid_point C (sol_point (columns ps) i (6 + i))"
  by (simp add: columns_point valid_points_def list_all_length)

lemma decode_proof:
  assumes "list_all (valid_point C) [K, A, S, T1, T2]" and "list_all sol_isScalar [tau, mu, t, a, b]"
    and "length Ls = 6" "length Rs = 6" "valid_points C Ls" "valid_points C Rs"
  shows "sol_decodeProof C (concat (map pointPair [K, A, S, T1, T2])) [tau, mu, t, a, b] (columns Ls) (columns Rs)
    = Inr \<lparr>vp_A = A, vp_S = S, vp_T1 = T1, vp_T2 = T2, vp_tauX = tau, vp_mu = mu, vp_t = t,
        vp_left = Ls, vp_right = Rs, vp_a = a, vp_b = b\<rparr>"
proof -
  have p: "sol_point (concat (map pointPair [K, A, S, T1, T2])) 0 1 = K"
    "sol_point (concat (map pointPair [K, A, S, T1, T2])) 2 3 = A"
    "sol_point (concat (map pointPair [K, A, S, T1, T2])) 4 5 = S"
    "sol_point (concat (map pointPair [K, A, S, T1, T2])) 6 7 = T1"
    "sol_point (concat (map pointPair [K, A, S, T1, T2])) 8 9 = T2"
    by (simp_all add: sol_point_def pointPair_def)
  have l: "length (concat (map pointPair [K, A, S, T1, T2])) = 10" "length (columns Ls) = 12" "length (columns Rs) = 12"
    using assms by (simp_all add: pointPair_def columns_def)
  have v: "list_all (\<lambda>i. valid_point C (sol_point (columns Ls) i (6 + i)) \<and> valid_point C (sol_point (columns Rs) i (6 + i))) [0..<6]"
    unfolding list_all_iff using assms(3-6) columns_valid by auto
  show ?thesis
    using assms v unfolding sol_decodeProof_def p columns_points [OF assms(3)] columns_points [OF assms(4)]
    by (simp add: l del: concat.simps list.map)
qed

lemma satisfies_polynomial:
  assumes C: "curve_laws C" and g: "generators_valid C" and v: "list_all (valid_point C) [K, vp_T1 pr, vp_T2 pr]"
    and s: "list_all sol_isScalar [x, vp_t pr, vp_tauX pr]"
    and e: "curve_add C (curve_add C (curve_add C (smul C (vp_T1 pr) x) (smul C (vp_T2 pr) (x * x)))
       (smul C K (z * z))) (smul C H_base (delta_term y z)) = curve_add C (smul C H_base (vp_t pr)) (smul C G_base (vp_tauX pr))"
  shows "sol_satisfiesPolynomialCommitment C K pr x (z * z mod Q_mod) (delta_term y z mod Q_mod) = Inr True"
  using assms generators_base [OF g]
  by (simp add: sol_satisfiesPolynomialCommitment_def sol_mul_eq sol_add_eq sol_scalar_eq smul_valid laws_add_valid samePoint_iff)

lemma derive_inner:
  assumes C: "curve_laws C" and g: "generators_valid C" and v: "list_all (valid_point C) [vp_A pr, vp_S pr, u]"
    and s: "list_all sol_isScalar [x, z, vp_t pr, vp_mu pr]" and h: "valid_points C hs" "length hs = 64"
  shows "sol_deriveInnerCommitment C pr (vecf (\<lambda>i. y ^ i mod Q_mod)) z (z * z mod Q_mod) x u hs =
    Inr (curve_add C (curve_add C (curve_add C (curve_add C (curve_add C (vp_A pr) (smul C (vp_S pr) x))
       (smul C (msm C GS (replicate 64 1)) (- z))) (msm C hs (vecf (\<lambda>i. y ^ i * z + 2 ^ i * (z * z)))))
       (curve_neg C (smul C G_base (vp_mu pr)))) (smul C u (vp_t pr)))"
proof -
  have G: "valid_points C GS" using valid_GS_HS [OF g] by simp
  let ?ys = "vecf (\<lambda>i. y ^ i mod Q_mod)"
  let ?es = "map (\<lambda>i. (?ys ! i * z + 2 ^ i * (z * z mod Q_mod)) mod Q_mod) [0..<64]"
  obtain p where p: "sol_exponents ?ys z (z * z mod Q_mod) = Inr (?es, p)"
    using sol_exponents_eq [of z "z * z mod Q_mod" ?ys] s by (auto simp: vecf_def list_all_iff)
  have es: "vec_is ?es (\<lambda>i. y ^ i * z + 2 ^ i * (z * z))"
    by (rule vec_isI, simp, simp, rule mod_add_cong) (simp_all add: mod_simps)
  have c: "sol_commit C hs ?es = Inr (msm C hs (vecf (\<lambda>i. y ^ i * z + 2 ^ i * (z * z))))"
    using sol_commit_eq [OF C h, of ?es] msm_vec [OF es] by (simp add: list_all_iff)
  show ?thesis
    unfolding sol_deriveInnerCommitment_def p
    using v s generators_base [OF g] h
    by (simp add: c sol_scalar_eq(4) [of z z] sol_sumPoints_eq [OF C G length_GS] sol_mul_eq sol_add_eq sol_scalar_eq sol_neg_eq C smul_valid
        laws_add_valid msm_valid G laws_neg_valid)
qed

lemma delta_scalars:
  assumes z: "sol_isScalar z"
  shows "rbind (sol_sumScalars (vecf (\<lambda>i. y ^ i mod Q_mod))) (\<lambda>total.
     rbind (sol_subScalar z (z * z mod Q_mod)) (\<lambda>d1.
     rbind (sol_mulScalar total d1) (\<lambda>d2.
     rbind (sol_mulScalar (z * z mod Q_mod * z mod Q_mod) 18446744073709551615) (\<lambda>d3.
     rbind (sol_subScalar d2 d3) k)))) = k (delta_term y z mod Q_mod)"
proof -
  have "sum_list (vecf (\<lambda>i. y ^ i mod Q_mod)) = (\<Sum>i<64. y ^ i mod Q_mod)"
    by (simp add: vecf_def interv_sum_list_conv_sum_set_nat atLeast0LessThan)
  then have "sol_sumScalars (vecf (\<lambda>i. y ^ i mod Q_mod)) = Inr ((\<Sum>i<64. y ^ i) mod Q_mod)"
    using sol_sumScalars_eq [of "vecf (\<lambda>i. y ^ i mod Q_mod)"] by (simp add: vecf_def list_all_iff mod_sum_eq)
  moreover have "((\<Sum>i<64. y ^ i) mod Q_mod * ((z - z * z mod Q_mod) mod Q_mod) mod Q_mod
      - z * z mod Q_mod * z mod Q_mod * 18446744073709551615 mod Q_mod) mod Q_mod = delta_term y z mod Q_mod"
    unfolding delta_term_def by (intro mod_diff_cong; simp add: mod_simps)
  ultimately show ?thesis using z by (simp add: sol_scalar_eq)
qed

lemma accepted_body:
  assumes C: "curve_laws C" and g: "generators_valid C" and units: "challenge_units keccak"
    and shape: "body_shape C body" and ver: "body_verifies C keccak opId idx body"
    and fin: "finishRangeBody C keccak body = Inr pf"
  shows "sol_verify_range C keccak opId idx (coords pf) (scalars pf) (rp_ls pf) (rp_rs pf) = Inr True"
    and "take 2 (coords pf) = pointPair (C_range body)"
proof -
  from shape have wf: "body_wf C body" and g': "rb_g body = GS"
    and v: "list_all (valid_point C) [C_range body, rb_A body, rb_S body, rb_T1 body, rb_T2 body]"
    and s: "list_all sol_isScalar [tauX body, rb_mu body, rb_t body]"
    and le: "list_all sol_isScalar (rb_le body)" and re: "list_all sol_isScalar (rb_re body)"
    and P: "innerPoint body = curve_add C (curve_add C (msm C GS (rb_le body)) (msm C (hAdjusted body) (rb_re body)))
       (smul C (uPoint body) (inner_product (rb_le body) (rb_re body)))"
    by (simp_all add: body_shape_def)
  from sol_verifyInner_accepts [OF C units wf g' le re P fin] obtain Ls Rs a b where
    lr: "length Ls = 6" "length Rs = 6" "valid_points C Ls" "valid_points C Rs" and ab: "sol_isScalar a" "sol_isScalar b"
    and pf: "coords pf = concat (map pointPair [C_range body, rb_A body, rb_S body, rb_T1 body, rb_T2 body])"
      "scalars pf = [tauX body, rb_mu body, rb_t body, a, b]" "rp_ls pf = columns Ls" "rp_rs pf = columns Rs"
    and inner: "\<And>pr. vp_left pr = Ls \<Longrightarrow> vp_right pr = Rs \<Longrightarrow> vp_a pr = a \<Longrightarrow> vp_b pr = b \<Longrightarrow>
      sol_verifyInner C keccak (rt_prefix (rb_transcript body)) (innerPoint body) (uPoint body) (hAdjusted body) pr
        = Inr True" by metis
  show "take 2 (coords pf) = pointPair (C_range body)" by (simp add: pf pointPair_def)
  let ?pr = "\<lparr>vp_A = rb_A body, vp_S = rb_S body, vp_T1 = rb_T1 body, vp_T2 = rb_T2 body, vp_tauX = tauX body,
    vp_mu = rb_mu body, vp_t = rb_t body, vp_left = Ls, vp_right = Rs, vp_a = a, vp_b = b\<rparr>"
  have dec: "sol_decodeProof C (coords pf) (scalars pf) (rp_ls pf) (rp_rs pf) = Inr ?pr"
    unfolding pf by (rule decode_proof [OF v _ lr]) (use s ab in simp)
  have K: "sol_point (coords pf) 0 1 = C_range body" by (simp add: pf sol_point_def pointPair_def)
  from ver obtain y z x uc s1 s2 s3 s4 where
    ch: "sol_challengeForPoints keccak (sol_initialPrefix keccak opId idx (C_range body))
       (tag keccak ''ecu/bp/y/v3'') (rb_A body) (rb_S body) = Inr (s1, y)"
     "sol_challengeStep keccak s1 (tag keccak ''ecu/bp/z/v3'') [] = Inr (s2, z)"
     "sol_challengeForPoints keccak s2 (tag keccak ''ecu/bp/x/v3'') (rb_T1 body) (rb_T2 body) = Inr (s3, x)"
     "sol_challengeForScalars keccak s3 (tauX body) (rb_mu body) (rb_t body) = Inr (s4, uc)"
    and sc: "sol_isScalar y" "sol_isScalar z" "sol_isScalar x" "sol_isScalar uc" and y: "unit_scalar y"
    and u: "uPoint body = smul C H_base uc"
    and T: "rt_prefix (rb_transcript body) = sol_enterInner keccak s4 (innerPoint body) (uPoint body)"
    and h: "hAdjusted body = map2 (smul C) HS (vecf (\<lambda>i. inverse_of (y ^ i)))"
    and poly: "curve_add C (curve_add C (curve_add C (smul C (rb_T1 body) x) (smul C (rb_T2 body) (x * x)))
       (smul C (C_range body) (z * z))) (smul C H_base (delta_term y z)) =
       curve_add C (smul C H_base (rb_t body)) (smul C G_base (tauX body))"
    and drv: "curve_add C (curve_add C (curve_add C (curve_add C (curve_add C (rb_A body)
       (smul C (rb_S body) x)) (smul C (msm C GS (replicate 64 1)) (- z)))
       (msm C (hAdjusted body) (vecf (\<lambda>i. y ^ i * z + 2 ^ i * (z * z))))) (curve_neg C (smul C G_base (rb_mu body))))
       (smul C (uPoint body) (rb_t body)) = innerPoint body"
    unfolding body_verifies_def by auto
  have powers: "sol_powers y = Inr (vecf (\<lambda>i. y ^ i mod Q_mod))" using sol_powers_eq [OF sc(1)] by (simp add: vecf_def)
  have z2: "sol_mulScalar z z = Inr (z * z mod Q_mod)"
    "sol_mulScalar (z * z mod Q_mod) z = Inr (z * z mod Q_mod * z mod Q_mod)"
    using sc by (simp_all add: sol_scalar_eq)
  have sat: "sol_satisfiesPolynomialCommitment C (C_range body) ?pr x (z * z mod Q_mod) (delta_term y z mod Q_mod) = Inr True"
    by (rule satisfies_polynomial [OF C g]) (use v s sc poly in simp_all)
  have ip: "sol_mul C H_base uc = Inr (uPoint body)"
    using sc generators_base [OF g] by (simp add: sol_mul_eq C u)
  have hp: "sol_inverseScaleGenerators C (vecf (\<lambda>i. y ^ i mod Q_mod)) = Inr (hAdjusted body)"
    using sol_inverseScale_eq [OF C g y] by (simp only: h)
  have di: "sol_deriveInnerCommitment C ?pr (vecf (\<lambda>i. y ^ i mod Q_mod)) z (z * z mod Q_mod) x (uPoint body) (hAdjusted body)
      = Inr (innerPoint body)"
    unfolding drv [symmetric]
    by (subst derive_inner [OF C g]) (use v s sc wf in \<open>simp_all add: body_wf_def\<close>)
  have "sol_verifyRange C keccak (C_range body) ?pr (sol_initialPrefix keccak opId idx (C_range body)) = Inr True"
    using inner [of ?pr]
    by (simp add: sol_verifyRange_def ch powers z2 delta_scalars [OF sc(2)] sat ip hp di T)
  then show "sol_verify_range C keccak opId idx (coords pf) (scalars pf) (rp_ls pf) (rp_rs pf) = Inr True"
    by (simp add: sol_verify_range_def dec Let_def K [simplified])
qed

lemma generate_accepted:
  assumes C: "curve_laws C" and g: "generators_valid C" and units: "challenge_units keccak"
    and fail: "challenge_failures keccak E" and src: "always E sol_isScalar (nextScalar (secure_source getRandomValues))"
    and o': "valid_opening opening" and opId: "length operationId = 32" and idx: "0 \<le> outputIndex" "outputIndex < 2 ^ 256"
    and E: "E \<subseteq> range_failures"
  shows "case fst (generateRangeProof C keccak getRandomValues opening operationId outputIndex w) of
      Inl e \<Rightarrow> e \<in> E
    | Inr pf \<Rightarrow> take 2 (coords pf) = pointPair (lin2 C (amount opening - 1) (blinding opening)) \<and>
      sol_verify_range C keccak operationId outputIndex (coords pf) (scalars pf) (rp_ls pf) (rp_rs pf) = Inr True"
proof -
  let ?P = "\<lambda>pf. take 2 (coords pf) = pointPair (lin2 C (amount opening - 1) (blinding opening)) \<and>
      sol_verify_range C keccak operationId outputIndex (coords pf) (scalars pf) (rp_ls pf) (rp_rs pf) = Inr True"
  let ?m = "ebind (buildRangeBody C keccak opening operationId outputIndex (secure_source getRandomValues))
       (\<lambda>body. elift (finishRangeBody C keccak body))"
  have "always E ?P ?m"
  proof (rule always_bind [OF build_body [OF C g units fail src o' opId idx]], elim conjE, rule always_lift)
    fix body
    assume b: "C_range body = lin2 C (amount opening - 1) (blinding opening)" "body_shape C body"
      "body_verifies C keccak operationId outputIndex body"
    show "case finishRangeBody C keccak body of Inl e \<Rightarrow> e \<in> E | Inr pf \<Rightarrow> ?P pf"
    proof (cases "finishRangeBody C keccak body")
      case (Inl e)
      from b(2) have "body_wf C body" by (simp add: body_shape_def)
      from finishRangeBody_Inl [OF C units this Inl] fail show ?thesis
        by (auto simp: Inl challenge_failures_def)
    next
      case (Inr pf)
      with accepted_body [OF C g units b(2,3) Inr] b(1) show ?thesis by simp
    qed
  qed
  then have run: "case fst (?m w) of Inl e \<Rightarrow> e \<in> E | Inr pf \<Rightarrow> ?P pf" by (simp add: always_def)
  show ?thesis
  proof (cases "?m w")
    case (Pair r w1)
    with run E show ?thesis
      by (cases r) (auto simp: generateRangeProof_def ecatch_def range_failures_def)
  qed
qed

section \<open>Properties\<close>

text \<open>C6: For an opening that the code can commit to, \<open>generateRangeProof\<close> either returns a proof of the
  commitment less one value base that the contract's verifier, run from the same operation and output
  index, accepts (every challenge drawn again from the contract's own transcript), or throws because the
  random source failed, its 256 candidates were rejected, or the 256 attempts of a challenge were: no other
  failure is possible, whatever the source answers.  \<open>challenge_units\<close> is Fermat's theorem at the accepted
  hashes, which holds because \<open>Q\<close> is prime.\<close>

theorem range_proof_accepted:
  assumes "curve_laws C" and "generators_valid C" and "challenge_units keccak"
    and "commit C opening = Inr K" and "length operationId = 32" and "0 \<le> outputIndex" and "outputIndex < 2 ^ 256"
  shows "case fst (generateRangeProof C keccak getRandomValues opening operationId outputIndex w) of
    Inr pf \<Rightarrow> (\<exists>n shifted. neg C H_base = Inr n \<and> add C K n = Inr shifted \<and> take 2 (coords pf) = pointPair shifted) \<and>
      sol_verify_range C keccak operationId outputIndex (coords pf) (scalars pf) (rp_ls pf) (rp_rs pf) = Inr True
  | Inl e \<Rightarrow> e \<in> {CryptoFailure C_RANDOM ''scalar'', CryptoFailure C_SCALAR_EXHAUSTED ''scalar''} \<union>
      range (\<lambda>stage. CryptoFailure C_CHALLENGE_EXHAUSTED (stage_name stage))"
proof -
  have o': "valid_opening opening" using assms(4) by (simp add: commit_eq_Inr [OF assms(1,2)])
  obtain n where n: "neg C H_base = Inr n" "add C K n = Inr (lin2 C (amount opening - 1) (blinding opening))"
    using commit_shift [OF assms(1,2) o'] by (auto simp: assms(4) rbind_eq_Inr)
  show ?thesis
    using generate_accepted [OF assms(1-3) range_challenge_failures always_scalar o' assms(5-7) subset_refl,
        of getRandomValues w] n
    unfolding range_failures_def [symmetric] by (auto split: sum.splits)
qed

theorem range_proof_accepted_witness:
  "\<exists>pf. fst (generateRangeProof model_curve (\<lambda>_. word_loop 32 1 []) (\<lambda>n w. (Inr (word_loop 32 5 []), w))
      \<lparr>amount = 5, blinding = 3\<rparr> (replicate 32 0) 0 ()) = Inr pf \<and>
    sol_verify_range model_curve (\<lambda>_. word_loop 32 1 []) (replicate 32 0) 0 (coords pf) (scalars pf) (rp_ls pf) (rp_rs pf)
      = Inr True"
proof -
  note laws = model_curve_laws model_generators constant_units
  let ?k = "\<lambda>_. word_loop 32 1 []" and ?o = "\<lparr>amount = 5, blinding = 3\<rparr>"
    and ?rng = "\<lambda>(n::nat) (w::unit). (Inr (word_loop 32 5 []) :: octets res, w)"
  have o': "valid_opening ?o" by (simp add: valid_opening_def M_max_eq Q_mod_def)
  have c: "commit model_curve ?o = Inr (lin2 model_curve 5 3)"
    using o' by (simp add: commit_valid [OF laws(1,2)])
  have src: "always {} sol_isScalar (nextScalar (secure_source ?rng))"
  proof -
    have "bytesToBigInt (word_loop 32 5 []) = 5" by (rule bytesToBigInt_word_loop) auto
    then have five: "secure_source ?rng w = (Inr 5, w)" for w by (simp add: secure_source_def ebind_def)
    have "nextScalar (secure_source ?rng) w = (Inr 5, w)" for w
      unfolding nextScalar_def sampleScalar_def
      by (rule sample_loop_first [where cs = "[]"])
         (auto simp: five scalar_accepted_def Q_mod_def intro!: drawn.intros)
    then show ?thesis by (simp add: always_def sol_isScalar_def Q_mod_def)
  qed
  have fail: "challenge_failures ?k {}"
    using constant_transcript_challenge by (metis Inl_Inr_False challenge_failures_def)
  obtain pf where pf: "fst (generateRangeProof model_curve ?k ?rng ?o (replicate 32 0) 0 ()) = Inr pf"
    using generate_accepted [OF laws fail src o', of "replicate 32 0" 0 "()"] by (auto split: sum.splits)
  with range_proof_accepted [OF laws c, of "replicate 32 0" 0 ?rng "()"] show ?thesis by auto
qed

end
