(* ===== verification/CoreTypes.thy ===== *)
theory CoreTypes
  imports RangeFold
begin

text \<open>
  \<open>packages/core/src/types.ts\<close>: contexts, requests, checkpoints, observations and the ports of the core.
  A port is a record of effectful calls over a world.  \<open>viem\<close> is a library: its ABI encoder, its hash and
  its text helpers are a record that the definitions take as an argument.
\<close>

datatype FinalityMode = finalized | local_simulated

record Context =
  ctx_chainId :: int
  ctx_pool :: string
  ctx_deploymentBlock :: int
  ctx_verifier :: string
  ctx_parametersHash :: string
  ctx_finalityMode :: FinalityMode

record PublicOutput =
  out_owner :: string
  out_commitment :: G1Point
  out_receiptFormat :: int
  out_packet :: string

record OperationRequest =
  req_kind :: int
  req_owner :: string
  req_salt :: string
  req_inputIds :: "string list"
  req_outputs :: "PublicOutput list"
  req_d :: int
  req_w :: int
  req_destination :: string

record Checkpoint =
  cp_number :: int
  cp_hash :: string
  cp_mode :: FinalityMode

datatype CoinStatus = available | spent | pending | unknown

record OwnedUtxo =
  coin_id :: string
  coin_owner :: string
  coin_opening :: Opening
  coin_commitment :: G1Point
  coin_checkpoint :: Checkpoint
  coin_status :: CoinStatus
  coin_chainId :: int
  coin_pool :: string

datatype incomplete_reason = INC_RPC | INC_GAP | INC_HASH_MISMATCH

datatype 'a Observation =
    Complete string 'a
  | Incomplete incomplete_reason

record UtxoState =
  us_exists :: bool
  us_owner :: "string option"
  us_commitment :: "G1Point option"
  us_consumedBy :: "string option"

record OperationSuccess =
  os_executed :: bool
  os_operation :: "OperationRequest option"

record EventLog =
  ev_operationId :: string
  ev_blockNumber :: int
  ev_blockHash :: string
  ev_transactionHash :: string
  ev_transactionIndex :: int
  ev_logIndex :: int

record InputLog = EventLog +
  il_inputId :: string

record OutputLog = EventLog +
  ol_output :: PublicOutput
  ol_outputId :: string
  ol_outputIndex :: int

record ObservedOperation =
  ob_request :: OperationRequest
  ob_success :: "EventLog option"
  ob_inputLogs :: "InputLog list option"
  ob_outputLogs :: "OutputLog list"

record BlockHeader =
  hd_number :: int
  hd_hash :: string

record 'w HistoryPort =
  getFinalizedCheckpoint :: "('w, Checkpoint option) eff"
  getContext :: "Checkpoint \<Rightarrow> ('w, Context Observation) eff"
  getCanonicalHeader :: "int \<Rightarrow> Checkpoint \<Rightarrow> ('w, BlockHeader Observation) eff"
  getOperations :: "int \<Rightarrow> Checkpoint \<Rightarrow> ('w, ObservedOperation list Observation) eff"
  getUtxo :: "string \<Rightarrow> Checkpoint \<Rightarrow> ('w, UtxoState Observation) eff"
  getOperationSuccess :: "string \<Rightarrow> Checkpoint \<Rightarrow> ('w, OperationSuccess Observation) eff"
  getLatestHeader :: "('w, BlockHeader option) eff"
  getLatestUtxo :: "string \<Rightarrow> Checkpoint \<Rightarrow> ('w, UtxoState Observation) eff"
  getLatestOperationSuccess :: "string \<Rightarrow> Checkpoint \<Rightarrow> ('w, OperationSuccess Observation) eff"

record LocalDraft =
  dr_context :: Context
  dr_request :: OperationRequest
  dr_operationId :: string
  dr_outputIds :: "string list"
  dr_openings :: "Opening list"
  dr_inputOpenings :: "Opening list"
  dr_balanceProof :: BalanceProof
  dr_rangeProofs :: "RangeProof list"
  dr_signature :: "string option"

record 'w ReceiptKeyPort =
  getKey :: "string \<Rightarrow> ('w, octets) eff"
  getKeys :: "(string \<Rightarrow> ('w, octets list) eff) option"

datatype outer_status = outer_pending | outer_success | outer_failed | outer_unconfirmed

datatype attempt_failure = OUTER_REVERT | INTERNAL_REVERT

record SubmissionAttempt =
  sa_txHash :: "string option"
  sa_outer :: outer_status
  sa_blockNumber :: "int option"
  sa_blockHash :: "string option"
  sa_failure :: "attempt_failure option"

record OperationSuccessEvidence =
  se_context :: Context
  se_checkpoint :: Checkpoint
  se_event :: ObservedOperation
  se_record :: "OperationSuccess Observation"
  se_header :: "BlockHeader Observation"

datatype history_status = hs_reorg | hs_uncertain

record AttemptObservation = SubmissionAttempt +
  ao_evidence :: "OperationSuccessEvidence option"
  ao_historyStatus :: "history_status option"

record OperationTracking =
  ot_operationId :: string
  ot_attempts :: "SubmissionAttempt list"
  ot_successEvidence :: "OperationSuccessEvidence option"
  ot_executed :: bool
  ot_checkpoint :: "Checkpoint option"

section \<open>The viem library\<close>

text \<open>A value with its ABI type, as \<open>encodeAbiParameters\<close> takes them.\<close>

datatype abi_value =
    AbiBytes32 string
  | AbiUint256 int
  | AbiUint8 int
  | AbiAddress string
  | AbiBytes32Array "string list"

record viem =
  keccak256 :: "string \<Rightarrow> string"
  encodeAbiParameters :: "abi_value list \<Rightarrow> string res"
  stringToHex :: "string \<Rightarrow> string"
  hexToBytes :: "string \<Rightarrow> octets res"
  bytesToHex :: "octets \<Rightarrow> string"

fun same_abi :: "abi_value \<Rightarrow> abi_value \<Rightarrow> bool" where
  "same_abi (AbiBytes32 a) (AbiBytes32 b) = sameText a b"
| "same_abi (AbiUint256 a) (AbiUint256 b) = (a = b)"
| "same_abi (AbiUint8 a) (AbiUint8 b) = (a = b)"
| "same_abi (AbiAddress a) (AbiAddress b) = sameText a b"
| "same_abi (AbiBytes32Array as) (AbiBytes32Array bs) = list_all2 sameText as bs"
| "same_abi _ _ = False"

fun same_abi_type :: "abi_value \<Rightarrow> abi_value \<Rightarrow> bool" where
  "same_abi_type (AbiBytes32 a) (AbiBytes32 b) = True"
| "same_abi_type (AbiUint256 a) (AbiUint256 b) = True"
| "same_abi_type (AbiUint8 a) (AbiUint8 b) = True"
| "same_abi_type (AbiAddress a) (AbiAddress b) = True"
| "same_abi_type (AbiBytes32Array as) (AbiBytes32Array bs) = True"
| "same_abi_type _ _ = False"

text \<open>ABI encoding of a fixed list of types is injective up to the letter case of hexadecimal text.\<close>

definition abi_laws :: "viem \<Rightarrow> bool" where
  "abi_laws V \<longleftrightarrow> (\<forall>vs ws a b. encodeAbiParameters V vs = Inr a \<longrightarrow> encodeAbiParameters V ws = Inr b \<longrightarrow>
     sameText a b \<longrightarrow> list_all2 same_abi_type vs ws \<longrightarrow> list_all2 same_abi vs ws)"

text \<open>The conversions between bytes and hexadecimal text are inverse on what they produce.\<close>

definition hex_laws :: "viem \<Rightarrow> bool" where
  "hex_laws V \<longleftrightarrow> (\<forall>bs. bytes (bytesToHex V bs) (length bs) \<and> hexToBytes V (bytesToHex V bs) = Inr bs) \<and>
     (\<forall>s n. bytes s n \<longrightarrow> (\<exists>bs. hexToBytes V s = Inr bs \<and> length bs = n))"

text \<open>No two of the given preimages collide.\<close>

definition collision_free :: "viem \<Rightarrow> string set \<Rightarrow> bool" where
  "collision_free V S \<longleftrightarrow> (\<forall>a \<in> S. \<forall>b \<in> S. sameText (keccak256 V a) (keccak256 V b) \<longrightarrow> sameText a b)"

lemma collision_freeD:
  "collision_free V S \<Longrightarrow> a \<in> S \<Longrightarrow> b \<in> S \<Longrightarrow> sameText (keccak256 V a) (keccak256 V b) \<Longrightarrow> sameText a b"
  by (simp add: collision_free_def)

section \<open>Observations and contexts\<close>

text \<open>\<open>value\<close> of the core modules, with the failure that the module throws.\<close>

fun obs_value :: "failure \<Rightarrow> 'a Observation \<Rightarrow> Checkpoint \<Rightarrow> 'a res" where
  "obs_value e (Complete blockHash v) point = (if sameText blockHash (cp_hash point) then Inr v else Inl e)"
| "obs_value e (Incomplete _) point = Inl e"

lemma obs_value_eq_Inr:
  "obs_value e ob point = Inr v \<longleftrightarrow> (\<exists>h. ob = Complete h v \<and> sameText h (cp_hash point))"
  by (cases ob) auto

definition sameContext :: "Context \<Rightarrow> Context \<Rightarrow> bool" where
  "sameContext a b \<longleftrightarrow> ctx_chainId a = ctx_chainId b \<and> sameText (ctx_pool a) (ctx_pool b) \<and>
     ctx_deploymentBlock a = ctx_deploymentBlock b \<and> sameText (ctx_verifier a) (ctx_verifier b) \<and>
     sameText (ctx_parametersHash a) (ctx_parametersHash b) \<and> ctx_finalityMode a = ctx_finalityMode b"

definition position :: "int \<Rightarrow> bool" where
  "position n \<longleftrightarrow> isSafeInteger n \<and> n \<ge> 0"

end
