(* ===== verification/Encoding.thy ===== *)
theory Encoding
  imports CoreTypes
begin

text \<open>
  \<open>packages/core/src/encoding.ts\<close>: the shape of a request, and the identifiers that bind it: the receipt
  information, the operation identifier and the output identifiers.
\<close>

definition core_tag :: "viem \<Rightarrow> string \<Rightarrow> string" where
  "core_tag V label = keccak256 V (stringToHex V label)"

definition INFO_TAG :: "viem \<Rightarrow> string" where "INFO_TAG V = core_tag V ''ecu/hpke-info/v1''"
definition OUTPUT_TAG :: "viem \<Rightarrow> string" where "OUTPUT_TAG V = core_tag V ''ecu/output/v1''"
definition INPUTS_TAG :: "viem \<Rightarrow> string" where "INPUTS_TAG V = core_tag V ''ecu/inputs/v1''"
definition OUTPUTS_TAG :: "viem \<Rightarrow> string" where "OUTPUTS_TAG V = core_tag V ''ecu/outputs/v1''"
definition OP_TAG :: "viem \<Rightarrow> string" where "OP_TAG V = core_tag V ''ecu/operation/v1''"
definition OUTPUT_ID_TAG :: "viem \<Rightarrow> string" where "OUTPUT_ID_TAG V = core_tag V ''ecu/output-id/v1''"

definition requireInput :: "bool \<Rightarrow> string \<Rightarrow> unit res" where
  "requireInput condition stage = require condition (CoreFailure INVALID_INPUT (''encoding.'' @ stage))"

definition uint256 :: "int \<Rightarrow> bool" where
  "uint256 v \<longleftrightarrow> v \<ge> 0 \<and> v < push_bit 256 1"

definition index_position :: "int \<Rightarrow> int res" where
  "index_position index =
     rbind (requireInput (isSafeInteger index) ''index'') (\<lambda>_.
     rbind (requireInput (uint256 index) ''index'') (\<lambda>_. Inr index))"

fun check_inputs :: "string option \<Rightarrow> string list \<Rightarrow> unit res" where
  "check_inputs previous [] = Inr ()"
| "check_inputs previous (i # ids) =
     rbind (requireInput (bytes i 32) ''inputs'') (\<lambda>_.
     rbind (requireInput (case previous of None \<Rightarrow> True | Some p \<Rightarrow> BigInt_hex i > BigInt_hex p) ''inputs'') (\<lambda>_.
       check_inputs (Some i) ids))"

definition check_output :: "curve \<Rightarrow> PublicOutput \<Rightarrow> unit res" where
  "check_output C output =
     rbind (requireInput (bytes (out_owner output) 20) ''output.owner'') (\<lambda>_.
     rbind (requireInput (out_receiptFormat output = 1 \<and> bytes (out_packet output) 112) ''output.receipt'') (\<lambda>_.
     rbind (requireInput (uint256 (px (out_commitment output)) \<and> uint256 (py (out_commitment output))) ''output.commitment'') (\<lambda>_.
       recast (CoreFailure INVALID_INPUT ''encoding.output.commitment'') (validateCommitment C (out_commitment output)))))"

definition ownOutput :: "OperationRequest \<Rightarrow> nat \<Rightarrow> bool" where
  "ownOutput request i = sameText (out_owner (req_outputs request ! i)) (req_owner request)"

definition check_amounts :: "OperationRequest \<Rightarrow> unit res" where
  "check_amounts request =
     (let inputs = length (req_inputIds request); outputs = length (req_outputs request) in
      if req_kind request = 0 then
        rbind (requireInput (inputs = 0 \<and> outputs = 1 \<and> ownOutput request 0) ''deposit.outputs'') (\<lambda>_.
        requireInput (req_d request \<ge> 1 \<and> req_d request \<le> M_max \<and> req_w request = 0) ''deposit.amount'')
      else
        rbind (requireInput (inputs \<ge> 1 \<and> inputs \<le> 2 \<and> req_d request = 0) ''inputs'') (\<lambda>_.
        if req_kind request = 1 then
          rbind (requireInput (outputs \<ge> 1 \<and> outputs \<le> 2 \<and> (outputs = 1 \<or> ownOutput request 1)) ''transfer.outputs'') (\<lambda>_.
          requireInput (req_w request = 0) ''transfer.amount'')
        else
          rbind (requireInput (outputs \<le> 1 \<and> (outputs = 0 \<or> ownOutput request 0)) ''withdraw.outputs'') (\<lambda>_.
          requireInput (req_w request \<ge> 1 \<and> req_w request \<le> 2 * M_max) ''withdraw.amount'')))"

definition validateOperationShape :: "curve \<Rightarrow> OperationRequest \<Rightarrow> unit res" where
  "validateOperationShape C request =
     rbind (requireInput (req_kind request \<in> {0, 1, 2}) ''kind'') (\<lambda>_.
     rbind (requireInput (bytes (req_owner request) 20 \<and> bytes (req_destination request) 20) ''address'') (\<lambda>_.
     rbind (requireInput (bytes (req_salt request) 32) ''salt'') (\<lambda>_.
     rbind (requireInput (uint256 (req_d request) \<and> uint256 (req_w request)) ''amount'') (\<lambda>_.
     rbind (check_inputs None (req_inputIds request)) (\<lambda>_.
     rbind (mapM (check_output C) (req_outputs request)) (\<lambda>_.
     rbind (check_amounts request) (\<lambda>_.
     requireInput (if req_kind request = 2 then req_destination request \<noteq> zeroAddress
                   else req_destination request = zeroAddress) ''destination'')))))))"

definition receiptInfo :: "viem \<Rightarrow> Context \<Rightarrow> OperationRequest \<Rightarrow> int \<Rightarrow> string res" where
  "receiptInfo V context request index =
     rbind (index_position index) (\<lambda>i.
     rbind (requireInput (nat index < length (req_outputs request)) ''index'') (\<lambda>_.
     let output = req_outputs request ! nat index in
     rbind (encodeAbiParameters V
       [AbiBytes32 (INFO_TAG V), AbiUint256 (ctx_chainId context), AbiAddress (ctx_pool context),
        AbiUint8 (req_kind request), AbiBytes32 (req_salt request), AbiUint256 i, AbiAddress (out_owner output),
        AbiUint256 (px (out_commitment output)), AbiUint256 (py (out_commitment output)),
        AbiUint8 (out_receiptFormat output)]) (\<lambda>preimage. Inr (keccak256 V preimage))))"

definition inputs_values :: "viem \<Rightarrow> OperationRequest \<Rightarrow> abi_value list" where
  "inputs_values V request = [AbiBytes32 (INPUTS_TAG V), AbiBytes32Array (req_inputIds request)]"

definition output_values :: "viem \<Rightarrow> nat \<Rightarrow> PublicOutput \<Rightarrow> abi_value list" where
  "output_values V i output =
     [AbiBytes32 (OUTPUT_TAG V), AbiUint256 (int i), AbiAddress (out_owner output),
      AbiUint256 (px (out_commitment output)), AbiUint256 (py (out_commitment output)),
      AbiUint8 (out_receiptFormat output), AbiBytes32 (keccak256 V (out_packet output))]"

definition hash_values :: "viem \<Rightarrow> abi_value list \<Rightarrow> string res" where
  "hash_values V vs = rbind (encodeAbiParameters V vs) (\<lambda>preimage. Inr (keccak256 V preimage))"

definition operationPreimage :: "viem \<Rightarrow> Context \<Rightarrow> OperationRequest \<Rightarrow> string res" where
  "operationPreimage V context request =
     rbind (hash_values V (inputs_values V request)) (\<lambda>inputsHash.
     rbind (mapM (\<lambda>(i, output). hash_values V (output_values V i output))
              (zip [0..<length (req_outputs request)] (req_outputs request))) (\<lambda>hashes.
     rbind (hash_values V [AbiBytes32 (OUTPUTS_TAG V), AbiBytes32Array hashes]) (\<lambda>outputsHash.
     encodeAbiParameters V
       [AbiBytes32 (OP_TAG V), AbiUint256 (ctx_chainId context), AbiAddress (ctx_pool context),
        AbiUint8 (req_kind request), AbiAddress (req_owner request), AbiBytes32 (req_salt request),
        AbiBytes32 inputsHash, AbiBytes32 outputsHash, AbiUint256 (req_d request), AbiUint256 (req_w request),
        AbiAddress (req_destination request)])))"

definition operationId :: "viem \<Rightarrow> Context \<Rightarrow> OperationRequest \<Rightarrow> string res" where
  "operationId V context request =
     rbind (operationPreimage V context request) (\<lambda>preimage. Inr (keccak256 V preimage))"

definition outputId :: "viem \<Rightarrow> string \<Rightarrow> int \<Rightarrow> string res" where
  "outputId V opId index =
     rbind (requireInput (bytes opId 32) ''operationId'') (\<lambda>_.
     rbind (index_position index) (\<lambda>i.
     hash_values V [AbiBytes32 (OUTPUT_ID_TAG V), AbiBytes32 opId, AbiUint256 i]))"

section \<open>Lemmas: the accepted shape\<close>

text \<open>What an accepted request looks like, by kind: a deposit creates one own output, a transfer one or two
  outputs (the second is change), a withdrawal at most one change output.\<close>

definition amounts_ok :: "OperationRequest \<Rightarrow> bool" where
  "amounts_ok r \<longleftrightarrow>
     (req_kind r = 0 \<and> req_inputIds r = [] \<and> length (req_outputs r) = 1 \<and> ownOutput r 0 \<and>
        1 \<le> req_d r \<and> req_d r \<le> M_max \<and> req_w r = 0 \<and> req_destination r = zeroAddress)
   \<or> (req_kind r = 1 \<and> length (req_inputIds r) \<in> {1, 2} \<and> req_d r = 0 \<and> length (req_outputs r) \<in> {1, 2} \<and>
        (length (req_outputs r) = 2 \<longrightarrow> ownOutput r 1) \<and> req_w r = 0 \<and> req_destination r = zeroAddress)
   \<or> (req_kind r = 2 \<and> length (req_inputIds r) \<in> {1, 2} \<and> req_d r = 0 \<and> length (req_outputs r) \<le> 1 \<and>
        (length (req_outputs r) = 1 \<longrightarrow> ownOutput r 0) \<and> 1 \<le> req_w r \<and> req_w r \<le> 2 * M_max \<and>
        req_destination r \<noteq> zeroAddress)"

definition well_formed_output :: "curve \<Rightarrow> PublicOutput \<Rightarrow> bool" where
  "well_formed_output C out \<longleftrightarrow> bytes (out_owner out) 20 \<and> out_receiptFormat out = 1 \<and> bytes (out_packet out) 112 \<and>
     valid_point C (out_commitment out)"

definition well_formed_request :: "curve \<Rightarrow> OperationRequest \<Rightarrow> bool" where
  "well_formed_request C r \<longleftrightarrow>
     bytes (req_owner r) 20 \<and> bytes (req_destination r) 20 \<and> bytes (req_salt r) 32 \<and>
     list_all (\<lambda>i. bytes i 32) (req_inputIds r) \<and> sorted_wrt (\<lambda>a b. BigInt_hex a < BigInt_hex b) (req_inputIds r) \<and>
     list_all (well_formed_output C) (req_outputs r) \<and> amounts_ok r"

lemma requireInput_eq_Inr [res_simps]: "requireInput b s = Inr u \<longleftrightarrow> b"
  by (simp add: requireInput_def require_eq_Inr)

lemma requireInput_True [simp]: "requireInput True s = Inr ()"
  and rbind_requireInput [simp]:
    "rbind (requireInput b s) f = (if b then f () else Inl (CoreFailure INVALID_INPUT (''encoding.'' @ s)))"
  by (simp_all add: requireInput_def)

lemma check_inputs_eq_Inr:
  "check_inputs p ids = Inr () \<longleftrightarrow> list_all (\<lambda>i. bytes i 32) ids \<and>
     sorted_wrt (\<lambda>a b. BigInt_hex a < BigInt_hex b) ids \<and>
     (case p of None \<Rightarrow> True | Some q \<Rightarrow> (\<forall>i \<in> set ids. BigInt_hex q < BigInt_hex i))"
  by (induction p ids rule: check_inputs.induct) (auto simp: res_simps split: option.splits intro: less_trans)

lemma small_nat_cases:
  obtains "n = 0" | "n = 1" | "n = 2" | "(2::nat) < n"
  by linarith

lemma check_amounts_eq_Inr:
  "check_amounts r = Inr () \<longleftrightarrow>
   (if req_kind r = 0 then req_inputIds r = [] \<and> length (req_outputs r) = 1 \<and> ownOutput r 0 \<and>
        1 \<le> req_d r \<and> req_d r \<le> M_max \<and> req_w r = 0
    else length (req_inputIds r) \<in> {1, 2} \<and> req_d r = 0 \<and>
     (if req_kind r = 1 then length (req_outputs r) \<in> {1, 2} \<and> (length (req_outputs r) = 2 \<longrightarrow> ownOutput r 1) \<and> req_w r = 0
      else length (req_outputs r) \<le> 1 \<and> (length (req_outputs r) = 1 \<longrightarrow> ownOutput r 0) \<and>
        1 \<le> req_w r \<and> req_w r \<le> 2 * M_max))"
proof -
  show ?thesis
    by (cases rule: small_nat_cases [of "length (req_inputIds r)"]; cases rule: small_nat_cases [of "length (req_outputs r)"])
       (simp_all add: check_amounts_def requireInput_eq_Inr Let_def, auto)
qed

lemma uint256_coordinates: "valid_point C p \<Longrightarrow> uint256 (px p) \<and> uint256 (py p)"
  by (auto simp: valid_point_def uint256_def zero_point_def P_mod_def)

lemma check_output_eq_Inr: "check_output C out = Inr () \<longleftrightarrow> well_formed_output C out"
  using uint256_coordinates [of C "out_commitment out"]
  by (auto simp: check_output_def well_formed_output_def res_simps validateCommitment_ok)

lemma mapM_unit: "(\<exists>ys. mapM f xs = Inr ys) \<longleftrightarrow> (\<forall>x \<in> set xs. f x = Inr (() :: unit))"
  by (induction xs) (auto simp: rbind_eq_Inr)

lemma validateOperationShape_eq_Inr: "validateOperationShape C r = Inr () \<longleftrightarrow> well_formed_request C r"
proof -
  have outs: "(\<exists>ys. mapM (check_output C) (req_outputs r) = Inr ys) \<longleftrightarrow> list_all (well_formed_output C) (req_outputs r)"
    by (simp add: mapM_unit check_output_eq_Inr list_all_iff)
  have amounts: "req_kind r \<in> {0, 1, 2} \<and> uint256 (req_d r) \<and> uint256 (req_w r) \<and> check_amounts r = Inr () \<and>
      (if req_kind r = 2 then req_destination r \<noteq> zeroAddress else req_destination r = zeroAddress) \<longleftrightarrow> amounts_ok r"
    by (cases "req_kind r = 0"; cases "req_kind r = 1"; cases "req_kind r = 2")
       (auto simp: check_amounts_eq_Inr amounts_ok_def uint256_def M_max_eq)
  show ?thesis
    using outs amounts
    by (auto simp: validateOperationShape_def well_formed_request_def res_simps check_inputs_eq_Inr)
qed

lemma validateOperationShape_Inl: "validateOperationShape C r = Inl e \<Longrightarrow> \<exists>s. e = CoreFailure INVALID_INPUT (''encoding.'' @ s)"
proof -
  have outs: "\<exists>s. e = CoreFailure INVALID_INPUT (''encoding.'' @ s)" if "check_output C out = Inl e" for out e
    using that by (auto simp: check_output_def recast_eq_Inl split: if_splits)
  have ids: "\<exists>s. e = CoreFailure INVALID_INPUT (''encoding.'' @ s)" if "check_inputs p xs = Inl e" for p xs e
    using that by (induction p xs rule: check_inputs.induct) (auto split: if_splits option.splits)
  have am: "\<exists>s. e = CoreFailure INVALID_INPUT (''encoding.'' @ s)" if "check_amounts r = Inl e" for e
    using that by (auto simp: check_amounts_def Let_def requireInput_def require_def split: if_splits)
  assume "validateOperationShape C r = Inl e"
  then show ?thesis
    using outs mapM_Inl [of "check_output C" "req_outputs r"] ids [of None "req_inputIds r"] am
    by (auto simp: validateOperationShape_def rbind_def requireInput_def require_def split: if_splits sum.splits)
qed

section \<open>Lemmas: binding\<close>

text \<open>Two requests that differ at most in the letter case of their hexadecimal text.\<close>

definition same_output :: "PublicOutput \<Rightarrow> PublicOutput \<Rightarrow> bool" where
  "same_output a b \<longleftrightarrow> sameText (out_owner a) (out_owner b) \<and> out_commitment a = out_commitment b \<and>
     out_receiptFormat a = out_receiptFormat b \<and> sameText (out_packet a) (out_packet b)"

definition same_request :: "OperationRequest \<Rightarrow> OperationRequest \<Rightarrow> bool" where
  "same_request a b \<longleftrightarrow> req_kind a = req_kind b \<and> sameText (req_owner a) (req_owner b) \<and>
     sameText (req_salt a) (req_salt b) \<and> list_all2 sameText (req_inputIds a) (req_inputIds b) \<and>
     list_all2 same_output (req_outputs a) (req_outputs b) \<and> req_d a = req_d b \<and> req_w a = req_w b \<and>
     sameText (req_destination a) (req_destination b)"

text \<open>Everything that is hashed to identify a request.\<close>

definition output_hashes :: "viem \<Rightarrow> OperationRequest \<Rightarrow> string list res" where
  "output_hashes V r = mapM (\<lambda>(i, output). hash_values V (output_values V i output))
     (zip [0..<length (req_outputs r)] (req_outputs r))"

definition rights :: "'e + 'a \<Rightarrow> 'a list" where
  "rights m = (case m of Inl _ \<Rightarrow> [] | Inr a \<Rightarrow> [a])"

lemma set_rights [simp]: "a \<in> set (rights m) \<longleftrightarrow> m = Inr a"
  by (auto simp: rights_def split: sum.split)

definition hashed_texts :: "viem \<Rightarrow> Context \<Rightarrow> OperationRequest \<Rightarrow> string list" where
  "hashed_texts V c r =
     rights (encodeAbiParameters V (inputs_values V r))
   @ concat (map (\<lambda>i. rights (encodeAbiParameters V (output_values V i (req_outputs r ! i)))) [0..<length (req_outputs r)])
   @ map out_packet (req_outputs r)
   @ rights (rbind (output_hashes V r) (\<lambda>hs. encodeAbiParameters V [AbiBytes32 (OUTPUTS_TAG V), AbiBytes32Array hs]))
   @ rights (operationPreimage V c r)"

lemma hashed_textsI:
  "encodeAbiParameters V (inputs_values V r) = Inr a \<Longrightarrow> a \<in> set (hashed_texts V c r)"
  "i < length (req_outputs r) \<Longrightarrow> encodeAbiParameters V (output_values V i (req_outputs r ! i)) = Inr a \<Longrightarrow>
     a \<in> set (hashed_texts V c r)"
  "i < length (req_outputs r) \<Longrightarrow> out_packet (req_outputs r ! i) \<in> set (hashed_texts V c r)"
  "output_hashes V r = Inr hs \<Longrightarrow>
     encodeAbiParameters V [AbiBytes32 (OUTPUTS_TAG V), AbiBytes32Array hs] = Inr a \<Longrightarrow> a \<in> set (hashed_texts V c r)"
  "operationPreimage V c r = Inr a \<Longrightarrow> a \<in> set (hashed_texts V c r)"
  using nth_mem [of i "req_outputs r"] by (auto simp: hashed_texts_def)

lemma abi_lawsD:
  "abi_laws V \<Longrightarrow> encodeAbiParameters V vs = Inr a \<Longrightarrow> encodeAbiParameters V ws = Inr b \<Longrightarrow> sameText a b \<Longrightarrow>
   list_all2 same_abi_type vs ws \<Longrightarrow> list_all2 same_abi vs ws"
  unfolding abi_laws_def by blast

lemma hash_values_inj:
  assumes "abi_laws V" and "collision_free V S" and "list_all2 same_abi_type vs ws"
    and "hash_values V vs = Inr h" and "hash_values V ws = Inr k" and "sameText h k"
    and "\<And>a. encodeAbiParameters V vs = Inr a \<Longrightarrow> a \<in> S" and "\<And>a. encodeAbiParameters V ws = Inr a \<Longrightarrow> a \<in> S"
  shows "list_all2 same_abi vs ws"
proof -
  from assms(4,5) obtain a b where "encodeAbiParameters V vs = Inr a" "encodeAbiParameters V ws = Inr b"
    "h = keccak256 V a" "k = keccak256 V b" by (auto simp: hash_values_def rbind_eq_Inr)
  with assms show ?thesis by (metis abi_lawsD collision_freeD)
qed

lemma output_hashes_nth:
  assumes "output_hashes V r = Inr hs"
  shows "length hs = length (req_outputs r)"
    and "i < length hs \<Longrightarrow> hash_values V (output_values V i (req_outputs r ! i)) = Inr (hs ! i)"
  using assms by (auto simp: output_hashes_def mapM_eq_Inr list_all2_conv_all_nth)

lemma outputs_bound:
  assumes laws: "abi_laws V" and cf: "collision_free V S"
    and r: "output_hashes V r = Inr hs" and s: "output_hashes V s = Inr ks" and hk: "list_all2 sameText hs ks"
    and S: "set (hashed_texts V c r) \<subseteq> S" "set (hashed_texts V c' s) \<subseteq> S"
  shows "list_all2 same_output (req_outputs r) (req_outputs s)"
proof (rule list_all2_all_nthI)
  show len: "length (req_outputs r) = length (req_outputs s)"
    using output_hashes_nth(1) [OF r] output_hashes_nth(1) [OF s] list_all2_lengthD [OF hk] by simp
  fix i
  assume i: "i < length (req_outputs r)"
  let ?o = "req_outputs r ! i" and ?p = "req_outputs s ! i"
  have h: "hash_values V (output_values V i ?o) = Inr (hs ! i)" "hash_values V (output_values V i ?p) = Inr (ks ! i)"
    using output_hashes_nth [OF r] output_hashes_nth [OF s] i len by simp_all
  have types: "list_all2 same_abi_type (output_values V i ?o) (output_values V i ?p)"
    by (simp add: output_values_def)
  have "sameText (hs ! i) (ks ! i)" using hk i output_hashes_nth(1) [OF r] by (simp add: list_all2_conv_all_nth)
  moreover have "a \<in> S" if "encodeAbiParameters V (output_values V i ?o) = Inr a \<or>
      encodeAbiParameters V (output_values V i ?p) = Inr a" for a
    using that i len S hashed_textsI(2) [of i r V a c] hashed_textsI(2) [of i s V a c'] by auto
  ultimately have "list_all2 same_abi (output_values V i ?o) (output_values V i ?p)"
    using hash_values_inj [OF laws cf types h] by blast
  then have e: "sameText (out_owner ?o) (out_owner ?p)" "px (out_commitment ?o) = px (out_commitment ?p)"
    "py (out_commitment ?o) = py (out_commitment ?p)" "out_receiptFormat ?o = out_receiptFormat ?p"
    "sameText (keccak256 V (out_packet ?o)) (keccak256 V (out_packet ?p))" by (simp_all add: output_values_def)
  have "out_packet ?o \<in> S" "out_packet ?p \<in> S"
    using S i len hashed_textsI(3) [of i r V c] hashed_textsI(3) [of i s V c'] by auto
  with e(5) cf have "sameText (out_packet ?o) (out_packet ?p)" by (metis collision_freeD)
  with e show "same_output ?o ?p" by (simp add: same_output_def)
qed

lemma operation_bound:
  assumes laws: "abi_laws V" and cf: "collision_free V (set (hashed_texts V c r @ hashed_texts V c' s))"
    and r: "operationId V c r = Inr i" and s: "operationId V c' s = Inr j" and ij: "sameText i j"
  shows "ctx_chainId c = ctx_chainId c' \<and> sameText (ctx_pool c) (ctx_pool c') \<and> same_request r s"
proof -
  let ?S = "set (hashed_texts V c r @ hashed_texts V c' s)"
  let ?words = "\<lambda>c r h k. [AbiBytes32 (OP_TAG V), AbiUint256 (ctx_chainId c), AbiAddress (ctx_pool c),
        AbiUint8 (req_kind r), AbiAddress (req_owner r), AbiBytes32 (req_salt r),
        AbiBytes32 h, AbiBytes32 k, AbiUint256 (req_d r), AbiUint256 (req_w r), AbiAddress (req_destination r)]"
  have parts: "\<exists>p h hs k. operationPreimage V c r = Inr p \<and> i = keccak256 V p \<and>
      hash_values V (inputs_values V r) = Inr h \<and> output_hashes V r = Inr hs \<and>
      hash_values V [AbiBytes32 (OUTPUTS_TAG V), AbiBytes32Array hs] = Inr k \<and>
      encodeAbiParameters V (?words c r h k) = Inr p" if "operationId V c r = Inr i" for c r i
    using that by (auto simp: operationId_def operationPreimage_def rbind_eq_Inr output_hashes_def)
  from parts [OF r] obtain p h hs k where p: "operationPreimage V c r = Inr p" "i = keccak256 V p"
      "hash_values V (inputs_values V r) = Inr h" "output_hashes V r = Inr hs"
      "hash_values V [AbiBytes32 (OUTPUTS_TAG V), AbiBytes32Array hs] = Inr k"
      "encodeAbiParameters V (?words c r h k) = Inr p" by blast
  from parts [OF s] obtain q h' ks k' where q: "operationPreimage V c' s = Inr q" "j = keccak256 V q"
      "hash_values V (inputs_values V s) = Inr h'" "output_hashes V s = Inr ks"
      "hash_values V [AbiBytes32 (OUTPUTS_TAG V), AbiBytes32Array ks] = Inr k'"
      "encodeAbiParameters V (?words c' s h' k') = Inr q" by blast
  have "sameText p q"
    using collision_freeD [OF cf, of p q] p(1,2) q(1,2) ij hashed_textsI(5) by fastforce
  from abi_lawsD [OF laws p(6) q(6) this] have top: "list_all2 same_abi (?words c r h k) (?words c' s h' k')" by simp
  then have hh: "sameText h h'" and kk: "sameText k k'" by simp_all
  have ins: "list_all2 same_abi (inputs_values V r) (inputs_values V s)"
    by (rule hash_values_inj [OF laws cf _ p(3) q(3) hh]) (auto simp: inputs_values_def intro: hashed_textsI(1))
  have "list_all2 same_abi [AbiBytes32 (OUTPUTS_TAG V), AbiBytes32Array hs] [AbiBytes32 (OUTPUTS_TAG V), AbiBytes32Array ks]"
    by (rule hash_values_inj [OF laws cf _ p(5) q(5) kk]) (use p(4) q(4) in \<open>auto intro: hashed_textsI(4)\<close>)
  then have "list_all2 same_output (req_outputs r) (req_outputs s)"
    by (intro outputs_bound [OF laws cf p(4) q(4)]) auto
  with ins top show ?thesis by (simp add: inputs_values_def same_request_def)
qed

lemma outputId_eq_Inr:
  "outputId V i n = Inr x \<longleftrightarrow> bytes i 32 \<and> 0 \<le> n \<and> isSafeInteger n \<and>
   hash_values V [AbiBytes32 (OUTPUT_ID_TAG V), AbiBytes32 i, AbiUint256 n] = Inr x"
  by (auto simp: outputId_def index_position_def rbind_eq_Inr res_simps uint256_def isSafeInteger_def)

end
