(* ===== verification/AbiModel.thy ===== *)
theory AbiModel
  imports Encoding
begin

text \<open>
  A concrete instance of the \<open>viem\<close> record for witnesses: the ABI encoding of the value types the core uses,
  in fixed-width words, and a digest of 32 bytes, the length of the text.  It keeps
  \<open>abi_laws\<close>; that the digest is collision free on given preimages is checked where it is assumed.
\<close>

definition word_text :: "int \<Rightarrow> string" where
  "word_text v = bytesHex (word_loop 32 v [])"

definition in_word :: "int \<Rightarrow> bool" where
  "in_word v \<longleftrightarrow> 0 \<le> v \<and> v < 2 ^ 256"

fun abi_ok :: "abi_value \<Rightarrow> bool" where
  "abi_ok (AbiBytes32 s) = bytes s 32"
| "abi_ok (AbiUint256 v) = in_word v"
| "abi_ok (AbiUint8 v) = (0 \<le> v \<and> v < 256)"
| "abi_ok (AbiAddress s) = bytes s 20"
| "abi_ok (AbiBytes32Array ss) = (list_all (\<lambda>s. bytes s 32) ss \<and> in_word (int (length ss)))"

fun abi_text :: "abi_value \<Rightarrow> string" where
  "abi_text (AbiBytes32 s) = drop 2 s"
| "abi_text (AbiUint256 v) = word_text v"
| "abi_text (AbiUint8 v) = word_text v"
| "abi_text (AbiAddress s) = replicate 24 (CHR ''0'') @ drop 2 s"
| "abi_text (AbiBytes32Array ss) = word_text (int (length ss)) @ concat (map (drop 2) ss)"

definition model_encode :: "abi_value list \<Rightarrow> string res" where
  "model_encode vs = (if list_all abi_ok vs then Inr (''0x'' @ concat (map abi_text vs)) else Inl (OtherError ''abi''))"

definition model_digest :: "string \<Rightarrow> string" where
  "model_digest s = ''0x'' @ word_text (int (length s))"

definition model_viem :: viem where
  "model_viem = \<lparr>keccak256 = model_digest, encodeAbiParameters = model_encode,
     stringToHex = \<lambda>s. ''0x'' @ bytesHex (utf8 s), hexToBytes = hexBytes, bytesToHex = \<lambda>bs. ''0x'' @ bytesHex bs\<rparr>"

lemma length_word_text [simp]: "length (word_text v) = 64"
  by (simp add: word_text_def)

lemma lower_hex_char: "n < 16 \<Longrightarrow> lower_char (hex_char n) = hex_char n"
  by (auto simp: lower_char_def hex_char_def)

lemma lower_bytesHex: "map lower_char (bytesHex bs) = bytesHex bs"
proof (induction bs)
  case (Cons b bs)
  have "unat b div 16 < 16" using unat_byte_less [of b] by simp
  with Cons show ?case by (simp add: lower_hex_char)
qed simp

lemma two_pow_256: "(2 :: int) ^ 256 = 256 ^ 32"
  by simp

lemma word_text_inj:
  assumes "in_word a" "in_word b" "map lower_char (word_text a) = map lower_char (word_text b)"
  shows "a = b"
proof -
  have "bytesHex (word_loop 32 a []) = bytesHex (word_loop 32 b [])"
    using assms(3) by (simp only: word_text_def lower_bytesHex)
  then have "word_loop 32 a [] = word_loop 32 b []"
    by (metis hexBytes_bytesHex sum.inject(2))
  moreover have "bytesToBigInt (word_loop 32 a []) = a" "bytesToBigInt (word_loop 32 b []) = b"
    using bytesToBigInt_word_loop [of a 32] bytesToBigInt_word_loop [of b 32] assms(1,2)
    unfolding in_word_def two_pow_256 by blast+
  ultimately show ?thesis by metis
qed

lemma bytes_length: "bytes s n \<Longrightarrow> length s = 2 + 2 * n"
  by (simp add: bytes_def)

lemma bytes_text:
  assumes "bytes a n" "bytes b n" "map lower_char (drop 2 a) = map lower_char (drop 2 b)"
  shows "sameText a b"
proof -
  have "s = ''0x'' @ drop 2 s" if "bytes s n" for s
    using that append_take_drop_id [of 2 s] by (simp add: bytes_def)
  from this [OF assms(1)] this [OF assms(2)] show ?thesis
    using assms(3) unfolding sameText_def toLowerCase_def by (metis map_append)
qed

lemma split_texts:
  "length a = length b \<Longrightarrow> map lower_char (a @ r) = map lower_char (b @ s) \<longleftrightarrow>
   map lower_char a = map lower_char b \<and> map lower_char r = map lower_char s"
  by (simp add: append_eq_append_conv)

lemma element_texts:
  "list_all (\<lambda>s. bytes s 32) as \<Longrightarrow> list_all (\<lambda>s. bytes s 32) bs \<Longrightarrow> length as = length bs \<Longrightarrow>
   map lower_char (concat (map (drop 2) as)) = map lower_char (concat (map (drop 2) bs)) \<Longrightarrow> list_all2 sameText as bs"
proof (induction as bs rule: list_induct2')
  case (4 a as b bs)
  from "4.prems" have v: "bytes a 32" "bytes b 32" by simp_all
  then have "length (drop 2 a) = length (drop 2 b)" by (simp add: bytes_length)
  with "4.prems" have "map lower_char (drop 2 a) = map lower_char (drop 2 b)"
    "map lower_char (concat (map (drop 2) as)) = map lower_char (concat (map (drop 2) bs))"
    using split_texts [of "drop 2 a" "drop 2 b"] by simp_all
  with 4 v show ?case using bytes_text [OF v] by simp
qed auto

lemma length_elements: "list_all (\<lambda>s. bytes s 32) as \<Longrightarrow> length (concat (map (drop 2) as)) = 64 * length as"
  by (induction as) (auto simp: bytes_length)

lemma static_text_step:
  assumes "length (abi_text v) = length (abi_text w)"
    and "map lower_char (abi_text v) = map lower_char (abi_text w) \<Longrightarrow> same_abi v w"
    and "map lower_char (abi_text v @ r) = map lower_char (abi_text w @ s)"
  shows "same_abi v w \<and> map lower_char r = map lower_char s"
  using assms(2,3) split_texts [OF assms(1), of r s] by blast

lemma abi_text_step:
  assumes t: "same_abi_type v w" and v: "abi_ok v" "abi_ok w"
    and e: "map lower_char (abi_text v @ r) = map lower_char (abi_text w @ s)"
  shows "same_abi v w \<and> map lower_char r = map lower_char s"
proof (cases v)
  case (AbiBytes32 a)
  with t obtain b where w: "w = AbiBytes32 b" by (cases w) auto
  show ?thesis
    by (rule static_text_step [OF _ _ e]) (use v AbiBytes32 w in \<open>auto intro: bytes_text simp: bytes_length\<close>)
next
  case (AbiUint256 a)
  with t obtain b where w: "w = AbiUint256 b" by (cases w) auto
  show ?thesis
    by (rule static_text_step [OF _ _ e]) (use v AbiUint256 w in \<open>auto intro: word_text_inj\<close>)
next
  case (AbiUint8 a)
  with t obtain b where w: "w = AbiUint8 b" by (cases w) auto
  show ?thesis
    by (rule static_text_step [OF _ _ e]) (use v AbiUint8 w in \<open>auto intro!: word_text_inj simp: in_word_def\<close>)
next
  case (AbiAddress a)
  with t obtain b where w: "w = AbiAddress b" by (cases w) auto
  show ?thesis
    by (rule static_text_step [OF _ _ e]) (use v AbiAddress w in \<open>auto intro: bytes_text simp: bytes_length\<close>)
next
  case (AbiBytes32Array as)
  with t obtain bs where w: "w = AbiBytes32Array bs" by (cases w) auto
  let ?as = "concat (map (drop 2) as)" and ?bs = "concat (map (drop 2) bs)"
  have "map lower_char (word_text (int (length as)) @ (?as @ r)) = map lower_char (word_text (int (length bs)) @ (?bs @ s))"
    using e AbiBytes32Array w by (simp only: abi_text.simps append_assoc)
  then have lens: "map lower_char (word_text (int (length as))) = map lower_char (word_text (int (length bs)))"
    and rest: "map lower_char (?as @ r) = map lower_char (?bs @ s)"
    using split_texts [of "word_text (int (length as))" "word_text (int (length bs))" "?as @ r" "?bs @ s"] by simp_all
  have l: "length as = length bs" using word_text_inj [OF _ _ lens] v AbiBytes32Array w by simp
  have "length ?as = length ?bs" using v AbiBytes32Array w l by (simp only: abi_ok.simps length_elements)
  from rest [unfolded split_texts [OF this]] show ?thesis
    using v AbiBytes32Array w l by (simp add: element_texts)
qed

lemma model_abi_laws: "abi_laws model_viem"
proof -
  have step: "list_all2 same_abi vs ws"
    if "list_all2 same_abi_type vs ws" "list_all abi_ok vs" "list_all abi_ok ws"
      "map lower_char (concat (map abi_text vs)) = map lower_char (concat (map abi_text ws))" for vs ws
    using that
  proof (induction vs ws rule: list_all2_induct)
    case (Cons v vs w ws)
    from abi_text_step [of v w "concat (map abi_text vs)" "concat (map abi_text ws)"] Cons
    show ?case by simp
  qed simp
  show ?thesis
    unfolding abi_laws_def model_viem_def
    by (auto simp: model_encode_def sameText_def toLowerCase_def split: if_splits intro!: step)
qed

lemma model_digest_inj:
  "length a < 2 ^ 256 \<Longrightarrow> length b < 2 ^ 256 \<Longrightarrow> sameText (model_digest a) (model_digest b) \<Longrightarrow> length a = length b"
  using word_text_inj [of "int (length a)" "int (length b)"]
  by (simp add: model_digest_def sameText_def toLowerCase_def in_word_def)

lemma model_keccak [simp]: "keccak256 model_viem = model_digest"
  and model_encode_eq [simp]: "encodeAbiParameters model_viem = model_encode"
  by (simp_all add: model_viem_def)

lemma bytes_model_digest [simp]: "bytes (model_digest s) 32"
  by (simp add: model_digest_def word_text_def bytes_def is_hex_bytesHex)

lemma model_hex_laws: "hex_laws model_viem"
  using hexBytes_bytesHex bytes_bytesHex hexBytes_length by (simp add: hex_laws_def model_viem_def)

end
