(* ===== verification/EncodingProperties.thy ===== *)
theory EncodingProperties
  imports AbiModel
begin

text \<open>Properties of the request encoding, with concrete requests as witnesses.\<close>

definition address_of :: "char \<Rightarrow> string" where
  "address_of c = ''0x'' @ replicate 40 c"

definition hash_of :: "char \<Rightarrow> string" where
  "hash_of c = ''0x'' @ replicate 64 c"

definition example_context :: Context where
  "example_context = \<lparr>ctx_chainId = 1, ctx_pool = address_of (CHR ''a''), ctx_deploymentBlock = 10,
     ctx_verifier = address_of (CHR ''b''), ctx_parametersHash = hash_of (CHR ''c''), ctx_finalityMode = finalized\<rparr>"

text \<open>A deposit of 5, with the owner in the given letter.\<close>

definition example_deposit :: "char \<Rightarrow> OperationRequest" where
  "example_deposit c = \<lparr>req_kind = 0, req_owner = address_of c, req_salt = hash_of (CHR ''1''), req_inputIds = [],
     req_outputs = [\<lparr>out_owner = address_of c, out_commitment = \<lparr>px = 0, py = 0\<rparr>, out_receiptFormat = 1,
       out_packet = ''0x'' @ replicate 224 (CHR ''7'')\<rparr>],
     req_d = 5, req_w = 0, req_destination = zeroAddress\<rparr>"

lemma address_of_bytes: "is_hex c \<Longrightarrow> bytes (address_of c) 20" "is_hex c \<Longrightarrow> bytes (hash_of c) 32"
  by (simp_all add: bytes_def address_of_def hash_of_def list_all_length)

lemma example_packet_bytes: "bytes (''0x'' @ replicate 224 (CHR ''7'')) 112"
  by (simp add: bytes_def list_all_length is_hex_def)

lemma hex_letters [simp]: "is_hex (CHR ''1'')" "is_hex (CHR ''a'')" "is_hex (CHR ''b'')" "is_hex (CHR ''B'')" "is_hex (CHR ''c'')"
  by (simp_all add: is_hex_def)

lemma example_deposit_shape: "is_hex c \<Longrightarrow> well_formed_request C (example_deposit c)"
  using example_packet_bytes
  by (simp add: well_formed_request_def example_deposit_def address_of_bytes amounts_ok_def ownOutput_def
      well_formed_output_def M_max_eq valid_point_def zero_point_def)

text \<open>C7: \<open>validateOperationShape\<close> accepts exactly the well-formed requests: a deposit, transfer or withdrawal with
  the arity, amounts and destination of its kind, at most two inputs whose identifiers increase strictly (so none
  repeats), valid commitments and 112-byte packets; every rejection is an \<open>INVALID_INPUT\<close> of the encoding.\<close>

theorem operation_shape_exact:
  "(validateOperationShape C r = Inr () \<longleftrightarrow> well_formed_request C r) \<and>
   (\<forall>e. validateOperationShape C r = Inl e \<longrightarrow> (\<exists>s. e = CoreFailure INVALID_INPUT (''encoding.'' @ s)))"
  using validateOperationShape_eq_Inr validateOperationShape_Inl by blast

theorem operation_shape_exact_witness:
  "validateOperationShape model_curve (example_deposit (CHR ''b'')) = Inr () \<and>
   validateOperationShape model_curve (example_deposit (CHR ''b'')\<lparr>req_d := 0\<rparr>) \<noteq> Inr ()"
proof -
  have "\<not> well_formed_request model_curve (example_deposit (CHR ''b'')\<lparr>req_d := 0\<rparr>)"
    by (simp add: well_formed_request_def amounts_ok_def example_deposit_def)
  then show ?thesis
    using operation_shape_exact [of model_curve "example_deposit (CHR ''b'')"]
      operation_shape_exact [of model_curve "example_deposit (CHR ''b'')\<lparr>req_d := 0\<rparr>"]
      example_deposit_shape [of "CHR ''b''" model_curve] by (simp add: is_hex_def)
qed

text \<open>C8: The operation identifier binds the chain, the pool and the whole request: two requests with the same
  identifier, none of whose hashed preimages collide, agree in every field up to the letter case of hexadecimal text.
  In particular the packets, commitments, order of inputs and destination cannot be exchanged.\<close>

theorem operation_id_binds:
  assumes "abi_laws V" and "collision_free V (set (hashed_texts V c r @ hashed_texts V c' s))"
    and "operationId V c r = Inr i" and "operationId V c' s = Inr j" and "sameText i j"
  shows "ctx_chainId c = ctx_chainId c' \<and> sameText (ctx_pool c) (ctx_pool c') \<and> same_request r s"
  by (rule operation_bound [OF assms])

lemma length_address [simp]: "length (address_of c) = 42" "length (hash_of c) = 66" "length zeroAddress = 42"
  by (simp_all add: address_of_def hash_of_def zeroAddress_def)

lemma length_digest [simp]: "length (model_digest s) = 66"
  by (simp add: model_digest_def)

lemmas example_simps = example_deposit_def example_context_def operationId_def operationPreimage_def hash_values_def
  inputs_values_def output_values_def model_encode_def in_word_def core_tag_def INPUTS_TAG_def OUTPUT_TAG_def
  OUTPUTS_TAG_def OP_TAG_def address_of_bytes output_hashes_def hashed_texts_def rights_def

lemma case_variants: "sameText (address_of (CHR ''b'')) (address_of (CHR ''B''))"
  by code_simp

lemma model_digest_cong: "length a = length b \<Longrightarrow> model_digest a = model_digest b"
  by (simp add: model_digest_def)

lemma bytes_word_text [simp]: "bytes (CHR ''0'' # CHR ''x'' # word_text v) 32"
  using bytes_model_digest by (simp add: bytes_def word_text_def is_hex_bytesHex)

lemma example_ids:
  "\<exists>i. operationId model_viem example_context (example_deposit (CHR ''b'')) = Inr i \<and>
       operationId model_viem example_context (example_deposit (CHR ''B'')) = Inr i"
  by (simp add: example_simps model_digest_def)

text \<open>The five texts hashed for the example have different lengths, and do not depend on the letter case.\<close>

lemma example_texts:
  "is_hex c \<Longrightarrow> map length (hashed_texts model_viem example_context (example_deposit c)) = [130, 450, 226, 194, 706]"
  by (simp add: example_simps)

lemma lower_address: "map lower_char (drop 2 (address_of (CHR ''B''))) = map lower_char (drop 2 (address_of (CHR ''b'')))"
  by code_simp

lemma example_same_texts:
  "list_all2 sameText (hashed_texts model_viem example_context (example_deposit (CHR ''b'')))
     (hashed_texts model_viem example_context (example_deposit (CHR ''B'')))"
  by (simp add: example_simps model_digest_def sameText_def toLowerCase_def lower_address)

lemma collision_free_by_length:
  assumes same: "list_all2 sameText L L'" and d: "distinct (map length L)" and b: "list_all (\<lambda>n. n < 2 ^ 256) (map length L)"
  shows "collision_free model_viem (set (L @ L'))"
proof -
  have lens: "map length L' = map length L"
    using same by (auto simp: list_all2_conv_all_nth sameText_def toLowerCase_def intro!: nth_equalityI)
       (metis length_map)
  have index: "\<exists>i < length L. sameText a (L ! i)" if "a \<in> set (L @ L')" for a
    using that same by (auto simp: in_set_conv_nth list_all2_conv_all_nth) (metis sameText_sym sameText_refl)+
  show ?thesis
    unfolding collision_free_def
  proof (intro ballI impI)
    fix a c
    assume a: "a \<in> set (L @ L')" and c: "c \<in> set (L @ L')" and h: "sameText (keccak256 model_viem a) (keccak256 model_viem c)"
    obtain i where i: "i < length L" "sameText a (L ! i)" using index [OF a] by blast
    obtain j where j: "j < length L" "sameText c (L ! j)" using index [OF c] by blast
    have la: "length a = length (L ! i)" "length c = length (L ! j)"
      using i j by (auto simp: sameText_def toLowerCase_def dest: map_eq_imp_length_eq)
    have "length (L ! i) < 2 ^ 256" "length (L ! j) < 2 ^ 256" using b i j by (simp_all add: list_all_length)
    with la h have "length (L ! i) = length (L ! j)" using model_digest_inj [of a c] by simp
    then have "i = j" using d i j by (simp add: nth_eq_iff_index_eq [symmetric])
    with i j show "sameText a c" by (metis sameText_sym sameText_trans)
  qed
qed

theorem operation_id_binds_witness:
  "same_request (example_deposit (CHR ''b'')) (example_deposit (CHR ''B''))"
proof -
  have cf: "collision_free model_viem (set (hashed_texts model_viem example_context (example_deposit (CHR ''b'')) @
        hashed_texts model_viem example_context (example_deposit (CHR ''B''))))"
    by (rule collision_free_by_length [OF example_same_texts]) (simp_all add: example_texts)
  from example_ids obtain i where
    "operationId model_viem example_context (example_deposit (CHR ''b'')) = Inr i"
    "operationId model_viem example_context (example_deposit (CHR ''B'')) = Inr i" by blast
  from operation_id_binds [OF model_abi_laws cf this] show ?thesis by simp
qed

end
