(* ===== verification/Selection.thy ===== *)
theory Selection
  imports EncodingProperties "HOL-Library.Product_Lexorder" "HOL-Library.Multiset"
begin

text \<open>
  \<open>packages/core/src/selection.ts\<close>: the choice of at most two confirmed inputs.  JavaScript's stable sort by a
  comparator that throws on a malformed identifier calls it only when there are two elements to compare.
\<close>

record SelectionOptions =
  sel_kind :: int
  sel_owner :: string
  sel_amount :: int
  sel_explicitIds :: "string list option"

definition invalid_selection :: failure where
  "invalid_selection = CoreFailure INVALID_INPUT ''selection''"

definition numericId :: "string \<Rightarrow> int res" where
  "numericId i = (if \<not> bytes i 32 then Inl invalid_selection else Inr (BigInt_hex i))"

definition coin_number :: "OwnedUtxo \<Rightarrow> int" where
  "coin_number c = BigInt_hex (coin_id c)"

definition coin_amount :: "OwnedUtxo \<Rightarrow> int" where
  "coin_amount c = amount (coin_opening c)"

definition sort_coins :: "OwnedUtxo list \<Rightarrow> OwnedUtxo list res" where
  "sort_coins coins =
     (if length coins \<ge> 2 \<and> \<not> list_all (\<lambda>c. bytes (coin_id c) 32) coins then Inl invalid_selection
      else Inr (sort_key coin_number coins))"

definition confirmed :: "Context \<Rightarrow> OwnedUtxo \<Rightarrow> bool" where
  "confirmed context coin \<longleftrightarrow> coin_status coin = available \<and>
     cp_mode (coin_checkpoint coin) = ctx_finalityMode context \<and>
     cp_number (coin_checkpoint coin) \<ge> ctx_deploymentBlock context"

definition matching :: "Context \<Rightarrow> string \<Rightarrow> OwnedUtxo \<Rightarrow> bool" where
  "matching context owner coin \<longleftrightarrow> coin_chainId coin = ctx_chainId context \<and>
     sameText (coin_pool coin) (ctx_pool context) \<and> sameText (coin_owner coin) owner"

definition sum_coins :: "OwnedUtxo list \<Rightarrow> int" where
  "sum_coins coins = foldl (\<lambda>total coin. total + coin_amount coin) 0 coins"

definition feasible :: "int \<Rightarrow> OwnedUtxo list \<Rightarrow> bool" where
  "feasible target coins \<longleftrightarrow> (let change = sum_coins coins - target in change \<ge> 0 \<and> change \<le> M_max)"

text \<open>The pairs in the order of the two nested loops.\<close>

fun ordered_pairs :: "'a list \<Rightarrow> ('a \<times> 'a) list" where
  "ordered_pairs [] = []"
| "ordered_pairs (c # cs) = map (\<lambda>d. (c, d)) cs @ ordered_pairs cs"

definition better_pair ::
  "int \<Rightarrow> (OwnedUtxo list \<times> int) option \<Rightarrow> OwnedUtxo \<times> OwnedUtxo \<Rightarrow> (OwnedUtxo list \<times> int) option" where
  "better_pair target best = (\<lambda>(c, d).
     let pair = [c, d] in
     if \<not> feasible target pair then best
     else let change = sum_coins pair - target in
       case best of
         None \<Rightarrow> Some (pair, change)
       | Some (_, bestChange) \<Rightarrow> if change < bestChange then Some (pair, change) else best)"

definition bestPair :: "OwnedUtxo list \<Rightarrow> int \<Rightarrow> OwnedUtxo list option" where
  "bestPair coins target = map_option fst (foldl (better_pair target) None (ordered_pairs coins))"

text \<open>The loop over the sorted candidates: no repeated identifier, and an amount in range.\<close>

fun check_ordered :: "OwnedUtxo list \<Rightarrow> unit res" where
  "check_ordered [] = Inr ()"
| "check_ordered (c # cs) =
     (if coin_amount c < 1 \<or> coin_amount c > M_max then Inl invalid_selection
      else case cs of [] \<Rightarrow> Inr ()
        | d # _ \<Rightarrow> if coin_number c = coin_number d then Inl invalid_selection else check_ordered cs)"

fun find_coin :: "int \<Rightarrow> OwnedUtxo list \<Rightarrow> OwnedUtxo option res" where
  "find_coin i [] = Inr None"
| "find_coin i (c # cs) =
     rbind (numericId (coin_id c)) (\<lambda>n. if n = i then Inr (Some c) else find_coin i cs)"

definition select_explicit ::
  "Context \<Rightarrow> OwnedUtxo list \<Rightarrow> string \<Rightarrow> int \<Rightarrow> string list \<Rightarrow> OwnedUtxo list res" where
  "select_explicit context ordered owner target explicitIds =
     (if length explicitIds < 1 \<or> length explicitIds > 2 then Inl invalid_selection
      else rbind (mapM numericId explicitIds) (\<lambda>ids.
      if \<not> distinct ids then Inl invalid_selection
      else rbind (mapM (\<lambda>i. find_coin i ordered) ids) (\<lambda>chosen.
      if list_ex (\<lambda>c. c = None) chosen then Inl (CoreFailure UNCONFIRMED ''selection'')
      else rbind (sort_coins (map the chosen)) (\<lambda>selected.
      if list_ex (\<lambda>c. \<not> matching context owner c) selected then Inl invalid_selection
      else if list_ex (\<lambda>c. \<not> confirmed context c) selected then Inl (CoreFailure UNCONFIRMED ''selection'')
      else if \<not> feasible target selected
        then Inl (CoreFailure (if sum_coins selected < target then INSUFFICIENT else UNCONSTRUCTABLE) ''selection'')
      else Inr selected))))"

definition select_automatic :: "Context \<Rightarrow> OwnedUtxo list \<Rightarrow> string \<Rightarrow> int \<Rightarrow> OwnedUtxo list res" where
  "select_automatic context ordered owner target =
     (let eligible = filter (matching context owner) ordered;
          available' = filter (confirmed context) eligible;
          singles = filter (\<lambda>c. feasible target [c]) available'
      in if singles \<noteq> [] then Inr [hd (sort_key (\<lambda>c. (coin_amount c, coin_number c)) singles)]
      else case bestPair available' target of
        Some pair \<Rightarrow> Inr pair
      | None \<Rightarrow>
        (let uncertain = filter (\<lambda>c. coin_status c = pending \<or> coin_status c = unknown \<or>
                             (coin_status c = available \<and> \<not> confirmed context c)) eligible
         in rbind (sort_coins (available' @ uncertain)) (\<lambda>possiblyAvailable.
         if uncertain \<noteq> [] \<and>
            (list_ex (\<lambda>c. feasible target [c]) possiblyAvailable \<or> bestPair possiblyAvailable target \<noteq> None)
         then Inl (CoreFailure UNCONFIRMED ''selection'')
         else Inl (CoreFailure (if sum_coins possiblyAvailable < target then INSUFFICIENT else UNCONSTRUCTABLE) ''selection''))))"

definition selectInputs :: "Context \<Rightarrow> OwnedUtxo list \<Rightarrow> SelectionOptions \<Rightarrow> OwnedUtxo list res" where
  "selectInputs context candidates opts =
     (if (sel_kind opts \<noteq> 1 \<and> sel_kind opts \<noteq> 2) \<or> sel_amount opts < 1
         \<or> sel_amount opts > (if sel_kind opts = 1 then M_max else 2 * M_max)
      then Inl invalid_selection
      else rbind (sort_coins candidates) (\<lambda>ordered.
      rbind (check_ordered ordered) (\<lambda>_.
      case sel_explicitIds opts of
        Some explicitIds \<Rightarrow> select_explicit context ordered (sel_owner opts) (sel_amount opts) explicitIds
      | None \<Rightarrow> select_automatic context ordered (sel_owner opts) (sel_amount opts))))"

section \<open>Lemmas\<close>

lemma sum_coins_eq: "sum_coins cs = sum_list (map coin_amount cs)"
proof -
  have "foldl (\<lambda>total coin. total + coin_amount coin) a cs = a + sum_list (map coin_amount cs)" for a
    by (induction cs arbitrary: a) auto
  then show ?thesis by (simp add: sum_coins_def)
qed

lemma sum_coins_simps [simp]:
  "sum_coins [] = 0" "sum_coins (c # cs) = coin_amount c + sum_coins cs"
  by (simp_all add: sum_coins_eq)

lemma sum_coins_mset: "mset cs = mset ds \<Longrightarrow> sum_coins cs = sum_coins ds"
  unfolding sum_coins_eq by (metis mset_map sum_mset_sum_list)

lemma set_ordered_pairs: "(c, d) \<in> set (ordered_pairs xs) \<Longrightarrow> c \<in> set xs \<and> d \<in> set xs"
  by (induction xs) auto

lemma ordered_pairs_complete:
  "distinct xs \<Longrightarrow> c \<in> set xs \<Longrightarrow> d \<in> set xs \<Longrightarrow> c \<noteq> d \<Longrightarrow>
   (c, d) \<in> set (ordered_pairs xs) \<or> (d, c) \<in> set (ordered_pairs xs)"
  by (induction xs) auto

lemma ordered_pairs_distinct: "distinct xs \<Longrightarrow> (c, d) \<in> set (ordered_pairs xs) \<Longrightarrow> c \<noteq> d"
  by (induction xs) auto

text \<open>What the fold over pairs keeps: the best feasible pair so far.\<close>

definition pair_change :: "int \<Rightarrow> OwnedUtxo \<times> OwnedUtxo \<Rightarrow> int" where
  "pair_change target = (\<lambda>(c, d). sum_coins [c, d] - target)"

definition feasible_pair :: "int \<Rightarrow> OwnedUtxo \<times> OwnedUtxo \<Rightarrow> bool" where
  "feasible_pair target = (\<lambda>(c, d). feasible target [c, d])"

lemma better_pair_eq:
  "better_pair target best p =
   (if \<not> feasible_pair target p then best
    else case best of
      None \<Rightarrow> Some ([fst p, snd p], pair_change target p)
    | Some (pair, change) \<Rightarrow> if pair_change target p < change then Some ([fst p, snd p], pair_change target p) else best)"
  by (cases p) (auto simp: better_pair_def feasible_pair_def pair_change_def Let_def split: option.split)

text \<open>The first of the pairs that leave the least change.\<close>

definition best_of :: "int \<Rightarrow> (OwnedUtxo \<times> OwnedUtxo) list \<Rightarrow> (OwnedUtxo list \<times> int) option \<Rightarrow> bool" where
  "best_of target ps best \<longleftrightarrow> (case best of
     None \<Rightarrow> \<forall>p \<in> set ps. \<not> feasible_pair target p
   | Some (pair, change) \<Rightarrow> \<exists>as p bs. ps = as @ p # bs \<and> pair = [fst p, snd p] \<and> feasible_pair target p \<and>
       change = pair_change target p \<and> (\<forall>q \<in> set as. feasible_pair target q \<longrightarrow> change < pair_change target q) \<and>
       (\<forall>q \<in> set bs. feasible_pair target q \<longrightarrow> change \<le> pair_change target q))"

lemma best_of_SomeI:
  "feasible_pair target p \<Longrightarrow> (\<And>q. q \<in> set as \<Longrightarrow> feasible_pair target q \<Longrightarrow> pair_change target p < pair_change target q) \<Longrightarrow>
   (\<And>q. q \<in> set bs \<Longrightarrow> feasible_pair target q \<Longrightarrow> pair_change target p \<le> pair_change target q) \<Longrightarrow>
   best_of target (as @ p # bs) (Some ([fst p, snd p], pair_change target p))"
  unfolding best_of_def option.case prod.case by (intro exI [where x = p] exI [where x = as] exI [where x = bs]) blast

lemma better_pair_step:
  assumes "best_of target ps best"
  shows "best_of target (ps @ [p]) (better_pair target best p)"
proof (cases best)
  case None
  with assms have "\<forall>q \<in> set ps. \<not> feasible_pair target q" by (simp add: best_of_def)
  then show ?thesis using best_of_SomeI [of target p ps "[]"] None by (auto simp: better_pair_eq best_of_def)
next
  case (Some b)
  then obtain pair change where best: "best = Some (pair, change)" by (cases b) auto
  from assms best obtain as q bs where q: "ps = as @ q # bs" "pair = [fst q, snd q]" "feasible_pair target q"
    "change = pair_change target q" "\<forall>r \<in> set as. feasible_pair target r \<longrightarrow> change < pair_change target r"
    "\<forall>r \<in> set bs. feasible_pair target r \<longrightarrow> change \<le> pair_change target r"
    by (auto simp: best_of_def)
  show ?thesis
  proof (cases "feasible_pair target p \<and> pair_change target p < change")
    case True
    then have "\<forall>r \<in> set ps. feasible_pair target r \<longrightarrow> pair_change target p < pair_change target r" using q by fastforce
    with True best show ?thesis using best_of_SomeI [of target p ps "[]"] by (simp add: better_pair_eq)
  next
    case False
    with best q have "better_pair target best p = best" by (auto simp: better_pair_eq)
    have "best_of target (as @ q # bs @ [p]) (Some ([fst q, snd q], pair_change target q))"
      using q False by (intro best_of_SomeI) auto
    with \<open>better_pair target best p = best\<close> best q(1,2,4) show ?thesis by simp
  qed
qed

lemma better_pair_fold: "best_of target ps (foldl (better_pair target) None ps)"
proof (induction ps rule: rev_induct)
  case Nil
  then show ?case by (simp add: best_of_def)
next
  case (snoc p ps)
  from better_pair_step [OF this, of p] show ?case by simp
qed

lemma bestPair_None: "bestPair coins target = None \<longleftrightarrow> (\<forall>p \<in> set (ordered_pairs coins). \<not> feasible_pair target p)"
  using better_pair_fold [of target "ordered_pairs coins"]
  by (auto simp: bestPair_def best_of_def split: option.splits)

text \<open>The pairs of a sorted list come in the order of their two keys.\<close>

lemma ordered_pairs_sorted:
  "sorted (map f xs) \<Longrightarrow> distinct (map f xs) \<Longrightarrow> sorted (map (\<lambda>(c, d). (f c, f d)) (ordered_pairs xs))" for f :: "'a \<Rightarrow> 'b :: linorder"
proof (induction xs)
  case (Cons x xs)
  have "sorted (map (\<lambda>d. (f x, f d)) xs)"
    using Cons.prems by (auto simp: sorted_iff_nth_mono)
  moreover have "f x < f y" if "y \<in> set xs" for y
    using Cons.prems that by (auto simp: less_le image_iff)
  ultimately show ?case using Cons by (auto simp: sorted_append comp_def dest!: set_ordered_pairs)
qed simp

lemma ordered_pairs_less:
  "sorted (map f xs) \<Longrightarrow> distinct (map f xs) \<Longrightarrow> (c, d) \<in> set (ordered_pairs xs) \<Longrightarrow> f c < f d" for f :: "'a \<Rightarrow> 'b :: linorder"
proof (induction xs)
  case (Cons x xs)
  then show ?case by (auto simp: less_le image_iff)
qed simp

lemma bestPair_Some:
  assumes "bestPair coins target = Some pair" and "sorted (map coin_number coins)" and "distinct (map coin_number coins)"
  obtains c d where "(c, d) \<in> set (ordered_pairs coins)" and "pair = [c, d]" and "feasible_pair target (c, d)"
    and "\<And>a b. (a, b) \<in> set (ordered_pairs coins) \<Longrightarrow> feasible_pair target (a, b) \<Longrightarrow>
      (pair_change target (c, d), coin_number c, coin_number d) \<le> (pair_change target (a, b), coin_number a, coin_number b)"
proof -
  from assms(1) obtain change where "foldl (better_pair target) None (ordered_pairs coins) = Some (pair, change)"
    by (auto simp: bestPair_def)
  with better_pair_fold [of target "ordered_pairs coins"] obtain as p bs where
    p: "ordered_pairs coins = as @ p # bs" "pair = [fst p, snd p]" "feasible_pair target p"
      "\<forall>q \<in> set as. feasible_pair target q \<longrightarrow> pair_change target p < pair_change target q"
      "\<forall>q \<in> set bs. feasible_pair target q \<longrightarrow> pair_change target p \<le> pair_change target q"
    by (auto simp: best_of_def)
  obtain c d where cd: "p = (c, d)" by (cases p)
  have "(pair_change target (c, d), coin_number c, coin_number d) \<le> (pair_change target (a, b), coin_number a, coin_number b)"
    if ab: "(a, b) \<in> set (ordered_pairs coins)" "feasible_pair target (a, b)" for a b
  proof -
    consider "(a, b) \<in> set as" | "(a, b) = (c, d)" | "(a, b) \<in> set bs" using ab(1) p(1) cd by auto
    then show ?thesis
    proof cases
      case 1
      then show ?thesis using p(4) ab(2) cd by fastforce
    next
      case 3
      then have "(coin_number c, coin_number d) \<le> (coin_number a, coin_number b)"
        using ordered_pairs_sorted [OF assms(2,3)] p(1) cd by (auto simp: sorted_append)
      with 3 show ?thesis using p(5) ab(2) cd by fastforce
    qed simp
  qed
  then show ?thesis using p cd by (intro that [of c d]) auto
qed

lemma check_ordered_eq_Inr:
  "check_ordered cs = Inr () \<longleftrightarrow> list_all (\<lambda>c. 1 \<le> coin_amount c \<and> coin_amount c \<le> M_max) cs \<and>
     successively (\<lambda>c d. coin_number c \<noteq> coin_number d) cs"
  by (induction cs rule: check_ordered.induct) (auto split: list.splits)

lemma sorted_distinct_numbers:
  "sorted (map coin_number cs) \<Longrightarrow> successively (\<lambda>c d. coin_number c \<noteq> coin_number d) cs \<Longrightarrow>
   distinct (map coin_number cs)"
proof (induction cs)
  case (Cons c cs)
  then show ?case
  proof (cases cs)
    case (Cons d ds)
    with Cons.prems have lt: "coin_number c < coin_number d" by (auto simp: less_le)
    have "coin_number c < coin_number e" if "e \<in> set cs" for e
      using that Cons.prems(1) lt Cons by (auto intro: less_le_trans)
    with Cons.IH Cons.prems Cons show ?thesis by auto
  qed simp
qed simp

text \<open>The part of \<open>selectInputs\<close> before the choice, on accepted candidates.\<close>

definition accepted_candidates :: "OwnedUtxo list \<Rightarrow> bool" where
  "accepted_candidates cs \<longleftrightarrow> (length cs \<ge> 2 \<longrightarrow> list_all (\<lambda>c. bytes (coin_id c) 32) cs) \<and>
     list_all (\<lambda>c. 1 \<le> coin_amount c \<and> coin_amount c \<le> M_max) cs \<and> distinct (map coin_number cs)"

definition accepted_target :: "SelectionOptions \<Rightarrow> bool" where
  "accepted_target opts \<longleftrightarrow> sel_kind opts \<in> {1, 2} \<and> 1 \<le> sel_amount opts \<and>
     sel_amount opts \<le> (if sel_kind opts = 1 then M_max else 2 * M_max)"

lemma accepted_sorted:
  "(\<exists>ordered. sort_coins cs = Inr ordered \<and> check_ordered ordered = Inr ()) \<longleftrightarrow> accepted_candidates cs"
proof -
  have l: "list_all P (sort_key coin_number cs) \<longleftrightarrow> list_all P cs" for P by (simp add: list_all_iff)
  have d: "distinct (map coin_number (sort_key coin_number cs)) \<longleftrightarrow> distinct (map coin_number cs)"
    by (simp add: distinct_map)
  have s: "successively (\<lambda>c d. coin_number c \<noteq> coin_number d) (sort_key coin_number cs)"
    if "distinct (map coin_number (sort_key coin_number cs))"
    using that by (auto simp: successively_conv_nth nth_eq_iff_index_eq distinct_conv_nth)
  show ?thesis
    using sorted_distinct_numbers [of "sort_key coin_number cs"] s
    by (auto simp: sort_coins_def accepted_candidates_def check_ordered_eq_Inr l d)
qed

lemma selectInputs_cases:
  "selectInputs context cs opts =
   (if accepted_target opts \<and> accepted_candidates cs then
      (case sel_explicitIds opts of
         Some ids \<Rightarrow> select_explicit context (sort_key coin_number cs) (sel_owner opts) (sel_amount opts) ids
       | None \<Rightarrow> select_automatic context (sort_key coin_number cs) (sel_owner opts) (sel_amount opts))
    else Inl invalid_selection)"
proof -
  have c: "check_ordered xs = Inr () \<or> check_ordered xs = Inl invalid_selection" for xs
    by (induction xs rule: check_ordered.induct) (auto split: list.splits)
  show ?thesis
    using accepted_sorted [of cs] c [of "sort_key coin_number cs"]
    by (auto simp: selectInputs_def sort_coins_def accepted_target_def split: if_splits)
qed

text \<open>The coins that may be spent now, and those that may become spendable.\<close>

definition spendable :: "Context \<Rightarrow> string \<Rightarrow> OwnedUtxo list \<Rightarrow> OwnedUtxo set" where
  "spendable context owner cs = {c \<in> set cs. matching context owner c \<and> confirmed context c}"

definition uncertain_coin :: "Context \<Rightarrow> OwnedUtxo \<Rightarrow> bool" where
  "uncertain_coin context c \<longleftrightarrow> coin_status c = pending \<or> coin_status c = unknown \<or>
     (coin_status c = available \<and> \<not> confirmed context c)"

definition possible :: "Context \<Rightarrow> string \<Rightarrow> OwnedUtxo list \<Rightarrow> OwnedUtxo list" where
  "possible context owner cs = filter (\<lambda>c. matching context owner c \<and> (confirmed context c \<or> uncertain_coin context c)) cs"

text \<open>One or two of the coins pay the amount with change at most \<open>M\<close>.\<close>

definition payable :: "int \<Rightarrow> OwnedUtxo set \<Rightarrow> bool" where
  "payable target S \<longleftrightarrow> (\<exists>c \<in> S. feasible target [c]) \<or> (\<exists>c \<in> S. \<exists>d \<in> S. c \<noteq> d \<and> feasible target [c, d])"

lemma feasible_swap: "feasible target [c, d] \<longleftrightarrow> feasible target [d, c]"
  by (simp add: feasible_def add.commute)

lemma bestPair_None_iff:
  "distinct coins \<Longrightarrow> bestPair coins target = None \<longleftrightarrow>
   \<not> (\<exists>c \<in> set coins. \<exists>d \<in> set coins. c \<noteq> d \<and> feasible target [c, d])"
proof -
  assume d: "distinct coins"
  have "(\<exists>p \<in> set (ordered_pairs coins). feasible_pair target p) \<longleftrightarrow>
      (\<exists>c \<in> set coins. \<exists>d \<in> set coins. c \<noteq> d \<and> feasible target [c, d])"
  proof
    assume "\<exists>p \<in> set (ordered_pairs coins). feasible_pair target p"
    then obtain c e where "(c, e) \<in> set (ordered_pairs coins)" "feasible target [c, e]"
      by (auto simp: feasible_pair_def)
    then show "\<exists>c \<in> set coins. \<exists>d \<in> set coins. c \<noteq> d \<and> feasible target [c, d]"
      using set_ordered_pairs [of c e coins] ordered_pairs_distinct [OF d, of c e] by auto
  next
    assume "\<exists>c \<in> set coins. \<exists>d \<in> set coins. c \<noteq> d \<and> feasible target [c, d]"
    then obtain c e where ce: "c \<in> set coins" "e \<in> set coins" "c \<noteq> e" "feasible target [c, e]" by blast
    from ordered_pairs_complete [OF d ce(1-3)]
    show "\<exists>p \<in> set (ordered_pairs coins). feasible_pair target p"
      using ce(4) feasible_swap [of target c e] by (auto simp: feasible_pair_def)
  qed
  then show ?thesis by (auto simp: bestPair_None)
qed

lemma hd_sort_key_min:
  assumes "xs \<noteq> []"
  shows "hd (sort_key f xs) \<in> set xs" and "x \<in> set xs \<Longrightarrow> f (hd (sort_key f xs)) \<le> f x"
proof -
  obtain y ys where y: "sort_key f xs = y # ys" using assms by (metis list.exhaust set_empty set_sort)
  have "set (sort_key f xs) = set xs" by simp
  with y show "hd (sort_key f xs) \<in> set xs" by auto
  have "sorted (map f (y # ys))" using sorted_sort_key [of f xs] y by simp
  moreover assume "x \<in> set xs"
  then have "x \<in> set (y # ys)" using y by (metis set_sort)
  ultimately show "f (hd (sort_key f xs)) \<le> f x" by (auto simp: y)
qed

text \<open>A chosen pair has the least change, then the least identifiers, the smaller first.\<close>

definition least_pair :: "OwnedUtxo \<times> OwnedUtxo \<Rightarrow> OwnedUtxo list \<Rightarrow> bool" where
  "least_pair = (\<lambda>(c, d) sel. (sum_coins sel, coin_number (sel ! 0), coin_number (sel ! 1)) \<le>
     (sum_coins [c, d], min (coin_number c) (coin_number d), max (coin_number c) (coin_number d)))"

lemma select_automatic_sound:
  assumes sorted: "sorted (map coin_number ordered)" and d: "distinct (map coin_number ordered)"
    and sel: "select_automatic context ordered owner target = Inr sel"
  defines "S \<equiv> spendable context owner ordered"
  shows "set sel \<subseteq> S \<and> distinct sel \<and> length sel \<in> {1, 2} \<and> feasible target sel \<and>
    (\<forall>c \<in> S. feasible target [c] \<longrightarrow> length sel = 1 \<and>
       (coin_amount (hd sel), coin_number (hd sel)) \<le> (coin_amount c, coin_number c)) \<and>
    (length sel = 2 \<longrightarrow> coin_number (sel ! 0) < coin_number (sel ! 1)) \<and>
    (\<forall>c \<in> S. \<forall>d \<in> S. c \<noteq> d \<longrightarrow> feasible target [c, d] \<longrightarrow> length sel = 2 \<longrightarrow> least_pair (c, d) sel)"
proof -
  let ?av = "filter (confirmed context) (filter (matching context owner) ordered)"
  let ?singles = "filter (\<lambda>c. feasible target [c]) ?av"
  have S: "set ?av = S" by (auto simp: S_def spendable_def)
  have dav: "distinct (map coin_number ?av)" and dav': "distinct ?av" and sav: "sorted (map coin_number ?av)"
    using d sorted by (simp_all only: distinct_map_filter sorted_filter) (simp add: distinct_map)
  show ?thesis
  proof (cases "?singles = []")
    case False
    let ?m = "hd (sort_key (\<lambda>c. (coin_amount c, coin_number c)) ?singles)"
    from sel False have m: "sel = [?m]" by (simp add: select_automatic_def Let_def)
    note min = hd_sort_key_min [OF False, where f = "\<lambda>c. (coin_amount c, coin_number c)"]
    have in_S: "?m \<in> S" and f: "feasible target [?m]" using min(1) S by auto
    have "(coin_amount ?m, coin_number ?m) \<le> (coin_amount c, coin_number c)" if "c \<in> S" "feasible target [c]" for c
      using min(2) [of c] that S by auto
    with in_S f show ?thesis unfolding m by simp
  next
    case True
    then have none: "\<not> feasible target [c]" if "c \<in> S" for c using that S by (auto simp: filter_empty_conv)
    from sel True obtain pair where "bestPair ?av target = Some pair" and "sel = pair"
      by (auto simp: select_automatic_def Let_def rbind_eq_Inr split: option.splits if_splits)
    then obtain c d where cd: "(c, d) \<in> set (ordered_pairs ?av)" "sel = [c, d]" "feasible_pair target (c, d)"
      and best: "\<And>a b. (a, b) \<in> set (ordered_pairs ?av) \<Longrightarrow> feasible_pair target (a, b) \<Longrightarrow>
        (pair_change target (c, d), coin_number c, coin_number d) \<le> (pair_change target (a, b), coin_number a, coin_number b)"
      using bestPair_Some [OF _ sav dav] by metis
    note less = ordered_pairs_less [OF sav dav]
    have "c \<noteq> d" using ordered_pairs_distinct [OF dav' cd(1)] .
    moreover have "c \<in> S" "d \<in> S" using set_ordered_pairs [OF cd(1)] S by auto
    moreover have "least_pair (a, b) sel" if ab: "a \<in> S" "b \<in> S" "a \<noteq> b" "feasible target [a, b]" for a b
    proof -
      have least: "least_pair (x, y) sel \<and> least_pair (y, x) sel" if "(x, y) \<in> set (ordered_pairs ?av)" "feasible target [x, y]" for x y
        using best [OF that(1)] less [OF that(1)] that(2) cd(2)
        by (auto simp: feasible_pair_def pair_change_def least_pair_def min_def max_def add.commute)
      consider "(a, b) \<in> set (ordered_pairs ?av)" | "(b, a) \<in> set (ordered_pairs ?av)"
        using ordered_pairs_complete [OF dav' _ _ ab(3)] ab(1,2) S by auto
      then show ?thesis using least [of a b] least [of b a] ab(4) feasible_swap [of target a b] by cases auto
    qed
    ultimately show ?thesis using cd none less [OF cd(1)] by (auto simp: feasible_pair_def)
  qed
qed

lemma possible_eq:
  "set (filter (confirmed context) (filter (matching context owner) cs) @
     filter (\<lambda>c. coin_status c = pending \<or> coin_status c = unknown \<or> (coin_status c = available \<and> \<not> confirmed context c))
       (filter (matching context owner) cs)) = set (possible context owner cs)"
  by (auto simp: possible_def uncertain_coin_def)

lemma failure_code:
  "(if A then Inl (CoreFailure u s) else Inl (CoreFailure (if B then i else n) s)) = Inl e \<Longrightarrow>
   e = CoreFailure (if A then u else if B then i else n) s"
  by (auto split: if_splits)

lemma select_automatic_fails:
  assumes d: "distinct ordered" and valid: "length ordered \<ge> 2 \<longrightarrow> list_all (\<lambda>c. bytes (coin_id c) 32) ordered"
    and sel: "select_automatic context ordered owner target = Inl e"
  defines "S \<equiv> spendable context owner ordered" and "W \<equiv> possible context owner ordered"
  shows "\<not> payable target S \<and>
    e = CoreFailure (if payable target (set W) then UNCONFIRMED
                     else if sum_coins W < target then INSUFFICIENT else UNCONSTRUCTABLE) ''selection''"
proof -
  let ?el = "filter (matching context owner) ordered"
  let ?av = "filter (confirmed context) ?el"
  let ?un = "filter (\<lambda>c. coin_status c = pending \<or> coin_status c = unknown \<or> (coin_status c = available \<and> \<not> confirmed context c)) ?el"
  let ?W = "sort_key coin_number (?av @ ?un)"
  have S: "set ?av = S" by (auto simp: S_def spendable_def)
  have dav: "distinct ?av" using d by simp
  have disj: "\<not> confirmed context c" if "c \<in> set ?un" for c using that by (auto simp: confirmed_def)
  then have "set ?av \<inter> set ?un = {}" by auto
  moreover have "distinct ?un" using d by simp
  ultimately have dpos: "distinct (?av @ ?un)" using dav by (simp only: distinct_append)
  then have dW: "distinct ?W" by (simp only: distinct_sort)
  have setW: "set ?W = set W" using possible_eq [of "context" owner ordered] by (simp add: W_def)
  have "length (?av @ ?un) \<le> length ordered"
  proof -
    have "card (set (?av @ ?un)) \<le> card (set ordered)" by (rule card_mono) auto
    then show ?thesis using d dpos by (simp only: distinct_card)
  qed
  then have sorted: "sort_coins (?av @ ?un) = Inr ?W"
    using valid by (auto simp: sort_coins_def list_all_iff)
  have sumW: "sum_coins ?W = sum_coins W"
  proof -
    have "mset ?W = mset W"
      by (rule set_eq_iff_mset_eq_distinct [THEN iffD1, OF dW _ setW]) (use d in \<open>simp add: W_def possible_def\<close>)
    then show ?thesis by (rule sum_coins_mset)
  qed
  from sel have no1: "filter (\<lambda>c. feasible target [c]) ?av = []" and no2: "bestPair ?av target = None"
    by (auto simp: select_automatic_def Let_def split: if_splits option.splits)
  from no1 S have n1: "\<not> (\<exists>c \<in> S. feasible target [c])" by (auto simp: filter_empty_conv)
  from no2 S have n2: "\<not> (\<exists>c \<in> S. \<exists>d \<in> S. c \<noteq> d \<and> feasible target [c, d])"
    using bestPair_None_iff [OF dav, of target] by simp
  have e: "e = CoreFailure (if ?un \<noteq> [] \<and> (list_ex (\<lambda>c. feasible target [c]) ?W \<or> bestPair ?W target \<noteq> None)
      then UNCONFIRMED else if sum_coins ?W < target then INSUFFICIENT else UNCONSTRUCTABLE) ''selection''"
    using sel
    by (intro failure_code) (simp only: select_automatic_def Let_def no1 no2 sorted option.case simp_thms if_False rbind_Inr)
  have pW: "list_ex (\<lambda>c. feasible target [c]) ?W \<or> bestPair ?W target \<noteq> None \<longleftrightarrow> payable target (set W)"
    unfolding payable_def bestPair_None_iff [OF dW] list_ex_iff setW by auto
  have "?un \<noteq> []" if "payable target (set W)"
  proof
    assume "?un = []"
    then have "set W = S" using setW S by auto
    with that n1 n2 show False by (simp add: payable_def)
  qed
  with e pW n1 n2 sumW show ?thesis by (auto simp: payable_def)
qed

lemma find_coin_Some: "find_coin i cs = Inr (Some c) \<Longrightarrow> c \<in> set cs \<and> bytes (coin_id c) 32 \<and> coin_number c = i"
  by (induction i cs rule: find_coin.induct)
     (auto simp: rbind_eq_Inr numericId_def coin_number_def split: if_splits)

lemma sort_coins_eq_Inr: "sort_coins cs = Inr ds \<Longrightarrow> ds = sort_key coin_number cs"
  by (auto simp: sort_coins_def split: if_splits)

lemma select_explicit_sound:
  assumes sel: "select_explicit context ordered owner target ids = Inr sel"
  shows "set sel \<subseteq> spendable context owner ordered \<and> distinct sel \<and> length sel = length ids \<and> length sel \<in> {1, 2} \<and>
    feasible target sel \<and> coin_number ` set sel = BigInt_hex ` set ids"
proof -
  from sel obtain ns chosen where ids: "\<not> length ids < 1" "\<not> 2 < length ids" "mapM numericId ids = Inr ns" "distinct ns"
    and chosen: "mapM (\<lambda>i. find_coin i ordered) ns = Inr chosen" "None \<notin> set chosen"
    and s: "sort_coins (map the chosen) = Inr sel"
    and ok: "list_all (matching context owner) sel" "list_all (confirmed context) sel" "feasible target sel"
    by (auto simp: select_explicit_def rbind_eq_Inr list_ex_iff list_all_iff split: if_splits)
  from ids(1,2) have idlen: "length ids \<in> {1, 2}" by (simp, linarith)
  have ns: "ns = map BigInt_hex ids"
    using ids(3) by (auto simp: mapM_eq_Inr numericId_def list_all2_conv_all_nth intro!: nth_equalityI split: if_splits)
  have find: "find_coin (ns ! i) ordered = Inr (chosen ! i)" "length chosen = length ns" if "i < length ns" for i
    using chosen(1) that by (auto simp: mapM_eq_Inr list_all2_conv_all_nth)
  have len: "length chosen = length ns" using chosen(1) by (rule mapM_length)
  have each: "the (chosen ! i) \<in> set ordered \<and> coin_number (the (chosen ! i)) = ns ! i" if "i < length ns" for i
  proof -
    have "chosen ! i \<noteq> None" using chosen(2) that len nth_mem [of i chosen] by metis
    then obtain c where "chosen ! i = Some c" by blast
    with find(1) [OF that] find_coin_Some [of "ns ! i" ordered c] show ?thesis by simp
  qed
  have nums: "map coin_number (map the chosen) = ns"
    using each len by (intro nth_equalityI) simp_all
  have sel_eq: "sel = sort_key coin_number (map the chosen)" by (rule sort_coins_eq_Inr [OF s])
  have set_sel: "set sel = set (map the chosen)" by (simp add: sel_eq)
  have dist: "distinct (map the chosen)" using nums ids(4) by (metis distinct_map)
  have "length ns = length ids" by (simp add: ns)
  moreover have "coin_number ` set sel = set ns" unfolding set_sel using nums by (metis set_map)
  moreover have "set sel \<subseteq> set ordered"
    using each len unfolding set_sel by (auto simp: in_set_conv_nth)
  ultimately show ?thesis
    using ok dist len idlen by (auto simp: sel_eq spendable_def list_all_iff ns)
qed

lemma selectInputs_sound:
  assumes "selectInputs context cs opts = Inr sel"
  shows "set sel \<subseteq> spendable context (sel_owner opts) cs \<and> distinct sel \<and> length sel \<in> {1, 2} \<and>
    feasible (sel_amount opts) sel \<and> accepted_target opts"
proof -
  let ?o = "sort_key coin_number cs"
  have s: "spendable context owner ?o = spendable context owner cs" for owner
    by (simp add: spendable_def)
  from assms have a: "accepted_target opts" "accepted_candidates cs"
    and run: "(case sel_explicitIds opts of
         Some ids \<Rightarrow> select_explicit context ?o (sel_owner opts) (sel_amount opts) ids
       | None \<Rightarrow> select_automatic context ?o (sel_owner opts) (sel_amount opts)) = Inr sel"
    by (auto simp: selectInputs_cases split: if_splits)
  have d: "distinct (map coin_number ?o)" using a(2) by (simp add: accepted_candidates_def distinct_map)
  show ?thesis
  proof (cases "sel_explicitIds opts")
    case None
    with run have "select_automatic context ?o (sel_owner opts) (sel_amount opts) = Inr sel" by simp
    from select_automatic_sound [OF _ d this] a(1) s show ?thesis by simp
  next
    case (Some ids)
    with run have "select_explicit context ?o (sel_owner opts) (sel_amount opts) ids = Inr sel" by simp
    from select_explicit_sound [OF this] a(1) s show ?thesis by auto
  qed
qed

lemma selectInputs_explicit:
  assumes "selectInputs context cs opts = Inr sel" and "sel_explicitIds opts = Some ids"
  shows "coin_number ` set sel = BigInt_hex ` set ids"
proof -
  from assms have "select_explicit context (sort_key coin_number cs) (sel_owner opts) (sel_amount opts) ids = Inr sel"
    by (auto simp: selectInputs_cases split: if_splits)
  from select_explicit_sound [OF this] show ?thesis by simp
qed

section \<open>Properties\<close>

lemma spendable_sorted [simp]: "spendable context owner (sort_key f cs) = spendable context owner cs"
  by (simp add: spendable_def)

lemma distinct_sort_numbers: "distinct (map coin_number cs) \<Longrightarrow> distinct cs"
  by (simp add: distinct_map)

lemma pool_variants: "sameText (address_of (CHR ''A'')) (address_of (CHR ''a''))"
  by code_simp

definition example_coin :: "char \<Rightarrow> int \<Rightarrow> CoinStatus \<Rightarrow> OwnedUtxo" where
  "example_coin c a status = \<lparr>coin_id = hash_of c, coin_owner = address_of (CHR ''b''),
     coin_opening = \<lparr>amount = a, blinding = 0\<rparr>, coin_commitment = zero_point,
     coin_checkpoint = \<lparr>cp_number = 12, cp_hash = hash_of (CHR ''d''), cp_mode = finalized\<rparr>,
     coin_status = status, coin_chainId = 1, coin_pool = address_of (CHR ''A'')\<rparr>"

definition example_options :: "int \<Rightarrow> SelectionOptions" where
  "example_options n = \<lparr>sel_kind = 1, sel_owner = address_of (CHR ''B''), sel_amount = n, sel_explicitIds = None\<rparr>"

fun repunit :: "nat \<Rightarrow> nat" where
  "repunit 0 = 0"
| "repunit (Suc n) = 16 ^ n + repunit n"

lemma hex_replicate: "hex_digits_value (replicate n c) = hex_value c * repunit n"
  by (induction n) (simp_all add: hex_digits_value_Cons algebra_simps)

lemma repunit_pos: "0 < n \<Longrightarrow> 0 < repunit n"
  by (cases n) simp_all

lemma example_coin_number [simp]: "coin_number (example_coin c a status) = int (hex_value c * repunit 64)"
  by (simp add: coin_number_def example_coin_def hash_of_def BigInt_hex_def hex_replicate)

lemma example_coin_simps [simp]:
  "coin_id (example_coin c a status) = hash_of c" "coin_amount (example_coin c a status) = a"
  "coin_status (example_coin c a status) = status"
  "matching example_context (address_of (CHR ''B'')) (example_coin c a status)"
  "confirmed example_context (example_coin c a status) \<longleftrightarrow> status = available"
  using case_variants
  by (simp_all add: example_coin_def coin_amount_def matching_def confirmed_def example_context_def sameText_sym
      pool_variants)

lemma hex_values [simp]: "hex_value (CHR ''1'') = 1" "hex_value (CHR ''2'') = 2" "is_hex (CHR ''2'')"
  by (simp_all add: hex_value_def is_hex_def)

lemmas selection_simps = selectInputs_cases accepted_target_def accepted_candidates_def example_options_def M_max_eq
  address_of_bytes select_automatic_def feasible_def bestPair_def better_pair_eq feasible_pair_def pair_change_def
  sort_coins_def repunit_pos insort_key.simps

text \<open>C9: An automatic selection is sound and optimal: it takes one or two different coins that match the chain, pool
  and owner and are confirmed, and pays the amount with change at most \<open>M\<close>; if one spendable coin can pay, one is
  taken, the smallest amount and then the smallest identifier; if two are needed, they are in the order of their
  identifiers and are the least of all spendable pairs that can pay, by change and then by the pair of identifiers.\<close>

theorem selection_sound_and_optimal:
  assumes "selectInputs context cs opts = Inr sel" and "sel_explicitIds opts = None"
  shows "accepted_target opts \<and> accepted_candidates cs \<and>
    set sel \<subseteq> spendable context (sel_owner opts) cs \<and> distinct sel \<and> length sel \<in> {1, 2} \<and>
    feasible (sel_amount opts) sel \<and>
    (\<forall>c \<in> spendable context (sel_owner opts) cs. feasible (sel_amount opts) [c] \<longrightarrow> length sel = 1 \<and>
       (coin_amount (hd sel), coin_number (hd sel)) \<le> (coin_amount c, coin_number c)) \<and>
    (length sel = 2 \<longrightarrow> coin_number (sel ! 0) < coin_number (sel ! 1)) \<and>
    (\<forall>c \<in> spendable context (sel_owner opts) cs. \<forall>d \<in> spendable context (sel_owner opts) cs.
       c \<noteq> d \<longrightarrow> feasible (sel_amount opts) [c, d] \<longrightarrow> length sel = 2 \<longrightarrow>
       (sum_coins sel, coin_number (sel ! 0), coin_number (sel ! 1)) \<le>
       (sum_coins [c, d], min (coin_number c) (coin_number d), max (coin_number c) (coin_number d)))"
proof -
  from assms have a: "accepted_target opts" "accepted_candidates cs"
    and s: "select_automatic context (sort_key coin_number cs) (sel_owner opts) (sel_amount opts) = Inr sel"
    by (auto simp: selectInputs_cases split: if_splits)
  have d: "distinct (map coin_number (sort_key coin_number cs))" using a(2) by (simp add: accepted_candidates_def distinct_map)
  from select_automatic_sound [OF _ d s] a show ?thesis by (simp add: least_pair_def)
qed

lemma example_selection:
  "selectInputs example_context [example_coin (CHR ''2'') 4 available, example_coin (CHR ''1'') 3 available] (example_options 6)
   = Inr [example_coin (CHR ''1'') 3 available, example_coin (CHR ''2'') 4 available]"
  by (simp add: selection_simps del: repunit.simps)

theorem selection_sound_and_optimal_witness:
  "feasible 6 [example_coin (CHR ''1'') 3 available, example_coin (CHR ''2'') 4 available]"
  using selection_sound_and_optimal [OF example_selection] by (simp add: example_options_def)

text \<open>Lists of no, one, two and more elements.\<close>

lemma list3_cases:
  obtains "xs = []" | a where "xs = [a]" | a b where "xs = [a, b]" | a b c cs where "xs = a # b # c # cs"
  by (cases xs; cases "tl xs"; cases "tl (tl xs)") auto

text \<open>C10: An automatic selection with an accepted amount and candidates succeeds exactly when one or two spendable coins
  can pay; otherwise it fails with \<open>UNCONFIRMED\<close> exactly when coins that are pending, unknown or not yet final would make
  it payable, and else with \<open>INSUFFICIENT\<close> or \<open>UNCONSTRUCTABLE\<close> by the total; any other amount or candidates fail with
  \<open>INVALID_INPUT\<close>.\<close>

theorem selection_failure_exact:
  assumes "sel_explicitIds opts = None"
  shows "if \<not> (accepted_target opts \<and> accepted_candidates cs)
    then selectInputs context cs opts = Inl (CoreFailure INVALID_INPUT ''selection'')
    else if payable (sel_amount opts) (spendable context (sel_owner opts) cs)
    then \<exists>sel. selectInputs context cs opts = Inr sel
    else selectInputs context cs opts =
      Inl (CoreFailure (if payable (sel_amount opts) (set (possible context (sel_owner opts) cs)) then UNCONFIRMED
            else if sum_coins (possible context (sel_owner opts) cs) < sel_amount opts then INSUFFICIENT
            else UNCONSTRUCTABLE) ''selection'')"
proof (cases "accepted_target opts \<and> accepted_candidates cs")
  case True
  let ?o = "sort_key coin_number cs" and ?S = "spendable context (sel_owner opts) cs"
  from True assms have s: "selectInputs context cs opts = select_automatic context ?o (sel_owner opts) (sel_amount opts)"
    by (simp add: selectInputs_cases)
  have d: "distinct (map coin_number ?o)" using True by (simp add: accepted_candidates_def distinct_map)
  have v: "length ?o \<ge> 2 \<longrightarrow> list_all (\<lambda>c. bytes (coin_id c) 32) ?o"
    using True by (simp add: accepted_candidates_def list_all_iff)
  have p: "mset (possible context (sel_owner opts) ?o) = mset (possible context (sel_owner opts) cs)"
    by (simp add: possible_def mset_filter)
  show ?thesis
  proof (cases "select_automatic context ?o (sel_owner opts) (sel_amount opts)")
    case (Inl e)
    from mset_eq_setD [OF p] sum_coins_mset [OF p] select_automatic_fails [OF distinct_sort_numbers [OF d] v Inl] True
    show ?thesis by (simp add: s Inl)
  next
    case (Inr sel)
    from select_automatic_sound [OF _ d Inr] have "set sel \<subseteq> ?S" "distinct sel" "length sel \<in> {1, 2}" "feasible (sel_amount opts) sel"
      by simp_all
    then have "payable (sel_amount opts) ?S"
      unfolding payable_def by (cases sel rule: list3_cases) auto
    with True show ?thesis by (simp add: s Inr)
  qed
next
  case False
  with assms show ?thesis by (auto simp: selectInputs_cases invalid_selection_def)
qed

lemma example_selection_failure:
  "selectInputs example_context [example_coin (CHR ''2'') 4 pending, example_coin (CHR ''1'') 3 available] (example_options 6)
   = Inl (CoreFailure UNCONFIRMED ''selection'')"
  by (simp add: selection_simps del: repunit.simps)

theorem selection_failure_exact_witness:
  "\<not> payable 6 (spendable example_context (address_of (CHR ''B''))
     [example_coin (CHR ''2'') 4 pending, example_coin (CHR ''1'') 3 available])"
  using selection_failure_exact [of "example_options 6" "[example_coin (CHR ''2'') 4 pending, example_coin (CHR ''1'') 3 available]" example_context]
    example_selection_failure
  by (auto simp: example_options_def invalid_selection_def split: if_splits)

text \<open>C11: The selection does not depend on the order in which the candidates are given.\<close>

theorem selection_order_independent:
  assumes "mset cs = mset ds"
  shows "selectInputs context cs opts = selectInputs context ds opts"
proof (cases "distinct (map coin_number cs)")
  case True
  have set: "set cs = set ds" and len: "length cs = length ds"
    using mset_eq_setD [OF assms] mset_eq_length [OF assms] by simp_all
  have acc: "accepted_candidates cs = accepted_candidates ds"
    using assms set len mset_eq_imp_distinct_iff [of "map coin_number cs" "map coin_number ds"]
    by (auto simp: accepted_candidates_def list_all_iff)
  have "inj_on coin_number (set cs)" using True by (simp add: distinct_map)
  then have "sort_key coin_number cs = sort_key coin_number ds"
    using assms by (intro sort_key_inj_key_eq) auto
  with acc show ?thesis by (simp add: selectInputs_cases split: option.split)
next
  case False
  then have "\<not> distinct (map coin_number ds)" using assms by (metis mset_eq_imp_distinct_iff mset_map)
  with False show ?thesis by (simp add: selectInputs_cases accepted_candidates_def)
qed

theorem selection_order_independent_witness:
  "selectInputs example_context [example_coin (CHR ''1'') 3 available, example_coin (CHR ''2'') 4 available] (example_options 6)
   = Inr [example_coin (CHR ''1'') 3 available, example_coin (CHR ''2'') 4 available]"
  using example_selection
    selection_order_independent [of "[example_coin (CHR ''1'') 3 available, example_coin (CHR ''2'') 4 available]"
      "[example_coin (CHR ''2'') 4 available, example_coin (CHR ''1'') 3 available]"] by simp

end
