(* ===== verification/Authorization.thy ===== *)
theory Authorization
  imports Selection
begin

text \<open>
  \<open>packages/core/src/authorization.ts\<close>: the EIP-712 data of an operation and of a recipient, the canonical
  signature check, and the authorization of a request by an external signer.  Hashing and recovering typed
  data are \<open>viem\<close>'s: the record \<open>typed_viem\<close>.  The context and the request are mutable objects of the caller,
  so \<open>authorizeOperation\<close> reads them from the world, before and after the signer runs.
\<close>

record RecipientInfo =
  ri_chainId :: int
  ri_pool :: string
  ri_owner :: string
  ri_receivePublicKey :: string
  ri_receiptFormat :: int
  ri_recipientInfoVersion :: int
  ri_signature :: string

record TypedDomain =
  td_chainId :: int
  td_verifyingContract :: string

datatype TypedData =
    OperationAuthorization TypedDomain string string
  | RecipientTyped TypedDomain string string int int

record typed_viem =
  hashTypedData :: "TypedData \<Rightarrow> string"
  recoverTypedDataAddress :: "TypedData \<Rightarrow> string \<Rightarrow> string res"

definition SECP256K1_ORDER :: int where
  "SECP256K1_ORDER = 0xfffffffffffffffffffffffffffffffebaaedce6af48a03bbfd25e8cd0364141"

definition auth_input :: "bool \<Rightarrow> unit res" where
  "auth_input condition = require condition (CoreFailure INVALID_INPUT ''authorization.input'')"

definition typed_domain :: "Context \<Rightarrow> TypedDomain res" where
  "typed_domain context =
     rbind (auth_input (ctx_chainId context \<ge> 0 \<and> ctx_chainId context < push_bit 256 1)) (\<lambda>_.
     rbind (auth_input (bytes (ctx_pool context) 20)) (\<lambda>_.
       Inr \<lparr>td_chainId = ctx_chainId context, td_verifyingContract = ctx_pool context\<rparr>))"

definition operationTypedData :: "Context \<Rightarrow> string \<Rightarrow> string \<Rightarrow> TypedData res" where
  "operationTypedData context opId owner =
     rbind (auth_input (bytes opId 32 \<and> bytes owner 20 \<and> toLowerCase owner \<noteq> zeroAddress)) (\<lambda>_.
     rbind (typed_domain context) (\<lambda>d. Inr (OperationAuthorization d opId owner)))"

text \<open>The numbers of a 65-byte signature: \<open>slice(2, 66)\<close>, \<open>slice(66, 130)\<close> and the last byte.\<close>

definition signature_r :: "string \<Rightarrow> int" where
  "signature_r sg = int (hex_digits_value (take 64 (drop 2 sg)))"

definition signature_s :: "string \<Rightarrow> int" where
  "signature_s sg = int (hex_digits_value (take 64 (drop 66 sg)))"

definition signature_v :: "string \<Rightarrow> int" where
  "signature_v sg = int (hex_digits_value (drop 130 sg))"

definition canonical_signature :: "string \<Rightarrow> bool" where
  "canonical_signature sg \<longleftrightarrow> bytes sg 65 \<and>
     \<not> (signature_r sg < 1 \<or> signature_r sg \<ge> SECP256K1_ORDER \<or> signature_s sg < 1
        \<or> signature_s sg > SECP256K1_ORDER div 2 \<or> (signature_v sg \<noteq> 27 \<and> signature_v sg \<noteq> 28))"

definition verifySignature :: "typed_viem \<Rightarrow> TypedData \<Rightarrow> string \<Rightarrow> string \<Rightarrow> unit res" where
  "verifySignature T typed owner sg =
     recast (CoreFailure SIGNATURE_REJECTED ''authorization.signature'')
       (rbind (require (canonical_signature sg) (OtherError '''')) (\<lambda>_.
        rbind (recoverTypedDataAddress T typed sg) (\<lambda>recovered.
        require (\<not> (recovered = zeroAddress \<or> \<not> sameText recovered owner)) (OtherError ''''))))"

definition recipientInfoTypedData :: "Context \<Rightarrow> RecipientInfo \<Rightarrow> string \<Rightarrow> TypedData res" where
  "recipientInfoTypedData context info expectedOwner =
     rbind (typed_domain context) (\<lambda>recipientDomain.
     rbind (auth_input (bytes (ri_owner info) 20 \<and> bytes expectedOwner 20 \<and> bytes (ri_pool info) 20)) (\<lambda>_.
     rbind (auth_input (toLowerCase (ri_owner info) \<noteq> zeroAddress \<and> sameText (ri_owner info) expectedOwner)) (\<lambda>_.
     rbind (auth_input (ri_chainId info = ctx_chainId context \<and> sameText (ri_pool info) (ctx_pool context))) (\<lambda>_.
     rbind (auth_input (ri_receiptFormat info = 1 \<and> ri_recipientInfoVersion info = 1 \<and>
              bytes (ri_receivePublicKey info) 32)) (\<lambda>_.
       Inr (RecipientTyped recipientDomain (ri_owner info) (ri_receivePublicKey info)
              (ri_receiptFormat info) (ri_recipientInfoVersion info)))))))"

definition verifyRecipientInfo :: "typed_viem \<Rightarrow> Context \<Rightarrow> RecipientInfo \<Rightarrow> string \<Rightarrow> unit res" where
  "verifyRecipientInfo T context info expectedOwner =
     rbind (recipientInfoTypedData context info expectedOwner) (\<lambda>typed.
       verifySignature T typed (ri_owner info) (ri_signature info))"

definition authorizationTypedData :: "curve \<Rightarrow> viem \<Rightarrow> Context \<Rightarrow> OperationRequest \<Rightarrow> TypedData res" where
  "authorizationTypedData C V context request =
     recast (CoreFailure INVALID_INPUT ''authorization.input'')
       (rbind (validateOperationShape C request) (\<lambda>_.
        rbind (typed_domain context) (\<lambda>_.
        rbind (operationId V context request) (\<lambda>opId.
          operationTypedData context opId (req_owner request)))))"

definition verifyOperationAuthorization :: "typed_viem \<Rightarrow> Context \<Rightarrow> string \<Rightarrow> string \<Rightarrow> string \<Rightarrow> unit res" where
  "verifyOperationAuthorization T context opId owner sg =
     rbind (operationTypedData context opId owner) (\<lambda>typed. verifySignature T typed owner sg)"

text \<open>The failures of a signer that pass through unchanged.\<close>

definition passed_signer_code :: "core_code \<Rightarrow> bool" where
  "passed_signer_code code \<longleftrightarrow> code = RPC \<or> code = UNSUPPORTED \<or> code = INCONSISTENT \<or>
     code = SIGNATURE_REJECTED \<or> code = SIGNATURE_INVALID"

text \<open>The verification of the snapshot uses the context \<open>{ chainId, pool }\<close> of its domain; the other fields of a
  context are not read.\<close>

definition domain_context :: "TypedDomain \<Rightarrow> Context \<Rightarrow> Context" where
  "domain_context d context = context\<lparr>ctx_chainId := td_chainId d, ctx_pool := td_verifyingContract d\<rparr>"

fun verify_snapshot :: "typed_viem \<Rightarrow> Context \<Rightarrow> TypedData \<Rightarrow> string \<Rightarrow> unit res" where
  "verify_snapshot T context (OperationAuthorization d opId owner) sg =
     verifyOperationAuthorization T (domain_context d context) opId owner sg"
| "verify_snapshot T context _ sg = Inl (OtherError '''')"

definition authorizeOperation ::
  "curve \<Rightarrow> viem \<Rightarrow> typed_viem \<Rightarrow> ('w \<Rightarrow> Context) \<Rightarrow> ('w \<Rightarrow> OperationRequest)
   \<Rightarrow> (TypedData \<Rightarrow> ('w, string) eff) \<Rightarrow> ('w, string) eff" where
  "authorizeOperation C V T contextOf requestOf signTypedData = (\<lambda>w.
     ebind (elift (authorizationTypedData C V (contextOf w) (requestOf w))) (\<lambda>snapshot.
     let expectedDigest = hashTypedData T snapshot in
     ebind (ecatch (signTypedData snapshot) (\<lambda>error.
              case error of
                CoreFailure code stage \<Rightarrow> if passed_signer_code code then ethrow error
                  else ethrow (CoreFailure SIGNATURE_REJECTED ''authorization.signer'')
              | _ \<Rightarrow> ethrow (CoreFailure SIGNATURE_REJECTED ''authorization.signer''))) (\<lambda>sg.
     ebind (elift (recast (CoreFailure SIGNATURE_INVALID ''authorization.signature'')
              (verify_snapshot T (contextOf w) snapshot sg))) (\<lambda>_.
     ebind (\<lambda>w'. (recast (CoreFailure INCONSISTENT ''authorization.mutation'')
              (rbind (authorizationTypedData C V (contextOf w') (requestOf w')) (\<lambda>typed.
                 require (hashTypedData T typed = expectedDigest) (OtherError ''''))), w')) (\<lambda>_.
       ereturn sg)))) w)"

section \<open>Lemmas\<close>

lemma auth_input_eq_Inr [res_simps]: "auth_input b = Inr u \<longleftrightarrow> b"
  by (simp add: auth_input_def require_eq_Inr)

lemma rbind_auth_input [simp]:
  "rbind (auth_input b) f = (if b then f () else Inl (CoreFailure INVALID_INPUT ''authorization.input''))"
  by (simp add: auth_input_def)

lemma typed_domain_eq_Inr:
  "typed_domain c = Inr d \<longleftrightarrow> 0 \<le> ctx_chainId c \<and> ctx_chainId c < 2 ^ 256 \<and> bytes (ctx_pool c) 20 \<and>
     d = \<lparr>td_chainId = ctx_chainId c, td_verifyingContract = ctx_pool c\<rparr>"
  by (auto simp: typed_domain_def)

lemma operationTypedData_eq_Inr:
  "operationTypedData c i owner = Inr t \<longleftrightarrow> bytes i 32 \<and> bytes owner 20 \<and> toLowerCase owner \<noteq> zeroAddress \<and>
     (\<exists>d. typed_domain c = Inr d \<and> t = OperationAuthorization d i owner)"
  by (auto simp: operationTypedData_def rbind_eq_Inr)

lemma verifySignature_eq_Inr:
  "verifySignature T typed owner sg = Inr () \<longleftrightarrow>
   canonical_signature sg \<and> (\<exists>a. recoverTypedDataAddress T typed sg = Inr a \<and> a \<noteq> zeroAddress \<and> sameText a owner)"
  by (auto simp: verifySignature_def res_simps)

lemma verifySignature_Inl: "verifySignature T typed owner sg = Inl e \<Longrightarrow> e = CoreFailure SIGNATURE_REJECTED ''authorization.signature''"
  by (simp add: verifySignature_def recast_eq_Inl)

lemma authorizationTypedData_eq_Inr:
  "authorizationTypedData C V c r = Inr t \<longleftrightarrow>
   well_formed_request C r \<and> (\<exists>i. operationId V c r = Inr i \<and> operationTypedData c i (req_owner r) = Inr t)"
  by (auto simp: authorizationTypedData_def res_simps validateOperationShape_eq_Inr operationTypedData_eq_Inr)

lemma domain_context_simps [simp]:
  "typed_domain (domain_context d c) = Inr d \<longleftrightarrow>
   0 \<le> td_chainId d \<and> td_chainId d < 2 ^ 256 \<and> bytes (td_verifyingContract d) 20"
  by (auto simp: typed_domain_eq_Inr domain_context_def)

lemma authorize_parts:
  assumes "authorizeOperation C V T contextOf requestOf signer w = (Inr sg, w')"
  obtains d i where "operationId V (contextOf w) (requestOf w) = Inr i"
    and "well_formed_request C (requestOf w)"
    and "authorizationTypedData C V (contextOf w) (requestOf w) = Inr (OperationAuthorization d i (req_owner (requestOf w)))"
    and "typed_domain (contextOf w) = Inr d"
    and "signer (OperationAuthorization d i (req_owner (requestOf w))) w = (Inr sg, w')"
    and "canonical_signature sg"
    and "\<exists>a. recoverTypedDataAddress T (OperationAuthorization d i (req_owner (requestOf w))) sg = Inr a \<and>
           a \<noteq> zeroAddress \<and> sameText a (req_owner (requestOf w))"
    and "\<exists>t. authorizationTypedData C V (contextOf w') (requestOf w') = Inr t \<and>
           hashTypedData T t = hashTypedData T (OperationAuthorization d i (req_owner (requestOf w)))"
proof -
  from assms obtain snap w1 where snap: "authorizationTypedData C V (contextOf w) (requestOf w) = Inr snap"
    and sign: "ecatch (signer snap) (\<lambda>error. case error of
                CoreFailure code stage \<Rightarrow> if passed_signer_code code then ethrow error
                  else ethrow (CoreFailure SIGNATURE_REJECTED ''authorization.signer'')
              | _ \<Rightarrow> ethrow (CoreFailure SIGNATURE_REJECTED ''authorization.signer'')) w = (Inr sg, w')"
    and ver: "verify_snapshot T (contextOf w) snap sg = Inr ()"
    and mut: "\<exists>t. authorizationTypedData C V (contextOf w') (requestOf w') = Inr t \<and> hashTypedData T t = hashTypedData T snap"
    by (auto simp: authorizeOperation_def eff_simps Let_def res_simps)
  from snap obtain i d where i: "well_formed_request C (requestOf w)" "operationId V (contextOf w) (requestOf w) = Inr i"
    "typed_domain (contextOf w) = Inr d" "snap = OperationAuthorization d i (req_owner (requestOf w))"
    by (auto simp: authorizationTypedData_eq_Inr operationTypedData_eq_Inr)
  have "signer snap w = (Inr sg, w')"
    using sign unfolding ecatch_eq_Inr
  proof (elim disjE exE conjE)
    fix e w1
    assume "(case e of CoreFailure code stage \<Rightarrow> if passed_signer_code code then ethrow e
                  else ethrow (CoreFailure SIGNATURE_REJECTED ''authorization.signer'')
              | _ \<Rightarrow> ethrow (CoreFailure SIGNATURE_REJECTED ''authorization.signer'')) w1 = (Inr sg, w')"
    then show ?thesis by (cases e) (auto split: if_splits)
  qed
  moreover from ver i(4) obtain t where
    "operationTypedData (domain_context d (contextOf w)) i (req_owner (requestOf w)) = Inr t"
    "verifySignature T t (req_owner (requestOf w)) sg = Inr ()"
    by (auto simp: verifyOperationAuthorization_def rbind_eq_Inr)
  then have "verifySignature T snap (req_owner (requestOf w)) sg = Inr ()"
    using i(3,4) by (auto simp: operationTypedData_eq_Inr typed_domain_eq_Inr domain_context_def)
  ultimately show ?thesis
    using i snap mut by (intro that [of i d]) (auto simp: verifySignature_eq_Inr)
qed

section \<open>Properties\<close>

text \<open>C12: A signature that \<open>authorizeOperation\<close> returns is canonical (65 bytes, \<open>1 \<le> r < n\<close>, low \<open>s\<close>, \<open>v\<close> 27 or 28), recovers
  to the owner over the identifier of the well-formed request it was asked to sign, and, as the typed data
  read before and after do not collide, the request and context that the caller holds when it returns still have that identifier and owner.\<close>

theorem authorization_binds_request:
  assumes "authorizeOperation C V T contextOf requestOf signer w = (Inr sg, w')"
    and "\<forall>t u. authorizationTypedData C V (contextOf w) (requestOf w) = Inr t \<longrightarrow>
      authorizationTypedData C V (contextOf w') (requestOf w') = Inr u \<longrightarrow>
      hashTypedData T t = hashTypedData T u \<longrightarrow> t = u"
  shows "well_formed_request C (requestOf w) \<and> canonical_signature sg \<and>
    (\<exists>i d. operationId V (contextOf w) (requestOf w) = Inr i \<and> typed_domain (contextOf w) = Inr d \<and>
       (\<exists>a. recoverTypedDataAddress T (OperationAuthorization d i (req_owner (requestOf w))) sg = Inr a \<and>
          a \<noteq> zeroAddress \<and> sameText a (req_owner (requestOf w))) \<and>
       well_formed_request C (requestOf w') \<and>
       operationId V (contextOf w') (requestOf w') = Inr i \<and> req_owner (requestOf w') = req_owner (requestOf w) \<and>
       typed_domain (contextOf w') = Inr d)"
proof -
  from authorize_parts [OF assms(1)] obtain d i where p: "operationId V (contextOf w) (requestOf w) = Inr i"
    "well_formed_request C (requestOf w)" "typed_domain (contextOf w) = Inr d" "canonical_signature sg"
    "\<exists>a. recoverTypedDataAddress T (OperationAuthorization d i (req_owner (requestOf w))) sg = Inr a \<and>
           a \<noteq> zeroAddress \<and> sameText a (req_owner (requestOf w))"
    and a: "authorizationTypedData C V (contextOf w) (requestOf w) = Inr (OperationAuthorization d i (req_owner (requestOf w)))"
    and m: "\<exists>t. authorizationTypedData C V (contextOf w') (requestOf w') = Inr t \<and>
           hashTypedData T t = hashTypedData T (OperationAuthorization d i (req_owner (requestOf w)))"
    by metis
  from a m assms(2) have "authorizationTypedData C V (contextOf w') (requestOf w') =
      Inr (OperationAuthorization d i (req_owner (requestOf w)))" by metis
  then have "well_formed_request C (requestOf w')" "operationId V (contextOf w') (requestOf w') = Inr i"
    "req_owner (requestOf w') = req_owner (requestOf w)" "typed_domain (contextOf w') = Inr d"
    by (auto simp: authorizationTypedData_eq_Inr operationTypedData_eq_Inr)
  with p show ?thesis by blast
qed

text \<open>A signer over a world that does not change, and a library that recovers the owner.\<close>

definition example_signature :: string where
  "example_signature = ''0x'' @ replicate 128 (CHR ''1'') @ ''1b''"

definition example_typed :: typed_viem where
  "example_typed = \<lparr>hashTypedData = \<lambda>_. [], recoverTypedDataAddress = \<lambda>_ _. Inr (address_of (CHR ''b''))\<rparr>"

lemma hex_one: "hex_digits_value (replicate n (CHR ''1'')) = repunit n"
  by (simp add: hex_replicate)

lemma repunit_closed: "15 * repunit n + 1 = 16 ^ n"
  by (induction n) auto

lemma example_signature_canonical: "canonical_signature example_signature"
proof -
  have "int (15 * repunit 64 + 1) = int (16 ^ 64)" by (simp only: repunit_closed)
  then have r: "15 * int (repunit 64) + 1 = 16 ^ 64" by simp
  have "signature_r example_signature = int (repunit 64)" "signature_s example_signature = int (repunit 64)"
    by (simp_all add: signature_r_def signature_s_def example_signature_def hex_one min_def)
  moreover have "signature_v example_signature = 27"
    by (simp add: signature_v_def example_signature_def hex_digits_value_Cons hex_value_def)
  ultimately show ?thesis
    using r by (simp add: canonical_signature_def SECP256K1_ORDER_def)
       (simp add: bytes_def example_signature_def is_hex_def list_all_iff)
qed

lemma example_id_bytes:
  "\<exists>i. operationId model_viem example_context (example_deposit (CHR ''b'')) = Inr i \<and> bytes i 32"
  using example_ids by (auto simp: operationId_def rbind_eq_Inr)

lemma example_typed_data:
  "\<exists>t. authorizationTypedData C model_viem example_context (example_deposit (CHR ''b'')) = Inr t"
proof -
  have "bytes (address_of (CHR ''b'')) 20" "bytes (address_of (CHR ''a'')) 20" by (simp_all add: address_of_bytes)
  moreover have "toLowerCase (address_of (CHR ''b'')) \<noteq> zeroAddress" by code_simp
  ultimately show ?thesis
    using example_id_bytes example_deposit_shape [of "CHR ''b''" C]
    by (auto simp: authorizationTypedData_eq_Inr operationTypedData_eq_Inr typed_domain_eq_Inr example_deposit_def example_context_def)
qed

lemma example_authorization:
  "authorizeOperation model_curve model_viem example_typed (\<lambda>_. example_context) (\<lambda>_. example_deposit (CHR ''b''))
     (\<lambda>_. ereturn example_signature) () = (Inr example_signature, ())"
proof -
  obtain t where t: "authorizationTypedData model_curve model_viem example_context (example_deposit (CHR ''b'')) = Inr t"
    using example_typed_data by blast
  then obtain d i where p: "t = OperationAuthorization d i (address_of (CHR ''b''))" "typed_domain example_context = Inr d"
    "operationTypedData example_context i (address_of (CHR ''b'')) = Inr t"
    by (auto simp: authorizationTypedData_eq_Inr operationTypedData_eq_Inr example_deposit_def)
  have o': "operationTypedData (domain_context d example_context) i (address_of (CHR ''b'')) = Inr t"
    using p by (auto simp: operationTypedData_eq_Inr typed_domain_eq_Inr domain_context_def)
  have "address_of (CHR ''b'') \<noteq> zeroAddress" by code_simp
  then have "verifySignature example_typed t (address_of (CHR ''b'')) example_signature = Inr ()"
    using example_signature_canonical by (simp add: verifySignature_eq_Inr example_typed_def)
  then have "verify_snapshot example_typed example_context t example_signature = Inr ()"
    using o' by (simp add: p(1) verifyOperationAuthorization_def)
  with t show ?thesis
    by (simp add: authorizeOperation_def Let_def ecatch_def ebind_def)
qed

theorem authorization_binds_request_witness:
  "canonical_signature example_signature \<and> well_formed_request model_curve (example_deposit (CHR ''b''))"
  using authorization_binds_request [OF example_authorization] by simp

end
