(* ===== verification/Operation.thy ===== *)
theory Operation
  imports Authorization
begin

text \<open>
  \<open>packages/core/src/operation.ts\<close>: fixing an operation (selection, change, recipients, blindings, packets,
  identifiers), proving a fixed operation, regenerating its proofs, and the public projection.
  The libraries and system calls are one record, the platform.
\<close>

record ('w, 'pk, 'snd, 'sk, 'rcp) platform =
  pf_curve :: curve
  pf_keccak :: "octets \<Rightarrow> octets"
  pf_random :: "nat \<Rightarrow> ('w, octets) eff"
  pf_hpke :: "('w, 'pk, 'snd, 'sk, 'rcp) hpke"
  pf_viem :: viem
  pf_typed :: typed_viem

datatype BuildIntent =
    DepositIntent string int RecipientInfo
  | TransferIntent string int RecipientInfo "RecipientInfo option" "string list option"
  | WithdrawIntent string int string "RecipientInfo option" "string list option"

fun intent_kind :: "BuildIntent \<Rightarrow> int" where
  "intent_kind (DepositIntent _ _ _) = 0"
| "intent_kind (TransferIntent _ _ _ _ _) = 1"
| "intent_kind (WithdrawIntent _ _ _ _ _) = 2"

fun intent_owner :: "BuildIntent \<Rightarrow> string" where
  "intent_owner (DepositIntent w _ _) = w"
| "intent_owner (TransferIntent w _ _ _ _) = w"
| "intent_owner (WithdrawIntent w _ _ _ _) = w"

fun intent_amount :: "BuildIntent \<Rightarrow> int" where
  "intent_amount (DepositIntent _ n _) = n"
| "intent_amount (TransferIntent _ n _ _ _) = n"
| "intent_amount (WithdrawIntent _ n _ _ _) = n"

fun intent_recipient :: "BuildIntent \<Rightarrow> RecipientInfo option" where
  "intent_recipient (DepositIntent _ _ r) = Some r"
| "intent_recipient (TransferIntent _ _ r _ _) = Some r"
| "intent_recipient (WithdrawIntent _ _ _ _ _) = None"

fun intent_change :: "BuildIntent \<Rightarrow> RecipientInfo option" where
  "intent_change (DepositIntent _ _ _) = None"
| "intent_change (TransferIntent _ _ _ c _) = c"
| "intent_change (WithdrawIntent _ _ _ c _) = c"

fun intent_explicit :: "BuildIntent \<Rightarrow> string list option" where
  "intent_explicit (DepositIntent _ _ _) = None"
| "intent_explicit (TransferIntent _ _ _ _ ids) = ids"
| "intent_explicit (WithdrawIntent _ _ _ _ ids) = ids"

fun intent_destination :: "BuildIntent \<Rightarrow> string" where
  "intent_destination (WithdrawIntent _ _ d _ _) = d"
| "intent_destination _ = zeroAddress"

record FixedOperation =
  fx_context :: Context
  fx_request :: OperationRequest
  fx_operationId :: string
  fx_outputIds :: "string list"
  fx_openings :: "Opening list"
  fx_inputOpenings :: "Opening list"

record PublicSubmission =
  ps_request :: OperationRequest
  ps_balanceProof :: BalanceProof
  ps_rangeProofs :: "RangeProof list"
  ps_signature :: string

definition invalid_operation :: failure where
  "invalid_operation = CoreFailure INVALID_INPUT ''operation''"

fun safeFailure :: "failure \<Rightarrow> failure" where
  "safeFailure (CoreFailure code stage) = CoreFailure code stage"
| "safeFailure (CryptoFailure code stage) = CryptoFailure code ''operation''"
| "safeFailure _ = CoreFailure CRYPTO ''operation''"

definition total_amount :: "Opening list \<Rightarrow> int \<Rightarrow> int" where
  "total_amount openings start = foldl (\<lambda>s o'. s + amount o') start openings"

definition outputIds_of :: "viem \<Rightarrow> string \<Rightarrow> nat \<Rightarrow> string list res" where
  "outputIds_of V opId n = mapM (\<lambda>i. outputId V opId (int i)) [0..<n]"

text \<open>The checks of \<open>proofs\<close> before any proof is generated: they return the input and output commitments.\<close>

definition check_openings ::
  "curve \<Rightarrow> OperationRequest \<Rightarrow> Opening list \<Rightarrow> Opening list \<Rightarrow> (G1Point list \<times> G1Point list) res" where
  "check_openings C request openings inputOpenings =
     rbind (validateOperationShape C request) (\<lambda>_.
     if length openings \<noteq> length (req_outputs request) \<or> length inputOpenings \<noteq> length (req_inputIds request)
     then Inl invalid_operation
     else rbind (mapM (commit C) openings) (\<lambda>outputs.
     if list_ex (\<lambda>(c, o'). px c \<noteq> px (out_commitment o') \<or> py c \<noteq> py (out_commitment o')) (zip outputs (req_outputs request))
     then Inl invalid_operation
     else rbind (mapM (commit C) inputOpenings) (\<lambda>inputs.
     if total_amount inputOpenings (req_d request) \<noteq> total_amount openings (req_w request)
     then Inl invalid_operation
     else Inr (inputs, outputs))))"

record GeneratedProofs =
  gp_operationId :: string
  gp_outputIds :: "string list"
  gp_rangeProofs :: "RangeProof list"
  gp_balanceProof :: BalanceProof

definition generate_proofs ::
  "('w, 'pk, 'snd, 'sk, 'rcp) platform \<Rightarrow> Context \<Rightarrow> OperationRequest \<Rightarrow> Opening list \<Rightarrow> Opening list
   \<Rightarrow> ('w, GeneratedProofs) eff" where
  "generate_proofs PF context request openings inputOpenings =
     ebind (elift (check_openings (pf_curve PF) request openings inputOpenings)) (\<lambda>(inputs, outputs).
     ebind (elift (operationId (pf_viem PF) context request)) (\<lambda>opId.
     ebind (if req_kind request = 0 then ereturn []
            else emapM (\<lambda>(i, opening). ebind (elift (hexToBytes (pf_viem PF) opId)) (\<lambda>idBytes.
                   generateRangeProof (pf_curve PF) (pf_keccak PF) (pf_random PF) opening idBytes (int i)))
                 (zip [0..<length openings] openings)) (\<lambda>rangeProofs.
     ebind (elift (computeBalancePoint (pf_curve PF) inputs outputs (req_d request) (req_w request))) (\<lambda>X.
     ebind (elift (balanceWitness (map blinding inputOpenings) (map blinding openings))) (\<lambda>x.
     ebind (elift (hexToBytes (pf_viem PF) (ctx_pool context))) (\<lambda>poolBytes.
     ebind (elift (hexToBytes (pf_viem PF) opId)) (\<lambda>idBytes.
     ebind (generateBalanceProof (pf_curve PF) (pf_keccak PF) (pf_random PF)
              \<lparr>bpi_X = X, bpi_x = x, bpi_chainId = ctx_chainId context, bpi_pool = poolBytes,
               bpi_operationId = idBytes\<rparr>) (\<lambda>balanceProof.
     ebind (elift (outputIds_of (pf_viem PF) opId (length outputs))) (\<lambda>outputIds.
     ereturn \<lparr>gp_operationId = opId, gp_outputIds = outputIds, gp_rangeProofs = rangeProofs,
       gp_balanceProof = balanceProof\<rparr>)))))))))"

section \<open>Fixing\<close>

type_synonym output_plan = "int \<times> RecipientInfo"

definition select_for :: "curve \<Rightarrow> BuildIntent \<Rightarrow> Context \<Rightarrow> OwnedUtxo list \<Rightarrow> OwnedUtxo list res" where
  "select_for C plan context candidates =
     (if intent_amount plan < 1 \<or> intent_amount plan > (if intent_kind plan = 2 then 2 * M_max else M_max)
      then Inl invalid_operation
      else rbind (if intent_kind plan = 0 then Inr []
                  else selectInputs context candidates \<lparr>sel_kind = intent_kind plan, sel_owner = intent_owner plan,
                         sel_amount = intent_amount plan, sel_explicitIds = intent_explicit plan\<rparr>) (\<lambda>inputs.
      rbind (mapM (\<lambda>input. rbind (commit C (coin_opening input)) (\<lambda>c.
               require (px c = px (coin_commitment input) \<and> py c = py (coin_commitment input)) invalid_operation)) inputs) (\<lambda>_.
      Inr inputs)))"

definition plan_outputs :: "BuildIntent \<Rightarrow> OwnedUtxo list \<Rightarrow> output_plan list res" where
  "plan_outputs plan inputs =
     (let payment = (case intent_recipient plan of Some r \<Rightarrow> [(intent_amount plan, r)] | None \<Rightarrow> []);
          change = (if intent_kind plan = 0 then 0
                    else foldl (\<lambda>s input. s + amount (coin_opening input)) (- intent_amount plan) inputs)
      in if intent_kind plan \<noteq> 0 \<and> change > 0 then
           (case intent_change plan of None \<Rightarrow> Inl invalid_operation | Some r \<Rightarrow> Inr (payment @ [(change, r)]))
         else Inr payment)"

definition verify_recipients :: "typed_viem \<Rightarrow> BuildIntent \<Rightarrow> Context \<Rightarrow> output_plan list \<Rightarrow> unit res" where
  "verify_recipients T plan context plans =
     rbind (mapM (\<lambda>(i, (_, recipient)). verifyRecipientInfo T context recipient
              (if intent_kind plan = 1 \<and> i = (0 :: nat) then ri_owner recipient else intent_owner plan))
            (zip [0..<length plans] plans)) (\<lambda>_. Inr ())"

definition bare_request ::
  "curve \<Rightarrow> viem \<Rightarrow> BuildIntent \<Rightarrow> octets \<Rightarrow> OwnedUtxo list \<Rightarrow> output_plan list \<Rightarrow> Opening list \<Rightarrow> OperationRequest res" where
  "bare_request C V plan salt inputs plans openings =
     rbind (mapM (commit C) openings) (\<lambda>cs.
     Inr \<lparr>req_kind = intent_kind plan, req_owner = intent_owner plan, req_salt = bytesToHex V salt,
          req_inputIds = map coin_id inputs,
          req_outputs = map2 (\<lambda>(_, recipient) c. \<lparr>out_owner = ri_owner recipient, out_commitment = c,
            out_receiptFormat = 1, out_packet = ''0x''\<rparr>) plans cs,
          req_d = (if intent_kind plan = 0 then intent_amount plan else 0),
          req_w = (if intent_kind plan = 2 then intent_amount plan else 0),
          req_destination = (if intent_kind plan = 2 then intent_destination plan else zeroAddress)\<rparr>)"

definition set_packet :: "OperationRequest \<Rightarrow> nat \<Rightarrow> string \<Rightarrow> OperationRequest" where
  "set_packet request i packet =
     request\<lparr>req_outputs := (req_outputs request)[i := (req_outputs request ! i)\<lparr>out_packet := packet\<rparr>]\<rparr>"

definition seal_output ::
  "('w, 'pk, 'snd, 'sk, 'rcp) platform \<Rightarrow> Context \<Rightarrow> output_plan list \<Rightarrow> Opening list \<Rightarrow> OperationRequest \<Rightarrow> nat
   \<Rightarrow> ('w, OperationRequest) eff" where
  "seal_output PF context plans openings request i =
     ebind (elift (hexToBytes (pf_viem PF) (ri_receivePublicKey (snd (plans ! i))))) (\<lambda>key.
     ebind (elift (rbind (receiptInfo (pf_viem PF) context request (int i)) (hexToBytes (pf_viem PF)))) (\<lambda>info.
     ebind (encryptReceipt (pf_hpke PF) \<lparr>eri_recipientPublicKey = key, eri_info = info, eri_opening = openings ! i\<rparr>) (\<lambda>packet.
     ereturn (set_packet request i (bytesToHex (pf_viem PF) packet)))))"

definition draw_opening :: "(nat \<Rightarrow> ('w, octets) eff) \<Rightarrow> output_plan \<Rightarrow> ('w, Opening) eff" where
  "draw_opening rng output = ebind (randomBlinding rng) (\<lambda>b. ereturn \<lparr>amount = fst output, blinding = b\<rparr>)"

definition fixOperation ::
  "('w, 'pk, 'snd, 'sk, 'rcp) platform \<Rightarrow> BuildIntent \<Rightarrow> Context \<Rightarrow> OwnedUtxo list \<Rightarrow> ('w, octets) eff
   \<Rightarrow> ('w, FixedOperation) eff" where
  "fixOperation PF plan context candidates randomSalt =
     ecatch (
       ebind (elift (select_for (pf_curve PF) plan context candidates)) (\<lambda>inputs.
       ebind (elift (plan_outputs plan inputs)) (\<lambda>plans.
       ebind (elift (verify_recipients (pf_typed PF) plan context plans)) (\<lambda>_.
       ebind (ecatch randomSalt (\<lambda>_. ethrow (CoreFailure CRYPTO ''operation.salt''))) (\<lambda>salt.
       if length salt \<noteq> 32 then ethrow invalid_operation
       else ebind (emapM (draw_opening (pf_random PF)) plans) (\<lambda>openings.
       ebind (elift (bare_request (pf_curve PF) (pf_viem PF) plan salt inputs plans openings)) (\<lambda>bare.
       ebind (efoldM (seal_output PF context plans openings) bare [0..<length (req_outputs bare)]) (\<lambda>request.
       ebind (elift (validateOperationShape (pf_curve PF) request)) (\<lambda>_.
       ebind (elift (operationId (pf_viem PF) context request)) (\<lambda>opId.
       ebind (elift (outputIds_of (pf_viem PF) opId (length (req_outputs request)))) (\<lambda>outputIds.
       ereturn \<lparr>fx_context = context, fx_request = request, fx_operationId = opId, fx_outputIds = outputIds,
         fx_openings = openings, fx_inputOpenings = map coin_opening inputs\<rparr>)))))))))))
       (\<lambda>error. ethrow (safeFailure error))"

section \<open>Proving\<close>

definition proveFixedOperation ::
  "('w, 'pk, 'snd, 'sk, 'rcp) platform \<Rightarrow> FixedOperation \<Rightarrow> ('w, LocalDraft) eff" where
  "proveFixedOperation PF fixed =
     ecatch (
       ebind (elift (validateOperationShape (pf_curve PF) (fx_request fixed))) (\<lambda>_.
       ebind (elift (operationId (pf_viem PF) (fx_context fixed) (fx_request fixed))) (\<lambda>opId.
       ebind (elift (if opId \<noteq> fx_operationId fixed \<or> length (fx_outputIds fixed) \<noteq> length (req_outputs (fx_request fixed))
                     then Inl invalid_operation
                     else mapM (\<lambda>(index, i). rbind (outputId (pf_viem PF) (fx_operationId fixed) (int index)) (\<lambda>expected.
                            require (i = expected) invalid_operation))
                          (zip [0..<length (fx_outputIds fixed)] (fx_outputIds fixed)))) (\<lambda>_.
       ebind (generate_proofs PF (fx_context fixed) (fx_request fixed) (fx_openings fixed) (fx_inputOpenings fixed)) (\<lambda>generated.
       ereturn \<lparr>dr_context = fx_context fixed, dr_request = fx_request fixed,
         dr_operationId = gp_operationId generated, dr_outputIds = gp_outputIds generated,
         dr_openings = fx_openings fixed, dr_inputOpenings = fx_inputOpenings fixed,
         dr_balanceProof = gp_balanceProof generated, dr_rangeProofs = gp_rangeProofs generated,
         dr_signature = None\<rparr>)))))
       (\<lambda>error. ethrow (safeFailure error))"

definition buildOperation ::
  "('w, 'pk, 'snd, 'sk, 'rcp) platform \<Rightarrow> BuildIntent \<Rightarrow> Context \<Rightarrow> OwnedUtxo list \<Rightarrow> ('w, octets) eff
   \<Rightarrow> ('w, LocalDraft) eff" where
  "buildOperation PF plan context candidates randomSalt =
     ebind (fixOperation PF plan context candidates randomSalt) (proveFixedOperation PF)"

definition fixed_of :: "LocalDraft \<Rightarrow> FixedOperation" where
  "fixed_of d = \<lparr>fx_context = dr_context d, fx_request = dr_request d, fx_operationId = dr_operationId d,
     fx_outputIds = dr_outputIds d, fx_openings = dr_openings d, fx_inputOpenings = dr_inputOpenings d\<rparr>"

text \<open>\<open>...(signature ? { signature } : {})\<close>: the empty string counts as no signature.\<close>

definition regenerateProofs :: "('w, 'pk, 'snd, 'sk, 'rcp) platform \<Rightarrow> LocalDraft \<Rightarrow> ('w, LocalDraft) eff" where
  "regenerateProofs PF d =
     ecatch (ebind (proveFixedOperation PF (fixed_of d)) (\<lambda>proved.
       ereturn (case dr_signature d of
          Some sg \<Rightarrow> if sg = [] then proved else proved\<lparr>dr_signature := Some sg\<rparr>
        | None \<Rightarrow> proved)))
       (\<lambda>error. ethrow (safeFailure error))"

definition toPublicSubmission :: "curve \<Rightarrow> viem \<Rightarrow> LocalDraft \<Rightarrow> PublicSubmission res" where
  "toPublicSubmission C V d =
     rbind (validateOperationShape C (dr_request d)) (\<lambda>_.
     case dr_signature d of
       None \<Rightarrow> Inl invalid_operation
     | Some sg \<Rightarrow>
       if \<not> bytes sg 65 then Inl invalid_operation
       else rbind (operationId V (dr_context d) (dr_request d)) (\<lambda>opId.
         if opId \<noteq> dr_operationId d then Inl invalid_operation
         else Inr \<lparr>ps_request = dr_request d, ps_balanceProof = dr_balanceProof d,
                ps_rangeProofs = dr_rangeProofs d, ps_signature = sg\<rparr>))"

section \<open>Lemmas\<close>

lemma total_amount_eq: "total_amount os n = n + sum_list (map amount os)"
proof -
  have "foldl (\<lambda>s o'. s + amount o') n os = n + sum_list (map amount os)"
    by (induction os arbitrary: n) auto
  then show ?thesis by (simp add: total_amount_def)
qed

lemma same_commitments:
  "length os = length ps \<Longrightarrow>
   (\<not> list_ex (\<lambda>(c, o'). px c \<noteq> px (out_commitment o') \<or> py c \<noteq> py (out_commitment o')) (zip os ps))
     \<longleftrightarrow> os = map out_commitment ps"
  by (induction os ps rule: list_induct2) auto

lemma check_openings_eq_Inr:
  assumes C: "curve_laws C" and g: "generators_valid C"
  shows "check_openings C r openings inputOpenings = Inr (ins, outs) \<longleftrightarrow>
    well_formed_request C r \<and> length inputOpenings = length (req_inputIds r) \<and>
    mapM (commit C) openings = Inr outs \<and> outs = map out_commitment (req_outputs r) \<and>
    mapM (commit C) inputOpenings = Inr ins \<and>
    sum_list (map amount inputOpenings) + req_d r = sum_list (map amount openings) + req_w r"
proof -
  have len: "length openings = length (req_outputs r)"
    if "mapM (commit C) openings = Inr (map out_commitment (req_outputs r))"
    using mapM_length [OF that] by simp
  have refl: "\<not> list_ex (\<lambda>(c, o'). px c \<noteq> px (out_commitment o') \<or> py c \<noteq> py (out_commitment o'))
      (zip (map out_commitment (req_outputs r)) (req_outputs r))"
    using same_commitments [of "map out_commitment (req_outputs r)" "req_outputs r"] by simp
  have eqs: "os = map out_commitment (req_outputs r)"
    if "mapM (commit C) openings = Inr os" "length openings = length (req_outputs r)"
      "\<not> list_ex (\<lambda>(c, o'). px c \<noteq> px (out_commitment o') \<or> py c \<noteq> py (out_commitment o')) (zip os (req_outputs r))" for os
    using same_commitments [of os "req_outputs r"] mapM_length [OF that(1)] that by simp
  show ?thesis
  proof
    assume "check_openings C r openings inputOpenings = Inr (ins, outs)"
    then have "well_formed_request C r" "length openings = length (req_outputs r)"
      "length inputOpenings = length (req_inputIds r)" "mapM (commit C) openings = Inr outs"
      "\<not> list_ex (\<lambda>(c, o'). px c \<noteq> px (out_commitment o') \<or> py c \<noteq> py (out_commitment o')) (zip outs (req_outputs r))"
      "mapM (commit C) inputOpenings = Inr ins" "total_amount inputOpenings (req_d r) = total_amount openings (req_w r)"
      by (auto simp: check_openings_def rbind_eq_Inr validateOperationShape_eq_Inr split: if_splits)
    with eqs show "well_formed_request C r \<and> length inputOpenings = length (req_inputIds r) \<and>
        mapM (commit C) openings = Inr outs \<and> outs = map out_commitment (req_outputs r) \<and>
        mapM (commit C) inputOpenings = Inr ins \<and>
        sum_list (map amount inputOpenings) + req_d r = sum_list (map amount openings) + req_w r"
      by (auto simp: total_amount_eq)
  next
    assume a: "well_formed_request C r \<and> length inputOpenings = length (req_inputIds r) \<and>
        mapM (commit C) openings = Inr outs \<and> outs = map out_commitment (req_outputs r) \<and>
        mapM (commit C) inputOpenings = Inr ins \<and>
        sum_list (map amount inputOpenings) + req_d r = sum_list (map amount openings) + req_w r"
    then have "validateOperationShape C r = Inr ()" by (simp add: validateOperationShape_eq_Inr)
    with a refl len show "check_openings C r openings inputOpenings = Inr (ins, outs)"
      by (simp add: check_openings_def total_amount_eq)
  qed
qed

lemma generateBalanceProof_Inr:
  "generateBalanceProof C keccak rng inp w = (Inr pf, w') \<Longrightarrow>
   proveBalanceWithSource C keccak inp (secure_source rng) w = (Inr pf, w')"
  unfolding generateBalanceProof_def ecatch_eq_Inr
proof (elim disjE exE conjE)
  fix e w1
  assume "(case e of CryptoFailure x xa \<Rightarrow> ethrow e | _ \<Rightarrow> ethrow (CryptoFailure C_INTERNAL ''balanceProof'')) w1 = (Inr pf, w')"
  then show ?thesis by (cases e) auto
qed

lemma generate_proofs_Inr:
  assumes C: "curve_laws (pf_curve PF)" and g: "generators_valid (pf_curve PF)"
    and run: "generate_proofs PF c r openings inputOpenings w = (Inr gp, w')"
  obtains ins X x pool opBytes where
    "check_openings (pf_curve PF) r openings inputOpenings = Inr (ins, map out_commitment (req_outputs r))"
    "operationId (pf_viem PF) c r = Inr (gp_operationId gp)"
    "outputIds_of (pf_viem PF) (gp_operationId gp) (length (req_outputs r)) = Inr (gp_outputIds gp)"
    "computeBalancePoint (pf_curve PF) ins (map out_commitment (req_outputs r)) (req_d r) (req_w r) = Inr X"
    "hexToBytes (pf_viem PF) (ctx_pool c) = Inr pool" "hexToBytes (pf_viem PF) (gp_operationId gp) = Inr opBytes"
    "sol_verify_balance (pf_curve PF) (pf_keccak PF) (ctx_chainId c) pool opBytes X
       \<lparr>px = Rx (gp_balanceProof gp), py = Ry (gp_balanceProof gp)\<rparr> (proof_s (gp_balanceProof gp)) = Inr True"
    "length (gp_rangeProofs gp) = (if req_kind r = 0 then 0 else length openings)"
proof -
  from run obtain ins outs opId w1 rps w2 X x pool opBytes bp oids where
    chk: "check_openings (pf_curve PF) r openings inputOpenings = Inr (ins, outs)"
    and opId: "operationId (pf_viem PF) c r = Inr opId"
    and rps: "(if req_kind r = 0 then ereturn []
            else emapM (\<lambda>(i, opening). ebind (elift (hexToBytes (pf_viem PF) opId)) (\<lambda>idBytes.
                   generateRangeProof (pf_curve PF) (pf_keccak PF) (pf_random PF) opening idBytes (int i)))
                 (zip [0..<length openings] openings)) w = (Inr rps, w1)"
    and X: "computeBalancePoint (pf_curve PF) ins outs (req_d r) (req_w r) = Inr X"
    and pool: "hexToBytes (pf_viem PF) (ctx_pool c) = Inr pool" and opBytes: "hexToBytes (pf_viem PF) opId = Inr opBytes"
    and bp: "generateBalanceProof (pf_curve PF) (pf_keccak PF) (pf_random PF)
              \<lparr>bpi_X = X, bpi_x = x, bpi_chainId = ctx_chainId c, bpi_pool = pool, bpi_operationId = opBytes\<rparr> w1 = (Inr bp, w2)"
    and oids: "outputIds_of (pf_viem PF) opId (length outs) = Inr oids"
    and gp: "gp = \<lparr>gp_operationId = opId, gp_outputIds = oids, gp_rangeProofs = rps, gp_balanceProof = bp\<rparr>"
    by (fastforce simp: generate_proofs_def eff_simps simp del: emapM.simps)
  have outs: "outs = map out_commitment (req_outputs r)" using chk by (simp add: check_openings_eq_Inr [OF C g])
  have "sol_verify_balance (pf_curve PF) (pf_keccak PF) (ctx_chainId c) pool opBytes X
       \<lparr>px = Rx bp, py = Ry bp\<rparr> (proof_s bp) = Inr True"
    using prove_balance_verifies [OF C g generateBalanceProof_Inr [OF bp]] by simp
  moreover have "length rps = (if req_kind r = 0 then 0 else length openings)"
    using rps emapM_length [of _ "zip [0..<length openings] openings" w rps w1] by (auto split: if_splits)
  ultimately show ?thesis
    using chk opId X pool opBytes oids by (intro that [of ins X pool opBytes]) (simp_all add: gp outs)
qed

lemma safe_catch_Inr [simp]: "ecatch m (\<lambda>error. ethrow (f error)) w = (Inr a, w') \<longleftrightarrow> m w = (Inr a, w')"
  by (auto simp: ecatch_eq_Inr)

lemma safe_catch_Inl: "ecatch m (\<lambda>error. ethrow (f error)) w = (Inl e, w') \<longleftrightarrow> (\<exists>e'. m w = (Inl e', w') \<and> e = f e')"
  by (auto simp: ecatch_eq_Inl)

text \<open>An operation the core accepts as proved: well-formed, balanced, identified and with openings of its commitments.\<close>

definition consistent_draft :: "curve \<Rightarrow> viem \<Rightarrow> LocalDraft \<Rightarrow> bool" where
  "consistent_draft C V d \<longleftrightarrow> well_formed_request C (dr_request d) \<and>
     operationId V (dr_context d) (dr_request d) = Inr (dr_operationId d) \<and>
     outputIds_of V (dr_operationId d) (length (req_outputs (dr_request d))) = Inr (dr_outputIds d) \<and>
     mapM (commit C) (dr_openings d) = Inr (map out_commitment (req_outputs (dr_request d))) \<and>
     length (dr_inputOpenings d) = length (req_inputIds (dr_request d)) \<and>
     sum_list (map amount (dr_inputOpenings d)) + req_d (dr_request d) =
       sum_list (map amount (dr_openings d)) + req_w (dr_request d)"

lemma check_ids_eq:
  assumes "mapM (\<lambda>(index, i). rbind (outputId V opId (int index)) (\<lambda>expected. require (i = expected) e))
             (zip [0..<length ids] ids) = Inr us"
  shows "outputIds_of V opId (length ids) = Inr ids"
  using assms by (auto simp: outputIds_of_def mapM_eq_Inr list_all2_conv_all_nth res_simps)

lemma prove_fixed:
  assumes C: "curve_laws (pf_curve PF)" and g: "generators_valid (pf_curve PF)"
    and run: "proveFixedOperation PF fx w = (Inr d, w')"
  shows "fixed_of d = fx" and "consistent_draft (pf_curve PF) (pf_viem PF) d" and "dr_signature d = None"
    and "length (dr_rangeProofs d) = (if req_kind (dr_request d) = 0 then 0 else length (req_outputs (dr_request d)))"
    and "\<exists>ins X pool opBytes. mapM (commit (pf_curve PF)) (dr_inputOpenings d) = Inr ins \<and>
      computeBalancePoint (pf_curve PF) ins (map out_commitment (req_outputs (dr_request d)))
        (req_d (dr_request d)) (req_w (dr_request d)) = Inr X \<and>
      hexToBytes (pf_viem PF) (ctx_pool (dr_context d)) = Inr pool \<and>
      hexToBytes (pf_viem PF) (dr_operationId d) = Inr opBytes \<and>
      sol_verify_balance (pf_curve PF) (pf_keccak PF) (ctx_chainId (dr_context d)) pool opBytes X
        \<lparr>px = Rx (dr_balanceProof d), py = Ry (dr_balanceProof d)\<rparr> (proof_s (dr_balanceProof d)) = Inr True"
proof -
  from run obtain us gp where
    opId: "operationId (pf_viem PF) (fx_context fx) (fx_request fx) = Inr (fx_operationId fx)"
    and len: "length (fx_outputIds fx) = length (req_outputs (fx_request fx))"
    and ids: "mapM (\<lambda>(index, i). rbind (outputId (pf_viem PF) (fx_operationId fx) (int index)) (\<lambda>expected.
                            require (i = expected) invalid_operation))
                (zip [0..<length (fx_outputIds fx)] (fx_outputIds fx)) = Inr us"
    and gp: "generate_proofs PF (fx_context fx) (fx_request fx) (fx_openings fx) (fx_inputOpenings fx) w = (Inr gp, w')"
    and d: "d = \<lparr>dr_context = fx_context fx, dr_request = fx_request fx,
         dr_operationId = gp_operationId gp, dr_outputIds = gp_outputIds gp,
         dr_openings = fx_openings fx, dr_inputOpenings = fx_inputOpenings fx,
         dr_balanceProof = gp_balanceProof gp, dr_rangeProofs = gp_rangeProofs gp, dr_signature = None\<rparr>"
    by (auto simp: proveFixedOperation_def eff_simps split: if_splits)
  from generate_proofs_Inr [OF C g gp] obtain ins X pool opBytes where
    chk: "check_openings (pf_curve PF) (fx_request fx) (fx_openings fx) (fx_inputOpenings fx)
            = Inr (ins, map out_commitment (req_outputs (fx_request fx)))"
    and i: "operationId (pf_viem PF) (fx_context fx) (fx_request fx) = Inr (gp_operationId gp)"
    and oids: "outputIds_of (pf_viem PF) (gp_operationId gp) (length (req_outputs (fx_request fx))) = Inr (gp_outputIds gp)"
    and b: "computeBalancePoint (pf_curve PF) ins (map out_commitment (req_outputs (fx_request fx)))
       (req_d (fx_request fx)) (req_w (fx_request fx)) = Inr X"
    "hexToBytes (pf_viem PF) (ctx_pool (fx_context fx)) = Inr pool" "hexToBytes (pf_viem PF) (gp_operationId gp) = Inr opBytes"
    "sol_verify_balance (pf_curve PF) (pf_keccak PF) (ctx_chainId (fx_context fx)) pool opBytes X
       \<lparr>px = Rx (gp_balanceProof gp), py = Ry (gp_balanceProof gp)\<rparr> (proof_s (gp_balanceProof gp)) = Inr True"
    and rp: "length (gp_rangeProofs gp) = (if req_kind (fx_request fx) = 0 then 0 else length (fx_openings fx))"
    by metis
  have same: "gp_operationId gp = fx_operationId fx" using i opId by simp
  have same_ids: "gp_outputIds gp = fx_outputIds fx" using check_ids_eq [OF ids] oids same len by simp
  note c = chk [unfolded check_openings_eq_Inr [OF C g]]
  show "fixed_of d = fx" by (simp add: d fixed_of_def same same_ids)
  show "consistent_draft (pf_curve PF) (pf_viem PF) d"
    using c i oids by (simp add: d consistent_draft_def)
  show "dr_signature d = None" by (simp add: d)
  have "length (fx_openings fx) = length (req_outputs (fx_request fx))"
    using c mapM_length [of "commit (pf_curve PF)" "fx_openings fx"] by fastforce
  then show "length (dr_rangeProofs d) = (if req_kind (dr_request d) = 0 then 0 else length (req_outputs (dr_request d)))"
    using rp by (simp add: d)
  show "\<exists>ins X pool opBytes. mapM (commit (pf_curve PF)) (dr_inputOpenings d) = Inr ins \<and>
      computeBalancePoint (pf_curve PF) ins (map out_commitment (req_outputs (dr_request d)))
        (req_d (dr_request d)) (req_w (dr_request d)) = Inr X \<and>
      hexToBytes (pf_viem PF) (ctx_pool (dr_context d)) = Inr pool \<and>
      hexToBytes (pf_viem PF) (dr_operationId d) = Inr opBytes \<and>
      sol_verify_balance (pf_curve PF) (pf_keccak PF) (ctx_chainId (dr_context d)) pool opBytes X
        \<lparr>px = Rx (dr_balanceProof d), py = Ry (dr_balanceProof d)\<rparr> (proof_s (dr_balanceProof d)) = Inr True"
    using b c by (intro exI [of _ ins] exI [of _ X] exI [of _ pool] exI [of _ opBytes]) (simp add: d)
qed

section \<open>Lemmas: fixing\<close>

text \<open>Two requests that differ only in their packets.\<close>

definition same_but_packets :: "OperationRequest \<Rightarrow> OperationRequest \<Rightarrow> bool" where
  "same_but_packets a b \<longleftrightarrow> req_kind a = req_kind b \<and> req_owner a = req_owner b \<and> req_salt a = req_salt b \<and>
     req_inputIds a = req_inputIds b \<and> req_d a = req_d b \<and> req_w a = req_w b \<and> req_destination a = req_destination b \<and>
     map out_owner (req_outputs a) = map out_owner (req_outputs b) \<and>
     map out_commitment (req_outputs a) = map out_commitment (req_outputs b) \<and>
     map out_receiptFormat (req_outputs a) = map out_receiptFormat (req_outputs b)"

lemma map_packet:
  assumes "\<And>x. f (x\<lparr>out_packet := p\<rparr>) = f x"
  shows "map f (xs[i := (xs ! i)\<lparr>out_packet := p\<rparr>]) = map f xs"
proof (rule nth_equalityI)
  fix j
  assume "j < length (map f (xs[i := (xs ! i)\<lparr>out_packet := p\<rparr>]))"
  then show "map f (xs[i := (xs ! i)\<lparr>out_packet := p\<rparr>]) ! j = map f xs ! j"
    by (cases "i = j") (simp_all add: assms)
qed simp

lemma set_packet_same: "same_but_packets a b \<Longrightarrow> same_but_packets (set_packet a i p) b"
  by (simp add: same_but_packets_def set_packet_def map_packet)

lemma seal_output_same:
  "seal_output PF c plans openings r i w = (Inr r', w') \<Longrightarrow> same_but_packets r b \<Longrightarrow> same_but_packets r' b"
  by (auto simp: seal_output_def eff_simps intro: set_packet_same)

lemma seal_outputs_same:
  assumes "efoldM (seal_output PF c plans openings) bare is w = (Inr r, w')"
  shows "same_but_packets r bare"
  by (rule efoldM_invariant [OF assms, where I = "\<lambda>r. same_but_packets r bare"])
     (auto intro: seal_output_same simp: same_but_packets_def [of bare])

lemma same_but_packets_length: "same_but_packets a b \<Longrightarrow> length (req_outputs a) = length (req_outputs b)"
  unfolding same_but_packets_def by (metis length_map)

text \<open>The information a packet is bound to does not depend on the packets.\<close>

lemma receiptInfo_same:
  assumes "same_but_packets a b"
  shows "receiptInfo V c a i = receiptInfo V c b i"
proof -
  have each: "f (req_outputs a ! n) = f (req_outputs b ! n)" if "map f (req_outputs a) = map f (req_outputs b)"
    "n < length (req_outputs b)" for n and f :: "PublicOutput \<Rightarrow> 'x"
    using that same_but_packets_length [OF assms] by (metis nth_map)
  show ?thesis
  proof (cases "nat i < length (req_outputs b)")
    case True
    then show ?thesis
      using assms same_but_packets_length [OF assms] each [of out_owner "nat i"] each [of out_commitment "nat i"]
        each [of out_receiptFormat "nat i"]
      by (simp add: receiptInfo_def same_but_packets_def Let_def)
  next
    case False
    then show ?thesis using same_but_packets_length [OF assms] by (simp add: receiptInfo_def requireInput_def require_def)
  qed
qed

text \<open>Output \<open>i\<close> carries the opening for its recipient: encrypted to the recipient's key and bound to the request.\<close>

definition sealed_output ::
  "('w, 'pk, 'snd, 'sk, 'rcp) platform \<Rightarrow> Context \<Rightarrow> OperationRequest \<Rightarrow> nat \<Rightarrow> RecipientInfo \<Rightarrow> Opening \<Rightarrow> bool" where
  "sealed_output PF c request i recipient opening \<longleftrightarrow> (\<exists>key hex info packet v v'.
     hexToBytes (pf_viem PF) (ri_receivePublicKey recipient) = Inr key \<and>
     receiptInfo (pf_viem PF) c request (int i) = Inr hex \<and> hexToBytes (pf_viem PF) hex = Inr info \<and>
     encryptReceipt (pf_hpke PF) \<lparr>eri_recipientPublicKey = key, eri_info = info, eri_opening = opening\<rparr> v = (Inr packet, v') \<and>
     out_packet (req_outputs request ! i) = bytesToHex (pf_viem PF) packet)"

lemma seal_output_sealed:
  assumes "seal_output PF c plans openings r i w = (Inr r', w')" and "i < length (req_outputs r)"
  shows "sealed_output PF c r' i (snd (plans ! i)) (openings ! i)"
proof -
  from assms(1) obtain key hex info packet v where s: "hexToBytes (pf_viem PF) (ri_receivePublicKey (snd (plans ! i))) = Inr key"
    "receiptInfo (pf_viem PF) c r (int i) = Inr hex" "hexToBytes (pf_viem PF) hex = Inr info"
    "encryptReceipt (pf_hpke PF) \<lparr>eri_recipientPublicKey = key, eri_info = info, eri_opening = openings ! i\<rparr> w = (Inr packet, v)"
    "r' = set_packet r i (bytesToHex (pf_viem PF) packet)"
    by (auto simp: seal_output_def eff_simps rbind_eq_Inr)
  have "receiptInfo (pf_viem PF) c r' (int i) = Inr hex"
    using receiptInfo_same [OF seal_output_same [OF assms(1)], of r] s(2) by (simp add: same_but_packets_def)
  with s assms(2) show ?thesis unfolding sealed_output_def by (auto simp: set_packet_def)
qed

lemma seal_output_keeps:
  assumes "seal_output PF c plans openings r j w = (Inr r', w')" and "j \<noteq> i" and "sealed_output PF c r i recipient opening"
  shows "sealed_output PF c r' i recipient opening"
proof -
  have "out_packet (req_outputs r' ! i) = out_packet (req_outputs r ! i)"
    using assms(1,2) by (auto simp: seal_output_def eff_simps set_packet_def)
  moreover have "receiptInfo (pf_viem PF) c r' (int i) = receiptInfo (pf_viem PF) c r (int i)"
    by (rule receiptInfo_same [OF seal_output_same [OF assms(1)]]) (simp add: same_but_packets_def)
  ultimately show ?thesis using assms(3) by (simp add: sealed_output_def)
qed

lemma seal_outputs_sealed:
  assumes "efoldM (seal_output PF c plans openings) r is w = (Inr r', w')" and "distinct is"
    and "\<forall>i \<in> set is. i < length (req_outputs r)" and "i \<in> set is \<or> sealed_output PF c r i (snd (plans ! i)) (openings ! i)"
  shows "sealed_output PF c r' i (snd (plans ! i)) (openings ! i)"
  using assms
proof (induction "is" arbitrary: r w)
  case (Cons j js)
  from Cons.prems(1) obtain r1 w1 where r1: "seal_output PF c plans openings r j w = (Inr r1, w1)"
    and rest: "efoldM (seal_output PF c plans openings) r1 js w1 = (Inr r', w')"
    by (auto simp: ebind_eq_Inr)
  have len: "length (req_outputs r1) = length (req_outputs r)"
    by (rule same_but_packets_length [OF seal_output_same [OF r1]]) (simp add: same_but_packets_def)
  have "i \<in> set js \<or> sealed_output PF c r1 i (snd (plans ! i)) (openings ! i)"
    using Cons.prems(3,4) seal_output_sealed [OF r1] seal_output_keeps [OF r1] by (cases "i = j") auto
  with Cons.IH [OF rest] Cons.prems(2,3) len show ?case by simp
qed simp

lemma draw_opening_eq_Inr:
  "draw_opening rng p w = (Inr op, w') \<longleftrightarrow>
   (\<exists>b. randomBlinding rng w = (Inr b, w') \<and> op = \<lparr>amount = fst p, blinding = b\<rparr>)"
  by (auto simp: draw_opening_def eff_simps)

lemma blindings_drawn:
  "emapM (draw_opening rng) plans w = (Inr os, w') \<Longrightarrow>
   map amount os = map fst plans \<and> list_all (\<lambda>o'. 0 \<le> blinding o' \<and> blinding o' < Q_mod) os"
proof (induction plans arbitrary: w os)
  case (Cons p plans)
  then obtain b w1 os' where "randomBlinding rng w = (Inr b, w1)"
    "emapM (draw_opening rng) plans w1 = (Inr os', w')" "os = \<lparr>amount = fst p, blinding = b\<rparr> # os'"
    by (auto simp: eff_simps draw_opening_eq_Inr)
  with Cons.IH [of w1 os'] randomBlinding_range [of rng w b w1] show ?case by simp
qed simp

lemma input_sum: "foldl (\<lambda>s input. s + amount (coin_opening input)) n inputs = n + sum_list (map (\<lambda>c. amount (coin_opening c)) inputs)"
  by (induction inputs arbitrary: n) auto

lemma select_for_sound:
  assumes "select_for C plan c cs = Inr inputs"
  shows "mapM (commit C) (map coin_opening inputs) = Inr (map coin_commitment inputs)"
    and "intent_kind plan = 0 \<Longrightarrow> inputs = []"
    and "intent_kind plan \<noteq> 0 \<Longrightarrow> set inputs \<subseteq> spendable c (intent_owner plan) cs \<and> distinct inputs \<and>
      intent_amount plan \<le> sum_list (map (\<lambda>c. amount (coin_opening c)) inputs)"
    and "intent_explicit plan = Some ids \<Longrightarrow> coin_number ` set inputs = BigInt_hex ` set ids"
proof -
  from assms obtain us where
    sel: "(if intent_kind plan = 0 then Inr []
                  else selectInputs c cs \<lparr>sel_kind = intent_kind plan, sel_owner = intent_owner plan,
                         sel_amount = intent_amount plan, sel_explicitIds = intent_explicit plan\<rparr>) = Inr inputs"
    and com: "mapM (\<lambda>input. rbind (commit C (coin_opening input)) (\<lambda>c.
               require (px c = px (coin_commitment input) \<and> py c = py (coin_commitment input)) invalid_operation)) inputs = Inr us"
    by (auto simp: select_for_def rbind_eq_Inr split: if_splits)
  show "mapM (commit C) (map coin_opening inputs) = Inr (map coin_commitment inputs)"
    using com by (auto simp: mapM_eq_Inr list_all2_conv_all_nth res_simps intro!: G1Point.equality)
  show "intent_kind plan = 0 \<Longrightarrow> inputs = []" using sel by simp
  show "coin_number ` set inputs = BigInt_hex ` set ids" if "intent_explicit plan = Some ids"
  proof -
    have "intent_kind plan \<noteq> 0" using that by (cases plan) simp_all
    with sel selectInputs_explicit [of c cs _ inputs ids] that show ?thesis by simp
  qed
  assume "intent_kind plan \<noteq> 0"
  with sel have "selectInputs c cs \<lparr>sel_kind = intent_kind plan, sel_owner = intent_owner plan,
                         sel_amount = intent_amount plan, sel_explicitIds = intent_explicit plan\<rparr> = Inr inputs" by simp
  from selectInputs_sound [OF this]
  show "set inputs \<subseteq> spendable c (intent_owner plan) cs \<and> distinct inputs \<and>
      intent_amount plan \<le> sum_list (map (\<lambda>c. amount (coin_opening c)) inputs)"
    by (simp add: feasible_def Let_def sum_coins_eq coin_amount_def [abs_def])
qed

text \<open>The planned outputs: the payment to the recipient, then what is left to the change recipient.\<close>

definition change_left :: "BuildIntent \<Rightarrow> OwnedUtxo list \<Rightarrow> int" where
  "change_left plan inputs = sum_list (map (\<lambda>c. amount (coin_opening c)) inputs) - (if intent_kind plan = 0 then 0 else intent_amount plan)"

lemma plan_outputs_eq_Inr:
  assumes "plan_outputs plan inputs = Inr plans" and "intent_kind plan = 0 \<Longrightarrow> inputs = []"
  shows "plans = (case intent_recipient plan of Some r \<Rightarrow> [(intent_amount plan, r)] | None \<Rightarrow> []) @
      (if change_left plan inputs > 0 then [(change_left plan inputs, the (intent_change plan))] else [])"
    and "change_left plan inputs > 0 \<Longrightarrow> intent_change plan \<noteq> None"
  using assms by (cases plan; auto simp: plan_outputs_def Let_def input_sum change_left_def split: if_splits option.splits)+

lemma verify_recipients_eq_Inr:
  assumes "verify_recipients T plan context plans = Inr u" and "i < length plans"
  shows "verifyRecipientInfo T context (snd (plans ! i))
    (if intent_kind plan = 1 \<and> i = 0 then ri_owner (snd (plans ! i)) else intent_owner plan) = Inr ()"
proof -
  from assms(1) obtain us where "mapM (\<lambda>(i, (_, recipient)). verifyRecipientInfo T context recipient
      (if intent_kind plan = 1 \<and> i = (0 :: nat) then ri_owner recipient else intent_owner plan)) (zip [0..<length plans] plans) = Inr us"
    by (auto simp: verify_recipients_def rbind_eq_Inr)
  then have "(\<lambda>(i, (_, recipient)). verifyRecipientInfo T context recipient
      (if intent_kind plan = 1 \<and> i = (0 :: nat) then ri_owner recipient else intent_owner plan)) (zip [0..<length plans] plans ! i) = Inr (us ! i)"
    using assms(2) by (auto simp: mapM_eq_Inr list_all2_conv_all_nth)
  then show ?thesis using assms(2) by (simp add: case_prod_beta)
qed

lemma plan_outputs_balance:
  assumes "plan_outputs plan inputs = Inr plans" and "intent_kind plan = 0 \<Longrightarrow> inputs = []"
    and "intent_kind plan \<noteq> 0 \<Longrightarrow> intent_amount plan \<le> sum_list (map (\<lambda>c. amount (coin_opening c)) inputs)"
  shows "sum_list (map (\<lambda>c. amount (coin_opening c)) inputs) + (if intent_kind plan = 0 then intent_amount plan else 0)
    = sum_list (map fst plans) + (if intent_kind plan = 2 then intent_amount plan else 0)"
  using assms by (cases plan) (auto simp: plan_outputs_def Let_def input_sum split: if_splits option.splits)

lemma fix_operation:
  assumes run: "fixOperation PF plan c cs randomSalt w = (Inr fx, w')"
  obtains inputs plans where
    "well_formed_request (pf_curve PF) (fx_request fx)" "fx_context fx = c"
    "operationId (pf_viem PF) c (fx_request fx) = Inr (fx_operationId fx)"
    "outputIds_of (pf_viem PF) (fx_operationId fx) (length (req_outputs (fx_request fx))) = Inr (fx_outputIds fx)"
    "mapM (commit (pf_curve PF)) (fx_openings fx) = Inr (map out_commitment (req_outputs (fx_request fx)))"
    "sum_list (map amount (fx_inputOpenings fx)) + req_d (fx_request fx) =
       sum_list (map amount (fx_openings fx)) + req_w (fx_request fx)"
    "req_kind (fx_request fx) = intent_kind plan" "req_owner (fx_request fx) = intent_owner plan"
    "req_destination (fx_request fx) = intent_destination plan"
    "req_inputIds (fx_request fx) = map coin_id inputs" "fx_inputOpenings fx = map coin_opening inputs"
    "set inputs \<subseteq> spendable c (intent_owner plan) cs"
    "mapM (commit (pf_curve PF)) (fx_inputOpenings fx) = Inr (map coin_commitment inputs)"
    "intent_kind plan = 0 \<Longrightarrow> inputs = []" "intent_kind plan \<noteq> 0 \<Longrightarrow> distinct inputs"
    "\<And>ids. intent_explicit plan = Some ids \<Longrightarrow> coin_number ` set inputs = BigInt_hex ` set ids"
    "req_d (fx_request fx) = (if intent_kind plan = 0 then intent_amount plan else 0)"
    "req_w (fx_request fx) = (if intent_kind plan = 2 then intent_amount plan else 0)"
    "plans = (case intent_recipient plan of Some r \<Rightarrow> [(intent_amount plan, r)] | None \<Rightarrow> []) @
      (if change_left plan inputs > 0 then [(change_left plan inputs, the (intent_change plan))] else [])"
    "change_left plan inputs > 0 \<Longrightarrow> intent_change plan \<noteq> None"
    "map amount (fx_openings fx) = map fst plans" "map out_owner (req_outputs (fx_request fx)) = map (ri_owner \<circ> snd) plans"
    "\<And>i. i < length plans \<Longrightarrow> verifyRecipientInfo (pf_typed PF) c (snd (plans ! i))
      (if intent_kind plan = 1 \<and> i = 0 then ri_owner (snd (plans ! i)) else intent_owner plan) = Inr ()"
    "\<And>i. i < length plans \<Longrightarrow> sealed_output PF c (fx_request fx) i (snd (plans ! i)) (fx_openings fx ! i)"
proof -
  from run obtain inputs plans u salt w1 openings w2 bare request where
    sel: "select_for (pf_curve PF) plan c cs = Inr inputs" and plans: "plan_outputs plan inputs = Inr plans"
    and recipients: "verify_recipients (pf_typed PF) plan c plans = Inr u"
    and draw: "emapM (draw_opening (pf_random PF)) plans w1 = (Inr openings, w2)"
    and bare: "bare_request (pf_curve PF) (pf_viem PF) plan salt inputs plans openings = Inr bare"
    and seal: "efoldM (seal_output PF c plans openings) bare [0..<length (req_outputs bare)] w2 = (Inr request, w')"
    and shape: "validateOperationShape (pf_curve PF) request = Inr ()"
    and opId: "operationId (pf_viem PF) c request = Inr (fx_operationId fx)"
    and oids: "outputIds_of (pf_viem PF) (fx_operationId fx) (length (req_outputs request)) = Inr (fx_outputIds fx)"
    and fx: "fx_context fx = c" "fx_request fx = request" "fx_openings fx = openings" "fx_inputOpenings fx = map coin_opening inputs"
    by (fastforce simp: fixOperation_def eff_simps simp del: emapM.simps efoldM.simps split: if_splits)
  note same = seal_outputs_same [OF seal]
  note amounts = blindings_drawn [OF draw]
  from bare obtain ps where ps: "mapM (commit (pf_curve PF)) openings = Inr ps"
    and bare_eq: "bare = \<lparr>req_kind = intent_kind plan, req_owner = intent_owner plan, req_salt = bytesToHex (pf_viem PF) salt,
          req_inputIds = map coin_id inputs,
          req_outputs = map2 (\<lambda>(_, recipient) c. \<lparr>out_owner = ri_owner recipient, out_commitment = c,
            out_receiptFormat = 1, out_packet = ''0x''\<rparr>) plans ps,
          req_d = (if intent_kind plan = 0 then intent_amount plan else 0),
          req_w = (if intent_kind plan = 2 then intent_amount plan else 0),
          req_destination = (if intent_kind plan = 2 then intent_destination plan else zeroAddress)\<rparr>"
    by (auto simp: bare_request_def rbind_eq_Inr)
  have len: "length ps = length plans"
    using mapM_length [OF ps] amounts by (metis length_map)
  have "map out_commitment (map2 (\<lambda>(_, recipient) c. \<lparr>out_owner = ri_owner recipient, out_commitment = c,
            out_receiptFormat = 1, out_packet = ''0x''\<rparr>) plans ps) = ps"
    using len by (intro nth_equalityI) (simp_all add: case_prod_beta)
  then have "map out_commitment (req_outputs request) = ps"
    using same by (simp add: same_but_packets_def bare_eq)
  moreover have "map out_owner (map2 (\<lambda>(_, recipient) c. \<lparr>out_owner = ri_owner recipient, out_commitment = c,
            out_receiptFormat = 1, out_packet = ''0x''\<rparr>) plans ps) = map (ri_owner \<circ> snd) plans"
    using len by (intro nth_equalityI) (simp_all add: case_prod_beta)
  then have "map out_owner (req_outputs request) = map (ri_owner \<circ> snd) plans"
    using same by (simp add: same_but_packets_def bare_eq)
  moreover have "sealed_output PF c request i (snd (plans ! i)) (openings ! i)" if "i < length plans" for i
    by (rule seal_outputs_sealed [OF seal]) (use that len in \<open>simp_all add: bare_eq\<close>)
  moreover have "intent_destination plan = zeroAddress" if "intent_kind plan \<noteq> 2"
    using that by (cases plan) auto
  moreover have "set inputs \<subseteq> spendable c (intent_owner plan) cs"
    using select_for_sound(2,3) [OF sel] by (cases "intent_kind plan = 0") auto
  moreover have "sum_list (map amount (map coin_opening inputs)) + req_d request = sum_list (map amount openings) + req_w request"
    using plan_outputs_balance [OF plans select_for_sound(2) [OF sel]] select_for_sound(3) [OF sel] same amounts
    by (simp add: same_but_packets_def bare_eq comp_def)
  ultimately show ?thesis
    using shape opId oids fx same ps select_for_sound(1) [OF sel]
      select_for_sound(2-4) [OF sel] plan_outputs_eq_Inr [OF plans select_for_sound(2) [OF sel]] amounts
      verify_recipients_eq_Inr [OF recipients]
    by (intro that [of inputs plans]) (simp_all add: validateOperationShape_eq_Inr same_but_packets_def bare_eq)
qed

section \<open>A run that proves\<close>

text \<open>A source that always answers 5 and a hash whose value is always 1.\<close>

lemma constant_balance_proof:
  assumes ctx: "validateContext (bpi_chainId inp) (bpi_pool inp) (bpi_operationId inp) = Inr ()"
    and x: "0 \<le> bpi_x inp" "bpi_x inp < Q_mod" and X: "bpi_X inp = smul model_curve G_base (bpi_x inp)"
  shows "\<exists>pf. proveBalanceWithSource model_curve (\<lambda>_. word_loop 32 1 []) inp (\<lambda>w. (Inr 5, w)) w = (Inr pf, w)"
proof -
  note C = model_curve_laws and g = model_generators
  note vG = generators_base(2) [OF g]
  let ?R = "smul model_curve G_base 5" and ?k = "\<lambda>_ :: octets. word_loop 32 1 []"
  have vX: "valid_point model_curve (bpi_X inp)" by (simp add: X smul_valid [OF C vG])
  have "(5 :: int) mod Q_mod \<noteq> 0" by (simp add: Q_mod_def)
  then have R0: "?R \<noteq> zero_point" using model_full_order(2) unfolding has_full_order_def by blast
  have vR: "valid_point model_curve ?R" by (simp add: smul_valid [OF C vG])
  let ?pre = "challenge_preimage model_curve ?k (bpi_chainId inp) (replicate 12 0 @ bpi_pool inp) (bpi_operationId inp) (bpi_X inp) ?R"
  obtain bs where bs: "?pre 0 = Inr bs"
    using challenge_preimage_total [OF g vX vR, of "bpi_chainId inp" 0] ctx unfolding validateContext_eq_Inr by fastforce
  have p: "parsePoint model_curve ?R False = Inr ?R" using vR R0 by (simp add: parsePoint_eq_Inr)
  have one: "bytesToBigInt (word_loop 32 1 []) = 1" by (rule bytesToBigInt_word_loop) auto
  have "\<exists>t. challenge_loop ?k ?pre 256 0 [] = Inr t"
    using bs one challenge_loop.simps(2) [of ?k ?pre 255 0 "[]"] by (simp add: Let_def Q_mod_def)
  then obtain t where t: "balanceChallengeTrace model_curve ?k (bpi_chainId inp) (bpi_pool inp) (bpi_operationId inp) (bpi_X inp) ?R = Inr t"
    using ctx vX p by (auto simp: balanceChallengeTrace_def parsePoint_valid Let_def concat_parts_def)
  have five: "sampleScalar (\<lambda>w. (Inr 5, w)) False w = (Inr 5, w)"
    unfolding sampleScalar_def
    by (rule sample_loop_first [where cs = "[]"]) (auto intro!: drawn_Cons drawn_Nil simp: scalar_accepted_def Q_mod_def)
  show ?thesis
    using ctx x vX vG t five X
    by (simp add: proveBalanceWithSource_def mul_valid parsePoint_valid samePoint_iff ebind_def Let_def Q_mod_def)
qed

end
