(* ===== verification/Receipt.thy ===== *)
theory Receipt
  imports Operation
begin

text \<open>
  \<open>packages/core/src/receipt.ts\<close>: \<open>inspectReceipt\<close> decides from checkpoint-bound observations whether one
  output of an observed operation belongs to the expected owner, opens its packet with the retained keys
  and returns the owned coin.  Every early return of the function is a value of \<open>receipt_exit\<close>; a thrown
  error (only the identifier helpers can throw outside a \<open>try\<close>) is its last constructor.
\<close>

datatype receipt_status = rs_inconsistent | rs_unknown

datatype receipt_reason =
    INVALID_REQUEST | OUTPUT_INDEX | MISSING_SUCCESS | MISSING_OUTPUT | OPERATION_BINDING | LOG_POSITION
  | CHECKPOINT | RS_HISTORY_UNAVAILABLE | OWNER | UTXO_STATE | CONSUMPTION | KEY_UNAVAILABLE | DECRYPT

datatype receipt_exit =
    Fail receipt_status receipt_reason
  | Throw failure

record ReceiptState =
  rst_context :: Context
  rst_creationBlock :: "BlockHeader Observation"
  rst_operation :: "OperationSuccess Observation"
  rst_utxo :: "UtxoState Observation"
  rst_consumingOperation :: "OperationSuccess Observation option"

record ReceivedUtxo =
  ru_operationId :: string
  ru_utxo :: OwnedUtxo
  ru_creationCheckpoint :: Checkpoint

datatype receipt_result =
    Received ReceivedUtxo
  | NotReceived receipt_status receipt_reason

definition fail_if :: "bool \<Rightarrow> receipt_status \<Rightarrow> receipt_reason \<Rightarrow> receipt_exit + unit" where
  "fail_if b status reason = require (\<not> b) (Fail status reason)"

definition or_throw :: "'a res \<Rightarrow> receipt_exit + 'a" where
  "or_throw m = (case m of Inl e \<Rightarrow> Inl (Throw e) | Inr a \<Rightarrow> Inr a)"

text \<open>\<open>undefined\<close> and the empty string are both falsy.\<close>

fun truthy :: "string option \<Rightarrow> bool" where
  "truthy None = False"
| "truthy (Some s) = (s \<noteq> [])"

section \<open>The checks\<close>

text \<open>The loop over the three observations.\<close>

fun envelope :: "'a Observation \<Rightarrow> Checkpoint \<Rightarrow> receipt_exit + unit" where
  "envelope (Incomplete _) point = Inl (Fail rs_unknown RS_HISTORY_UNAVAILABLE)"
| "envelope (Complete blockHash _) point = fail_if (\<not> sameText blockHash (cp_hash point)) rs_unknown CHECKPOINT"

fun observed_value :: "'a Observation \<Rightarrow> receipt_exit + 'a" where
  "observed_value (Complete _ v) = Inr v"
| "observed_value (Incomplete _) = Inl (Fail rs_unknown RS_HISTORY_UNAVAILABLE)"

definition same_public_output :: "PublicOutput \<Rightarrow> PublicOutput \<Rightarrow> bool" where
  "same_public_output a b \<longleftrightarrow> sameText (out_owner a) (out_owner b) \<and>
     px (out_commitment a) = px (out_commitment b) \<and> py (out_commitment a) = py (out_commitment b) \<and>
     out_receiptFormat a = out_receiptFormat b \<and> sameText (out_packet a) (out_packet b)"

text \<open>One turn of the loop over the outputs: exactly one log of that index, bound to the operation and at its
  place before the success log.\<close>

definition check_output_log ::
  "viem \<Rightarrow> OperationRequest \<Rightarrow> string \<Rightarrow> EventLog \<Rightarrow> OutputLog list \<Rightarrow> int \<Rightarrow> nat \<Rightarrow> receipt_exit + int" where
  "check_output_log V request opId success outputLogs previous index =
     (let matches = filter (\<lambda>log. ol_outputIndex log = int index) outputLogs in
      rbind (fail_if (length matches = 0) rs_unknown MISSING_OUTPUT) (\<lambda>_.
      rbind (fail_if (length matches \<noteq> 1) rs_inconsistent OPERATION_BINDING) (\<lambda>_.
      let log = hd matches in
      rbind (fail_if (\<not> sameText (ev_operationId log) opId \<or>
               \<not> same_public_output (ol_output log) (req_outputs request ! index)) rs_inconsistent OPERATION_BINDING) (\<lambda>_.
      rbind (or_throw (outputId V opId (int index))) (\<lambda>oid.
      rbind (fail_if (\<not> sameText (ol_outputId log) oid) rs_inconsistent OPERATION_BINDING) (\<lambda>_.
      rbind (fail_if (ev_blockNumber log \<noteq> ev_blockNumber success \<or> \<not> sameText (ev_blockHash log) (ev_blockHash success) \<or>
               \<not> sameText (ev_transactionHash log) (ev_transactionHash success) \<or>
               ev_transactionIndex log \<noteq> ev_transactionIndex success \<or> \<not> position (ev_logIndex log) \<or>
               ev_logIndex log \<le> previous \<or>
               ev_logIndex log \<noteq> ev_logIndex success - int (length (req_outputs request)) + int index)
             rs_inconsistent LOG_POSITION) (\<lambda>_.
      Inr (ev_logIndex log))))))))"

text \<open>\<open>equal(operationId(...), id)\<close> inside a \<open>try\<close>.\<close>

definition bound_operation :: "viem \<Rightarrow> Context \<Rightarrow> OperationRequest \<Rightarrow> string \<Rightarrow> bool" where
  "bound_operation V context request opId \<longleftrightarrow>
     (case operationId V context request of Inl _ \<Rightarrow> False | Inr i \<Rightarrow> sameText i opId)"

definition check_consumption ::
  "curve \<Rightarrow> viem \<Rightarrow> Context \<Rightarrow> Checkpoint \<Rightarrow> string \<Rightarrow> string \<Rightarrow> UtxoState \<Rightarrow> OperationSuccess Observation option
   \<Rightarrow> receipt_exit + unit" where
  "check_consumption C V context point expectedOwner receivedId utxo consuming =
     (if \<not> truthy (us_consumedBy utxo) then Inr ()
      else case consuming of
        None \<Rightarrow> Inl (Fail rs_unknown RS_HISTORY_UNAVAILABLE)
      | Some (Incomplete _) \<Rightarrow> Inl (Fail rs_unknown RS_HISTORY_UNAVAILABLE)
      | Some (Complete blockHash v) \<Rightarrow>
          rbind (fail_if (\<not> sameText blockHash (cp_hash point)) rs_unknown CHECKPOINT) (\<lambda>_.
          case os_operation v of
            None \<Rightarrow> Inl (Fail rs_unknown RS_HISTORY_UNAVAILABLE)
          | Some operation \<Rightarrow>
              fail_if (\<not> (is_ok (validateOperationShape C operation) \<and> os_executed v \<and>
                 bound_operation V context operation (the (us_consumedBy utxo)) \<and>
                 sameText (req_owner operation) expectedOwner \<and>
                 list_ex (\<lambda>input. sameText input receivedId) (req_inputIds operation)))
               rs_inconsistent CONSUMPTION))"

text \<open>Everything before the key port is asked: the operation's identifier and the received output's.\<close>

definition check_binding ::
  "curve \<Rightarrow> viem \<Rightarrow> ObservedOperation \<Rightarrow> int \<Rightarrow> ReceiptState \<Rightarrow> Checkpoint
   \<Rightarrow> receipt_exit + (string \<times> EventLog)" where
  "check_binding C V observed outputIndex state point =
     (let request = ob_request observed; context = rst_context state in
      rbind (recast (Fail rs_inconsistent INVALID_REQUEST) (validateOperationShape C request)) (\<lambda>_.
      rbind (fail_if (\<not> position outputIndex \<or> nat outputIndex \<ge> length (req_outputs request)) rs_inconsistent OUTPUT_INDEX) (\<lambda>_.
      case ob_success observed of
        None \<Rightarrow> Inl (Fail rs_unknown MISSING_SUCCESS)
      | Some success \<Rightarrow>
          rbind (recast (Fail rs_inconsistent INVALID_REQUEST) (operationId V context request)) (\<lambda>opId.
          rbind (fail_if (\<not> sameText opId (ev_operationId success)) rs_inconsistent OPERATION_BINDING) (\<lambda>_.
          rbind (fail_if (cp_mode point \<noteq> ctx_finalityMode context \<or> ev_blockNumber success < ctx_deploymentBlock context \<or>
                   ev_blockNumber success > cp_number point) rs_unknown CHECKPOINT) (\<lambda>_.
          rbind (envelope (rst_creationBlock state) point) (\<lambda>_.
          rbind (envelope (rst_operation state) point) (\<lambda>_.
          rbind (envelope (rst_utxo state) point) (\<lambda>_.
          rbind (observed_value (rst_creationBlock state)) (\<lambda>header.
          rbind (fail_if (hd_number header \<noteq> ev_blockNumber success \<or> \<not> sameText (hd_hash header) (ev_blockHash success) \<or>
                   (ev_blockNumber success = cp_number point \<and> \<not> sameText (ev_blockHash success) (cp_hash point)))
                 rs_inconsistent CHECKPOINT) (\<lambda>_.
          rbind (fail_if (\<not> position (ev_transactionIndex success) \<or> \<not> position (ev_logIndex success))
                 rs_inconsistent LOG_POSITION) (\<lambda>_.
          rbind (fail_if (list_ex (\<lambda>log. \<not> position (ol_outputIndex log) \<or>
                     ol_outputIndex log \<ge> int (length (req_outputs request))) (ob_outputLogs observed))
                 rs_inconsistent OPERATION_BINDING) (\<lambda>_.
          rbind (foldM (check_output_log V request opId success (ob_outputLogs observed)) (-1) [0..<length (req_outputs request)]) (\<lambda>_.
          Inr (opId, success)))))))))))))))"

definition check_ownership ::
  "curve \<Rightarrow> viem \<Rightarrow> ObservedOperation \<Rightarrow> int \<Rightarrow> string \<Rightarrow> ReceiptState \<Rightarrow> Checkpoint \<Rightarrow> string
   \<Rightarrow> receipt_exit + (string \<times> bool)" where
  "check_ownership C V observed outputIndex expectedOwner state point opId =
     (let request = ob_request observed; context = rst_context state; output = req_outputs request ! nat outputIndex in
      rbind (observed_value (rst_operation state)) (\<lambda>operation.
      rbind (fail_if (\<not> os_executed operation) rs_inconsistent UTXO_STATE) (\<lambda>_.
      rbind (fail_if (case os_operation operation of None \<Rightarrow> False | Some r \<Rightarrow> \<not> bound_operation V context r opId)
             rs_inconsistent OPERATION_BINDING) (\<lambda>_.
      rbind (fail_if (\<not> sameText (out_owner output) expectedOwner) rs_inconsistent OWNER) (\<lambda>_.
      rbind (observed_value (rst_utxo state)) (\<lambda>utxo.
      rbind (fail_if (\<not> us_exists utxo) rs_inconsistent UTXO_STATE) (\<lambda>_.
      rbind (fail_if (\<not> truthy (us_owner utxo) \<or> us_commitment utxo = None) rs_unknown RS_HISTORY_UNAVAILABLE) (\<lambda>_.
      rbind (fail_if (\<not> sameText (the (us_owner utxo)) expectedOwner) rs_inconsistent OWNER) (\<lambda>_.
      rbind (fail_if (px (the (us_commitment utxo)) \<noteq> px (out_commitment output) \<or>
                py (the (us_commitment utxo)) \<noteq> py (out_commitment output)) rs_inconsistent UTXO_STATE) (\<lambda>_.
      rbind (or_throw (outputId V opId outputIndex)) (\<lambda>receivedId.
      rbind (check_consumption C V context point expectedOwner receivedId utxo (rst_consumingOperation state)) (\<lambda>_.
      Inr (receivedId, truthy (us_consumedBy utxo))))))))))))))"

section \<open>Keys\<close>

definition request_keys :: "'w ReceiptKeyPort \<Rightarrow> string \<Rightarrow> ('w, octets list) eff" where
  "request_keys port owner = (case getKeys port of
     Some many \<Rightarrow> many owner
   | None \<Rightarrow> ebind (getKey port owner) (\<lambda>key. ereturn [key]))"

definition retained_keys :: "'w ReceiptKeyPort \<Rightarrow> string \<Rightarrow> ('w, receipt_exit, octets list) run" where
  "retained_keys port owner =
     ebind (ecast (Fail rs_unknown KEY_UNAVAILABLE) (request_keys port owner)) (\<lambda>keys.
     ebind (elift (fail_if (keys = [] \<or> list_ex (\<lambda>key. length key \<noteq> 32) keys) rs_unknown KEY_UNAVAILABLE)) (\<lambda>_.
     ereturn keys))"

definition open_output ::
  "curve \<Rightarrow> viem \<Rightarrow> ('w, 'pk, 'snd, 'sk, 'rcp) hpke \<Rightarrow> Context \<Rightarrow> OperationRequest \<Rightarrow> int \<Rightarrow> octets \<Rightarrow> Opening res" where
  "open_output C V suite context request outputIndex key =
     (let output = req_outputs request ! nat outputIndex in
      rbind (rbind (receiptInfo V context request outputIndex) (hexToBytes V)) (\<lambda>info.
      rbind (hexToBytes V (out_packet output)) (\<lambda>packet.
      decryptReceipt C suite \<lparr>dri_recipientPrivateKey = key, dri_info = info, dri_packet = packet,
        dri_commitment = out_commitment output\<rparr>)))"

text \<open>The loop over the keys: the first that opens the packet.\<close>

fun first_opening :: "(octets \<Rightarrow> Opening res) \<Rightarrow> octets list \<Rightarrow> Opening option" where
  "first_opening f [] = None"
| "first_opening f (key # keys) = (case f key of Inr opening \<Rightarrow> Some opening | Inl _ \<Rightarrow> first_opening f keys)"

definition received_coin ::
  "ObservedOperation \<Rightarrow> int \<Rightarrow> Context \<Rightarrow> Checkpoint \<Rightarrow> string \<Rightarrow> bool \<Rightarrow> Opening \<Rightarrow> OwnedUtxo" where
  "received_coin observed outputIndex context point receivedId consumed opening =
     (let output = req_outputs (ob_request observed) ! nat outputIndex in
      \<lparr>coin_id = receivedId, coin_owner = out_owner output, coin_opening = opening,
       coin_commitment = out_commitment output, coin_checkpoint = point,
       coin_status = (if consumed then spent else available),
       coin_chainId = ctx_chainId context, coin_pool = ctx_pool context\<rparr>)"

definition inspect_body ::
  "curve \<Rightarrow> viem \<Rightarrow> ('w, 'pk, 'snd, 'sk, 'rcp) hpke \<Rightarrow> ObservedOperation \<Rightarrow> int \<Rightarrow> string \<Rightarrow> 'w ReceiptKeyPort
   \<Rightarrow> ReceiptState \<Rightarrow> Checkpoint \<Rightarrow> ('w, receipt_exit, ReceivedUtxo) run" where
  "inspect_body C V suite observed outputIndex expectedOwner keyPort state point =
     ebind (elift (check_binding C V observed outputIndex state point)) (\<lambda>(opId, success).
     ebind (elift (check_ownership C V observed outputIndex expectedOwner state point opId)) (\<lambda>(receivedId, consumed).
     ebind (retained_keys keyPort expectedOwner) (\<lambda>keys.
     case first_opening (open_output C V suite (rst_context state) (ob_request observed) outputIndex) keys of
       None \<Rightarrow> ethrow (Fail rs_inconsistent DECRYPT)
     | Some opening \<Rightarrow> ereturn \<lparr>ru_operationId = opId,
          ru_utxo = received_coin observed outputIndex (rst_context state) point receivedId consumed opening,
          ru_creationCheckpoint = \<lparr>cp_number = ev_blockNumber success, cp_hash = ev_blockHash success,
            cp_mode = cp_mode point\<rparr>\<rparr>)))"

definition inspectReceipt ::
  "curve \<Rightarrow> viem \<Rightarrow> ('w, 'pk, 'snd, 'sk, 'rcp) hpke \<Rightarrow> ObservedOperation \<Rightarrow> int \<Rightarrow> string \<Rightarrow> 'w ReceiptKeyPort
   \<Rightarrow> ReceiptState \<Rightarrow> Checkpoint \<Rightarrow> ('w, receipt_result) eff" where
  "inspectReceipt C V suite observed outputIndex expectedOwner keyPort state point =
     ecatch (ebind (inspect_body C V suite observed outputIndex expectedOwner keyPort state point) (\<lambda>r. ereturn (Received r)))
       (\<lambda>exit. case exit of
          Fail status reason \<Rightarrow> ereturn (NotReceived status reason)
        | Throw error \<Rightarrow> ethrow error)"

section \<open>Lemmas\<close>

lemma fail_if_eq_Inr [res_simps]: "fail_if b status reason = Inr u \<longleftrightarrow> \<not> b"
  by (simp add: fail_if_def require_def)

lemma fail_if_eq_Inl: "fail_if b status reason = Inl x \<longleftrightarrow> b \<and> x = Fail status reason"
  by (auto simp: fail_if_def require_def)

lemma or_throw_eq_Inr [res_simps]: "or_throw m = Inr a \<longleftrightarrow> m = Inr a"
  by (simp add: or_throw_def split: sum.split)

lemma or_throw_not_fail [simp]: "or_throw m \<noteq> Inl (Fail status reason)"
  by (simp add: or_throw_def split: sum.split)

lemma envelope_eq_Inr [res_simps]:
  "envelope ob point = Inr u \<longleftrightarrow> (\<exists>h v. ob = Complete h v \<and> sameText h (cp_hash point))"
  by (cases ob) (auto simp: fail_if_eq_Inr)

lemma observed_value_eq_Inr [res_simps]: "observed_value ob = Inr v \<longleftrightarrow> (\<exists>h. ob = Complete h v)"
  by (cases ob) auto

lemma first_opening_Some: "first_opening f keys = Some op \<Longrightarrow> \<exists>key \<in> set keys. f key = Inr op"
  by (induction keys) (auto split: sum.splits)

lemma first_opening_None: "first_opening f keys = None \<longleftrightarrow> (\<forall>key \<in> set keys. \<exists>e. f key = Inl e)"
  by (induction keys) (auto split: sum.splits)

lemma retained_keys_eq_Inr [eff_simps]:
  "retained_keys port owner w = (Inr keys, w') \<longleftrightarrow>
   request_keys port owner w = (Inr keys, w') \<and> keys \<noteq> [] \<and> (\<forall>key \<in> set keys. length key = 32)"
  by (auto simp: retained_keys_def eff_simps res_simps list_ex_iff)

lemma inspectReceipt_Received:
  "inspectReceipt C V suite observed i owner port state point w = (Inr (Received r), w') \<longleftrightarrow>
   inspect_body C V suite observed i owner port state point w = (Inr r, w')"
  by (auto simp: inspectReceipt_def ecatch_def ebind_def split: prod.splits sum.splits receipt_exit.splits)

lemma inspectReceipt_NotReceived:
  "inspectReceipt C V suite observed i owner port state point w = (Inr (NotReceived status reason), w') \<longleftrightarrow>
   inspect_body C V suite observed i owner port state point w = (Inl (Fail status reason), w')"
  by (auto simp: inspectReceipt_def ecatch_def ebind_def split: prod.splits sum.splits receipt_exit.splits)

lemma inspect_body_eq_Inr:
  "inspect_body C V suite observed i owner port state point w = (Inr r, w') \<longleftrightarrow>
   (\<exists>opId success oid consumed keys opening.
      check_binding C V observed i state point = Inr (opId, success) \<and>
      check_ownership C V observed i owner state point opId = Inr (oid, consumed) \<and>
      retained_keys port owner w = (Inr keys, w') \<and>
      first_opening (open_output C V suite (rst_context state) (ob_request observed) i) keys = Some opening \<and>
      r = \<lparr>ru_operationId = opId,
          ru_utxo = received_coin observed i (rst_context state) point oid consumed opening,
          ru_creationCheckpoint = \<lparr>cp_number = ev_blockNumber success, cp_hash = ev_blockHash success,
            cp_mode = cp_mode point\<rparr>\<rparr>)"
  unfolding inspect_body_def ebind_def elift_def
  by (auto split: sum.splits prod.splits option.splits)

lemma check_binding_eq_Inr:
  assumes "check_binding C V observed i state point = Inr (opId, success)"
  shows "well_formed_request C (ob_request observed)" and "ob_success observed = Some success"
    and "operationId V (rst_context state) (ob_request observed) = Inr opId"
    and "position i" and "nat i < length (req_outputs (ob_request observed))"
    and "sameText opId (ev_operationId success)"
    and "cp_mode point = ctx_finalityMode (rst_context state)"
    and "ctx_deploymentBlock (rst_context state) \<le> ev_blockNumber success" and "ev_blockNumber success \<le> cp_number point"
    and "\<exists>h hd. rst_creationBlock state = Complete h hd \<and> sameText h (cp_hash point) \<and>
      hd_number hd = ev_blockNumber success \<and> sameText (hd_hash hd) (ev_blockHash success)"
    and "\<exists>h u. rst_utxo state = Complete h u \<and> sameText h (cp_hash point)"
  using assms
  by (auto simp: check_binding_def Let_def rbind_eq_Inr recast_eq_Inr fail_if_eq_Inr envelope_eq_Inr
      observed_value_eq_Inr validateOperationShape_eq_Inr not_less not_le split: option.splits)

lemma check_ownership_eq_Inr:
  assumes "check_ownership C V observed i owner state point opId = Inr (oid, consumed)"
  shows "outputId V opId i = Inr oid"
    and "sameText (out_owner (req_outputs (ob_request observed) ! nat i)) owner"
    and "\<exists>h u c. rst_utxo state = Complete h u \<and> us_exists u \<and> us_commitment u = Some c \<and>
      c = out_commitment (req_outputs (ob_request observed) ! nat i) \<and>
      sameText (the (us_owner u)) owner \<and> consumed = truthy (us_consumedBy u) \<and>
      (consumed \<longrightarrow> (\<exists>h' v operation. rst_consumingOperation state = Some (Complete h' v) \<and>
         os_operation v = Some operation \<and> os_executed v \<and> well_formed_request C operation \<and>
         bound_operation V (rst_context state) operation (the (us_consumedBy u)) \<and>
         sameText (req_owner operation) owner \<and> list_ex (\<lambda>input. sameText input oid) (req_inputIds operation)))"
proof -
  from assms obtain u h where
    oid: "outputId V opId i = Inr oid" and ow: "sameText (out_owner (req_outputs (ob_request observed) ! nat i)) owner"
    and u: "rst_utxo state = Complete h u" "us_exists u" "us_commitment u \<noteq> None"
      "px (the (us_commitment u)) = px (out_commitment (req_outputs (ob_request observed) ! nat i))"
      "py (the (us_commitment u)) = py (out_commitment (req_outputs (ob_request observed) ! nat i))"
      "sameText (the (us_owner u)) owner" "consumed = truthy (us_consumedBy u)"
    and con: "check_consumption C V (rst_context state) point owner oid u (rst_consumingOperation state) = Inr ()"
    by (auto simp: check_ownership_def Let_def rbind_eq_Inr fail_if_eq_Inr or_throw_eq_Inr observed_value_eq_Inr)
  show "outputId V opId i = Inr oid" "sameText (out_owner (req_outputs (ob_request observed) ! nat i)) owner"
    using oid ow by simp_all
  from con have "consumed \<longrightarrow> (\<exists>h' v operation. rst_consumingOperation state = Some (Complete h' v) \<and>
         os_operation v = Some operation \<and> os_executed v \<and> well_formed_request C operation \<and>
         bound_operation V (rst_context state) operation (the (us_consumedBy u)) \<and>
         sameText (req_owner operation) owner \<and> list_ex (\<lambda>input. sameText input oid) (req_inputIds operation))"
    using u(7)
    by (auto simp: check_consumption_def rbind_eq_Inr fail_if_eq_Inr is_ok_iff validateOperationShape_eq_Inr
        split: option.splits Observation.splits if_splits)
  with u show "\<exists>h u c. rst_utxo state = Complete h u \<and> us_exists u \<and> us_commitment u = Some c \<and>
      c = out_commitment (req_outputs (ob_request observed) ! nat i) \<and>
      sameText (the (us_owner u)) owner \<and> consumed = truthy (us_consumedBy u) \<and>
      (consumed \<longrightarrow> (\<exists>h' v operation. rst_consumingOperation state = Some (Complete h' v) \<and>
         os_operation v = Some operation \<and> os_executed v \<and> well_formed_request C operation \<and>
         bound_operation V (rst_context state) operation (the (us_consumedBy u)) \<and>
         sameText (req_owner operation) owner \<and> list_ex (\<lambda>input. sameText input oid) (req_inputIds operation)))"
    by (auto intro: G1Point.equality)
qed

lemma open_output_eq_Inr:
  "open_output C V suite c request i key = Inr op \<longleftrightarrow>
   (\<exists>hex info packet. receiptInfo V c request i = Inr hex \<and> hexToBytes V hex = Inr info \<and>
      hexToBytes V (out_packet (req_outputs request ! nat i)) = Inr packet \<and>
      decryptReceipt C suite \<lparr>dri_recipientPrivateKey = key, dri_info = info, dri_packet = packet,
        dri_commitment = out_commitment (req_outputs request ! nat i)\<rparr> = Inr op)"
  by (auto simp: open_output_def Let_def rbind_eq_Inr)

text \<open>No check before the keys reports \<open>DECRYPT\<close>.\<close>

definition decrypt_free :: "receipt_exit + 'a \<Rightarrow> bool" where
  "decrypt_free m \<longleftrightarrow> (\<forall>s. m \<noteq> Inl (Fail s DECRYPT))"

lemma decrypt_free_rbind: "decrypt_free m \<Longrightarrow> (\<And>a. decrypt_free (f a)) \<Longrightarrow> decrypt_free (rbind m f)"
  by (auto simp: decrypt_free_def rbind_def split: sum.splits)

lemma decrypt_free_foldM: "(\<And>b x. decrypt_free (f b x)) \<Longrightarrow> decrypt_free (foldM f b xs)"
  by (induction xs arbitrary: b) (auto simp: decrypt_free_def rbind_def split: sum.splits)

lemma decrypt_free_basic:
  "decrypt_free (Inr a)" "decrypt_free (or_throw m)"
  "reason \<noteq> DECRYPT \<Longrightarrow> decrypt_free (Inl (Fail status reason))"
  "reason \<noteq> DECRYPT \<Longrightarrow> decrypt_free (fail_if b status reason)"
  "reason \<noteq> DECRYPT \<Longrightarrow> decrypt_free (recast (Fail status reason) r)"
  by (simp_all add: decrypt_free_def fail_if_eq_Inl recast_eq_Inl)

lemma decrypt_free_observed: "decrypt_free (envelope ob point)" "decrypt_free (observed_value ob)"
  by (cases ob; simp add: decrypt_free_def fail_if_eq_Inl)+

lemma decrypt_free_cases:
  "decrypt_free a \<Longrightarrow> (\<And>x. decrypt_free (f x)) \<Longrightarrow> decrypt_free (case m of None \<Rightarrow> a | Some x \<Rightarrow> f x)"
  "(\<And>h v. decrypt_free (g h v)) \<Longrightarrow> (\<And>r. decrypt_free (h' r)) \<Longrightarrow>
   decrypt_free (case ob of Complete h v \<Rightarrow> g h v | Incomplete r \<Rightarrow> h' r)"
  "(b \<Longrightarrow> decrypt_free x) \<Longrightarrow> (\<not> b \<Longrightarrow> decrypt_free y) \<Longrightarrow> decrypt_free (if b then x else y)"
  by (auto split: option.split Observation.split)

lemmas decrypt_free_intros = decrypt_free_rbind decrypt_free_foldM decrypt_free_basic decrypt_free_observed decrypt_free_cases

lemma check_binding_decrypt_free: "decrypt_free (check_binding C V observed i state point)"
  unfolding check_binding_def check_output_log_def Let_def by (intro decrypt_free_intros) simp_all

lemma check_ownership_decrypt_free: "decrypt_free (check_ownership C V observed i owner state point opId)"
  unfolding check_ownership_def check_consumption_def Let_def by (intro decrypt_free_intros) simp_all

lemma retained_keys_decrypt_free: "decrypt_free (fst (retained_keys port owner w))"
  by (auto simp: decrypt_free_def retained_keys_def ebind_def ecast_def ecatch_def fail_if_eq_Inl
      split: prod.splits sum.splits)

lemma inspect_body_decrypt:
  "inspect_body C V suite observed i owner port state point w = (Inl (Fail s DECRYPT), w') \<longleftrightarrow>
   s = rs_inconsistent \<and> (\<exists>opId success oid consumed keys.
      check_binding C V observed i state point = Inr (opId, success) \<and>
      check_ownership C V observed i owner state point opId = Inr (oid, consumed) \<and>
      retained_keys port owner w = (Inr keys, w') \<and>
      first_opening (open_output C V suite (rst_context state) (ob_request observed) i) keys = None)"
proof -
  have 1: "check_binding C V observed i state point \<noteq> Inl (Fail s DECRYPT)"
    and 2: "\<And>opId. check_ownership C V observed i owner state point opId \<noteq> Inl (Fail s DECRYPT)"
    and 3: "\<And>w''. retained_keys port owner w \<noteq> (Inl (Fail s DECRYPT), w'')"
    using check_binding_decrypt_free [of C V observed i state point]
      check_ownership_decrypt_free [of C V observed i owner state point]
      retained_keys_decrypt_free [of port owner w] by (auto simp: decrypt_free_def)
  from 1 2 3 show ?thesis
    unfolding inspect_body_def ebind_def elift_def
    by (auto split: sum.splits prod.splits option.splits)
qed

section \<open>A received deposit\<close>

definition held_packet :: octets where
  "held_packet = replicate 32 7 @ (word_loop 32 5 [] @ word_loop 32 9 []) @ replicate 16 0"

definition held_output :: PublicOutput where
  "held_output = \<lparr>out_owner = address_of (CHR ''b''), out_commitment = lin2 model_curve 5 9, out_receiptFormat = 1,
     out_packet = ''0x'' @ bytesHex held_packet\<rparr>"

definition held_deposit :: OperationRequest where
  "held_deposit = (example_deposit (CHR ''b''))\<lparr>req_outputs := [held_output]\<rparr>"

definition held_event :: "string \<Rightarrow> EventLog" where
  "held_event opId = \<lparr>ev_operationId = opId, ev_blockNumber = 12, ev_blockHash = hash_of (CHR ''1''),
     ev_transactionHash = hash_of (CHR ''a''), ev_transactionIndex = 0, ev_logIndex = 3\<rparr>"

definition held_observed :: "string \<Rightarrow> string \<Rightarrow> ObservedOperation" where
  "held_observed opId oid = \<lparr>ob_request = held_deposit, ob_success = Some (held_event opId), ob_inputLogs = None,
     ob_outputLogs = [EventLog.extend (held_event opId\<lparr>ev_logIndex := 2\<rparr>)
       \<lparr>ol_output = held_output, ol_outputId = oid, ol_outputIndex = 0\<rparr>]\<rparr>"

definition held_point :: Checkpoint where
  "held_point = \<lparr>cp_number = 20, cp_hash = hash_of (CHR ''c''), cp_mode = finalized\<rparr>"

definition held_utxo :: UtxoState where
  "held_utxo = \<lparr>us_exists = True, us_owner = Some (address_of (CHR ''b'')), us_commitment = Some (out_commitment held_output),
     us_consumedBy = None\<rparr>"

definition held_header :: BlockHeader where
  "held_header = \<lparr>hd_number = 12, hd_hash = hash_of (CHR ''1'')\<rparr>"

definition held_state :: ReceiptState where
  "held_state = \<lparr>rst_context = example_context, rst_creationBlock = Complete (hash_of (CHR ''c'')) held_header,
     rst_operation = Complete (hash_of (CHR ''c'')) \<lparr>os_executed = True, os_operation = Some held_deposit\<rparr>,
     rst_utxo = Complete (hash_of (CHR ''c'')) held_utxo, rst_consumingOperation = None\<rparr>"

definition held_keys :: "unit ReceiptKeyPort" where
  "held_keys = \<lparr>getKey = \<lambda>_. ereturn (replicate 32 2), getKeys = None\<rparr>"

lemmas held_simps = held_deposit_def held_output_def held_event_def held_observed_def held_point_def held_utxo_def
  held_header_def held_state_def held_keys_def EventLog.defs

lemma length_held_packet [simp]: "length held_packet = 112"
  by (simp add: held_packet_def del: word_loop.simps)

lemma held_commitment:
  "valid_point model_curve (lin2 model_curve 5 9)"
  "0 \<le> px (lin2 model_curve 5 9)" "px (lin2 model_curve 5 9) < 2 ^ 256"
  "0 \<le> py (lin2 model_curve 5 9)" "py (lin2 model_curve 5 9) < 2 ^ 256"
proof -
  have "valid_opening \<lparr>amount = 5, blinding = 9\<rparr>" by (simp add: valid_opening_def M_max_eq Q_mod_def)
  then have c: "commit model_curve \<lparr>amount = 5, blinding = 9\<rparr> = Inr (lin2 model_curve 5 9)"
    using commit_valid [OF model_curve_laws model_generators] by fastforce
  from commit_eq_Inr [OF model_curve_laws model_generators] c
  show v: "valid_point model_curve (lin2 model_curve 5 9)"
    using generators_base [OF model_generators] by (simp add: lin2_def laws_add_valid model_curve_laws smul_valid)
  then show "0 \<le> px (lin2 model_curve 5 9)" "px (lin2 model_curve 5 9) < 2 ^ 256"
    "0 \<le> py (lin2 model_curve 5 9)" "py (lin2 model_curve 5 9) < 2 ^ 256"
    by (auto simp: model_valid Q_mod_def)
qed

lemma held_ids:
  obtains opId oid where "operationId model_viem example_context held_deposit = Inr opId"
    and "outputId model_viem opId 0 = Inr oid" and "bytes opId 32" and "bytes oid 32"
proof -
  have "\<exists>i. operationId model_viem example_context held_deposit = Inr i \<and> bytes i 32"
    using held_commitment by (simp add: example_simps held_simps)
  then obtain opId where "operationId model_viem example_context held_deposit = Inr opId" "bytes opId 32" by blast
  moreover from this have "\<exists>oid. outputId model_viem opId 0 = Inr oid \<and> bytes oid 32"
    by (auto simp: outputId_def index_position_def requireInput_def uint256_def isSafeInteger_def hash_values_def
        model_encode_def in_word_def core_tag_def OUTPUT_ID_TAG_def)
  ultimately show ?thesis using that by blast
qed

lemma held_shape: "well_formed_request model_curve held_deposit"
  using example_deposit_shape [of "CHR ''b''" model_curve] bytes_bytesHex [of held_packet] held_commitment
  by (simp add: well_formed_request_def held_simps example_deposit_def well_formed_output_def amounts_ok_def ownOutput_def)

lemma held_encrypted:
  "length info = 32 \<Longrightarrow> encryptReceipt model_hpke \<lparr>eri_recipientPublicKey = replicate 32 1, eri_info = info,
     eri_opening = \<lparr>amount = 5, blinding = 9\<rparr>\<rparr> () = (Inr held_packet, ())"
  by (auto simp: encryptReceipt_eq_Inr model_hpke_def held_packet_def encodeOpening_eq_Inr valid_opening_def
      M_max_eq Q_mod_def simp del: word_loop.simps)

lemma held_commit: "commit model_curve \<lparr>amount = 5, blinding = 9\<rparr> = Inr (lin2 model_curve 5 9)"
  using commit_valid [OF model_curve_laws model_generators, of "\<lparr>amount = 5, blinding = 9\<rparr>"]
  by (simp add: valid_opening_def M_max_eq Q_mod_def)

lemma held_info:
  obtains hex info where "receiptInfo model_viem example_context held_deposit 0 = Inr hex"
    and "hexToBytes model_viem hex = Inr info" and "length info = 32"
proof -
  have "\<exists>hex. receiptInfo model_viem example_context held_deposit 0 = Inr hex \<and> bytes hex 32"
    using held_commitment
    by (simp add: receiptInfo_def index_position_def requireInput_def uint256_def isSafeInteger_def held_simps example_simps INFO_TAG_def)
  with model_hex_laws that show ?thesis unfolding hex_laws_def by blast
qed

lemma held_packet_text: "hexToBytes model_viem (out_packet held_output) = Inr held_packet"
  by (simp add: held_output_def model_viem_def hexBytes_bytesHex [simplified])

lemma held_opens: "open_output model_curve model_viem model_hpke example_context held_deposit 0 (replicate 32 2)
  = Inr \<lparr>amount = 5, blinding = 9\<rparr>"
proof -
  obtain hex info where i: "receiptInfo model_viem example_context held_deposit 0 = Inr hex"
    "hexToBytes model_viem hex = Inr info" "length info = 32" by (rule held_info)
  have "decryptReceipt model_curve model_hpke \<lparr>dri_recipientPrivateKey = replicate 32 2, dri_info = info,
      dri_packet = held_packet, dri_commitment = lin2 model_curve 5 9\<rparr> = Inr \<lparr>amount = 5, blinding = 9\<rparr>"
    using receipt_round_trip [OF model_curve_laws model_generators model_hpke_laws _ held_encrypted [OF i(3)]] held_commit
    by simp
  then show ?thesis
    using i held_packet_text by (auto simp: open_output_eq_Inr held_deposit_def held_output_def)
qed

lemma held_received:
  assumes ids: "operationId model_viem example_context held_deposit = Inr opId"
    "outputId model_viem opId 0 = Inr oid" "bytes opId 32"
  obtains r where
    "inspectReceipt model_curve model_viem model_hpke (held_observed opId oid) 0 (address_of (CHR ''b'')) held_keys
       held_state held_point () = (Inr (Received r), ())"
    and "coin_opening (ru_utxo r) = \<lparr>amount = 5, blinding = 9\<rparr>" and "coin_status (ru_utxo r) = available"
proof -
  have shape: "validateOperationShape model_curve held_deposit = Inr ()"
    using held_shape by (simp add: validateOperationShape_eq_Inr)
  have outputs: "req_outputs held_deposit = [held_output]" by (simp add: held_deposit_def)
  have logs: "check_output_log model_viem held_deposit opId (held_event opId) (ob_outputLogs (held_observed opId oid)) (- 1) 0 = Inr 2"
    using ids by (simp add: check_output_log_def held_observed_def held_event_def fail_if_def or_throw_def outputs
        same_public_output_def position_def isSafeInteger_def EventLog.defs)
  have b: "check_binding model_curve model_viem (held_observed opId oid) 0 held_state held_point = Inr (opId, held_event opId)"
    using ids shape logs
    by (simp add: check_binding_def held_observed_def held_state_def held_point_def held_header_def held_event_def
        outputs fail_if_def position_def isSafeInteger_def example_context_def EventLog.defs)
  have o': "check_ownership model_curve model_viem (held_observed opId oid) 0 (address_of (CHR ''b'')) held_state held_point opId
      = Inr (oid, False)"
    using ids by (simp add: check_ownership_def held_observed_def held_state_def held_utxo_def outputs fail_if_def
        or_throw_def check_consumption_def held_output_def address_of_def bound_operation_def)
  have k: "retained_keys held_keys (address_of (CHR ''b'')) () = (Inr [replicate 32 2], ())"
    by (simp add: retained_keys_eq_Inr held_keys_def request_keys_def ebind_def ereturn_def)
  have f: "first_opening (open_output model_curve model_viem model_hpke (rst_context held_state)
      (ob_request (held_observed opId oid)) 0) [replicate 32 2] = Some \<lparr>amount = 5, blinding = 9\<rparr>"
    using held_opens by (simp add: held_state_def held_observed_def)
  show ?thesis
    by (rule that [unfolded inspectReceipt_Received inspect_body_eq_Inr], intro exI conjI, rule b, rule o', rule k, rule f, rule refl)
      (simp_all add: received_coin_def Let_def)
qed

section \<open>Properties\<close>



text \<open>C14: A packet its recipient can open is never reported as undecryptable: if the packet in the request was sealed by
  \<open>encryptReceipt\<close> for the key pair of one of the retained keys, under the output's own \<open>info\<close> and with an opening of
  its commitment, then no inspection that reads those keys ends in \<open>DECRYPT\<close>.\<close>

theorem held_packet_received:
  assumes "curve_laws C" and "generators_valid C" and "hpke_laws suite (eri_recipientPublicKey inp) sk"
    and "encryptReceipt suite inp w0 = (Inr packet, w1)"
    and "hexToBytes V (out_packet (req_outputs (ob_request observed) ! nat i)) = Inr packet"
    and "receiptInfo V (rst_context state) (ob_request observed) i = Inr hex" and "hexToBytes V hex = Inr (eri_info inp)"
    and "commit C (eri_opening inp) = Inr (out_commitment (req_outputs (ob_request observed) ! nat i))"
    and "request_keys port owner w = (Inr keys, w')" and "sk \<in> set keys" and "length sk = 32"
  shows "inspectReceipt C V suite observed i owner port state point w \<noteq> (Inr (NotReceived status DECRYPT), w'')"
proof
  assume "inspectReceipt C V suite observed i owner port state point w = (Inr (NotReceived status DECRYPT), w'')"
  then have "first_opening (open_output C V suite (rst_context state) (ob_request observed) i) keys = None"
    using assms(9) by (auto simp: inspectReceipt_NotReceived inspect_body_decrypt retained_keys_eq_Inr)
  moreover have "open_output C V suite (rst_context state) (ob_request observed) i sk = Inr (eri_opening inp)"
    using receipt_round_trip [OF assms(1-3,11,4,8)] assms(5-7) by (auto simp: open_output_eq_Inr)
  ultimately show False using assms(10) by (auto simp: first_opening_None)
qed

theorem held_packet_received_witness:
  "\<forall>opId oid status. inspectReceipt model_curve model_viem model_hpke (held_observed opId oid) 0 (address_of (CHR ''b''))
     held_keys held_state held_point () \<noteq> (Inr (NotReceived status DECRYPT), ())"
proof -
  obtain hex info where i: "receiptInfo model_viem example_context held_deposit 0 = Inr hex"
    "hexToBytes model_viem hex = Inr info" "length info = 32" by (rule held_info)
  have k: "request_keys held_keys (address_of (CHR ''b'')) () = (Inr [replicate 32 2], ())"
    by (simp add: held_keys_def request_keys_def ebind_def ereturn_def)
  show ?thesis
    by (intro allI, rule held_packet_received [OF model_curve_laws model_generators model_hpke_laws
          held_encrypted [OF i(3)] _ _ _ _ k, where sk = "replicate 32 2"])
       (use i held_packet_text held_commit in \<open>simp_all add: held_observed_def held_state_def held_deposit_def held_output_def\<close>)
qed

end
