(* ===== verification/OperationProperties.thy ===== *)
theory OperationProperties
  imports Receipt
begin

text \<open>Properties of fixing, proving and regenerating operations, with a concrete deposit as witness.\<close>

definition held_platform :: "(unit, octets, octets, octets, octets) platform" where
  "held_platform = \<lparr>pf_curve = model_curve, pf_keccak = \<lambda>_. word_loop 32 1 [], pf_random = \<lambda>_. ereturn (word_loop 32 5 []),
     pf_hpke = model_hpke, pf_viem = model_viem, pf_typed = example_typed\<rparr>"

definition held_fixed :: "string \<Rightarrow> string \<Rightarrow> FixedOperation" where
  "held_fixed opId oid = \<lparr>fx_context = example_context, fx_request = held_deposit, fx_operationId = opId,
     fx_outputIds = [oid], fx_openings = [\<lparr>amount = 5, blinding = 9\<rparr>], fx_inputOpenings = []\<rparr>"

lemma held_context_bytes:
  obtains pool where "hexToBytes model_viem (ctx_pool example_context) = Inr pool" and "length pool = 20"
proof -
  have "bytes (ctx_pool example_context) 20" by (simp add: example_context_def address_of_bytes)
  with model_hex_laws that show ?thesis unfolding hex_laws_def by blast
qed

lemma held_balance_point:
  obtains X where "computeBalancePoint model_curve [] [lin2 model_curve 5 9] 5 0 = Inr X"
    and "balanceWitness [] [9] = Inr (Q_mod - 9)" and "X = smul model_curve G_base (Q_mod - 9)"
proof -
  note laws = model_curve_laws model_generators
  have c: "mapM (commit model_curve) [] = Inr []"
    "mapM (commit model_curve) [\<lparr>amount = 5, blinding = 9\<rparr>] = Inr [lin2 model_curve 5 9]"
    using held_commit by simp_all
  have x: "balanceWitness (map blinding []) (map blinding [\<lparr>amount = 5, blinding = 9\<rparr>]) = Inr (Q_mod - 9)"
    by (simp add: balanceWitness_eq_Inr Q_mod_def)
  obtain X where X: "computeBalancePoint model_curve [] [lin2 model_curve 5 9] 5 0 = Inr X"
    using balance_point_linear [OF laws c] by (simp add: M_max_eq)
  from balance_point_iff [OF laws model_full_order(1) c X x] X x show ?thesis by (intro that) simp_all
qed

lemma held_proved:
  obtains opId oid d where "proveFixedOperation held_platform (held_fixed opId oid) () = (Inr d, ())"
proof -
  obtain opId oid where ids: "operationId model_viem example_context held_deposit = Inr opId"
    "outputId model_viem opId 0 = Inr oid" "bytes opId 32" "bytes oid 32" by (rule held_ids)
  obtain pool where pool: "hexToBytes model_viem (ctx_pool example_context) = Inr pool" "length pool = 20"
    by (rule held_context_bytes)
  obtain opBytes where ob: "hexToBytes model_viem opId = Inr opBytes" "length opBytes = 32"
    using model_hex_laws ids(3) unfolding hex_laws_def by blast
  obtain X where X: "computeBalancePoint model_curve [] [lin2 model_curve 5 9] 5 0 = Inr X"
    "balanceWitness [] [9] = Inr (Q_mod - 9)" "X = smul model_curve G_base (Q_mod - 9)" by (rule held_balance_point)
  have source: "secure_source (\<lambda>_. ereturn (word_loop 32 5 [])) = (\<lambda>w :: unit. (Inr 5, w))"
  proof
    fix w :: unit
    have "bytesToBigInt (word_loop 32 5 []) = 5" by (rule bytesToBigInt_word_loop) auto
    then show "secure_source (\<lambda>_. ereturn (word_loop 32 5 [])) w = (Inr 5, w)"
      by (simp add: secure_source_def ebind_def del: word_loop.simps)
  qed
  obtain pf where pf: "proveBalanceWithSource model_curve (\<lambda>_. word_loop 32 1 [])
      \<lparr>bpi_X = X, bpi_x = Q_mod - 9, bpi_chainId = 1, bpi_pool = pool, bpi_operationId = opBytes\<rparr>
      (secure_source (\<lambda>_. ereturn (word_loop 32 5 []))) () = (Inr pf, ())"
    using constant_balance_proof [of "\<lparr>bpi_X = X, bpi_x = Q_mod - 9, bpi_chainId = 1, bpi_pool = pool, bpi_operationId = opBytes\<rparr>" "()"]
      pool(2) ob(2) X(3) by (auto simp: source validateContext_eq_Inr Q_mod_def)
  have shape: "validateOperationShape model_curve held_deposit = Inr ()"
    using held_shape by (simp add: validateOperationShape_eq_Inr)
  have fields: "req_outputs held_deposit = [held_output]" "req_inputIds held_deposit = []" "req_d held_deposit = 5"
    "req_w held_deposit = 0" "req_kind held_deposit = 0"
    by (simp_all add: held_deposit_def example_deposit_def)
  have chk: "check_openings model_curve held_deposit [\<lparr>amount = 5, blinding = 9\<rparr>] [] = Inr ([], [lin2 model_curve 5 9])"
    using shape held_commit by (simp add: check_openings_def fields held_output_def total_amount_def)
  have oids: "outputIds_of model_viem opId 1 = Inr [oid]"
    using ids by (simp add: outputIds_of_def)
  have "\<exists>gp. generate_proofs held_platform example_context held_deposit [\<lparr>amount = 5, blinding = 9\<rparr>] [] () = (Inr gp, ())"
    using chk ids(1) X(1,2) pool(1) ob(1) pf oids
    by (simp add: generate_proofs_def held_platform_def ebind_def fields generateBalanceProof_def ecatch_def example_context_def)
  then obtain gp where gp: "generate_proofs held_platform example_context held_deposit [\<lparr>amount = 5, blinding = 9\<rparr>] [] () = (Inr gp, ())"
    by blast
  then have "\<exists>d. proveFixedOperation held_platform (held_fixed opId oid) () = (Inr d, ())"
    using shape ids by (simp add: proveFixedOperation_def held_fixed_def ebind_def ecatch_def fields held_platform_def)
  then show ?thesis using that by blast
qed

section \<open>Properties\<close>

text \<open>C15: A draft that \<open>proveFixedOperation\<close> returns keeps the fixed operation unchanged and is consistent: its request is
  well formed, its identifiers are those of its own content, its openings open its commitments and balance the
  public amounts; it carries one range proof per output (none for a deposit), and the contract's balance verifier
  accepts its balance proof for the same chain, pool, operation and balance point.\<close>

theorem proved_draft_consistent:
  assumes "curve_laws (pf_curve PF)" and "generators_valid (pf_curve PF)"
    and "proveFixedOperation PF fx w = (Inr d, w')"
  shows "fixed_of d = fx \<and> consistent_draft (pf_curve PF) (pf_viem PF) d \<and> dr_signature d = None \<and>
    length (dr_rangeProofs d) = (if req_kind (dr_request d) = 0 then 0 else length (req_outputs (dr_request d))) \<and>
    (\<exists>ins X pool opBytes. mapM (commit (pf_curve PF)) (dr_inputOpenings d) = Inr ins \<and>
      computeBalancePoint (pf_curve PF) ins (map out_commitment (req_outputs (dr_request d)))
        (req_d (dr_request d)) (req_w (dr_request d)) = Inr X \<and>
      hexToBytes (pf_viem PF) (ctx_pool (dr_context d)) = Inr pool \<and>
      hexToBytes (pf_viem PF) (dr_operationId d) = Inr opBytes \<and>
      sol_verify_balance (pf_curve PF) (pf_keccak PF) (ctx_chainId (dr_context d)) pool opBytes X
        \<lparr>px = Rx (dr_balanceProof d), py = Ry (dr_balanceProof d)\<rparr> (proof_s (dr_balanceProof d)) = Inr True)"
  using prove_fixed [OF assms] by blast

theorem proved_draft_consistent_witness:
  "\<exists>opId oid d. proveFixedOperation held_platform (held_fixed opId oid) () = (Inr d, ()) \<and>
     consistent_draft model_curve model_viem d \<and> dr_request d = held_deposit"
proof -
  obtain opId oid d where run: "proveFixedOperation held_platform (held_fixed opId oid) () = (Inr d, ())" by (rule held_proved)
  moreover have "curve_laws (pf_curve held_platform)" "generators_valid (pf_curve held_platform)"
    by (simp_all add: held_platform_def model_curve_laws model_generators)
  note proved_draft_consistent [OF this run]
  ultimately show ?thesis
    by (intro exI [of _ opId] exI [of _ oid] exI [of _ d]) (auto simp: held_platform_def held_fixed_def fixed_of_def)
qed

text \<open>C16: Regenerating the proofs of a draft replaces only its proofs: the context, request, identifiers, openings and a
  non-empty owner signature are kept, the result is consistent again, and every failure is one of the two failure
  classes of the packages with no other error passing through.\<close>

theorem regenerated_draft_keeps_operation:
  assumes "curve_laws (pf_curve PF)" and "generators_valid (pf_curve PF)"
    and "regenerateProofs PF d w = (res, w')"
  shows "case res of
      Inr d' \<Rightarrow> fixed_of d' = fixed_of d \<and> consistent_draft (pf_curve PF) (pf_viem PF) d' \<and>
        dr_signature d' = (if truthy (dr_signature d) then dr_signature d else None)
    | Inl e \<Rightarrow> (\<exists>code stage. e = CoreFailure code stage) \<or> (\<exists>code. e = CryptoFailure code ''operation'')"
proof (cases res)
  case (Inr d')
  with assms(3) obtain proved where run: "proveFixedOperation PF (fixed_of d) w = (Inr proved, w')"
    and d': "d' = (case dr_signature d of Some sg \<Rightarrow> if sg = [] then proved else proved\<lparr>dr_signature := Some sg\<rparr>
        | None \<Rightarrow> proved)"
    by (auto simp: regenerateProofs_def eff_simps)
  note p = prove_fixed [OF assms(1,2) run]
  have "fixed_of (proved\<lparr>dr_signature := s\<rparr>) = fixed_of proved"
    "consistent_draft (pf_curve PF) (pf_viem PF) (proved\<lparr>dr_signature := s\<rparr>) = consistent_draft (pf_curve PF) (pf_viem PF) proved" for s
    by (simp_all add: fixed_of_def consistent_draft_def)
  with p(1-3) Inr show ?thesis by (cases "dr_signature d") (simp_all add: d')
next
  case (Inl e)
  with assms(3) obtain e' where "e = safeFailure e'" by (auto simp: regenerateProofs_def safe_catch_Inl)
  with Inl show ?thesis by (cases e') auto
qed

theorem regenerated_draft_keeps_operation_witness:
  "\<exists>d d'. regenerateProofs held_platform (d\<lparr>dr_signature := Some ''0x1b''\<rparr>) () = (Inr d', ()) \<and>
     dr_request d' = held_deposit \<and> dr_signature d' = Some ''0x1b''"
proof -
  obtain opId oid d where run: "proveFixedOperation held_platform (held_fixed opId oid) () = (Inr d, ())" by (rule held_proved)
  have laws: "curve_laws (pf_curve held_platform)" "generators_valid (pf_curve held_platform)"
    by (simp_all add: held_platform_def model_curve_laws model_generators)
  let ?d = "d\<lparr>dr_signature := Some ''0x1b''\<rparr>"
  have f: "fixed_of ?d = held_fixed opId oid" using prove_fixed(1) [OF laws run] by (simp add: fixed_of_def)
  then have "regenerateProofs held_platform ?d () = (Inr (d\<lparr>dr_signature := Some ''0x1b''\<rparr>), ())"
    using run by (simp add: regenerateProofs_def ebind_def)
  from regenerated_draft_keeps_operation [OF laws this] this f show ?thesis
    by (intro exI [of _ d] exI [of _ ?d]) (simp add: fixed_of_def held_fixed_def)
qed

text \<open>C17: What \<open>fixOperation\<close> fixes is a well-formed operation of the intent.  The kind, owner, destination, deposit and
  withdrawal are the intent's; the inputs are distinct confirmed spendable coins of the owner with openings of their
  commitments, none for a deposit, and those of the explicit identifiers if there are any.  The outputs are, in this
  order, the intent's amount to its recipient (unless it is withdrawn), and whatever the inputs leave, if anything, to the
  change recipient; each recipient is verified, each commitment opens to the planned amount and each packet is that
  opening, sealed to its recipient's key and bound to the request.  Amounts balance and the identifiers are the request's.\<close>

theorem fixed_operation_sound:
  assumes "fixOperation PF plan c cs randomSalt w = (Inr fx, w')"
  shows "\<exists>inputs plans. well_formed_request (pf_curve PF) (fx_request fx) \<and>
    operationId (pf_viem PF) c (fx_request fx) = Inr (fx_operationId fx) \<and>
    outputIds_of (pf_viem PF) (fx_operationId fx) (length (req_outputs (fx_request fx))) = Inr (fx_outputIds fx) \<and>
    mapM (commit (pf_curve PF)) (fx_openings fx) = Inr (map out_commitment (req_outputs (fx_request fx))) \<and>
    sum_list (map amount (fx_inputOpenings fx)) + req_d (fx_request fx) =
      sum_list (map amount (fx_openings fx)) + req_w (fx_request fx) \<and>
    req_kind (fx_request fx) = intent_kind plan \<and> req_owner (fx_request fx) = intent_owner plan \<and>
    req_destination (fx_request fx) = intent_destination plan \<and>
    req_d (fx_request fx) = (if intent_kind plan = 0 then intent_amount plan else 0) \<and>
    req_w (fx_request fx) = (if intent_kind plan = 2 then intent_amount plan else 0) \<and>
    req_inputIds (fx_request fx) = map coin_id inputs \<and> fx_inputOpenings fx = map coin_opening inputs \<and>
    set inputs \<subseteq> spendable c (intent_owner plan) cs \<and>
    (if intent_kind plan = 0 then inputs = [] else distinct inputs) \<and>
    (\<forall>ids. intent_explicit plan = Some ids \<longrightarrow> coin_number ` set inputs = BigInt_hex ` set ids) \<and>
    mapM (commit (pf_curve PF)) (fx_inputOpenings fx) = Inr (map coin_commitment inputs) \<and>
    plans = (case intent_recipient plan of Some r \<Rightarrow> [(intent_amount plan, r)] | None \<Rightarrow> []) @
      (if change_left plan inputs > 0 then [(change_left plan inputs, the (intent_change plan))] else []) \<and>
    (change_left plan inputs > 0 \<longrightarrow> intent_change plan \<noteq> None) \<and>
    map amount (fx_openings fx) = map fst plans \<and> map out_owner (req_outputs (fx_request fx)) = map (ri_owner \<circ> snd) plans \<and>
    (\<forall>i < length plans. verifyRecipientInfo (pf_typed PF) c (snd (plans ! i))
        (if intent_kind plan = 1 \<and> i = 0 then ri_owner (snd (plans ! i)) else intent_owner plan) = Inr () \<and>
      sealed_output PF c (fx_request fx) i (snd (plans ! i)) (fx_openings fx ! i))"
proof (rule fix_operation [OF assms])
  fix inputs plans
  assume facts: "well_formed_request (pf_curve PF) (fx_request fx)"
    "operationId (pf_viem PF) c (fx_request fx) = Inr (fx_operationId fx)"
    "outputIds_of (pf_viem PF) (fx_operationId fx) (length (req_outputs (fx_request fx))) = Inr (fx_outputIds fx)"
    "mapM (commit (pf_curve PF)) (fx_openings fx) = Inr (map out_commitment (req_outputs (fx_request fx)))"
    "sum_list (map amount (fx_inputOpenings fx)) + req_d (fx_request fx) =
      sum_list (map amount (fx_openings fx)) + req_w (fx_request fx)"
    "req_kind (fx_request fx) = intent_kind plan" "req_owner (fx_request fx) = intent_owner plan"
    "req_destination (fx_request fx) = intent_destination plan"
    "req_inputIds (fx_request fx) = map coin_id inputs" "fx_inputOpenings fx = map coin_opening inputs"
    "set inputs \<subseteq> spendable c (intent_owner plan) cs"
    "mapM (commit (pf_curve PF)) (fx_inputOpenings fx) = Inr (map coin_commitment inputs)"
    "req_d (fx_request fx) = (if intent_kind plan = 0 then intent_amount plan else 0)"
    "req_w (fx_request fx) = (if intent_kind plan = 2 then intent_amount plan else 0)"
    "plans = (case intent_recipient plan of Some r \<Rightarrow> [(intent_amount plan, r)] | None \<Rightarrow> []) @
      (if change_left plan inputs > 0 then [(change_left plan inputs, the (intent_change plan))] else [])"
    "map amount (fx_openings fx) = map fst plans" "map out_owner (req_outputs (fx_request fx)) = map (ri_owner \<circ> snd) plans"
    and side: "intent_kind plan = 0 \<Longrightarrow> inputs = []" "intent_kind plan \<noteq> 0 \<Longrightarrow> distinct inputs"
      "\<And>ids. intent_explicit plan = Some ids \<Longrightarrow> coin_number ` set inputs = BigInt_hex ` set ids"
      "change_left plan inputs > 0 \<Longrightarrow> intent_change plan \<noteq> None"
      "\<And>i. i < length plans \<Longrightarrow> verifyRecipientInfo (pf_typed PF) c (snd (plans ! i))
        (if intent_kind plan = 1 \<and> i = 0 then ri_owner (snd (plans ! i)) else intent_owner plan) = Inr ()"
      "\<And>i. i < length plans \<Longrightarrow> sealed_output PF c (fx_request fx) i (snd (plans ! i)) (fx_openings fx ! i)"
  have "if intent_kind plan = 0 then inputs = [] else distinct inputs" using side(1,2) by simp
  then show ?thesis
    by (intro exI [where x = inputs] exI [where x = plans] conjI facts allI impI side) assumption+
qed

text \<open>A deposit of 5 to oneself, with the constant source and a constant salt.\<close>

definition held_recipient :: RecipientInfo where
  "held_recipient = \<lparr>ri_chainId = 1, ri_pool = address_of (CHR ''a''), ri_owner = address_of (CHR ''b''),
     ri_receivePublicKey = hash_of (CHR ''1''), ri_receiptFormat = 1, ri_recipientInfoVersion = 1,
     ri_signature = example_signature\<rparr>"

definition sealed_request :: "octets \<Rightarrow> OperationRequest" where
  "sealed_request salt = \<lparr>req_kind = 0, req_owner = address_of (CHR ''b''), req_salt = bytesToHex model_viem salt,
     req_inputIds = [], req_outputs = [\<lparr>out_owner = address_of (CHR ''b''), out_commitment = lin2 model_curve 5 5,
       out_receiptFormat = 1, out_packet = ''0x''\<rparr>], req_d = 5, req_w = 0, req_destination = zeroAddress\<rparr>"

lemma held_recipient_verified: "verifyRecipientInfo example_typed example_context held_recipient (address_of (CHR ''b'')) = Inr ()"
proof -
  have t: "\<exists>t. recipientInfoTypedData example_context held_recipient (address_of (CHR ''b'')) = Inr t"
  proof -
    have "toLowerCase (address_of (CHR ''b'')) \<noteq> zeroAddress" by code_simp
    then show ?thesis
      by (simp add: recipientInfoTypedData_def typed_domain_def auth_input_def example_context_def held_recipient_def address_of_bytes)
  qed
  have "address_of (CHR ''b'') \<noteq> zeroAddress" by code_simp
  with t example_signature_canonical show ?thesis
    by (auto simp: verifyRecipientInfo_def verifySignature_eq_Inr example_typed_def held_recipient_def)
qed

lemma drawn_five: "draw_opening (\<lambda>_. ereturn (word_loop 32 5 [])) (5, r) () = (Inr \<lparr>amount = 5, blinding = 5\<rparr>, ())"
proof -
  have "bytesToBigInt (word_loop 32 5 []) = 5" by (rule bytesToBigInt_word_loop) auto
  then have "secure_source (\<lambda>_. ereturn (word_loop 32 5 [])) () = (Inr 5, ())"
    by (simp add: secure_source_def ebind_def del: word_loop.simps)
  then have "randomBlinding (\<lambda>_. ereturn (word_loop 32 5 [])) () = (Inr 5, ())"
    unfolding randomBlinding_def sampleScalar_def
    by (intro sample_loop_first [where cs = "[]"]) (auto intro!: drawn_Cons drawn_Nil simp: scalar_accepted_def Q_mod_def)
  then show ?thesis by (simp add: draw_opening_def ebind_def)
qed

lemma five_commitment:
  "commit model_curve \<lparr>amount = 5, blinding = 5\<rparr> = Inr (lin2 model_curve 5 5)" "valid_point model_curve (lin2 model_curve 5 5)"
  using commit_valid [OF model_curve_laws model_generators, of "\<lparr>amount = 5, blinding = 5\<rparr>"]
    generators_base [OF model_generators]
  by (simp_all add: valid_opening_def M_max_eq Q_mod_def lin2_def laws_add_valid model_curve_laws smul_valid)

lemma five_encrypted:
  assumes "length key = 32" "length info = 32"
  obtains packet where "length packet = 112" and
    "encryptReceipt model_hpke \<lparr>eri_recipientPublicKey = key, eri_info = info, eri_opening = \<lparr>amount = 5, blinding = 5\<rparr>\<rparr> () = (Inr packet, ())"
proof -
  have "encryptReceipt model_hpke \<lparr>eri_recipientPublicKey = key, eri_info = info, eri_opening = \<lparr>amount = 5, blinding = 5\<rparr>\<rparr> ()
      = (Inr (replicate 32 7 @ (word_loop 32 5 [] @ word_loop 32 5 []) @ replicate 16 0), ())"
    using assms by (auto simp: encryptReceipt_eq_Inr model_hpke_def encodeOpening_eq_Inr valid_opening_def
      M_max_eq Q_mod_def simp del: word_loop.simps)
  then show ?thesis by (intro that) (simp_all del: word_loop.simps)
qed

lemma five_sealed:
  assumes salt: "length salt = 32"
  obtains packet where "length packet = 112" and
    "seal_output held_platform example_context [(5, held_recipient)] [\<lparr>amount = 5, blinding = 5\<rparr>] (sealed_request salt) 0 ()
     = (Inr (set_packet (sealed_request salt) 0 (bytesToHex model_viem packet)), ())"
proof -
  have in_range: "in_word (px (lin2 model_curve 5 5))" "in_word (py (lin2 model_curve 5 5))"
    using five_commitment(2) by (auto simp: model_valid in_word_def Q_mod_def)
  obtain key where key: "hexToBytes model_viem (hash_of (CHR ''1'')) = Inr key" "length key = 32"
    using model_hex_laws address_of_bytes(2) [of "CHR ''1''"] hex_letters unfolding hex_laws_def by blast
  have "bytes (bytesToHex model_viem salt) 32" using model_hex_laws salt unfolding hex_laws_def by metis
  then have "\<exists>hex. receiptInfo model_viem example_context (sealed_request salt) 0 = Inr hex \<and> bytes hex 32"
    using in_range by (simp add: receiptInfo_def index_position_def requireInput_def uint256_def isSafeInteger_def
        example_context_def model_encode_def sealed_request_def address_of_bytes INFO_TAG_def core_tag_def) (simp add: in_word_def)
  then obtain hex info where info: "receiptInfo model_viem example_context (sealed_request salt) 0 = Inr hex"
    "hexToBytes model_viem hex = Inr info" "length info = 32"
    using model_hex_laws unfolding hex_laws_def by blast
  obtain packet where packet: "length packet = 112" "encryptReceipt model_hpke \<lparr>eri_recipientPublicKey = key,
      eri_info = info, eri_opening = \<lparr>amount = 5, blinding = 5\<rparr>\<rparr> () = (Inr packet, ())"
    by (rule five_encrypted [OF key(2) info(3)])
  from key(1) info(1,2) packet show ?thesis
    by (intro that [OF packet(1)]) (simp add: seal_output_def held_platform_def held_recipient_def ebind_def)
qed

lemma five_shape:
  assumes "length salt = 32" and "length packet = 112"
  defines "r \<equiv> set_packet (sealed_request salt) 0 (bytesToHex model_viem packet)"
  shows "validateOperationShape model_curve r = Inr ()"
    and "\<exists>i. operationId model_viem example_context r = Inr i \<and> bytes i 32"
proof -
  have b: "bytes (bytesToHex model_viem salt) 32" "bytes (bytesToHex model_viem packet) 112"
    using model_hex_laws assms unfolding hex_laws_def by metis+
  have in_range: "in_word (px (lin2 model_curve 5 5))" "in_word (py (lin2 model_curve 5 5))"
    using five_commitment(2) by (auto simp: model_valid in_word_def Q_mod_def)
  show "validateOperationShape model_curve r = Inr ()"
    using b five_commitment(2)
    by (simp add: validateOperationShape_eq_Inr r_def set_packet_def sealed_request_def well_formed_request_def
        well_formed_output_def amounts_ok_def ownOutput_def address_of_bytes M_max_eq)
  show "\<exists>i. operationId model_viem example_context r = Inr i \<and> bytes i 32"
    using b in_range
    by (simp add: r_def set_packet_def sealed_request_def operationId_def operationPreimage_def hash_values_def
        inputs_values_def output_values_def model_encode_def core_tag_def INPUTS_TAG_def OUTPUT_TAG_def
        OUTPUTS_TAG_def OP_TAG_def address_of_bytes example_context_def) (simp add: in_word_def)
qed

lemma five_fixed:
  obtains fx where "fixOperation held_platform (DepositIntent (address_of (CHR ''b'')) 5 held_recipient) example_context []
    (ereturn (replicate 32 3)) () = (Inr fx, ())"
proof -
  let ?salt = "replicate 32 3 :: octets" and ?plan = "DepositIntent (address_of (CHR ''b'')) 5 held_recipient"
  have salt: "length ?salt = 32" by simp
  obtain packet where packet: "length packet = 112" and seal:
    "seal_output held_platform example_context [(5, held_recipient)] [\<lparr>amount = 5, blinding = 5\<rparr>] (sealed_request ?salt) 0 ()
     = (Inr (set_packet (sealed_request ?salt) 0 (bytesToHex model_viem packet)), ())" by (rule five_sealed [OF salt])
  let ?r = "set_packet (sealed_request ?salt) 0 (bytesToHex model_viem packet)"
  obtain i where i: "operationId model_viem example_context ?r = Inr i" "bytes i 32"
    using five_shape(2) [OF salt packet] by blast
  obtain oids where oids: "outputIds_of model_viem i (length (req_outputs ?r)) = Inr oids"
  proof -
    have "\<exists>oid. outputId model_viem i 0 = Inr oid"
      using i(2) by (simp add: outputId_def index_position_def requireInput_def uint256_def isSafeInteger_def hash_values_def
          model_encode_def in_word_def core_tag_def OUTPUT_ID_TAG_def)
    with that show ?thesis by (auto simp: outputIds_of_def set_packet_def sealed_request_def)
  qed
  have select: "select_for model_curve ?plan example_context [] = Inr []"
    by (simp add: select_for_def M_max_eq)
  have plans: "plan_outputs ?plan [] = Inr [(5, held_recipient)]" by (simp add: plan_outputs_def)
  have recipients: "verify_recipients example_typed ?plan example_context [(5, held_recipient)] = Inr ()"
    using held_recipient_verified by (simp add: verify_recipients_def)
  have draw: "emapM (draw_opening (\<lambda>_. ereturn (word_loop 32 5 []))) [(5, held_recipient)] () = (Inr [\<lparr>amount = 5, blinding = 5\<rparr>], ())"
    using drawn_five [of held_recipient] by (simp add: ebind_def del: word_loop.simps)
  have bare: "bare_request model_curve model_viem ?plan ?salt [] [(5, held_recipient)] [\<lparr>amount = 5, blinding = 5\<rparr>]
      = Inr (sealed_request ?salt)"
    using five_commitment(1) by (simp add: bare_request_def sealed_request_def held_recipient_def)
  have seals: "efoldM (seal_output held_platform example_context [(5, held_recipient)] [\<lparr>amount = 5, blinding = 5\<rparr>])
      (sealed_request ?salt) [0..<length (req_outputs (sealed_request ?salt))] () = (Inr ?r, ())"
  proof -
    have one: "[0..<length (req_outputs (sealed_request ?salt))] = [0]" by (simp add: sealed_request_def)
    show ?thesis unfolding one using seal by (simp add: ebind_def)
  qed
  show ?thesis
    using select plans recipients draw bare seals five_shape(1) [OF salt packet] i(1) oids
    by (intro that) (simp add: fixOperation_def ebind_def ecatch_def held_platform_def del: emapM.simps efoldM.simps word_loop.simps)
qed

theorem fixed_operation_sound_witness:
  "\<exists>fx :: FixedOperation. well_formed_request model_curve (fx_request fx) \<and> req_owner (fx_request fx) = address_of (CHR ''b'') \<and>
    fx_inputOpenings fx = [] \<and> sum_list (map amount (fx_openings fx)) = req_d (fx_request fx) - req_w (fx_request fx)"
proof -
  obtain fx where run: "fixOperation held_platform (DepositIntent (address_of (CHR ''b'')) 5 held_recipient) example_context []
      (ereturn (replicate 32 3)) () = (Inr fx, ())" by (rule five_fixed)
  from fixed_operation_sound [OF run] show ?thesis
    by (intro exI [of _ fx]) (auto simp: held_platform_def spendable_def)
qed

end
