(* ===== verification/JsMap.thy ===== *)
theory JsMap
  imports Prelude "HOL-Library.AList"
begin

text \<open>
  The JavaScript \<open>Map\<close>: keys in insertion order, \<open>set\<close> of a present key keeps its place.  Clients use it
  through the locale; association lists with \<open>AList.update\<close> are the model.
\<close>

locale ordered_map =
  fixes none :: "'m"
    and get :: "'m \<Rightarrow> 'k \<Rightarrow> 'v option"
    and set_at :: "'k \<Rightarrow> 'v \<Rightarrow> 'm \<Rightarrow> 'm"
    and keys :: "'m \<Rightarrow> 'k list"
  assumes get_none: "get none k = None"
    and get_set_at: "get (set_at k v m) k' = (if k' = k then Some v else get m k')"
    and keys_none: "keys none = []"
    and keys_set_at: "keys (set_at k v m) = (if k \<in> set (keys m) then keys m else keys m @ [k])"
    and get_keys: "get m k = None \<longleftrightarrow> k \<notin> set (keys m)"
begin

lemma keys_distinct: "distinct (keys m) \<Longrightarrow> distinct (keys (set_at k v m))"
  by (simp add: keys_set_at)

lemma get_in_keys: "get m k = Some v \<Longrightarrow> k \<in> set (keys m)"
  using get_keys [of m k] by auto

text \<open>A key set once and never again keeps its value: what a fold of \<open>set\<close>s over other keys cannot change.\<close>

lemma get_fold_other:
  "k \<notin> fst ` set kvs \<Longrightarrow> get (fold (\<lambda>(k, v). set_at k v) kvs m) k = get m k"
  by (induction kvs arbitrary: m) (auto simp: get_set_at)

lemma keys_fold_fresh:
  "distinct (keys m @ map fst kvs) \<Longrightarrow> keys (fold (\<lambda>(k, v). set_at k v) kvs m) = keys m @ map fst kvs"
  by (induction kvs arbitrary: m) (auto simp: keys_set_at)

text \<open>Setting the same key twice is setting it last.\<close>

lemma get_set_twice: "get (set_at k v (set_at k u m)) = get (set_at k v m)"
  by (auto simp: get_set_at)

end

text \<open>The model of \<open>Map\<close>.\<close>

type_synonym ('k, 'v) js_map = "('k \<times> 'v) list"

lemma update_keys: "map fst (AList.update k v m) = (if k \<in> set (map fst m) then map fst m else map fst m @ [k])"
  by (induction m) auto

lemma map_of_update: "map_of (AList.update k v m) k' = (if k' = k then Some v else map_of m k')"
  by (simp add: update_conv)

interpretation js_map: ordered_map "[]" map_of AList.update "map fst"
  by unfold_locales (simp_all only: map_of_update update_keys map_of_eq_None_iff set_map list.map map_of.simps)

lemmas js_map_simps = js_map.get_set_at js_map.keys_set_at

text \<open>The entries of a map with distinct keys are what \<open>get\<close> answers.\<close>

lemma map_entries: "distinct (map fst m) \<Longrightarrow> (k, v) \<in> set m \<longleftrightarrow> map_of m k = Some v"
  by (auto simp: map_of_eq_Some_iff)

end
