(* ===== verification/Sync.thy ===== *)
theory Sync
  imports OperationProperties JsMap
begin

text \<open>
  \<open>packages/core/src/sync.ts\<close>: \<open>synchronize\<close> rebuilds the owned coins from the whole history of the pool.
  Every rejection carries its reason; any other thrown error is reported as \<open>RPC\<close>, so a call that may
  throw is wrapped where it stands.  The JavaScript maps of the function are association lists in
  insertion order; keys of the form \<open>`block:index`\<close> are pairs.
\<close>

datatype sync_reason = NO_FINALITY | SYNC_CONTEXT | INCOMPLETE_HISTORY | INCONSISTENT_HISTORY | SYNC_RECEIPT | SYNC_RPC

record OutputReceiptFailure =
  of_status :: receipt_status
  of_reason :: receipt_reason
  of_outputId :: string

record StaleSnapshot =
  st_checkpoint :: Checkpoint
  st_utxos :: "OwnedUtxo list"

datatype SyncResult =
    SyncComplete Checkpoint "OwnedUtxo list" "OutputReceiptFailure list" int
  | SyncUnconfirmed "Checkpoint option" "StaleSnapshot option" sync_reason

record 'w SyncPorts =
  sp_history :: "'w HistoryPort"
  sp_keys :: "'w ReceiptKeyPort"
  sp_owners :: "string list"

record CreatedOutput =
  co_observed :: ObservedOperation
  co_index :: nat
  co_consumedBy :: "string option"

text \<open>The variables of the loop over the operations.\<close>

record SyncState =
  ss_headers :: "(int, BlockHeader) js_map"
  ss_successes :: "(string, OperationSuccess) js_map"
  ss_created :: "(string, CreatedOutput) js_map"
  ss_preceding :: "EventLog option"
  ss_positions :: "(int \<times> int) list"
  ss_transactions :: "(string, int \<times> int) js_map"
  ss_txPositions :: "(int \<times> int, string) js_map"

definition initial_sync :: SyncState where
  "initial_sync = \<lparr>ss_headers = [], ss_successes = [], ss_created = [], ss_preceding = None, ss_positions = [],
     ss_transactions = [], ss_txPositions = []\<rparr>"

definition reject_if :: "bool \<Rightarrow> sync_reason \<Rightarrow> sync_reason + unit" where
  "reject_if b reason = require (\<not> b) reason"

lemma reject_if_eq_Inr [res_simps]: "reject_if b reason = Inr u \<longleftrightarrow> \<not> b"
  by (simp add: reject_if_def require_def)

definition sync_value :: "'a Observation \<Rightarrow> Checkpoint \<Rightarrow> sync_reason + 'a" where
  "sync_value ob point = recast INCOMPLETE_HISTORY (obs_value (OtherError '''') ob point)"

text \<open>A previous result that is kept as stale: every coin becomes \<open>unknown\<close>.\<close>

fun stale :: "SyncResult option \<Rightarrow> StaleSnapshot option" where
  "stale None = None"
| "stale (Some (SyncComplete point utxos _ _)) =
     Some \<lparr>st_checkpoint = point, st_utxos = map (\<lambda>u. u\<lparr>coin_status := unknown\<rparr>) utxos\<rparr>"
| "stale (Some (SyncUnconfirmed _ None _)) = None"
| "stale (Some (SyncUnconfirmed _ (Some old) _)) =
     Some \<lparr>st_checkpoint = st_checkpoint old, st_utxos = map (\<lambda>u. u\<lparr>coin_status := unknown\<rparr>) (st_utxos old)\<rparr>"

text \<open>\<open>operations.sort\<close>: by block, transaction and log position.  With a missing success the comparison is not an
  order and the engine's answer is implementation defined: it is the parameter \<open>engine\<close>.\<close>

definition success_position :: "ObservedOperation \<Rightarrow> int \<times> int \<times> int" where
  "success_position observed = (case ob_success observed of
     None \<Rightarrow> (0, 0, 0)
   | Some e \<Rightarrow> (ev_blockNumber e, ev_transactionIndex e, ev_logIndex e))"

definition sort_operations ::
  "(ObservedOperation list \<Rightarrow> ObservedOperation list) \<Rightarrow> ObservedOperation list \<Rightarrow> ObservedOperation list" where
  "sort_operations engine operations =
     (if list_all (\<lambda>observed. ob_success observed \<noteq> None) operations then sort_key success_position operations
      else engine operations)"

section \<open>One operation\<close>

definition sync_header ::
  "'w HistoryPort \<Rightarrow> Checkpoint \<Rightarrow> EventLog \<Rightarrow> SyncState \<Rightarrow> ('w, sync_reason, BlockHeader \<times> SyncState) run" where
  "sync_header history point event st =
     (case map_of (ss_headers st) (ev_blockNumber event) of
        Some header \<Rightarrow> ereturn (header, st)
      | None \<Rightarrow>
          ebind (ecast SYNC_RPC (getCanonicalHeader history (ev_blockNumber event) point)) (\<lambda>ob.
          ebind (elift (sync_value ob point)) (\<lambda>header.
          ereturn (header, st\<lparr>ss_headers := AList.update (ev_blockNumber event) header (ss_headers st)\<rparr>))))"

definition check_sync_log ::
  "EventLog \<Rightarrow> string \<Rightarrow> (int \<times> int) list \<Rightarrow> EventLog \<Rightarrow> sync_reason + (int \<times> int) list" where
  "check_sync_log event opId positions log =
     rbind (reject_if (\<not> position (ev_transactionIndex log) \<or> \<not> position (ev_logIndex log) \<or>
              ev_blockNumber log \<noteq> ev_blockNumber event \<or> \<not> sameText (ev_blockHash log) (ev_blockHash event) \<or>
              \<not> sameText (ev_transactionHash log) (ev_transactionHash event) \<or>
              ev_transactionIndex log \<noteq> ev_transactionIndex event \<or> \<not> sameText (ev_operationId log) opId)
            INCONSISTENT_HISTORY) (\<lambda>_.
     rbind (reject_if ((ev_blockNumber log, ev_logIndex log) \<in> set positions) INCONSISTENT_HISTORY) (\<lambda>_.
     Inr ((ev_blockNumber log, ev_logIndex log) # positions)))"

definition check_sync_order :: "EventLog \<Rightarrow> nat \<Rightarrow> nat \<Rightarrow> EventLog option \<Rightarrow> sync_reason + unit" where
  "check_sync_order event inputs outputs preceding =
     reject_if (case preceding of
         None \<Rightarrow> False
       | Some p \<Rightarrow> ev_blockNumber p = ev_blockNumber event \<and>
           ev_logIndex event - int inputs - int outputs \<le> ev_logIndex p) INCONSISTENT_HISTORY"

definition note_transaction :: "EventLog \<Rightarrow> SyncState \<Rightarrow> sync_reason + SyncState" where
  "note_transaction event st =
     (let place = (ev_blockNumber event, ev_transactionIndex event); txHash = toLowerCase (ev_transactionHash event) in
      rbind (reject_if ((case map_of (ss_transactions st) txHash of None \<Rightarrow> False | Some p \<Rightarrow> p \<noteq> place) \<or>
               (case map_of (ss_txPositions st) place of None \<Rightarrow> False | Some h \<Rightarrow> h \<noteq> txHash)) INCONSISTENT_HISTORY) (\<lambda>_.
      Inr (st\<lparr>ss_transactions := AList.update txHash place (ss_transactions st),
              ss_txPositions := AList.update place txHash (ss_txPositions st)\<rparr>)))"

definition consume_input ::
  "OperationRequest \<Rightarrow> EventLog \<Rightarrow> string \<Rightarrow> InputLog list \<Rightarrow> (string, CreatedOutput) js_map \<Rightarrow> nat
   \<Rightarrow> sync_reason + (string, CreatedOutput) js_map" where
  "consume_input request event opId inputs created i =
     (let log = inputs ! i; inputId = req_inputIds request ! i in
      rbind (reject_if (\<not> sameText (il_inputId log) inputId \<or>
               ev_logIndex log \<noteq> ev_logIndex event - int (length (req_outputs request)) - int (length inputs) + int i)
             INCONSISTENT_HISTORY) (\<lambda>_.
      case map_of created (toLowerCase inputId) of
        None \<Rightarrow> Inl INCONSISTENT_HISTORY
      | Some input \<Rightarrow>
          rbind (reject_if (truthy (co_consumedBy input) \<or>
                   \<not> sameText (out_owner (req_outputs (ob_request (co_observed input)) ! co_index input)) (req_owner request))
                 INCONSISTENT_HISTORY) (\<lambda>_.
          Inr (AList.update (toLowerCase inputId) (input\<lparr>co_consumedBy := Some opId\<rparr>) created))))"

definition create_output ::
  "viem \<Rightarrow> ObservedOperation \<Rightarrow> EventLog \<Rightarrow> string \<Rightarrow> (string, CreatedOutput) js_map \<Rightarrow> nat
   \<Rightarrow> sync_reason + (string, CreatedOutput) js_map" where
  "create_output V observed event opId created i =
     (let request = ob_request observed; output = req_outputs request ! i;
          matches = filter (\<lambda>log. ol_outputIndex log = int i) (ob_outputLogs observed) in
      rbind (reject_if (length matches \<noteq> 1) INCONSISTENT_HISTORY) (\<lambda>_.
      let log = hd matches in
      rbind (recast SYNC_RPC (outputId V opId (int i))) (\<lambda>oid.
      rbind (reject_if (\<not> sameText (ol_outputId log) oid \<or>
               ev_logIndex log \<noteq> ev_logIndex event - int (length (req_outputs request)) + int i \<or>
               \<not> same_public_output (ol_output log) output) INCONSISTENT_HISTORY) (\<lambda>_.
      rbind (reject_if (map_of created (toLowerCase oid) \<noteq> None) INCONSISTENT_HISTORY) (\<lambda>_.
      Inr (AList.update (toLowerCase oid) \<lparr>co_observed = observed, co_index = i, co_consumedBy = None\<rparr> created))))))"

definition check_executed :: "viem \<Rightarrow> Context \<Rightarrow> string \<Rightarrow> OperationSuccess \<Rightarrow> sync_reason + unit" where
  "check_executed V context opId state =
     rbind (reject_if (\<not> os_executed state) INCONSISTENT_HISTORY) (\<lambda>_.
     case os_operation state of
       None \<Rightarrow> Inr ()
     | Some r \<Rightarrow> rbind (recast SYNC_RPC (operationId V context r)) (\<lambda>i. reject_if (\<not> sameText i opId) INCONSISTENT_HISTORY))"

definition identify_operation ::
  "curve \<Rightarrow> viem \<Rightarrow> Context \<Rightarrow> Checkpoint \<Rightarrow> SyncState \<Rightarrow> ObservedOperation \<Rightarrow> sync_reason + (EventLog \<times> string)" where
  "identify_operation C V context point st observed =
     rbind (recast SYNC_RPC (validateOperationShape C (ob_request observed))) (\<lambda>_.
     case ob_success observed of
       None \<Rightarrow> Inl INCOMPLETE_HISTORY
     | Some event \<Rightarrow>
         rbind (recast SYNC_RPC (operationId V context (ob_request observed))) (\<lambda>opId.
         rbind (reject_if (\<not> sameText opId (ev_operationId event) \<or> map_of (ss_successes st) (toLowerCase opId) \<noteq> None)
                INCONSISTENT_HISTORY) (\<lambda>_.
         rbind (reject_if (ev_blockNumber event < ctx_deploymentBlock context \<or> ev_blockNumber event > cp_number point)
                INCONSISTENT_HISTORY) (\<lambda>_.
         Inr (event, opId)))))"

definition apply_logs ::
  "viem \<Rightarrow> Checkpoint \<Rightarrow> ObservedOperation \<Rightarrow> EventLog \<Rightarrow> string \<Rightarrow> BlockHeader \<Rightarrow> SyncState \<Rightarrow> sync_reason + SyncState" where
  "apply_logs V point observed event opId header st =
     (let request = ob_request observed;
          inputs = (case ob_inputLogs observed of None \<Rightarrow> [] | Some logs \<Rightarrow> logs) in
      rbind (reject_if (hd_number header \<noteq> ev_blockNumber event \<or> \<not> sameText (hd_hash header) (ev_blockHash event) \<or>
               (hd_number header = cp_number point \<and> \<not> sameText (hd_hash header) (cp_hash point))) INCONSISTENT_HISTORY) (\<lambda>_.
      rbind (reject_if (length inputs \<noteq> length (req_inputIds request) \<or>
               length (ob_outputLogs observed) \<noteq> length (req_outputs request)) INCOMPLETE_HISTORY) (\<lambda>_.
      rbind (foldM (check_sync_log event opId) (ss_positions st)
               (map EventLog.truncate inputs @ map EventLog.truncate (ob_outputLogs observed) @ [event])) (\<lambda>positions.
      rbind (check_sync_order event (length inputs) (length (req_outputs request)) (ss_preceding st)) (\<lambda>_.
      rbind (note_transaction event st) (\<lambda>noted.
      rbind (foldM (consume_input request event opId (sort_key ev_logIndex inputs)) (ss_created st) [0..<length inputs]) (\<lambda>spent_map.
      rbind (foldM (create_output V observed event opId) spent_map [0..<length (req_outputs request)]) (\<lambda>created.
      Inr (noted\<lparr>ss_positions := positions, ss_preceding := Some event, ss_created := created\<rparr>)))))))))"

definition sync_operation ::
  "curve \<Rightarrow> viem \<Rightarrow> 'w HistoryPort \<Rightarrow> Context \<Rightarrow> Checkpoint \<Rightarrow> SyncState \<Rightarrow> ObservedOperation
   \<Rightarrow> ('w, sync_reason, SyncState) run" where
  "sync_operation C V history context point st observed =
     ebind (elift (identify_operation C V context point st observed)) (\<lambda>(event, opId).
     ebind (sync_header history point event st) (\<lambda>(header, st1).
     ebind (elift (apply_logs V point observed event opId header st1)) (\<lambda>st2.
     ebind (ecast SYNC_RPC (getOperationSuccess history opId point)) (\<lambda>ob.
     ebind (elift (rbind (sync_value ob point) (check_executed V context opId))) (\<lambda>_.
     ereturn (st2\<lparr>ss_successes := AList.update (toLowerCase opId)
                    \<lparr>os_executed = True, os_operation = Some (ob_request observed)\<rparr> (ss_successes st2)\<rparr>))))))"

section \<open>The owned coins\<close>

text \<open>\<open>!state.exists || ... || state.consumedBy?.toLowerCase() !== consumedBy?.toLowerCase()\<close>.\<close>

definition state_agrees :: "PublicOutput \<Rightarrow> string option \<Rightarrow> UtxoState \<Rightarrow> bool" where
  "state_agrees output consumedBy state \<longleftrightarrow>
     us_exists state \<and> truthy (us_owner state) \<and> us_commitment state \<noteq> None \<and>
     sameText (the (us_owner state)) (out_owner output) \<and>
     px (the (us_commitment state)) = px (out_commitment output) \<and>
     py (the (us_commitment state)) = py (out_commitment output) \<and>
     map_option toLowerCase (us_consumedBy state) = map_option toLowerCase consumedBy"

text \<open>The observations handed to \<open>inspectReceipt\<close>; a missing map entry would make it throw.\<close>

definition receipt_state ::
  "SyncState \<Rightarrow> Context \<Rightarrow> Checkpoint \<Rightarrow> CreatedOutput \<Rightarrow> UtxoState \<Rightarrow> sync_reason + ReceiptState" where
  "receipt_state st context point entry state =
     (case ob_success (co_observed entry) of
        None \<Rightarrow> Inl SYNC_RPC
      | Some event \<Rightarrow>
          (case (map_of (ss_headers st) (ev_blockNumber event), map_of (ss_successes st) (toLowerCase (ev_operationId event))) of
             (Some header, Some success) \<Rightarrow>
               (if truthy (co_consumedBy entry) then
                  (case map_of (ss_successes st) (toLowerCase (the (co_consumedBy entry))) of
                     None \<Rightarrow> Inl SYNC_RPC
                   | Some consuming \<Rightarrow> Inr \<lparr>rst_context = context, rst_creationBlock = Complete (cp_hash point) header,
                       rst_operation = Complete (cp_hash point) success, rst_utxo = Complete (cp_hash point) state,
                       rst_consumingOperation = Some (Complete (cp_hash point) consuming)\<rparr>)
                else Inr \<lparr>rst_context = context, rst_creationBlock = Complete (cp_hash point) header,
                       rst_operation = Complete (cp_hash point) success, rst_utxo = Complete (cp_hash point) state,
                       rst_consumingOperation = None\<rparr>)
           | _ \<Rightarrow> Inl SYNC_RPC))"

definition sync_output ::
  "curve \<Rightarrow> viem \<Rightarrow> ('w, 'pk, 'snd, 'sk, 'rcp) hpke \<Rightarrow> 'w SyncPorts \<Rightarrow> Context \<Rightarrow> Checkpoint \<Rightarrow> SyncState
   \<Rightarrow> OwnedUtxo list \<times> OutputReceiptFailure list \<Rightarrow> string \<times> CreatedOutput
   \<Rightarrow> ('w, sync_reason, OwnedUtxo list \<times> OutputReceiptFailure list) run" where
  "sync_output C V suite ports context point st acc item =
     (let (oid, entry) = item; (utxos, failures) = acc;
          output = req_outputs (ob_request (co_observed entry)) ! co_index entry in
      ebind (ecast SYNC_RPC (getUtxo (sp_history ports) oid point)) (\<lambda>ob.
      ebind (elift (sync_value ob point)) (\<lambda>state.
      ebind (elift (reject_if (\<not> state_agrees output (co_consumedBy entry) state) INCONSISTENT_HISTORY)) (\<lambda>_.
      if \<not> list_ex (\<lambda>owner. sameText owner (out_owner output)) (sp_owners ports) then ereturn (utxos, failures)
      else
        ebind (elift (receipt_state st context point entry state)) (\<lambda>rst.
        ebind (ecast SYNC_RPC (inspectReceipt C V suite (co_observed entry) (int (co_index entry)) (out_owner output)
                 (sp_keys ports) rst point)) (\<lambda>receipt.
        case receipt of
          Received r \<Rightarrow> ereturn (utxos @ [ru_utxo r], failures)
        | NotReceived status reason \<Rightarrow>
            if reason \<noteq> DECRYPT then ethrow SYNC_RECEIPT
            else ereturn (utxos, failures @ [\<lparr>of_status = status, of_reason = reason, of_outputId = oid\<rparr>])))))))"

definition available_wei :: "OwnedUtxo list \<Rightarrow> int" where
  "available_wei utxos = foldl (\<lambda>s coin. s + (if coin_status coin = available then amount (coin_opening coin) else 0)) 0 utxos"

section \<open>The whole synchronization\<close>

definition sync_checkpoint :: "'w SyncPorts \<Rightarrow> Context \<Rightarrow> ('w, sync_reason, Checkpoint) run" where
  "sync_checkpoint ports context =
     ebind (elift (reject_if (sp_owners ports = []) SYNC_CONTEXT)) (\<lambda>_.
     ebind (ecast SYNC_RPC (getFinalizedCheckpoint (sp_history ports))) (\<lambda>answer.
     case answer of
       None \<Rightarrow> ethrow NO_FINALITY
     | Some point \<Rightarrow>
         if cp_mode point \<noteq> ctx_finalityMode context \<or> cp_number point < ctx_deploymentBlock context
         then ethrow NO_FINALITY else ereturn point))"

definition sync_history ::
  "curve \<Rightarrow> viem \<Rightarrow> (ObservedOperation list \<Rightarrow> ObservedOperation list) \<Rightarrow> 'w SyncPorts \<Rightarrow> Context \<Rightarrow> Checkpoint
   \<Rightarrow> ('w, sync_reason, SyncState) run" where
  "sync_history C V engine ports context point =
     ebind (ecast SYNC_RPC (getContext (sp_history ports) point)) (\<lambda>ctxOb.
     ebind (elift (sync_value ctxOb point)) (\<lambda>actual.
     ebind (elift (reject_if (\<not> sameContext context actual) SYNC_CONTEXT)) (\<lambda>_.
     ebind (ecast SYNC_RPC (getOperations (sp_history ports) (ctx_deploymentBlock context) point)) (\<lambda>opsOb.
     ebind (elift (sync_value opsOb point)) (\<lambda>operations.
     efoldM (sync_operation C V (sp_history ports) context point) initial_sync (sort_operations engine operations))))))"

definition sync_outputs ::
  "curve \<Rightarrow> viem \<Rightarrow> ('w, 'pk, 'snd, 'sk, 'rcp) hpke \<Rightarrow> 'w SyncPorts \<Rightarrow> Context \<Rightarrow> Checkpoint \<Rightarrow> SyncState
   \<Rightarrow> ('w, sync_reason, OwnedUtxo list \<times> OutputReceiptFailure list) run" where
  "sync_outputs C V suite ports context point st =
     ebind (efoldM (sync_output C V suite ports context point st) ([], []) (ss_created st)) (\<lambda>(utxos, failures).
     ebind (ecast SYNC_RPC (getCanonicalHeader (sp_history ports) (cp_number point) point)) (\<lambda>endOb.
     ebind (elift (sync_value endOb point)) (\<lambda>header.
     ebind (elift (reject_if (hd_number header \<noteq> cp_number point \<or> \<not> sameText (hd_hash header) (cp_hash point))
              INCONSISTENT_HISTORY)) (\<lambda>_.
     ereturn (utxos, failures)))))"

definition synchronize ::
  "curve \<Rightarrow> viem \<Rightarrow> ('w, 'pk, 'snd, 'sk, 'rcp) hpke \<Rightarrow> (ObservedOperation list \<Rightarrow> ObservedOperation list) \<Rightarrow> Context
   \<Rightarrow> 'w SyncPorts \<Rightarrow> SyncResult option \<Rightarrow> 'w \<Rightarrow> SyncResult \<times> 'w" where
  "synchronize C V suite engine context ports previous w =
     (case sync_checkpoint ports context w of
        (Inl reason, w1) \<Rightarrow> (SyncUnconfirmed None (stale previous) reason, w1)
      | (Inr point, w1) \<Rightarrow>
          (case ebind (sync_history C V engine ports context point) (sync_outputs C V suite ports context point) w1 of
             (Inl reason, w2) \<Rightarrow> (SyncUnconfirmed (Some point) (stale previous) reason, w2)
           | (Inr (utxos, failures), w2) \<Rightarrow> (SyncComplete point utxos failures (available_wei utxos), w2)))"

end
