(* ===== verification/SyncProperties.thy ===== *)
theory SyncProperties
  imports Sync "HOL-Library.Sublist"
begin

text \<open>
  \<open>synchronize\<close> refines an abstract ledger: a map from output identifiers to the output and the operation that
  consumed it.  An operation spends its inputs, which must be unspent and its owner's, and creates its outputs,
  which must be new.
\<close>

type_synonym ledger = "string \<Rightarrow> (PublicOutput \<times> string option) option"

definition spend_input :: "string \<Rightarrow> string \<Rightarrow> ledger \<Rightarrow> string \<Rightarrow> unit + ledger" where
  "spend_input owner opId L inputId =
     (case L (toLowerCase inputId) of
        Some (output, None) \<Rightarrow>
          if sameText (out_owner output) owner then Inr (L(toLowerCase inputId \<mapsto> (output, Some opId))) else Inl ()
      | _ \<Rightarrow> Inl ())"

definition add_output :: "viem \<Rightarrow> string \<Rightarrow> PublicOutput list \<Rightarrow> ledger \<Rightarrow> nat \<Rightarrow> unit + ledger" where
  "add_output V opId outputs L i =
     (case outputId V opId (int i) of
        Inl _ \<Rightarrow> Inl ()
      | Inr oid \<Rightarrow> if L (toLowerCase oid) = None then Inr (L(toLowerCase oid \<mapsto> (outputs ! i, None))) else Inl ())"

definition ledger_step :: "viem \<Rightarrow> Context \<Rightarrow> ledger \<Rightarrow> OperationRequest \<Rightarrow> unit + ledger" where
  "ledger_step V context L request =
     (case operationId V context request of
        Inl _ \<Rightarrow> Inl ()
      | Inr opId \<Rightarrow> rbind (foldM (spend_input (req_owner request) opId) L (req_inputIds request)) (\<lambda>L'.
          foldM (add_output V opId (req_outputs request)) L' [0..<length (req_outputs request)]))"

definition replay :: "viem \<Rightarrow> Context \<Rightarrow> OperationRequest list \<Rightarrow> unit + ledger" where
  "replay V context requests = foldM (ledger_step V context) (\<lambda>_. None) requests"

text \<open>The hash answers 32 bytes of hexadecimal text.\<close>

definition hash_laws :: "viem \<Rightarrow> bool" where
  "hash_laws V \<longleftrightarrow> (\<forall>s. bytes (keccak256 V s) 32)"

lemma model_hash_laws: "hash_laws model_viem"
  by (simp add: hash_laws_def)

lemma bytes_nonempty: "bytes s n \<Longrightarrow> s \<noteq> []"
  by (auto simp: bytes_def)

lemma operationId_nonempty: "hash_laws V \<Longrightarrow> operationId V c r = Inr i \<Longrightarrow> i \<noteq> []"
  unfolding hash_laws_def operationId_def rbind_eq_Inr using bytes_nonempty by blast

section \<open>The abstraction\<close>

definition entry_output :: "CreatedOutput \<Rightarrow> PublicOutput" where
  "entry_output e = req_outputs (ob_request (co_observed e)) ! co_index e"

definition ledger_of :: "(string, CreatedOutput) js_map \<Rightarrow> ledger" where
  "ledger_of created = (\<lambda>k. map_option (\<lambda>e. (entry_output e, co_consumedBy e)) (map_of created k))"

definition entry_ok :: "viem \<Rightarrow> Context \<Rightarrow> string \<Rightarrow> CreatedOutput \<Rightarrow> bool" where
  "entry_ok V context k e \<longleftrightarrow> co_consumedBy e \<noteq> Some [] \<and>
     (\<exists>opId oid. operationId V context (ob_request (co_observed e)) = Inr opId \<and>
        outputId V opId (int (co_index e)) = Inr oid \<and> k = toLowerCase oid)"

definition created_ok :: "viem \<Rightarrow> Context \<Rightarrow> (string, CreatedOutput) js_map \<Rightarrow> bool" where
  "created_ok V context created \<longleftrightarrow> distinct (map fst created) \<and> (\<forall>(k, e) \<in> set created. entry_ok V context k e)"

lemma created_ok_get: "created_ok V context created \<Longrightarrow> map_of created k = Some e \<Longrightarrow> entry_ok V context k e"
  by (auto simp: created_ok_def dest: map_of_SomeD)

lemma created_ok_update:
  assumes "created_ok V context created" and "entry_ok V context k e"
  shows "created_ok V context (AList.update k e created)"
proof -
  have d: "distinct (map fst (AList.update k e created))"
    using assms(1) js_map.keys_distinct [of created k e] by (simp add: created_ok_def)
  have "entry_ok V context k' e'" if "(k', e') \<in> set (AList.update k e created)" for k' e'
    using that map_entries [OF d] assms created_ok_get [OF assms(1)]
    by (auto simp: js_map_simps split: if_splits)
  with d show ?thesis by (auto simp: created_ok_def)
qed

lemma truthy_iff: "co_consumedBy e \<noteq> Some [] \<Longrightarrow> truthy (co_consumedBy e) \<longleftrightarrow> co_consumedBy e \<noteq> None"
  by (cases "co_consumedBy e") auto

lemma consume_input_spends:
  assumes "consume_input request event opId inputs created i = Inr created'"
    and "created_ok V context created" and "opId \<noteq> []"
  shows "spend_input (req_owner request) opId (ledger_of created) (req_inputIds request ! i) = Inr (ledger_of created') \<and>
    created_ok V context created'"
proof -
  let ?k = "toLowerCase (req_inputIds request ! i)"
  from assms(1) obtain e where e: "map_of created ?k = Some e" "\<not> truthy (co_consumedBy e)"
    "sameText (out_owner (entry_output e)) (req_owner request)"
    and c': "created' = AList.update ?k (e\<lparr>co_consumedBy := Some opId\<rparr>) created"
    by (auto simp: consume_input_def Let_def rbind_eq_Inr reject_if_eq_Inr entry_output_def split: option.splits)
  note ok = created_ok_get [OF assms(2) e(1)]
  then have "co_consumedBy e = None" using e(2) by (auto simp: entry_ok_def truthy_iff)
  moreover have "entry_ok V context ?k (e\<lparr>co_consumedBy := Some opId\<rparr>)" using ok assms(3) by (auto simp: entry_ok_def)
  then have "created_ok V context created'" unfolding c' by (rule created_ok_update [OF assms(2)])
  ultimately show ?thesis
    using e by (auto simp: spend_input_def ledger_of_def c' js_map_simps entry_output_def fun_eq_iff)
qed

lemma create_output_adds:
  assumes "create_output V observed event opId created i = Inr created'"
    and "created_ok V context created" and "operationId V context (ob_request observed) = Inr opId"
  shows "add_output V opId (req_outputs (ob_request observed)) (ledger_of created) i = Inr (ledger_of created') \<and>
    created_ok V context created'"
proof -
  from assms(1) obtain oid where oid: "outputId V opId (int i) = Inr oid" "map_of created (toLowerCase oid) = None"
    and c': "created' = AList.update (toLowerCase oid) \<lparr>co_observed = observed, co_index = i, co_consumedBy = None\<rparr> created"
    by (auto simp: create_output_def Let_def rbind_eq_Inr reject_if_eq_Inr recast_eq_Inr)
  have "entry_ok V context (toLowerCase oid) \<lparr>co_observed = observed, co_index = i, co_consumedBy = None\<rparr>"
    using oid assms(3) by (auto simp: entry_ok_def)
  then have "created_ok V context created'" unfolding c' by (rule created_ok_update [OF assms(2)])
  then show ?thesis
    using oid by (auto simp: add_output_def ledger_of_def c' js_map_simps entry_output_def fun_eq_iff)
qed

lemma apply_logs_ledger:
  assumes run: "apply_logs V point observed event opId header st = Inr st'"
    and ok: "created_ok V context (ss_created st)" and V: "hash_laws V"
    and opId: "operationId V context (ob_request observed) = Inr opId"
  shows "ledger_step V context (ledger_of (ss_created st)) (ob_request observed) = Inr (ledger_of (ss_created st'))"
    and "created_ok V context (ss_created st')"
proof -
  let ?r = "ob_request observed"
  from run obtain inputs spent_map where len: "length inputs = length (req_inputIds ?r)"
    and spend: "foldM (consume_input ?r event opId (sort_key ev_logIndex inputs)) (ss_created st) [0..<length inputs] = Inr spent_map"
    and create: "foldM (create_output V observed event opId) spent_map [0..<length (req_outputs ?r)] = Inr (ss_created st')"
    by (auto simp: apply_logs_def Let_def rbind_eq_Inr reject_if_eq_Inr split: option.splits)
  note ne = operationId_nonempty [OF V opId]
  have "foldM (\<lambda>L i. spend_input (req_owner ?r) opId L (req_inputIds ?r ! i)) (ledger_of (ss_created st)) [0..<length inputs]
      = Inr (ledger_of spent_map) \<and> created_ok V context spent_map"
    by (rule foldM_simulation [OF spend, where I = "created_ok V context", OF ok]) (rule consume_input_spends [OF _ _ ne])
  then have s: "foldM (spend_input (req_owner ?r) opId) (ledger_of (ss_created st)) (req_inputIds ?r) = Inr (ledger_of spent_map)"
    and ok': "created_ok V context spent_map"
    by (simp_all add: len foldM_nth)
  have "foldM (add_output V opId (req_outputs ?r)) (ledger_of spent_map) [0..<length (req_outputs ?r)]
      = Inr (ledger_of (ss_created st')) \<and> created_ok V context (ss_created st')"
    by (rule foldM_simulation [OF create, where I = "created_ok V context", OF ok']) (rule create_output_adds [OF _ _ opId])
  with s opId show "ledger_step V context (ledger_of (ss_created st)) ?r = Inr (ledger_of (ss_created st'))"
    and "created_ok V context (ss_created st')" by (simp_all add: ledger_step_def)
qed

lemma sync_header_created: "sync_header history point event st w = (Inr (header, st'), w') \<Longrightarrow> ss_created st' = ss_created st"
  by (auto simp: sync_header_def eff_simps split: option.splits)

lemma sync_operation_ledger:
  assumes run: "sync_operation C V history context point st observed w = (Inr st', w')"
    and ok: "created_ok V context (ss_created st)" and V: "hash_laws V"
  shows "ledger_step V context (ledger_of (ss_created st)) (ob_request observed) = Inr (ledger_of (ss_created st')) \<and>
    created_ok V context (ss_created st')"
proof -
  from run obtain event opId header st1 st2 w1 where
    id: "identify_operation C V context point st observed = Inr (event, opId)"
    and hd: "sync_header history point event st w = (Inr (header, st1), w1)"
    and logs: "apply_logs V point observed event opId header st1 = Inr st2" and st': "ss_created st' = ss_created st2"
    by (auto simp: sync_operation_def eff_simps)
  have opId: "operationId V context (ob_request observed) = Inr opId"
    using id by (auto simp: identify_operation_def rbind_eq_Inr recast_eq_Inr split: option.splits)
  note c = sync_header_created [OF hd]
  show ?thesis
    using apply_logs_ledger [OF logs _ V opId] ok by (simp add: c st')
qed

section \<open>The owned coins\<close>

text \<open>What \<open>synchronize\<close> says of one coin of the ledger.\<close>

definition coin_of_entry :: "curve \<Rightarrow> string \<Rightarrow> CreatedOutput \<Rightarrow> OwnedUtxo \<Rightarrow> bool" where
  "coin_of_entry C k e coin \<longleftrightarrow> toLowerCase (coin_id coin) = k \<and> sameText (coin_owner coin) (out_owner (entry_output e)) \<and>
     coin_commitment coin = out_commitment (entry_output e) \<and>
     commit C (coin_opening coin) = Inr (coin_commitment coin) \<and> valid_opening (coin_opening coin) \<and>
     coin_status coin = (if co_consumedBy e = None then available else spent)"

definition owned_by :: "string list \<Rightarrow> CreatedOutput \<Rightarrow> bool" where
  "owned_by owners e \<longleftrightarrow> list_ex (\<lambda>owner. sameText owner (out_owner (entry_output e))) owners"

lemma truthy_lower: "map_option toLowerCase a = map_option toLowerCase b \<Longrightarrow> truthy a = truthy b"
  by (cases a; cases b) (auto simp: toLowerCase_def)

lemma received_entry:
  assumes C: "curve_laws C" and g: "generators_valid C"
    and run: "inspectReceipt C V suite (co_observed e) (int (co_index e)) owner keys rst point w = (Inr (Received r), w')"
    and rst: "receipt_state st context point e state = Inr rst" and ok: "entry_ok V context k e"
    and owner: "owner = out_owner (entry_output e)"
    and agrees: "state_agrees (entry_output e) (co_consumedBy e) state"
  shows "coin_of_entry C k e (ru_utxo r)"
proof -
  from run obtain opId success oid consumed ks p where
    b: "check_binding C V (co_observed e) (int (co_index e)) rst point = Inr (opId, success)"
    and o': "check_ownership C V (co_observed e) (int (co_index e)) owner rst point opId = Inr (oid, consumed)"
    and f: "first_opening (open_output C V suite (rst_context rst) (ob_request (co_observed e)) (int (co_index e))) ks = Some p"
    and r: "ru_utxo r = received_coin (co_observed e) (int (co_index e)) (rst_context rst) point oid consumed p"
    by (auto simp: inspectReceipt_Received inspect_body_eq_Inr)
  have st: "rst_utxo rst = Complete (cp_hash point) state" "rst_context rst = context"
    using rst by (auto simp: receipt_state_def split: option.splits if_splits)
  from first_opening_Some [OF f] obtain d where
    "decryptReceipt C suite d = Inr p" "dri_commitment d = out_commitment (entry_output e)"
    by (auto simp: open_output_eq_Inr entry_output_def)
  with decryptReceipt_sound [OF C g] have op: "valid_opening p" "commit C p = Inr (out_commitment (entry_output e))"
    by fastforce+
  have "operationId V context (ob_request (co_observed e)) = Inr opId" "outputId V opId (int (co_index e)) = Inr oid"
    using check_binding_eq_Inr(3) [OF b] check_ownership_eq_Inr(1) [OF o'] st by simp_all
  then have k: "k = toLowerCase oid" using ok by (auto simp: entry_ok_def)
  from check_ownership_eq_Inr(3) [OF o'] obtain h u where "rst_utxo rst = Complete h u" "consumed = truthy (us_consumedBy u)"
    by blast
  with st have "consumed = truthy (us_consumedBy state)" by simp
  also have "\<dots> = truthy (co_consumedBy e)" by (rule truthy_lower) (use agrees in \<open>simp add: state_agrees_def\<close>)
  also have "\<dots> \<longleftrightarrow> co_consumedBy e \<noteq> None" using ok by (simp add: entry_ok_def truthy_iff)
  finally show ?thesis
    using op check_ownership_eq_Inr(2) [OF o'] owner
    by (simp add: coin_of_entry_def r received_coin_def Let_def k entry_output_def)
qed

text \<open>One turn of the loop over the created outputs.\<close>

lemma sync_output_step:
  assumes C: "curve_laws C" and g: "generators_valid C" and ok: "entry_ok V context k e"
    and run: "sync_output C V suite ports context point st (utxos, failures) (k, e) w = (Inr acc, w')"
  shows "(acc = (utxos, failures) \<and> \<not> owned_by (sp_owners ports) e) \<or>
    (\<exists>coin. acc = (utxos @ [coin], failures) \<and> owned_by (sp_owners ports) e \<and> coin_of_entry C k e coin) \<or>
    (\<exists>failure. acc = (utxos, failures @ [failure]) \<and> owned_by (sp_owners ports) e \<and> of_outputId failure = k)"
proof (cases "owned_by (sp_owners ports) e")
  case False
  with run show ?thesis
    by (auto simp: sync_output_def Let_def eff_simps owned_by_def entry_output_def split: if_splits)
next
  case True
  with run obtain state rst receipt w1 w2 where
    agrees: "state_agrees (entry_output e) (co_consumedBy e) state"
    and rst: "receipt_state st context point e state = Inr rst"
    and ins: "inspectReceipt C V suite (co_observed e) (int (co_index e)) (out_owner (entry_output e)) (sp_keys ports) rst point w1
        = (Inr receipt, w2)"
    and acc: "(case receipt of
          Received r \<Rightarrow> ereturn (utxos @ [ru_utxo r], failures)
        | NotReceived status reason \<Rightarrow>
            if reason \<noteq> DECRYPT then ethrow SYNC_RECEIPT
            else ereturn (utxos, failures @ [\<lparr>of_status = status, of_reason = reason, of_outputId = k\<rparr>])) w2 = (Inr acc, w')"
    by (auto simp: sync_output_def Let_def eff_simps reject_if_eq_Inr owned_by_def entry_output_def split: if_splits)
  show ?thesis
  proof (cases receipt)
    case (Received r)
    with received_entry [OF C g ins [unfolded Received] rst ok refl agrees] acc True show ?thesis by auto
  next
    case (NotReceived status reason)
    with acc True show ?thesis by (auto split: if_splits)
  qed
qed

lemma sync_output_fold:
  assumes C: "curve_laws C" and g: "generators_valid C"
    and "\<forall>(k, e) \<in> set items. entry_ok V context k e"
    and "efoldM (sync_output C V suite ports context point st) (utxos, failures) items w = (Inr (utxos', failures'), w')"
  shows "\<exists>coins fs. utxos' = utxos @ coins \<and> failures' = failures @ fs \<and>
    subseq (map (\<lambda>c. toLowerCase (coin_id c)) coins) (map fst items) \<and>
    (\<forall>coin \<in> set coins. \<exists>(k, e) \<in> set items. owned_by (sp_owners ports) e \<and> coin_of_entry C k e coin) \<and>
    (\<forall>(k, e) \<in> set items. owned_by (sp_owners ports) e \<longrightarrow>
       (\<exists>coin \<in> set coins. coin_of_entry C k e coin) \<or> (\<exists>f \<in> set fs. of_outputId f = k))"
  using assms(3,4)
proof (induction items arbitrary: utxos failures w)
  case Nil
  then show ?case by (intro exI [of _ "[]"]) auto
next
  case (Cons item items)
  obtain k e where item: "item = (k, e)" by (cases item)
  from Cons.prems(2) obtain utxos1 failures1 w1 where
    step: "sync_output C V suite ports context point st (utxos, failures) (k, e) w = (Inr (utxos1, failures1), w1)"
    and rest: "efoldM (sync_output C V suite ports context point st) (utxos1, failures1) items w1 = (Inr (utxos', failures'), w')"
    by (auto simp: ebind_eq_Inr item)
  have ok: "entry_ok V context k e" "\<forall>(k, e) \<in> set items. entry_ok V context k e" using Cons.prems(1) by (auto simp: item)
  from Cons.IH [OF ok(2) rest] obtain coins fs where IH: "utxos' = utxos1 @ coins" "failures' = failures1 @ fs"
    "subseq (map (\<lambda>c. toLowerCase (coin_id c)) coins) (map fst items)"
    "\<forall>coin \<in> set coins. \<exists>(k, e) \<in> set items. owned_by (sp_owners ports) e \<and> coin_of_entry C k e coin"
    "\<forall>(k, e) \<in> set items. owned_by (sp_owners ports) e \<longrightarrow>
       (\<exists>coin \<in> set coins. coin_of_entry C k e coin) \<or> (\<exists>f \<in> set fs. of_outputId f = k)"
    by blast
  from sync_output_step [OF C g ok(1) step] consider
      (other) "utxos1 = utxos" "failures1 = failures" "\<not> owned_by (sp_owners ports) e"
    | (coin) coin where "utxos1 = utxos @ [coin]" "failures1 = failures" "owned_by (sp_owners ports) e" "coin_of_entry C k e coin"
    | (failed) f where "utxos1 = utxos" "failures1 = failures @ [f]" "owned_by (sp_owners ports) e" "of_outputId f = k"
    by auto
  then show ?case
  proof cases
    case other
    with IH show ?thesis by (intro exI [of _ coins] exI [of _ fs]) (auto simp: item)
  next
    case coin
    moreover from this have "toLowerCase (coin_id coin) = k" by (simp add: coin_of_entry_def)
    ultimately show ?thesis
      using IH by (intro exI [of _ "coin # coins"] exI [of _ fs]) (auto simp: item)
  next
    case failed
    with IH show ?thesis by (intro exI [of _ coins] exI [of _ "f # fs"]) (auto simp: item)
  qed
qed

lemma available_wei_eq:
  "available_wei utxos = (\<Sum>coin \<leftarrow> filter (\<lambda>coin. coin_status coin = available) utxos. amount (coin_opening coin))"
proof -
  have "foldl (\<lambda>s coin. s + (if coin_status coin = available then amount (coin_opening coin) else 0)) n utxos
      = n + (\<Sum>coin \<leftarrow> filter (\<lambda>coin. coin_status coin = available) utxos. amount (coin_opening coin))" for n
    by (induction utxos arbitrary: n) auto
  then show ?thesis by (simp add: available_wei_def)
qed

lemma synchronize_complete:
  assumes "synchronize C V suite engine context ports previous w = (SyncComplete point utxos failures wei, w')"
  obtains w1 w2 w3 w4 h operations st where
    "sync_checkpoint ports context w = (Inr point, w1)" "wei = available_wei utxos"
    "getOperations (sp_history ports) (ctx_deploymentBlock context) point w2 = (Inr (Complete h operations), w3)"
    "sameText h (cp_hash point)"
    "efoldM (sync_operation C V (sp_history ports) context point) initial_sync (sort_operations engine operations) w3 = (Inr st, w4)"
    "\<exists>w5. efoldM (sync_output C V suite ports context point st) ([], []) (ss_created st) w4 = (Inr (utxos, failures), w5)"
proof -
  from assms obtain w1 where cp: "sync_checkpoint ports context w = (Inr point, w1)"
    and run: "ebind (sync_history C V engine ports context point) (sync_outputs C V suite ports context point) w1
        = (Inr (utxos, failures), w')" and wei: "wei = available_wei utxos"
    by (auto simp: synchronize_def split: prod.splits sum.splits)
  from run obtain st w4 where h: "sync_history C V engine ports context point w1 = (Inr st, w4)"
    and out: "sync_outputs C V suite ports context point st w4 = (Inr (utxos, failures), w')"
    by (auto simp: ebind_eq_Inr)
  from h obtain w2 w3 ob operations where
    "getOperations (sp_history ports) (ctx_deploymentBlock context) point w2 = (Inr ob, w3)"
    "sync_value ob point = Inr operations"
    "efoldM (sync_operation C V (sp_history ports) context point) initial_sync (sort_operations engine operations) w3 = (Inr st, w4)"
    by (auto simp: sync_history_def eff_simps reject_if_eq_Inr)
  moreover from out have "\<exists>w5. efoldM (sync_output C V suite ports context point st) ([], []) (ss_created st) w4 = (Inr (utxos, failures), w5)"
    by (auto simp: sync_outputs_def eff_simps reject_if_eq_Inr)
  moreover from calculation(2) obtain h where "ob = Complete h operations" "sameText h (cp_hash point)"
    by (auto simp: sync_value_def recast_eq_Inr obs_value_eq_Inr)
  ultimately show ?thesis using cp wei that by blast
qed

lemma subseq_distinct_keys: "subseq xs ys \<Longrightarrow> distinct ys \<Longrightarrow> distinct xs"
proof (induction rule: list_emb.induct)
  case (list_emb_Cons2 x y xs ys)
  then show ?case using list_emb_set [of "(=)" xs ys] by auto
qed auto

section \<open>A synchronized deposit\<close>

definition held_history :: "string \<Rightarrow> string \<Rightarrow> unit HistoryPort" where
  "held_history opId oid = \<lparr>getFinalizedCheckpoint = ereturn (Some held_point),
     getContext = \<lambda>_. ereturn (Complete (hash_of (CHR ''c'')) example_context),
     getCanonicalHeader = \<lambda>n _. ereturn (Complete (hash_of (CHR ''c''))
       (if n = 12 then held_header else \<lparr>hd_number = 20, hd_hash = hash_of (CHR ''c'')\<rparr>)),
     getOperations = \<lambda>_ _. ereturn (Complete (hash_of (CHR ''c'')) [held_observed opId oid]),
     getUtxo = \<lambda>_ _. ereturn (Complete (hash_of (CHR ''c'')) held_utxo),
     getOperationSuccess = \<lambda>_ _. ereturn (Complete (hash_of (CHR ''c'')) \<lparr>os_executed = True, os_operation = None\<rparr>),
     getLatestHeader = ereturn (Some \<lparr>hd_number = 20, hd_hash = hash_of (CHR ''c'')\<rparr>),
     getLatestUtxo = \<lambda>_ _. ereturn (Complete (hash_of (CHR ''c'')) held_utxo),
     getLatestOperationSuccess = \<lambda>_ _. ereturn (Complete (hash_of (CHR ''c'')) \<lparr>os_executed = False, os_operation = None\<rparr>)\<rparr>"

definition held_ports :: "string \<Rightarrow> string \<Rightarrow> unit SyncPorts" where
  "held_ports opId oid = \<lparr>sp_history = held_history opId oid, sp_keys = held_keys, sp_owners = [address_of (CHR ''b'')]\<rparr>"

definition held_entry :: "string \<Rightarrow> string \<Rightarrow> CreatedOutput" where
  "held_entry opId oid = \<lparr>co_observed = held_observed opId oid, co_index = 0, co_consumedBy = None\<rparr>"

definition held_synced :: "string \<Rightarrow> string \<Rightarrow> SyncState" where
  "held_synced opId oid = \<lparr>ss_headers = [(12, held_header)],
     ss_successes = [(toLowerCase opId, \<lparr>os_executed = True, os_operation = Some held_deposit\<rparr>)],
     ss_created = [(toLowerCase oid, held_entry opId oid)], ss_preceding = Some (held_event opId),
     ss_positions = [(12, 3), (12, 2)], ss_transactions = [(toLowerCase (hash_of (CHR ''a'')), (12, 0))],
     ss_txPositions = [((12, 0), toLowerCase (hash_of (CHR ''a'')))]\<rparr>"

lemma held_observed_request: "ob_request (held_observed opId oid) = held_deposit"
  by (simp add: held_observed_def)

lemma held_outputs: "req_outputs held_deposit = [held_output]" "req_inputIds held_deposit = []"
  by (simp_all add: held_deposit_def example_deposit_def)

lemma held_answers:
  "getFinalizedCheckpoint (held_history opId oid) = ereturn (Some held_point)"
  "getContext (held_history opId oid) p = ereturn (Complete (cp_hash held_point) example_context)"
  "getOperations (held_history opId oid) n p = ereturn (Complete (cp_hash held_point) [held_observed opId oid])"
  "getUtxo (held_history opId oid) k p = ereturn (Complete (cp_hash held_point) held_utxo)"
  "sp_history (held_ports opId oid) = held_history opId oid" "sp_keys (held_ports opId oid) = held_keys"
  "sp_owners (held_ports opId oid) = [address_of (CHR ''b'')]"
  by (simp_all add: held_history_def held_ports_def held_point_def)

lemma held_operation_synced:
  assumes ids: "operationId model_viem example_context held_deposit = Inr opId"
    "outputId model_viem opId 0 = Inr oid" "bytes opId 32"
  shows "sync_operation model_curve model_viem (held_history opId oid) example_context held_point initial_sync
      (held_observed opId oid) () = (Inr (held_synced opId oid), ())"
proof -
  have shape: "validateOperationShape model_curve held_deposit = Inr ()"
    using held_shape by (simp add: validateOperationShape_eq_Inr)
  let ?st = "initial_sync\<lparr>ss_headers := [(12, held_header)]\<rparr>"
  have id: "identify_operation model_curve model_viem example_context held_point initial_sync (held_observed opId oid)
      = Inr (held_event opId, opId)"
    using ids shape by (simp add: identify_operation_def held_observed_def reject_if_def held_event_def initial_sync_def
        example_context_def held_point_def)
  have hd: "sync_header (held_history opId oid) held_point (held_event opId) initial_sync () = (Inr (held_header, ?st), ())"
    by (simp add: sync_header_def initial_sync_def held_event_def held_history_def ecast_def ecatch_def ebind_def ereturn_def
        sync_value_def held_point_def)
  have out: "create_output model_viem (held_observed opId oid) (held_event opId) opId [] 0 = Inr [(toLowerCase oid, held_entry opId oid)]"
    using ids by (simp add: create_output_def held_observed_def held_event_def held_outputs reject_if_def
        same_public_output_def EventLog.defs held_entry_def)
  have logs: "apply_logs model_viem held_point (held_observed opId oid) (held_event opId) opId held_header ?st
      = Inr ((held_synced opId oid)\<lparr>ss_successes := []\<rparr>)"
    using out
    by (simp add: apply_logs_def held_observed_def held_header_def held_event_def held_outputs reject_if_def initial_sync_def
        check_sync_log_def position_def isSafeInteger_def check_sync_order_def note_transaction_def EventLog.defs
        held_point_def held_synced_def Let_def)
  have exec: "check_executed model_viem example_context opId \<lparr>os_executed = True, os_operation = None\<rparr> = Inr ()"
    by (simp add: check_executed_def reject_if_def)
  show ?thesis
    using id hd logs exec
    by (simp add: sync_operation_def ebind_def ecast_def ecatch_def held_history_def sync_value_def held_point_def)
       (simp add: held_synced_def held_observed_def)
qed

lemma held_output_synced:
  assumes ids: "operationId model_viem example_context held_deposit = Inr opId"
    "outputId model_viem opId 0 = Inr oid" "bytes opId 32"
  obtains coin where "sync_output model_curve model_viem model_hpke (held_ports opId oid) example_context held_point
      (held_synced opId oid) ([], []) (toLowerCase oid, held_entry opId oid) () = (Inr ([coin], []), ())"
    and "coin_opening coin = \<lparr>amount = 5, blinding = 9\<rparr>" and "coin_status coin = available"
proof -
  obtain r where run: "inspectReceipt model_curve model_viem model_hpke (held_observed opId oid) 0
      (address_of (CHR ''b'')) held_keys held_state held_point () = (Inr (Received r), ())"
    "coin_opening (ru_utxo r) = \<lparr>amount = 5, blinding = 9\<rparr>" "coin_status (ru_utxo r) = available" by (rule held_received [OF ids])
  have owner: "out_owner held_output = address_of (CHR ''b'')" by (simp add: held_output_def)
  have rst: "receipt_state (held_synced opId oid) example_context held_point (held_entry opId oid) held_utxo = Inr held_state"
    by (simp add: receipt_state_def held_synced_def held_entry_def held_observed_def held_event_def held_state_def held_point_def)
  have agrees: "state_agrees held_output None held_utxo"
    by (simp add: state_agrees_def held_utxo_def owner address_of_def)
  have entry: "req_outputs (ob_request (co_observed (held_entry opId oid))) ! co_index (held_entry opId oid) = held_output"
    "co_consumedBy (held_entry opId oid) = None" "co_index (held_entry opId oid) = 0" "co_observed (held_entry opId oid) = held_observed opId oid"
    by (simp_all add: held_entry_def held_observed_def held_outputs)
  show ?thesis
    using run agrees rst
    by (intro that [of "ru_utxo r"])
       (simp_all add: sync_output_def Let_def entry held_answers ebind_def ecast_def ecatch_def sync_value_def reject_if_def owner
         held_outputs held_observed_request)
qed

lemma held_synchronized:
  obtains opId oid coin where "synchronize model_curve model_viem model_hpke (\<lambda>ops. ops) example_context (held_ports opId oid) None ()
      = (SyncComplete held_point [coin] [] 5, ())"
proof -
  obtain opId oid where ids: "operationId model_viem example_context held_deposit = Inr opId"
    "outputId model_viem opId 0 = Inr oid" "bytes opId 32" "bytes oid 32" by (rule held_ids)
  obtain coin where out: "sync_output model_curve model_viem model_hpke (held_ports opId oid) example_context held_point
      (held_synced opId oid) ([], []) (toLowerCase oid, held_entry opId oid) () = (Inr ([coin], []), ())"
    "coin_opening coin = \<lparr>amount = 5, blinding = 9\<rparr>" "coin_status coin = available" by (rule held_output_synced [OF ids(1-3)])
  have cp: "sync_checkpoint (held_ports opId oid) example_context () = (Inr held_point, ())"
    by (simp add: sync_checkpoint_def held_ports_def held_history_def ebind_def ecast_def ecatch_def reject_if_def
        held_point_def example_context_def)
  have sorted: "sort_operations (\<lambda>ops. ops) [held_observed opId oid] = [held_observed opId oid]"
    by (simp add: sort_operations_def held_observed_def)
  have hist: "sync_history model_curve model_viem (\<lambda>ops. ops) (held_ports opId oid) example_context held_point () = (Inr (held_synced opId oid), ())"
    using held_operation_synced [OF ids(1-3)] sorted
    by (simp add: sync_history_def held_answers ebind_def ecast_def ecatch_def reject_if_def sync_value_def sameContext_def)
  have outs: "sync_outputs model_curve model_viem model_hpke (held_ports opId oid) example_context held_point (held_synced opId oid) ()
      = (Inr ([coin], []), ())"
  proof -
    have created: "ss_created (held_synced opId oid) = [(toLowerCase oid, held_entry opId oid)]" by (simp add: held_synced_def)
    show ?thesis
      using out by (simp add: sync_outputs_def created ebind_def ecast_def ecatch_def)
        (simp add: held_ports_def held_history_def sync_value_def held_point_def reject_if_def)
  qed
  show ?thesis
    using cp hist outs out by (intro that [of opId oid coin]) (simp add: synchronize_def ebind_def available_wei_def)
qed

section \<open>Properties\<close>

text \<open>C18: A complete synchronization is the replay of the pool's history: the operations the port answered, in their
  order, are a run of the abstract ledger (every input unspent and its owner's, every output new), and the result
  is that ledger read for the owners: every returned coin is a ledger entry of one of the owners with an opening of its commitment,
  \<open>available\<close> exactly when no operation of the history consumed it, no coin is returned twice, every owned entry is
  returned or reported as an undecryptable receipt, and \<open>availableWei\<close> is the sum of the available coins.\<close>

theorem sync_refines_ledger:
  assumes "curve_laws C" and "generators_valid C" and "hash_laws V"
    and "synchronize C V suite engine context ports previous w = (SyncComplete point utxos failures wei, w')"
  shows "\<exists>operations h w1 w2 L.
    getOperations (sp_history ports) (ctx_deploymentBlock context) point w1 = (Inr (Complete h operations), w2) \<and>
    replay V context (map ob_request (sort_operations engine operations)) = Inr L \<and>
    (\<forall>coin \<in> set utxos. \<exists>output consumer. L (toLowerCase (coin_id coin)) = Some (output, consumer) \<and>
       list_ex (\<lambda>o'. sameText o' (out_owner output)) (sp_owners ports) \<and>
       sameText (coin_owner coin) (out_owner output) \<and> coin_commitment coin = out_commitment output \<and>
       commit C (coin_opening coin) = Inr (out_commitment output) \<and>
       coin_status coin = (if consumer = None then available else spent)) \<and>
    distinct (map (\<lambda>c. toLowerCase (coin_id c)) utxos) \<and>
    (\<forall>k output consumer. L k = Some (output, consumer) \<longrightarrow> list_ex (\<lambda>o'. sameText o' (out_owner output)) (sp_owners ports) \<longrightarrow>
       k \<in> set (map (\<lambda>c. toLowerCase (coin_id c)) utxos) \<or> k \<in> set (map of_outputId failures)) \<and>
    wei = (\<Sum>coin \<leftarrow> filter (\<lambda>c. coin_status c = available) utxos. amount (coin_opening coin))"
proof -
  from assms(4) obtain w2 w3 w4 w5 h operations st where wei: "wei = available_wei utxos"
    and ops: "getOperations (sp_history ports) (ctx_deploymentBlock context) point w2 = (Inr (Complete h operations), w3)"
    and run: "efoldM (sync_operation C V (sp_history ports) context point) initial_sync (sort_operations engine operations) w3 = (Inr st, w4)"
    and out: "efoldM (sync_output C V suite ports context point st) ([], []) (ss_created st) w4 = (Inr (utxos, failures), w5)"
    by (rule synchronize_complete) blast
  have "foldM (\<lambda>L observed. ledger_step V context L (ob_request observed)) (ledger_of (ss_created initial_sync)) (sort_operations engine operations)
      = Inr (ledger_of (ss_created st)) \<and> created_ok V context (ss_created st)"
    by (rule efoldM_simulation [OF run, where I = "\<lambda>st. created_ok V context (ss_created st)" and view = "\<lambda>st. ledger_of (ss_created st)"])
       (simp add: initial_sync_def created_ok_def, rule sync_operation_ledger [OF _ _ assms(3)])
  then have L: "replay V context (map ob_request (sort_operations engine operations)) = Inr (ledger_of (ss_created st))"
    and ok: "created_ok V context (ss_created st)"
    by (simp_all add: replay_def foldM_map initial_sync_def ledger_of_def)
  then have items: "\<forall>(k, e) \<in> set (ss_created st). entry_ok V context k e" and d: "distinct (map fst (ss_created st))"
    by (simp_all add: created_ok_def)
  from sync_output_fold [OF assms(1,2) items out] have
    sub: "subseq (map (\<lambda>c. toLowerCase (coin_id c)) utxos) (map fst (ss_created st))"
    and sound: "\<forall>coin \<in> set utxos. \<exists>(k, e) \<in> set (ss_created st). owned_by (sp_owners ports) e \<and> coin_of_entry C k e coin"
    and complete: "\<forall>(k, e) \<in> set (ss_created st). owned_by (sp_owners ports) e \<longrightarrow>
       (\<exists>coin \<in> set utxos. coin_of_entry C k e coin) \<or> (\<exists>f \<in> set failures. of_outputId f = k)"
    by simp_all
  have entry: "ledger_of (ss_created st) k = Some (output, consumer) \<longleftrightarrow>
      (\<exists>e. (k, e) \<in> set (ss_created st) \<and> output = entry_output e \<and> consumer = co_consumedBy e)" for k "output" consumer
    using map_entries [OF d] by (auto simp: ledger_of_def)
  have "\<exists>output consumer. ledger_of (ss_created st) (toLowerCase (coin_id coin)) = Some (output, consumer) \<and>
       list_ex (\<lambda>o'. sameText o' (out_owner output)) (sp_owners ports) \<and>
       sameText (coin_owner coin) (out_owner output) \<and> coin_commitment coin = out_commitment output \<and>
       commit C (coin_opening coin) = Inr (out_commitment output) \<and>
       coin_status coin = (if consumer = None then available else spent)" if "coin \<in> set utxos" for coin
    using sound that unfolding entry coin_of_entry_def owned_by_def by fastforce
  moreover have "k \<in> set (map (\<lambda>c. toLowerCase (coin_id c)) utxos) \<or> k \<in> set (map of_outputId failures)"
    if "ledger_of (ss_created st) k = Some (o1, consumer)" "list_ex (\<lambda>o'. sameText o' (out_owner o1)) (sp_owners ports)"
    for k o1 consumer
    using complete that unfolding entry coin_of_entry_def owned_by_def by fastforce
  moreover have "distinct (map (\<lambda>c. toLowerCase (coin_id c)) utxos)"
    using subseq_distinct_keys [OF sub d] .
  ultimately show ?thesis
    using ops L wei available_wei_eq [of utxos] by blast
qed

theorem sync_refines_ledger_witness:
  "\<exists>opId oid coin L. synchronize model_curve model_viem model_hpke (\<lambda>ops. ops) example_context (held_ports opId oid) None ()
      = (SyncComplete held_point [coin] [] 5, ()) \<and>
    replay model_viem example_context [held_deposit] = Inr L \<and> L (toLowerCase (coin_id coin)) \<noteq> None"
proof -
  obtain opId oid coin where run: "synchronize model_curve model_viem model_hpke (\<lambda>ops. ops) example_context (held_ports opId oid) None ()
      = (SyncComplete held_point [coin] [] 5, ())" by (rule held_synchronized)
  have request: "ob_request (held_observed opId oid) = held_deposit" "sort_operations (\<lambda>ops. ops) [held_observed opId oid] = [held_observed opId oid]"
    by (simp_all add: held_observed_def sort_operations_def)
  from sync_refines_ledger [OF model_curve_laws model_generators model_hash_laws run] show ?thesis
    using run request by (fastforce simp: held_ports_def held_history_def)
qed

text \<open>C19: A synchronization that does not complete exposes nothing spendable: what it keeps of a previous result is that
  result's checkpoint and coins, every one with status \<open>unknown\<close>, and no coin selection over them can succeed.\<close>

theorem unconfirmed_sync_spends_nothing:
  assumes "synchronize C V suite engine context ports previous w = (SyncUnconfirmed checkpoint (Some old) reason, w')"
  shows "(case previous of
      Some (SyncComplete point utxos _ _) \<Rightarrow> st_checkpoint old = point \<and> map coin_id (st_utxos old) = map coin_id utxos
    | Some (SyncUnconfirmed _ (Some older) _) \<Rightarrow> st_checkpoint old = st_checkpoint older \<and>
        map coin_id (st_utxos old) = map coin_id (st_utxos older)
    | _ \<Rightarrow> False) \<and>
    (\<forall>coin \<in> set (st_utxos old). coin_status coin = unknown) \<and>
    (\<forall>c opts sel. selectInputs c (st_utxos old) opts \<noteq> Inr sel)"
proof -
  from assms have old: "stale previous = Some old"
    by (auto simp: synchronize_def split: prod.splits sum.splits)
  then have ids: "case previous of
      Some (SyncComplete point utxos _ _) \<Rightarrow> st_checkpoint old = point \<and> map coin_id (st_utxos old) = map coin_id utxos
    | Some (SyncUnconfirmed _ (Some older) _) \<Rightarrow> st_checkpoint old = st_checkpoint older \<and>
        map coin_id (st_utxos old) = map coin_id (st_utxos older)
    | _ \<Rightarrow> False"
    by (cases previous rule: stale.cases) (auto simp: comp_def)
  have unknown: "\<forall>coin \<in> set (st_utxos old). coin_status coin = unknown"
    using old by (cases previous rule: stale.cases) auto
  have "selectInputs c (st_utxos old) opts \<noteq> Inr sel" for c opts sel
  proof
    assume sel: "selectInputs c (st_utxos old) opts = Inr sel"
    from selectInputs_sound [OF this] have "set sel \<subseteq> spendable c (sel_owner opts) (st_utxos old)" "sel_amount opts \<le> sum_coins sel"
      by (simp_all add: feasible_def Let_def)
    moreover have "1 \<le> sel_amount opts"
      using sel by (auto simp: selectInputs_def accepted_target_def invalid_selection_def split: if_splits)
    ultimately have "sel \<noteq> []" by (auto simp: sum_coins_def)
    with \<open>set sel \<subseteq> spendable c (sel_owner opts) (st_utxos old)\<close> unknown show False
      by (cases sel) (auto simp: spendable_def confirmed_def)
  qed
  with ids unknown show ?thesis by blast
qed

theorem unconfirmed_sync_spends_nothing_witness:
  "\<exists>old. synchronize model_curve model_viem model_hpke (\<lambda>ops. ops) example_context
      \<lparr>sp_history = (held_history [] [])\<lparr>getFinalizedCheckpoint := ereturn None\<rparr>, sp_keys = held_keys, sp_owners = [[]]\<rparr>
      (Some (SyncComplete held_point [example_coin (CHR ''1'') 5 available] [] 5)) () = (SyncUnconfirmed None (Some old) NO_FINALITY, ()) \<and>
    map coin_status (st_utxos old) = [unknown]"
proof -
  let ?old = "\<lparr>st_checkpoint = held_point, st_utxos = [(example_coin (CHR ''1'') 5 available)\<lparr>coin_status := unknown\<rparr>]\<rparr>"
  have run: "synchronize model_curve model_viem model_hpke (\<lambda>ops. ops) example_context
      \<lparr>sp_history = (held_history [] [])\<lparr>getFinalizedCheckpoint := ereturn None\<rparr>, sp_keys = held_keys, sp_owners = [[]]\<rparr>
      (Some (SyncComplete held_point [example_coin (CHR ''1'') 5 available] [] 5)) () = (SyncUnconfirmed None (Some ?old) NO_FINALITY, ())"
    by (simp add: synchronize_def sync_checkpoint_def ebind_def ecast_def ecatch_def reject_if_def)
  from unconfirmed_sync_spends_nothing [OF this] this show ?thesis
    by (intro exI [of _ ?old]) simp
qed

end
