(* ===== verification/Tracking.thy ===== *)
theory Tracking
  imports SyncProperties
begin

text \<open>
  \<open>packages/core/src/tracking.ts\<close>: what is known of submission attempts and of the success of an operation,
  the preflight against the latest state, and the preparation of a signed draft for submission.
\<close>

datatype preflight_outcome = ready | executed | conflict

datatype PreflightResult =
    Preflight preflight_outcome BlockHeader
  | PreflightUnconfirmed "BlockHeader option"

datatype PreparedSubmission =
    PreparedReady BlockHeader PublicSubmission
  | PreparedOther preflight_outcome BlockHeader
  | PreparedUnconfirmed "BlockHeader option"
  | PreparedStorageUnknown
  | PreparedInvalid

record 'w SubmissionPorts =
  sub_history :: "'w HistoryPort"
  sub_saveDraft :: "LocalDraft \<Rightarrow> ('w, bool) eff"
  sub_keys :: "'w ReceiptKeyPort"

section \<open>Attempts\<close>

definition tracked_value :: "'a Observation \<Rightarrow> Checkpoint \<Rightarrow> 'a res" where
  "tracked_value ob point = obs_value (OtherError '''') ob point"

text \<open>\<open>verifiedSuccess\<close>: every throw inside its \<open>try\<close> is \<open>false\<close>.\<close>

definition verifiedSuccess :: "curve \<Rightarrow> viem \<Rightarrow> string \<Rightarrow> OperationSuccessEvidence \<Rightarrow> bool" where
  "verifiedSuccess C V opId evidence =
     (let context = se_context evidence; point = se_checkpoint evidence; observed = se_event evidence in
      case rbind (tracked_value (se_record evidence) point) (\<lambda>success_record.
           rbind (tracked_value (se_header evidence) point) (\<lambda>header.
           rbind (validateOperationShape C (ob_request observed)) (\<lambda>_.
           rbind (operationId V context (ob_request observed)) (\<lambda>observedId.
           rbind (case os_operation success_record of None \<Rightarrow> Inr True
                  | Some r \<Rightarrow> rbind (operationId V context r) (\<lambda>i. Inr (sameText i opId))) (\<lambda>recordBound.
           case ob_success observed of
             None \<Rightarrow> Inr False
           | Some event \<Rightarrow> Inr (cp_mode point = ctx_finalityMode context \<and> os_executed success_record \<and>
               sameText observedId opId \<and> sameText (ev_operationId event) opId \<and> recordBound \<and>
               ev_blockNumber event \<ge> ctx_deploymentBlock context \<and> ev_blockNumber event \<le> cp_number point \<and>
               hd_number header = ev_blockNumber event \<and> sameText (hd_hash header) (ev_blockHash event) \<and>
               (hd_number header \<noteq> cp_number point \<or> sameText (hd_hash header) (cp_hash point)) \<and>
               isSafeInteger (ev_transactionIndex event) \<and> ev_transactionIndex event \<ge> 0 \<and>
               isSafeInteger (ev_logIndex event) \<and> ev_logIndex event \<ge> 0)))))) of
        Inl _ \<Rightarrow> False
      | Inr b \<Rightarrow> b)"

datatype prior_tracking =
    PriorAttempts "SubmissionAttempt list"
  | PriorTracking OperationTracking

fun prior_attempts :: "prior_tracking \<Rightarrow> SubmissionAttempt list" where
  "prior_attempts (PriorAttempts attempts) = attempts"
| "prior_attempts (PriorTracking tracking) = ot_attempts tracking"

fun prior_evidence :: "string \<Rightarrow> prior_tracking \<Rightarrow> OperationSuccessEvidence option" where
  "prior_evidence opId (PriorAttempts _) = None"
| "prior_evidence opId (PriorTracking tracking) =
     (if sameText (ot_operationId tracking) opId then ot_successEvidence tracking else None)"

definition same_tx :: "SubmissionAttempt \<Rightarrow> SubmissionAttempt \<Rightarrow> bool" where
  "same_tx a b = (case (sa_txHash a, sa_txHash b) of (Some x, Some y) \<Rightarrow> sameText x y | _ \<Rightarrow> False)"

text \<open>\<open>findIndex\<close> and the replacement at that index, or \<open>push\<close>.\<close>

fun record_attempt :: "SubmissionAttempt \<Rightarrow> SubmissionAttempt list \<Rightarrow> SubmissionAttempt list" where
  "record_attempt attempt [] = [attempt]"
| "record_attempt attempt (a # as) = (if same_tx a attempt then attempt # as else a # record_attempt attempt as)"

definition trackAttempt ::
  "curve \<Rightarrow> viem \<Rightarrow> string \<Rightarrow> AttemptObservation \<Rightarrow> prior_tracking \<Rightarrow> OperationTracking" where
  "trackAttempt C V opId observation prior =
     (let attempts = record_attempt (SubmissionAttempt.truncate observation) (prior_attempts prior);
          replacement = (case ao_evidence observation of
             Some evidence \<Rightarrow> if verifiedSuccess C V opId evidence then Some evidence else None
           | None \<Rightarrow> None);
          evidence = (if ao_historyStatus observation \<noteq> None then None
             else case replacement of Some e \<Rightarrow> Some e | None \<Rightarrow> prior_evidence opId prior);
          confirmed = (case evidence of None \<Rightarrow> False | Some e \<Rightarrow> verifiedSuccess C V opId e)
      in \<lparr>ot_operationId = opId, ot_attempts = attempts,
          ot_successEvidence = (if confirmed then evidence else None), ot_executed = confirmed,
          ot_checkpoint = (if confirmed then map_option se_checkpoint evidence else None)\<rparr>)"

section \<open>Preflight\<close>

text \<open>A throw or an early \<open>return unconfirmed()\<close> after the latest header is known.\<close>

definition check_anchor :: "'w HistoryPort \<Rightarrow> Checkpoint option \<Rightarrow> Checkpoint \<Rightarrow> ('w, unit, unit) run" where
  "check_anchor history anchor point = (case anchor of
     None \<Rightarrow> ereturn ()
   | Some a \<Rightarrow>
       if cp_number a > cp_number point then ethrow ()
       else ebind (ecast () (getCanonicalHeader history (cp_number a) point)) (\<lambda>ob.
            ebind (elift (recast () (tracked_value ob point))) (\<lambda>canonical.
            elift (require (hd_number canonical = cp_number a \<and> sameText (hd_hash canonical) (cp_hash a)) ()))))"

definition matching_operations ::
  "viem \<Rightarrow> Context \<Rightarrow> string \<Rightarrow> ObservedOperation list \<Rightarrow> ObservedOperation list res" where
  "matching_operations V context opId operations =
     rbind (mapM (\<lambda>observed. rbind (operationId V context (ob_request observed)) (\<lambda>i.
              Inr (sameText i opId \<or> (case ob_success observed of None \<Rightarrow> False | Some e \<Rightarrow> sameText (ev_operationId e) opId))))
            operations) (\<lambda>flags.
     Inr (map snd (filter fst (zip flags operations))))"

definition check_input ::
  "curve \<Rightarrow> 'w HistoryPort \<Rightarrow> OperationRequest \<Rightarrow> string \<Rightarrow> Opening list option \<Rightarrow> Checkpoint
   \<Rightarrow> preflight_outcome \<Rightarrow> nat \<Rightarrow> ('w, unit, preflight_outcome) run" where
  "check_input C history request opId openings point outcome i =
     ebind (ecast () (getLatestUtxo history (req_inputIds request ! i) point)) (\<lambda>ob.
     ebind (elift (recast () (tracked_value ob point))) (\<lambda>state.
     if \<not> us_exists state then ethrow ()
     else if truthy (us_consumedBy state) then
       (if sameText (the (us_consumedBy state)) opId then ethrow () else ereturn conflict)
     else if \<not> truthy (us_owner state) \<or> \<not> sameText (the (us_owner state)) (req_owner request) \<or> us_commitment state = None
     then ethrow ()
     else case openings of
       None \<Rightarrow> ereturn outcome
     | Some os \<Rightarrow>
         if i \<ge> length os then ethrow ()
         else ebind (elift (recast () (commit C (os ! i)))) (\<lambda>c.
              if px c \<noteq> px (the (us_commitment state)) \<or> py c \<noteq> py (the (us_commitment state)) then ethrow ()
              else ereturn outcome)))"

definition decide_outcome ::
  "curve \<Rightarrow> viem \<Rightarrow> 'w HistoryPort \<Rightarrow> Context \<Rightarrow> OperationRequest \<Rightarrow> string \<Rightarrow> Opening list option \<Rightarrow> Checkpoint
   \<Rightarrow> OperationSuccess Observation \<Rightarrow> OperationSuccess \<Rightarrow> ObservedOperation list \<Rightarrow> ('w, unit, preflight_outcome) run" where
  "decide_outcome C V history context request opId openings point success_record success matches =
     (if os_executed success then
              (case matches of
                 [event] \<Rightarrow>
                   (case ob_success event of
                      None \<Rightarrow> ethrow ()
                    | Some e \<Rightarrow>
                        ebind (ecast () (getCanonicalHeader history (ev_blockNumber e) point)) (\<lambda>header.
                        if verifiedSuccess C V opId \<lparr>se_context = context, se_checkpoint = point, se_event = event,
                             se_record = success_record, se_header = header\<rparr>
                        then ereturn executed else ethrow ()))
               | _ \<Rightarrow> ethrow ())
            else if matches \<noteq> [] \<or> os_operation success \<noteq> None then ethrow ()
            else efoldM (check_input C history request opId openings point) ready [0..<length (req_inputIds request)])"

definition preflight_state ::
  "curve \<Rightarrow> viem \<Rightarrow> 'w HistoryPort \<Rightarrow> Context \<Rightarrow> OperationRequest \<Rightarrow> string \<Rightarrow> Opening list option \<Rightarrow> Checkpoint option
   \<Rightarrow> Checkpoint \<Rightarrow> ('w, unit, preflight_outcome) run" where
  "preflight_state C V history context request opId openings anchor point =
     ebind (check_anchor history anchor point) (\<lambda>_.
     ebind (ecast () (getContext history point)) (\<lambda>ctxOb.
     ebind (elift (recast () (tracked_value ctxOb point))) (\<lambda>actual.
     ebind (elift (require (sameContext context actual) ())) (\<lambda>_.
     ebind (ecast () (getLatestOperationSuccess history opId point)) (\<lambda>success_record.
     ebind (elift (recast () (tracked_value success_record point))) (\<lambda>success.
     ebind (ecast () (getOperations history (ctx_deploymentBlock context) point)) (\<lambda>opsOb.
     ebind (elift (recast () (rbind (tracked_value opsOb point) (matching_operations V context opId)))) (\<lambda>matches.
     ebind (decide_outcome C V history context request opId openings point success_record success matches) (\<lambda>outcome.
     ebind (ecast () (getCanonicalHeader history (cp_number point) point)) (\<lambda>endOb.
     ebind (elift (recast () (tracked_value endOb point))) (\<lambda>end_header.
     ebind (elift (require (hd_number end_header = cp_number point \<and> sameText (hd_hash end_header) (cp_hash point)) ())) (\<lambda>_.
     ereturn outcome))))))))))))"

definition preflight_start ::
  "curve \<Rightarrow> viem \<Rightarrow> 'w HistoryPort \<Rightarrow> Context \<Rightarrow> OperationRequest \<Rightarrow> ('w, unit, string \<times> BlockHeader) run" where
  "preflight_start C V history context request =
     ebind (elift (recast () (validateOperationShape C request))) (\<lambda>_.
     ebind (elift (recast () (operationId V context request))) (\<lambda>opId.
     ebind (ecast () (getLatestHeader history)) (\<lambda>latest.
     case latest of
       None \<Rightarrow> ethrow ()
     | Some header \<Rightarrow> if hd_number header < ctx_deploymentBlock context then ethrow () else ereturn (opId, header))))"

definition preflight ::
  "curve \<Rightarrow> viem \<Rightarrow> Context \<Rightarrow> OperationRequest \<Rightarrow> 'w HistoryPort \<Rightarrow> Opening list option \<Rightarrow> Checkpoint option
   \<Rightarrow> 'w \<Rightarrow> PreflightResult \<times> 'w" where
  "preflight C V context request history openings anchor w =
     (case preflight_start C V history context request w of
        (Inl _, w1) \<Rightarrow> (PreflightUnconfirmed None, w1)
      | (Inr (opId, latest), w1) \<Rightarrow>
          (case preflight_state C V history context request opId openings anchor
                  \<lparr>cp_number = hd_number latest, cp_hash = hd_hash latest, cp_mode = ctx_finalityMode context\<rparr> w1 of
             (Inl _, w2) \<Rightarrow> (PreflightUnconfirmed (Some latest), w2)
           | (Inr outcome, w2) \<Rightarrow> (Preflight outcome latest, w2)))"

definition preflightSubmission ::
  "curve \<Rightarrow> viem \<Rightarrow> Context \<Rightarrow> OperationRequest \<Rightarrow> 'w HistoryPort \<Rightarrow> 'w \<Rightarrow> PreflightResult \<times> 'w" where
  "preflightSubmission C V context request history = preflight C V context request history None None"

section \<open>Preparing a signed draft\<close>

definition validateDraft :: "curve \<Rightarrow> viem \<Rightarrow> LocalDraft \<Rightarrow> unit res" where
  "validateDraft C V d =
     (let r = dr_request d in
      rbind (validateOperationShape C r) (\<lambda>_.
      rbind (operationId V (dr_context d) r) (\<lambda>opId.
      rbind (require (sameText opId (dr_operationId d) \<and> truthy (dr_signature d) \<and>
               length (dr_openings d) = length (req_outputs r) \<and> length (dr_inputOpenings d) = length (req_inputIds r) \<and>
               length (dr_outputIds d) = length (req_outputs r)) (OtherError '''')) (\<lambda>_.
      rbind (mapM (\<lambda>(i, oid). rbind (outputId V (dr_operationId d) (int i)) (\<lambda>expected.
               require (sameText oid expected) (OtherError '''')))
             (zip [0..<length (dr_outputIds d)] (dr_outputIds d))) (\<lambda>_.
      rbind (mapM (commit C) (dr_openings d)) (\<lambda>outputs.
      rbind (mapM (commit C) (dr_inputOpenings d)) (\<lambda>_.
      require (\<not> list_ex (\<lambda>(c, o'). px c \<noteq> px (out_commitment o') \<or> py c \<noteq> py (out_commitment o')) (zip outputs (req_outputs r)) \<and>
        total_amount (dr_inputOpenings d) (req_d r) = total_amount (dr_openings d) (req_w r)) (OtherError ''''))))))))"

definition synced_input :: "OwnedUtxo list \<Rightarrow> string \<Rightarrow> OwnedUtxo option" where
  "synced_input utxos inputId = find (\<lambda>u. sameText (coin_id u) inputId) utxos"

definition inputs_synced :: "LocalDraft \<Rightarrow> OwnedUtxo list \<Rightarrow> bool" where
  "inputs_synced d utxos = list_all (\<lambda>i. case synced_input utxos (req_inputIds (dr_request d) ! i) of
       None \<Rightarrow> False
     | Some input \<Rightarrow> sameText (coin_owner input) (req_owner (dr_request d)) \<and>
         amount (coin_opening input) = amount (dr_inputOpenings d ! i) \<and>
         blinding (coin_opening input) = blinding (dr_inputOpenings d ! i)) [0..<length (req_inputIds (dr_request d))]"

definition inputs_available :: "LocalDraft \<Rightarrow> OwnedUtxo list \<Rightarrow> bool" where
  "inputs_available d utxos = list_all (\<lambda>inputId. case synced_input utxos inputId of
       None \<Rightarrow> False | Some u \<Rightarrow> coin_status u = available) (req_inputIds (dr_request d))"

definition signed_submission :: "curve \<Rightarrow> viem \<Rightarrow> typed_viem \<Rightarrow> LocalDraft \<Rightarrow> PublicSubmission res" where
  "signed_submission C V T d =
     rbind (validateDraft C V d) (\<lambda>_.
     rbind (verifyOperationAuthorization T (dr_context d) (dr_operationId d) (req_owner (dr_request d)) (the (dr_signature d))) (\<lambda>_.
     toPublicSubmission C V d))"

definition prepareSubmission ::
  "curve \<Rightarrow> viem \<Rightarrow> typed_viem \<Rightarrow> ('w, 'pk, 'snd, 'sk, 'rcp) hpke \<Rightarrow> (ObservedOperation list \<Rightarrow> ObservedOperation list)
   \<Rightarrow> LocalDraft \<Rightarrow> 'w SubmissionPorts \<Rightarrow> 'w \<Rightarrow> PreparedSubmission \<times> 'w" where
  "prepareSubmission C V T suite engine d ports w =
     (case signed_submission C V T d of
        Inl _ \<Rightarrow> (PreparedInvalid, w)
      | Inr submission \<Rightarrow>
          (case synchronize C V suite engine (dr_context d)
                  \<lparr>sp_history = sub_history ports, sp_keys = sub_keys ports, sp_owners = [req_owner (dr_request d)]\<rparr> None w of
             (SyncUnconfirmed _ _ _, w1) \<Rightarrow> (PreparedUnconfirmed None, w1)
           | (SyncComplete checkpoint utxos _ _, w1) \<Rightarrow>
               if \<not> inputs_synced d utxos then (PreparedUnconfirmed None, w1)
               else (case sub_saveDraft ports d w1 of
                  (Inr True, w2) \<Rightarrow>
                    (case preflight C V (dr_context d) (dr_request d) (sub_history ports) (Some (dr_inputOpenings d)) (Some checkpoint) w2 of
                       (Preflight ready latest, w3) \<Rightarrow>
                         if inputs_available d utxos then (PreparedReady latest submission, w3)
                         else (PreparedUnconfirmed (Some latest), w3)
                     | (Preflight outcome latest, w3) \<Rightarrow> (PreparedOther outcome latest, w3)
                     | (PreflightUnconfirmed latest, w3) \<Rightarrow> (PreparedUnconfirmed latest, w3))
                | (_, w2) \<Rightarrow> (PreparedStorageUnknown, w2))))"

section \<open>Lemmas\<close>

lemma tracked_value_eq_Inr: "tracked_value ob point = Inr v \<longleftrightarrow> (\<exists>h. ob = Complete h v \<and> sameText h (cp_hash point))"
  by (simp add: tracked_value_def obs_value_eq_Inr)

lemma sameText_lower: "sameText a b \<Longrightarrow> sameText c a = sameText c b"
  by (simp add: sameText_def)

lemma verifiedSuccess_cong: "sameText a b \<Longrightarrow> verifiedSuccess C V a evidence = verifiedSuccess C V b evidence"
  unfolding verifiedSuccess_def Let_def by (simp add: sameText_lower [of a b] cong: option.case_cong sum.case_cong)

text \<open>No two attempts of a list name the same transaction.\<close>

definition distinct_attempts :: "SubmissionAttempt list \<Rightarrow> bool" where
  "distinct_attempts attempts \<longleftrightarrow> (\<forall>i < length attempts. \<forall>j < length attempts. same_tx (attempts ! i) (attempts ! j) \<longrightarrow> i = j)"

fun new_tx :: "SubmissionAttempt \<Rightarrow> SubmissionAttempt list \<Rightarrow> bool" where
  "new_tx a as = list_all (\<lambda>b. \<not> same_tx b a \<and> \<not> same_tx a b) as"

lemma same_tx_sym: "same_tx a b \<longleftrightarrow> same_tx b a"
  by (auto simp: same_tx_def sameText_def split: option.splits)

lemma same_tx_trans: "same_tx a b \<Longrightarrow> same_tx b c \<Longrightarrow> same_tx a c"
  by (auto simp: same_tx_def sameText_def split: option.splits)

lemma distinct_attempts_Cons:
  "distinct_attempts (a # as) \<longleftrightarrow> (\<forall>b \<in> set as. \<not> same_tx a b) \<and> distinct_attempts as"
proof
  assume d: "distinct_attempts (a # as)"
  have "\<not> same_tx a (as ! j)" if "j < length as" for j
    using d [unfolded distinct_attempts_def, rule_format, of 0 "Suc j"] that by auto
  moreover have "distinct_attempts as"
    unfolding distinct_attempts_def
  proof (intro allI impI)
    fix i j
    assume "i < length as" "j < length as" "same_tx (as ! i) (as ! j)"
    with d [unfolded distinct_attempts_def, rule_format, of "Suc i" "Suc j"] show "i = j" by simp
  qed
  ultimately show "(\<forall>b \<in> set as. \<not> same_tx a b) \<and> distinct_attempts as" by (auto simp: in_set_conv_nth)
next
  assume h: "(\<forall>b \<in> set as. \<not> same_tx a b) \<and> distinct_attempts as"
  show "distinct_attempts (a # as)"
    unfolding distinct_attempts_def
  proof (intro allI impI)
    fix i j
    assume i: "i < length (a # as)" and j: "j < length (a # as)" and s: "same_tx ((a # as) ! i) ((a # as) ! j)"
    show "i = j"
      using h i j s same_tx_sym unfolding distinct_attempts_def by (cases i; cases j) auto
  qed
qed

lemma set_record_attempt: "set (record_attempt x as) \<subseteq> insert x (set as)"
  by (induction as) auto

lemma distinct_record_attempt: "distinct_attempts as \<Longrightarrow> distinct_attempts (record_attempt x as)"
proof (induction as)
  case Nil
  then show ?case by (simp add: distinct_attempts_def)
next
  case (Cons a as)
  then have d: "\<forall>b \<in> set as. \<not> same_tx a b" "distinct_attempts as" by (simp_all add: distinct_attempts_Cons)
  show ?case
  proof (cases "same_tx a x")
    case True
    with d show ?thesis using same_tx_trans same_tx_sym by (auto simp: distinct_attempts_Cons)
  next
    case False
    with d Cons.IH show ?thesis using set_record_attempt [of x as] by (auto simp: distinct_attempts_Cons)
  qed
qed

lemma record_attempt_last: "\<exists>a \<in> set (record_attempt x as). a = x"
  by (induction as) auto

section \<open>Lemmas: preflight\<close>

definition unspent_at :: "curve \<Rightarrow> 'w HistoryPort \<Rightarrow> OperationRequest \<Rightarrow> Opening list option \<Rightarrow> Checkpoint \<Rightarrow> nat \<Rightarrow> bool" where
  "unspent_at C history request openings point i \<longleftrightarrow>
     (\<exists>w w' h state. getLatestUtxo history (req_inputIds request ! i) point w = (Inr (Complete h state), w') \<and>
        sameText h (cp_hash point) \<and> us_exists state \<and> \<not> truthy (us_consumedBy state) \<and>
        sameText (the (us_owner state)) (req_owner request) \<and>
        (case openings of None \<Rightarrow> True | Some os \<Rightarrow> i < length os \<and> commit C (os ! i) = Inr (the (us_commitment state))))"

lemma check_input_outcome:
  assumes "check_input C history request opId openings point outcome i w = (Inr outcome', w')"
  shows "outcome' = conflict \<or> outcome' = outcome \<and> unspent_at C history request openings point i"
proof -
  from assms obtain h state w1 where ask: "getLatestUtxo history (req_inputIds request ! i) point w = (Inr (Complete h state), w1)"
    "sameText h (cp_hash point)" and ex: "us_exists state"
    and rest: "(if truthy (us_consumedBy state) then
       (if sameText (the (us_consumedBy state)) opId then ethrow () else ereturn conflict)
     else if \<not> truthy (us_owner state) \<or> \<not> sameText (the (us_owner state)) (req_owner request) \<or> us_commitment state = None
     then ethrow ()
     else case openings of
       None \<Rightarrow> ereturn outcome
     | Some os \<Rightarrow>
         if i \<ge> length os then ethrow ()
         else ebind (elift (recast () (commit C (os ! i)))) (\<lambda>c.
              if px c \<noteq> px (the (us_commitment state)) \<or> py c \<noteq> py (the (us_commitment state)) then ethrow ()
              else ereturn outcome)) w1 = (Inr outcome', w')"
    by (auto simp: check_input_def eff_simps recast_eq_Inr tracked_value_eq_Inr split: if_splits)
  show ?thesis
  proof (cases "truthy (us_consumedBy state)")
    case True
    with rest show ?thesis by (auto split: if_splits)
  next
    case False
    with rest have own: "sameText (the (us_owner state)) (req_owner request)" by (auto split: if_splits)
    have "outcome' = outcome \<and> (case openings of None \<Rightarrow> True
        | Some os \<Rightarrow> i < length os \<and> commit C (os ! i) = Inr (the (us_commitment state)))"
      using rest False
      by (auto simp: eff_simps recast_eq_Inr intro: G1Point.equality split: if_splits option.splits)
    with False ask ex own show ?thesis unfolding unspent_at_def by blast
  qed
qed

lemma check_inputs_ready:
  "efoldM (check_input C history request opId openings point) outcome is w = (Inr ready, w') \<Longrightarrow>
   outcome = ready \<and> (\<forall>i \<in> set is. unspent_at C history request openings point i)"
proof (induction "is" arbitrary: outcome w)
  case (Cons i "is")
  from Cons.prems obtain outcome1 w1 where s: "check_input C history request opId openings point outcome i w = (Inr outcome1, w1)"
    and r: "efoldM (check_input C history request opId openings point) outcome1 is w1 = (Inr ready, w')"
    by (auto simp: ebind_eq_Inr)
  from Cons.IH [OF r] check_input_outcome [OF s] show ?case by auto
qed simp

lemma preflight_ready:
  assumes "preflight C V context request history openings anchor w = (Preflight ready latest, w')"
  shows "\<exists>opId. operationId V context request = Inr opId \<and>
    (\<exists>w1 w2 h. getLatestOperationSuccess history opId \<lparr>cp_number = hd_number latest, cp_hash = hd_hash latest,
         cp_mode = ctx_finalityMode context\<rparr> w1 = (Inr (Complete h \<lparr>os_executed = False, os_operation = None\<rparr>), w2)) \<and>
    (\<forall>i < length (req_inputIds request). unspent_at C history request openings
       \<lparr>cp_number = hd_number latest, cp_hash = hd_hash latest, cp_mode = ctx_finalityMode context\<rparr> i)"
proof -
  let ?point = "\<lparr>cp_number = hd_number latest, cp_hash = hd_hash latest, cp_mode = ctx_finalityMode context\<rparr>"
  from assms obtain opId w1 where start: "preflight_start C V history context request w = (Inr (opId, latest), w1)"
    and st: "preflight_state C V history context request opId openings anchor ?point w1 = (Inr ready, w')"
    by (auto simp: preflight_def split: prod.splits sum.splits)
  have opId: "operationId V context request = Inr opId"
    using start by (auto simp: preflight_start_def eff_simps recast_eq_Inr split: option.splits if_splits)
  from st obtain w2 w3 w4 w5 h success matches where
    ask: "getLatestOperationSuccess history opId ?point w2 = (Inr (Complete h success), w3)"
    and branch: "decide_outcome C V history context request opId openings ?point (Complete h success) success matches w4 = (Inr ready, w5)"
    by (auto simp: preflight_state_def eff_simps recast_eq_Inr require_eq_Inr tracked_value_eq_Inr rbind_eq_Inr)
  from branch have "\<not> os_executed success"
    by (auto simp: decide_outcome_def eff_simps split: if_splits list.splits option.splits)
  with branch have "os_operation success = None"
    and fold: "efoldM (check_input C history request opId openings ?point) ready [0..<length (req_inputIds request)] w4 = (Inr ready, w5)"
    by (auto simp: decide_outcome_def split: if_splits)
  moreover from this \<open>\<not> os_executed success\<close> have "success = \<lparr>os_executed = False, os_operation = None\<rparr>"
    by (cases success) simp
  ultimately show ?thesis using check_inputs_ready [OF fold] opId ask by auto
qed

section \<open>Lemmas: drafts\<close>

lemma validateDraft_sound:
  assumes "validateDraft C V d = Inr ()"
  shows "well_formed_request C (dr_request d)" and "truthy (dr_signature d)"
    and "length (dr_inputOpenings d) = length (req_inputIds (dr_request d))"
    and "mapM (commit C) (dr_openings d) = Inr (map out_commitment (req_outputs (dr_request d)))"
    and "sum_list (map amount (dr_inputOpenings d)) + req_d (dr_request d) =
      sum_list (map amount (dr_openings d)) + req_w (dr_request d)"
proof -
  let ?r = "dr_request d"
  from assms obtain outputs where w: "well_formed_request C ?r" "truthy (dr_signature d)"
    "length (dr_openings d) = length (req_outputs ?r)" "length (dr_inputOpenings d) = length (req_inputIds ?r)"
    and m: "mapM (commit C) (dr_openings d) = Inr outputs"
    and same: "\<not> list_ex (\<lambda>(c, o'). px c \<noteq> px (out_commitment o') \<or> py c \<noteq> py (out_commitment o')) (zip outputs (req_outputs ?r))"
    and total: "total_amount (dr_inputOpenings d) (req_d ?r) = total_amount (dr_openings d) (req_w ?r)"
    by (auto simp: validateDraft_def Let_def rbind_eq_Inr require_eq_Inr validateOperationShape_eq_Inr split: if_splits)
  show "well_formed_request C ?r" "truthy (dr_signature d)" "length (dr_inputOpenings d) = length (req_inputIds ?r)"
    using w by simp_all
  have "length outputs = length (req_outputs ?r)" using mapM_length [OF m] w(3) by simp
  then have "outputs = map out_commitment (req_outputs ?r)"
    using same same_commitments [of outputs "req_outputs ?r"] by blast
  with m show "mapM (commit C) (dr_openings d) = Inr (map out_commitment (req_outputs ?r))" by simp
  show "sum_list (map amount (dr_inputOpenings d)) + req_d ?r = sum_list (map amount (dr_openings d)) + req_w ?r"
    using total by (simp add: total_amount_eq)
qed

lemma toPublicSubmission_sound:
  assumes "toPublicSubmission C V d = Inr submission"
  shows "operationId V (dr_context d) (dr_request d) = Inr (dr_operationId d)"
    and "submission = \<lparr>ps_request = dr_request d, ps_balanceProof = dr_balanceProof d,
       ps_rangeProofs = dr_rangeProofs d, ps_signature = the (dr_signature d)\<rparr>"
  using assms by (auto simp: toPublicSubmission_def rbind_eq_Inr split: option.splits if_splits)

lemma synced_input_Some: "synced_input utxos inputId = Some u \<Longrightarrow> u \<in> set utxos \<and> sameText (coin_id u) inputId"
  by (auto simp: synced_input_def find_Some_iff in_set_conv_nth)

section \<open>Properties\<close>

text \<open>C20: Tracking adopts success only on evidence and keeps it until history withdraws it: the tracking says \<open>executed\<close>
  exactly when it carries evidence that verifies for the operation (with the evidence's checkpoint), no two of its
  attempts name one transaction when that held before, the observed attempt is among them, a withdrawn history clears success,
  and otherwise verified success survives every further attempt, whatever its outcome.\<close>

theorem tracking_keeps_success:
  assumes "trackAttempt C V opId observation (PriorTracking t) = t'"
  shows "(ot_executed t' \<longleftrightarrow> (\<exists>e. ot_successEvidence t' = Some e \<and> verifiedSuccess C V opId e \<and> ot_checkpoint t' = Some (se_checkpoint e))) \<and>
    (distinct_attempts (ot_attempts t) \<longrightarrow> distinct_attempts (ot_attempts t')) \<and>
    SubmissionAttempt.truncate observation \<in> set (ot_attempts t') \<and>
    (ao_historyStatus observation \<noteq> None \<longrightarrow> \<not> ot_executed t') \<and>
    (ao_historyStatus observation = None \<longrightarrow> sameText (ot_operationId t) opId \<longrightarrow>
       (\<exists>e. ot_successEvidence t = Some e \<and> verifiedSuccess C V (ot_operationId t) e) \<longrightarrow> ot_executed t')"
proof -
  have "distinct_attempts (ot_attempts t) \<longrightarrow> distinct_attempts (ot_attempts t')"
    using assms distinct_record_attempt by (auto simp: trackAttempt_def Let_def)
  moreover have "SubmissionAttempt.truncate observation \<in> set (ot_attempts t')"
    using assms record_attempt_last [of "SubmissionAttempt.truncate observation" "ot_attempts t"]
    by (auto simp: trackAttempt_def Let_def)
  moreover have "ot_executed t'"
    if "ao_historyStatus observation = None" "sameText (ot_operationId t) opId"
      "\<exists>e. ot_successEvidence t = Some e \<and> verifiedSuccess C V (ot_operationId t) e"
    using assms that verifiedSuccess_cong [of "ot_operationId t" opId C V]
    by (auto simp: trackAttempt_def Let_def split: option.splits if_splits)
  ultimately show ?thesis
    using assms by (auto simp: trackAttempt_def Let_def split: option.splits if_splits)
qed

definition held_evidence :: "string \<Rightarrow> string \<Rightarrow> OperationSuccessEvidence" where
  "held_evidence opId oid = \<lparr>se_context = example_context, se_checkpoint = held_point, se_event = held_observed opId oid,
     se_record = Complete (cp_hash held_point) \<lparr>os_executed = True, os_operation = None\<rparr>,
     se_header = Complete (cp_hash held_point) held_header\<rparr>"

lemma held_verified:
  assumes "operationId model_viem example_context held_deposit = Inr opId"
  shows "verifiedSuccess model_curve model_viem opId (held_evidence opId oid)"
proof -
  have "validateOperationShape model_curve held_deposit = Inr ()"
    using held_shape by (simp add: validateOperationShape_eq_Inr)
  with assms show ?thesis
    by (simp add: verifiedSuccess_def held_evidence_def tracked_value_def held_observed_def held_event_def held_header_def
        held_point_def example_context_def isSafeInteger_def)
qed

theorem tracking_keeps_success_witness:
  "\<exists>opId oid. ot_executed (trackAttempt model_curve model_viem opId
     \<lparr>sa_txHash = Some (hash_of (CHR ''1'')), sa_outer = outer_failed, sa_blockNumber = None, sa_blockHash = None,
      sa_failure = Some OUTER_REVERT, ao_evidence = None, ao_historyStatus = None\<rparr>
     (PriorTracking \<lparr>ot_operationId = opId, ot_attempts = [], ot_successEvidence = Some (held_evidence opId oid),
        ot_executed = True, ot_checkpoint = Some held_point\<rparr>))"
proof -
  obtain opId oid where ids: "operationId model_viem example_context held_deposit = Inr opId"
    "outputId model_viem opId 0 = Inr oid" "bytes opId 32" "bytes oid 32" by (rule held_ids)
  let ?ob = "\<lparr>sa_txHash = Some (hash_of (CHR ''1'')), sa_outer = outer_failed, sa_blockNumber = None, sa_blockHash = None,
      sa_failure = Some OUTER_REVERT, ao_evidence = None, ao_historyStatus = None\<rparr>"
  let ?t = "\<lparr>ot_operationId = opId, ot_attempts = [], ot_successEvidence = Some (held_evidence opId oid),
        ot_executed = True, ot_checkpoint = Some held_point\<rparr>"
  have "ot_executed (trackAttempt model_curve model_viem opId ?ob (PriorTracking ?t))"
    by (rule tracking_keeps_success [of model_curve model_viem opId ?ob ?t, OF refl, THEN conjunct2, THEN conjunct2,
          THEN conjunct2, THEN conjunct2, rule_format])
       (simp_all add: held_verified [OF ids(1)])
  then show ?thesis by blast
qed

text \<open>C21: \<open>prepareSubmission\<close> says \<open>ready\<close> only for a draft that may be submitted now: the request is well formed, is the
  signed identifier's own, its openings open its commitments and balance, the owner's signature verifies, storage
  confirmed the draft, a complete synchronization returned every input as an available coin with the draft's opening,
  and at the pinned latest block the operation is not executed and every input is the owner's and unspent; the public
  submission carries exactly the draft's request, proofs and signature.\<close>

theorem prepared_ready_safe:
  assumes "prepareSubmission C V T suite engine d ports w = (PreparedReady latest submission, w')"
  shows "well_formed_request C (dr_request d) \<and>
    operationId V (dr_context d) (dr_request d) = Inr (dr_operationId d) \<and>
    mapM (commit C) (dr_openings d) = Inr (map out_commitment (req_outputs (dr_request d))) \<and>
    sum_list (map amount (dr_inputOpenings d)) + req_d (dr_request d) =
      sum_list (map amount (dr_openings d)) + req_w (dr_request d) \<and>
    verifyOperationAuthorization T (dr_context d) (dr_operationId d) (req_owner (dr_request d)) (the (dr_signature d)) = Inr () \<and>
    (\<exists>w1 w2. sub_saveDraft ports d w1 = (Inr True, w2)) \<and>
    (\<exists>checkpoint utxos failures wei w1.
       synchronize C V suite engine (dr_context d)
         \<lparr>sp_history = sub_history ports, sp_keys = sub_keys ports, sp_owners = [req_owner (dr_request d)]\<rparr> None w
         = (SyncComplete checkpoint utxos failures wei, w1) \<and>
       (\<forall>i < length (req_inputIds (dr_request d)). \<exists>u \<in> set utxos. sameText (coin_id u) (req_inputIds (dr_request d) ! i) \<and>
          coin_status u = available \<and> amount (coin_opening u) = amount (dr_inputOpenings d ! i) \<and>
          blinding (coin_opening u) = blinding (dr_inputOpenings d ! i))) \<and>
    (\<exists>w1 w2 h. getLatestOperationSuccess (sub_history ports) (dr_operationId d) \<lparr>cp_number = hd_number latest,
         cp_hash = hd_hash latest, cp_mode = ctx_finalityMode (dr_context d)\<rparr> w1
         = (Inr (Complete h \<lparr>os_executed = False, os_operation = None\<rparr>), w2)) \<and>
    (\<forall>i < length (req_inputIds (dr_request d)). unspent_at C (sub_history ports) (dr_request d) (Some (dr_inputOpenings d))
       \<lparr>cp_number = hd_number latest, cp_hash = hd_hash latest, cp_mode = ctx_finalityMode (dr_context d)\<rparr> i) \<and>
    submission = \<lparr>ps_request = dr_request d, ps_balanceProof = dr_balanceProof d,
       ps_rangeProofs = dr_rangeProofs d, ps_signature = the (dr_signature d)\<rparr>"
proof -
  from assms obtain checkpoint utxos failures wei w1 w2 w3 where
    pub: "signed_submission C V T d = Inr submission"
    and sync: "synchronize C V suite engine (dr_context d)
         \<lparr>sp_history = sub_history ports, sp_keys = sub_keys ports, sp_owners = [req_owner (dr_request d)]\<rparr> None w
         = (SyncComplete checkpoint utxos failures wei, w1)"
    and ins: "inputs_synced d utxos" "inputs_available d utxos" and save: "sub_saveDraft ports d w1 = (Inr True, w2)"
    and pre: "preflight C V (dr_context d) (dr_request d) (sub_history ports) (Some (dr_inputOpenings d)) (Some checkpoint) w2
        = (Preflight ready latest, w3)"
    by (auto simp: prepareSubmission_def split: sum.splits prod.splits SyncResult.splits if_splits bool.splits
        PreflightResult.splits preflight_outcome.splits)
  from pub have d: "validateDraft C V d = Inr ()"
    and sg: "verifyOperationAuthorization T (dr_context d) (dr_operationId d) (req_owner (dr_request d)) (the (dr_signature d)) = Inr ()"
    and p: "toPublicSubmission C V d = Inr submission"
    by (auto simp: signed_submission_def rbind_eq_Inr)
  have "\<exists>u \<in> set utxos. sameText (coin_id u) (req_inputIds (dr_request d) ! i) \<and>
          coin_status u = available \<and> amount (coin_opening u) = amount (dr_inputOpenings d ! i) \<and>
          blinding (coin_opening u) = blinding (dr_inputOpenings d ! i)" if i: "i < length (req_inputIds (dr_request d))" for i
  proof -
    obtain u where u: "synced_input utxos (req_inputIds (dr_request d) ! i) = Some u"
      "amount (coin_opening u) = amount (dr_inputOpenings d ! i)" "blinding (coin_opening u) = blinding (dr_inputOpenings d ! i)"
      using ins(1) i by (auto simp: inputs_synced_def list_all_length split: option.splits)
    moreover have "coin_status u = available"
      using ins(2) i u(1) by (auto simp: inputs_available_def list_all_length)
    ultimately show ?thesis using synced_input_Some by blast
  qed
  moreover note validateDraft_sound [OF d] toPublicSubmission_sound [OF p]
  moreover from preflight_ready [OF pre] toPublicSubmission_sound(1) [OF p] have
    "\<exists>w1 w2 h. getLatestOperationSuccess (sub_history ports) (dr_operationId d) \<lparr>cp_number = hd_number latest,
         cp_hash = hd_hash latest, cp_mode = ctx_finalityMode (dr_context d)\<rparr> w1
         = (Inr (Complete h \<lparr>os_executed = False, os_operation = None\<rparr>), w2)"
    "\<forall>i < length (req_inputIds (dr_request d)). unspent_at C (sub_history ports) (dr_request d) (Some (dr_inputOpenings d))
       \<lparr>cp_number = hd_number latest, cp_hash = hd_hash latest, cp_mode = ctx_finalityMode (dr_context d)\<rparr> i"
    by auto
  ultimately show ?thesis using sg save sync by blast
qed

text \<open>The held deposit, signed, over a pool with no operations yet.\<close>

definition empty_history :: "unit HistoryPort" where
  "empty_history = (held_history [] [])\<lparr>getOperations := \<lambda>_ p. ereturn (Complete (cp_hash held_point) [])\<rparr>"

definition empty_ports :: "unit SubmissionPorts" where
  "empty_ports = \<lparr>sub_history = empty_history, sub_saveDraft = \<lambda>_. ereturn True, sub_keys = held_keys\<rparr>"

definition latest_block :: BlockHeader where
  "latest_block = \<lparr>hd_number = 20, hd_hash = hash_of (CHR ''c'')\<rparr>"

lemma empty_answers:
  "getFinalizedCheckpoint empty_history = ereturn (Some held_point)"
  "getContext empty_history p = ereturn (Complete (hash_of (CHR ''c'')) example_context)"
  "getOperations empty_history n p = ereturn (Complete (hash_of (CHR ''c'')) [])"
  "getCanonicalHeader empty_history 20 p = ereturn (Complete (hash_of (CHR ''c'')) latest_block)"
  "getLatestHeader empty_history = ereturn (Some latest_block)"
  "getLatestOperationSuccess empty_history i p = ereturn (Complete (hash_of (CHR ''c'')) \<lparr>os_executed = False, os_operation = None\<rparr>)"
  by (simp_all add: empty_history_def held_history_def held_point_def latest_block_def)

lemma empty_synchronized:
  "synchronize model_curve model_viem model_hpke (\<lambda>ops. ops) example_context
     \<lparr>sp_history = empty_history, sp_keys = held_keys, sp_owners = [address_of (CHR ''b'')]\<rparr> None ()
   = (SyncComplete held_point [] [] 0, ())"
  by (simp add: synchronize_def sync_checkpoint_def sync_history_def sync_outputs_def empty_answers ebind_def ecast_def ecatch_def
      reject_if_def sync_value_def sameContext_def sort_operations_def available_wei_def initial_sync_def
      held_point_def example_context_def latest_block_def)

lemma empty_preflight:
  assumes ids: "operationId model_viem example_context held_deposit = Inr opId"
  shows "preflight model_curve model_viem example_context held_deposit empty_history (Some []) (Some held_point) ()
    = (Preflight ready latest_block, ())"
proof -
  have shape: "validateOperationShape model_curve held_deposit = Inr ()"
    using held_shape by (simp add: validateOperationShape_eq_Inr)
  show ?thesis
    using ids shape
    by (simp add: preflight_def preflight_start_def preflight_state_def check_anchor_def decide_outcome_def empty_answers
        ebind_def ecast_def ecatch_def tracked_value_def sameContext_def matching_operations_def held_outputs
        held_point_def latest_block_def example_context_def)
qed

lemma held_signed:
  assumes ids: "operationId model_viem example_context held_deposit = Inr opId"
    "outputId model_viem opId 0 = Inr oid" "bytes opId 32"
    and d: "fixed_of d = held_fixed opId oid"
  shows "signed_submission model_curve model_viem example_typed (d\<lparr>dr_signature := Some example_signature\<rparr>)
    = Inr \<lparr>ps_request = held_deposit, ps_balanceProof = dr_balanceProof d, ps_rangeProofs = dr_rangeProofs d,
           ps_signature = example_signature\<rparr>"
proof -
  from d have f: "dr_context d = example_context" "dr_request d = held_deposit" "dr_operationId d = opId" "dr_outputIds d = [oid]"
    "dr_openings d = [\<lparr>amount = 5, blinding = 9\<rparr>]" "dr_inputOpenings d = []"
    by (simp_all add: fixed_of_def held_fixed_def)
  have shape: "validateOperationShape model_curve held_deposit = Inr ()"
    using held_shape by (simp add: validateOperationShape_eq_Inr)
  have fields: "req_owner held_deposit = address_of (CHR ''b'')" "req_d held_deposit = 5" "req_w held_deposit = 0"
    by (simp_all add: held_deposit_def example_deposit_def)
  have "bytes example_signature 65" using example_signature_canonical by (simp add: canonical_signature_def)
  note sg = bytes_nonempty [OF this] this
  have v: "validateDraft model_curve model_viem (d\<lparr>dr_signature := Some example_signature\<rparr>) = Inr ()"
    using ids shape sg held_commit by (simp add: validateDraft_def f held_outputs fields total_amount_def held_output_def)
  have "toLowerCase (address_of (CHR ''b'')) \<noteq> zeroAddress" "address_of (CHR ''b'') \<noteq> zeroAddress" by code_simp+
  then have "verifyOperationAuthorization example_typed example_context opId (address_of (CHR ''b'')) example_signature = Inr ()"
    using ids example_signature_canonical
    by (simp add: verifyOperationAuthorization_def operationTypedData_def auth_input_def address_of_bytes typed_domain_def
        verifySignature_eq_Inr example_typed_def example_context_def)
  with v ids shape sg show ?thesis
    by (simp add: signed_submission_def toPublicSubmission_def f fields)
qed

theorem prepared_ready_safe_witness:
  "\<exists>d submission. prepareSubmission model_curve model_viem example_typed model_hpke (\<lambda>ops. ops) d empty_ports ()
      = (PreparedReady latest_block submission, ()) \<and> ps_request submission = held_deposit"
proof -
  obtain opId oid where ids: "operationId model_viem example_context held_deposit = Inr opId"
    "outputId model_viem opId 0 = Inr oid" "bytes opId 32" "bytes oid 32" by (rule held_ids)
  define d :: LocalDraft where "d = \<lparr>dr_context = example_context, dr_request = held_deposit, dr_operationId = opId,
    dr_outputIds = [oid], dr_openings = [\<lparr>amount = 5, blinding = 9\<rparr>], dr_inputOpenings = [],
    dr_balanceProof = \<lparr>Rx = 0, Ry = 0, proof_s = 0\<rparr>, dr_rangeProofs = [], dr_signature = None\<rparr>"
  let ?d = "d\<lparr>dr_signature := Some example_signature\<rparr>"
  let ?sub = "\<lparr>ps_request = held_deposit, ps_balanceProof = dr_balanceProof d, ps_rangeProofs = dr_rangeProofs d,
           ps_signature = example_signature\<rparr>"
  have f: "fixed_of d = held_fixed opId oid" by (simp add: d_def fixed_of_def held_fixed_def)
  have owner: "req_owner held_deposit = address_of (CHR ''b'')" by (simp add: held_deposit_def example_deposit_def)
  have run: "prepareSubmission model_curve model_viem example_typed model_hpke (\<lambda>ops. ops) ?d empty_ports ()
      = (PreparedReady latest_block ?sub, ())"
    using held_signed [OF ids(1-3) f] empty_synchronized empty_preflight [OF ids(1)]
    by (simp add: prepareSubmission_def empty_ports_def d_def owner inputs_synced_def inputs_available_def held_outputs)
  from prepared_ready_safe [OF run] run show ?thesis
    by (intro exI [of _ ?d] exI [of _ ?sub]) simp
qed

end
