(* ===== verification/Decimal.thy ===== *)
theory Decimal
  imports Bytes
begin

text \<open>
  Decimal text: what \<open>BigInt(s)\<close> reads from a string of digits, what \<open>toString()\<close> writes for a bigint, and
  the padding of fraction digits.  The parsers of the payment package and the formatter of the web
  application are built on these.
\<close>

definition is_digit :: "char \<Rightarrow> bool" where
  "is_digit c = (let n = (of_char c :: nat) in 48 \<le> n \<and> n \<le> 57)"

definition digit_value :: "char \<Rightarrow> nat" where
  "digit_value c = (of_char c :: nat) - 48"

definition digit_char :: "nat \<Rightarrow> char" where
  "digit_char n = char_of (n + 48)"

definition dec_value :: "string \<Rightarrow> nat" where
  "dec_value ds = foldl (\<lambda>a c. a * 10 + digit_value c) 0 ds"

text \<open>\<open>BigInt(s)\<close> of a string of digits.\<close>

definition BigInt_dec :: "string \<Rightarrow> int" where
  "BigInt_dec s = int (dec_value s)"

text \<open>\<open>n.toString()\<close> of a bigint that is not negative.\<close>

fun toString10 :: "nat \<Rightarrow> string" where
  "toString10 n = (if n < 10 then [digit_char n] else toString10 (n div 10) @ [digit_char (n mod 10)])"

declare toString10.simps [simp del]

text \<open>The regular expression \<open>(0|[1-9][0-9]*)\<close>, anchored at both ends.\<close>

definition decimal_text :: "string \<Rightarrow> bool" where
  "decimal_text s \<longleftrightarrow> s = ''0'' \<or> (s \<noteq> [] \<and> hd s \<noteq> CHR ''0'' \<and> list_all is_digit s)"

definition padEnd :: "nat \<Rightarrow> char \<Rightarrow> string \<Rightarrow> string" where
  "padEnd n c s = s @ replicate (n - length s) c"

text \<open>\<open>s.replace(/0+$/, '')\<close>.\<close>

definition trim_zeros :: "string \<Rightarrow> string" where
  "trim_zeros s = rev (dropWhile (\<lambda>c. c = CHR ''0'') (rev s))"

section \<open>Digits\<close>

lemma digit_zero [simp]: "digit_value (CHR ''0'') = 0" "is_digit (CHR ''0'')" "digit_char 0 = CHR ''0''"
  by (simp_all add: digit_value_def is_digit_def digit_char_def char_of_def bit_Suc_0_iff)

lemma of_digit_char: "n < 10 \<Longrightarrow> (of_char (digit_char n) :: nat) = n + 48"
  by (simp add: digit_char_def)

lemma digit_char_props [simp]:
  assumes "n < 10"
  shows "is_digit (digit_char n)" and "digit_value (digit_char n) = n"
  using assms by (simp_all add: is_digit_def digit_value_def of_digit_char Let_def)

lemma digit_value_less: "is_digit c \<Longrightarrow> digit_value c < 10"
  by (auto simp: is_digit_def digit_value_def Let_def)

lemma digit_char_value [simp]: "is_digit c \<Longrightarrow> digit_char (digit_value c) = c"
  by (auto simp: is_digit_def digit_value_def digit_char_def Let_def)

lemma digit_value_0: "is_digit c \<Longrightarrow> digit_value c = 0 \<longleftrightarrow> c = CHR ''0''"
  using digit_char_value [of c] digit_zero(1,3) by metis

lemma foldl_dec: "foldl (\<lambda>a c. a * 10 + digit_value c) n ds = n * 10 ^ length ds + dec_value ds"
proof (induction ds arbitrary: n)
  case Nil
  show ?case by (simp add: dec_value_def)
next
  case (Cons c ds)
  have "dec_value (c # ds) = digit_value c * 10 ^ length ds + dec_value ds"
    by (simp add: dec_value_def [of "c # ds"] Cons.IH)
  moreover have "foldl (\<lambda>a c. a * 10 + digit_value c) n (c # ds) =
      (n * 10 + digit_value c) * 10 ^ length ds + dec_value ds"
    by (simp only: foldl_Cons Cons.IH)
  ultimately show ?case by (simp add: algebra_simps)
qed

lemma dec_value_Nil [simp]: "dec_value [] = 0"
  by (simp add: dec_value_def)

lemma dec_value_append: "dec_value (ds @ es) = dec_value ds * 10 ^ length es + dec_value es"
proof -
  have "dec_value (ds @ es) = foldl (\<lambda>a c. a * 10 + digit_value c) (dec_value ds) es"
    by (simp add: dec_value_def)
  then show ?thesis by (simp only: foldl_dec)
qed

lemma dec_value_single [simp]: "dec_value [c] = digit_value c"
  by (simp add: dec_value_def)

lemma dec_value_Cons: "dec_value (c # ds) = digit_value c * 10 ^ length ds + dec_value ds"
  using dec_value_append [of "[c]" ds] by simp

lemma dec_value_zeros [simp]: "dec_value (replicate n (CHR ''0'')) = 0"
  by (induction n) (simp_all add: dec_value_Cons)

lemma dec_value_bound: "list_all is_digit ds \<Longrightarrow> dec_value ds < 10 ^ length ds"
proof (induction ds)
  case Nil
  show ?case by simp
next
  case (Cons c ds)
  have "digit_value c \<le> 9" using Cons.prems digit_value_less [of c] by simp
  then have "digit_value c * 10 ^ length ds \<le> 9 * 10 ^ length ds"
    by (rule mult_le_mono1)
  moreover have "dec_value ds < 10 ^ length ds" using Cons by simp
  ultimately have "dec_value (c # ds) < 10 * 10 ^ length ds"
    unfolding dec_value_Cons by linarith
  then show ?case by simp
qed

section \<open>Reading what is written\<close>

lemma dec_value_toString10 [simp]: "dec_value (toString10 n) = n"
proof (induction n rule: toString10.induct)
  case (1 n)
  show ?case by (subst toString10.simps) (auto simp: dec_value_append 1)
qed

lemma digits_toString10 [simp]: "list_all is_digit (toString10 n)"
proof (induction n rule: toString10.induct)
  case (1 n)
  show ?case by (subst toString10.simps) (auto simp: 1)
qed

lemma toString10_nonempty [simp]: "toString10 n \<noteq> []"
  by (subst toString10.simps) auto

lemma hd_toString10: "n > 0 \<Longrightarrow> hd (toString10 n) \<noteq> CHR ''0''"
proof (induction n rule: toString10.induct)
  case (1 n)
  show ?case
  proof (cases "n < 10")
    case True
    with 1(2) show ?thesis
      using digit_value_0 [of "digit_char n"] by (subst toString10.simps) simp
  next
    case False
    with 1 show ?thesis by (subst toString10.simps) simp
  qed
qed

lemma toString10_0 [simp]: "toString10 0 = ''0''"
  by (subst toString10.simps) simp

lemma decimal_text_toString10 [simp]: "decimal_text (toString10 n)"
  by (cases "n = 0") (simp_all add: decimal_text_def hd_toString10)

lemma decimal_text_digits: "decimal_text s \<Longrightarrow> list_all is_digit s"
  by (auto simp: decimal_text_def)

section \<open>Writing what was read\<close>

lemma toString10_append: "n > 0 \<Longrightarrow> d < 10 \<Longrightarrow> toString10 (n * 10 + d) = toString10 n @ [digit_char d]"
  by (subst toString10.simps) simp

lemma toString10_dec_value:
  assumes "list_all is_digit s" and "s \<noteq> []" and "hd s \<noteq> CHR ''0''"
  shows "toString10 (dec_value s) = s \<and> dec_value s > 0"
  using assms
proof (induction s rule: rev_induct)
  case (snoc c s)
  have c: "is_digit c" "digit_value c < 10" using snoc.prems digit_value_less by simp_all
  show ?case
  proof (cases "s = []")
    case True
    with snoc.prems c digit_value_0 [of c] show ?thesis
      using toString10.simps [of "digit_value c"] by simp
  next
    case False
    with snoc have IH: "toString10 (dec_value s) = s" "dec_value s > 0" by simp_all
    have "toString10 (dec_value s * 10 + digit_value c) = s @ [c]"
      using toString10_append [OF IH(2) c(2)] IH(1) c(1) by simp
    with IH(2) show ?thesis by (simp add: dec_value_append)
  qed
qed simp

lemma toString10_BigInt: "decimal_text s \<Longrightarrow> toString10 (dec_value s) = s"
  using toString10_dec_value [of s] by (auto simp: decimal_text_def)

text \<open>Decimal text without superfluous zeros is determined by its value.\<close>

lemma decimal_text_inj: "decimal_text s \<Longrightarrow> decimal_text t \<Longrightarrow> dec_value s = dec_value t \<Longrightarrow> s = t"
  by (metis toString10_BigInt)

section \<open>Fractions\<close>

lemma length_padEnd: "length (padEnd n c s) = max n (length s)"
  by (simp add: padEnd_def)

lemma digits_padEnd: "list_all is_digit s \<Longrightarrow> list_all is_digit (padEnd n (CHR ''0'') s)"
  by (simp add: padEnd_def list_all_length nth_append)

lemma trim_zeros_split: "\<exists>k. s = trim_zeros s @ replicate k (CHR ''0'')"
proof -
  let ?zero = "\<lambda>c. c = CHR ''0''"
  let ?z = "takeWhile ?zero (rev s)"
  have "set ?z \<subseteq> {CHR ''0''}" by (auto dest: set_takeWhileD)
  then have z: "?z = replicate (length ?z) (CHR ''0'')"
    by (intro replicate_eqI) auto
  have "s = rev (?z @ dropWhile ?zero (rev s))" by simp
  also have "\<dots> = trim_zeros s @ rev ?z" by (simp only: rev_append trim_zeros_def)
  also have "rev ?z = replicate (length ?z) (CHR ''0'')"
    using arg_cong [OF z, of rev] by simp
  finally show ?thesis by blast
qed

lemma trim_zeros_length: "length (trim_zeros s) \<le> length s"
  using trim_zeros_split [of s] by (metis le_add1 length_append)

lemma trim_zeros_digits: "list_all is_digit s \<Longrightarrow> list_all is_digit (trim_zeros s)"
  using trim_zeros_split [of s] by (metis list_all_append)

lemma trim_zeros_padEnd: "length s = n \<Longrightarrow> padEnd n (CHR ''0'') (trim_zeros s) = s"
proof -
  assume n: "length s = n"
  obtain k where k: "s = trim_zeros s @ replicate k (CHR ''0'')" using trim_zeros_split by blast
  then have "length s = length (trim_zeros s) + k" by (metis length_append length_replicate)
  then have "n - length (trim_zeros s) = k" using n by simp
  then show ?thesis using k by (simp add: padEnd_def)
qed

lemma dec_value_pad: "dec_value (padEnd n (CHR ''0'') s) = dec_value s * 10 ^ (n - length s)"
  by (simp add: padEnd_def dec_value_append)

lemma dec_value_padStart [simp]: "dec_value (padStart n (CHR ''0'') s) = dec_value s"
  by (simp add: padStart_def dec_value_append)

lemma length_padStart: "length (padStart n c s) = max n (length s)"
  by (simp add: padStart_def)

lemma digits_padStart: "list_all is_digit s \<Longrightarrow> list_all is_digit (padStart n (CHR ''0'') s)"
  by (simp add: padStart_def list_all_length nth_append)

text \<open>A number below \<open>10^n\<close> is written in at most \<open>n\<close> digits.\<close>

lemma toString10_length: "m < 10 ^ n \<Longrightarrow> 0 < n \<Longrightarrow> length (toString10 m) \<le> n"
proof (induction m arbitrary: n rule: toString10.induct)
  case (1 m)
  show ?case
  proof (cases "m < 10")
    case True
    with 1(3) show ?thesis by (subst toString10.simps) simp
  next
    case False
    then obtain k where n: "n = Suc k" and k: "0 < k" using 1(2,3) by (cases n; cases "n - 1") auto
    have "m div 10 < 10 ^ k" using 1(2) by (simp add: n less_mult_imp_div_less mult.commute)
    from 1(1) [OF False this k] False show ?thesis by (subst toString10.simps) (simp add: n)
  qed
qed

end
