(* ===== verification/JsValue.thy ===== *)
theory JsValue
  imports Decimal Effects Complex_Main
begin

text \<open>
  \<open>packages/uniswap/src/domain.ts\<close>, \<open>storage.ts\<close> and \<open>schema.ts\<close>: the values the payment package exchanges,
  and the parsers that read them from an untrusted \<open>unknown\<close>.

  An \<open>unknown\<close> is a JavaScript value: a JSON value or \<open>undefined\<close>.  A \<open>number\<close> is finite (a rational) or one of
  the values that \<open>Number.isFinite\<close> rejects.
\<close>

datatype js_number = Finite rat | NotFinite

datatype js_value =
    JUndefined
  | JNull
  | JBoolean bool
  | JNumber js_number
  | JString string
  | JArray "js_value list"
  | JObject "(string \<times> js_value) list"

text \<open>\<open>object.name\<close>: a missing property reads as \<open>undefined\<close>.\<close>

definition property :: "(string \<times> js_value) list \<Rightarrow> string \<Rightarrow> js_value" where
  "property entries name = (case map_of entries name of None \<Rightarrow> JUndefined | Some v \<Rightarrow> v)"

section \<open>Errors of the package\<close>

datatype SchemaErrorCode =
    INVALID_OBJECT | INVALID_DECIMAL | INVALID_BYTES32 | INVALID_ADDRESS | INVALID_REVISION
  | INVALID_FIELD | EMPTY_AMOUNT | ZERO_AMOUNT | AMOUNT_OVERFLOW

datatype StoreErrorCode =
    STORE_CONFLICT | STORE_REVISION_CONFLICT | STORE_UNAVAILABLE | STORE_NOT_FOUND
  | STORE_PENDING_REQUEST | STORE_NOT_FINALIZED

datatype ProcessErrorCode =
    TERMS_CHANGED | SCOPE_CHANGED | QUOTE_STALE | TERMS_EXPIRED | INPUT_RESERVED | INPUT_INVALID
  | RECOVERY_BLOCKED | RECOVERY_UNAVAILABLE

text \<open>Every value the package throws: its three error classes, a failure of the core that passes through,
  the \<open>TypeError\<close> of a read from \<open>undefined\<close>, and whatever a port or a library throws.\<close>

datatype pay_error =
    SchemaError SchemaErrorCode "string option"
  | StoreError StoreErrorCode
  | PaymentProcessError ProcessErrorCode
  | CoreError failure
  | TypeError
  | PortError string

type_synonym 'a pay_res = "pay_error + 'a"

definition invalid_field :: "string \<Rightarrow> pay_error" where
  "invalid_field field = SchemaError INVALID_FIELD (Some field)"

section \<open>Domain and storage\<close>

type_synonym Address = string
type_synonym Bytes32 = string
type_synonym DeploymentId = string
type_synonym OperationId = string
type_synonym PaymentId = string
type_synonym AttemptId = string
type_synonym RequestId = string
type_synonym TxHash = string
type_synonym InputId = string

record Scope =
  sc_deploymentId :: DeploymentId
  sc_owner :: Address

datatype ChainOutcome =
  not_submitted | chain_pending | finalized_success | finalized_failure | chain_unknown

datatype ReceiptProgress = receipt_none | receipt_pending | receipt_confirmed | receipt_invalid

record OperationRef =
  ref_scope :: Scope
  ref_operationId :: OperationId
  ref_paymentId :: "PaymentId option"
  ref_attemptIds :: "AttemptId list"
  ref_txHashes :: "TxHash list"
  ref_chainOutcome :: ChainOutcome
  ref_receiptState :: ReceiptProgress

record EncryptedBundle =
  eb_ciphertext :: string
  eb_nonce :: string
  eb_tag :: string

record ReservationBase =
  rb_recordId :: Bytes32
  rb_scope :: Scope
  rb_inputId :: InputId
  rb_operationId :: OperationId
  rb_contentHash :: Bytes32
  rb_encryptedBundle :: EncryptedBundle
  rb_signatureStarted :: bool
  rb_attemptIds :: "AttemptId list"

text \<open>The discriminant \<open>kind\<close> with the entries that only its variant has.\<close>

datatype record_kind = Pay PaymentId int | Withdraw

record OperationRecord = ReservationBase +
  rec_kind :: record_kind

fun is_pay :: "record_kind \<Rightarrow> bool" where
  "is_pay (Pay _ _) = True"
| "is_pay Withdraw = False"

record SavedOperation =
  so_record :: OperationRecord
  so_revision :: int

datatype OperationStatus =
  st_reserved | st_unknown | st_released | st_consumed | st_finalized_success

record FinalizedCheckpoint =
  fc_blockNumber :: string
  fc_blockHash :: Bytes32
  fc_blockTimestamp :: string

record StoredOperation = SavedOperation +
  st_status :: OperationStatus
  st_stateVersion :: int
  st_checkpoint :: "FinalizedCheckpoint option"

record SignedRecipientInfo =
  sri_owner :: Address
  sri_publicKey :: Bytes32
  sri_signature :: string

record RewardRequest =
  rr_scope :: Scope
  rr_requestId :: RequestId
  rr_amountWei :: int
  rr_recipientInfo :: SignedRecipientInfo

datatype RewardStatus =
    rw_accepted | rw_queued | rw_processing | rw_pending | rw_unknown | rw_finalized | rw_received
  | rw_ended

datatype RewardAvailability =
    ra_healthy | ra_rpc_unavailable | ra_funds_short | ra_gas_short | ra_operator_stopped
  | ra_quota_stopped | ra_restore_stopped

record RewardRecord = RewardRequest +
  rw_status :: RewardStatus
  rw_availability :: "RewardAvailability option"
  rw_checkedAtBlockHash :: "Bytes32 option"
  rw_operationId :: "OperationId option"
  rw_attemptIds :: "AttemptId list"
  rw_txHashes :: "TxHash list"
  rw_outputId :: "Bytes32 option"
  rw_blockHash :: "Bytes32 option"

section \<open>Parsers of untrusted values\<close>

text \<open>\<open>Number.isSafeInteger\<close>.\<close>

fun safe_integer :: "js_number \<Rightarrow> bool" where
  "safe_integer NotFinite = False"
| "safe_integer (Finite r) = (of_int \<lfloor>r\<rfloor> = r \<and> isSafeInteger \<lfloor>r\<rfloor>)"

fun integer_of :: "js_number \<Rightarrow> int" where
  "integer_of NotFinite = 0"
| "integer_of (Finite r) = \<lfloor>r\<rfloor>"

definition parseJsonObject :: "js_value \<Rightarrow> string option \<Rightarrow> (string \<times> js_value) list pay_res" where
  "parseJsonObject value field = (case value of
     JObject entries \<Rightarrow> Inr entries
   | _ \<Rightarrow> Inl (SchemaError INVALID_OBJECT field))"

definition parseUintString :: "js_value \<Rightarrow> string option \<Rightarrow> int option \<Rightarrow> int pay_res" where
  "parseUintString value field limit = (case value of
     JString s \<Rightarrow>
       if \<not> decimal_text s then Inl (SchemaError INVALID_DECIMAL field)
       else (case limit of
               Some m \<Rightarrow> if BigInt_dec s > m then Inl (SchemaError INVALID_DECIMAL field) else Inr (BigInt_dec s)
             | None \<Rightarrow> Inr (BigInt_dec s))
   | _ \<Rightarrow> Inl (SchemaError INVALID_DECIMAL field))"

definition parseBytes32 :: "js_value \<Rightarrow> string option \<Rightarrow> Bytes32 pay_res" where
  "parseBytes32 value field = (case value of
     JString s \<Rightarrow> if bytes s 32 then Inr (toLowerCase s) else Inl (SchemaError INVALID_BYTES32 field)
   | _ \<Rightarrow> Inl (SchemaError INVALID_BYTES32 field))"

definition parseAddress :: "js_value \<Rightarrow> string option \<Rightarrow> Address pay_res" where
  "parseAddress value field = (case value of
     JString s \<Rightarrow> if bytes s 20 then Inr s else Inl (SchemaError INVALID_ADDRESS field)
   | _ \<Rightarrow> Inl (SchemaError INVALID_ADDRESS field))"

definition parseRevision :: "js_value \<Rightarrow> string option \<Rightarrow> int pay_res" where
  "parseRevision value field = (case value of
     JNumber n \<Rightarrow> if \<not> safe_integer n \<or> integer_of n < 0 then Inl (SchemaError INVALID_REVISION field)
                  else Inr (integer_of n)
   | _ \<Rightarrow> Inl (SchemaError INVALID_REVISION field))"

definition parseString :: "js_value \<Rightarrow> string \<Rightarrow> string pay_res" where
  "parseString value field = (case value of
     JString s \<Rightarrow> if s = [] then Inl (invalid_field field) else Inr s
   | _ \<Rightarrow> Inl (invalid_field field))"

definition parseTimestamp :: "js_value \<Rightarrow> string \<Rightarrow> int pay_res" where
  "parseTimestamp value field = (case value of
     JNumber n \<Rightarrow> if \<not> safe_integer n \<or> integer_of n < 0 then Inl (invalid_field field)
                  else Inr (integer_of n)
   | _ \<Rightarrow> Inl (invalid_field field))"

section \<open>What the parsers accept\<close>

named_theorems parser_simps \<open>the values each parser accepts and what it returns\<close>

lemma parseJsonObject_eq_Inr [parser_simps]: "parseJsonObject v f = Inr entries \<longleftrightarrow> v = JObject entries"
  by (cases v) (auto simp: parseJsonObject_def)

lemma parseUintString_eq_Inr [parser_simps]:
  "parseUintString v f m = Inr n \<longleftrightarrow>
   (\<exists>s. v = JString s \<and> decimal_text s \<and> n = BigInt_dec s \<and> (case m of None \<Rightarrow> True | Some b \<Rightarrow> n \<le> b))"
  by (cases v) (auto simp: parseUintString_def split: option.splits)

lemma parseBytes32_eq_Inr [parser_simps]:
  "parseBytes32 v f = Inr b \<longleftrightarrow> (\<exists>s. v = JString s \<and> bytes s 32 \<and> b = toLowerCase s)"
  by (cases v) (auto simp: parseBytes32_def)

lemma parseAddress_eq_Inr [parser_simps]:
  "parseAddress v f = Inr a \<longleftrightarrow> v = JString a \<and> bytes a 20"
  by (cases v) (auto simp: parseAddress_def)

lemma parseRevision_eq_Inr [parser_simps]:
  "parseRevision v f = Inr n \<longleftrightarrow> (\<exists>x. v = JNumber x \<and> safe_integer x \<and> 0 \<le> n \<and> n = integer_of x)"
  by (cases v) (auto simp: parseRevision_def)

lemma parseString_eq_Inr [parser_simps]: "parseString v f = Inr s \<longleftrightarrow> v = JString s \<and> s \<noteq> []"
  by (cases v) (auto simp: parseString_def)

lemma parseTimestamp_eq_Inr [parser_simps]:
  "parseTimestamp v f = Inr n \<longleftrightarrow> (\<exists>x. v = JNumber x \<and> safe_integer x \<and> 0 \<le> n \<and> n = integer_of x)"
  by (cases v) (auto simp: parseTimestamp_def)

lemma bytes_lower:
  assumes "bytes s n"
  shows "bytes (toLowerCase s) n"
proof -
  have hex: "is_hex (lower_char c) \<longleftrightarrow> is_hex c" for c
    by (auto simp: is_hex_def lower_char_def Let_def)
  from assms obtain ds where "s = ''0x'' @ ds" "length ds = 2 * n" "list_all is_hex ds"
    by (rule bytesD)
  then show ?thesis
    by (simp add: bytes_def toLowerCase_def list_all_length hex) (simp add: lower_char_def)
qed

text \<open>Numbers that are safe integers are read back as the integer they denote.\<close>

lemma safe_integer_of_int [simp]: "safe_integer (Finite (of_int n)) \<longleftrightarrow> isSafeInteger n"
  and integer_of_of_int [simp]: "integer_of (Finite (of_int n)) = n"
  by simp_all

lemma safe_integer_range: "safe_integer x \<Longrightarrow> isSafeInteger (integer_of x)"
  by (cases x) auto

end
