(* ===== verification/PayAmount.thy ===== *)
theory PayAmount
  imports JsValue "HOL-Library.Product_Lexorder"
begin

text \<open>
  \<open>packages/uniswap/src/amount.ts\<close>, \<open>selection.ts\<close> and \<open>quote.ts\<close>: reading an ETH amount, choosing the coin a
  payment spends, and the quote with the terms proposed from it.  \<open>formatEth\<close> of
  \<open>apps/uniswap-web/src/site/format.ts\<close> is the writer that the amount parser reads back.
\<close>

section \<open>Amounts\<close>

definition WEI_PER_ETH :: int where
  "WEI_PER_ETH = 10 ^ 18"

definition UINT256_MAX :: int where
  "UINT256_MAX = 2 ^ 256 - 1"

definition UINT64_MAX :: int where
  "UINT64_MAX = 2 ^ 64 - 1"

text \<open>The groups of \<open>/^(0|[1-9][0-9]*)(?:\.([0-9]{1,18}))?$/\<close>: the whole part and the fraction, empty when absent.\<close>

definition ETH_DECIMAL :: "string \<Rightarrow> (string \<times> string) option" where
  "ETH_DECIMAL s =
     (let whole = takeWhile (\<lambda>c. c \<noteq> CHR ''.'') s; rest = dropWhile (\<lambda>c. c \<noteq> CHR ''.'') s
      in if \<not> decimal_text whole then None
         else case rest of
           [] \<Rightarrow> Some (whole, [])
         | _ # fraction \<Rightarrow>
             if fraction \<noteq> [] \<and> length fraction \<le> 18 \<and> list_all is_digit fraction then Some (whole, fraction) else None)"

definition parseEthAmount :: "string \<Rightarrow> int pay_res" where
  "parseEthAmount s =
     (if s = [] then Inl (SchemaError EMPTY_AMOUNT (Some ''amount''))
      else case ETH_DECIMAL s of
        None \<Rightarrow> Inl (SchemaError INVALID_DECIMAL (Some ''amount''))
      | Some (whole, fraction) \<Rightarrow>
          let wei = BigInt_dec whole * WEI_PER_ETH + BigInt_dec (padEnd 18 (CHR ''0'') fraction)
          in if wei = 0 then Inl (SchemaError ZERO_AMOUNT (Some ''amount''))
             else if wei > UINT256_MAX then Inl (SchemaError AMOUNT_OVERFLOW (Some ''amount''))
             else Inr wei)"

definition automaticMinimum :: "int \<Rightarrow> int pay_res" where
  "automaticMinimum quoteOut =
     (if quoteOut \<le> 0 \<or> quoteOut > UINT256_MAX then Inl (SchemaError INVALID_DECIMAL (Some ''quoteOut''))
      else let minimum = quoteOut * 99 div 100 in Inr (if minimum > 0 then minimum else 1))"

definition formatEth :: "int \<Rightarrow> string" where
  "formatEth wei =
     (let sgn = (if wei < 0 then ''-'' else ''''); absolute = (if wei < 0 then - wei else wei);
          whole = absolute div 10 ^ 18;
          fraction = trim_zeros (padStart 18 (CHR ''0'') (toString10 (nat (absolute mod 10 ^ 18))))
      in sgn @ toString10 (nat whole) @ (if fraction = [] then [] else CHR ''.'' # fraction))"

section \<open>The input of a payment\<close>

datatype PayInputState = pay_available | pay_pending | pay_receipt_invalid | pay_unknown | pay_reserved

record PayInput =
  pi_id :: InputId
  pi_valueWei :: int
  pi_owner :: Address
  pi_state :: PayInputState

text \<open>The inputs that the loop does not skip.\<close>

definition pay_candidate :: "int \<Rightarrow> Address \<Rightarrow> PayInput \<Rightarrow> bool" where
  "pay_candidate paymentWei owner input \<longleftrightarrow>
     \<not> (\<not> sameText (pi_owner input) owner \<or> pi_state input \<noteq> pay_available \<or> pi_valueWei input \<le> paymentWei)"

definition pick_input :: "PayInput option \<Rightarrow> PayInput \<Rightarrow> PayInput option" where
  "pick_input selected input = (case selected of
     None \<Rightarrow> Some input
   | Some s \<Rightarrow>
       if pi_valueWei input < pi_valueWei s \<or>
          (pi_valueWei input = pi_valueWei s \<and> BigInt_hex (pi_id input) < BigInt_hex (pi_id s))
       then Some input else selected)"

definition selectPayInput :: "PayInput list \<Rightarrow> int \<Rightarrow> Address \<Rightarrow> PayInput option" where
  "selectPayInput inputs paymentWei owner =
     (if paymentWei \<le> 0 then None
      else foldl (\<lambda>selected input. if pay_candidate paymentWei owner input then pick_input selected input else selected)
             None inputs)"

section \<open>Quotes\<close>

record RouteAddresses =
  ra_weth :: Address
  ra_dusd :: Address

record QuoteResponse =
  qr_blockHash :: Bytes32
  qr_blockNumber :: int
  qr_amounts :: "int list"

record 'w QuoteReader =
  getAmountsOut :: "int \<Rightarrow> Address \<times> Address \<Rightarrow> ('w, pay_error, QuoteResponse) run"

record 'w MonotonicClock =
  clock_now :: "('w, pay_error, js_number) run"

record PayQuote =
  pq_startedAtMs :: js_number
  pq_blockHash :: Bytes32
  pq_blockNumber :: int
  pq_inputWei :: int
  pq_quoteOut :: int

definition fetchPayQuote ::
  "'w QuoteReader \<Rightarrow> int \<Rightarrow> RouteAddresses \<Rightarrow> 'w MonotonicClock \<Rightarrow> ('w, pay_error, PayQuote) run" where
  "fetchPayQuote reader inputWei deployment clock =
     (if inputWei \<le> 0 then ethrow (SchemaError INVALID_DECIMAL (Some ''inputWei''))
      else ebind (clock_now clock) (\<lambda>startedAtMs.
        if startedAtMs = NotFinite then ethrow (invalid_field ''startedAtMs'')
        else ebind (getAmountsOut reader inputWei (ra_weth deployment, ra_dusd deployment)) (\<lambda>response.
          ebind (elift (parseBytes32 (JString (qr_blockHash response)) (Some ''blockHash''))) (\<lambda>blockHash.
            if qr_blockNumber response < 0 \<or> length (qr_amounts response) \<noteq> 2 \<or>
               qr_amounts response ! 0 \<noteq> inputWei \<or> qr_amounts response ! 1 \<le> 0
            then ethrow (invalid_field ''quote'')
            else ereturn \<lparr>pq_startedAtMs = startedAtMs, pq_blockHash = blockHash,
                   pq_blockNumber = qr_blockNumber response, pq_inputWei = inputWei,
                   pq_quoteOut = qr_amounts response ! 1\<rparr>))))"

definition FRESH_MS :: rat where
  "FRESH_MS = 30000"

definition isQuoteFresh :: "PayQuote \<Rightarrow> js_number \<Rightarrow> bool" where
  "isQuoteFresh quote nowMs = (case (nowMs, pq_startedAtMs quote) of
     (Finite n, Finite s) \<Rightarrow> n - s \<ge> 0 \<and> n - s \<le> FRESH_MS
   | _ \<Rightarrow> False)"

definition defaultTerms :: "PayQuote \<Rightarrow> int \<Rightarrow> (int \<times> int) pay_res" where
  "defaultTerms quote latestBlockTime =
     (if latestBlockTime < 0 \<or> latestBlockTime > UINT64_MAX - 600 then Inl (invalid_field ''latestBlockTime'')
      else rbind (automaticMinimum (pq_quoteOut quote)) (\<lambda>minAmountOut.
           Inr (minAmountOut, latestBlockTime + 600)))"

section \<open>Correctness of amounts\<close>

lemma takeWhile_dot:
  assumes "list_all is_digit w"
  shows "takeWhile (\<lambda>c. c \<noteq> CHR ''.'') (w @ CHR ''.'' # f) = w"
    and "dropWhile (\<lambda>c. c \<noteq> CHR ''.'') (w @ CHR ''.'' # f) = CHR ''.'' # f"
    and "takeWhile (\<lambda>c. c \<noteq> CHR ''.'') w = w" and "dropWhile (\<lambda>c. c \<noteq> CHR ''.'') w = []"
proof -
  have "c \<noteq> CHR ''.''" if "c \<in> set w" for c
    using that assms by (auto simp: list_all_iff is_digit_def)
  then show "takeWhile (\<lambda>c. c \<noteq> CHR ''.'') (w @ CHR ''.'' # f) = w"
    and "dropWhile (\<lambda>c. c \<noteq> CHR ''.'') (w @ CHR ''.'' # f) = CHR ''.'' # f"
    and "takeWhile (\<lambda>c. c \<noteq> CHR ''.'') w = w" and "dropWhile (\<lambda>c. c \<noteq> CHR ''.'') w = []"
    by auto
qed

lemma ETH_DECIMAL_eq_Some:
  "ETH_DECIMAL s = Some (whole, fraction) \<longleftrightarrow>
   decimal_text whole \<and> list_all is_digit fraction \<and> length fraction \<le> 18 \<and>
   s = whole @ (if fraction = [] then [] else CHR ''.'' # fraction)"  (is "?l \<longleftrightarrow> ?r")
proof
  assume ?l
  have s: "s = takeWhile (\<lambda>c. c \<noteq> CHR ''.'') s @ dropWhile (\<lambda>c. c \<noteq> CHR ''.'') s" by simp
  from \<open>?l\<close> show ?r
  proof (cases "dropWhile (\<lambda>c. c \<noteq> CHR ''.'') s")
    case Nil
    with \<open>?l\<close> s show ?thesis by (auto simp: ETH_DECIMAL_def Let_def split: if_splits)
  next
    case (Cons c cs)
    then have "c = CHR ''.''" using hd_dropWhile [of "\<lambda>c. c \<noteq> CHR ''.''" s] by force
    with Cons \<open>?l\<close> s show ?thesis by (auto simp: ETH_DECIMAL_def Let_def split: if_splits)
  qed
next
  assume ?r
  then show ?l
    using takeWhile_dot [OF decimal_text_digits [of whole]]
    by (auto simp: ETH_DECIMAL_def Let_def)
qed

text \<open>The amount a pair of digit groups denotes.\<close>

definition eth_amount :: "string \<Rightarrow> string \<Rightarrow> rat" where
  "eth_amount whole fraction = of_nat (dec_value whole) + of_nat (dec_value fraction) / 10 ^ length fraction"

lemma wei_of_groups:
  assumes "length fraction \<le> 18"
  shows "of_int (BigInt_dec whole * WEI_PER_ETH + BigInt_dec (padEnd 18 (CHR ''0'') fraction)) =
         eth_amount whole fraction * 10 ^ 18"
proof -
  have "(10 :: rat) ^ 18 = 10 ^ (18 - length fraction) * 10 ^ length fraction"
    using assms by (simp only: power_add [symmetric] le_add_diff_inverse2)
  moreover have "of_nat (dec_value fraction) / 10 ^ length fraction * (b * (10 :: rat) ^ length fraction) =
      of_nat (dec_value fraction) * b" for b
    by simp
  ultimately have "of_nat (dec_value fraction) / 10 ^ length fraction * (10 :: rat) ^ 18 =
      of_nat (dec_value fraction) * 10 ^ (18 - length fraction)"
    by (simp only:)
  then show ?thesis
    by (simp only: BigInt_dec_def WEI_PER_ETH_def eth_amount_def dec_value_pad distrib_right) simp
qed

text \<open>C22: An ETH amount is accepted exactly when it is a decimal numeral without superfluous zeros, with at most
  eighteen fraction digits, of a positive amount that fits 256 bits of wei, and the result is that amount.\<close>

theorem eth_amount_exact:
  "parseEthAmount s = Inr wei \<longleftrightarrow>
   (\<exists>whole fraction. decimal_text whole \<and> list_all is_digit fraction \<and> length fraction \<le> 18 \<and>
      s = whole @ (if fraction = [] then [] else CHR ''.'' # fraction) \<and>
      of_int wei = eth_amount whole fraction * 10 ^ 18 \<and> 0 < wei \<and> wei \<le> UINT256_MAX)"
proof -
  have pos: "0 \<le> BigInt_dec x" for x by (simp add: BigInt_dec_def)
  have wp: "0 \<le> WEI_PER_ETH" by (simp add: WEI_PER_ETH_def)
  let ?wei = "\<lambda>w f. BigInt_dec w * WEI_PER_ETH + BigInt_dec (padEnd 18 (CHR ''0'') f)"
  have nonneg: "0 \<le> ?wei w f" for w f using pos wp by simp
  have eq: "of_int n = eth_amount w f * 10 ^ 18 \<longleftrightarrow> n = ?wei w f" if "length f \<le> 18" for n w f
    using wei_of_groups [OF that, of w] of_int_eq_iff [where ?'a = rat] by metis
  have "parseEthAmount s = Inr wei \<longleftrightarrow>
      (\<exists>w f. ETH_DECIMAL s = Some (w, f) \<and> wei = ?wei w f \<and> 0 < wei \<and> wei \<le> UINT256_MAX)"
  proof (cases "ETH_DECIMAL s")
    case None
    then show ?thesis by (simp add: parseEthAmount_def)
  next
    case (Some wf)
    obtain w f where wf: "wf = (w, f)" by (cases wf)
    have "s \<noteq> []" using Some by (auto simp: ETH_DECIMAL_def decimal_text_def)
    with Some show ?thesis
      using nonneg [of w f] by (auto simp: parseEthAmount_def wf Let_def)
  qed
  also have "\<dots> \<longleftrightarrow> (\<exists>w f. decimal_text w \<and> list_all is_digit f \<and> length f \<le> 18 \<and>
      s = w @ (if f = [] then [] else CHR ''.'' # f) \<and> of_int wei = eth_amount w f * 10 ^ 18 \<and>
      0 < wei \<and> wei \<le> UINT256_MAX)"
    using eq by (simp only: ETH_DECIMAL_eq_Some) blast
  finally show ?thesis .
qed

text \<open>C23: Every amount that fits is read back from what \<open>formatEth\<close> writes for it.\<close>

theorem eth_amount_roundtrip:
  assumes "0 < wei" and "wei \<le> UINT256_MAX"
  shows "parseEthAmount (formatEth wei) = Inr wei"
proof -
  let ?digits = "padStart 18 (CHR ''0'') (toString10 (nat (wei mod 10 ^ 18)))"
  let ?f = "trim_zeros ?digits"
  let ?w = "toString10 (nat (wei div 10 ^ 18))"
  have len: "length ?digits = 18"
    using toString10_length [of "nat (wei mod 10 ^ 18)" 18] by (simp add: length_padStart nat_less_iff)
  have "formatEth wei = ?w @ (if ?f = [] then [] else CHR ''.'' # ?f)"
    using assms(1) by (simp add: formatEth_def Let_def)
  moreover have "list_all is_digit ?f" by (simp add: trim_zeros_digits digits_padStart)
  moreover have "length ?f \<le> 18" using trim_zeros_length [of ?digits] len by simp
  ultimately have "ETH_DECIMAL (formatEth wei) = Some (?w, ?f)"
    by (simp add: ETH_DECIMAL_eq_Some)
  moreover have "BigInt_dec ?w * WEI_PER_ETH + BigInt_dec (padEnd 18 (CHR ''0'') ?f) = wei"
    using assms(1) by (simp add: BigInt_dec_def WEI_PER_ETH_def trim_zeros_padEnd [OF len, simplified] pos_imp_zdiv_nonneg_iff)
  moreover have "formatEth wei \<noteq> []"
    using assms(1) by (simp add: formatEth_def Let_def)
  ultimately show ?thesis using assms by (simp add: parseEthAmount_def Let_def)
qed

theorem eth_amount_roundtrip_witness: "parseEthAmount (formatEth 1500000000000000000) = Inr 1500000000000000000"
  by (rule eth_amount_roundtrip) (simp_all add: UINT256_MAX_def)

section \<open>Correctness of the input selection\<close>

definition input_rank :: "PayInput \<Rightarrow> int \<times> int" where
  "input_rank c = (pi_valueWei c, BigInt_hex (pi_id c))"

lemma pick_input_rank:
  "pick_input (Some s) c = Some (if input_rank c < input_rank s then c else s)"
  by (auto simp: pick_input_def input_rank_def)

lemma hd_insort_key: "hd (insort_key f a xs) = (if xs = [] \<or> f a \<le> f (hd xs) then a else hd xs)"
  by (cases xs) auto

lemma pick_inputs:
  "foldl pick_input (Some a) xs = Some (hd (sort_key input_rank (a # xs)))"
proof (induction xs arbitrary: a)
  case Nil
  show ?case by simp
next
  case (Cons c xs)
  show ?case
    by (simp add: pick_input_rank Cons.IH hd_insort_key)
qed

lemma foldl_filter: "foldl (\<lambda>s x. if P x then g s x else s) s xs = foldl g s (filter P xs)"
  by (induction xs arbitrary: s) auto

text \<open>C24: The loop of the payment's input selection returns the head of the stable sort, by amount and then by
  identifier, of the owner's available inputs that exceed the payment; without one there is no selection.\<close>

theorem pay_input_reference:
  "selectPayInput inputs paymentWei owner =
     (if paymentWei \<le> 0 then None
      else case sort_key input_rank (filter (pay_candidate paymentWei owner) inputs) of
        [] \<Rightarrow> None | best # _ \<Rightarrow> Some best)"
proof (cases "filter (pay_candidate paymentWei owner) inputs")
  case Nil
  then show ?thesis by (simp add: selectPayInput_def foldl_filter)
next
  case (Cons c cs)
  have "pick_input None c = Some c" by (simp add: pick_input_def)
  moreover have "sort_key input_rank (c # cs) \<noteq> []" by simp
  ultimately show ?thesis
    by (simp add: selectPayInput_def foldl_filter Cons pick_inputs split: list.split)
qed

section \<open>Correctness of quotes and terms\<close>

lemma if_Inl_eq_Inr: "(if a then Inl e else Inr x) = Inr m \<longleftrightarrow> \<not> a \<and> m = x"
  and if_Inl_else_eq_Inr: "(if a then Inl e else t) = Inr m \<longleftrightarrow> \<not> a \<and> t = Inr m"
  by auto

lemma automaticMinimum_eq_Inr:
  "automaticMinimum q = Inr m \<longleftrightarrow>
   (0 < q \<and> q \<le> UINT256_MAX) \<and> m = (if q * 99 div 100 > 0 then q * 99 div 100 else 1)"
  by (simp only: automaticMinimum_def Let_def if_Inl_eq_Inr de_Morgan_disj not_le not_less)

lemma defaultTerms_eq_Inr:
  "defaultTerms quote now = Inr (m, d) \<longleftrightarrow>
   (0 \<le> now \<and> now \<le> UINT64_MAX - 600) \<and> automaticMinimum (pq_quoteOut quote) = Inr m \<and> d = now + 600"
  by (simp only: defaultTerms_def if_Inl_else_eq_Inr de_Morgan_disj not_le not_less rbind_eq_Inr) auto

lemma percent_floor:
  fixes d q m :: int
  assumes "100 * d \<le> 99 * q" and "99 * q < 100 * (d + 1)" and "0 < q"
  shows "m = (if 0 < d then d else 1) \<longleftrightarrow>
         1 \<le> m \<and> m \<le> q \<and> 99 * q < 100 * (m + 1) \<and> (m = 1 \<or> 100 * m \<le> 99 * q)"
proof (cases "0 < d")
  case True
  show ?thesis
  proof
    assume "m = (if 0 < d then d else 1)"
    with True have "d = m" by simp
    with True assms show "1 \<le> m \<and> m \<le> q \<and> 99 * q < 100 * (m + 1) \<and> (m = 1 \<or> 100 * m \<le> 99 * q)"
      by simp
  next
    assume m: "1 \<le> m \<and> m \<le> q \<and> 99 * q < 100 * (m + 1) \<and> (m = 1 \<or> 100 * m \<le> 99 * q)"
    then have "d \<le> m" using assms(1) by simp
    moreover have "m \<le> d" using m True assms(2) by auto
    ultimately show "m = (if 0 < d then d else 1)" using True by simp
  qed
next
  case False
  with assms show ?thesis by auto
qed

text \<open>C25: Terms are proposed exactly for a representable quote and block time; the minimum is at least one unit,
  never more than the quote, one percent below it up to rounding, and the deadline fits 64 bits.\<close>

theorem default_terms_bounds:
  "defaultTerms quote now = Inr (minimum, deadline) \<longleftrightarrow>
   0 < pq_quoteOut quote \<and> pq_quoteOut quote \<le> UINT256_MAX \<and> 0 \<le> now \<and> deadline = now + 600 \<and>
   0 < deadline \<and> deadline \<le> UINT64_MAX \<and>
   1 \<le> minimum \<and> minimum \<le> pq_quoteOut quote \<and> 99 * pq_quoteOut quote < 100 * (minimum + 1) \<and>
   (minimum = 1 \<or> 100 * minimum \<le> 99 * pq_quoteOut quote)"
proof -
  let ?q = "pq_quoteOut quote"
  have m: "m = (if ?q * 99 div 100 > 0 then ?q * 99 div 100 else 1) \<longleftrightarrow>
      1 \<le> m \<and> m \<le> ?q \<and> 99 * ?q < 100 * (m + 1) \<and> (m = 1 \<or> 100 * m \<le> 99 * ?q)"
    if q: "0 < ?q" for m
  proof -
    define d where "d = ?q * 99 div 100"
    define r where "r = ?q * 99 mod 100"
    have dr: "100 * d + r = ?q * 99" "0 \<le> r" "r < 100"
      by (simp_all only: d_def r_def mult_div_mod_eq pos_mod_bound pos_mod_sign zero_less_numeral)
    have "100 * d \<le> 99 * ?q" using dr by linarith
    moreover have "99 * ?q < 100 * (d + 1)" using dr by (simp add: algebra_simps)
    ultimately show ?thesis using q unfolding d_def [symmetric] by (rule percent_floor)
  qed
  have "0 \<le> now \<and> now \<le> UINT64_MAX - 600 \<and> deadline = now + 600 \<longleftrightarrow>
      0 \<le> now \<and> deadline = now + 600 \<and> 0 < deadline \<and> deadline \<le> UINT64_MAX"
    by linarith
  then show ?thesis
    using m [of minimum] unfolding defaultTerms_eq_Inr automaticMinimum_eq_Inr by blast
qed

text \<open>A fetched quote is for the requested input and starts the freshness window before the read.\<close>

lemma fetchPayQuote_Inr:
  "fetchPayQuote reader inputWei deployment clock w = (Inr quote, w') \<Longrightarrow>
   0 < inputWei \<and> pq_inputWei quote = inputWei \<and> 0 < pq_quoteOut quote \<and> 0 \<le> pq_blockNumber quote \<and>
   bytes (pq_blockHash quote) 32 \<and> (\<exists>t w1. clock_now clock w = (Inr (Finite t), w1) \<and> pq_startedAtMs quote = Finite t)"
  by (auto simp: fetchPayQuote_def eff_simps parser_simps bytes_lower split: if_splits)
    (metis js_number.exhaust)

end
