(* ===== verification/PayRecovery.thy ===== *)
theory PayRecovery
  imports PayAmount Receipt
begin

text \<open>
  \<open>packages/uniswap/src/reservation.ts\<close>, \<open>recovery.ts\<close> and \<open>reconcile.ts\<close>: the reservation port, the decision what
  may be done with an unfinished operation, and the reading of a finalized payment.
\<close>

section \<open>Reservations\<close>

datatype ReservationState = active | released

record SavedReservation = SavedOperation +
  sr_reservationState :: ReservationState

record ReleaseEvidence =
  re_blockHash :: Bytes32

record VerifiedReleaseState =
  vr_finalized :: bool
  vr_blockTime :: int
  vr_paymentSucceeded :: bool
  vr_inputUnspent :: bool
  vr_inputConsumed :: bool

datatype list_availability = list_healthy | list_rollback

record 'w ReservationPort =
  rp_reserve :: "OperationRecord \<Rightarrow> int \<Rightarrow> int \<Rightarrow> ('w, pay_error, SavedReservation) run"
  rp_update :: "OperationRecord \<Rightarrow> int \<Rightarrow> int \<Rightarrow> ('w, pay_error, SavedReservation) run"
  rp_get :: "Scope \<Rightarrow> Bytes32 \<Rightarrow> ('w, pay_error, SavedReservation option) run"
  rp_list :: "Scope \<Rightarrow> ('w, pay_error, list_availability \<times> SavedReservation list) run"
  rp_release :: "OperationRecord \<Rightarrow> ReleaseEvidence \<Rightarrow> int \<Rightarrow> int \<Rightarrow> ('w, pay_error, SavedReservation) run"

section \<open>The recovery decision\<close>

datatype attempt_outcome =
  attempt_failed | attempt_succeeded | attempt_not_submitted | attempt_pending | attempt_unknown

record AttemptEvidence =
  ae_id :: string
  ae_outcome :: attempt_outcome

datatype storage_availability = storage_healthy | storage_rollback | storage_unavailable

record RecoveryEvidence =
  rv_finalized :: bool
  rv_blockTime :: int
  rv_paymentSucceeded :: bool
  rv_submissionKnownAbsent :: bool
  rv_attempts :: "AttemptEvidence list"
  rv_storageAvailability :: storage_availability

datatype CurrentInput = input_unspent | input_spent | input_unknown

datatype recovery_action =
  recheck | resume_original | retry_attempt | change_terms | recovery_complete | blocked

datatype recovery_reason =
  RESULT_UNKNOWN | SERVICE_UNAVAILABLE | INPUT_USED | AUTHORIZATION_ACTIVE | REASON_INPUT_RESERVED

record RecoveryDecision =
  rd_action :: recovery_action
  rd_reason :: "recovery_reason option"

definition decide :: "recovery_action \<Rightarrow> recovery_reason option \<Rightarrow> RecoveryDecision" where
  "decide action reason = \<lparr>rd_action = action, rd_reason = reason\<rparr>"

fun expired :: "record_kind \<Rightarrow> int \<Rightarrow> bool" where
  "expired (Pay _ deadline) blockTime = (blockTime > deadline)"
| "expired Withdraw blockTime = False"

definition inspectOperation :: "SavedReservation \<Rightarrow> RecoveryEvidence \<Rightarrow> CurrentInput \<Rightarrow> RecoveryDecision" where
  "inspectOperation saved evidence currentInput =
     (if rv_storageAvailability evidence \<noteq> storage_healthy then decide recheck (Some SERVICE_UNAVAILABLE)
      else if \<not> rv_finalized evidence \<or> currentInput = input_unknown then decide recheck (Some RESULT_UNKNOWN)
      else if rv_paymentSucceeded evidence then decide recovery_complete None
      else if sr_reservationState saved \<noteq> active then decide blocked (Some REASON_INPUT_RESERVED)
      else if currentInput = input_spent then decide blocked (Some INPUT_USED)
      else
        let attempts = rv_attempts evidence; recordedIds = set (rb_attemptIds (so_record saved))
        in if length attempts \<noteq> card recordedIds \<or> card (set (map ae_id attempts)) \<noteq> card recordedIds \<or>
              list_ex (\<lambda>a. ae_id a \<notin> recordedIds \<or> ae_outcome a \<notin> {attempt_failed, attempt_not_submitted}) attempts
           then decide recheck (Some RESULT_UNKNOWN)
           else if expired (rec_kind (so_record saved)) (rv_blockTime evidence) then decide change_terms None
           else if card recordedIds > 0 then
             (if list_ex (\<lambda>a. ae_outcome a = attempt_failed) attempts then decide retry_attempt None
              else if \<not> rv_submissionKnownAbsent evidence then decide recheck (Some RESULT_UNKNOWN)
              else decide resume_original None)
           else if \<not> rv_submissionKnownAbsent evidence then decide recheck (Some RESULT_UNKNOWN)
           else decide resume_original None)"

text \<open>Nothing of the operation can still take effect: the evidence is final and covers every recorded attempt
  exactly once, and each of them failed or was never submitted.\<close>

definition quiet :: "SavedReservation \<Rightarrow> RecoveryEvidence \<Rightarrow> CurrentInput \<Rightarrow> bool" where
  "quiet saved evidence currentInput \<longleftrightarrow>
     rv_storageAvailability evidence = storage_healthy \<and> rv_finalized evidence \<and>
     \<not> rv_paymentSucceeded evidence \<and> sr_reservationState saved = active \<and> currentInput = input_unspent \<and>
     distinct (map ae_id (rv_attempts evidence)) \<and>
     set (map ae_id (rv_attempts evidence)) = set (rb_attemptIds (so_record saved)) \<and>
     list_all (\<lambda>a. ae_outcome a = attempt_failed \<or> ae_outcome a = attempt_not_submitted) (rv_attempts evidence)"

lemma covers_once:
  assumes "finite S"
  shows "length xs = card S \<and> card (set xs) = card S \<and> set xs \<subseteq> S \<longleftrightarrow> distinct xs \<and> set xs = S"
  using assms by (metis card_distinct card_subset_eq distinct_card order_refl)

lemma quiet_eq:
  "quiet saved evidence currentInput \<longleftrightarrow>
     rv_storageAvailability evidence = storage_healthy \<and> rv_finalized evidence \<and>
     \<not> rv_paymentSucceeded evidence \<and> sr_reservationState saved = active \<and> currentInput = input_unspent \<and>
     \<not> (length (rv_attempts evidence) \<noteq> card (set (rb_attemptIds (so_record saved))) \<or>
        card (set (map ae_id (rv_attempts evidence))) \<noteq> card (set (rb_attemptIds (so_record saved))) \<or>
        list_ex (\<lambda>a. ae_id a \<notin> set (rb_attemptIds (so_record saved)) \<or>
                     ae_outcome a \<notin> {attempt_failed, attempt_not_submitted}) (rv_attempts evidence))"
proof -
  let ?S = "set (rb_attemptIds (so_record saved))" and ?as = "rv_attempts evidence"
  have "\<not> (length ?as \<noteq> card ?S \<or> card (set (map ae_id ?as)) \<noteq> card ?S \<or>
        list_ex (\<lambda>a. ae_id a \<notin> ?S \<or> ae_outcome a \<notin> {attempt_failed, attempt_not_submitted}) ?as) \<longleftrightarrow>
      (length (map ae_id ?as) = card ?S \<and> card (set (map ae_id ?as)) = card ?S \<and> set (map ae_id ?as) \<subseteq> ?S) \<and>
      list_all (\<lambda>a. ae_outcome a = attempt_failed \<or> ae_outcome a = attempt_not_submitted) ?as"
    by (auto simp: list_ex_iff list_all_iff)
  then show ?thesis
    unfolding quiet_def using covers_once [of ?S "map ae_id ?as"] by blast
qed

lemma recovery_decisions:
  "(rd_action (inspectOperation saved evidence currentInput) = change_terms \<longleftrightarrow>
      quiet saved evidence currentInput \<and> expired (rec_kind (so_record saved)) (rv_blockTime evidence)) \<and>
   (rd_action (inspectOperation saved evidence currentInput) = retry_attempt \<longleftrightarrow>
      quiet saved evidence currentInput \<and> \<not> expired (rec_kind (so_record saved)) (rv_blockTime evidence) \<and>
      list_ex (\<lambda>a. ae_outcome a = attempt_failed) (rv_attempts evidence)) \<and>
   (rd_action (inspectOperation saved evidence currentInput) = resume_original \<longleftrightarrow>
      quiet saved evidence currentInput \<and> \<not> expired (rec_kind (so_record saved)) (rv_blockTime evidence) \<and>
      list_all (\<lambda>a. ae_outcome a = attempt_not_submitted) (rv_attempts evidence) \<and>
      rv_submissionKnownAbsent evidence) \<and>
   (rd_action (inspectOperation saved evidence currentInput) = recovery_complete \<longleftrightarrow>
      rv_storageAvailability evidence = storage_healthy \<and> rv_finalized evidence \<and> currentInput \<noteq> input_unknown \<and>
      rv_paymentSucceeded evidence)"
proof (cases "quiet saved evidence currentInput")
  case True
  then have "inspectOperation saved evidence currentInput =
      (if expired (rec_kind (so_record saved)) (rv_blockTime evidence) then decide change_terms None
       else if list_ex (\<lambda>a. ae_outcome a = attempt_failed) (rv_attempts evidence) then decide retry_attempt None
       else if \<not> rv_submissionKnownAbsent evidence then decide recheck (Some RESULT_UNKNOWN)
       else decide resume_original None)"
    unfolding quiet_eq inspectOperation_def Let_def by (auto simp: card_gt_0_iff)
  moreover have "list_all (\<lambda>a. ae_outcome a = attempt_not_submitted) (rv_attempts evidence) \<longleftrightarrow>
      \<not> list_ex (\<lambda>a. ae_outcome a = attempt_failed) (rv_attempts evidence)"
    using True by (auto simp: quiet_def list_all_iff list_ex_iff)
  moreover have "\<not> rv_paymentSucceeded evidence" using True by (simp add: quiet_def)
  ultimately show ?thesis using True by (simp add: decide_def)
next
  case False
  then show ?thesis
    unfolding quiet_eq inspectOperation_def Let_def decide_def
    by (auto split: if_splits) (metis CurrentInput.exhaust)+
qed

text \<open>C26: The recovery decision acts only on an operation of which nothing can still take effect; it changes the
  terms exactly when the payment has expired, retries exactly when an attempt failed on chain, resumes exactly
  when no attempt reached the chain, and completes exactly on final evidence of success.\<close>

theorem recovery_decision_exact:
  "(rd_action (inspectOperation saved evidence currentInput) = change_terms \<longleftrightarrow>
      quiet saved evidence currentInput \<and> expired (rec_kind (so_record saved)) (rv_blockTime evidence)) \<and>
   (rd_action (inspectOperation saved evidence currentInput) = retry_attempt \<longleftrightarrow>
      quiet saved evidence currentInput \<and> \<not> expired (rec_kind (so_record saved)) (rv_blockTime evidence) \<and>
      list_ex (\<lambda>a. ae_outcome a = attempt_failed) (rv_attempts evidence)) \<and>
   (rd_action (inspectOperation saved evidence currentInput) = resume_original \<longleftrightarrow>
      quiet saved evidence currentInput \<and> \<not> expired (rec_kind (so_record saved)) (rv_blockTime evidence) \<and>
      list_all (\<lambda>a. ae_outcome a = attempt_not_submitted) (rv_attempts evidence) \<and>
      rv_submissionKnownAbsent evidence) \<and>
   (rd_action (inspectOperation saved evidence currentInput) = recovery_complete \<longleftrightarrow>
      rv_storageAvailability evidence = storage_healthy \<and> rv_finalized evidence \<and> currentInput \<noteq> input_unknown \<and>
      rv_paymentSucceeded evidence)"
  by (rule recovery_decisions)

section \<open>Reconciliation with finalized history\<close>

record AdapterRecord =
  ad_blockHash :: Bytes32
  ad_paymentId :: PaymentId
  ad_operationId :: OperationId
  ad_owner :: Address
  ad_amountOut :: int

record PoolRecord =
  po_blockHash :: Bytes32
  po_operationId :: OperationId
  po_inputId :: InputId
  po_changeOutputId :: Bytes32

record InputRecord =
  in_blockHash :: Bytes32
  in_inputId :: InputId
  in_consumed :: bool

record ChangeRecord =
  ch_blockHash :: Bytes32
  ch_outputId :: Bytes32
  ch_owner :: Address

record FinalizedHistory =
  fh_chainId :: int
  fh_deploymentId :: DeploymentId
  fh_checkpoint :: Checkpoint
  fh_blockHash :: Bytes32
  fh_finalized :: bool
  fh_canonical :: bool
  fh_rpcConsistent :: bool
  fh_adapter :: "AdapterRecord option"
  fh_pool :: "PoolRecord option"
  fh_input :: "InputRecord option"
  fh_change :: "ChangeRecord option"

record CoreReceiptResult =
  cr_state :: ReceiptProgress
  cr_outputId :: "Bytes32 option"
  cr_currentlyUnspent :: bool
  cr_creationCheckpoint :: "Checkpoint option"
  cr_observationCheckpoint :: "Checkpoint option"

fun coreReceiptResult :: "receipt_result \<Rightarrow> CoreReceiptResult" where
  "coreReceiptResult (Received r) =
     \<lparr>cr_state = receipt_confirmed, cr_outputId = Some (coin_id (ru_utxo r)),
      cr_currentlyUnspent = (coin_status (ru_utxo r) = available),
      cr_creationCheckpoint = Some (ru_creationCheckpoint r),
      cr_observationCheckpoint = Some (coin_checkpoint (ru_utxo r))\<rparr>"
| "coreReceiptResult (NotReceived status _) =
     \<lparr>cr_state = (if status = rs_unknown then receipt_pending else receipt_invalid), cr_outputId = None,
      cr_currentlyUnspent = False, cr_creationCheckpoint = None, cr_observationCheckpoint = None\<rparr>"

record ReconciledPayment =
  rc_checkpoint :: Checkpoint
  rc_operation :: OperationRef
  rc_changeUsable :: bool

definition sameHex :: "string option \<Rightarrow> string option \<Rightarrow> bool" where
  "sameHex a b = (case (a, b) of (Some x, Some y) \<Rightarrow> sameText x y | _ \<Rightarrow> False)"

fun payment_id :: "record_kind \<Rightarrow> PaymentId option" where
  "payment_id (Pay paymentId _) = Some paymentId"
| "payment_id Withdraw = None"

definition matched_records ::
  "OperationRecord \<Rightarrow> FinalizedHistory \<Rightarrow> AdapterRecord \<Rightarrow> PoolRecord \<Rightarrow> InputRecord \<Rightarrow> ChangeRecord \<Rightarrow> bool" where
  "matched_records r history adapter pool inp change \<longleftrightarrow>
     list_all (\<lambda>h. sameText h (fh_blockHash history))
       [ad_blockHash adapter, po_blockHash pool, in_blockHash inp, ch_blockHash change] \<and>
     sameHex (Some (ad_paymentId adapter)) (payment_id (rec_kind r)) \<and>
     sameText (ad_operationId adapter) (rb_operationId r) \<and>
     sameText (ad_owner adapter) (sc_owner (rb_scope r)) \<and>
     ad_amountOut adapter > 0 \<and>
     sameText (po_operationId pool) (rb_operationId r) \<and>
     sameText (po_inputId pool) (rb_inputId r) \<and>
     sameText (in_inputId inp) (rb_inputId r) \<and>
     in_consumed inp \<and>
     sameText (po_changeOutputId pool) (ch_outputId change) \<and>
     sameText (ch_owner change) (sc_owner (rb_scope r))"

definition payment_matched :: "OperationRef \<Rightarrow> OperationRecord \<Rightarrow> FinalizedHistory \<Rightarrow> int \<Rightarrow> bool" where
  "payment_matched ref r history expectedChainId \<longleftrightarrow>
     is_pay (rec_kind r) \<and> fh_finalized history \<and> fh_canonical history \<and> fh_rpcConsistent history \<and>
     fh_chainId history = expectedChainId \<and>
     fh_deploymentId history = sc_deploymentId (ref_scope ref) \<and>
     sc_deploymentId (rb_scope r) = sc_deploymentId (ref_scope ref) \<and>
     sameText (sc_owner (rb_scope r)) (sc_owner (ref_scope ref)) \<and>
     sameText (rb_operationId r) (ref_operationId ref) \<and>
     sameHex (payment_id (rec_kind r)) (ref_paymentId ref) \<and>
     (case (fh_adapter history, fh_pool history, fh_input history, fh_change history) of
        (Some adapter, Some pool, Some inp, Some change) \<Rightarrow> matched_records r history adapter pool inp change
      | _ \<Rightarrow> False)"

definition receipt_elsewhere :: "CoreReceiptResult \<Rightarrow> FinalizedHistory \<Rightarrow> bool" where
  "receipt_elsewhere receipt history \<longleftrightarrow>
     \<not> sameHex (map_option cp_hash (cr_creationCheckpoint receipt)) (Some (fh_blockHash history)) \<or>
     map_option cp_mode (cr_creationCheckpoint receipt) \<noteq> Some (cp_mode (fh_checkpoint history)) \<or>
     \<not> sameHex (map_option cp_hash (cr_observationCheckpoint receipt)) (Some (cp_hash (fh_checkpoint history))) \<or>
     map_option cp_number (cr_observationCheckpoint receipt) \<noteq> Some (cp_number (fh_checkpoint history)) \<or>
     map_option cp_mode (cr_observationCheckpoint receipt) \<noteq> Some (cp_mode (fh_checkpoint history))"

definition reconcilePayment ::
  "OperationRef \<Rightarrow> OperationRecord \<Rightarrow> FinalizedHistory \<Rightarrow> CoreReceiptResult \<Rightarrow> int \<Rightarrow> ReconciledPayment" where
  "reconcilePayment ref r history receipt expectedChainId =
     (let unresolved = \<lparr>rc_checkpoint = fh_checkpoint history,
            rc_operation = ref\<lparr>ref_chainOutcome := chain_unknown, ref_receiptState := receipt_pending\<rparr>,
            rc_changeUsable = False\<rparr>
      in if \<not> payment_matched ref r history expectedChainId then unresolved
         else if cr_state receipt = receipt_confirmed \<and> receipt_elsewhere receipt history then unresolved
         else let receiptState =
                    (if cr_state receipt = receipt_pending then receipt_pending
                     else if cr_state receipt = receipt_invalid then receipt_invalid
                     else if sameHex (cr_outputId receipt) (map_option ch_outputId (fh_change history))
                     then receipt_confirmed else receipt_invalid)
              in \<lparr>rc_checkpoint = fh_checkpoint history,
                  rc_operation = ref\<lparr>ref_chainOutcome := finalized_success, ref_receiptState := receiptState\<rparr>,
                  rc_changeUsable = (receiptState = receipt_confirmed \<and> cr_currentlyUnspent receipt)\<rparr>)"

lemma sameHex_eq [simp]:
  "sameHex (Some a) (Some b) = sameText a b" "\<not> sameHex None x" "\<not> sameHex y None"
  by (simp_all add: sameHex_def split: option.split)

lemma sameHexE:
  assumes "sameHex a b"
  obtains x y where "a = Some x" and "b = Some y" and "sameText x y"
  using assms by (auto simp: sameHex_def split: option.splits)

lemma payment_matchedD:
  assumes "payment_matched ref r history chain"
  shows "\<exists>adapter pool inp change paymentId deadline. rec_kind r = Pay paymentId deadline \<and>
    fh_adapter history = Some adapter \<and> fh_pool history = Some pool \<and> fh_input history = Some inp \<and>
    fh_change history = Some change \<and> matched_records r history adapter pool inp change"
  using assms by (cases "rec_kind r") (auto simp: payment_matched_def split: option.splits)

text \<open>C27: The change of a payment is usable only when the receipt is an unspent coin that was created in the very
  block of the payment and observed at the checkpoint of the history, and that block's finalized, canonical
  history shows the payment, its consumed input and its change output all bound to the saved record.\<close>

theorem usable_change_sound:
  assumes "rc_changeUsable (reconcilePayment ref r history (coreReceiptResult receipt) chainId)"
  shows "\<exists>coin adapter pool inp change paymentId deadline.
    receipt = Received coin \<and> coin_status (ru_utxo coin) = available \<and>
    sameText (cp_hash (ru_creationCheckpoint coin)) (fh_blockHash history) \<and>
    sameText (cp_hash (coin_checkpoint (ru_utxo coin))) (cp_hash (fh_checkpoint history)) \<and>
    cp_number (coin_checkpoint (ru_utxo coin)) = cp_number (fh_checkpoint history) \<and>
    fh_finalized history \<and> fh_canonical history \<and> fh_rpcConsistent history \<and> fh_chainId history = chainId \<and>
    rec_kind r = Pay paymentId deadline \<and>
    fh_adapter history = Some adapter \<and> fh_pool history = Some pool \<and> fh_input history = Some inp \<and>
    fh_change history = Some change \<and>
    sameText (coin_id (ru_utxo coin)) (ch_outputId change) \<and> matched_records r history adapter pool inp change"
proof -
  have m: "payment_matched ref r history chainId"
    using assms by (auto simp: reconcilePayment_def Let_def split: if_splits)
  obtain coin where coin: "receipt = Received coin"
    using assms by (cases receipt) (auto simp: reconcilePayment_def Let_def split: if_splits)
  from payment_matchedD [OF m] obtain adapter pool inp change paymentId deadline where
    parts: "rec_kind r = Pay paymentId deadline" "fh_adapter history = Some adapter" "fh_pool history = Some pool"
      "fh_input history = Some inp" "fh_change history = Some change"
      "matched_records r history adapter pool inp change"
    by blast
  have "\<not> receipt_elsewhere (coreReceiptResult receipt) history"
    and "sameText (coin_id (ru_utxo coin)) (ch_outputId change)" and "coin_status (ru_utxo coin) = available"
    using assms m coin parts by (auto simp: reconcilePayment_def Let_def split: if_splits)
  then show ?thesis
    using coin parts m by (auto simp: receipt_elsewhere_def payment_matched_def)
qed

section \<open>A finalized payment\<close>

text \<open>A saved payment, the history that contains it, and the receipt of its change.\<close>

definition example_scope :: Scope where
  "example_scope = \<lparr>sc_deploymentId = ''main'', sc_owner = address_of (CHR ''b'')\<rparr>"

definition example_bundle :: EncryptedBundle where
  "example_bundle = \<lparr>eb_ciphertext = ''AAAA'', eb_nonce = ''0x'' @ replicate 24 (CHR ''1''),
     eb_tag = ''0x'' @ replicate 32 (CHR ''2'')\<rparr>"

definition example_pay_record :: OperationRecord where
  "example_pay_record = \<lparr>rb_recordId = hash_of (CHR ''1''), rb_scope = example_scope, rb_inputId = hash_of (CHR ''a''),
     rb_operationId = hash_of (CHR ''b''), rb_contentHash = hash_of (CHR ''c''), rb_encryptedBundle = example_bundle,
     rb_signatureStarted = False, rb_attemptIds = [], rec_kind = Pay (hash_of (CHR ''1'')) 1000\<rparr>"

definition example_point :: Checkpoint where
  "example_point = \<lparr>cp_number = 20, cp_hash = hash_of (CHR ''c''), cp_mode = finalized\<rparr>"

definition example_history :: FinalizedHistory where
  "example_history = \<lparr>fh_chainId = 1, fh_deploymentId = ''main'', fh_checkpoint = example_point,
     fh_blockHash = hash_of (CHR ''b''), fh_finalized = True, fh_canonical = True, fh_rpcConsistent = True,
     fh_adapter = Some \<lparr>ad_blockHash = hash_of (CHR ''b''), ad_paymentId = hash_of (CHR ''1''),
       ad_operationId = hash_of (CHR ''b''), ad_owner = address_of (CHR ''b''), ad_amountOut = 7\<rparr>,
     fh_pool = Some \<lparr>po_blockHash = hash_of (CHR ''b''), po_operationId = hash_of (CHR ''b''),
       po_inputId = hash_of (CHR ''a''), po_changeOutputId = hash_of (CHR ''1'')\<rparr>,
     fh_input = Some \<lparr>in_blockHash = hash_of (CHR ''b''), in_inputId = hash_of (CHR ''a''), in_consumed = True\<rparr>,
     fh_change = Some \<lparr>ch_blockHash = hash_of (CHR ''b''), ch_outputId = hash_of (CHR ''1''),
       ch_owner = address_of (CHR ''b'')\<rparr>\<rparr>"

definition example_change :: ReceivedUtxo where
  "example_change = \<lparr>ru_operationId = hash_of (CHR ''b''),
     ru_utxo = \<lparr>coin_id = hash_of (CHR ''1''), coin_owner = address_of (CHR ''b''),
       coin_opening = \<lparr>amount = 3, blinding = 1\<rparr>, coin_commitment = \<lparr>px = 1, py = 2\<rparr>,
       coin_checkpoint = example_point, coin_status = available, coin_chainId = 1, coin_pool = address_of (CHR ''a'')\<rparr>,
     ru_creationCheckpoint = example_point\<lparr>cp_hash := hash_of (CHR ''b'')\<rparr>\<rparr>"

definition example_ref :: OperationRef where
  "example_ref = \<lparr>ref_scope = example_scope, ref_operationId = hash_of (CHR ''b''),
     ref_paymentId = Some (hash_of (CHR ''1'')), ref_attemptIds = [], ref_txHashes = [],
     ref_chainOutcome = chain_pending, ref_receiptState = receipt_none\<rparr>"

lemmas example_pay_simps = example_scope_def example_bundle_def example_pay_record_def example_point_def
  example_history_def example_change_def example_ref_def

theorem usable_change_sound_witness:
  "\<exists>coin adapter pool inp change paymentId deadline.
    Received example_change = Received coin \<and> coin_status (ru_utxo coin) = available \<and>
    sameText (cp_hash (ru_creationCheckpoint coin)) (fh_blockHash example_history) \<and>
    sameText (cp_hash (coin_checkpoint (ru_utxo coin))) (cp_hash (fh_checkpoint example_history)) \<and>
    cp_number (coin_checkpoint (ru_utxo coin)) = cp_number (fh_checkpoint example_history) \<and>
    fh_finalized example_history \<and> fh_canonical example_history \<and> fh_rpcConsistent example_history \<and>
    fh_chainId example_history = 1 \<and> rec_kind example_pay_record = Pay paymentId deadline \<and>
    fh_adapter example_history = Some adapter \<and> fh_pool example_history = Some pool \<and>
    fh_input example_history = Some inp \<and> fh_change example_history = Some change \<and>
    sameText (coin_id (ru_utxo coin)) (ch_outputId change) \<and>
    matched_records example_pay_record example_history adapter pool inp change"
proof (rule usable_change_sound)
  show "rc_changeUsable (reconcilePayment example_ref example_pay_record example_history
      (coreReceiptResult (Received example_change)) 1)"
    by (simp add: reconcilePayment_def payment_matched_def matched_records_def receipt_elsewhere_def example_pay_simps)
qed

end
