(* ===== verification/Payment.thy ===== *)
theory Payment
  imports PayRecovery
begin

text \<open>
  \<open>packages/uniswap/src/payment.ts\<close>: the terms of a payment, the digest that authorizes them, the binding of the
  withdrawal that funds it, and the adapter call.  The \<open>viem\<close> functions it uses are a record.
\<close>

record PaymentTerms =
  pt_operationId :: OperationId
  pt_owner :: Address
  pt_ethAmount :: int
  pt_token :: Address
  pt_minAmountOut :: int
  pt_recipient :: Address
  pt_deadline :: int

record PaymentDeployment =
  pd_adapter :: Address
  pd_token :: Address
  pd_pool :: Address
  pd_router :: Address
  pd_factory :: Address
  pd_weth :: Address
  pd_pair :: Address

text \<open>The typed data of \<open>paymentDigest\<close>: its domain and the message.\<close>

record PaymentTypedData =
  ptd_name :: string
  ptd_version :: string
  ptd_chainId :: int
  ptd_verifyingContract :: Address
  ptd_message :: PaymentTerms

record PoolOutput =
  wo_owner :: Address
  wo_Cx :: int
  wo_Cy :: int
  wo_receiptFormat :: int
  wo_packet :: string

record PoolWithdrawal =
  pw_kind :: int
  pw_owner :: Address
  pw_salt :: string
  pw_inputIds :: "string list"
  pw_outputs :: "PoolOutput list"
  pw_d :: int
  pw_w :: int
  pw_destination :: Address

record PayCall =
  pc_withdrawal :: PoolWithdrawal
  pc_balanceProof :: BalanceProof
  pc_rangeProofs :: "RangeProof list"
  pc_poolSignature :: string
  pc_terms :: PaymentTerms
  pc_paymentSignature :: string

record payment_viem =
  pv_isAddress :: "string \<Rightarrow> bool"
  pv_hashTypedData :: "PaymentTypedData \<Rightarrow> PaymentId pay_res"
  pv_encodeFunctionData :: "PayCall \<Rightarrow> string pay_res"
  pv_decodeErrorResult :: "string \<Rightarrow> string pay_res"

definition validAddress :: "payment_viem \<Rightarrow> string \<Rightarrow> bool" where
  "validAddress P v \<longleftrightarrow> pv_isAddress P v \<and> \<not> sameText v zeroAddress"

definition checkTerms :: "payment_viem \<Rightarrow> PaymentTerms \<Rightarrow> int \<Rightarrow> Address \<Rightarrow> unit pay_res" where
  "checkTerms P terms chainId adapter =
     (if chainId \<le> 0 \<or> \<not> validAddress P adapter \<or> \<not> validAddress P (pt_owner terms) \<or>
         \<not> validAddress P (pt_token terms) \<or> \<not> validAddress P (pt_recipient terms) \<or>
         \<not> bytes (pt_operationId terms) 32 \<or>
         pt_ethAmount terms \<le> 0 \<or> pt_ethAmount terms > UINT256_MAX \<or>
         pt_minAmountOut terms \<le> 0 \<or> pt_minAmountOut terms > UINT256_MAX \<or>
         pt_deadline terms \<le> 0 \<or> pt_deadline terms > UINT64_MAX
      then Inl (invalid_field ''paymentTerms'') else Inr ())"

definition paymentDigest :: "payment_viem \<Rightarrow> PaymentTerms \<Rightarrow> int \<Rightarrow> Address \<Rightarrow> PaymentId pay_res" where
  "paymentDigest P terms chainId adapter =
     rbind (checkTerms P terms chainId adapter) (\<lambda>_.
       pv_hashTypedData P \<lparr>ptd_name = ''Ethereum Confidential UTXO Uniswap Payment'', ptd_version = ''1'',
         ptd_chainId = chainId, ptd_verifyingContract = adapter, ptd_message = terms\<rparr>)"

text \<open>A failure of the core passes through the payment package.\<close>

definition core_step :: "'a res \<Rightarrow> 'a pay_res" where
  "core_step m = (case m of Inl e \<Rightarrow> Inl (CoreError e) | Inr a \<Rightarrow> Inr a)"

lemma core_step_eq_Inr [res_simps]: "core_step m = Inr a \<longleftrightarrow> m = Inr a"
  by (cases m) (simp_all add: core_step_def)

definition forbiddenRecipients :: "PaymentDeployment \<Rightarrow> Address list" where
  "forbiddenRecipients d =
     [zeroAddress, pd_adapter d, pd_pool d, pd_router d, pd_factory d, pd_weth d, pd_token d, pd_pair d]"

definition assertWithdrawalBinding ::
  "curve \<Rightarrow> viem \<Rightarrow> payment_viem \<Rightarrow> LocalDraft \<Rightarrow> PaymentTerms \<Rightarrow> PaymentDeployment \<Rightarrow> unit pay_res" where
  "assertWithdrawalBinding C V P withdrawal terms deployment =
     rbind (checkTerms P terms 1 (pd_adapter deployment)) (\<lambda>_.
     let request = dr_request withdrawal in
     rbind (core_step (validateOperationShape C request)) (\<lambda>_.
     rbind (core_step (operationId V (dr_context withdrawal) request)) (\<lambda>computedId.
       if req_kind request \<noteq> 2 \<or> req_d request \<noteq> 0 \<or>
          length (req_inputIds request) \<noteq> 1 \<or> length (req_outputs request) \<noteq> 1 \<or>
          length (dr_rangeProofs withdrawal) \<noteq> 1 \<or>
          ctx_chainId (dr_context withdrawal) \<le> 0 \<or>
          \<not> sameText (ctx_pool (dr_context withdrawal)) (pd_pool deployment) \<or>
          \<not> sameText (req_owner request) (pt_owner terms) \<or>
          \<not> sameText (out_owner (req_outputs request ! 0)) (pt_owner terms) \<or>
          req_w request \<noteq> pt_ethAmount terms \<or>
          \<not> sameText (req_destination request) (pd_adapter deployment) \<or>
          \<not> sameText (pt_token terms) (pd_token deployment) \<or>
          list_ex (\<lambda>recipient. sameText (pt_recipient terms) recipient) (forbiddenRecipients deployment) \<or>
          \<not> sameText computedId (dr_operationId withdrawal) \<or>
          \<not> sameText computedId (pt_operationId terms)
       then Inl (invalid_field ''withdrawalBinding'') else Inr ())))"

definition pool_withdrawal :: "OperationRequest \<Rightarrow> PoolWithdrawal" where
  "pool_withdrawal request =
     \<lparr>pw_kind = req_kind request, pw_owner = req_owner request, pw_salt = req_salt request,
      pw_inputIds = req_inputIds request,
      pw_outputs = map (\<lambda>output. \<lparr>wo_owner = out_owner output, wo_Cx = px (out_commitment output),
        wo_Cy = py (out_commitment output), wo_receiptFormat = out_receiptFormat output,
        wo_packet = out_packet output\<rparr>) (req_outputs request),
      pw_d = req_d request, pw_w = req_w request, pw_destination = req_destination request\<rparr>"

definition shaped_proof :: "RangeProof \<Rightarrow> RangeProof pay_res" where
  "shaped_proof p =
     (if length (coords p) \<noteq> 10 \<or> length (scalars p) \<noteq> 5 \<or> length (rp_ls p) \<noteq> length (rp_rs p)
      then Inl (invalid_field ''rangeProofs'') else Inr p)"

definition encodePayCall ::
  "curve \<Rightarrow> viem \<Rightarrow> payment_viem \<Rightarrow> LocalDraft \<Rightarrow> PaymentTerms \<Rightarrow> PaymentDeployment \<Rightarrow> string \<Rightarrow> string
   \<Rightarrow> string pay_res" where
  "encodePayCall C V P draft terms deployment poolSignature paymentSignature =
     rbind (assertWithdrawalBinding C V P draft terms deployment) (\<lambda>_.
       if \<not> bytes poolSignature 65 \<or> \<not> bytes paymentSignature 65 then Inl (invalid_field ''paymentSignatures'')
       else rbind (mapM shaped_proof (dr_rangeProofs draft)) (\<lambda>rangeProofs.
         pv_encodeFunctionData P \<lparr>pc_withdrawal = pool_withdrawal (dr_request draft),
           pc_balanceProof = dr_balanceProof draft, pc_rangeProofs = rangeProofs, pc_poolSignature = poolSignature,
           pc_terms = terms, pc_paymentSignature = paymentSignature\<rparr>))"

datatype AdapterError = Adapter string | UnknownAdapterError

datatype provenance = trace_proven_adapter | unverified

definition decodeAdapterError :: "payment_viem \<Rightarrow> string \<Rightarrow> provenance \<Rightarrow> AdapterError" where
  "decodeAdapterError P data origin =
     (if origin \<noteq> trace_proven_adapter then UnknownAdapterError
      else case pv_decodeErrorResult P data of Inr name \<Rightarrow> Adapter name | Inl _ \<Rightarrow> UnknownAdapterError)"

section \<open>What a pay call binds\<close>

lemma checkTerms_eq_Inr:
  "checkTerms P terms chainId adapter = Inr () \<longleftrightarrow>
   0 < chainId \<and> validAddress P adapter \<and> validAddress P (pt_owner terms) \<and> validAddress P (pt_token terms) \<and>
   validAddress P (pt_recipient terms) \<and> bytes (pt_operationId terms) 32 \<and>
   0 < pt_ethAmount terms \<and> pt_ethAmount terms \<le> UINT256_MAX \<and> 0 < pt_minAmountOut terms \<and>
   pt_minAmountOut terms \<le> UINT256_MAX \<and> 0 < pt_deadline terms \<and> pt_deadline terms \<le> UINT64_MAX"
  unfolding checkTerms_def by (simp add: not_le not_less)

lemma mapM_shaped: "mapM shaped_proof ps = Inr qs \<Longrightarrow> qs = ps"
  by (induction ps arbitrary: qs) (auto simp: shaped_proof_def rbind_eq_Inr split: if_splits)

lemma assertWithdrawalBinding_eq_Inr:
  "assertWithdrawalBinding C V P withdrawal terms deployment = Inr () \<longleftrightarrow>
   checkTerms P terms 1 (pd_adapter deployment) = Inr () \<and>
   well_formed_request C (dr_request withdrawal) \<and>
   (\<exists>computedId. operationId V (dr_context withdrawal) (dr_request withdrawal) = Inr computedId \<and>
      sameText computedId (dr_operationId withdrawal) \<and> sameText computedId (pt_operationId terms)) \<and>
   req_kind (dr_request withdrawal) = 2 \<and> req_d (dr_request withdrawal) = 0 \<and>
   length (req_inputIds (dr_request withdrawal)) = 1 \<and> length (req_outputs (dr_request withdrawal)) = 1 \<and>
   length (dr_rangeProofs withdrawal) = 1 \<and> 0 < ctx_chainId (dr_context withdrawal) \<and>
   sameText (ctx_pool (dr_context withdrawal)) (pd_pool deployment) \<and>
   sameText (req_owner (dr_request withdrawal)) (pt_owner terms) \<and>
   sameText (out_owner (req_outputs (dr_request withdrawal) ! 0)) (pt_owner terms) \<and>
   req_w (dr_request withdrawal) = pt_ethAmount terms \<and>
   sameText (req_destination (dr_request withdrawal)) (pd_adapter deployment) \<and>
   sameText (pt_token terms) (pd_token deployment) \<and>
   \<not> list_ex (sameText (pt_recipient terms)) (forbiddenRecipients deployment)"
  unfolding assertWithdrawalBinding_def Let_def
  by (simp add: rbind_eq_Inr core_step_eq_Inr validateOperationShape_eq_Inr not_le) blast

text \<open>Two authorized withdrawals for the same terms are the same operation.\<close>

lemma binding_determines_request:
  assumes "abi_laws V"
    and "collision_free V (set (hashed_texts V (dr_context d) (dr_request d) @ hashed_texts V (dr_context d') (dr_request d')))"
    and "assertWithdrawalBinding C V P d terms deployment = Inr ()"
    and "assertWithdrawalBinding C V P d' terms deployment = Inr ()"
  shows "ctx_chainId (dr_context d) = ctx_chainId (dr_context d') \<and> same_request (dr_request d) (dr_request d')"
proof -
  from assms(3) obtain i where i: "operationId V (dr_context d) (dr_request d) = Inr i" "sameText i (pt_operationId terms)"
    unfolding assertWithdrawalBinding_eq_Inr by blast
  from assms(4) obtain j where j: "operationId V (dr_context d') (dr_request d') = Inr j" "sameText j (pt_operationId terms)"
    unfolding assertWithdrawalBinding_eq_Inr by blast
  have "sameText i j" using i(2) j(2) by (simp add: sameText_def)
  from operation_bound [OF assms(1,2) i(1) j(1) this] show ?thesis by simp
qed

text \<open>C28: A pay call is encoded only for a well-formed withdrawal of exactly the authorized amount to the adapter,
  with the owner's own change output, whose identifier is the one the payment terms authorize, for a recipient that
  is none of the protocol's contracts; the encoded call carries that request, its proofs, the terms and both
  signatures unchanged.\<close>

theorem pay_call_binds:
  assumes "encodePayCall C V P draft terms deployment poolSignature paymentSignature = Inr data"
  shows "well_formed_request C (dr_request draft) \<and>
    (\<exists>computedId. operationId V (dr_context draft) (dr_request draft) = Inr computedId \<and>
       sameText computedId (dr_operationId draft) \<and> sameText computedId (pt_operationId terms)) \<and>
    req_kind (dr_request draft) = 2 \<and> req_w (dr_request draft) = pt_ethAmount terms \<and>
    0 < pt_ethAmount terms \<and> pt_ethAmount terms \<le> 2 * M_max \<and>
    sameText (req_destination (dr_request draft)) (pd_adapter deployment) \<and>
    sameText (req_owner (dr_request draft)) (pt_owner terms) \<and>
    sameText (out_owner (req_outputs (dr_request draft) ! 0)) (pt_owner terms) \<and>
    \<not> list_ex (sameText (pt_recipient terms)) (forbiddenRecipients deployment) \<and>
    bytes poolSignature 65 \<and> bytes paymentSignature 65 \<and>
    pv_encodeFunctionData P \<lparr>pc_withdrawal = pool_withdrawal (dr_request draft),
      pc_balanceProof = dr_balanceProof draft, pc_rangeProofs = dr_rangeProofs draft, pc_poolSignature = poolSignature,
      pc_terms = terms, pc_paymentSignature = paymentSignature\<rparr> = Inr data"
proof -
  have bound: "assertWithdrawalBinding C V P draft terms deployment = Inr ()"
    using assms by (auto simp: encodePayCall_def rbind_eq_Inr)
  have wf: "well_formed_request C (dr_request draft)" "req_kind (dr_request draft) = 2"
    using bound unfolding assertWithdrawalBinding_eq_Inr by blast+
  have "req_w (dr_request draft) \<le> 2 * M_max"
    using wf by (simp add: well_formed_request_def amounts_ok_def)
  moreover have "bytes poolSignature 65" "bytes paymentSignature 65"
    and "pv_encodeFunctionData P \<lparr>pc_withdrawal = pool_withdrawal (dr_request draft),
      pc_balanceProof = dr_balanceProof draft, pc_rangeProofs = dr_rangeProofs draft, pc_poolSignature = poolSignature,
      pc_terms = terms, pc_paymentSignature = paymentSignature\<rparr> = Inr data"
    using assms by (auto simp: encodePayCall_def rbind_eq_Inr split: if_splits dest: mapM_shaped)
  ultimately show ?thesis
    using bound unfolding assertWithdrawalBinding_eq_Inr checkTerms_eq_Inr by simp
qed

section \<open>A concrete payment\<close>

definition example_payment_viem :: payment_viem where
  "example_payment_viem = \<lparr>pv_isAddress = (\<lambda>s. bytes s 20), pv_hashTypedData = (\<lambda>_. Inr (hash_of (CHR ''1''))),
     pv_encodeFunctionData = (\<lambda>_. Inr ''0x''), pv_decodeErrorResult = (\<lambda>_. Inl (PortError ''''))\<rparr>"

definition example_deployment :: PaymentDeployment where
  "example_deployment = \<lparr>pd_adapter = address_of (CHR ''c''), pd_token = address_of (CHR ''2''),
     pd_pool = address_of (CHR ''a''), pd_router = address_of (CHR ''3''), pd_factory = address_of (CHR ''4''),
     pd_weth = address_of (CHR ''5''), pd_pair = address_of (CHR ''6'')\<rparr>"

definition example_terms :: "string \<Rightarrow> PaymentTerms" where
  "example_terms i = \<lparr>pt_operationId = i, pt_owner = address_of (CHR ''b''), pt_ethAmount = 5,
     pt_token = address_of (CHR ''2''), pt_minAmountOut = 1, pt_recipient = address_of (CHR ''1''), pt_deadline = 1000\<rparr>"

definition example_withdrawal :: OperationRequest where
  "example_withdrawal = (example_deposit (CHR ''b''))\<lparr>req_kind := 2, req_inputIds := [hash_of (CHR ''a'')], req_d := 0,
     req_w := 5, req_destination := address_of (CHR ''c'')\<rparr>"

definition example_draft :: "string \<Rightarrow> LocalDraft" where
  "example_draft i = \<lparr>dr_context = example_context, dr_request = example_withdrawal, dr_operationId = i,
     dr_outputIds = [], dr_openings = [], dr_inputOpenings = [], dr_balanceProof = \<lparr>Rx = 0, Ry = 0, proof_s = 0\<rparr>,
     dr_rangeProofs = [\<lparr>coords = replicate 10 0, scalars = replicate 5 0, rp_ls = [], rp_rs = []\<rparr>],
     dr_signature = None\<rparr>"

definition example_wallet_signature :: string where
  "example_wallet_signature = ''0x'' @ replicate 130 (CHR ''1'')"

lemma example_wallet_signature_bytes: "bytes example_wallet_signature 65"
  by (simp add: bytes_def example_wallet_signature_def list_all_length)

lemma lower_letters:
  "toLowerCase (address_of c) = ''0x'' @ replicate 40 (lower_char c)"
proof -
  have "lower_char (CHR ''0'') = CHR ''0''" "lower_char (CHR ''x'') = CHR ''x''" by (simp_all add: lower_char_def)
  then show ?thesis by (simp add: toLowerCase_def address_of_def)
qed

lemma zeroAddress_letters: "zeroAddress = address_of (CHR ''0'')"
  by (simp add: zeroAddress_def address_of_def)

lemma same_address: "sameText (address_of c) (address_of d) \<longleftrightarrow> lower_char c = lower_char d"
  by (simp add: sameText_def lower_letters replicate_eq_replicate)

lemma digit_letters [simp]: "is_hex (CHR ''0'')" "is_hex (CHR ''2'')" "is_hex (CHR ''3'')" "is_hex (CHR ''4'')"
  "is_hex (CHR ''5'')" "is_hex (CHR ''6'')"
  by (simp_all add: is_hex_def)

lemma lower_examples:
  "lower_char (CHR ''0'') = CHR ''0''" "lower_char (CHR ''1'') = CHR ''1''" "lower_char (CHR ''2'') = CHR ''2''"
  "lower_char (CHR ''3'') = CHR ''3''" "lower_char (CHR ''4'') = CHR ''4''" "lower_char (CHR ''5'') = CHR ''5''"
  "lower_char (CHR ''6'') = CHR ''6''" "lower_char (CHR ''a'') = CHR ''a''" "lower_char (CHR ''b'') = CHR ''b''"
  "lower_char (CHR ''c'') = CHR ''c''"
  by (simp_all add: lower_char_def)

lemma example_withdrawal_shape: "well_formed_request C example_withdrawal"
  using example_packet_bytes
  by (simp add: well_formed_request_def example_withdrawal_def example_deposit_def address_of_bytes amounts_ok_def
      ownOutput_def well_formed_output_def M_max_eq valid_point_def zero_point_def zeroAddress_letters)
    (simp add: address_of_def)

lemma example_withdrawal_id: "\<exists>i. operationId model_viem example_context example_withdrawal = Inr i \<and> bytes i 32"
  by (simp add: example_withdrawal_def example_simps bytes_model_digest)

lemma example_terms_valid:
  "bytes i 32 \<Longrightarrow> checkTerms example_payment_viem (example_terms i) 1 (pd_adapter example_deployment) = Inr ()"
  by (simp add: checkTerms_eq_Inr example_terms_def example_deployment_def example_payment_viem_def validAddress_def
      zeroAddress_letters UINT256_MAX_def UINT64_MAX_def same_address lower_examples address_of_bytes)

lemma example_binding:
  assumes "operationId model_viem example_context example_withdrawal = Inr i" and "bytes i 32"
  shows "assertWithdrawalBinding C model_viem example_payment_viem (example_draft i) (example_terms i) example_deployment
    = Inr ()"
proof -
  have "req_kind example_withdrawal = 2 \<and> req_d example_withdrawal = 0 \<and> length (req_inputIds example_withdrawal) = 1 \<and>
    length (req_outputs example_withdrawal) = 1 \<and> req_w example_withdrawal = 5 \<and>
    req_owner example_withdrawal = address_of (CHR ''b'') \<and> req_destination example_withdrawal = address_of (CHR ''c'') \<and>
    out_owner (req_outputs example_withdrawal ! 0) = address_of (CHR ''b'')"
    by (simp add: example_withdrawal_def example_deposit_def)
  then show ?thesis
    unfolding assertWithdrawalBinding_eq_Inr using assms example_withdrawal_shape example_terms_valid
    by (simp add: example_terms_def example_draft_def example_deployment_def forbiddenRecipients_def
        zeroAddress_letters same_address lower_examples example_context_def)
qed

lemma example_pay_call:
  assumes "operationId model_viem example_context example_withdrawal = Inr i" and "bytes i 32"
  shows "encodePayCall C model_viem example_payment_viem (example_draft i) (example_terms i) example_deployment
    example_wallet_signature example_wallet_signature = Inr ''0x''"
  unfolding encodePayCall_def
  using example_binding [OF assms] example_wallet_signature_bytes
  by (simp add: example_draft_def shaped_proof_def) (simp add: example_payment_viem_def)

theorem pay_call_binds_witness:
  "\<exists>i. encodePayCall model_curve model_viem example_payment_viem (example_draft i) (example_terms i) example_deployment
      example_wallet_signature example_wallet_signature = Inr ''0x'' \<and>
    req_w (dr_request (example_draft i)) = pt_ethAmount (example_terms i)"
proof -
  from example_withdrawal_id obtain i where i: "operationId model_viem example_context example_withdrawal = Inr i" "bytes i 32"
    by blast
  have call: "encodePayCall model_curve model_viem example_payment_viem (example_draft i) (example_terms i) example_deployment
      example_wallet_signature example_wallet_signature = Inr ''0x''" by (rule example_pay_call [OF i])
  from pay_call_binds [OF call] call show ?thesis by blast
qed

end
