(* ===== verification/PayProcess.thy ===== *)
theory PayProcess
  imports Payment
begin

text \<open>
  \<open>packages/uniswap/src/process.ts\<close>: the payment client.  Every call of a port is a step over the world; the
  client reserves, marks the start of signing, signs, stores the attempt and submits, and recovers unfinished
  operations after rechecking them.
\<close>

record PreparedBase =
  pb_record :: OperationRecord
  pb_privateBytes :: octets
  pb_poolAuthorization :: js_value
  pb_quote :: "PayQuote option" \<comment> \<open>present on a prepared payment, absent on a prepared withdrawal\<close>

record AuthorizationSignatures =
  as_pool :: string
  as_payment :: "string option"

datatype SubmissionOutcome = Submitted TxHash | OutcomeNotSubmitted | OutcomeUnknown

record EncryptContext =
  ec_scope :: Scope
  ec_recordId :: Bytes32
  ec_revision :: int

record 'w RecoveryPorts =
  readEvidence :: "SavedReservation \<Rightarrow> ('w, pay_error, RecoveryEvidence \<times> CurrentInput) run"
  restoreOriginal :: "SavedReservation \<Rightarrow> RecoveryEvidence
    \<Rightarrow> ('w, pay_error, PreparedBase \<times> AuthorizationSignatures option) run"
  restoreForRetry :: "SavedReservation \<Rightarrow> RecoveryEvidence
    \<Rightarrow> ('w, pay_error, PreparedBase \<times> AuthorizationSignatures) run"
  releaseOriginal :: "SavedReservation \<Rightarrow> RecoveryEvidence \<Rightarrow> ('w, pay_error, SavedReservation) run"

record 'w ReconciliationPorts =
  rn_expectedChainId :: int
  readFinalized :: "OperationRef \<Rightarrow> SavedReservation \<Rightarrow> ('w, pay_error, FinalizedHistory \<times> receipt_result) run"

record 'w PaymentPorts =
  reservations :: "'w ReservationPort"
  recovery_ports :: "'w RecoveryPorts option"
  reconciliation :: "'w ReconciliationPorts option"
  port_preparePay :: "js_value \<Rightarrow> ('w, pay_error, PreparedBase) run"
  port_prepareFullWithdraw :: "js_value \<Rightarrow> ('w, pay_error, PreparedBase) run"
  refreshPay :: "PreparedBase \<Rightarrow> ('w, pay_error, PreparedBase) run"
  validatePrepared :: "PreparedBase \<Rightarrow> ('w, pay_error, unit) run"
  currentScope :: "('w, pay_error, Scope) run"
  pay_clock :: "'w MonotonicClock"
  latestBlockTime :: "('w, pay_error, int) run"
  port_encrypt :: "octets \<Rightarrow> EncryptContext \<Rightarrow> ('w, pay_error, EncryptedBundle) run"
  sealContent :: "PreparedBase \<Rightarrow> AuthorizationSignatures \<Rightarrow> AttemptId option \<Rightarrow> TxHash option
    \<Rightarrow> ('w, pay_error, octets) run"
  signPool :: "js_value \<Rightarrow> ('w, pay_error, string) run"
  signPayment :: "PreparedBase \<Rightarrow> ('w, pay_error, string) run"
  createAttempt :: "PreparedBase \<Rightarrow> AuthorizationSignatures \<Rightarrow> ('w, pay_error, AttemptId) run"
  port_submit :: "PreparedBase \<Rightarrow> AuthorizationSignatures \<Rightarrow> AttemptId \<Rightarrow> ('w, pay_error, SubmissionOutcome) run"

section \<open>Comparisons and checks\<close>

definition sameScope :: "Scope \<Rightarrow> Scope \<Rightarrow> bool" where
  "sameScope a b \<longleftrightarrow> sc_deploymentId a = sc_deploymentId b \<and> sameText (sc_owner a) (sc_owner b)"

text \<open>\<open>ids.join('\u0000')\<close>.\<close>

fun join_ids :: "string list \<Rightarrow> string" where
  "join_ids [] = []"
| "join_ids [i] = i"
| "join_ids (i # j # is) = i @ CHR 0x00 # join_ids (j # is)"

definition process_error :: "ProcessErrorCode \<Rightarrow> pay_error" where
  "process_error code = PaymentProcessError code"

abbreviation then_run :: "('w, 'e, 'a) run \<Rightarrow> ('w, 'e, 'b) run \<Rightarrow> ('w, 'e, 'b) run" where
  "then_run m n \<equiv> ebind m (\<lambda>_. n)"

definition fail_when :: "bool \<Rightarrow> ProcessErrorCode \<Rightarrow> ('w, pay_error, unit) run" where
  "fail_when b code = elift (require (\<not> b) (process_error code))"

definition same_bundle :: "EncryptedBundle \<Rightarrow> EncryptedBundle \<Rightarrow> bool" where
  "same_bundle a b \<longleftrightarrow> eb_ciphertext a = eb_ciphertext b \<and> eb_nonce a = eb_nonce b \<and> eb_tag a = eb_tag b"

text \<open>Equal kinds and, for payments, equal payment identifiers and deadlines.\<close>

fun same_payment :: "record_kind \<Rightarrow> record_kind \<Rightarrow> bool" where
  "same_payment (Pay p d) (Pay p' d') = (sameText p p' \<and> d = d')"
| "same_payment Withdraw Withdraw = True"
| "same_payment _ _ = False"

definition assertScope :: "'w PaymentPorts \<Rightarrow> Scope \<Rightarrow> ('w, pay_error, unit) run" where
  "assertScope P scope = ebind (currentScope P) (\<lambda>current. fail_when (\<not> sameScope current scope) SCOPE_CHANGED)"

definition assertSaved :: "SavedReservation \<Rightarrow> OperationRecord \<Rightarrow> int \<Rightarrow> ('w, pay_error, unit) run" where
  "assertSaved saved expected revision =
     (let r = so_record saved in
      then_run
        (fail_when (sr_reservationState saved \<noteq> active \<or> so_revision saved \<noteq> revision \<or>
           \<not> sameScope (rb_scope r) (rb_scope expected) \<or>
           \<not> sameText (rb_recordId r) (rb_recordId expected) \<or>
           \<not> sameText (rb_inputId r) (rb_inputId expected) \<or>
           \<not> sameText (rb_operationId r) (rb_operationId expected) \<or>
           \<not> sameText (rb_contentHash r) (rb_contentHash expected) \<or>
           \<not> same_payment (rec_kind r) (rec_kind expected) \<or>
           rb_signatureStarted r \<noteq> rb_signatureStarted expected \<or>
           join_ids (rb_attemptIds r) \<noteq> join_ids (rb_attemptIds expected)) INPUT_RESERVED)
        (fail_when (\<not> same_bundle (rb_encryptedBundle r) (rb_encryptedBundle expected)) INPUT_RESERVED))"

definition encryptRecord :: "'w PaymentPorts \<Rightarrow> OperationRecord \<Rightarrow> octets \<Rightarrow> int \<Rightarrow> ('w, pay_error, OperationRecord) run" where
  "encryptRecord P r data revision =
     ebind (port_encrypt P data \<lparr>ec_scope = rb_scope r, ec_recordId = rb_recordId r, ec_revision = revision\<rparr>) (\<lambda>bundle.
     then_run (assertScope P (rb_scope r)) (ereturn (r\<lparr>rb_encryptedBundle := bundle\<rparr>)))"

text \<open>After a store call that threw, a read that finds exactly the expected record counts as its acknowledgement.\<close>

definition recoverAck ::
  "'w PaymentPorts \<Rightarrow> OperationRecord \<Rightarrow> int \<Rightarrow> ('w, pay_error, SavedReservation) run \<Rightarrow> ('w, pay_error, SavedReservation) run" where
  "recoverAck P expected revision action =
     ecatch action (\<lambda>cause.
       ebind (ecast cause (rp_get (reservations P) (rb_scope expected) (rb_recordId expected))) (\<lambda>found.
         case found of
           None \<Rightarrow> ethrow cause
         | Some s \<Rightarrow>
             if sr_reservationState s = active \<and> so_revision s = revision \<and>
                sameText (rb_contentHash (so_record s)) (rb_contentHash expected) \<and>
                rb_signatureStarted (so_record s) = rb_signatureStarted expected \<and>
                join_ids (rb_attemptIds (so_record s)) = join_ids (rb_attemptIds expected) \<and>
                same_bundle (rb_encryptedBundle (so_record s)) (rb_encryptedBundle expected)
             then ereturn s else ethrow cause))"

text \<open>\<open>isQuoteFresh(prepared.quote, now)\<close>; reading the start time of a missing quote throws.\<close>

definition quote_fresh :: "PreparedBase \<Rightarrow> js_number \<Rightarrow> bool pay_res" where
  "quote_fresh prepared now = (case pb_quote prepared of
     Some quote \<Rightarrow> Inr (isQuoteFresh quote now)
   | None \<Rightarrow> if now = NotFinite then Inr False else Inl TypeError)"

definition check_fresh :: "'w PaymentPorts \<Rightarrow> PreparedBase \<Rightarrow> ('w, pay_error, bool) run" where
  "check_fresh P prepared = ebind (clock_now (pay_clock P)) (\<lambda>now. elift (quote_fresh prepared now))"

definition assertPayDeadlineLive :: "'w PaymentPorts \<Rightarrow> PreparedBase \<Rightarrow> ('w, pay_error, unit) run" where
  "assertPayDeadlineLive P prepared = (case rec_kind (pb_record prepared) of
     Withdraw \<Rightarrow> ethrow (process_error TERMS_EXPIRED)
   | Pay _ deadline \<Rightarrow>
       ebind (latestBlockTime P) (\<lambda>now.
       then_run (fail_when (now \<ge> deadline) TERMS_EXPIRED) (assertScope P (rb_scope (pb_record prepared)))))"

definition assertPayTermsLive :: "'w PaymentPorts \<Rightarrow> PreparedBase \<Rightarrow> ('w, pay_error, unit) run" where
  "assertPayTermsLive P prepared =
     ebind (check_fresh P prepared) (\<lambda>fresh.
     then_run (fail_when (\<not> fresh) QUOTE_STALE) (assertPayDeadlineLive P prepared))"

definition when_pay :: "bool \<Rightarrow> ('w, pay_error, unit) run \<Rightarrow> ('w, pay_error, unit) run" where
  "when_pay isPay m = (if isPay then m else ereturn ())"

text \<open>Encrypt a record, store it with \<open>update\<close>, and accept only its acknowledgement.\<close>

definition store_update ::
  "'w PaymentPorts \<Rightarrow> Scope \<Rightarrow> OperationRecord \<Rightarrow> octets \<Rightarrow> int \<Rightarrow> int \<Rightarrow> ('w, pay_error, SavedReservation) run" where
  "store_update P scope r data previous revision =
     ebind (encryptRecord P r data revision) (\<lambda>sealed.
     ebind (recoverAck P sealed revision (rp_update (reservations P) sealed previous revision)) (\<lambda>saved.
     then_run (assertScope P scope) (then_run (assertSaved saved sealed revision) (ereturn saved))))"

definition store_reserve ::
  "'w PaymentPorts \<Rightarrow> Scope \<Rightarrow> OperationRecord \<Rightarrow> octets \<Rightarrow> ('w, pay_error, SavedReservation) run" where
  "store_reserve P scope r data =
     ebind (encryptRecord P r data 1) (\<lambda>sealed.
     ebind (recoverAck P sealed 1 (rp_reserve (reservations P) sealed 0 1)) (\<lambda>saved.
     then_run (assertScope P scope) (then_run (assertSaved saved sealed 1) (ereturn saved))))"

definition persistKnownHash ::
  "'w PaymentPorts \<Rightarrow> SavedReservation \<Rightarrow> PreparedBase \<Rightarrow> AuthorizationSignatures \<Rightarrow> AttemptId \<Rightarrow> TxHash
   \<Rightarrow> ('w, pay_error, unit) run" where
  "persistKnownHash P saved prepared signatures attemptId txHash =
     (let revision = so_revision saved + 1 in
      ebind (sealContent P prepared signatures (Some attemptId) (Some txHash)) (\<lambda>data.
      then_run (store_update P (rb_scope (so_record saved)) (so_record saved) data (so_revision saved) revision)
        (ereturn ())))"

section \<open>Authorizing\<close>

definition check_authorizable :: "PreparedBase \<Rightarrow> Bytes32 \<Rightarrow> bool \<Rightarrow> ('w, pay_error, unit) run" where
  "check_authorizable prepared confirmedContentHash isPay =
     fail_when (\<not> sameText confirmedContentHash (rb_contentHash (pb_record prepared)) \<or>
        rb_signatureStarted (pb_record prepared) \<or> length (rb_attemptIds (pb_record prepared)) \<noteq> 0 \<or>
        (isPay \<and> \<not> is_pay (rec_kind (pb_record prepared))) \<or>
        (\<not> isPay \<and> is_pay (rec_kind (pb_record prepared)))) INPUT_INVALID"

definition refresh_stale :: "'w PaymentPorts \<Rightarrow> PreparedBase \<Rightarrow> Bytes32 \<Rightarrow> Scope \<Rightarrow> ('w, pay_error, PreparedBase) run" where
  "refresh_stale P prepared confirmedContentHash initialScope =
     ebind (check_fresh P prepared) (\<lambda>fresh.
       if fresh then ereturn prepared
       else ebind (refreshPay P prepared) (\<lambda>refreshed.
         then_run (assertScope P initialScope)
        (then_run (fail_when (\<not> sameText (rb_contentHash (pb_record refreshed)) confirmedContentHash) TERMS_CHANGED)
        (ebind (check_fresh P refreshed) (\<lambda>again.
         then_run (fail_when (\<not> again) QUOTE_STALE) (ereturn refreshed))))))"

definition collect_signatures ::
  "'w PaymentPorts \<Rightarrow> Scope \<Rightarrow> PreparedBase \<Rightarrow> bool \<Rightarrow> ('w, pay_error, AuthorizationSignatures) run" where
  "collect_signatures P scope prepared isPay =
     then_run (when_pay isPay (assertPayDeadlineLive P prepared))
    (ebind (signPool P (pb_poolAuthorization prepared)) (\<lambda>pool.
     then_run (assertScope P scope)
    (then_run (when_pay isPay (assertPayDeadlineLive P prepared))
    (ebind (if isPay then ebind (signPayment P prepared) (\<lambda>s. ereturn (Some s)) else ereturn None) (\<lambda>payment.
     then_run (assertScope P scope) (ereturn \<lparr>as_pool = pool, as_payment = payment\<rparr>))))))"

definition reference ::
  "Scope \<Rightarrow> OperationRecord \<Rightarrow> AttemptId list \<Rightarrow> TxHash list \<Rightarrow> ChainOutcome \<Rightarrow> OperationRef" where
  "reference scope r attempts txs outcome =
     \<lparr>ref_scope = scope, ref_operationId = rb_operationId r, ref_paymentId = payment_id (rec_kind r),
      ref_attemptIds = attempts, ref_txHashes = txs, ref_chainOutcome = outcome, ref_receiptState = receipt_none\<rparr>"

fun outcome_reference :: "Scope \<Rightarrow> OperationRecord \<Rightarrow> AttemptId \<Rightarrow> SubmissionOutcome \<Rightarrow> OperationRef" where
  "outcome_reference scope r attemptId (Submitted h) = reference scope r [attemptId] [h] chain_pending"
| "outcome_reference scope r attemptId OutcomeNotSubmitted = reference scope r [attemptId] [] not_submitted"
| "outcome_reference scope r attemptId OutcomeUnknown = reference scope r [attemptId] [] chain_unknown"

definition submit_attempt ::
  "'w PaymentPorts \<Rightarrow> Scope \<Rightarrow> PreparedBase \<Rightarrow> SavedReservation \<Rightarrow> AuthorizationSignatures \<Rightarrow> AttemptId \<Rightarrow> bool
   \<Rightarrow> ('w, pay_error, OperationRef) run" where
  "submit_attempt P scope prepared attempted signatures attemptId isPay =
     then_run (when_pay isPay (assertPayDeadlineLive P prepared))
    (ebind (ecatch (port_submit P prepared signatures attemptId) (\<lambda>_. ereturn OutcomeUnknown)) (\<lambda>outcome.
     then_run (assertScope P scope)
    (then_run (case outcome of
        Submitted h \<Rightarrow> persistKnownHash P attempted prepared signatures attemptId h
      | _ \<Rightarrow> ereturn ())
    (ereturn (outcome_reference scope (pb_record prepared) attemptId outcome)))))"

definition authorize_prepared ::
  "'w PaymentPorts \<Rightarrow> Scope \<Rightarrow> PreparedBase \<Rightarrow> bool \<Rightarrow> bool \<Rightarrow> ('w, pay_error, OperationRef) run" where
  "authorize_prepared P scope prepared isPay exportOnly =
     then_run (validatePrepared P prepared)
    (then_run (assertScope P scope)
    (ebind (store_reserve P scope (pb_record prepared) (pb_privateBytes prepared)) (\<lambda>reserved.
     then_run (when_pay isPay (assertPayTermsLive P prepared))
    (ebind (store_update P scope ((so_record reserved)\<lparr>rb_signatureStarted := True\<rparr>) (pb_privateBytes prepared) 1 2) (\<lambda>started.
     ebind (collect_signatures P scope prepared isPay) (\<lambda>signatures.
     ebind (sealContent P prepared signatures None None) (\<lambda>signedBytes.
     ebind (store_update P scope (so_record started) signedBytes 2 3) (\<lambda>signed.
       if exportOnly then ereturn (reference scope (pb_record prepared) [] [] not_submitted)
       else ebind (createAttempt P prepared signatures) (\<lambda>attemptId.
            ebind (sealContent P prepared signatures (Some attemptId) None) (\<lambda>attemptBytes.
            ebind (store_update P scope
                ((so_record signed)\<lparr>rb_attemptIds := rb_attemptIds (so_record signed) @ [attemptId]\<rparr>) attemptBytes 3 4) (\<lambda>attempted.
              submit_attempt P scope prepared attempted signatures attemptId isPay)))))))))))"

definition authorize ::
  "'w PaymentPorts \<Rightarrow> PreparedBase \<Rightarrow> Bytes32 \<Rightarrow> bool \<Rightarrow> bool \<Rightarrow> ('w, pay_error, OperationRef) run" where
  "authorize P preparedInput confirmedContentHash isPay exportOnly =
     (let initialScope = rb_scope (pb_record preparedInput) in
      then_run (assertScope P initialScope)
     (then_run (check_authorizable preparedInput confirmedContentHash isPay)
     (ebind (if isPay
             then ebind (refresh_stale P preparedInput confirmedContentHash initialScope) (\<lambda>prepared.
                  then_run (assertPayTermsLive P prepared) (ereturn prepared))
             else ereturn preparedInput) (\<lambda>prepared.
      authorize_prepared P initialScope prepared isPay exportOnly))))"

section \<open>Recovering\<close>

definition find_record :: "Bytes32 \<Rightarrow> SavedReservation list \<Rightarrow> SavedReservation option" where
  "find_record recordId records = find (\<lambda>s. sameText (rb_recordId (so_record s)) recordId) records"

text \<open>A released payment may have crashed before its successor was prepared: its checks are those of an active one.\<close>

definition checked_view :: "recovery_action \<Rightarrow> SavedReservation \<Rightarrow> SavedReservation" where
  "checked_view action saved =
     (if action = change_terms \<and> sr_reservationState saved = released
      then saved\<lparr>sr_reservationState := active\<rparr> else saved)"

definition recover ::
  "'w PaymentPorts \<Rightarrow> Bytes32 \<Rightarrow> recovery_action
   \<Rightarrow> ('w RecoveryPorts \<Rightarrow> SavedReservation \<Rightarrow> RecoveryEvidence \<Rightarrow> ('w, pay_error, 'a) run) \<Rightarrow> ('w, pay_error, 'a) run" where
  "recover P recordId action execute = (case recovery_ports P of
     None \<Rightarrow> ethrow (process_error RECOVERY_UNAVAILABLE)
   | Some recovery \<Rightarrow>
     ebind (currentScope P) (\<lambda>scope.
     ebind (rp_list (reservations P) scope) (\<lambda>(availability, records).
     then_run (assertScope P scope)
    (then_run (fail_when (availability \<noteq> list_healthy) RECOVERY_BLOCKED)
    (case find_record recordId records of
       None \<Rightarrow> ethrow (process_error RECOVERY_BLOCKED)
     | Some saved \<Rightarrow>
       then_run (fail_when (\<not> sameScope (rb_scope (so_record saved)) scope) RECOVERY_BLOCKED)
      (ebind (readEvidence recovery saved) (\<lambda>(evidence, currentInput).
       then_run (assertScope P scope)
      (ebind (rp_get (reservations P) scope recordId) (\<lambda>latest.
       then_run (assertScope P scope)
      (then_run (fail_when (case latest of None \<Rightarrow> True | Some l \<Rightarrow>
           so_revision l \<noteq> so_revision saved \<or> sr_reservationState l \<noteq> sr_reservationState saved \<or>
           \<not> sameText (rb_contentHash (so_record l)) (rb_contentHash (so_record saved)) \<or>
           join_ids (rb_attemptIds (so_record l)) \<noteq> join_ids (rb_attemptIds (so_record saved))) RECOVERY_BLOCKED)
      (then_run (fail_when (rd_action (inspectOperation (checked_view action saved) evidence currentInput) \<noteq> action)
           RECOVERY_BLOCKED)
      (then_run (fail_when (action = retry_attempt \<and> \<not> rb_signatureStarted (so_record saved)) RECOVERY_BLOCKED)
      (ebind (execute recovery saved evidence) (\<lambda>result.
       then_run (assertScope P scope) (ereturn result)))))))))))))))"

definition assertRecoveredPrepared :: "'w PaymentPorts \<Rightarrow> SavedReservation \<Rightarrow> PreparedBase \<Rightarrow> ('w, pay_error, unit) run" where
  "assertRecoveredPrepared P saved prepared =
     (let s = so_record saved; r = pb_record prepared in
      then_run (assertScope P (rb_scope s))
        (fail_when (\<not> sameScope (rb_scope r) (rb_scope s) \<or> \<not> sameText (rb_recordId r) (rb_recordId s) \<or>
           \<not> sameText (rb_inputId r) (rb_inputId s) \<or> \<not> sameText (rb_contentHash r) (rb_contentHash s) \<or>
           \<not> sameText (rb_operationId r) (rb_operationId s) \<or>
           \<not> same_payment (rec_kind r) (rec_kind s)) RECOVERY_BLOCKED))"

definition submitRecovered ::
  "'w PaymentPorts \<Rightarrow> SavedReservation \<Rightarrow> PreparedBase \<Rightarrow> AuthorizationSignatures \<Rightarrow> ('w, pay_error, SubmissionOutcome) run" where
  "submitRecovered P saved prepared signatures =
     (let scope = rb_scope (so_record saved); isPay = is_pay (rec_kind (pb_record prepared)) in
      then_run (assertRecoveredPrepared P saved prepared)
     (then_run (fail_when (isPay \<and> as_payment signatures = None) RECOVERY_BLOCKED)
     (then_run (validatePrepared P prepared)
     (then_run (assertScope P scope)
     (then_run (when_pay isPay (assertPayDeadlineLive P prepared))
     (ebind (createAttempt P prepared signatures) (\<lambda>attemptId.
      then_run (fail_when (attemptId \<in> set (rb_attemptIds (so_record saved))) RECOVERY_BLOCKED)
     (ebind (sealContent P prepared signatures (Some attemptId) None) (\<lambda>attemptBytes.
      ebind (store_update P scope
          ((so_record saved)\<lparr>rb_attemptIds := rb_attemptIds (so_record saved) @ [attemptId]\<rparr>) attemptBytes
          (so_revision saved) (so_revision saved + 1)) (\<lambda>attempted.
      then_run (when_pay isPay (assertPayDeadlineLive P prepared))
     (ebind (ecatch (ebind (port_submit P prepared signatures attemptId) (\<lambda>outcome. ereturn (Some outcome)))
               (\<lambda>_. ereturn None)) (\<lambda>outcome.
        case outcome of
          None \<Rightarrow> ereturn OutcomeUnknown
        | Some (Submitted h) \<Rightarrow>
            then_run (persistKnownHash P attempted prepared signatures attemptId h) (ereturn (Submitted h))
        | Some other \<Rightarrow> ereturn other))))))))))))"

definition start_signing ::
  "'w PaymentPorts \<Rightarrow> SavedReservation \<Rightarrow> PreparedBase \<Rightarrow> ('w, pay_error, SavedReservation) run" where
  "start_signing P saved prepared =
     (if rb_signatureStarted (so_record saved) then ereturn saved
      else then_run (when_pay (is_pay (rec_kind (pb_record prepared))) (assertPayTermsLive P prepared))
          (store_update P (rb_scope (so_record saved)) ((so_record saved)\<lparr>rb_signatureStarted := True\<rparr>)
             (pb_privateBytes prepared) (so_revision saved) (so_revision saved + 1)))"

definition sign_again ::
  "'w PaymentPorts \<Rightarrow> Scope \<Rightarrow> SavedReservation \<Rightarrow> PreparedBase \<Rightarrow> ('w, pay_error, SavedReservation \<times> AuthorizationSignatures) run" where
  "sign_again P scope current prepared =
     ebind (collect_signatures P scope prepared (is_pay (rec_kind (pb_record prepared)))) (\<lambda>signatures.
     ebind (sealContent P prepared signatures None None) (\<lambda>data.
     ebind (store_update P scope (so_record current) data (so_revision current) (so_revision current + 1)) (\<lambda>signed.
       ereturn (signed, signatures))))"

definition resumeOriginal ::
  "'w PaymentPorts \<Rightarrow> SavedReservation \<Rightarrow> PreparedBase \<Rightarrow> AuthorizationSignatures option
   \<Rightarrow> ('w, pay_error, SubmissionOutcome) run" where
  "resumeOriginal P saved prepared restored =
     then_run (assertRecoveredPrepared P saved prepared)
    (then_run (fail_when (\<not> rb_signatureStarted (so_record saved) \<and> restored \<noteq> None) RECOVERY_BLOCKED)
    (ebind (start_signing P saved prepared) (\<lambda>current.
     ebind (case restored of
              Some signatures \<Rightarrow> ereturn (current, signatures)
            | None \<Rightarrow> sign_again P (rb_scope (so_record saved)) current prepared) (\<lambda>(signed, signatures).
       submitRecovered P signed prepared signatures))))"

section \<open>Changing the terms\<close>

definition sameReleased :: "SavedReservation \<Rightarrow> SavedReservation \<Rightarrow> bool" where
  "sameReleased a b \<longleftrightarrow>
     (let r = so_record a; s = so_record b in
      sr_reservationState a = released \<and> sr_reservationState b = released \<and> so_revision a = so_revision b \<and>
      sameScope (rb_scope r) (rb_scope s) \<and> sameText (rb_recordId r) (rb_recordId s) \<and>
      sameText (rb_inputId r) (rb_inputId s) \<and> sameText (rb_operationId r) (rb_operationId s) \<and>
      sameText (rb_contentHash r) (rb_contentHash s) \<and>
      rb_signatureStarted r = rb_signatureStarted s \<and> join_ids (rb_attemptIds r) = join_ids (rb_attemptIds s) \<and>
      same_bundle (rb_encryptedBundle r) (rb_encryptedBundle s) \<and> same_payment (rec_kind r) (rec_kind s))"

definition release_of ::
  "'w PaymentPorts \<Rightarrow> 'w RecoveryPorts \<Rightarrow> SavedReservation \<Rightarrow> RecoveryEvidence \<Rightarrow> ('w, pay_error, SavedReservation option) run" where
  "release_of P recovery saved evidence =
     (if sr_reservationState saved = released then ereturn (Some saved)
      else ecatch (ebind (releaseOriginal recovery saved evidence) (\<lambda>r. ereturn (Some r)))
             (\<lambda>_. rp_get (reservations P) (rb_scope (so_record saved)) (rb_recordId (so_record saved))))"

definition release_confirmed ::
  "SavedReservation \<Rightarrow> SavedReservation option \<Rightarrow> SavedReservation option \<Rightarrow> list_availability \<Rightarrow> SavedReservation list \<Rightarrow> bool" where
  "release_confirmed saved released' current availability records \<longleftrightarrow>
     availability = list_healthy \<and>
     (case (released', current) of
        (Some rel, Some cur) \<Rightarrow>
          (let r = so_record rel; s = so_record saved in
           so_revision rel = so_revision saved + (if sr_reservationState saved = released then 0 else 1) \<and>
           sameReleased rel cur \<and>
           sameReleased rel (case find_record (rb_recordId s) records of Some l \<Rightarrow> l | None \<Rightarrow> saved) \<and>
           sameScope (rb_scope s) (rb_scope r) \<and> sameText (rb_recordId s) (rb_recordId r) \<and>
           sameText (rb_inputId s) (rb_inputId r) \<and> sameText (rb_operationId s) (rb_operationId r) \<and>
           sameText (rb_contentHash s) (rb_contentHash r) \<and>
           rb_signatureStarted s = rb_signatureStarted r \<and> join_ids (rb_attemptIds s) = join_ids (rb_attemptIds r) \<and>
           same_payment (rec_kind s) (rec_kind r))
      | _ \<Rightarrow> False)"

definition successor_of :: "OperationRecord \<Rightarrow> OperationRecord \<Rightarrow> bool" where
  "successor_of new old \<longleftrightarrow>
     (case rec_kind new of Withdraw \<Rightarrow> False
      | Pay paymentId _ \<Rightarrow> \<not> sameText paymentId (case rec_kind old of Pay p _ \<Rightarrow> p | Withdraw \<Rightarrow> '''')) \<and>
     sameScope (rb_scope new) (rb_scope old) \<and> sameText (rb_inputId new) (rb_inputId old) \<and>
     \<not> sameText (rb_recordId new) (rb_recordId old) \<and> \<not> sameText (rb_operationId new) (rb_operationId old) \<and>
     \<not> sameText (rb_contentHash new) (rb_contentHash old) \<and>
     \<not> rb_signatureStarted new \<and> length (rb_attemptIds new) = 0"

definition prepareChangedTerms ::
  "'w PaymentPorts \<Rightarrow> 'w RecoveryPorts \<Rightarrow> SavedReservation \<Rightarrow> RecoveryEvidence \<Rightarrow> js_value \<Rightarrow> ('w, pay_error, PreparedBase) run" where
  "prepareChangedTerms P recovery saved evidence input =
     (let s = so_record saved in
      ebind (release_of P recovery saved evidence) (\<lambda>rel.
      then_run (assertScope P (rb_scope s))
     (ebind (rp_list (reservations P) (rb_scope s)) (\<lambda>(availability, records).
      ebind (rp_get (reservations P) (rb_scope s) (rb_recordId s)) (\<lambda>current.
      then_run (assertScope P (rb_scope s))
     (then_run (fail_when (\<not> release_confirmed saved rel current availability records) RECOVERY_BLOCKED)
     (ebind (port_preparePay P input) (\<lambda>prepared.
      then_run (assertScope P (rb_scope s))
     (then_run (fail_when (\<not> successor_of (pb_record prepared) s) RECOVERY_BLOCKED)
     (then_run (assertPayTermsLive P prepared)
     (then_run (validatePrepared P prepared)
     (then_run (assertScope P (rb_scope s)) (ereturn prepared)))))))))))))"

definition process_reconcile ::
  "'w PaymentPorts \<Rightarrow> Bytes32 \<Rightarrow> OperationRef \<Rightarrow> ('w, pay_error, ReconciledPayment) run" where
  "process_reconcile P recordId ref = (case reconciliation P of
     None \<Rightarrow> ethrow (process_error RECOVERY_UNAVAILABLE)
   | Some adapter \<Rightarrow>
     ebind (currentScope P) (\<lambda>scope.
     then_run (fail_when (\<not> sameScope scope (ref_scope ref)) SCOPE_CHANGED)
    (ebind (rp_list (reservations P) scope) (\<lambda>(availability, records).
     then_run (assertScope P scope)
    (then_run (fail_when (availability \<noteq> list_healthy) RECOVERY_BLOCKED)
    (case find_record recordId records of
       None \<Rightarrow> ethrow (process_error RECOVERY_BLOCKED)
     | Some saved \<Rightarrow>
       let s = so_record saved in
       then_run (fail_when (\<not> sameScope (rb_scope s) scope \<or> \<not> sameText (rb_operationId s) (ref_operationId ref) \<or>
           (case rec_kind s of Withdraw \<Rightarrow> True
            | Pay p _ \<Rightarrow> \<not> sameText p (case ref_paymentId ref of Some q \<Rightarrow> q | None \<Rightarrow> ''''))) RECOVERY_BLOCKED)
      (ebind (readFinalized adapter ref saved) (\<lambda>(history, receipt).
       then_run (assertScope P scope)
      (ebind (rp_get (reservations P) scope recordId) (\<lambda>latest.
       then_run (assertScope P scope)
      (then_run (fail_when (case latest of None \<Rightarrow> True | Some l \<Rightarrow>
           so_revision l \<noteq> so_revision saved \<or>
           \<not> sameText (rb_contentHash (so_record l)) (rb_contentHash s)) RECOVERY_BLOCKED)
      (ereturn (reconcilePayment ref s history (coreReceiptResult receipt) (rn_expectedChainId adapter))))))))))))))"

section \<open>The client\<close>

datatype client_request =
    AuthorizePay PreparedBase Bytes32
  | AuthorizePayForExport PreparedBase Bytes32
  | AuthorizeFullWithdraw PreparedBase Bytes32
  | ResumeOriginal Bytes32
  | RetryAttempt Bytes32

datatype client_response = Reference OperationRef | Outcome SubmissionOutcome

definition emap :: "('a \<Rightarrow> 'b) \<Rightarrow> ('w, 'e, 'a) run \<Rightarrow> ('w, 'e, 'b) run" where
  "emap f m = ebind m (\<lambda>a. ereturn (f a))"

text \<open>The methods that sign or submit; the others only prepare or read.\<close>

fun client :: "'w PaymentPorts \<Rightarrow> client_request \<Rightarrow> ('w, pay_error, client_response) run" where
  "client P (AuthorizePay prepared h) = emap Reference (authorize P prepared h True False)"
| "client P (AuthorizePayForExport prepared h) = emap Reference (authorize P prepared h True True)"
| "client P (AuthorizeFullWithdraw prepared h) = emap Reference (authorize P prepared h False False)"
| "client P (ResumeOriginal recordId) = emap Outcome (recover P recordId resume_original (\<lambda>recovery saved evidence.
     ebind (restoreOriginal recovery saved evidence) (\<lambda>(prepared, signatures).
       resumeOriginal P saved prepared signatures)))"
| "client P (RetryAttempt recordId) = emap Outcome (recover P recordId retry_attempt (\<lambda>recovery saved evidence.
     ebind (restoreForRetry recovery saved evidence) (\<lambda>(prepared, signatures).
       submitRecovered P saved prepared signatures)))"

definition client_prepareChangedTerms :: "'w PaymentPorts \<Rightarrow> Bytes32 \<Rightarrow> js_value \<Rightarrow> ('w, pay_error, PreparedBase) run" where
  "client_prepareChangedTerms P recordId input =
     recover P recordId change_terms (\<lambda>recovery saved evidence. prepareChangedTerms P recovery saved evidence input)"

end
