(* ===== verification/Triples.thy ===== *)
theory Triples
  imports Effects
begin

text \<open>
  Pre- and postconditions of effectful computations: from a world where \<open>P\<close> holds, a computation that returns
  ends in \<open>Q\<close> of its result, and one that throws ends in \<open>E\<close>.  The rules follow the combinators of the model.
\<close>

definition triple :: "('w \<Rightarrow> bool) \<Rightarrow> ('w, 'e, 'a) run \<Rightarrow> ('a \<Rightarrow> 'w \<Rightarrow> bool) \<Rightarrow> ('w \<Rightarrow> bool) \<Rightarrow> bool" where
  "triple P m Q E \<longleftrightarrow> (\<forall>w. P w \<longrightarrow> (case m w of (Inr a, w') \<Rightarrow> Q a w' | (Inl e, w') \<Rightarrow> E w'))"

named_theorems triple_intros \<open>rules that decompose a computation\<close>

lemma tripleI:
  "(\<And>w a w'. P w \<Longrightarrow> m w = (Inr a, w') \<Longrightarrow> Q a w') \<Longrightarrow>
   (\<And>w e w'. P w \<Longrightarrow> m w = (Inl e, w') \<Longrightarrow> E w') \<Longrightarrow> triple P m Q E"
  by (auto simp: triple_def split: prod.split sum.split)

lemma tripleD:
  assumes "triple P m Q E" and "P w"
  shows "m w = (Inr a, w') \<Longrightarrow> Q a w'" and "m w = (Inl e, w') \<Longrightarrow> E w'"
  using assms by (auto simp: triple_def)

lemma triple_result:
  assumes "triple P m Q E" and "P w" and "m w = (r, w')"
  shows "(\<exists>a. r = Inr a \<and> Q a w') \<or> (\<exists>e. r = Inl e \<and> E w')"
  using tripleD [OF assms(1,2)] assms(3) by (cases r) auto

lemma triple_conseq:
  "triple P' m Q' E' \<Longrightarrow> (\<And>w. P w \<Longrightarrow> P' w) \<Longrightarrow> (\<And>a w. Q' a w \<Longrightarrow> Q a w) \<Longrightarrow> (\<And>w. E' w \<Longrightarrow> E w) \<Longrightarrow> triple P m Q E"
  unfolding triple_def by (fastforce split: prod.splits sum.splits)

lemma triple_pre: "triple P' m Q E \<Longrightarrow> (\<And>w. P w \<Longrightarrow> P' w) \<Longrightarrow> triple P m Q E"
  by (erule triple_conseq)

lemma triple_post: "triple P m Q' E \<Longrightarrow> (\<And>a w. Q' a w \<Longrightarrow> Q a w) \<Longrightarrow> triple P m Q E"
  by (erule triple_conseq)

lemma triple_bind [triple_intros]:
  assumes "triple P m R E" and "\<And>a. triple (R a) (f a) Q E"
  shows "triple P (ebind m f) Q E"
proof (rule tripleI)
  fix w b w' assume "P w" "ebind m f w = (Inr b, w')"
  then obtain a v where "P w" "m w = (Inr a, v)" "f a v = (Inr b, w')" by (auto simp: ebind_eq_Inr)
  then show "Q b w'" by (rule tripleD(1) [OF assms(2) tripleD(1) [OF assms(1)]])
next
  fix w e w' assume "P w" "ebind m f w = (Inl e, w')"
  then consider "m w = (Inl e, w')" | a v where "m w = (Inr a, v)" "f a v = (Inl e, w')"
    by (auto simp: ebind_eq_Inl)
  then show "E w'"
  proof cases
    case 1
    then show ?thesis by (rule tripleD(2) [OF assms(1) \<open>P w\<close>])
  next
    case 2
    then show ?thesis by (rule tripleD(2) [OF assms(2) tripleD(1) [OF assms(1) \<open>P w\<close>]])
  qed
qed

lemma triple_return: "(\<And>w. P w \<Longrightarrow> Q a w) \<Longrightarrow> triple P (ereturn a) Q E"
  by (simp add: triple_def)

lemma triple_throw: "(\<And>w. P w \<Longrightarrow> E w) \<Longrightarrow> triple P (ethrow e) Q E"
  by (simp add: triple_def)

lemma triple_lift: "(\<And>w a. P w \<Longrightarrow> m = Inr a \<Longrightarrow> Q a w) \<Longrightarrow> (\<And>w. P w \<Longrightarrow> E w) \<Longrightarrow> triple P (elift m) Q E"
  by (cases m) (simp_all add: triple_def)

lemma triple_catch:
  assumes "triple P m Q R" and "\<And>e. triple R (h e) Q E"
  shows "triple P (ecatch m h) Q E"
proof (rule tripleI)
  fix w b w' assume "P w" "ecatch m h w = (Inr b, w')"
  then consider "m w = (Inr b, w')" | e v where "m w = (Inl e, v)" "h e v = (Inr b, w')"
    by (auto simp: ecatch_eq_Inr)
  then show "Q b w'"
  proof cases
    case 1
    then show ?thesis by (rule tripleD(1) [OF assms(1) \<open>P w\<close>])
  next
    case 2
    then show ?thesis by (rule tripleD(1) [OF assms(2) tripleD(2) [OF assms(1) \<open>P w\<close>]])
  qed
next
  fix w e w' assume "P w" "ecatch m h w = (Inl e, w')"
  then obtain x v where "m w = (Inl x, v)" "h x v = (Inl e, w')" by (auto simp: ecatch_eq_Inl)
  then show "E w'" by (rule tripleD(2) [OF assms(2) tripleD(2) [OF assms(1) \<open>P w\<close>]])
qed

lemma triple_cast: "triple P m Q E \<Longrightarrow> triple P (ecast e m) Q E"
  unfolding ecast_def by (erule triple_catch) (rule triple_throw)

text \<open>A condition on values, not on the world, is an assumption of the proof.\<close>

lemma triple_pure: "(\<And>w. P w \<Longrightarrow> b) \<Longrightarrow> (b \<Longrightarrow> triple P m Q E) \<Longrightarrow> triple P m Q E"
  by (simp add: triple_def)

lemma triple_exists:
  assumes "\<And>x. triple (P x) m Q E"
  shows "triple (\<lambda>w. \<exists>x. P x w) m Q E"
  by (rule tripleI; elim exE; erule (1) tripleD [OF assms])

lemma triple_if: "(b \<Longrightarrow> triple P m Q E) \<Longrightarrow> (\<not> b \<Longrightarrow> triple P n Q E) \<Longrightarrow> triple P (if b then m else n) Q E"
  by simp

section \<open>Computations that keep an invariant\<close>

text \<open>Whatever it returns or throws, the computation takes a world with \<open>I\<close> to a world with \<open>I\<close>.\<close>

definition keeps :: "('w \<Rightarrow> bool) \<Rightarrow> ('w, 'e, 'a) run \<Rightarrow> bool" where
  "keeps I m \<longleftrightarrow> (\<forall>w. I w \<longrightarrow> I (snd (m w)))"

lemma keeps_triple: "keeps I m \<longleftrightarrow> triple I m (\<lambda>_. I) I"
proof
  assume "keeps I m"
  then have k: "I (snd (m w))" if "I w" for w using that by (simp add: keeps_def)
  show "triple I m (\<lambda>_. I) I"
  proof (rule tripleI)
    show "I w'" if "I w" "m w = (Inr a, w')" for w a w' using k [OF that(1)] that(2) by simp
    show "I w'" if "I w" "m w = (Inl e, w')" for w e w' using k [OF that(1)] that(2) by simp
  qed
next
  assume t: "triple I m (\<lambda>_. I) I"
  show "keeps I m"
    unfolding keeps_def
  proof (intro allI impI)
    fix w assume "I w"
    from triple_result [OF t this, of "fst (m w)" "snd (m w)"] show "I (snd (m w))" by auto
  qed
qed

lemma keeps_return [simp, intro]: "keeps I (ereturn a)"
  and keeps_throw [simp, intro]: "keeps I (ethrow e)"
  and keeps_lift [simp, intro]: "keeps I (elift m)"
  by (simp_all add: keeps_def)

lemma keeps_bind: "keeps I m \<Longrightarrow> (\<And>a. keeps I (f a)) \<Longrightarrow> keeps I (ebind m f)"
  unfolding keeps_triple by (rule triple_bind)

lemma keeps_catch: "keeps I m \<Longrightarrow> (\<And>e. keeps I (h e)) \<Longrightarrow> keeps I (ecatch m h)"
  unfolding keeps_triple by (rule triple_catch)

end
