(* ===== verification/WriteAhead.thy ===== *)
theory WriteAhead
  imports PayProcess Triples
begin

text \<open>
  The order of the payment client's effects.  The ports are wrapped so that the world carries a trace of what was
  stored, timed, signed and submitted; the trace of every run is then shown to be write-ahead: a record that
  announces the step was read back from the store before the step was taken.
\<close>

datatype pay_event =
    Stored SavedReservation \<comment> \<open>a record that the reservation port returned\<close>
  | Clocked int \<comment> \<open>a block time that was read\<close>
  | SignsPool
  | SignsPayment
  | Submits AttemptId

fun quiet_event :: "pay_event \<Rightarrow> bool" where
  "quiet_event (Stored _) = True"
| "quiet_event (Clocked _) = True"
| "quiet_event _ = False"

type_synonym 'w tracing = "'w \<times> pay_event list"

text \<open>A call that adds the events of its result to the trace, newest first, and one that is itself an event.\<close>

definition note_result :: "('a \<Rightarrow> pay_event list) \<Rightarrow> ('w, 'e, 'a) run \<Rightarrow> ('w tracing, 'e, 'a) run" where
  "note_result f m = (\<lambda>(w, tr). case m w of
     (Inl e, w') \<Rightarrow> (Inl e, (w', tr)) | (Inr a, w') \<Rightarrow> (Inr a, (w', f a @ tr)))"

definition note_call :: "pay_event \<Rightarrow> ('w, 'e, 'a) run \<Rightarrow> ('w tracing, 'e, 'a) run" where
  "note_call ev m = (\<lambda>(w, tr). case m w of (r, w') \<Rightarrow> (r, (w', ev # tr)))"

abbreviation untraced :: "('w, 'e, 'a) run \<Rightarrow> ('w tracing, 'e, 'a) run" where
  "untraced m \<equiv> note_result (\<lambda>_. []) m"

definition traced_store :: "'w ReservationPort \<Rightarrow> 'w tracing ReservationPort" where
  "traced_store S =
     \<lparr>rp_reserve = (\<lambda>r e s. note_result (\<lambda>saved. [Stored saved]) (rp_reserve S r e s)),
      rp_update = (\<lambda>r e s. note_result (\<lambda>saved. [Stored saved]) (rp_update S r e s)),
      rp_get = (\<lambda>scope i. note_result (\<lambda>found. case found of None \<Rightarrow> [] | Some saved \<Rightarrow> [Stored saved]) (rp_get S scope i)),
      rp_list = (\<lambda>scope. note_result (\<lambda>(_, records). map Stored records) (rp_list S scope)),
      rp_release = (\<lambda>r v e s. note_result (\<lambda>saved. [Stored saved]) (rp_release S r v e s))\<rparr>"

definition traced_recovery :: "'w RecoveryPorts \<Rightarrow> 'w tracing RecoveryPorts" where
  "traced_recovery R =
     \<lparr>readEvidence = (\<lambda>s. untraced (readEvidence R s)),
      restoreOriginal = (\<lambda>s e. untraced (restoreOriginal R s e)),
      restoreForRetry = (\<lambda>s e. untraced (restoreForRetry R s e)),
      releaseOriginal = (\<lambda>s e. untraced (releaseOriginal R s e))\<rparr>"

definition traced :: "'w PaymentPorts \<Rightarrow> 'w tracing PaymentPorts" where
  "traced P =
     \<lparr>reservations = traced_store (reservations P),
      recovery_ports = map_option traced_recovery (recovery_ports P),
      reconciliation = map_option (\<lambda>R. \<lparr>rn_expectedChainId = rn_expectedChainId R,
        readFinalized = (\<lambda>ref s. untraced (readFinalized R ref s))\<rparr>) (reconciliation P),
      port_preparePay = (\<lambda>i. untraced (port_preparePay P i)),
      port_prepareFullWithdraw = (\<lambda>i. untraced (port_prepareFullWithdraw P i)),
      refreshPay = (\<lambda>p. untraced (refreshPay P p)),
      validatePrepared = (\<lambda>p. untraced (validatePrepared P p)),
      currentScope = untraced (currentScope P),
      pay_clock = \<lparr>clock_now = untraced (clock_now (pay_clock P))\<rparr>,
      latestBlockTime = note_result (\<lambda>t. [Clocked t]) (latestBlockTime P),
      port_encrypt = (\<lambda>d c. untraced (port_encrypt P d c)),
      sealContent = (\<lambda>p s a h. untraced (sealContent P p s a h)),
      signPool = (\<lambda>payload. note_call SignsPool (signPool P payload)),
      signPayment = (\<lambda>p. note_call SignsPayment (signPayment P p)),
      createAttempt = (\<lambda>p s. untraced (createAttempt P p s)),
      port_submit = (\<lambda>p s a. note_call (Submits a) (port_submit P p s a))\<rparr>"

section \<open>The discipline\<close>

text \<open>An active stored record of the operation \<open>r\<close>.\<close>

definition covers :: "OperationRecord \<Rightarrow> SavedReservation \<Rightarrow> bool" where
  "covers r s \<longleftrightarrow> sr_reservationState s = active \<and>
     sameText (rb_recordId (so_record s)) (rb_recordId r) \<and> sameText (rb_inputId (so_record s)) (rb_inputId r) \<and>
     sameText (rb_operationId (so_record s)) (rb_operationId r) \<and>
     sameText (rb_contentHash (so_record s)) (rb_contentHash r) \<and>
     same_payment (rec_kind (so_record s)) (rec_kind r)"

definition started_in :: "OperationRecord \<Rightarrow> pay_event list \<Rightarrow> bool" where
  "started_in r tr \<longleftrightarrow> (\<exists>s. Stored s \<in> set tr \<and> covers r s \<and> rb_signatureStarted (so_record s))"

definition attempted_in :: "OperationRecord \<Rightarrow> AttemptId \<Rightarrow> pay_event list \<Rightarrow> bool" where
  "attempted_in r attemptId tr \<longleftrightarrow> (\<exists>s ids. Stored s \<in> set tr \<and> covers r s \<and>
     join_ids (rb_attemptIds (so_record s)) = join_ids (ids @ [attemptId]))"

text \<open>The last thing that happened was reading a block time before the payment's deadline.\<close>

definition live :: "OperationRecord \<Rightarrow> pay_event list \<Rightarrow> bool" where
  "live r tr = (case rec_kind r of
     Withdraw \<Rightarrow> True
   | Pay _ deadline \<Rightarrow> (case tr of Clocked t # _ \<Rightarrow> t < deadline | _ \<Rightarrow> False))"

fun allowed :: "OperationRecord \<Rightarrow> pay_event list \<Rightarrow> pay_event \<Rightarrow> bool" where
  "allowed r tr SignsPool = (started_in r tr \<and> live r tr)"
| "allowed r tr SignsPayment = (started_in r tr \<and> live r tr)"
| "allowed r tr (Submits attemptId) = (attempted_in r attemptId tr \<and> live r tr)"
| "allowed r tr _ = True"

fun disciplined :: "OperationRecord \<Rightarrow> pay_event list \<Rightarrow> bool" where
  "disciplined r [] = True"
| "disciplined r (e # tr) = (allowed r tr e \<and> disciplined r tr)"

lemma started_in_mono: "started_in r tr \<Longrightarrow> set tr \<subseteq> set tr' \<Longrightarrow> started_in r tr'"
  unfolding started_in_def by blast

lemma attempted_in_mono: "attempted_in r a tr \<Longrightarrow> set tr \<subseteq> set tr' \<Longrightarrow> attempted_in r a tr'"
  unfolding attempted_in_def by blast

lemma quiet_allowed: "quiet_event e \<Longrightarrow> allowed r tr e"
  by (cases e) auto

lemma disciplined_quiet: "list_all quiet_event evs \<Longrightarrow> disciplined r (evs @ tr) \<longleftrightarrow> disciplined r tr"
  by (induction evs) (auto simp: quiet_allowed)

section \<open>Calls that only store and read\<close>

text \<open>The computation adds quiet events only.\<close>

definition calm :: "('w tracing, 'e, 'a) run \<Rightarrow> bool" where
  "calm m \<longleftrightarrow> (\<forall>w tr r w' tr'. m (w, tr) = (r, (w', tr')) \<longrightarrow> (\<exists>evs. tr' = evs @ tr \<and> list_all quiet_event evs))"

text \<open>The predicate survives quiet events.\<close>

definition stable :: "('w tracing \<Rightarrow> bool) \<Rightarrow> bool" where
  "stable K \<longleftrightarrow> (\<forall>w tr w' evs. K (w, tr) \<longrightarrow> list_all quiet_event evs \<longrightarrow> K (w', evs @ tr))"

lemma calm_keeps: "calm m \<Longrightarrow> stable K \<Longrightarrow> keeps K m"
  unfolding calm_def stable_def keeps_def by (metis prod.collapse)

lemma calm_triple: "calm m \<Longrightarrow> stable K \<Longrightarrow> triple K m (\<lambda>_. K) K"
  using calm_keeps keeps_triple by blast

named_theorems calm_intros \<open>computations that add quiet events only\<close>

lemma calm_return [calm_intros]: "calm (ereturn a)"
  and calm_throw [calm_intros]: "calm (ethrow e)"
  and calm_lift [calm_intros]: "calm (elift m)"
  by (simp_all add: calm_def)

lemma calmD:
  assumes "calm m" and "m (w, tr) = (r, (w', tr'))"
  obtains evs where "tr' = evs @ tr" and "list_all quiet_event evs"
  using assms unfolding calm_def by blast

lemma calm_bind [calm_intros]:
  assumes m: "calm m" and f: "\<And>a. calm (f a)"
  shows "calm (ebind m f)"
  unfolding calm_def
proof (intro allI impI)
  fix w tr r w' tr'
  assume run: "ebind m f (w, tr) = (r, (w', tr'))"
  obtain x w1 tr1 where mid: "m (w, tr) = (x, (w1, tr1))" by (metis prod.collapse)
  obtain evs where evs: "tr1 = evs @ tr" "list_all quiet_event evs" using calmD [OF m mid] .
  show "\<exists>evs. tr' = evs @ tr \<and> list_all quiet_event evs"
  proof (cases x)
    case (Inl e)
    with run mid evs show ?thesis by (auto simp: ebind_def)
  next
    case (Inr a)
    with run mid have "f a (w1, tr1) = (r, (w', tr'))" by (simp add: ebind_def)
    then obtain evs' where "tr' = evs' @ tr1" "list_all quiet_event evs'" using calmD [OF f] by blast
    with evs show ?thesis by auto
  qed
qed

lemma calm_catch [calm_intros]:
  assumes m: "calm m" and h: "\<And>e. calm (h e)"
  shows "calm (ecatch m h)"
  unfolding calm_def
proof (intro allI impI)
  fix w tr r w' tr'
  assume run: "ecatch m h (w, tr) = (r, (w', tr'))"
  obtain x w1 tr1 where mid: "m (w, tr) = (x, (w1, tr1))" by (metis prod.collapse)
  obtain evs where evs: "tr1 = evs @ tr" "list_all quiet_event evs" using calmD [OF m mid] .
  show "\<exists>evs. tr' = evs @ tr \<and> list_all quiet_event evs"
  proof (cases x)
    case (Inr a)
    with run mid evs show ?thesis by (auto simp: ecatch_def)
  next
    case (Inl e)
    with run mid have "h e (w1, tr1) = (r, (w', tr'))" by (simp add: ecatch_def)
    then obtain evs' where "tr' = evs' @ tr1" "list_all quiet_event evs'" using calmD [OF h] by blast
    with evs show ?thesis by auto
  qed
qed

lemma calm_cast [calm_intros]: "calm m \<Longrightarrow> calm (ecast e m)"
  unfolding ecast_def by (intro calm_intros)

lemma calm_note:
  assumes "\<And>a. list_all quiet_event (f a)"
  shows "calm (note_result f m)"
  unfolding calm_def note_result_def
proof (intro allI impI)
  fix w tr r w' tr'
  assume "(case (w, tr) of (w, tr) \<Rightarrow> case m w of
     (Inl e, w') \<Rightarrow> (Inl e, (w', tr)) | (Inr a, w') \<Rightarrow> (Inr a, (w', f a @ tr))) = (r, w', tr')"
  then show "\<exists>evs. tr' = evs @ tr \<and> list_all quiet_event evs"
    using assms by (auto split: prod.splits sum.splits)
qed

lemma calm_untraced [calm_intros]: "calm (untraced m)"
  by (rule calm_note) simp

lemma calm_if [calm_intros]: "calm m \<Longrightarrow> calm n \<Longrightarrow> calm (if b then m else n)"
  by simp

lemma calm_option [calm_intros]: "calm m \<Longrightarrow> (\<And>x. calm (f x)) \<Longrightarrow> calm (case v of None \<Rightarrow> m | Some x \<Rightarrow> f x)"
  by (cases v) auto

lemma calm_pair [calm_intros]: "(\<And>x y. calm (f x y)) \<Longrightarrow> calm (case v of (x, y) \<Rightarrow> f x y)"
  by (cases v) auto

text \<open>The quiet ports.\<close>

lemma traced_selectors [simp]:
  "reservations (traced P) = traced_store (reservations P)"
  "currentScope (traced P) = untraced (currentScope P)"
  "clock_now (pay_clock (traced P)) = untraced (clock_now (pay_clock P))"
  "latestBlockTime (traced P) = note_result (\<lambda>t. [Clocked t]) (latestBlockTime P)"
  "port_encrypt (traced P) = (\<lambda>d c. untraced (port_encrypt P d c))"
  "sealContent (traced P) = (\<lambda>p s a h. untraced (sealContent P p s a h))"
  "signPool (traced P) = (\<lambda>payload. note_call SignsPool (signPool P payload))"
  "signPayment (traced P) = (\<lambda>p. note_call SignsPayment (signPayment P p))"
  "createAttempt (traced P) = (\<lambda>p s. untraced (createAttempt P p s))"
  "port_submit (traced P) = (\<lambda>p s a. note_call (Submits a) (port_submit P p s a))"
  "refreshPay (traced P) = (\<lambda>p. untraced (refreshPay P p))"
  "validatePrepared (traced P) = (\<lambda>p. untraced (validatePrepared P p))"
  "recovery_ports (traced P) = map_option traced_recovery (recovery_ports P)"
  by (simp_all add: traced_def)

lemma calm_store [calm_intros]:
  "calm (rp_reserve (traced_store S) r e s)" "calm (rp_update (traced_store S) r e s)"
  "calm (rp_get (traced_store S) scope i)" "calm (rp_list (traced_store S) scope)"
  by (auto simp: traced_store_def list_all_iff intro!: calm_note split: option.split)

lemma calm_block_time [calm_intros]: "calm (note_result (\<lambda>t. [Clocked t]) m)"
  by (rule calm_note) simp

lemma calm_recovery [calm_intros]:
  "calm (readEvidence (traced_recovery R) s)" "calm (restoreOriginal (traced_recovery R) s ev)"
  "calm (restoreForRetry (traced_recovery R) s ev)"
  by (auto simp: traced_recovery_def intro!: calm_intros)

lemma calm_fail_when [calm_intros]: "calm (fail_when b code)"
  by (simp add: fail_when_def calm_intros)

lemma calm_scope [calm_intros]: "calm (assertScope (traced P) scope)"
  unfolding assertScope_def by (simp add: calm_intros)

lemma calm_saved [calm_intros]: "calm (assertSaved saved r revision)"
  by (simp add: assertSaved_def Let_def calm_intros)

lemma calm_encrypt [calm_intros]: "calm (encryptRecord (traced P) r data revision)"
  unfolding encryptRecord_def by (simp add: calm_intros)

lemma calm_ack [calm_intros]: "calm action \<Longrightarrow> calm (recoverAck (traced P) r revision action)"
  unfolding recoverAck_def by (simp add: calm_intros)

lemma calm_update [calm_intros]: "calm (store_update (traced P) scope r data previous revision)"
  unfolding store_update_def by (simp add: calm_intros)

lemma calm_reserve [calm_intros]: "calm (store_reserve (traced P) scope r data)"
  unfolding store_reserve_def by (simp add: calm_intros)

lemma calm_fresh [calm_intros]: "calm (check_fresh (traced P) prepared)"
  unfolding check_fresh_def by (simp add: calm_intros)

lemma calm_deadline [calm_intros]: "calm (assertPayDeadlineLive (traced P) prepared)"
  unfolding assertPayDeadlineLive_def by (cases "rec_kind (pb_record prepared)") (simp_all add: calm_intros)

lemma calm_terms [calm_intros]: "calm (assertPayTermsLive (traced P) prepared)"
  unfolding assertPayTermsLive_def by (simp add: calm_intros)

lemma calm_when_pay [calm_intros]: "calm m \<Longrightarrow> calm (when_pay b m)"
  by (simp add: when_pay_def calm_intros)

lemma calm_persist [calm_intros]: "calm (persistKnownHash (traced P) saved prepared signatures attemptId h)"
  unfolding persistKnownHash_def Let_def by (simp add: calm_intros)

lemma calm_recovered [calm_intros]: "calm (assertRecoveredPrepared (traced P) saved prepared)"
  unfolding assertRecoveredPrepared_def Let_def by (intro calm_intros)

lemma calm_refresh [calm_intros]: "calm (refresh_stale (traced P) prepared h scope)"
  unfolding refresh_stale_def by (simp add: calm_intros)

lemma calm_authorizable [calm_intros]: "calm (check_authorizable prepared h isPay)"
  unfolding check_authorizable_def by (simp add: calm_intros)

section \<open>Stable assertions\<close>

definition stored :: "SavedReservation \<Rightarrow> 'w tracing \<Rightarrow> bool" where
  "stored s w \<longleftrightarrow> Stored s \<in> set (snd w)"

text \<open>The trace of \<open>w\<close> keeps the discipline of \<open>r\<close>; in the second case signing has been announced as well.\<close>

definition ordered :: "OperationRecord \<Rightarrow> 'w tracing \<Rightarrow> bool" where
  "ordered r w \<longleftrightarrow> disciplined r (snd w)"

definition announced :: "OperationRecord \<Rightarrow> 'w tracing \<Rightarrow> bool" where
  "announced r w \<longleftrightarrow> disciplined r (snd w) \<and> started_in r (snd w)"

definition announced_attempt :: "OperationRecord \<Rightarrow> AttemptId \<Rightarrow> 'w tracing \<Rightarrow> bool" where
  "announced_attempt r a w \<longleftrightarrow> disciplined r (snd w) \<and> attempted_in r a (snd w)"

named_theorems stable_intros \<open>assertions that quiet events keep\<close>

lemma stable_stored [stable_intros]: "stable (stored s)"
  by (auto simp: stable_def stored_def)

lemma stable_ordered [stable_intros]: "stable (ordered r)"
  by (simp add: stable_def ordered_def disciplined_quiet)

lemma stable_announced [stable_intros]: "stable (announced r)"
  by (auto simp: stable_def announced_def disciplined_quiet elim!: started_in_mono)

lemma stable_attempt [stable_intros]: "stable (announced_attempt r a)"
  by (auto simp: stable_def announced_attempt_def disciplined_quiet elim!: attempted_in_mono)

lemma stable_conj [stable_intros]: "stable K \<Longrightarrow> stable L \<Longrightarrow> stable (\<lambda>w. K w \<and> L w)"
  by (auto simp: stable_def)

lemma stable_const [stable_intros]: "stable (\<lambda>_. b)"
  by (simp add: stable_def)

lemma stable_ex [stable_intros]: "(\<And>x. stable (K x)) \<Longrightarrow> stable (\<lambda>w. \<exists>x. K x w)"
  unfolding stable_def by blast

lemma announced_ordered: "announced r w \<Longrightarrow> ordered r w"
  by (simp add: announced_def ordered_def)

lemma attempt_ordered: "announced_attempt r a w \<Longrightarrow> ordered r w"
  by (simp add: announced_attempt_def ordered_def)

section \<open>What an acknowledged store leaves in the trace\<close>

text \<open>The saved record is the active one that was asked for, up to the encrypted bundle.\<close>

definition acknowledged :: "OperationRecord \<Rightarrow> int \<Rightarrow> SavedReservation \<Rightarrow> bool" where
  "acknowledged r revision s \<longleftrightarrow> covers r s \<and> so_revision s = revision \<and>
     sameScope (rb_scope (so_record s)) (rb_scope r) \<and>
     rb_signatureStarted (so_record s) = rb_signatureStarted r \<and>
     join_ids (rb_attemptIds (so_record s)) = join_ids (rb_attemptIds r)"

lemma fail_when_Inr [simp]: "fail_when b code w = (Inr u, w') \<longleftrightarrow> \<not> b \<and> w' = w"
  by (auto simp: fail_when_def require_def)

lemma assertSaved_acknowledged:
  "assertSaved s r revision w = (Inr u, w') \<Longrightarrow> acknowledged r revision s"
  by (auto simp: assertSaved_def Let_def ebind_eq_Inr acknowledged_def covers_def)

lemma recoverAck_stored:
  assumes action: "\<And>w s w'. action w = (Inr s, w') \<Longrightarrow> stored s w'"
    and run: "recoverAck (traced P) r revision action w = (Inr s, w')"
  shows "stored s w'"
proof -
  from run consider "action w = (Inr s, w')"
    | v where "rp_get (traced_store (reservations P)) (rb_scope r) (rb_recordId r) v = (Inr (Some s), w')"
    by (auto simp: recoverAck_def eff_simps split: option.splits if_splits)
  then show ?thesis
  proof cases
    case 1
    then show ?thesis by (rule action)
  next
    case 2
    then show ?thesis
      by (cases v) (auto simp: traced_store_def note_result_def stored_def split: prod.splits sum.splits option.splits)
  qed
qed

lemma update_stored:
  "rp_update (traced_store S) r e s w = (Inr saved, w') \<Longrightarrow> stored saved w'"
  "rp_reserve (traced_store S) r e s w = (Inr saved, w') \<Longrightarrow> stored saved w'"
  by (cases w; auto simp: traced_store_def note_result_def stored_def split: prod.splits sum.splits)+

lemma acknowledged_bundle: "acknowledged (r\<lparr>rb_encryptedBundle := b\<rparr>) revision s = acknowledged r revision s"
  by (simp add: acknowledged_def covers_def)

text \<open>Both kinds of store return an acknowledged record that is in the trace.\<close>

lemma encryptRecord_Inr:
  "encryptRecord P r data revision w = (Inr sealed, w') \<Longrightarrow> \<exists>b. sealed = r\<lparr>rb_encryptedBundle := b\<rparr>"
  by (auto simp: encryptRecord_def eff_simps)

lemma store_update_Inr:
  assumes "store_update (traced P) scope r data previous revision w = (Inr s, w')"
  shows "acknowledged r revision s \<and> stored s w'"
proof -
  from assms obtain sealed w1 w2 w3 u v where
    enc: "encryptRecord (traced P) r data revision w = (Inr sealed, w1)" and
    ack: "recoverAck (traced P) sealed revision (rp_update (traced_store (reservations P)) sealed previous revision) w1
      = (Inr s, w2)" and
    scope: "assertScope (traced P) scope w2 = (Inr u, w3)" and saved: "assertSaved s sealed revision w3 = (Inr v, w')"
    by (auto simp: store_update_def eff_simps)
  have "acknowledged r revision s"
    using assertSaved_acknowledged [OF saved] encryptRecord_Inr [OF enc] acknowledged_bundle by metis
  moreover have "stored s w2" by (rule recoverAck_stored [OF _ ack]) (rule update_stored)
  then have "stored s w3"
    using tripleD(1) [OF calm_triple [OF calm_scope stable_stored] _ scope] by blast
  then have "stored s w'"
    using tripleD(1) [OF calm_triple [OF calm_saved stable_stored] _ saved] by blast
  ultimately show ?thesis by simp
qed

lemma store_reserve_Inr:
  assumes "store_reserve (traced P) scope r data w = (Inr s, w')"
  shows "acknowledged r 1 s \<and> stored s w'"
proof -
  from assms obtain sealed w1 w2 w3 u v where
    enc: "encryptRecord (traced P) r data 1 w = (Inr sealed, w1)" and
    ack: "recoverAck (traced P) sealed 1 (rp_reserve (traced_store (reservations P)) sealed 0 1) w1 = (Inr s, w2)" and
    scope: "assertScope (traced P) scope w2 = (Inr u, w3)" and saved: "assertSaved s sealed 1 w3 = (Inr v, w')"
    by (auto simp: store_reserve_def eff_simps)
  have "acknowledged r 1 s"
    using assertSaved_acknowledged [OF saved] encryptRecord_Inr [OF enc] acknowledged_bundle by metis
  moreover have "stored s w2" by (rule recoverAck_stored [OF _ ack]) (rule update_stored)
  then have "stored s w3"
    using tripleD(1) [OF calm_triple [OF calm_scope stable_stored] _ scope] by blast
  then have "stored s w'"
    using tripleD(1) [OF calm_triple [OF calm_saved stable_stored] _ saved] by blast
  ultimately show ?thesis by simp
qed

text \<open>A calm computation whose result is known keeps a stable assertion next to that knowledge.\<close>

lemma calm_triple_result:
  assumes "calm m" and "stable K" and "\<And>w a w'. K w \<Longrightarrow> m w = (Inr a, w') \<Longrightarrow> R a w'"
  shows "triple K m (\<lambda>a w. K w \<and> R a w) K"
  by (rule tripleI) (use tripleD [OF calm_triple [OF assms(1,2)]] assms(3) in blast)+

lemma update_triple:
  "stable K \<Longrightarrow> triple K (store_update (traced P) scope r data previous revision)
     (\<lambda>s w. K w \<and> (acknowledged r revision s \<and> stored s w)) K"
  by (rule calm_triple_result [OF calm_update]) (auto dest: store_update_Inr)

lemma reserve_triple:
  "stable K \<Longrightarrow> triple K (store_reserve (traced P) scope r data)
     (\<lambda>s w. K w \<and> (acknowledged r 1 s \<and> stored s w)) K"
  by (rule calm_triple_result [OF calm_reserve]) (auto dest: store_reserve_Inr)

section \<open>The steps that sign and submit\<close>

text \<open>After the deadline check of a payment its deadline is live: nothing happened since the time was read.\<close>

lemma deadline_live:
  assumes "assertPayDeadlineLive (traced P) prepared w = (Inr u, w')"
  shows "live (pb_record prepared) (snd w')"
proof (cases "rec_kind (pb_record prepared)")
  case (Pay i d)
  obtain w0 tr where w: "w = (w0, tr)" by (cases w)
  from assms Pay w obtain t w1 w2 where t: "t < d"
    and scope: "assertScope (traced P) (rb_scope (pb_record prepared)) (w1, Clocked t # tr) = (Inr w2, w')"
    by (auto simp: assertPayDeadlineLive_def eff_simps note_result_def not_le split: prod.splits sum.splits)
  have "snd w' = Clocked t # tr"
    using scope by (auto simp: assertScope_def eff_simps note_result_def split: prod.splits sum.splits)
  with t Pay show ?thesis by (simp add: live_def)
qed (simp add: live_def)

lemma when_pay_live:
  assumes "stable K" and "isPay = is_pay (rec_kind (pb_record prepared))"
  shows "triple K (when_pay isPay (assertPayDeadlineLive (traced P) prepared))
    (\<lambda>_ w. K w \<and> live (pb_record prepared) (snd w)) K"
proof (cases "rec_kind (pb_record prepared)")
  case Withdraw
  then show ?thesis using assms(2) by (simp add: when_pay_def triple_def live_def)
next
  case (Pay i d)
  then have "isPay" using assms(2) by simp
  moreover have "triple K (assertPayDeadlineLive (traced P) prepared)
      (\<lambda>_ w. K w \<and> live (pb_record prepared) (snd w)) K"
    by (rule calm_triple_result [OF calm_deadline assms(1)]) (rule deadline_live)
  ultimately show ?thesis by (simp add: when_pay_def)
qed

text \<open>An event that is allowed extends a disciplined trace.\<close>

lemma note_call_triple:
  assumes "\<And>w. K w \<Longrightarrow> L (fst w, ev # snd w)" and "\<And>w w'. L w \<Longrightarrow> snd w' = snd w \<Longrightarrow> L w'"
  shows "triple K (note_call ev m) (\<lambda>_. L) L"
proof (rule tripleI)
  fix w r w'
  assume K: "K w" and run: "note_call ev m w = (Inr r, w')"
  have "snd w' = ev # snd w" using run by (cases w) (auto simp: note_call_def split: prod.splits)
  then show "L w'" using assms(2) [OF assms(1) [OF K], of w'] by simp
next
  fix w e w'
  assume K: "K w" and run: "note_call ev m w = (Inl e, w')"
  have "snd w' = ev # snd w" using run by (cases w) (auto simp: note_call_def split: prod.splits)
  then show "L w'" using assms(2) [OF assms(1) [OF K], of w'] by simp
qed

lemma sign_triple:
  assumes "ev = SignsPool \<or> ev = SignsPayment"
  shows "triple (\<lambda>w. announced r w \<and> live r (snd w)) (note_call ev m) (\<lambda>_. announced r) (announced r)"
  using assms by (intro note_call_triple) (auto simp: announced_def intro: started_in_mono)

lemma submit_triple:
  "triple (\<lambda>w. announced_attempt r a w \<and> live r (snd w)) (note_call (Submits a) m) (\<lambda>_. ordered r) (ordered r)"
  by (intro note_call_triple) (auto simp: announced_attempt_def ordered_def)

lemma collect_signatures_triple:
  fixes P :: "'w PaymentPorts"
  assumes "isPay = is_pay (rec_kind (pb_record prepared))"
  shows "triple (announced (pb_record prepared)) (collect_signatures (traced P) scope prepared isPay)
    (\<lambda>_. announced (pb_record prepared)) (announced (pb_record prepared))"
proof -
  let ?A = "announced (pb_record prepared) :: 'w tracing \<Rightarrow> bool"
  note livened = when_pay_live [OF stable_announced assms]
  note scoped = calm_triple [OF calm_scope stable_announced]
  have pool: "triple (\<lambda>w. ?A w \<and> live (pb_record prepared) (snd w)) (signPool (traced P) payload) (\<lambda>_. ?A) ?A" for payload
    unfolding traced_selectors by (rule sign_triple) simp
  have payment: "triple (\<lambda>w. ?A w \<and> live (pb_record prepared) (snd w)) (signPayment (traced P) prepared) (\<lambda>_. ?A) ?A"
    unfolding traced_selectors by (rule sign_triple) simp
  have sign: "triple (\<lambda>w. ?A w \<and> live (pb_record prepared) (snd w))
      (if isPay then ebind (signPayment (traced P) prepared) (\<lambda>s. ereturn (Some s)) else ereturn None) (\<lambda>_. ?A) ?A"
    by (rule triple_if) (rule triple_bind [OF payment], (rule triple_return, simp)+)
  have ret: "triple ?A (ereturn s) (\<lambda>_. ?A) ?A" for s :: AuthorizationSignatures
    by (rule triple_return)
  show ?thesis
    unfolding collect_signatures_def by (rule livened scoped pool sign ret triple_bind)+
qed

end
