(* ===== verification/WriteAheadClient.thy ===== *)
theory WriteAheadClient
  imports WriteAhead
begin

text \<open>The payment client's methods are write-ahead, whatever the ports answer.\<close>

section \<open>Following one operation\<close>

lemma same_payment_trans: "same_payment a b \<Longrightarrow> same_payment b c \<Longrightarrow> same_payment a c"
  by (cases a; cases b; cases c) (auto simp: sameText_def)

lemma same_payment_is_pay: "same_payment a b \<Longrightarrow> is_pay a = is_pay b"
  by (cases a; cases b) auto

lemma covers_next:
  assumes "covers r s" and "acknowledged r' revision s'"
    and "rb_recordId r' = rb_recordId (so_record s)" and "rb_inputId r' = rb_inputId (so_record s)"
    and "rb_operationId r' = rb_operationId (so_record s)" and "rb_contentHash r' = rb_contentHash (so_record s)"
    and "rec_kind r' = rec_kind (so_record s)"
  shows "covers r s'"
  using assms same_payment_trans unfolding acknowledged_def covers_def sameText_def by metis

lemma acknowledged_covers: "acknowledged r revision s \<Longrightarrow> covers r s"
  by (simp add: acknowledged_def)

text \<open>Exceptions may end in anything that the assertion implies.\<close>

lemma triple_error: "triple P m Q E' \<Longrightarrow> (\<And>w. E' w \<Longrightarrow> E w) \<Longrightarrow> triple P m Q E"
  by (erule triple_conseq)

lemma calm_to_ordered:
  "calm m \<Longrightarrow> stable K \<Longrightarrow> (\<And>w. K w \<Longrightarrow> ordered r w) \<Longrightarrow> triple K m (\<lambda>_. K) (ordered r)"
  by (rule triple_error [OF calm_triple])

lemma start_announces:
  assumes "ordered r w" and "stored s w" and "covers r s" and "rb_signatureStarted (so_record s)"
  shows "announced r w"
  using assms unfolding announced_def ordered_def stored_def started_in_def by blast

lemma attempt_announces:
  assumes "ordered r w" and "stored s w" and "covers r s"
    and "join_ids (rb_attemptIds (so_record s)) = join_ids (ids @ [a])"
  shows "announced_attempt r a w"
  using assms unfolding announced_attempt_def ordered_def stored_def attempted_in_def by blast

text \<open>Storing the start of signing announces it.\<close>

lemma start_triple:
  assumes "covers r s"
  shows "triple (ordered r) (store_update (traced P) scope ((so_record s)\<lparr>rb_signatureStarted := True\<rparr>) data previous revision)
    (\<lambda>s' w. announced r w \<and> covers r s' \<and> stored s' w \<and> so_revision s' = revision) (ordered r)"
proof (rule triple_post [OF update_triple [OF stable_ordered]])
  fix s' w
  assume a: "ordered r w \<and> acknowledged ((so_record s)\<lparr>rb_signatureStarted := True\<rparr>) revision s' \<and> stored s' w"
  have c: "covers r s'"
    by (rule covers_next [OF assms, of "(so_record s)\<lparr>rb_signatureStarted := True\<rparr>" revision]) (use a in simp_all)
  moreover have "rb_signatureStarted (so_record s')" "so_revision s' = revision" using a by (simp_all add: acknowledged_def)
  ultimately show "announced r w \<and> covers r s' \<and> stored s' w \<and> so_revision s' = revision"
    using a start_announces by blast
qed

text \<open>Storing the signatures keeps the announcement.\<close>

lemma signed_triple:
  assumes "covers r s"
  shows "triple (announced r) (store_update (traced P) scope (so_record s) data previous revision)
    (\<lambda>s' w. announced r w \<and> covers r s' \<and> stored s' w \<and> so_revision s' = revision) (ordered r)"
proof (rule triple_conseq [OF update_triple [OF stable_announced]])
  fix s' w
  assume a: "announced r w \<and> acknowledged (so_record s) revision s' \<and> stored s' w"
  have "covers r s'" by (rule covers_next [OF assms, of "so_record s" revision]) (use a in simp_all)
  with a show "announced r w \<and> covers r s' \<and> stored s' w \<and> so_revision s' = revision"
    by (simp add: acknowledged_def)
qed (assumption, rule announced_ordered)

text \<open>Storing an attempt announces its submission.\<close>

lemma attempt_triple:
  assumes "covers r s"
  shows "triple (ordered r) (store_update (traced P) scope
      ((so_record s)\<lparr>rb_attemptIds := rb_attemptIds (so_record s) @ [a]\<rparr>) data previous revision)
    (\<lambda>_. announced_attempt r a) (ordered r)"
proof (rule triple_post [OF update_triple [OF stable_ordered]])
  let ?r = "(so_record s)\<lparr>rb_attemptIds := rb_attemptIds (so_record s) @ [a]\<rparr>"
  fix s' w
  assume h: "ordered r w \<and> acknowledged ?r revision s' \<and> stored s' w"
  have c: "covers r s'" by (rule covers_next [OF assms, of ?r revision]) (use h in simp_all)
  have "join_ids (rb_attemptIds (so_record s')) = join_ids (rb_attemptIds (so_record s) @ [a])"
    using h by (simp add: acknowledged_def)
  then show "announced_attempt r a w" using h c attempt_announces by blast
qed

lemma submit_caught_triple:
  fixes P :: "'w PaymentPorts"
  assumes "isPay = is_pay (rec_kind (pb_record prepared))"
  shows "triple (announced_attempt (pb_record prepared) a)
      (when_pay isPay (assertPayDeadlineLive (traced P) prepared))
      (\<lambda>_ w. announced_attempt (pb_record prepared) a w \<and> live (pb_record prepared) (snd w))
      (ordered (pb_record prepared))"
    and "triple (\<lambda>w. announced_attempt (pb_record prepared) a w \<and> live (pb_record prepared) (snd w))
      (ecatch (port_submit (traced P) prepared signatures a) (\<lambda>_. ereturn OutcomeUnknown))
      (\<lambda>_. ordered (pb_record prepared)) (ordered (pb_record prepared))"
    and "triple (\<lambda>w. announced_attempt (pb_record prepared) a w \<and> live (pb_record prepared) (snd w))
      (ecatch (ebind (port_submit (traced P) prepared signatures a) (\<lambda>outcome. ereturn (Some outcome))) (\<lambda>_. ereturn None))
      (\<lambda>_. ordered (pb_record prepared)) (ordered (pb_record prepared))"
proof -
  show "triple (announced_attempt (pb_record prepared) a) (when_pay isPay (assertPayDeadlineLive (traced P) prepared))
      (\<lambda>_ w. announced_attempt (pb_record prepared) a w \<and> live (pb_record prepared) (snd w))
      (ordered (pb_record prepared))"
    by (rule triple_error [OF when_pay_live [OF stable_attempt assms]]) (rule attempt_ordered)
  have submit: "triple (\<lambda>w. announced_attempt (pb_record prepared) a w \<and> live (pb_record prepared) (snd w))
      (port_submit (traced P) prepared signatures a) (\<lambda>_. ordered (pb_record prepared)) (ordered (pb_record prepared))"
    unfolding traced_selectors by (rule submit_triple)
  show "triple (\<lambda>w. announced_attempt (pb_record prepared) a w \<and> live (pb_record prepared) (snd w))
      (ecatch (port_submit (traced P) prepared signatures a) (\<lambda>_. ereturn OutcomeUnknown))
      (\<lambda>_. ordered (pb_record prepared)) (ordered (pb_record prepared))"
    by (rule triple_catch [OF submit]) (rule triple_return)
  show "triple (\<lambda>w. announced_attempt (pb_record prepared) a w \<and> live (pb_record prepared) (snd w))
      (ecatch (ebind (port_submit (traced P) prepared signatures a) (\<lambda>outcome. ereturn (Some outcome))) (\<lambda>_. ereturn None))
      (\<lambda>_. ordered (pb_record prepared)) (ordered (pb_record prepared))"
    by (rule triple_catch [OF triple_bind [OF submit]]) (rule triple_return, assumption)+
qed

lemma submit_attempt_triple:
  assumes isPay: "isPay = is_pay (rec_kind (pb_record prepared))"
  shows "triple (announced_attempt (pb_record prepared) a)
    (submit_attempt (traced P) scope prepared attempted signatures a isPay)
    (\<lambda>_. ordered (pb_record prepared)) (ordered (pb_record prepared))"
proof -
  let ?O = "ordered (pb_record prepared)"
  have persist: "triple ?O (case outcome of Submitted h \<Rightarrow> persistKnownHash (traced P) attempted prepared signatures a h
      | _ \<Rightarrow> ereturn ()) (\<lambda>_. ?O) ?O" for outcome
    by (rule calm_triple [OF _ stable_ordered]) (cases outcome; simp add: calm_intros)
  have scoped: "triple ?O (assertScope (traced P) scope) (\<lambda>_. ?O) ?O"
    by (rule calm_triple [OF calm_scope stable_ordered])
  have ret: "triple ?O (ereturn x) (\<lambda>_. ?O) ?O" for x :: OperationRef
    by (rule triple_return)
  show ?thesis
    unfolding submit_attempt_def
    by (rule submit_caught_triple(1) [OF isPay] submit_caught_triple(2) [OF isPay] persist scoped ret triple_bind)+
qed

section \<open>Authorizing\<close>

lemma authorize_prepared_triple:
  fixes P :: "'w PaymentPorts"
  assumes isPay: "isPay = is_pay (rec_kind (pb_record prepared))"
  shows "triple (ordered (pb_record prepared)) (authorize_prepared (traced P) scope prepared isPay exportOnly)
    (\<lambda>_. ordered (pb_record prepared)) (ordered (pb_record prepared))"
proof -
  let ?r = "pb_record prepared"
  let ?O = "ordered ?r :: 'w tracing \<Rightarrow> bool" and ?A = "announced ?r :: 'w tracing \<Rightarrow> bool"
  note quietO = calm_triple [OF _ stable_ordered]
  have valid: "triple ?O (validatePrepared (traced P) prepared) (\<lambda>_. ?O) ?O"
    unfolding traced_selectors by (rule quietO) (rule calm_untraced)
  have scoped: "triple ?O (assertScope (traced P) scope) (\<lambda>_. ?O) ?O" by (rule quietO) (rule calm_scope)
  have terms: "triple ?O (when_pay isPay (assertPayTermsLive (traced P) prepared)) (\<lambda>_. ?O) ?O"
    by (rule quietO) (intro calm_intros)
  have sealed: "triple ?A (sealContent (traced P) prepared signatures x y) (\<lambda>_. ?A) ?O" for signatures x y
    unfolding traced_selectors by (rule calm_to_ordered [OF calm_untraced stable_announced announced_ordered])
  have created: "triple ?A (createAttempt (traced P) prepared signatures) (\<lambda>_. ?A) ?O" for signatures
    unfolding traced_selectors by (rule calm_to_ordered [OF calm_untraced stable_announced announced_ordered])
  have collected: "triple ?A (collect_signatures (traced P) scope prepared isPay) (\<lambda>_. ?A) ?O"
    by (rule triple_error [OF collect_signatures_triple [OF isPay]]) (rule announced_ordered)
  have finish: "triple ?A (if exportOnly then ereturn (reference scope ?r [] [] not_submitted)
      else ebind (createAttempt (traced P) prepared signatures) (\<lambda>a.
        ebind (sealContent (traced P) prepared signatures (Some a) None) (\<lambda>data.
        ebind (store_update (traced P) scope ((so_record signed)\<lparr>rb_attemptIds := rb_attemptIds (so_record signed) @ [a]\<rparr>) data 3 4) (\<lambda>attempted.
          submit_attempt (traced P) scope prepared attempted signatures a isPay)))) (\<lambda>_. ?O) ?O"
    if signed: "covers ?r signed" for signed signatures
  proof -
    have attempt: "triple ?A (store_update (traced P) scope
        ((so_record signed)\<lparr>rb_attemptIds := rb_attemptIds (so_record signed) @ [a]\<rparr>) data 3 4)
        (\<lambda>_. announced_attempt ?r a) ?O" for a data
      by (rule triple_pre [OF attempt_triple [OF signed]]) (rule announced_ordered)
    show ?thesis
      by (rule triple_if, rule triple_return, erule announced_ordered, rule triple_bind [OF created],
          rule triple_bind [OF sealed], rule triple_bind [OF attempt], rule submit_attempt_triple [OF isPay])
  qed
  have sign: "triple ?A (ebind (collect_signatures (traced P) scope prepared isPay) (\<lambda>signatures.
       ebind (sealContent (traced P) prepared signatures None None) (\<lambda>data.
       ebind (store_update (traced P) scope (so_record started) data 2 3) (\<lambda>signed. f signed signatures)))) (\<lambda>_. ?O) ?O"
    if started: "covers ?r started" and f: "\<And>s g. covers ?r s \<Longrightarrow> triple ?A (f s g) (\<lambda>_. ?O) ?O"
    for started and f :: "SavedReservation \<Rightarrow> AuthorizationSignatures \<Rightarrow> ('w tracing, pay_error, OperationRef) run"
    by (rule triple_bind [OF collected], rule triple_bind [OF sealed], rule triple_bind [OF signed_triple [OF started]],
        rule triple_pure [where b = "covers ?r _"]) (auto intro: triple_pre [OF f])
  show ?thesis
    unfolding authorize_prepared_def
    by (rule triple_bind [OF valid], rule triple_bind [OF scoped], rule triple_bind [OF reserve_triple [OF stable_ordered]],
        rule triple_pure [where b = "covers ?r _"], (elim conjE, erule acknowledged_covers),
        rule triple_bind [OF triple_pre [OF terms]], erule conjunct1, rule triple_bind [OF start_triple], assumption,
        rule triple_pure [where b = "covers ?r _"], (elim conjE, assumption),
        rule triple_pre [OF sign [OF _ finish]], assumption, assumption, erule conjunct1)
qed

text \<open>Before anything was signed or submitted, the trace keeps the discipline of every operation.\<close>

definition calm_so_far :: "'w tracing \<Rightarrow> bool" where
  "calm_so_far w \<longleftrightarrow> list_all quiet_event (snd w)"

text \<open>The trace keeps the discipline of an operation with the property \<open>c\<close>.\<close>

definition ordered_for :: "(OperationRecord \<Rightarrow> bool) \<Rightarrow> 'w tracing \<Rightarrow> bool" where
  "ordered_for c w \<longleftrightarrow> (\<exists>r. c r \<and> ordered r w)"

lemma stable_calm [stable_intros]: "stable calm_so_far"
  by (simp add: stable_def calm_so_far_def)

lemma stable_ordered_for [stable_intros]: "stable (ordered_for c)"
  unfolding ordered_for_def by (intro stable_intros)

lemma calm_ordered: "calm_so_far w \<Longrightarrow> ordered r w"
  using disciplined_quiet [of "snd w" r "[]"] by (simp add: calm_so_far_def ordered_def)

lemma ordered_forI: "c r \<Longrightarrow> ordered r w \<Longrightarrow> ordered_for c w"
  unfolding ordered_for_def by blast

text \<open>Calm steps come first; a step with a known result hands that knowledge on.\<close>

lemma calm_first:
  assumes "calm m" and "stable K" and "\<And>w. K w \<Longrightarrow> F w"
    and "\<And>w a w'. m w = (Inr a, w') \<Longrightarrow> R a" and "\<And>a. R a \<Longrightarrow> triple K (f a) Q F"
  shows "triple K (ebind m f) Q F"
proof (rule triple_bind)
  show "triple K m (\<lambda>a w. K w \<and> R a) F"
    by (rule triple_error [OF calm_triple_result [OF assms(1,2)]]) (use assms(3,4) in blast)+
  show "triple (\<lambda>w. K w \<and> R a) (f a) Q F" for a
    by (rule triple_pure [where b = "R a"], erule conjunct2, rule triple_pre [OF assms(5)], assumption, erule conjunct1)
qed

lemma calm_step:
  "calm m \<Longrightarrow> stable K \<Longrightarrow> (\<And>w. K w \<Longrightarrow> F w) \<Longrightarrow> (\<And>a. triple K (f a) Q F) \<Longrightarrow> triple K (ebind m f) Q F"
  by (rule calm_first [where R = "\<lambda>_. True"]) (assumption | rule TrueI)+

lemma triple_prod: "(\<And>x y. triple P (f x y) Q E) \<Longrightarrow> triple P (case p of (x, y) \<Rightarrow> f x y) Q E"
  by (cases p) simp

lemma triple_pair: "(\<And>x y. triple (P (x, y)) (f x y) Q E) \<Longrightarrow> triple (P p) (case p of (x, y) \<Rightarrow> f x y) Q E"
  by (cases p) simp

lemma refresh_stale_Inr:
  "refresh_stale P prepared h scope w = (Inr p, w') \<Longrightarrow> p = prepared \<or> sameText (rb_contentHash (pb_record p)) h"
  by (auto simp: refresh_stale_def eff_simps split: if_splits)

lemma terms_live_pay: "assertPayTermsLive P prepared w = (Inr u, w') \<Longrightarrow> is_pay (rec_kind (pb_record prepared))"
  by (auto simp: assertPayTermsLive_def assertPayDeadlineLive_def eff_simps split: record_kind.splits)

lemma authorize_triple:
  fixes P :: "'w PaymentPorts" and h :: Bytes32
  defines "F \<equiv> ordered_for (\<lambda>r. sameText (rb_contentHash r) h)"
  shows "triple calm_so_far (authorize (traced P) preparedInput h isPay exportOnly) (\<lambda>_. F) F"
proof -
  have any: "F w" if "calm_so_far w" for w :: "'w tracing"
    unfolding F_def using ordered_forI [OF _ calm_ordered [OF that], of _ "(pb_record preparedInput)\<lparr>rb_contentHash := h\<rparr>"]
    by simp
  let ?choose = "if isPay
      then ebind (refresh_stale (traced P) preparedInput h (rb_scope (pb_record preparedInput))) (\<lambda>prepared.
           then_run (assertPayTermsLive (traced P) prepared) (ereturn prepared))
      else ereturn preparedInput"
  have final: "triple calm_so_far (authorize_prepared (traced P) scope prepared isPay exportOnly) (\<lambda>_. F) F"
    if "sameText (rb_contentHash (pb_record prepared)) h \<and> isPay = is_pay (rec_kind (pb_record prepared))" for scope prepared
    by (rule triple_conseq [OF authorize_prepared_triple])
      (use that in \<open>auto simp: F_def intro: calm_ordered ordered_forI\<close>)
  have chosen: "sameText (rb_contentHash (pb_record p)) h \<and> isPay = is_pay (rec_kind (pb_record p))"
    if "?choose w = (Inr p, w')"
      and "sameText h (rb_contentHash (pb_record preparedInput)) \<and> isPay = is_pay (rec_kind (pb_record preparedInput))"
    for p w w'
  proof (cases isPay)
    case True
    with that(1) obtain v v' where r: "refresh_stale (traced P) preparedInput h (rb_scope (pb_record preparedInput)) w = (Inr p, v)"
      and t: "assertPayTermsLive (traced P) p v = (Inr (), v')"
      by (auto simp: eff_simps)
    from terms_live_pay [OF t] refresh_stale_Inr [OF r] that(2) True show ?thesis
      by (auto simp: sameText_def)
  next
    case False
    with that show ?thesis by (auto simp: sameText_def)
  qed
  have authorizable: "sameText h (rb_contentHash (pb_record preparedInput)) \<and> isPay = is_pay (rec_kind (pb_record preparedInput))"
    if "check_authorizable preparedInput h isPay w = (Inr u, w')" for u :: unit and w w' :: "'w tracing"
    using that by (auto simp: check_authorizable_def)
  show ?thesis
    unfolding authorize_def Let_def
    by (rule calm_step [OF calm_scope stable_calm any], assumption,
        rule calm_first [OF calm_authorizable stable_calm any authorizable], assumption, assumption,
        rule calm_first [OF _ stable_calm any chosen _],
        intro calm_intros, assumption, assumption, assumption, erule final)
qed

section \<open>Recovering\<close>

lemma calm_valid [calm_intros]: "calm (validatePrepared (traced P) prepared)"
  and calm_create [calm_intros]: "calm (createAttempt (traced P) prepared signatures)"
  and calm_seal [calm_intros]: "calm (sealContent (traced P) prepared signatures a h)"
  by (simp_all add: calm_untraced)

lemma same_payment_sym: "same_payment a b \<Longrightarrow> same_payment b a"
  by (cases a; cases b) (auto simp: sameText_def)

text \<open>A recovered preparation is the saved operation.\<close>

lemma recovered_covers:
  assumes "assertRecoveredPrepared P saved prepared w = (Inr u, w')" and "sr_reservationState saved = active"
  shows "covers (pb_record prepared) saved"
  using assms same_payment_sym
  by (auto simp: assertRecoveredPrepared_def Let_def ebind_eq_Inr covers_def sameText_def)

lemma ordered_step:
  "calm m \<Longrightarrow> (\<And>a. triple (ordered r) (f a) Q (ordered r)) \<Longrightarrow> triple (ordered r) (ebind m f) Q (ordered r)"
  by (rule calm_step [OF _ stable_ordered])

lemma submitRecovered_triple:
  fixes P :: "'w PaymentPorts"
  assumes active: "sr_reservationState saved = active"
  shows "triple (ordered (pb_record prepared)) (submitRecovered (traced P) saved prepared signatures)
    (\<lambda>_. ordered (pb_record prepared)) (ordered (pb_record prepared))"
proof -
  let ?r = "pb_record prepared" and ?pay = "is_pay (rec_kind (pb_record prepared))"
  let ?O = "ordered ?r :: 'w tracing \<Rightarrow> bool"
  have report: "triple ?O (case outcome of None \<Rightarrow> ereturn OutcomeUnknown
      | Some (Submitted h) \<Rightarrow> then_run (persistKnownHash (traced P) attempted prepared signatures a h) (ereturn (Submitted h))
      | Some other \<Rightarrow> ereturn other) (\<lambda>_. ?O) ?O" for outcome attempted a
  proof (rule calm_triple [OF _ stable_ordered], cases outcome)
    case (Some x)
    then show "calm (case outcome of None \<Rightarrow> ereturn OutcomeUnknown
      | Some (Submitted h) \<Rightarrow> then_run (persistKnownHash (traced P) attempted prepared signatures a h) (ereturn (Submitted h))
      | Some other \<Rightarrow> ereturn other)"
      by (cases x) (simp_all add: calm_intros)
  qed (simp add: calm_intros)
  have submit: "triple ?O
      (ebind (store_update (traced P) scope ((so_record saved)\<lparr>rb_attemptIds := rb_attemptIds (so_record saved) @ [a]\<rparr>)
          data previous revision) (\<lambda>attempted.
       then_run (when_pay ?pay (assertPayDeadlineLive (traced P) prepared))
      (ebind (ecatch (ebind (port_submit (traced P) prepared signatures a) (\<lambda>outcome. ereturn (Some outcome)))
               (\<lambda>_. ereturn None)) (\<lambda>outcome.
         case outcome of None \<Rightarrow> ereturn OutcomeUnknown
         | Some (Submitted h) \<Rightarrow> then_run (persistKnownHash (traced P) attempted prepared signatures a h) (ereturn (Submitted h))
         | Some other \<Rightarrow> ereturn other)))) (\<lambda>_. ?O) ?O"
    if "covers ?r saved" for scope data previous revision a
    by (rule triple_bind [OF attempt_triple [OF that]], rule triple_bind [OF submit_caught_triple(1) [OF refl]],
        rule triple_bind [OF submit_caught_triple(3) [OF refl]], rule report)
  show ?thesis
    unfolding submitRecovered_def Let_def
    by (rule calm_first [OF calm_recovered stable_ordered _ recovered_covers [OF _ active]], assumption, assumption,
        rule ordered_step [OF calm_fail_when], rule ordered_step [OF calm_valid], rule ordered_step [OF calm_scope],
        rule ordered_step [OF calm_when_pay [OF calm_deadline]], rule ordered_step [OF calm_create],
        rule ordered_step [OF calm_fail_when], rule ordered_step [OF calm_seal], erule submit)
qed

lemma start_signing_triple:
  fixes P :: "'w PaymentPorts"
  assumes saved: "covers (pb_record prepared) saved"
  shows "triple (\<lambda>w. ordered (pb_record prepared) w \<and> stored saved w) (start_signing (traced P) saved prepared)
    (\<lambda>s w. announced (pb_record prepared) w \<and> covers (pb_record prepared) s) (ordered (pb_record prepared))"
proof (cases "rb_signatureStarted (so_record saved)")
  case True
  then show ?thesis
    using start_announces [OF _ _ saved] saved by (auto simp: start_signing_def intro!: triple_return)
next
  case False
  let ?O = "ordered (pb_record prepared) :: 'w tracing \<Rightarrow> bool"
  have "triple ?O (start_signing (traced P) saved prepared)
      (\<lambda>s w. announced (pb_record prepared) w \<and> covers (pb_record prepared) s) ?O"
    unfolding start_signing_def if_not_P [OF False]
    by (rule calm_step [OF _ stable_ordered], intro calm_intros, assumption,
        rule triple_post [OF start_triple [OF saved]], blast)
  then show ?thesis by (rule triple_pre) (erule conjunct1)
qed

lemma sign_again_triple:
  fixes P :: "'w PaymentPorts"
  assumes "covers (pb_record prepared) current"
  shows "triple (announced (pb_record prepared)) (sign_again (traced P) scope current prepared)
    (\<lambda>p w. announced (pb_record prepared) w \<and> covers (pb_record prepared) (fst p)) (ordered (pb_record prepared))"
proof -
  let ?A = "announced (pb_record prepared) :: 'w tracing \<Rightarrow> bool"
  have collected: "triple ?A (collect_signatures (traced P) scope prepared (is_pay (rec_kind (pb_record prepared))))
      (\<lambda>_. ?A) (ordered (pb_record prepared))"
    by (rule triple_error [OF collect_signatures_triple [OF refl]]) (rule announced_ordered)
  have sealed: "triple ?A (sealContent (traced P) prepared signatures x y) (\<lambda>_. ?A) (ordered (pb_record prepared))" for signatures x y
    unfolding traced_selectors by (rule calm_to_ordered [OF calm_untraced stable_announced announced_ordered])
  show ?thesis
    unfolding sign_again_def
    by (rule triple_bind [OF collected], rule triple_bind [OF sealed], rule triple_bind [OF signed_triple [OF assms]],
        rule triple_return) simp
qed

lemma covers_active: "covers r s \<Longrightarrow> sr_reservationState s = active"
  by (simp add: covers_def)

lemma resumeOriginal_triple:
  fixes P :: "'w PaymentPorts"
  assumes active: "sr_reservationState saved = active"
  defines "F \<equiv> ordered_for (\<lambda>r. sameText (rb_recordId r) (rb_recordId (so_record saved)))"
  shows "triple (\<lambda>w. calm_so_far w \<and> stored saved w) (resumeOriginal (traced P) saved prepared restored) (\<lambda>_. F) F"
proof -
  let ?r = "pb_record prepared"
  let ?K = "\<lambda>w :: 'w tracing. calm_so_far w \<and> stored saved w"
  have stableK: "stable ?K" by (intro stable_intros)
  have any: "F w" if "?K w" for w :: "'w tracing"
    using that calm_ordered [of w] unfolding F_def by (intro ordered_forI [where r = "so_record saved"]) simp_all
  have toF: "F w" if "ordered ?r w" and "covers ?r saved" for w :: "'w tracing"
    using that unfolding F_def covers_def by (intro ordered_forI [where r = ?r]) (auto intro: sameText_sym)
  have signed: "triple (\<lambda>w. announced ?r w \<and> covers ?r current)
      (case restored of Some signatures \<Rightarrow> ereturn (current, signatures)
       | None \<Rightarrow> sign_again (traced P) scope current prepared)
      (\<lambda>p w. announced ?r w \<and> covers ?r (fst p)) (ordered ?r)" for scope current
    by (rule triple_pure [where b = "covers ?r current"], erule conjunct2,
        cases restored) (auto intro: triple_pre [OF sign_again_triple] triple_return)
  have run: "triple ?K (ebind (start_signing (traced P) saved prepared) (\<lambda>current.
      ebind (case restored of Some signatures \<Rightarrow> ereturn (current, signatures)
             | None \<Rightarrow> sign_again (traced P) (rb_scope (so_record saved)) current prepared) (\<lambda>(signed, signatures).
        submitRecovered (traced P) signed prepared signatures))) (\<lambda>_. F) F"
    if c: "covers ?r saved"
  proof (rule triple_conseq)
    show "triple (\<lambda>w. ordered ?r w \<and> stored saved w) (ebind (start_signing (traced P) saved prepared) (\<lambda>current.
      ebind (case restored of Some signatures \<Rightarrow> ereturn (current, signatures)
             | None \<Rightarrow> sign_again (traced P) (rb_scope (so_record saved)) current prepared) (\<lambda>(signed, signatures).
        submitRecovered (traced P) signed prepared signatures))) (\<lambda>_. ordered ?r) (ordered ?r)"
    proof (rule triple_bind [OF start_signing_triple [OF c]], rule triple_bind [OF signed], rule triple_pure)
      fix p :: "SavedReservation \<times> AuthorizationSignatures"
      show "covers ?r (fst p)" if "announced ?r w \<and> covers ?r (fst p)" for w :: "'w tracing" using that by blast
      assume "covers ?r (fst p)"
      then show "triple (\<lambda>w. announced ?r w \<and> covers ?r (fst p))
          (case p of (s, sigs) \<Rightarrow> submitRecovered (traced P) s prepared sigs) (\<lambda>_. ordered ?r) (ordered ?r)"
        by (cases p) (auto intro!: triple_pre [OF submitRecovered_triple] dest: covers_active announced_ordered)
    qed
  qed (use c in \<open>auto intro: calm_ordered toF\<close>)
  show ?thesis
    unfolding resumeOriginal_def
    by (rule calm_first [OF calm_recovered stableK any recovered_covers [OF _ active]], assumption, assumption,
        rule calm_step [OF calm_fail_when stableK any], assumption, erule run)
qed

text \<open>A decision to act is taken on an active reservation.\<close>

lemma decision_active:
  "rd_action (inspectOperation saved evidence input) = resume_original \<or>
   rd_action (inspectOperation saved evidence input) = retry_attempt \<Longrightarrow> sr_reservationState saved = active"
  by (auto simp: inspectOperation_def decide_def Let_def split: if_splits)

lemma list_stored:
  assumes "rp_list (traced_store S) scope w = (Inr (availability, records), w')"
  shows "list_all (\<lambda>s. stored s w') records"
  using assms by (cases w)
    (auto simp: traced_store_def note_result_def stored_def list_all_iff split: prod.splits sum.splits)

lemma find_record_Some: "find_record i records = Some s \<Longrightarrow> s \<in> set records \<and> sameText (rb_recordId (so_record s)) i"
  unfolding find_record_def by (metis (mono_tags, lifting) find_Some_iff nth_mem)

text \<open>Recovery reads, checks, and then runs the action on a record that the trace shows as stored.\<close>

lemma recover_triple:
  fixes P :: "'w PaymentPorts" and execute :: "'w tracing RecoveryPorts \<Rightarrow> SavedReservation \<Rightarrow> RecoveryEvidence \<Rightarrow> ('w tracing, pay_error, 'a) run"
  assumes stableF: "stable F" and any: "\<And>w. calm_so_far w \<Longrightarrow> F w"
    and run: "\<And>recovery saved evidence input.
      rd_action (inspectOperation (checked_view action saved) evidence input) = action \<Longrightarrow>
      sameText (rb_recordId (so_record saved)) recordId \<Longrightarrow>
      triple (\<lambda>w. calm_so_far w \<and> stored saved w) (execute (traced_recovery recovery) saved evidence) (\<lambda>_. F) F"
  shows "triple calm_so_far (recover (traced P) recordId action execute) (\<lambda>_. F) F"
proof (cases "recovery_ports P")
  case None
  then show ?thesis using any by (auto simp: recover_def intro: triple_throw)
next
  case (Some recovery)
  let ?C = "calm_so_far :: 'w tracing \<Rightarrow> bool"
  have finish: "triple F (then_run (assertScope (traced P) scope) (ereturn x)) (\<lambda>_. F) F" for scope and x :: 'a
    by (rule triple_bind [OF calm_triple [OF calm_scope stableF]]) (rule triple_return)
  have inspected: "rd_action (inspectOperation (checked_view action saved) evidence input) = action"
    if "fail_when (rd_action (inspectOperation (checked_view action saved) evidence input) \<noteq> action) RECOVERY_BLOCKED w
      = (Inr u, w')" for saved evidence input u and w w' :: "'w tracing"
    using that by simp
  have checked: "triple (\<lambda>w. ?C w \<and> stored saved w)
      (ebind (readEvidence (traced_recovery recovery) saved) (\<lambda>(evidence, input).
       then_run (assertScope (traced P) scope)
      (ebind (rp_get (reservations (traced P)) scope recordId) (\<lambda>latest.
       then_run (assertScope (traced P) scope)
      (then_run (fail_when (differs latest) RECOVERY_BLOCKED)
      (then_run (fail_when (rd_action (inspectOperation (checked_view action saved) evidence input) \<noteq> action) RECOVERY_BLOCKED)
      (then_run (fail_when (action = retry_attempt \<and> \<not> rb_signatureStarted (so_record saved)) RECOVERY_BLOCKED)
      (ebind (execute (traced_recovery recovery) saved evidence) (\<lambda>result.
       then_run (assertScope (traced P) scope) (ereturn result))))))))))
      (\<lambda>_. F) F" if "sameText (rb_recordId (so_record saved)) recordId" for saved scope differs
  proof -
    let ?K = "\<lambda>w :: 'w tracing. ?C w \<and> stored saved w"
    have K: "stable ?K" by (intro stable_intros)
    have KF: "F w" if "?K w" for w using that any by blast
    show ?thesis
      unfolding traced_selectors
      by (rule calm_step [OF calm_recovery(1) K KF], assumption, rule triple_prod,
          rule calm_step [OF calm_scope K KF], assumption, rule calm_step [OF calm_store(3) K KF], assumption,
          rule calm_step [OF calm_scope K KF], assumption, rule calm_step [OF calm_fail_when K KF], assumption,
          rule calm_first [OF calm_fail_when K KF inspected], assumption, assumption,
          rule calm_step [OF calm_fail_when K KF], assumption,
          rule triple_bind [OF run finish], assumption, rule that)
  qed
  have found: "triple (\<lambda>w. ?C w \<and> list_all (\<lambda>s. stored s w) records)
      (case find_record recordId records of None \<Rightarrow> ethrow e
       | Some saved \<Rightarrow> then_run (fail_when (b saved) RECOVERY_BLOCKED) (f saved)) (\<lambda>_. F) F"
    if f: "\<And>saved. sameText (rb_recordId (so_record saved)) recordId \<Longrightarrow>
      triple (\<lambda>w. ?C w \<and> stored saved w) (f saved) (\<lambda>_. F) F"
    for records e b and f :: "SavedReservation \<Rightarrow> ('w tracing, pay_error, 'a) run"
  proof (cases "find_record recordId records")
    case None
    then show ?thesis using any by (auto intro: triple_throw)
  next
    case (Some saved)
    from find_record_Some [OF Some] have s: "saved \<in> set records" "sameText (rb_recordId (so_record saved)) recordId"
      by blast+
    have "triple (\<lambda>w. ?C w \<and> stored saved w) (then_run (fail_when (b saved) RECOVERY_BLOCKED) (f saved)) (\<lambda>_. F) F"
      by (rule calm_step [OF calm_fail_when _ _ f [OF s(2)]]) (intro stable_intros, use any in blast)
    then show ?thesis unfolding Some option.case by (rule triple_pre) (use s(1) in \<open>auto simp: list_all_iff\<close>)
  qed
  have listed: "stable (\<lambda>w. ?C w \<and> list_all (\<lambda>s. stored s w) records)" for records
    by (auto simp: stable_def calm_so_far_def stored_def list_all_iff)
  have KF: "F w" if "?C w \<and> list_all (\<lambda>s. stored s w) records" for w records using that any by blast
  have lists: "triple ?C (rp_list (traced_store (reservations P)) scope)
      (\<lambda>p w. ?C w \<and> list_all (\<lambda>s. stored s w) (snd p)) F" for scope
    by (rule triple_error [OF calm_triple_result [OF calm_store(4) stable_calm]])
      (use list_stored any in \<open>fastforce+\<close>)
  show ?thesis
    unfolding recover_def traced_selectors Some option.map option.case
    by (rule calm_step [OF calm_untraced stable_calm any], assumption, rule triple_bind [OF lists],
        rule triple_pair [where P = "\<lambda>p w. ?C w \<and> list_all (\<lambda>s. stored s w) (snd p)"],
        simp only: snd_conv, rule calm_step [OF calm_scope listed KF], assumption,
        rule calm_step [OF calm_fail_when listed KF], assumption, rule found, erule checked [unfolded traced_selectors])
qed

section \<open>The client is write-ahead\<close>

text \<open>The operation that the request is about: the content that the user confirmed, or the record to recover.\<close>

fun concerns :: "client_request \<Rightarrow> OperationRecord \<Rightarrow> bool" where
  "concerns (AuthorizePay _ h) r = sameText (rb_contentHash r) h"
| "concerns (AuthorizePayForExport _ h) r = sameText (rb_contentHash r) h"
| "concerns (AuthorizeFullWithdraw _ h) r = sameText (rb_contentHash r) h"
| "concerns (ResumeOriginal recordId) r = sameText (rb_recordId r) recordId"
| "concerns (RetryAttempt recordId) r = sameText (rb_recordId r) recordId"

lemma emap_triple: "triple P m (\<lambda>_. F) F \<Longrightarrow> triple P (emap f m) (\<lambda>_. F) F"
  unfolding emap_def by (erule triple_bind) (rule triple_return)

lemma calm_ordered_record: "calm_so_far w \<Longrightarrow> ordered_for (\<lambda>r. sameText (rb_recordId r) i) w"
  by (rule ordered_forI [where r = "undefined\<lparr>rb_recordId := i\<rparr>"]) (simp_all add: calm_ordered)

lemma ordered_for_same:
  "ordered_for (\<lambda>r. sameText (rb_recordId r) i) w \<Longrightarrow> sameText i j \<Longrightarrow> ordered_for (\<lambda>r. sameText (rb_recordId r) j) w"
  unfolding ordered_for_def by (auto simp: sameText_def)

lemma resume_client_triple:
  fixes P :: "'w PaymentPorts"
  shows "triple calm_so_far (client (traced P) (ResumeOriginal i)) (\<lambda>_. ordered_for (concerns (ResumeOriginal i)))
    (ordered_for (concerns (ResumeOriginal i)))"
  unfolding client.simps concerns.simps
proof (rule emap_triple, rule recover_triple)
  fix recovery :: "'w RecoveryPorts" and saved evidence input
  assume d: "rd_action (inspectOperation (checked_view resume_original saved) evidence input) = resume_original"
    and i: "sameText (rb_recordId (so_record saved)) i"
  have active: "sr_reservationState saved = active"
    using d decision_active [of saved evidence input] by (simp add: checked_view_def)
  let ?K = "\<lambda>w :: 'w tracing. calm_so_far w \<and> stored saved w"
  have K: "stable ?K" by (intro stable_intros)
  show "triple ?K (ebind (restoreOriginal (traced_recovery recovery) saved evidence)
        (\<lambda>(prepared, signatures). resumeOriginal (traced P) saved prepared signatures))
     (\<lambda>_. ordered_for (\<lambda>r. sameText (rb_recordId r) i)) (ordered_for (\<lambda>r. sameText (rb_recordId r) i))"
    by (rule calm_step [OF calm_recovery(2) K], elim conjE, rule calm_ordered_record, assumption, rule triple_prod,
        rule triple_conseq [OF resumeOriginal_triple [OF active]], assumption) (rule ordered_for_same [OF _ i], assumption)+
qed (intro stable_intros, rule calm_ordered_record)

lemma retry_client_triple:
  fixes P :: "'w PaymentPorts"
  shows "triple calm_so_far (client (traced P) (RetryAttempt i)) (\<lambda>_. ordered_for (concerns (RetryAttempt i)))
    (ordered_for (concerns (RetryAttempt i)))"
  unfolding client.simps concerns.simps
proof (rule emap_triple, rule recover_triple)
  fix recovery :: "'w RecoveryPorts" and saved evidence input
  assume d: "rd_action (inspectOperation (checked_view retry_attempt saved) evidence input) = retry_attempt"
    and i: "sameText (rb_recordId (so_record saved)) i"
  have active: "sr_reservationState saved = active"
    using d decision_active [of saved evidence input] by (simp add: checked_view_def)
  let ?K = "\<lambda>w :: 'w tracing. calm_so_far w \<and> stored saved w"
  let ?F = "ordered_for (\<lambda>r. sameText (rb_recordId r) i) :: 'w tracing \<Rightarrow> bool"
  have K: "stable ?K" by (intro stable_intros)
  have submit: "triple ?K (submitRecovered (traced P) saved prepared signatures) (\<lambda>_. ?F) ?F" for prepared signatures
  proof (cases "sameText (rb_recordId (pb_record prepared)) i")
    case True
    show ?thesis
      by (rule triple_conseq [OF submitRecovered_triple [OF active]])
        (use True in \<open>auto intro: calm_ordered ordered_forI\<close>)
  next
    case False
    have no: "R" if "assertRecoveredPrepared (traced P) saved prepared w = (Inr u, w')" for R u w w'
      using False i recovered_covers [OF that active] by (simp add: covers_def sameText_def)
    have any: "?F w" if "?K w" for w using that calm_ordered_record by blast
    show ?thesis
      unfolding submitRecovered_def Let_def
      by (rule calm_first [where R = "\<lambda>_. False", OF calm_recovered K any no], assumption, assumption, erule FalseE)
  qed
  show "triple ?K (ebind (restoreForRetry (traced_recovery recovery) saved evidence)
        (\<lambda>(prepared, signatures). submitRecovered (traced P) saved prepared signatures)) (\<lambda>_. ?F) ?F"
    by (rule calm_step [OF calm_recovery(3) K], elim conjE, rule calm_ordered_record, assumption, rule triple_prod,
        rule submit)
qed (intro stable_intros, rule calm_ordered_record)

lemma client_triple:
  "triple calm_so_far (client (traced P) request) (\<lambda>_. ordered_for (concerns request)) (ordered_for (concerns request))"
proof (cases request)
  case (ResumeOriginal i)
  show ?thesis unfolding ResumeOriginal by (rule resume_client_triple)
next
  case (RetryAttempt i)
  show ?thesis unfolding RetryAttempt by (rule retry_client_triple)
qed (simp_all add: emap_triple authorize_triple concerns.simps [abs_def])

text \<open>C29: Whatever its ports answer, the payment client is write-ahead: when it signs, an active stored record of the
  very operation that the request confirmed or named announces that signing has started; when it submits an
  attempt, such a stored record ends its attempts with that attempt; and for a payment the step directly follows
  the reading of a block time before the deadline.\<close>

theorem client_write_ahead:
  "\<exists>r. concerns request r \<and> disciplined r (snd (snd (client (traced P) request (w, []))))"
proof -
  have "calm_so_far (w, [])" by (simp add: calm_so_far_def)
  from triple_result [OF client_triple this, of P request "fst (client (traced P) request (w, []))"
      "snd (client (traced P) request (w, []))"]
  have "ordered_for (concerns request) (snd (client (traced P) request (w, [])))" by auto
  then show ?thesis by (simp add: ordered_for_def ordered_def)
qed

end
