(* ===== verification/PayProcessProperties.thy ===== *)
theory PayProcessProperties
  imports WriteAheadClient
begin

text \<open>Results of the payment client: changed terms, and the run in which every port cooperates.\<close>

section \<open>Recovery acts on rechecked evidence\<close>

text \<open>The reads of \<open>recover\<close> before it acts, in their order and from world to world: the current scope, the list of
  reservations, the evidence for the listed record and the record once more.\<close>

definition rechecked ::
  "'w PaymentPorts \<Rightarrow> 'w RecoveryPorts \<Rightarrow> Bytes32 \<Rightarrow> Scope \<Rightarrow> SavedReservation \<Rightarrow> RecoveryEvidence \<Rightarrow> CurrentInput \<Rightarrow> 'w \<Rightarrow> 'w \<Rightarrow> bool" where
  "rechecked P recovery recordId scope saved evidence input w v \<longleftrightarrow> (\<exists>records (latest :: SavedReservation) w1 w2 w3 w4 w5 w6.
     currentScope P w = (Inr scope, w1) \<and> rp_list (reservations P) scope w1 = (Inr (list_healthy, records), w2) \<and>
     find_record recordId records = Some saved \<and> sameScope (rb_scope (so_record saved)) scope \<and>
     assertScope P scope w2 = (Inr (), w3) \<and> readEvidence recovery saved w3 = (Inr (evidence, input), w4) \<and>
     assertScope P scope w4 = (Inr (), w5) \<and> rp_get (reservations P) scope recordId w5 = (Inr (Some latest), w6) \<and>
     assertScope P scope w6 = (Inr (), v) \<and>
     so_revision latest = so_revision saved \<and> sr_reservationState latest = sr_reservationState saved \<and>
     sameText (rb_contentHash (so_record latest)) (rb_contentHash (so_record saved)) \<and>
     join_ids (rb_attemptIds (so_record latest)) = join_ids (rb_attemptIds (so_record saved)))"

lemma ebind_InrE:
  assumes "ebind m f w = (Inr b, w'')"
  obtains a w' where "m w = (Inr a, w')" and "f a w' = (Inr b, w'')"
  using assms by (auto simp: ebind_eq_Inr)

lemma recover_Inr:
  assumes run: "recover P recordId action execute w = (Inr result, w')"
  shows "\<exists>recovery scope saved evidence input v v'. recovery_ports P = Some recovery \<and>
    rechecked P recovery recordId scope saved evidence input w v \<and>
    rd_action (inspectOperation (checked_view action saved) evidence input) = action \<and>
    execute recovery saved evidence v = (Inr result, v')"
proof -
  obtain recovery where R: "recovery_ports P = Some recovery"
    using run by (cases "recovery_ports P") (auto simp: recover_def)
  from run [unfolded recover_def R option.case] obtain scope w1 where 1: "currentScope P w = (Inr scope, w1)"
    and rest: "ebind (rp_list (reservations P) scope) (\<lambda>(availability, records).
     then_run (assertScope P scope)
    (then_run (fail_when (availability \<noteq> list_healthy) RECOVERY_BLOCKED)
    (case find_record recordId records of
       None \<Rightarrow> ethrow (process_error RECOVERY_BLOCKED)
     | Some saved \<Rightarrow>
       then_run (fail_when (\<not> sameScope (rb_scope (so_record saved)) scope) RECOVERY_BLOCKED)
      (ebind (readEvidence recovery saved) (\<lambda>(evidence, currentInput).
       then_run (assertScope P scope)
      (ebind (rp_get (reservations P) scope recordId) (\<lambda>latest.
       then_run (assertScope P scope)
      (then_run (fail_when (case latest of None \<Rightarrow> True | Some l \<Rightarrow>
           so_revision l \<noteq> so_revision saved \<or> sr_reservationState l \<noteq> sr_reservationState saved \<or>
           \<not> sameText (rb_contentHash (so_record l)) (rb_contentHash (so_record saved)) \<or>
           join_ids (rb_attemptIds (so_record l)) \<noteq> join_ids (rb_attemptIds (so_record saved))) RECOVERY_BLOCKED)
      (then_run (fail_when (rd_action (inspectOperation (checked_view action saved) evidence currentInput) \<noteq> action)
           RECOVERY_BLOCKED)
      (then_run (fail_when (action = retry_attempt \<and> \<not> rb_signatureStarted (so_record saved)) RECOVERY_BLOCKED)
      (ebind (execute recovery saved evidence) (\<lambda>result.
       then_run (assertScope P scope) (ereturn result))))))))))))) w1 = (Inr result, w')"
    by (rule ebind_InrE)
  from rest obtain availability records w2 w3 where
    2: "rp_list (reservations P) scope w1 = (Inr (availability, records), w2)" "assertScope P scope w2 = (Inr (), w3)"
    "availability = list_healthy" and found: "(case find_record recordId records of
       None \<Rightarrow> ethrow (process_error RECOVERY_BLOCKED)
     | Some saved \<Rightarrow>
       then_run (fail_when (\<not> sameScope (rb_scope (so_record saved)) scope) RECOVERY_BLOCKED)
      (ebind (readEvidence recovery saved) (\<lambda>(evidence, currentInput).
       then_run (assertScope P scope)
      (ebind (rp_get (reservations P) scope recordId) (\<lambda>latest.
       then_run (assertScope P scope)
      (then_run (fail_when (case latest of None \<Rightarrow> True | Some l \<Rightarrow>
           so_revision l \<noteq> so_revision saved \<or> sr_reservationState l \<noteq> sr_reservationState saved \<or>
           \<not> sameText (rb_contentHash (so_record l)) (rb_contentHash (so_record saved)) \<or>
           join_ids (rb_attemptIds (so_record l)) \<noteq> join_ids (rb_attemptIds (so_record saved))) RECOVERY_BLOCKED)
      (then_run (fail_when (rd_action (inspectOperation (checked_view action saved) evidence currentInput) \<noteq> action)
           RECOVERY_BLOCKED)
      (then_run (fail_when (action = retry_attempt \<and> \<not> rb_signatureStarted (so_record saved)) RECOVERY_BLOCKED)
      (ebind (execute recovery saved evidence) (\<lambda>result.
       then_run (assertScope P scope) (ereturn result))))))))))) w3 = (Inr result, w')"
    by (auto simp: fail_when_Inr elim!: ebind_InrE)
  obtain saved where saved: "find_record recordId records = Some saved"
    using found by (cases "find_record recordId records") auto
  from found [unfolded saved option.case] obtain evidence input w4 w5 latest w6 w7 v' where
    "sameScope (rb_scope (so_record saved)) scope" "readEvidence recovery saved w3 = (Inr (evidence, input), w4)"
    "assertScope P scope w4 = (Inr (), w5)" "rp_get (reservations P) scope recordId w5 = (Inr latest, w6)"
    "assertScope P scope w6 = (Inr (), w7)"
    "\<not> (case latest of None \<Rightarrow> True | Some l \<Rightarrow>
           so_revision l \<noteq> so_revision saved \<or> sr_reservationState l \<noteq> sr_reservationState saved \<or>
           \<not> sameText (rb_contentHash (so_record l)) (rb_contentHash (so_record saved)) \<or>
           join_ids (rb_attemptIds (so_record l)) \<noteq> join_ids (rb_attemptIds (so_record saved)))"
    "rd_action (inspectOperation (checked_view action saved) evidence input) = action"
    "execute recovery saved evidence w7 = (Inr result, v')"
    by (auto simp: fail_when_Inr elim!: ebind_InrE)
  with R 1 2 saved show ?thesis unfolding rechecked_def by (cases latest) (simp, force)
qed

text \<open>The release and the reads that confirm it, again from world to world: \<open>rel\<close> is what the release returned (or, if it
  failed, what the store holds), and both the list and the record read afterwards agree with it.\<close>

definition release_seen ::
  "'w PaymentPorts \<Rightarrow> 'w RecoveryPorts \<Rightarrow> SavedReservation \<Rightarrow> RecoveryEvidence \<Rightarrow> SavedReservation \<Rightarrow> 'w \<Rightarrow> 'w \<Rightarrow> bool" where
  "release_seen P recovery saved evidence rel v v' \<longleftrightarrow> (\<exists>records current v1 v2 v3 v4.
     release_of P recovery saved evidence v = (Inr (Some rel), v1) \<and> assertScope P (rb_scope (so_record saved)) v1 = (Inr (), v2) \<and>
     rp_list (reservations P) (rb_scope (so_record saved)) v2 = (Inr (list_healthy, records), v3) \<and>
     rp_get (reservations P) (rb_scope (so_record saved)) (rb_recordId (so_record saved)) v3 = (Inr (Some current), v4) \<and>
     assertScope P (rb_scope (so_record saved)) v4 = (Inr (), v') \<and> sameReleased rel current \<and>
     sameReleased rel (case find_record (rb_recordId (so_record saved)) records of Some l \<Rightarrow> l | None \<Rightarrow> saved))"

lemma prepareChangedTerms_Inr:
  assumes "prepareChangedTerms P recovery saved evidence input v = (Inr prepared, w')"
  shows "\<exists>rel v1 v2 v3 v4. release_seen P recovery saved evidence rel v v1 \<and>
    so_revision rel = so_revision saved + (if sr_reservationState saved = released then 0 else 1) \<and>
    sameText (rb_recordId (so_record rel)) (rb_recordId (so_record saved)) \<and>
    sameText (rb_inputId (so_record rel)) (rb_inputId (so_record saved)) \<and>
    sameText (rb_contentHash (so_record rel)) (rb_contentHash (so_record saved)) \<and>
    port_preparePay P input v1 = (Inr prepared, v2) \<and> successor_of (pb_record prepared) (so_record saved) \<and>
    assertScope P (rb_scope (so_record saved)) v2 = (Inr (), v3) \<and> assertPayTermsLive P prepared v3 = (Inr (), v4) \<and>
    (\<exists>v5. validatePrepared P prepared v4 = (Inr (), v5))"
proof -
  from assms obtain rel v1 v2 availability records v3 current v4 v5 v6 v7 v8 v9 where
    r: "release_of P recovery saved evidence v = (Inr rel, v1)" "assertScope P (rb_scope (so_record saved)) v1 = (Inr (), v2)"
      "rp_list (reservations P) (rb_scope (so_record saved)) v2 = (Inr (availability, records), v3)"
      "rp_get (reservations P) (rb_scope (so_record saved)) (rb_recordId (so_record saved)) v3 = (Inr current, v4)"
      "assertScope P (rb_scope (so_record saved)) v4 = (Inr (), v5)"
    and confirmed: "release_confirmed saved rel current availability records"
    and p: "port_preparePay P input v5 = (Inr prepared, v6)" "assertScope P (rb_scope (so_record saved)) v6 = (Inr (), v7)"
      "successor_of (pb_record prepared) (so_record saved)" "assertPayTermsLive P prepared v7 = (Inr (), v8)"
      "validatePrepared P prepared v8 = (Inr (), v9)"
    by (auto simp: prepareChangedTerms_def Let_def fail_when_Inr elim!: ebind_InrE)
  from confirmed obtain r' cur where c: "rel = Some r'" "current = Some cur" "availability = list_healthy"
    "so_revision r' = so_revision saved + (if sr_reservationState saved = released then 0 else 1)"
    "sameReleased r' cur" "sameReleased r' (case find_record (rb_recordId (so_record saved)) records of Some l \<Rightarrow> l | None \<Rightarrow> saved)"
    "sameText (rb_recordId (so_record saved)) (rb_recordId (so_record r'))"
    "sameText (rb_inputId (so_record saved)) (rb_inputId (so_record r'))"
    "sameText (rb_contentHash (so_record saved)) (rb_contentHash (so_record r'))"
    by (auto simp: release_confirmed_def Let_def split: option.splits)
  then have same: "sameText (rb_recordId (so_record r')) (rb_recordId (so_record saved))"
    "sameText (rb_inputId (so_record r')) (rb_inputId (so_record saved))"
    "sameText (rb_contentHash (so_record r')) (rb_contentHash (so_record saved))"
    by (simp_all only: sameText_def simp_thms)
  have "release_seen P recovery saved evidence r' v v5"
    unfolding release_seen_def using r c(1-3,5,6) by blast
  with c(4) same p show ?thesis by blast
qed

text \<open>C30: New terms are prepared only after the record of the given identifier, as the healthy list of the current scope
  shows it and a second read confirms it, was found expired with nothing of it able to take effect on the evidence that
  was read for it; after that its reservation was released by one revision (or found released already), and the list and
  a further read showed it released; only then the new payment was asked for, and it spends the same input under the
  same scope, is unsigned, differs from the old one in record, operation, payment and content, and its terms are live and
  validated.  The worlds chain the port calls in this order.\<close>

theorem changed_terms_sound:
  assumes "client_prepareChangedTerms P recordId input w = (Inr prepared, w')"
  shows "\<exists>recovery scope saved evidence current rel v v1 v2 v3 v4. recovery_ports P = Some recovery \<and>
    rechecked P recovery recordId scope saved evidence current w v \<and>
    quiet (checked_view change_terms saved) evidence current \<and>
    expired (rec_kind (so_record saved)) (rv_blockTime evidence) \<and>
    release_seen P recovery saved evidence rel v v1 \<and>
    so_revision rel = so_revision saved + (if sr_reservationState saved = released then 0 else 1) \<and>
    sameText (rb_recordId (so_record rel)) (rb_recordId (so_record saved)) \<and>
    sameText (rb_inputId (so_record rel)) (rb_inputId (so_record saved)) \<and>
    sameText (rb_contentHash (so_record rel)) (rb_contentHash (so_record saved)) \<and>
    port_preparePay P input v1 = (Inr prepared, v2) \<and> successor_of (pb_record prepared) (so_record saved) \<and>
    assertScope P (rb_scope (so_record saved)) v2 = (Inr (), v3) \<and> assertPayTermsLive P prepared v3 = (Inr (), v4) \<and>
    (\<exists>v5. validatePrepared P prepared v4 = (Inr (), v5))"
proof -
  from recover_Inr [OF assms [unfolded client_prepareChangedTerms_def]] obtain recovery scope saved evidence current v v' where
    checked: "recovery_ports P = Some recovery" "rechecked P recovery recordId scope saved evidence current w v" and
    decision: "rd_action (inspectOperation (checked_view change_terms saved) evidence current) = change_terms" and
    run: "prepareChangedTerms P recovery saved evidence input v = (Inr prepared, v')"
    by blast
  have "quiet (checked_view change_terms saved) evidence current"
    and "expired (rec_kind (so_record (checked_view change_terms saved))) (rv_blockTime evidence)"
    using decision recovery_decisions by blast+
  moreover have "so_record (checked_view change_terms saved) = so_record saved" by (simp add: checked_view_def)
  ultimately have "quiet (checked_view change_terms saved) evidence current"
    "expired (rec_kind (so_record saved)) (rv_blockTime evidence)" by simp_all
  with checked prepareChangedTerms_Inr [OF run] show ?thesis by blast
qed

section \<open>Cooperating ports\<close>

text \<open>Ports that answer as asked: one scope, a store that acknowledges, a wallet that signs, a network that accepts.\<close>

definition cooperating ::
  "'w PaymentPorts \<Rightarrow> PreparedBase \<Rightarrow> int \<Rightarrow> js_number \<Rightarrow> AttemptId \<Rightarrow> TxHash \<Rightarrow> bool" where
  "cooperating P prepared now clock attemptId txHash \<longleftrightarrow>
     (let saved = \<lambda>r revision. \<lparr>so_record = r, so_revision = revision, sr_reservationState = active\<rparr> in
      currentScope P = ereturn (rb_scope (pb_record prepared)) \<and>
      clock_now (pay_clock P) = ereturn clock \<and> latestBlockTime P = ereturn now \<and>
      validatePrepared P = (\<lambda>_. ereturn ()) \<and>
      (\<exists>bundle. port_encrypt P = (\<lambda>_ _. ereturn bundle)) \<and>
      (\<exists>content. sealContent P = (\<lambda>_ _ _ _. ereturn content)) \<and>
      rp_reserve (reservations P) = (\<lambda>r _ revision. ereturn (saved r revision)) \<and>
      rp_update (reservations P) = (\<lambda>r _ revision. ereturn (saved r revision)) \<and>
      (\<exists>pool payment. signPool P = (\<lambda>_. ereturn pool) \<and> signPayment P = (\<lambda>_. ereturn payment)) \<and>
      createAttempt P = (\<lambda>_ _. ereturn attemptId) \<and> port_submit P = (\<lambda>_ _ _. ereturn (Submitted txHash)))"

lemma sameScope_refl [simp]: "sameScope s s"
  by (simp add: sameScope_def)

lemma same_payment_refl [simp]: "same_payment k k"
  by (cases k) simp_all

lemma same_bundle_refl [simp]: "same_bundle b b"
  by (simp add: same_bundle_def)

lemma ecatch_return [simp]: "ecatch (ereturn a) h = ereturn a"
  by (rule ext) (simp add: ecatch_def ereturn_def)

declare ereturn_run [simp del] elift_run [simp del] ethrow_run [simp del]

lemma ebind_return_fun [simp]: "ebind (ereturn a) f = f a"
  by (rule ext) (simp add: ebind_def ereturn_def)

lemma ebind_assoc_return [simp]: "ebind m ereturn = m"
  by (rule ext) (auto simp: ebind_def ereturn_def split: prod.split sum.split)

lemma elift_return [simp]: "elift (Inr a) = ereturn a"
  by (rule ext) (simp add: elift_def ereturn_def)

lemma fail_when_False [simp]: "fail_when False code = ereturn ()"
  by (rule ext) (simp add: fail_when_def ereturn_def elift_def)

lemma fail_when_True [simp]: "fail_when True code = ethrow (process_error code)"
  by (rule ext) (simp add: fail_when_def ethrow_def elift_def)

text \<open>C31: With ports that cooperate, a fresh quote and time before the deadline, authorizing the prepared payment
  under its own content hash ends with the reference of a pending payment that names its one attempt and its
  transaction.\<close>

theorem authorize_completes:
  assumes ports: "cooperating P prepared now clock attemptId txHash"
    and pay: "rec_kind (pb_record prepared) = Pay paymentId deadline" and time: "now < deadline"
    and fresh: "pb_quote prepared = Some quote" "isQuoteFresh quote clock"
    and unsigned: "\<not> rb_signatureStarted (pb_record prepared)" "rb_attemptIds (pb_record prepared) = []"
  shows "authorize P prepared (rb_contentHash (pb_record prepared)) True False w =
    (Inr (reference (rb_scope (pb_record prepared)) (pb_record prepared) [attemptId] [txHash] chain_pending), w)"
proof -
  let ?r = "pb_record prepared"
  have scope [simp]: "assertScope P (rb_scope ?r) = ereturn ()"
    using ports by (simp add: cooperating_def Let_def assertScope_def)
  have deadline [simp]: "assertPayDeadlineLive P prepared = ereturn ()"
    using ports pay time scope by (simp add: cooperating_def Let_def assertPayDeadlineLive_def)
  have check [simp]: "check_fresh P prepared = ereturn True"
    using ports fresh by (simp add: cooperating_def Let_def check_fresh_def quote_fresh_def)
  have terms [simp]: "assertPayTermsLive P prepared = ereturn ()"
    by (simp add: assertPayTermsLive_def)
  obtain sealed where encrypt: "port_encrypt P = (\<lambda>_ _. ereturn sealed)"
    using ports by (auto simp: cooperating_def Let_def)
  obtain content where seal [simp]: "sealContent P = (\<lambda>_ _ _ _. ereturn content)"
    using ports by (auto simp: cooperating_def Let_def)
  obtain pool payment where sign [simp]: "signPool P = (\<lambda>_. ereturn pool)" "signPayment P = (\<lambda>_. ereturn payment)"
    using ports by (auto simp: cooperating_def Let_def)
  have others [simp]: "validatePrepared P = (\<lambda>_. ereturn ())" "createAttempt P = (\<lambda>_ _. ereturn attemptId)"
    "port_submit P = (\<lambda>_ _ _. ereturn (Submitted txHash))"
    using ports by (simp_all add: cooperating_def Let_def)
  let ?saved = "\<lambda>r revision. \<lparr>so_record = r\<lparr>rb_encryptedBundle := sealed\<rparr>, so_revision = revision, sr_reservationState = active\<rparr>"
  have store [simp]: "store_update P (rb_scope ?r) r data previous revision = ereturn (?saved r revision)"
      "store_reserve P (rb_scope ?r) r data = ereturn (?saved r 1)"
    if "rb_scope r = rb_scope ?r" for r data previous revision
    using that ports encrypt
    by (simp_all add: cooperating_def Let_def store_update_def store_reserve_def encryptRecord_def recoverAck_def assertSaved_def)
  have "authorize P prepared (rb_contentHash ?r) True False =
      ereturn (reference (rb_scope ?r) ?r [attemptId] [txHash] chain_pending)"
    using pay unsigned
    by (simp add: authorize_def Let_def check_authorizable_def refresh_stale_def authorize_prepared_def when_pay_def
        collect_signatures_def submit_attempt_def persistKnownHash_def)
  then show ?thesis by (simp add: ereturn_def)
qed

section \<open>Concrete ports\<close>

definition example_prepared :: PreparedBase where
  "example_prepared = \<lparr>pb_record = example_pay_record, pb_privateBytes = [1], pb_poolAuthorization = JObject [],
     pb_quote = Some \<lparr>pq_startedAtMs = Finite 0, pq_blockHash = hash_of (CHR ''b''), pq_blockNumber = 20,
       pq_inputWei = 5, pq_quoteOut = 9\<rparr>\<rparr>"

text \<open>The new payment after the first one was given up.\<close>

definition example_successor :: PreparedBase where
  "example_successor = example_prepared\<lparr>pb_record := example_pay_record\<lparr>rb_recordId := hash_of (CHR ''2''),
     rb_operationId := hash_of (CHR ''2''), rb_contentHash := hash_of (CHR ''2''), rec_kind := Pay (hash_of (CHR ''2'')) 3000\<rparr>\<rparr>"

definition example_released :: SavedReservation where
  "example_released = \<lparr>so_record = example_pay_record, so_revision = 5, sr_reservationState = released\<rparr>"

definition example_evidence :: RecoveryEvidence where
  "example_evidence = \<lparr>rv_finalized = True, rv_blockTime = 2000, rv_paymentSucceeded = False,
     rv_submissionKnownAbsent = True, rv_attempts = [], rv_storageAvailability = storage_healthy\<rparr>"

definition example_store :: "unit ReservationPort" where
  "example_store = (let saved = \<lambda>r revision. \<lparr>so_record = r, so_revision = revision, sr_reservationState = active\<rparr> in
     \<lparr>rp_reserve = \<lambda>r _ revision. ereturn (saved r revision), rp_update = \<lambda>r _ revision. ereturn (saved r revision),
      rp_get = \<lambda>_ _. ereturn (Some example_released), rp_list = \<lambda>_. ereturn (list_healthy, [example_released]),
      rp_release = \<lambda>_ _ _ _. ethrow (StoreError STORE_CONFLICT)\<rparr>)"

definition example_recovery :: "unit RecoveryPorts" where
  "example_recovery = \<lparr>readEvidence = \<lambda>_. ereturn (example_evidence, input_unspent),
     restoreOriginal = \<lambda>_ _. ethrow (PortError ''none''), restoreForRetry = \<lambda>_ _. ethrow (PortError ''none''),
     releaseOriginal = \<lambda>_ _. ethrow (PortError ''none'')\<rparr>"

text \<open>The block time is a parameter: the first payment's deadline is 1000, its successor's 3000.\<close>

definition example_ports :: "int \<Rightarrow> unit PaymentPorts" where
  "example_ports now = \<lparr>reservations = example_store, recovery_ports = Some example_recovery, reconciliation = None,
     port_preparePay = \<lambda>_. ereturn example_successor, port_prepareFullWithdraw = \<lambda>_. ethrow (PortError ''none''),
     refreshPay = ereturn, validatePrepared = \<lambda>_. ereturn (), currentScope = ereturn example_scope,
     pay_clock = \<lparr>clock_now = ereturn (Finite 10)\<rparr>, latestBlockTime = ereturn now,
     port_encrypt = \<lambda>_ _. ereturn example_bundle, sealContent = \<lambda>_ _ _ _. ereturn [2],
     signPool = \<lambda>_. ereturn example_wallet_signature, signPayment = \<lambda>_. ereturn example_wallet_signature,
     createAttempt = \<lambda>_ _. ereturn ''attempt-1'', port_submit = \<lambda>_ _ _. ereturn (Submitted (hash_of (CHR ''1'')))\<rparr>"

lemma example_ports_simps [simp]:
  "reservations (example_ports now) = example_store" "recovery_ports (example_ports now) = Some example_recovery"
  "port_preparePay (example_ports now) = (\<lambda>_. ereturn example_successor)"
  "validatePrepared (example_ports now) = (\<lambda>_. ereturn ())" "currentScope (example_ports now) = ereturn example_scope"
  "clock_now (pay_clock (example_ports now)) = ereturn (Finite 10)" "latestBlockTime (example_ports now) = ereturn now"
  "rp_get example_store = (\<lambda>_ _. ereturn (Some example_released))"
  "rp_list example_store = (\<lambda>_. ereturn (list_healthy, [example_released]))"
  "readEvidence example_recovery = (\<lambda>_. ereturn (example_evidence, input_unspent))"
  by (simp_all add: example_ports_def example_store_def example_recovery_def Let_def)

theorem authorize_completes_witness:
  "authorize (example_ports 900) example_prepared (hash_of (CHR ''c'')) True False () =
    (Inr (reference example_scope example_pay_record [''attempt-1''] [hash_of (CHR ''1'')] chain_pending), ())"
proof -
  have p: "pb_record example_prepared = example_pay_record" by (simp add: example_prepared_def)
  have r: "rb_contentHash example_pay_record = hash_of (CHR ''c'')" "rb_scope example_pay_record = example_scope"
    "rec_kind example_pay_record = Pay (hash_of (CHR ''1'')) 1000" "\<not> rb_signatureStarted example_pay_record"
    "rb_attemptIds example_pay_record = []"
    by (simp_all add: example_pay_record_def)
  have "cooperating (example_ports 900) example_prepared 900 (Finite 10) ''attempt-1'' (hash_of (CHR ''1''))"
    by (auto simp: cooperating_def Let_def example_ports_def example_store_def p r)
  from authorize_completes [OF this, unfolded p r, OF refl, of "the (pb_quote example_prepared)" "()"]
  show ?thesis by (simp add: example_prepared_def isQuoteFresh_def FRESH_MS_def r)
qed

lemma same_hash_of [simp]: "sameText (hash_of c) (hash_of d) \<longleftrightarrow> lower_char c = lower_char d"
proof -
  have "lower_char (CHR ''0'') = CHR ''0''" "lower_char (CHR ''x'') = CHR ''x''" by (simp_all add: lower_char_def)
  then show ?thesis by (simp add: sameText_def toLowerCase_def hash_of_def replicate_eq_replicate)
qed

lemma sameReleased_refl [simp]: "sr_reservationState s = released \<Longrightarrow> sameReleased s s"
  by (simp add: sameReleased_def Let_def)

lemma example_changed_terms:
  "client_prepareChangedTerms (example_ports 2000) (hash_of (CHR ''1'')) JNull () = (Inr example_successor, ())"
proof -
  let ?P = "example_ports 2000"
  have scope: "assertScope ?P example_scope = ereturn ()" by (simp add: assertScope_def example_ports_def)
  have parts: "rb_scope example_pay_record = example_scope" "rb_recordId example_pay_record = hash_of (CHR ''1'')"
    "rec_kind example_pay_record = Pay (hash_of (CHR ''1'')) 1000" "rb_attemptIds example_pay_record = []"
    by (simp_all add: example_pay_record_def)
  have saved: "so_record example_released = example_pay_record" "sr_reservationState example_released = released"
    by (simp_all add: example_released_def)
  have found: "find_record (hash_of (CHR ''1'')) [example_released] = Some example_released"
    by (simp add: find_record_def saved parts)
  have decision: "rd_action (inspectOperation (checked_view change_terms example_released) example_evidence input_unspent) = change_terms"
    by (simp add: inspectOperation_def checked_view_def saved parts example_evidence_def decide_def Let_def)
  have confirmed: "release_confirmed example_released (Some example_released) (Some example_released) list_healthy [example_released]"
    by (simp add: release_confirmed_def Let_def saved found parts)
  have successor: "successor_of (pb_record example_successor) example_pay_record" "rb_scope (pb_record example_successor) = example_scope"
    by (simp_all add: successor_of_def example_successor_def example_prepared_def example_pay_record_def lower_examples)
  have quote: "pb_quote example_successor = pb_quote example_prepared"
    "rec_kind (pb_record example_successor) = Pay (hash_of (CHR ''2'')) 3000"
    by (simp_all add: example_successor_def)
  have fresh: "check_fresh ?P example_successor = ereturn True"
    by (simp add: check_fresh_def quote_fresh_def quote) (simp add: example_prepared_def isQuoteFresh_def FRESH_MS_def)
  have live: "assertPayTermsLive ?P example_successor = ereturn ()"
    by (simp add: assertPayTermsLive_def fresh assertPayDeadlineLive_def scope quote successor)
  have run: "prepareChangedTerms ?P example_recovery example_released example_evidence JNull = ereturn example_successor"
    by (simp add: prepareChangedTerms_def Let_def saved parts release_of_def scope confirmed live successor)
  have "client_prepareChangedTerms ?P (hash_of (CHR ''1'')) JNull = ereturn example_successor"
    by (simp add: client_prepareChangedTerms_def recover_def scope found saved parts decision run)
  then show ?thesis by (simp add: ereturn_def)
qed

theorem changed_terms_sound_witness:
  "\<exists>saved evidence current rel v v1 v2. rechecked (example_ports 2000) example_recovery (hash_of (CHR ''1'')) example_scope saved evidence current () v \<and>
    quiet (checked_view change_terms saved) evidence current \<and> expired (rec_kind (so_record saved)) (rv_blockTime evidence) \<and>
    release_seen (example_ports 2000) example_recovery saved evidence rel v v1 \<and>
    port_preparePay (example_ports 2000) JNull v1 = (Inr example_successor, v2) \<and>
    successor_of (pb_record example_successor) (so_record saved)"
proof -
  have scope: "scope = example_scope" if "rechecked (example_ports 2000) recovery i scope saved evidence current () v"
    for recovery i scope saved evidence current v
    using that by (auto simp: rechecked_def ereturn_def)
  from changed_terms_sound [OF example_changed_terms] obtain recovery scope saved evidence current rel v v1 v2 where
    facts: "recovery_ports (example_ports 2000) = Some recovery"
    "rechecked (example_ports 2000) recovery (hash_of (CHR ''1'')) scope saved evidence current () v"
    "quiet (checked_view change_terms saved) evidence current" "expired (rec_kind (so_record saved)) (rv_blockTime evidence)"
    "release_seen (example_ports 2000) recovery saved evidence rel v v1"
    "port_preparePay (example_ports 2000) JNull v1 = (Inr example_successor, v2)"
    "successor_of (pb_record example_successor) (so_record saved)"
    by blast
  moreover have "recovery = example_recovery" using facts(1) by simp
  ultimately show ?thesis using scope [OF facts(2)] by blast
qed

end
