(* ===== verification/Sql.thy ===== *)
theory Sql
  imports Effects
begin

text \<open>
  The statements that the service runs on its embedded database.  A table is the list of its rows in the order
  they were inserted; \<open>SELECT\<close>, \<open>UPDATE\<close> and \<open>DELETE\<close> act on the rows that satisfy the \<open>WHERE\<close> condition, an
  \<open>INSERT\<close> fails when a row with the same key is present, and \<open>transactionSync\<close> undoes everything when its
  callback throws.
\<close>

definition select_first :: "('r \<Rightarrow> bool) \<Rightarrow> 'r list \<Rightarrow> 'r option" where
  "select_first p table = find p table"

definition update_rows :: "('r \<Rightarrow> bool) \<Rightarrow> ('r \<Rightarrow> 'r) \<Rightarrow> 'r list \<Rightarrow> 'r list" where
  "update_rows p f table = map (\<lambda>r. if p r then f r else r) table"

definition delete_rows :: "('r \<Rightarrow> bool) \<Rightarrow> 'r list \<Rightarrow> 'r list" where
  "delete_rows p table = filter (\<lambda>r. \<not> p r) table"

definition insert_row :: "'e \<Rightarrow> ('r \<Rightarrow> 'k) \<Rightarrow> 'r \<Rightarrow> 'r list \<Rightarrow> 'e + 'r list" where
  "insert_row conflict key r table = (if key r \<in> key ` set table then Inl conflict else Inr (table @ [r]))"

definition equery :: "('w \<Rightarrow> 'a) \<Rightarrow> ('w, 'e, 'a) run" where
  "equery f = (\<lambda>w. (Inr (f w), w))"

definition eupdate :: "('w \<Rightarrow> 'w) \<Rightarrow> ('w, 'e, unit) run" where
  "eupdate f = (\<lambda>w. (Inr (), f w))"

text \<open>A statement that may violate a constraint.\<close>

definition einsert :: "('w \<Rightarrow> 'e + 'w) \<Rightarrow> ('w, 'e, unit) run" where
  "einsert f = (\<lambda>w. case f w of Inl e \<Rightarrow> (Inl e, w) | Inr w' \<Rightarrow> (Inr (), w'))"

definition ewhen :: "bool \<Rightarrow> 'e \<Rightarrow> ('w, 'e, unit) run" where
  "ewhen b e = (if b then ethrow e else ereturn ())"

definition transactionSync :: "('w, 'e, 'a) run \<Rightarrow> ('w, 'e, 'a) run" where
  "transactionSync m = (\<lambda>w. case m w of (Inl e, _) \<Rightarrow> (Inl e, w) | (Inr a, w') \<Rightarrow> (Inr a, w'))"

section \<open>Rows\<close>

lemma select_first_eq_Some:
  "select_first p table = Some r \<Longrightarrow> r \<in> set table \<and> p r"
  by (auto simp: select_first_def find_Some_iff)

lemma select_first_eq_None: "select_first p table = None \<longleftrightarrow> (\<forall>r \<in> set table. \<not> p r)"
  by (auto simp: select_first_def find_None_iff)

lemma select_first_unique:
  assumes "distinct (map key table)" and "r \<in> set table" and "p r" and "\<And>s. p s \<Longrightarrow> key s = key r"
  shows "select_first p table = Some r"
proof (cases "select_first p table")
  case None
  then show ?thesis using assms(2,3) by (auto simp: select_first_eq_None)
next
  case (Some s)
  then have "s \<in> set table" "key s = key r" using select_first_eq_Some [OF Some] assms(4) by auto
  with assms(1,2) have "s = r" by (metis distinct_map inj_onD)
  with Some show ?thesis by simp
qed

lemma set_update_rows: "set (update_rows p f table) = (\<lambda>r. if p r then f r else r) ` set table"
  by (simp add: update_rows_def)

lemma map_update_rows: "(\<And>r. p r \<Longrightarrow> key (f r) = key r) \<Longrightarrow> map key (update_rows p f table) = map key table"
  by (simp add: update_rows_def)

lemma set_delete_rows: "set (delete_rows p table) = {r \<in> set table. \<not> p r}"
  by (auto simp: delete_rows_def)

lemma distinct_delete_rows: "distinct (map key table) \<Longrightarrow> distinct (map key (delete_rows p table))"
  by (simp add: delete_rows_def distinct_map_filter)

lemma insert_row_eq_Inr:
  "insert_row e key r table = Inr t \<longleftrightarrow> key r \<notin> key ` set table \<and> t = table @ [r]"
  by (auto simp: insert_row_def)

lemma select_first_append:
  "select_first p (xs @ ys) = (case select_first p xs of None \<Rightarrow> select_first p ys | Some r \<Rightarrow> Some r)"
  by (induction xs) (simp_all add: select_first_def)

lemma select_first_update:
  "(\<And>r. p (g r) = p r) \<Longrightarrow> select_first p (map g table) = map_option g (select_first p table)"
  by (induction table) (simp_all add: select_first_def)

section \<open>Runs\<close>

lemma equery_run [simp, eff_simps]: "equery f w = (Inr (f w), w)"
  and eupdate_run [simp, eff_simps]: "eupdate g w = (Inr (), g w)"
  by (simp_all add: equery_def eupdate_def)

lemma einsert_eq_Inr [eff_simps]: "einsert f w = (Inr u, w') \<longleftrightarrow> f w = Inr w'"
  by (auto simp: einsert_def split: sum.splits)

lemma ewhen_eq_Inr [eff_simps]: "ewhen b e w = (Inr u, w') \<longleftrightarrow> \<not> b \<and> w' = w"
  by (auto simp: ewhen_def)

lemma ewhen_run [simp]: "ewhen True e w = (Inl e, w)" "ewhen False e w = (Inr (), w)"
  by (simp_all add: ewhen_def)

lemma ebind_ewhen: "ebind (ewhen b e) f w = (if b then (Inl e, w) else f () w)"
  by (simp add: ewhen_def)

lemma ebind_equery: "ebind (equery f) g w = g (f w) w"
  by (simp add: ebind_def equery_def)

lemma ebind_eupdate: "ebind (eupdate f) g w = g () (f w)"
  by (simp add: ebind_def eupdate_def)

lemmas statement_simps = ebind_ewhen ebind_equery ebind_eupdate

lemma transactionSync_eq_Inr [eff_simps]: "transactionSync m w = (Inr a, w') \<longleftrightarrow> m w = (Inr a, w')"
  by (auto simp: transactionSync_def split: prod.splits sum.splits)

text \<open>A transaction that throws leaves the database as it was.\<close>

lemma transactionSync_Inl: "transactionSync m w = (Inl e, w') \<Longrightarrow> w' = w"
  by (auto simp: transactionSync_def split: prod.splits sum.splits)

end
