(* ===== verification/Api.thy ===== *)
theory Api
  imports PayRecovery
begin

text \<open>
  \<open>packages/uniswap/src/api.ts\<close>: the requests and responses of the service, parsed from untrusted JavaScript
  values.  \<open>new URL(path, base)\<close> is the platform's parser: a parameter that yields the path name and the query.
\<close>

record Url =
  url_pathname :: string
  url_searchParams :: "(string \<times> string) list"

datatype ApiRoute =
    POST_challenge | POST_verify | PUT_operation | GET_operations | GET_operation | POST_release
  | POST_rewards | GET_rewards | GET_reward | POST_received

datatype ErrorCode =
    API_INVALID_REQUEST | API_UNAUTHENTICATED | API_CHALLENGE_EXPIRED | API_CHALLENGE_USED | API_SCOPE_MISMATCH
  | API_REVISION_CONFLICT | API_RESERVATION_CONFLICT | API_REQUEST_CONFLICT | API_PENDING_REQUEST
  | API_INSUFFICIENT_FUNDS | API_NOT_FOUND | API_PAYLOAD_TOO_LARGE | API_SERVICE_UNAVAILABLE

record ApiError =
  err_code :: ErrorCode
  err_message :: string
  err_field :: "string option"
  err_allowedActions :: "string list"

record OperationResponse =
  or_scope :: Scope
  or_record :: OperationRecord
  or_revision :: int
  or_reservationState :: "ReservationState option"
  or_status :: "OperationStatus option"
  or_stateVersion :: "int option"
  or_checkpoint :: "FinalizedCheckpoint option"

record ParsedApiRequest =
  pa_route :: ApiRoute
  pa_scope :: Scope
  pa_id :: "Bytes32 option"
  pa_cursor :: "Bytes32 option"
  pa_challengeId :: "Bytes32 option"
  pa_siweMessage :: "string option"
  pa_signature :: "string option"
  pa_expectedRevision :: "int option"
  pa_sealedRevision :: "int option"
  pa_record :: "OperationRecord option"
  pa_reward :: "RewardRequest option"
  pa_outputId :: "Bytes32 option"
  pa_blockHash :: "Bytes32 option"

section \<open>The wire format\<close>

text \<open>The type \<open>WireOperationRecord\<close>: the record as a JSON value, without its scope and with a decimal deadline.\<close>

definition wire_bundle :: "EncryptedBundle \<Rightarrow> js_value" where
  "wire_bundle b = JObject [(''ciphertext'', JString (eb_ciphertext b)), (''nonce'', JString (eb_nonce b)),
     (''tag'', JString (eb_tag b))]"

definition wire_kind :: "record_kind \<Rightarrow> (string \<times> js_value) list" where
  "wire_kind k = (case k of
     Pay paymentId deadline \<Rightarrow> [(''kind'', JString ''pay''), (''paymentId'', JString paymentId),
       (''deadline'', JString (toString10 (nat deadline)))]
   | Withdraw \<Rightarrow> [(''kind'', JString ''withdraw'')])"

definition WireOperationRecord :: "OperationRecord \<Rightarrow> js_value" where
  "WireOperationRecord r = JObject ([(''recordId'', JString (rb_recordId r)), (''inputId'', JString (rb_inputId r)),
     (''operationId'', JString (rb_operationId r)), (''contentHash'', JString (rb_contentHash r)),
     (''encryptedBundle'', wire_bundle (rb_encryptedBundle r)),
     (''signatureStarted'', JBoolean (rb_signatureStarted r)),
     (''attemptIds'', JArray (map JString (rb_attemptIds r)))] @ wire_kind (rec_kind r))"

definition wire_scope :: "Scope \<Rightarrow> js_value" where
  "wire_scope s = JObject [(''deploymentId'', JString (sc_deploymentId s)), (''owner'', JString (sc_owner s))]"

definition wire_recipient :: "SignedRecipientInfo \<Rightarrow> js_value" where
  "wire_recipient i = JObject [(''owner'', JString (sri_owner i)), (''publicKey'', JString (sri_publicKey i)),
     (''signature'', JString (sri_signature i))]"

definition WireRewardRequest :: "RewardRequest \<Rightarrow> (string \<times> js_value) list" where
  "WireRewardRequest r = [(''scope'', wire_scope (rr_scope r)), (''requestId'', JString (rr_requestId r)),
     (''amountWei'', JString (toString10 (nat (rr_amountWei r)))), (''recipientInfo'', wire_recipient (rr_recipientInfo r))]"

definition wire_number :: "int \<Rightarrow> js_value" where
  "wire_number n = JNumber (Finite (of_int n))"

text \<open>\<open>ApiRequestBodyMap\<close>: the body that each route takes.\<close>

datatype ApiRequestBody =
    ChallengeBody Scope
  | VerifyBody Scope Bytes32 string string
  | PutBody Scope int int OperationRecord
  | ReleaseBody Scope int int Bytes32 OperationRecord
  | RewardsBody RewardRequest
  | ReceivedBody Scope Bytes32 Bytes32

fun wire_body :: "ApiRequestBody \<Rightarrow> js_value" where
  "wire_body (ChallengeBody s) = JObject [(''scope'', wire_scope s)]"
| "wire_body (VerifyBody s challengeId siweMessage sg) = JObject [(''scope'', wire_scope s),
     (''challengeId'', JString challengeId), (''siweMessage'', JString siweMessage), (''signature'', JString sg)]"
| "wire_body (PutBody s expected sealed r) = JObject [(''scope'', wire_scope s),
     (''expectedRevision'', wire_number expected), (''sealedRevision'', wire_number sealed),
     (''record'', WireOperationRecord r)]"
| "wire_body (ReleaseBody s expected sealed blockHash r) = JObject [(''scope'', wire_scope s),
     (''expectedRevision'', wire_number expected), (''sealedRevision'', wire_number sealed),
     (''blockHash'', JString blockHash), (''record'', WireOperationRecord r)]"
| "wire_body (RewardsBody r) = JObject (WireRewardRequest r)"
| "wire_body (ReceivedBody s outId blockHash) = JObject [(''scope'', wire_scope s),
     (''outputId'', JString outId), (''blockHash'', JString blockHash)]"

section \<open>Requests\<close>

definition parseScope :: "js_value \<Rightarrow> Scope pay_res" where
  "parseScope v =
     rbind (parseJsonObject v (Some ''scope'')) (\<lambda>object.
     rbind (parseString (property object ''deploymentId'') ''scope.deploymentId'') (\<lambda>deploymentId.
     rbind (parseAddress (property object ''owner'') (Some ''scope.owner'')) (\<lambda>owner.
       Inr \<lparr>sc_deploymentId = deploymentId, sc_owner = owner\<rparr>)))"

text \<open>\<open>url.searchParams.get(name)\<close>.\<close>

definition search_param :: "Url \<Rightarrow> string \<Rightarrow> js_value" where
  "search_param url name = (case map_of (url_searchParams url) name of None \<Rightarrow> JNull | Some s \<Rightarrow> JString s)"

definition parseQueryScope :: "Url \<Rightarrow> Scope pay_res" where
  "parseQueryScope url = parseScope (JObject [(''deploymentId'', search_param url ''deploymentId''),
     (''owner'', search_param url ''owner'')])"

definition parseSignature :: "js_value \<Rightarrow> string \<Rightarrow> string pay_res" where
  "parseSignature v field = (case v of
     JString s \<Rightarrow> if bytes s 65 then Inr s else Inl (invalid_field field)
   | _ \<Rightarrow> Inl (invalid_field field))"

definition is_base64 :: "char \<Rightarrow> bool" where
  "is_base64 c = (let n = (of_char c :: nat)
     in 65 \<le> n \<and> n \<le> 90 \<or> 97 \<le> n \<and> n \<le> 122 \<or> 48 \<le> n \<and> n \<le> 57 \<or> n = 43 \<or> n = 47)"

text \<open>\<open>/^[A-Za-z0-9+/]+={0,2}$/\<close>.\<close>

definition base64_text :: "string \<Rightarrow> bool" where
  "base64_text s \<longleftrightarrow> takeWhile is_base64 s \<noteq> [] \<and> dropWhile is_base64 s \<in> {'''', ''='', ''==''}"

definition parseEncryptedBundle :: "js_value \<Rightarrow> EncryptedBundle pay_res" where
  "parseEncryptedBundle v =
     rbind (parseJsonObject v (Some ''record.encryptedBundle'')) (\<lambda>object.
     rbind (parseString (property object ''ciphertext'') ''record.encryptedBundle.ciphertext'') (\<lambda>ciphertext.
     rbind (require (base64_text ciphertext) (invalid_field ''record.encryptedBundle.ciphertext'')) (\<lambda>_.
     rbind (parseString (property object ''nonce'') ''record.encryptedBundle.nonce'') (\<lambda>nonce.
     rbind (parseString (property object ''tag'') ''record.encryptedBundle.tag'') (\<lambda>etag.
     rbind (require (bytes nonce 12 \<and> bytes etag 16) (invalid_field ''record.encryptedBundle'')) (\<lambda>_.
       Inr \<lparr>eb_ciphertext = ciphertext, eb_nonce = nonce, eb_tag = etag\<rparr>))))))"

text \<open>An array of strings that satisfy \<open>ok\<close>.\<close>

definition string_array :: "(string \<Rightarrow> bool) \<Rightarrow> string \<Rightarrow> js_value \<Rightarrow> string list pay_res" where
  "string_array ok field v = (case v of
     JArray items \<Rightarrow> mapM (\<lambda>item. case item of JString s \<Rightarrow> if ok s then Inr s else Inl (invalid_field field)
                                | _ \<Rightarrow> Inl (invalid_field field)) items
   | _ \<Rightarrow> Inl (invalid_field field))"

definition parse_kind :: "(string \<times> js_value) list \<Rightarrow> record_kind pay_res" where
  "parse_kind object =
     (if property object ''kind'' = JString ''pay'' then
        rbind (parseUintString (property object ''deadline'') (Some ''record.deadline'') (Some UINT64_MAX)) (\<lambda>deadline.
        rbind (require (deadline \<noteq> 0) (invalid_field ''record.deadline'')) (\<lambda>_.
        rbind (parseBytes32 (property object ''paymentId'') (Some ''record.paymentId'')) (\<lambda>paymentId.
          Inr (Pay paymentId deadline))))
      else if property object ''kind'' = JString ''withdraw'' \<and> property object ''paymentId'' = JUndefined \<and>
              property object ''deadline'' = JUndefined
      then Inr Withdraw
      else Inl (invalid_field ''record.kind''))"

definition parseOperationRecord :: "js_value \<Rightarrow> Scope \<Rightarrow> OperationRecord pay_res" where
  "parseOperationRecord v scope =
     rbind (parseJsonObject v (Some ''record'')) (\<lambda>object.
     rbind (case property object ''signatureStarted'' of JBoolean b \<Rightarrow> Inr b
            | _ \<Rightarrow> Inl (invalid_field ''record.signatureStarted'')) (\<lambda>signatureStarted.
     rbind (string_array (\<lambda>s. s \<noteq> []) ''record.attemptIds'' (property object ''attemptIds'')) (\<lambda>attemptIds.
     rbind (parseBytes32 (property object ''recordId'') (Some ''record.recordId'')) (\<lambda>recordId.
     rbind (parseBytes32 (property object ''inputId'') (Some ''record.inputId'')) (\<lambda>inputId.
     rbind (parseBytes32 (property object ''operationId'') (Some ''record.operationId'')) (\<lambda>operationId.
     rbind (parseBytes32 (property object ''contentHash'') (Some ''record.contentHash'')) (\<lambda>contentHash.
     rbind (parseEncryptedBundle (property object ''encryptedBundle'')) (\<lambda>encryptedBundle.
     rbind (parse_kind object) (\<lambda>kind.
       Inr \<lparr>rb_recordId = recordId, rb_scope = scope, rb_inputId = inputId, rb_operationId = operationId,
            rb_contentHash = contentHash, rb_encryptedBundle = encryptedBundle,
            rb_signatureStarted = signatureStarted, rb_attemptIds = attemptIds, rec_kind = kind\<rparr>)))))))))"

definition parseRecipientInfo :: "js_value \<Rightarrow> SignedRecipientInfo pay_res" where
  "parseRecipientInfo v =
     rbind (parseJsonObject v (Some ''recipientInfo'')) (\<lambda>object.
     rbind (parseAddress (property object ''owner'') (Some ''recipientInfo.owner'')) (\<lambda>owner.
     rbind (parseBytes32 (property object ''publicKey'') (Some ''recipientInfo.publicKey'')) (\<lambda>publicKey.
     rbind (parseSignature (property object ''signature'') ''recipientInfo.signature'') (\<lambda>sg.
       Inr \<lparr>sri_owner = owner, sri_publicKey = publicKey, sri_signature = sg\<rparr>))))"

definition parseRewardRequest :: "js_value \<Rightarrow> RewardRequest pay_res" where
  "parseRewardRequest v =
     rbind (parseJsonObject v None) (\<lambda>object.
     rbind (parseScope (property object ''scope'')) (\<lambda>scope.
     rbind (parseUintString (property object ''amountWei'') (Some ''amountWei'') (Some UINT256_MAX)) (\<lambda>amountWei.
     rbind (require (amountWei \<noteq> 0) (SchemaError INVALID_DECIMAL (Some ''amountWei''))) (\<lambda>_.
     rbind (parseRecipientInfo (property object ''recipientInfo'')) (\<lambda>recipientInfo.
     rbind (require (sameText (sri_owner recipientInfo) (sc_owner scope)) (invalid_field ''recipientInfo.owner'')) (\<lambda>_.
     rbind (parseBytes32 (property object ''requestId'') (Some ''requestId'')) (\<lambda>requestId.
       Inr \<lparr>rr_scope = scope, rr_requestId = requestId, rr_amountWei = amountWei, rr_recipientInfo = recipientInfo\<rparr>)))))))"

text \<open>\<open>new RegExp('^' + prefix + '(0x[0-9a-fA-F]{64})' + suffix + '$')\<close> and its group.\<close>

definition path_id :: "string \<Rightarrow> string \<Rightarrow> string \<Rightarrow> string option" where
  "path_id pre post pathname =
     (let n = length pre; i = take 66 (drop n pathname)
      in if take n pathname = pre \<and> bytes i 32 \<and> drop (n + 66) pathname = post then Some i else None)"

definition request_for :: "ApiRoute \<Rightarrow> Scope \<Rightarrow> ParsedApiRequest" where
  "request_for route scope = \<lparr>pa_route = route, pa_scope = scope, pa_id = None, pa_cursor = None, pa_challengeId = None,
     pa_siweMessage = None, pa_signature = None, pa_expectedRevision = None, pa_sealedRevision = None,
     pa_record = None, pa_reward = None, pa_outputId = None, pa_blockHash = None\<rparr>"

definition parse_challenge :: "js_value \<Rightarrow> ParsedApiRequest pay_res" where
  "parse_challenge body =
     rbind (parseJsonObject body None) (\<lambda>object.
     rbind (parseScope (property object ''scope'')) (\<lambda>scope. Inr (request_for POST_challenge scope)))"

definition parse_verify :: "js_value \<Rightarrow> ParsedApiRequest pay_res" where
  "parse_verify body =
     rbind (parseJsonObject body None) (\<lambda>object.
     rbind (parseScope (property object ''scope'')) (\<lambda>scope.
     rbind (parseBytes32 (property object ''challengeId'') (Some ''challengeId'')) (\<lambda>challengeId.
     rbind (parseString (property object ''siweMessage'') ''siweMessage'') (\<lambda>siweMessage.
     rbind (parseSignature (property object ''signature'') ''signature'') (\<lambda>sg.
       Inr ((request_for POST_verify scope)\<lparr>pa_challengeId := Some challengeId, pa_siweMessage := Some siweMessage,
         pa_signature := Some sg\<rparr>))))))"

definition parse_put :: "bool \<Rightarrow> string \<Rightarrow> js_value \<Rightarrow> ParsedApiRequest pay_res" where
  "parse_put allowLegacyUnsealedPut pathId body =
     rbind (parseJsonObject body None) (\<lambda>object.
     rbind (parseScope (property object ''scope'')) (\<lambda>scope.
     rbind (parseBytes32 (JString pathId) (Some ''id'')) (\<lambda>i.
     rbind (parseOperationRecord (property object ''record'') scope) (\<lambda>r.
     rbind (parseRevision (property object ''expectedRevision'') (Some ''expectedRevision'')) (\<lambda>expected.
     rbind (if property object ''sealedRevision'' = JUndefined \<and> allowLegacyUnsealedPut then Inr None
            else rbind (parseRevision (property object ''sealedRevision'') (Some ''sealedRevision'')) (\<lambda>s. Inr (Some s))) (\<lambda>sealed.
     rbind (require (sealed = None \<or> sealed = Some (expected + 1)) (SchemaError INVALID_REVISION (Some ''sealedRevision''))) (\<lambda>_.
     rbind (require (sameText (rb_recordId r) i) (invalid_field ''record.recordId'')) (\<lambda>_.
       Inr ((request_for PUT_operation scope)\<lparr>pa_id := Some i, pa_expectedRevision := Some expected,
         pa_sealedRevision := sealed, pa_record := Some r\<rparr>)))))))))"

definition forbidden_fields :: "string list" where
  "forbidden_fields = [''paymentSucceeded'', ''inputUnspent'', ''inputConsumed'', ''finalized'', ''blockTime'']"

definition parse_release :: "string \<Rightarrow> js_value \<Rightarrow> ParsedApiRequest pay_res" where
  "parse_release pathId body =
     rbind (parseJsonObject body None) (\<lambda>object.
     rbind (mapM (\<lambda>name. require (property object name = JUndefined) (invalid_field name)) forbidden_fields) (\<lambda>_.
     rbind (parseScope (property object ''scope'')) (\<lambda>scope.
     rbind (parseBytes32 (JString pathId) (Some ''id'')) (\<lambda>i.
     rbind (parseRevision (property object ''expectedRevision'') (Some ''expectedRevision'')) (\<lambda>expected.
     rbind (parseRevision (property object ''sealedRevision'') (Some ''sealedRevision'')) (\<lambda>sealed.
     rbind (require (sealed = expected + 1) (SchemaError INVALID_REVISION (Some ''sealedRevision''))) (\<lambda>_.
     rbind (parseOperationRecord (property object ''record'') scope) (\<lambda>r.
     rbind (require (sameText (rb_recordId r) i) (invalid_field ''record.recordId'')) (\<lambda>_.
     rbind (parseBytes32 (property object ''blockHash'') (Some ''blockHash'')) (\<lambda>blockHash.
       Inr ((request_for POST_release scope)\<lparr>pa_id := Some i, pa_expectedRevision := Some expected,
         pa_sealedRevision := Some sealed, pa_record := Some r, pa_blockHash := Some blockHash\<rparr>)))))))))))"

definition parse_received :: "string \<Rightarrow> js_value \<Rightarrow> ParsedApiRequest pay_res" where
  "parse_received pathId body =
     rbind (parseJsonObject body None) (\<lambda>object.
     rbind (parseScope (property object ''scope'')) (\<lambda>scope.
     rbind (parseBytes32 (JString pathId) (Some ''id'')) (\<lambda>i.
     rbind (parseBytes32 (property object ''outputId'') (Some ''outputId'')) (\<lambda>outId.
     rbind (parseBytes32 (property object ''blockHash'') (Some ''blockHash'')) (\<lambda>blockHash.
       Inr ((request_for POST_received scope)\<lparr>pa_id := Some i, pa_outputId := Some outId,
         pa_blockHash := Some blockHash\<rparr>))))))"

definition parse_by_id :: "ApiRoute \<Rightarrow> Url \<Rightarrow> string \<Rightarrow> ParsedApiRequest pay_res" where
  "parse_by_id route url pathId =
     rbind (parseQueryScope url) (\<lambda>scope.
     rbind (parseBytes32 (JString pathId) (Some ''id'')) (\<lambda>i. Inr ((request_for route scope)\<lparr>pa_id := Some i\<rparr>)))"

definition parse_operations :: "Url \<Rightarrow> ParsedApiRequest pay_res" where
  "parse_operations url =
     rbind (parseQueryScope url) (\<lambda>scope.
       case map_of (url_searchParams url) ''cursor'' of
         None \<Rightarrow> Inr (request_for GET_operations scope)
       | Some cursor \<Rightarrow> rbind (parseBytes32 (JString cursor) (Some ''cursor'')) (\<lambda>c.
           Inr ((request_for GET_operations scope)\<lparr>pa_cursor := Some c\<rparr>)))"

text \<open>The chain of route tests, in its order.\<close>

definition route_request :: "string \<Rightarrow> Url \<Rightarrow> js_value \<Rightarrow> bool \<Rightarrow> ParsedApiRequest pay_res" where
  "route_request verb url body allowLegacyUnsealedPut =
     (let pathname = url_pathname url;
          operationMatch = path_id ''/v1/operations/'' '''' pathname;
          releaseMatch = path_id ''/v1/operations/'' ''/release'' pathname;
          receivedMatch = path_id ''/v1/rewards/'' ''/received'' pathname;
          rewardMatch = path_id ''/v1/rewards/'' '''' pathname
      in if verb = ''POST'' \<and> pathname = ''/v1/auth/challenge'' then parse_challenge body
         else if verb = ''POST'' \<and> pathname = ''/v1/auth/verify'' then parse_verify body
         else if verb = ''PUT'' \<and> operationMatch \<noteq> None then parse_put allowLegacyUnsealedPut (the operationMatch) body
         else if verb = ''POST'' \<and> releaseMatch \<noteq> None then parse_release (the releaseMatch) body
         else if verb = ''GET'' \<and> operationMatch \<noteq> None then parse_by_id GET_operation url (the operationMatch)
         else if verb = ''GET'' \<and> pathname = ''/v1/operations'' then parse_operations url
         else if verb = ''POST'' \<and> pathname = ''/v1/rewards'' then
           rbind (parseRewardRequest body) (\<lambda>reward.
             Inr ((request_for POST_rewards (rr_scope reward))\<lparr>pa_reward := Some reward\<rparr>))
         else if verb = ''GET'' \<and> pathname = ''/v1/rewards'' then
           rbind (parseQueryScope url) (\<lambda>scope. Inr (request_for GET_rewards scope))
         else if verb = ''POST'' \<and> receivedMatch \<noteq> None then parse_received (the receivedMatch) body
         else if verb = ''GET'' \<and> rewardMatch \<noteq> None then parse_by_id GET_reward url (the rewardMatch)
         else Inl (invalid_field ''route''))"

definition parseApiRequest ::
  "(string \<Rightarrow> Url pay_res) \<Rightarrow> string \<Rightarrow> string \<Rightarrow> js_value \<Rightarrow> bool \<Rightarrow> ParsedApiRequest pay_res" where
  "parseApiRequest new_URL verb path body allowLegacyUnsealedPut =
     rbind (new_URL path) (\<lambda>url. route_request verb url body allowLegacyUnsealedPut)"

section \<open>Responses\<close>

definition ERROR_CODES :: "(string \<times> ErrorCode) list" where
  "ERROR_CODES = [(''INVALID_REQUEST'', API_INVALID_REQUEST), (''UNAUTHENTICATED'', API_UNAUTHENTICATED),
     (''CHALLENGE_EXPIRED'', API_CHALLENGE_EXPIRED), (''CHALLENGE_USED'', API_CHALLENGE_USED),
     (''SCOPE_MISMATCH'', API_SCOPE_MISMATCH), (''REVISION_CONFLICT'', API_REVISION_CONFLICT),
     (''RESERVATION_CONFLICT'', API_RESERVATION_CONFLICT), (''REQUEST_CONFLICT'', API_REQUEST_CONFLICT),
     (''PENDING_REQUEST'', API_PENDING_REQUEST), (''INSUFFICIENT_FUNDS'', API_INSUFFICIENT_FUNDS),
     (''NOT_FOUND'', API_NOT_FOUND), (''SERVICE_UNAVAILABLE'', API_SERVICE_UNAVAILABLE),
     (''PAYLOAD_TOO_LARGE'', API_PAYLOAD_TOO_LARGE)]"

fun ERROR_STATUS :: "ErrorCode \<Rightarrow> int" where
  "ERROR_STATUS API_INVALID_REQUEST = 400"
| "ERROR_STATUS API_UNAUTHENTICATED = 401"
| "ERROR_STATUS API_CHALLENGE_EXPIRED = 401"
| "ERROR_STATUS API_CHALLENGE_USED = 401"
| "ERROR_STATUS API_SCOPE_MISMATCH = 403"
| "ERROR_STATUS API_REVISION_CONFLICT = 409"
| "ERROR_STATUS API_RESERVATION_CONFLICT = 409"
| "ERROR_STATUS API_REQUEST_CONFLICT = 409"
| "ERROR_STATUS API_PENDING_REQUEST = 409"
| "ERROR_STATUS API_INSUFFICIENT_FUNDS = 422"
| "ERROR_STATUS API_NOT_FOUND = 404"
| "ERROR_STATUS API_PAYLOAD_TOO_LARGE = 413"
| "ERROR_STATUS API_SERVICE_UNAVAILABLE = 503"

text \<open>The lists of accepted strings, each with the constructor that stands for it.\<close>

definition REWARD_STATUSES :: "(string \<times> RewardStatus) list" where
  "REWARD_STATUSES = [(''accepted'', rw_accepted), (''queued'', rw_queued), (''processing'', rw_processing),
     (''pending'', rw_pending), (''unknown'', rw_unknown), (''finalized'', rw_finalized), (''received'', rw_received),
     (''ended-without-distribution'', rw_ended)]"

definition REWARD_AVAILABILITIES :: "(string \<times> RewardAvailability) list" where
  "REWARD_AVAILABILITIES = [(''healthy'', ra_healthy), (''rpc-unavailable'', ra_rpc_unavailable),
     (''funds-short'', ra_funds_short), (''gas-short'', ra_gas_short), (''operator-stopped'', ra_operator_stopped),
     (''quota-stopped'', ra_quota_stopped), (''restore-stopped'', ra_restore_stopped)]"

definition OPERATION_STATUSES :: "(string \<times> OperationStatus) list" where
  "OPERATION_STATUSES = [(''reserved'', st_reserved), (''unknown'', st_unknown), (''released'', st_released),
     (''consumed'', st_consumed), (''finalized-success'', st_finalized_success)]"

text \<open>\<open>LIST.includes(value)\<close> on an \<open>unknown\<close>, or the error of the field.\<close>

definition parse_enum :: "(string \<times> 'a) list \<Rightarrow> string \<Rightarrow> js_value \<Rightarrow> 'a pay_res" where
  "parse_enum names field v = (case v of
     JString s \<Rightarrow> (case map_of names s of None \<Rightarrow> Inl (invalid_field field) | Some x \<Rightarrow> Inr x)
   | _ \<Rightarrow> Inl (invalid_field field))"

text \<open>\<open>value === undefined ? undefined : parse(value)\<close>.\<close>

definition parse_optional :: "(js_value \<Rightarrow> 'a pay_res) \<Rightarrow> js_value \<Rightarrow> 'a option pay_res" where
  "parse_optional parse v = (if v = JUndefined then Inr None else rbind (parse v) (\<lambda>x. Inr (Some x)))"

text \<open>\<open>/0x[0-9a-fA-F]{64,}/.test(message)\<close>: some position starts with \<open>0x\<close> and 64 digits.\<close>

fun has_long_hex :: "string \<Rightarrow> bool" where
  "has_long_hex [] = False"
| "has_long_hex (c # s) = (bytes (take 66 (c # s)) 32 \<or> has_long_hex s)"

definition parseError :: "js_value \<Rightarrow> ApiError pay_res" where
  "parseError v =
     rbind (parseJsonObject v (Some ''error'')) (\<lambda>object.
     rbind (parseString (property object ''code'') ''error.code'') (\<lambda>code.
     rbind (parse_enum ERROR_CODES ''error.code'' (JString code)) (\<lambda>code'.
     rbind (parseString (property object ''message'') ''error.message'') (\<lambda>message.
     rbind (require (\<not> (length message > 160 \<or> has_long_hex message)) (invalid_field ''error.message'')) (\<lambda>_.
     rbind (string_array (\<lambda>_. True) ''error.allowedActions'' (property object ''allowedActions'')) (\<lambda>allowedActions.
     rbind (parse_optional (\<lambda>x. parseString x ''error.field'') (property object ''field'')) (\<lambda>field.
       Inr \<lparr>err_code = code', err_message = message, err_field = field, err_allowedActions = allowedActions\<rparr>)))))))"

definition parseRewardRecord :: "js_value \<Rightarrow> RewardRecord pay_res" where
  "parseRewardRecord v =
     rbind (parseJsonObject v (Some ''reward'')) (\<lambda>object.
     rbind (parseRewardRequest (JObject object)) (\<lambda>request.
     rbind (parse_enum REWARD_STATUSES ''reward.status'' (property object ''status'')) (\<lambda>status.
     rbind (parse_optional (parse_enum REWARD_AVAILABILITIES ''reward.availability'') (property object ''availability'')) (\<lambda>availability.
     rbind (string_array (\<lambda>_. True) ''reward.attemptIds'' (property object ''attemptIds'')) (\<lambda>attemptIds.
     rbind (case property object ''txHashes'' of JArray items \<Rightarrow> Inr items | _ \<Rightarrow> Inl (invalid_field ''reward.txHashes'')) (\<lambda>items.
     rbind (parse_optional (\<lambda>x. parseBytes32 x (Some ''reward.checkedAtBlockHash'')) (property object ''checkedAtBlockHash'')) (\<lambda>checkedAt.
     rbind (parse_optional (\<lambda>x. parseBytes32 x (Some ''reward.operationId'')) (property object ''operationId'')) (\<lambda>opId.
     rbind (mapM (\<lambda>x. parseBytes32 x (Some ''reward.txHashes'')) items) (\<lambda>txHashes.
     rbind (parse_optional (\<lambda>x. parseBytes32 x (Some ''reward.outputId'')) (property object ''outputId'')) (\<lambda>outId.
     rbind (parse_optional (\<lambda>x. parseBytes32 x (Some ''reward.blockHash'')) (property object ''blockHash'')) (\<lambda>blockHash.
       Inr \<lparr>rr_scope = rr_scope request, rr_requestId = rr_requestId request, rr_amountWei = rr_amountWei request,
            rr_recipientInfo = rr_recipientInfo request, rw_status = status, rw_availability = availability,
            rw_checkedAtBlockHash = checkedAt, rw_operationId = opId, rw_attemptIds = attemptIds,
            rw_txHashes = txHashes, rw_outputId = outId, rw_blockHash = blockHash\<rparr>)))))))))))"

definition parseReservationState :: "js_value \<Rightarrow> ReservationState pay_res" where
  "parseReservationState = parse_enum [(''active'', active), (''released'', released)] ''reservationState''"

definition parse_checkpoint :: "js_value \<Rightarrow> FinalizedCheckpoint pay_res" where
  "parse_checkpoint v =
     rbind (parseJsonObject v (Some ''operation.checkpoint'')) (\<lambda>item.
     rbind (parseUintString (property item ''blockNumber'') (Some ''operation.checkpoint.blockNumber'') None) (\<lambda>blockNumber.
     rbind (parseBytes32 (property item ''blockHash'') (Some ''operation.checkpoint.blockHash'')) (\<lambda>blockHash.
     rbind (parseUintString (property item ''blockTimestamp'') (Some ''operation.checkpoint.blockTimestamp'') None) (\<lambda>blockTimestamp.
       Inr \<lparr>fc_blockNumber = toString10 (nat blockNumber), fc_blockHash = blockHash,
            fc_blockTimestamp = toString10 (nat blockTimestamp)\<rparr>))))"

definition parseOperationResponse :: "js_value \<Rightarrow> bool \<Rightarrow> OperationResponse pay_res" where
  "parseOperationResponse v requireReservationState =
     rbind (parseJsonObject v (Some ''operation'')) (\<lambda>object.
     rbind (parseScope (property object ''scope'')) (\<lambda>scope.
     rbind (parse_optional (parse_enum OPERATION_STATUSES ''operation.status'') (property object ''status'')) (\<lambda>status.
     rbind (require (\<not> (status = None \<and>
         (property object ''stateVersion'' \<noteq> JUndefined \<or> property object ''checkpoint'' \<noteq> JUndefined)))
       (invalid_field ''operation.status'')) (\<lambda>_.
     rbind (parse_optional parse_checkpoint (property object ''checkpoint'')) (\<lambda>checkpoint.
     rbind (require (\<not> (status \<in> {Some st_released, Some st_consumed, Some st_finalized_success} \<and> checkpoint = None))
       (invalid_field ''operation.checkpoint'')) (\<lambda>_.
     rbind (parse_optional parseReservationState (property object ''reservationState'')) (\<lambda>reservationState.
     rbind (require (\<not> (requireReservationState \<and> reservationState = None)) (invalid_field ''reservationState'')) (\<lambda>_.
     rbind (parseOperationRecord (property object ''record'') scope) (\<lambda>rec.
     rbind (parseRevision (property object ''revision'') (Some ''operation.revision'')) (\<lambda>revision.
     rbind (if status = None then Inr None
            else rbind (parseRevision (property object ''stateVersion'') (Some ''operation.stateVersion'')) (\<lambda>n. Inr (Some n))) (\<lambda>stateVersion.
       Inr \<lparr>or_scope = scope, or_record = rec, or_revision = revision, or_reservationState = reservationState,
            or_status = status, or_stateVersion = stateVersion, or_checkpoint = checkpoint\<rparr>)))))))))))"

text \<open>\<open>ApiSuccessResponseMap\<close> and the error response.\<close>

datatype ApiResponse =
    ErrorResponse ApiError
  | ChallengeResponse Bytes32 Bytes32 int int
  | VerifyResponse int
  | OneOperation OperationResponse
  | OperationList bool "OperationResponse list" "Bytes32 option"
  | OneReward RewardRecord
  | RewardList "RewardRecord list"

definition js_array :: "string \<Rightarrow> js_value \<Rightarrow> js_value list pay_res" where
  "js_array field v = (case v of JArray items \<Rightarrow> Inr items | _ \<Rightarrow> Inl (invalid_field field))"

definition parse_operation_list :: "(string \<times> js_value) list \<Rightarrow> ApiResponse pay_res" where
  "parse_operation_list object =
     rbind (js_array ''records'' (property object ''records'')) (\<lambda>records.
     rbind (parse_enum [(''healthy'', True), (''rollback'', False)] ''availability'' (property object ''availability'')) (\<lambda>healthy.
     rbind (mapM (\<lambda>item. parseOperationResponse item False) records) (\<lambda>parsed.
     rbind (parse_optional (\<lambda>x. parseBytes32 x (Some ''nextCursor'')) (property object ''nextCursor'')) (\<lambda>nextCursor.
       Inr (OperationList healthy parsed nextCursor)))))"

fun parse_success :: "ApiRoute \<Rightarrow> (string \<times> js_value) list \<Rightarrow> ApiResponse pay_res" where
  "parse_success POST_challenge object =
     rbind (parseBytes32 (property object ''challengeId'') (Some ''challengeId'')) (\<lambda>challengeId.
     rbind (parseBytes32 (property object ''nonce'') (Some ''nonce'')) (\<lambda>nonce.
     rbind (parseTimestamp (property object ''issuedAt'') ''issuedAt'') (\<lambda>issuedAt.
     rbind (parseTimestamp (property object ''expiresAt'') ''expiresAt'') (\<lambda>expiresAt.
       Inr (ChallengeResponse challengeId nonce issuedAt expiresAt)))))"
| "parse_success POST_verify object =
     rbind (parseTimestamp (property object ''sessionExpiresAt'') ''sessionExpiresAt'') (\<lambda>t. Inr (VerifyResponse t))"
| "parse_success PUT_operation object =
     rbind (parseOperationResponse (JObject object) False) (\<lambda>r. Inr (OneOperation r))"
| "parse_success GET_operation object =
     rbind (parseOperationResponse (JObject object) True) (\<lambda>r. Inr (OneOperation r))"
| "parse_success POST_release object =
     rbind (parseOperationResponse (JObject object) True) (\<lambda>r. Inr (OneOperation r))"
| "parse_success GET_operations object = parse_operation_list object"
| "parse_success POST_rewards object = rbind (parseRewardRecord (property object ''reward'')) (\<lambda>r. Inr (OneReward r))"
| "parse_success GET_reward object = rbind (parseRewardRecord (property object ''reward'')) (\<lambda>r. Inr (OneReward r))"
| "parse_success POST_received object = rbind (parseRewardRecord (property object ''reward'')) (\<lambda>r. Inr (OneReward r))"
| "parse_success GET_rewards object =
     rbind (js_array ''rewards'' (property object ''rewards'')) (\<lambda>rewards.
     rbind (mapM parseRewardRecord rewards) (\<lambda>parsed. Inr (RewardList parsed)))"

definition parseApiResponse :: "ApiRoute \<Rightarrow> int \<Rightarrow> js_value \<Rightarrow> ApiResponse pay_res" where
  "parseApiResponse route status body =
     rbind (parseJsonObject body None) (\<lambda>object.
       if status \<ge> 400 then
         rbind (parseError (property object ''error'')) (\<lambda>err.
         rbind (require (ERROR_STATUS (err_code err) = status) (invalid_field ''status'')) (\<lambda>_. Inr (ErrorResponse err)))
       else rbind (require (\<not> (status < 200 \<or> status \<ge> 300)) (invalid_field ''status'')) (\<lambda>_. parse_success route object))"

end
