(* ===== verification/ApiProperties.thy ===== *)
theory ApiProperties
  imports Api
begin

text \<open>
  What the wire format of \<open>packages/uniswap/src/api.ts\<close> promises: everything the parsers return is well formed,
  and a request written from well-formed values is read back as those values.
\<close>

section \<open>Well-formed values\<close>

text \<open>A \<open>Bytes32\<close> as \<open>parseBytes32\<close> returns it: 32 bytes of hexadecimal text in lower case.\<close>

definition wf_bytes32 :: "Bytes32 \<Rightarrow> bool" where
  "wf_bytes32 b \<longleftrightarrow> bytes b 32 \<and> toLowerCase b = b"

definition wf_scope :: "Scope \<Rightarrow> bool" where
  "wf_scope s \<longleftrightarrow> sc_deploymentId s \<noteq> [] \<and> bytes (sc_owner s) 20"

definition wf_bundle :: "EncryptedBundle \<Rightarrow> bool" where
  "wf_bundle b \<longleftrightarrow> base64_text (eb_ciphertext b) \<and> bytes (eb_nonce b) 12 \<and> bytes (eb_tag b) 16"

fun wf_kind :: "record_kind \<Rightarrow> bool" where
  "wf_kind (Pay paymentId deadline) = (wf_bytes32 paymentId \<and> 0 < deadline \<and> deadline \<le> UINT64_MAX)"
| "wf_kind Withdraw = True"

definition wf_record :: "OperationRecord \<Rightarrow> bool" where
  "wf_record r \<longleftrightarrow> wf_scope (rb_scope r) \<and> list_all wf_bytes32 [rb_recordId r, rb_inputId r, rb_operationId r, rb_contentHash r] \<and>
     wf_bundle (rb_encryptedBundle r) \<and> list_all (\<lambda>i. i \<noteq> []) (rb_attemptIds r) \<and> wf_kind (rec_kind r)"

definition wf_recipient :: "SignedRecipientInfo \<Rightarrow> bool" where
  "wf_recipient i \<longleftrightarrow> bytes (sri_owner i) 20 \<and> wf_bytes32 (sri_publicKey i) \<and> bytes (sri_signature i) 65"

definition wf_reward_fields :: "Scope \<Rightarrow> RequestId \<Rightarrow> int \<Rightarrow> SignedRecipientInfo \<Rightarrow> bool" where
  "wf_reward_fields scope requestId amountWei info \<longleftrightarrow> wf_scope scope \<and> wf_bytes32 requestId \<and>
     0 < amountWei \<and> amountWei \<le> UINT256_MAX \<and> wf_recipient info \<and> sameText (sri_owner info) (sc_owner scope)"

definition wf_reward :: "RewardRequest \<Rightarrow> bool" where
  "wf_reward r \<longleftrightarrow> wf_reward_fields (rr_scope r) (rr_requestId r) (rr_amountWei r) (rr_recipientInfo r)"

definition wf_revision :: "int \<Rightarrow> bool" where
  "wf_revision n \<longleftrightarrow> 0 \<le> n \<and> isSafeInteger n"

definition wf_optional :: "('a \<Rightarrow> bool) \<Rightarrow> 'a option \<Rightarrow> bool" where
  "wf_optional ok x \<longleftrightarrow> (case x of None \<Rightarrow> True | Some a \<Rightarrow> ok a)"

text \<open>A record that is written under its own identifier in the scope of the request, and sealed at the next revision.\<close>

definition wf_record_request :: "ParsedApiRequest \<Rightarrow> bool" where
  "wf_record_request r = (case (pa_id r, pa_record r, pa_expectedRevision r) of
     (Some i, Some rec, Some expected) \<Rightarrow> rb_recordId rec = i \<and> rb_scope rec = pa_scope r \<and>
       wf_optional (\<lambda>sealed. sealed = expected + 1) (pa_sealedRevision r)
   | _ \<Rightarrow> False)"

fun route_fields :: "ApiRoute \<Rightarrow> ParsedApiRequest \<Rightarrow> bool" where
  "route_fields POST_challenge r = (r = request_for POST_challenge (pa_scope r))"
| "route_fields POST_verify r = (pa_challengeId r \<noteq> None \<and> pa_siweMessage r \<noteq> None \<and> pa_signature r \<noteq> None \<and> pa_record r = None)"
| "route_fields PUT_operation r = (wf_record_request r \<and> pa_blockHash r = None)"
| "route_fields POST_release r = (wf_record_request r \<and> pa_sealedRevision r \<noteq> None \<and> pa_blockHash r \<noteq> None)"
| "route_fields POST_rewards r = (case pa_reward r of None \<Rightarrow> False | Some reward \<Rightarrow> rr_scope reward = pa_scope r)"
| "route_fields GET_operation r = (pa_id r \<noteq> None \<and> pa_record r = None)"
| "route_fields GET_reward r = (pa_id r \<noteq> None \<and> pa_record r = None)"
| "route_fields POST_received r = (pa_id r \<noteq> None \<and> pa_outputId r \<noteq> None \<and> pa_blockHash r \<noteq> None \<and> pa_record r = None)"
| "route_fields GET_operations r = (pa_id r = None \<and> pa_record r = None)"
| "route_fields GET_rewards r = (r = request_for GET_rewards (pa_scope r))"

definition wf_request :: "ParsedApiRequest \<Rightarrow> bool" where
  "wf_request r \<longleftrightarrow> wf_scope (pa_scope r) \<and> wf_optional wf_bytes32 (pa_id r) \<and> wf_optional wf_bytes32 (pa_cursor r) \<and>
     wf_optional wf_bytes32 (pa_challengeId r) \<and> wf_optional (\<lambda>m. m \<noteq> []) (pa_siweMessage r) \<and>
     wf_optional (\<lambda>s. bytes s 65) (pa_signature r) \<and> wf_optional wf_revision (pa_expectedRevision r) \<and>
     wf_optional wf_revision (pa_sealedRevision r) \<and> wf_optional wf_record (pa_record r) \<and>
     wf_optional wf_reward (pa_reward r) \<and> wf_optional wf_bytes32 (pa_outputId r) \<and>
     wf_optional wf_bytes32 (pa_blockHash r) \<and> route_fields (pa_route r) r"

lemma wf_optional_simps [simp]: "wf_optional ok None" "wf_optional ok (Some x) = ok x"
  by (simp_all add: wf_optional_def)

lemma lower_idem [simp]: "toLowerCase (toLowerCase s) = toLowerCase s"
proof -
  have "lower_char (lower_char c) = lower_char c" for c
    by (auto simp: lower_char_def Let_def)
  then show ?thesis by (simp add: toLowerCase_def)
qed

lemma wf_bytes32_lower: "bytes s 32 \<Longrightarrow> wf_bytes32 (toLowerCase s)"
  by (simp add: wf_bytes32_def bytes_lower)

section \<open>What each parser returns\<close>

named_theorems parsed_wf \<open>values returned by the parsers are well formed\<close>

lemma parseBytes32_wf [parsed_wf]: "parseBytes32 v f = Inr b \<Longrightarrow> wf_bytes32 b"
  by (auto simp: parser_simps wf_bytes32_lower)

lemma parseRevision_wf [parsed_wf]: "parseRevision v f = Inr n \<Longrightarrow> wf_revision n"
  by (auto simp: parser_simps wf_revision_def safe_integer_range)

lemma parseString_wf [parsed_wf]: "parseString v f = Inr s \<Longrightarrow> s \<noteq> []"
  by (auto simp: parser_simps)

lemma parseSignature_eq_Inr [parser_simps]: "parseSignature v f = Inr s \<longleftrightarrow> v = JString s \<and> bytes s 65"
  by (cases v) (auto simp: parseSignature_def)

lemma string_array_eq_Inr [parser_simps]:
  "string_array ok f v = Inr xs \<longleftrightarrow> v = JArray (map JString xs) \<and> list_all ok xs"
proof (cases v)
  case (JArray items)
  have "list_all2 (\<lambda>item y. (case item of JString s \<Rightarrow> if ok s then Inr s else Inl (invalid_field f)
          | _ \<Rightarrow> Inl (invalid_field f)) = Inr y) items xs \<longleftrightarrow> items = map JString xs \<and> list_all ok xs"
  proof (induction items arbitrary: xs)
    case Nil
    then show ?case by auto
  next
    case (Cons a items)
    show ?case by (cases xs; cases a) (auto simp: Cons.IH)
  qed
  then show ?thesis by (simp add: JArray string_array_def mapM_eq_Inr)
qed (auto simp: string_array_def)

lemma parseScope_eq_Inr [parser_simps]:
  "parseScope v = Inr s \<longleftrightarrow> (\<exists>object. v = JObject object \<and> wf_scope s \<and>
     property object ''deploymentId'' = JString (sc_deploymentId s) \<and> property object ''owner'' = JString (sc_owner s))"
  by (cases s) (auto simp: parseScope_def res_simps parser_simps wf_scope_def)

lemma parseScope_wf [parsed_wf]: "parseScope v = Inr s \<Longrightarrow> wf_scope s"
  by (auto simp: parser_simps)

lemma parseQueryScope_wf [parsed_wf]: "parseQueryScope url = Inr s \<Longrightarrow> wf_scope s"
  by (simp add: parseQueryScope_def parseScope_wf)

lemma parseEncryptedBundle_wf [parsed_wf]: "parseEncryptedBundle v = Inr b \<Longrightarrow> wf_bundle b"
  by (auto simp: parseEncryptedBundle_def res_simps parser_simps wf_bundle_def split: if_splits)

lemma parse_kind_wf [parsed_wf]: "parse_kind object = Inr k \<Longrightarrow> wf_kind k"
  by (auto simp: parse_kind_def res_simps UINT64_MAX_def BigInt_dec_def parser_simps wf_bytes32_lower split: if_splits)

lemma parseOperationRecord_wf [parsed_wf]:
  assumes "parseOperationRecord v scope = Inr r" and "wf_scope scope"
  shows "wf_record r \<and> rb_scope r = scope"
  using assms unfolding parseOperationRecord_def wf_record_def
  by (auto simp: res_simps parser_simps(8-) dest!: parsed_wf)

lemma parseRecipientInfo_wf [parsed_wf]: "parseRecipientInfo v = Inr i \<Longrightarrow> wf_recipient i"
  by (auto simp: parseRecipientInfo_def res_simps parser_simps wf_recipient_def wf_bytes32_lower)

lemma parseRewardRequest_wf [parsed_wf]: "parseRewardRequest v = Inr r \<Longrightarrow> wf_reward r"
  unfolding parseRewardRequest_def wf_reward_def wf_reward_fields_def
  by (auto simp: res_simps parseUintString_eq_Inr UINT256_MAX_def BigInt_dec_def dest!: parsed_wf split: if_splits)

section \<open>Requests\<close>

lemma sameText_bytes32: "wf_bytes32 a \<Longrightarrow> wf_bytes32 b \<Longrightarrow> sameText a b \<longleftrightarrow> a = b"
  by (simp add: wf_bytes32_def sameText_def)

lemmas request_shape_simps = wf_request_def wf_record_request_def request_for_def sameText_bytes32
lemmas request_wf_simps = request_shape_simps res_simps

lemma parse_challenge_wf: "parse_challenge body = Inr r \<Longrightarrow> wf_request r"
  by (auto simp: parse_challenge_def request_wf_simps dest!: parsed_wf)

lemma parse_verify_wf: "parse_verify body = Inr r \<Longrightarrow> wf_request r"
  by (auto simp: parse_verify_def request_wf_simps parseSignature_eq_Inr dest!: parsed_wf)

lemma parse_put_wf: "parse_put legacy i body = Inr r \<Longrightarrow> wf_request r"
  unfolding parse_put_def
  by (auto simp: request_wf_simps wf_record_def split: if_splits dest!: parsed_wf)

lemma parse_release_wf: "parse_release i body = Inr r \<Longrightarrow> wf_request r"
  unfolding parse_release_def
  by (auto simp: request_wf_simps wf_record_def split: if_splits dest!: parsed_wf)

lemma parse_received_wf: "parse_received i body = Inr r \<Longrightarrow> wf_request r"
  by (auto simp: parse_received_def request_wf_simps dest!: parsed_wf)

lemma parse_by_id_wf:
  "parse_by_id GET_operation url i = Inr r \<Longrightarrow> wf_request r"
  "parse_by_id GET_reward url i = Inr r \<Longrightarrow> wf_request r"
  by (auto simp: parse_by_id_def request_wf_simps dest!: parsed_wf)

lemma reward_request_wf: "wf_reward w \<Longrightarrow> wf_request ((request_for POST_rewards (rr_scope w))\<lparr>pa_reward := Some w\<rparr>)"
  and rewards_request_wf: "wf_scope s \<Longrightarrow> wf_request (request_for GET_rewards s)"
  by (simp_all add: request_wf_simps wf_reward_def wf_reward_fields_def)

lemma parse_operations_wf: "parse_operations url = Inr r \<Longrightarrow> wf_request r"
  by (auto simp: parse_operations_def request_wf_simps split: option.splits dest!: parsed_wf)

lemma route_request_wf: "route_request verb url body legacy = Inr r \<Longrightarrow> wf_request r"
  unfolding route_request_def Let_def
  by (auto simp: rbind_eq_Inr parse_challenge_wf parse_verify_wf parse_put_wf parse_release_wf parse_received_wf parse_by_id_wf
      parse_operations_wf reward_request_wf rewards_request_wf split: if_splits dest!: parseRewardRequest_wf parseQueryScope_wf)

lemma route_request_sealed: "route_request verb url body False = Inr r \<Longrightarrow> pa_route r = PUT_operation \<Longrightarrow> pa_sealedRevision r \<noteq> None"
  unfolding route_request_def Let_def parse_put_def
  by (auto simp: res_simps request_for_def parse_challenge_def parse_verify_def parse_release_def parse_received_def
      parse_by_id_def parse_operations_def split: if_splits option.splits)

definition request_promise :: "bool \<Rightarrow> ParsedApiRequest \<Rightarrow> bool" where
  "request_promise legacy r \<longleftrightarrow> wf_request r \<and> (if legacy \<or> pa_route r \<noteq> PUT_operation then True else pa_sealedRevision r \<noteq> None)"

text \<open>C32: whatever \<open>parseApiRequest\<close> returns is well formed: identifiers are 32 bytes in lower case, revisions are
  safe integers, a record carries the scope and the identifier of its request and is sealed at the next revision (a
  seal may be missing only where the legacy form is allowed), a reward names its owner as the recipient, and each
  route has the entries it needs.\<close>

theorem parsed_request_well_formed:
  assumes "parseApiRequest new_URL verb path body legacy = Inr r"
  shows "request_promise legacy r"
proof -
  from assms obtain url where "route_request verb url body legacy = Inr r"
    by (auto simp: parseApiRequest_def res_simps)
  then show ?thesis
    by (cases legacy) (auto simp: request_promise_def dest: route_request_wf route_request_sealed)
qed

section \<open>A request written and read\<close>

lemma property_Nil [simp]: "property [] n = JUndefined"
  and property_Cons [simp]: "property ((k, v) # entries) n = (if k = n then v else property entries n)"
  by (simp_all add: property_def)

lemma wf_bytes32_parse [simp]: "wf_bytes32 b \<Longrightarrow> parseBytes32 (JString b) f = Inr b"
  by (simp add: parser_simps wf_bytes32_def)

lemma parseScope_wire [simp]: "wf_scope s \<Longrightarrow> parseScope (wire_scope s) = Inr s"
  by (simp add: parser_simps wire_scope_def)

lemma wf_revision_parse [simp]: "wf_revision n \<Longrightarrow> parseRevision (wire_number n) f = Inr n"
  by (auto simp: parser_simps wire_number_def wf_revision_def intro!: exI [of _ "Finite (of_int n)"])

lemma wire_number_defined [simp]: "wire_number n \<noteq> JUndefined"
  by (simp add: wire_number_def)

lemma base64_nonempty: "base64_text s \<Longrightarrow> s \<noteq> []"
  by (auto simp: base64_text_def)

lemma bytes_text_nonempty: "bytes s n \<Longrightarrow> s \<noteq> []"
  by (auto simp: bytes_def)

lemma parseEncryptedBundle_wire [simp]: "wf_bundle b \<Longrightarrow> parseEncryptedBundle (wire_bundle b) = Inr b"
  by (cases b) (auto simp: parseEncryptedBundle_def wire_bundle_def res_simps parser_simps wf_bundle_def
      dest: base64_nonempty bytes_text_nonempty)

lemma parseUintString_toString10:
  "0 \<le> n \<Longrightarrow> n \<le> m \<Longrightarrow> parseUintString (JString (toString10 (nat n))) f (Some m) = Inr n"
  by (simp add: parser_simps BigInt_dec_def)

lemma parse_kind_wire: "wf_kind k \<Longrightarrow> parse_kind (wire_kind k) = Inr k"
  by (cases k) (simp_all add: parse_kind_def wire_kind_def parseUintString_toString10)

lemma property_wire_kind:
  assumes "n \<notin> {''kind'', ''paymentId'', ''deadline''}"
  shows "property (wire_kind k) n = JUndefined" and "parse_kind ((n, v) # entries) = parse_kind entries"
  using assms by (cases k; auto simp: parse_kind_def wire_kind_def)+

lemma parseOperationRecord_wire [simp]:
  assumes "wf_record r" and "rb_scope r = scope"
  shows "parseOperationRecord (WireOperationRecord r) scope = Inr r"
proof -
  have "string_array (\<lambda>s. s \<noteq> []) ''record.attemptIds'' (JArray (map JString (rb_attemptIds r))) = Inr (rb_attemptIds r)"
    using assms(1) by (simp add: parser_simps wf_record_def)
  moreover have "wf_kind (rec_kind r)" using assms(1) by (simp add: wf_record_def)
  ultimately show ?thesis
    using assms by (cases r) (simp add: parseOperationRecord_def WireOperationRecord_def parseJsonObject_def wf_record_def
      parse_kind_wire property_wire_kind)
qed

lemma parseRecipientInfo_wire [simp]: "wf_recipient i \<Longrightarrow> parseRecipientInfo (wire_recipient i) = Inr i"
  by (cases i) (simp add: parseRecipientInfo_def wire_recipient_def parseJsonObject_def res_simps parser_simps(2-) wf_recipient_def
      del: parseBytes32_eq_Inr)

lemma parseRewardRequest_wire [simp]: "wf_reward r \<Longrightarrow> parseRewardRequest (JObject (WireRewardRequest r)) = Inr r"
  by (cases r) (simp add: parseRewardRequest_def WireRewardRequest_def parseJsonObject_def wf_reward_def wf_reward_fields_def
      parseUintString_toString10)

text \<open>The method and the path of a request, and the request that its body stands for.\<close>

fun request_line :: "Bytes32 \<Rightarrow> ApiRequestBody \<Rightarrow> string \<times> string" where
  "request_line i (ChallengeBody s) = (''POST'', ''/v1/auth/challenge'')"
| "request_line i (VerifyBody s c m sg) = (''POST'', ''/v1/auth/verify'')"
| "request_line i (PutBody s e n r) = (''PUT'', ''/v1/operations/'' @ i)"
| "request_line i (ReleaseBody s e n b r) = (''POST'', ''/v1/operations/'' @ i @ ''/release'')"
| "request_line i (RewardsBody r) = (''POST'', ''/v1/rewards'')"
| "request_line i (ReceivedBody s out b) = (''POST'', ''/v1/rewards/'' @ i @ ''/received'')"

fun request_of :: "Bytes32 \<Rightarrow> ApiRequestBody \<Rightarrow> ParsedApiRequest" where
  "request_of i (ChallengeBody s) = request_for POST_challenge s"
| "request_of i (VerifyBody s c m sg) =
     (request_for POST_verify s)\<lparr>pa_challengeId := Some c, pa_siweMessage := Some m, pa_signature := Some sg\<rparr>"
| "request_of i (PutBody s e n r) =
     (request_for PUT_operation s)\<lparr>pa_id := Some i, pa_expectedRevision := Some e, pa_sealedRevision := Some n, pa_record := Some r\<rparr>"
| "request_of i (ReleaseBody s e n b r) =
     (request_for POST_release s)\<lparr>pa_id := Some i, pa_expectedRevision := Some e, pa_sealedRevision := Some n,
       pa_record := Some r, pa_blockHash := Some b\<rparr>"
| "request_of i (RewardsBody r) = (request_for POST_rewards (rr_scope r))\<lparr>pa_reward := Some r\<rparr>"
| "request_of i (ReceivedBody s out b) =
     (request_for POST_received s)\<lparr>pa_id := Some i, pa_outputId := Some out, pa_blockHash := Some b\<rparr>"

lemma path_id_match: "wf_bytes32 i \<Longrightarrow> path_id pre post (pre @ i @ post) = Some i"
  by (simp add: path_id_def wf_bytes32_def bytes_def)

lemma path_id_short: "length s < length pre + 66 \<Longrightarrow> path_id pre post s = None"
  by (auto simp: path_id_def bytes_def Let_def)

lemma route_request_wire:
  assumes "wf_request (request_of i b)" and "request_line i b = (verb, url_pathname url)" and "wf_bytes32 i"
  shows "route_request verb url (wire_body b) False = Inr (request_of i b)"
proof (cases b)
  case (ChallengeBody s)
  then have "url_pathname url = ''/v1/auth/challenge''" "verb = ''POST''" using assms(2) by simp_all
  then show ?thesis using assms(1) ChallengeBody
    by (simp add: route_request_def parse_challenge_def parseJsonObject_def request_wf_simps)
next
  case (VerifyBody s c m sg)
  then have "url_pathname url = ''/v1/auth/verify''" "verb = ''POST''" using assms(2) by simp_all
  then show ?thesis using assms(1) VerifyBody
    by (simp add: route_request_def parse_verify_def parseJsonObject_def request_wf_simps parseString_def parseSignature_def)
next
  case (PutBody s e n r)
  have verb: "verb = ''PUT''" and "url_pathname url = ''/v1/operations/'' @ i @ []" using assms(2) PutBody by simp_all
  then have "path_id ''/v1/operations/'' [] (url_pathname url) = Some i"
    by (simp only: path_id_match assms(3))
  then show ?thesis using assms(1,3) PutBody verb
    by (auto simp: route_request_def Let_def parse_put_def parseJsonObject_def request_shape_simps)
next
  case (ReleaseBody s e n bh r)
  have verb: "verb = ''POST''" and path: "url_pathname url = ''/v1/operations/'' @ i @ ''/release''"
    using assms(2) ReleaseBody by simp_all
  then have "path_id ''/v1/operations/'' ''/release'' (url_pathname url) = Some i"
    by (simp only: path_id_match assms(3))
  moreover have "url_pathname url \<noteq> ''/v1/auth/challenge''" "url_pathname url \<noteq> ''/v1/auth/verify''"
    by (simp_all add: path)
  ultimately show ?thesis using assms(1,3) ReleaseBody verb
    by (auto simp: route_request_def Let_def parse_release_def parseJsonObject_def request_shape_simps forbidden_fields_def)
next
  case (RewardsBody r)
  then have "url_pathname url = ''/v1/rewards''" "verb = ''POST''" using assms(2) by simp_all
  then show ?thesis using assms(1) RewardsBody
    by (simp add: route_request_def request_wf_simps path_id_short)
next
  case (ReceivedBody s out bh)
  have verb: "verb = ''POST''" and path: "url_pathname url = ''/v1/rewards/'' @ i @ ''/received''"
    using assms(2) ReceivedBody by simp_all
  then have "path_id ''/v1/rewards/'' ''/received'' (url_pathname url) = Some i"
    by (simp only: path_id_match assms(3))
  moreover have "url_pathname url \<noteq> ''/v1/auth/challenge''" "url_pathname url \<noteq> ''/v1/auth/verify''"
    "url_pathname url \<noteq> ''/v1/rewards''" "path_id ''/v1/operations/'' post (url_pathname url) = None" for post
    by (simp_all add: path path_id_def)
  ultimately show ?thesis using assms(1,3) ReceivedBody verb
    by (simp add: route_request_def Let_def parse_received_def parseJsonObject_def request_wf_simps)
qed

text \<open>C33: a request written from well-formed values is read back as those values: for every route with a body,
  \<open>parseApiRequest\<close> of its method, its path and its wire body returns the request the body stands for.\<close>

theorem request_roundtrip:
  assumes "wf_request (request_of i b)" and "wf_bytes32 i" and "new_URL (snd (request_line i b)) = Inr url"
    and "url_pathname url = snd (request_line i b)"
  shows "parseApiRequest new_URL (fst (request_line i b)) (snd (request_line i b)) (wire_body b) False = Inr (request_of i b)"
  using assms by (simp add: parseApiRequest_def route_request_wire)

text \<open>The platform's parser on a path without a query: the path and no parameters.\<close>

definition plain_URL :: "string \<Rightarrow> Url pay_res" where
  "plain_URL path = Inr \<lparr>url_pathname = path, url_searchParams = []\<rparr>"

definition example_release :: ApiRequestBody where
  "example_release = ReleaseBody example_scope 3 4 (hash_of (CHR ''d'')) example_pay_record"

lemma example_hex: "is_hex (CHR ''1'')" "is_hex (CHR ''2'')" "is_hex (CHR ''a'')" "is_hex (CHR ''b'')" "is_hex (CHR ''c'')" "is_hex (CHR ''d'')"
  by (simp_all add: is_hex_def)

lemma wf_hash: "is_hex c \<Longrightarrow> lower_char c = c \<Longrightarrow> wf_bytes32 (hash_of c)"
  by (simp add: wf_bytes32_def address_of_bytes) (simp add: hash_of_def toLowerCase_def lower_char_def)

lemma bytes_replicate: "is_hex c \<Longrightarrow> bytes (CHR ''0'' # CHR ''x'' # replicate (2 * n) c) n"
  by (simp add: bytes_def list_all_length)

lemma example_lower: "lower_char (CHR ''1'') = CHR ''1''" "lower_char (CHR ''a'') = CHR ''a''" "lower_char (CHR ''b'') = CHR ''b''"
  "lower_char (CHR ''c'') = CHR ''c''" "lower_char (CHR ''d'') = CHR ''d''"
  by (simp_all add: lower_char_def)

lemmas example_hashes = wf_hash [OF example_hex(1) example_lower(1)] wf_hash [OF example_hex(3) example_lower(2)]
  wf_hash [OF example_hex(4) example_lower(3)] wf_hash [OF example_hex(5) example_lower(4)] wf_hash [OF example_hex(6) example_lower(5)]

lemma example_scope_wf: "wf_scope example_scope"
  by (simp add: wf_scope_def example_scope_def address_of_bytes example_hex)

lemma example_bundle_wf: "wf_bundle example_bundle"
  using bytes_replicate [OF example_hex(1), of 12] bytes_replicate [OF example_hex(2), of 16]
  by (simp add: wf_bundle_def example_bundle_def base64_text_def is_base64_def)

lemma example_record_wf: "wf_record example_pay_record"
  by (simp add: wf_record_def example_pay_record_def example_scope_wf example_bundle_wf example_hashes UINT64_MAX_def)

lemma example_release_wf: "wf_request (request_of (hash_of (CHR ''1'')) example_release)"
  by (simp add: request_wf_simps example_release_def example_scope_wf example_record_wf example_hashes wf_revision_def
      isSafeInteger_def) (simp add: example_pay_record_def)

theorem request_roundtrip_witness:
  "parseApiRequest plain_URL ''POST'' (''/v1/operations/'' @ hash_of (CHR ''1'') @ ''/release'') (wire_body example_release) False =
   Inr (request_of (hash_of (CHR ''1'')) example_release)"
  using request_roundtrip [OF example_release_wf example_hashes(1), of plain_URL]
  by (simp add: plain_URL_def example_release_def)

theorem parsed_request_well_formed_witness: "request_promise False (request_of (hash_of (CHR ''1'')) example_release)"
proof (rule parsed_request_well_formed)
  show "parseApiRequest plain_URL ''POST'' (''/v1/operations/'' @ hash_of (CHR ''1'') @ ''/release'') (wire_body example_release) False =
    Inr (request_of (hash_of (CHR ''1'')) example_release)"
    using route_request_wire [OF example_release_wf _ example_hashes(1)] by (simp add: parseApiRequest_def plain_URL_def example_release_def)
qed

section \<open>Responses\<close>

definition terminal_status :: "OperationStatus \<Rightarrow> bool" where
  "terminal_status s \<longleftrightarrow> s \<in> {st_released, st_consumed, st_finalized_success}"

text \<open>A stored operation as a client may rely on it.\<close>

definition response_promise :: "bool \<Rightarrow> OperationResponse \<Rightarrow> bool" where
  "response_promise reservation r \<longleftrightarrow> wf_scope (or_scope r) \<and> wf_record (or_record r) \<and> rb_scope (or_record r) = or_scope r \<and>
     wf_revision (or_revision r) \<and> (or_status r = None) = (or_stateVersion r = None) \<and>
     wf_optional wf_revision (or_stateVersion r) \<and>
     wf_optional (\<lambda>s. if terminal_status s then or_checkpoint r \<noteq> None else True) (or_status r) \<and>
     wf_optional (\<lambda>c. decimal_text (fc_blockNumber c) \<and> wf_bytes32 (fc_blockHash c) \<and> or_status r \<noteq> None) (or_checkpoint r) \<and>
     (if reservation then or_reservationState r \<noteq> None else True)"

fun success_promise :: "ApiRoute \<Rightarrow> ApiResponse \<Rightarrow> bool" where
  "success_promise PUT_operation (OneOperation r) = response_promise False r"
| "success_promise GET_operation (OneOperation r) = response_promise True r"
| "success_promise POST_release (OneOperation r) = response_promise True r"
| "success_promise GET_operations (OperationList healthy rs cursor) =
     (list_all (response_promise False) rs \<and> wf_optional wf_bytes32 cursor)"
| "success_promise POST_challenge (ChallengeResponse c n issued expires) = (wf_bytes32 c \<and> wf_bytes32 n \<and> 0 \<le> issued \<and> 0 \<le> expires)"
| "success_promise POST_verify (VerifyResponse t) = (0 \<le> t)"
| "success_promise POST_rewards (OneReward r) = wf_reward_fields (rr_scope r) (rr_requestId r) (rr_amountWei r) (rr_recipientInfo r)"
| "success_promise GET_reward (OneReward r) = wf_reward_fields (rr_scope r) (rr_requestId r) (rr_amountWei r) (rr_recipientInfo r)"
| "success_promise POST_received (OneReward r) = wf_reward_fields (rr_scope r) (rr_requestId r) (rr_amountWei r) (rr_recipientInfo r)"
| "success_promise GET_rewards (RewardList rs) =
     list_all (\<lambda>r. wf_reward_fields (rr_scope r) (rr_requestId r) (rr_amountWei r) (rr_recipientInfo r)) rs"
| "success_promise _ _ = False"

lemma parse_enum_eq_Inr [parser_simps]: "parse_enum names f v = Inr x \<longleftrightarrow> (\<exists>s. v = JString s \<and> map_of names s = Some x)"
  by (cases v) (auto simp: parse_enum_def split: option.splits)

lemma parse_optional_eq_Inr:
  "parse_optional p v = Inr x \<longleftrightarrow> (if v = JUndefined then x = None else \<exists>a. p v = Inr a \<and> x = Some a)"
  by (auto simp: parse_optional_def res_simps)

lemma parse_optional_wf: "parse_optional p v = Inr x \<Longrightarrow> (\<And>a. p v = Inr a \<Longrightarrow> ok a) \<Longrightarrow> wf_optional ok x"
  by (auto simp: parse_optional_eq_Inr split: if_splits)

lemma parse_checkpoint_wf: "parse_checkpoint v = Inr c \<Longrightarrow> decimal_text (fc_blockNumber c) \<and> wf_bytes32 (fc_blockHash c)"
  by (auto simp: parse_checkpoint_def res_simps dest!: parsed_wf)

lemma parseOperationResponse_promise:
  assumes "parseOperationResponse v reservation = Inr r"
  shows "response_promise reservation r"
  using assms unfolding parseOperationResponse_def response_promise_def
  by (auto simp: res_simps parse_optional_eq_Inr terminal_status_def split: if_splits dest!: parsed_wf parse_checkpoint_wf)

lemma parseRewardRecord_promise:
  assumes "parseRewardRecord v = Inr r"
  shows "wf_reward_fields (rr_scope r) (rr_requestId r) (rr_amountWei r) (rr_recipientInfo r)"
  using assms unfolding parseRewardRecord_def
  by (auto simp: res_simps wf_reward_def dest!: parseRewardRequest_wf)

lemma mapM_all: "mapM f xs = Inr ys \<Longrightarrow> (\<And>x y. f x = Inr y \<Longrightarrow> ok y) \<Longrightarrow> list_all ok ys"
  by (auto simp: mapM_eq_Inr list_all2_conv_all_nth list_all_length)

lemma parseTimestamp_wf: "parseTimestamp v f = Inr t \<Longrightarrow> 0 \<le> t"
  by (auto simp: parser_simps)

lemma parse_success_promise: "parse_success route object = Inr r \<Longrightarrow> success_promise route r"
  by (cases route) (auto simp: res_simps parse_operation_list_def
      dest!: parsed_wf parseTimestamp_wf intro: parseOperationResponse_promise parseRewardRecord_promise
      elim!: mapM_all parse_optional_wf)

text \<open>An error that a client may show: its message is short and carries no 32-byte value.\<close>

definition error_promise :: "int \<Rightarrow> ApiError \<Rightarrow> bool" where
  "error_promise status e \<longleftrightarrow> ERROR_STATUS (err_code e) = status \<and> err_message e \<noteq> [] \<and> length (err_message e) \<le> 160 \<and>
     \<not> has_long_hex (err_message e) \<and> wf_optional (\<lambda>f. f \<noteq> []) (err_field e)"

lemma parseError_promise: "parseError v = Inr e \<Longrightarrow> error_promise (ERROR_STATUS (err_code e)) e"
  unfolding parseError_def error_promise_def
  by (auto simp: res_simps parse_optional_eq_Inr split: if_splits dest!: parsed_wf)

definition response_kind :: "ApiRoute \<Rightarrow> int \<Rightarrow> ApiResponse \<Rightarrow> bool" where
  "response_kind route status r = (case r of
     ErrorResponse e \<Rightarrow> 400 \<le> status \<and> error_promise status e
   | _ \<Rightarrow> 200 \<le> status \<and> status < 300 \<and> success_promise route r)"

lemma success_not_error [simp]: "\<not> success_promise route (ErrorResponse e)"
  by (cases route) simp_all

text \<open>C34: \<open>parseApiResponse\<close> returns an error exactly for a status of 400 or more, then one whose code belongs to that
  status and whose message is short and free of 32-byte values; otherwise the status is a success and the body is
  what the route promises: a stored operation has its scope's record, a terminal status comes with its finalized
  checkpoint, and a read or released operation tells its reservation state.\<close>

theorem parsed_response_promise:
  assumes "parseApiResponse route status body = Inr r"
  shows "response_kind route status r"
proof -
  obtain object where object: "body = JObject object"
    using assms by (auto simp: parseApiResponse_def res_simps parser_simps)
  show ?thesis
  proof (cases "status \<ge> 400")
    case True
    then show ?thesis using assms
      by (auto simp: parseApiResponse_def res_simps response_kind_def split: if_splits dest!: parseError_promise)
  next
    case False
    then have "200 \<le> status" "status < 300" "parse_success route object = Inr r"
      using assms object by (auto simp: parseApiResponse_def parseJsonObject_def split: if_splits)
    moreover from this(3) have "success_promise route r" by (rule parse_success_promise)
    ultimately show ?thesis
      by (cases r) (simp_all add: response_kind_def)
  qed
qed

definition example_error :: js_value where
  "example_error = JObject [(''error'', JObject [(''code'', JString ''REVISION_CONFLICT''),
     (''message'', JString ''revision 4''), (''allowedActions'', JArray [JString ''reload''])])]"

theorem parsed_response_promise_witness:
  "response_kind PUT_operation 409 (ErrorResponse \<lparr>err_code = API_REVISION_CONFLICT, err_message = ''revision 4'',
     err_field = None, err_allowedActions = [''reload'']\<rparr>)"
proof (rule parsed_response_promise)
  have "\<not> has_long_hex ''revision 4''" by (simp add: bytes_def)
  then show "parseApiResponse PUT_operation 409 example_error =
    Inr (ErrorResponse \<lparr>err_code = API_REVISION_CONFLICT, err_message = ''revision 4'', err_field = None,
      err_allowedActions = [''reload'']\<rparr>)"
    by (simp add: parseApiResponse_def example_error_def parseJsonObject_def parseError_def parseString_def parse_enum_def
        ERROR_CODES_def string_array_def parse_optional_def)
qed

end
