(* ===== verification/ServiceTypes.thy ===== *)
theory ServiceTypes
  imports Sql PayRecovery ApiProperties
begin

text \<open>
  The state of the service (\<open>apps/uniswap-service/src\<close>): the tables of \<open>schema.ts\<close> and the key that binds an object
  to its deployment.  The record is extensible: what the ports of a request know besides the database is in its
  further part, so a port is an effectful function of the whole.
\<close>

datatype service_error =
    ServiceError string
  | RequestError pay_error
  | SqlConstraint
  | BodyTooLarge
  | PortFailure string

record ChallengeRow =
  challenge_id :: string
  ch_deployment_id :: string
  ch_owner :: string
  ch_nonce :: string
  issued_at_ms :: int
  expires_at_ms :: int
  used_at_ms :: "int option"

record SessionRow =
  session_hash :: string
  se_deployment_id :: string
  se_owner :: string
  se_expires_at_ms :: int

text \<open>The columns \<open>kind\<close>, \<open>payment_id\<close> and \<open>deadline\<close>: the last two are null exactly for a withdrawal.\<close>

datatype kind_columns = PayColumns string string | WithdrawColumns

record OperationRow =
  deployment_id :: string
  row_owner :: string
  record_id :: string
  input_id :: string
  operation_id :: string
  row_kind :: kind_columns
  content_hash :: string
  encrypted_bundle_json :: EncryptedBundle
  signature_started :: int
  revision :: int
  state_version :: int
  row_status :: OperationStatus
  row_checkpoint :: "FinalizedCheckpoint option"

record ReservationRow =
  re_deployment_id :: string
  re_owner :: string
  re_input_id :: string
  re_record_id :: string

record AttemptRow =
  at_deployment_id :: string
  at_owner :: string
  at_record_id :: string
  at_position :: nat
  at_attempt_id :: string

record EnvironmentRow =
  env_status :: string
  env_generation :: string
  env_reason :: "string option"

record Storage =
  db_challenges :: "ChallengeRow list"
  db_sessions :: "SessionRow list"
  db_operations :: "OperationRow list"
  db_active_reservations :: "ReservationRow list"
  db_operation_attempts :: "AttemptRow list"
  db_environment_state :: "EnvironmentRow option"
  db_deploymentId :: "string option"

text \<open>The primary keys of the tables, and the second unique key of the reservations.\<close>

definition operation_key :: "'a OperationRow_scheme \<Rightarrow> string \<times> string \<times> string" where
  "operation_key r = (deployment_id r, row_owner r, record_id r)"

definition reservation_key :: "'a ReservationRow_scheme \<Rightarrow> string \<times> string \<times> string" where
  "reservation_key r = (re_deployment_id r, re_owner r, re_input_id r)"

definition reservation_record :: "'a ReservationRow_scheme \<Rightarrow> string \<times> string \<times> string" where
  "reservation_record r = (re_deployment_id r, re_owner r, re_record_id r)"

definition attempt_key :: "'a AttemptRow_scheme \<Rightarrow> (string \<times> string \<times> string) \<times> nat" where
  "attempt_key r = ((at_deployment_id r, at_owner r, at_record_id r), at_position r)"

definition attempt_record :: "'a AttemptRow_scheme \<Rightarrow> string \<times> string \<times> string" where
  "attempt_record r = (at_deployment_id r, at_owner r, at_record_id r)"

definition scope_key :: "Scope \<Rightarrow> string \<Rightarrow> string \<times> string \<times> string" where
  "scope_key scope i = (sc_deploymentId scope, toLowerCase (sc_owner scope), i)"

section \<open>The gate of the environment\<close>

record RecoveryGate =
  gate_generation :: string
  gate_stopped :: bool
  gate_initialize :: "bool option"

text \<open>\<open>Object.hasOwn(value, name) ? value[name] : undefined\<close> of a value that is not null.\<close>

definition own_property :: "js_value \<Rightarrow> string \<Rightarrow> js_value" where
  "own_property v name = (case v of
     JObject entries \<Rightarrow> property entries name
   | JArray items \<Rightarrow> (if decimal_text name \<and> dec_value name < length items then items ! dec_value name else JUndefined)
   | _ \<Rightarrow> JUndefined)"

definition optional_boolean :: "js_value \<Rightarrow> bool option option" where
  "optional_boolean v = (case v of JUndefined \<Rightarrow> Some None | JBoolean b \<Rightarrow> Some (Some b) | _ \<Rightarrow> None)"

text \<open>Every failure of the parser is the one error of its \<open>catch\<close>.\<close>

definition resolveRecoveryGate :: "(string \<Rightarrow> js_value option) \<Rightarrow> string \<Rightarrow> string \<Rightarrow> service_error + RecoveryGate" where
  "resolveRecoveryGate JSON_parse source deploymentId =
     (case map_option (\<lambda>catalog. own_property catalog deploymentId) (JSON_parse source) of
        Some (JObject gate) \<Rightarrow>
          (case (property gate ''generation'', property gate ''stopped'', optional_boolean (property gate ''initialize'')) of
             (JString generation, JBoolean stopped, Some initialize) \<Rightarrow>
               if generation = [] then Inl (ServiceError ''INVALID_RECOVERY_GATE'')
               else Inr \<lparr>gate_generation = generation, gate_stopped = stopped, gate_initialize = initialize\<rparr>
           | _ \<Rightarrow> Inl (ServiceError ''INVALID_RECOVERY_GATE''))
      | _ \<Rightarrow> Inl (ServiceError ''INVALID_RECOVERY_GATE''))"

datatype Availability = healthy | rollback

definition getAvailability :: "RecoveryGate \<Rightarrow> 'h Storage_scheme \<Rightarrow> Availability" where
  "getAvailability gate w =
     (if gate_stopped gate \<or> gate_generation gate = [] then rollback
      else case db_environment_state w of
        None \<Rightarrow> rollback
      | Some state \<Rightarrow> if env_status state = ''healthy'' \<and> env_generation state = gate_generation gate then healthy else rollback)"

definition initializeEnvironment :: "RecoveryGate \<Rightarrow> ('h Storage_scheme, service_error, unit) run" where
  "initializeEnvironment gate =
     ebind (equery db_environment_state) (\<lambda>state.
     ebind (ewhen (gate_stopped gate \<or> gate_initialize gate \<noteq> Some True \<or> gate_generation gate = [] \<or> state \<noteq> None)
       (ServiceError ''INITIALIZATION_NOT_ALLOWED'')) (\<lambda>_.
     eupdate (\<lambda>w. w\<lparr>db_environment_state := Some \<lparr>env_status = ''healthy'', env_generation = gate_generation gate, env_reason = None\<rparr>\<rparr>)))"

definition ensureWritable :: "RecoveryGate \<Rightarrow> ('h Storage_scheme, service_error, unit) run" where
  "ensureWritable gate =
     ebind (equery (getAvailability gate)) (\<lambda>a. ewhen (a \<noteq> healthy) (ServiceError ''SERVICE_UNAVAILABLE''))"

text \<open>\<open>INSERT \<dots> ON CONFLICT(id) DO UPDATE SET status = 'stopped', reason = ?\<close>: a row that exists keeps its generation.\<close>

definition stop_environment :: "string \<Rightarrow> string \<Rightarrow> 'h Storage_scheme \<Rightarrow> 'h Storage_scheme" where
  "stop_environment generation reason w = w\<lparr>db_environment_state := (case db_environment_state w of
     None \<Rightarrow> Some \<lparr>env_status = ''stopped'', env_generation = generation, env_reason = Some reason\<rparr>
   | Some state \<Rightarrow> Some (state\<lparr>env_status := ''stopped'', env_reason := Some reason\<rparr>))\<rparr>"

definition beginRestore :: "RecoveryGate \<Rightarrow> ('h Storage_scheme, service_error, unit) run" where
  "beginRestore gate =
     ebind (ewhen (\<not> gate_stopped gate \<or> gate_generation gate = []) (ServiceError ''EXTERNAL_STOP_REQUIRED'')) (\<lambda>_.
     eupdate (stop_environment (gate_generation gate) ''restore''))"

definition completeRestore :: "RecoveryGate \<Rightarrow> bool \<Rightarrow> bool \<Rightarrow> ('h Storage_scheme, service_error, unit) run" where
  "completeRestore gate acknowledgedRecordsComplete chainReconciled =
     ebind (ewhen (\<not> gate_stopped gate) (ServiceError ''EXTERNAL_STOP_REQUIRED'')) (\<lambda>_.
     ebind (ewhen (\<not> acknowledgedRecordsComplete \<or> \<not> chainReconciled) (ServiceError ''RESTORE_EVIDENCE_INCOMPLETE'')) (\<lambda>_.
     eupdate (\<lambda>w. w\<lparr>db_environment_state := map_option
       (\<lambda>state. state\<lparr>env_status := ''healthy'', env_generation := gate_generation gate, env_reason := None\<rparr>)
       (db_environment_state w)\<rparr>)))"

end
