(* ===== verification/ServiceStore.thy ===== *)
theory ServiceStore
  imports ServiceTypes "HOL-Library.List_Lexorder"
begin

text \<open>
  \<open>apps/uniswap-service/src/store.ts\<close> and \<open>reconcile.ts\<close>: saved operations, the reservation of their inputs and the
  classification of an operation against a finalized view.  The JSON text of a bundle is kept as the bundle: both
  sides are written with the same entries in the same order, so equal text is equality.
\<close>

datatype InputState = owned_unspent | spent_input | other_owner | unknown_input

definition attempts :: "Scope \<Rightarrow> string \<Rightarrow> 'h Storage_scheme \<Rightarrow> string list" where
  "attempts scope recordId w =
     map at_attempt_id (sort_key at_position
       (filter (\<lambda>a. attempt_record a = scope_key scope recordId) (db_operation_attempts w)))"

text \<open>\<open>toString()\<close> of a bigint, and \<open>BigInt(s)\<close> of the text it writes.\<close>

definition bigint_text :: "int \<Rightarrow> string" where
  "bigint_text n = (if n < 0 then CHR ''-'' # toString10 (nat (- n)) else toString10 (nat n))"

definition BigInt_text :: "string \<Rightarrow> int" where
  "BigInt_text s = (if s \<noteq> [] \<and> hd s = CHR ''-'' then - BigInt_dec (tl s) else BigInt_dec s)"

fun kind_of_columns :: "kind_columns \<Rightarrow> record_kind" where
  "kind_of_columns (PayColumns payment deadline) = Pay payment (BigInt_text deadline)"
| "kind_of_columns WithdrawColumns = Withdraw"

fun columns_of_kind :: "record_kind \<Rightarrow> kind_columns" where
  "columns_of_kind (Pay paymentId deadline) = PayColumns paymentId (bigint_text deadline)"
| "columns_of_kind Withdraw = WithdrawColumns"

definition fromRow :: "Scope \<Rightarrow> OperationRow \<Rightarrow> 'h Storage_scheme \<Rightarrow> StoredOperation" where
  "fromRow scope row w =
     \<lparr>so_record = \<lparr>rb_recordId = record_id row, rb_scope = scope, rb_inputId = input_id row,
        rb_operationId = operation_id row, rb_contentHash = content_hash row,
        rb_encryptedBundle = encrypted_bundle_json row, rb_signatureStarted = signature_started row \<noteq> 0,
        rb_attemptIds = attempts scope (record_id row) w, rec_kind = kind_of_columns (row_kind row)\<rparr>,
      so_revision = revision row, st_status = row_status row, st_stateVersion = state_version row,
      st_checkpoint = row_checkpoint row\<rparr>"

record ReservedOperation = StoredOperation +
  ro_reservationState :: ReservationState

definition asReservation :: "StoredOperation \<Rightarrow> ReservedOperation" where
  "asReservation saved = StoredOperation.extend saved
     \<lparr>ro_reservationState = (if st_status saved \<in> {st_released, st_consumed, st_finalized_success} then released else active)\<rparr>"

definition operation_row :: "Scope \<Rightarrow> string \<Rightarrow> 'h Storage_scheme \<Rightarrow> OperationRow option" where
  "operation_row scope recordId w = select_first (\<lambda>r. operation_key r = scope_key scope recordId) (db_operations w)"

definition getOperation :: "Scope \<Rightarrow> string \<Rightarrow> 'h Storage_scheme \<Rightarrow> StoredOperation option" where
  "getOperation scope recordId w =
     map_option (\<lambda>row. fromRow scope row w) (operation_row scope (toLowerCase recordId) w)"

definition listOperations :: "Scope \<Rightarrow> string option \<Rightarrow> 'h Storage_scheme \<Rightarrow> StoredOperation list \<times> Bytes32 option" where
  "listOperations scope cursor w =
     (let after = (case cursor of None \<Rightarrow> [] | Some c \<Rightarrow> toLowerCase c);
          rows = take 101 (sort_key record_id (filter (\<lambda>r. deployment_id r = sc_deploymentId scope \<and>
                   row_owner r = toLowerCase (sc_owner scope) \<and> after < record_id r) (db_operations w)));
          page = map (\<lambda>row. fromRow scope row w) (take 100 rows)
      in (page, if length rows > 100 then Some (rb_recordId (so_record (page ! 99))) else None))"

fun same_kind :: "record_kind \<Rightarrow> record_kind \<Rightarrow> bool" where
  "same_kind (Pay p d) (Pay q e) = (p = q \<and> d = e)"
| "same_kind Withdraw Withdraw = True"
| "same_kind _ _ = False"

definition sameImmutable :: "OperationRecord \<Rightarrow> OperationRecord \<Rightarrow> bool" where
  "sameImmutable a b \<longleftrightarrow> rb_recordId a = rb_recordId b \<and> rb_inputId a = rb_inputId b \<and>
     rb_operationId a = rb_operationId b \<and> rb_contentHash a = rb_contentHash b \<and> same_kind (rec_kind a) (rec_kind b)"

definition sameMutable :: "OperationRecord \<Rightarrow> OperationRecord \<Rightarrow> bool" where
  "sameMutable a b \<longleftrightarrow> rb_encryptedBundle a = rb_encryptedBundle b \<and> rb_signatureStarted a = rb_signatureStarted b \<and>
     rb_attemptIds a = rb_attemptIds b"

fun lower_kind :: "record_kind \<Rightarrow> record_kind" where
  "lower_kind (Pay p d) = Pay (toLowerCase p) d"
| "lower_kind Withdraw = Withdraw"

definition normalize_record :: "OperationRecord \<Rightarrow> OperationRecord" where
  "normalize_record r = r\<lparr>rb_recordId := toLowerCase (rb_recordId r), rb_inputId := toLowerCase (rb_inputId r),
     rb_operationId := toLowerCase (rb_operationId r), rb_contentHash := toLowerCase (rb_contentHash r),
     rec_kind := lower_kind (rec_kind r)\<rparr>"

definition terminal :: "OperationStatus \<Rightarrow> bool" where
  "terminal s \<longleftrightarrow> s = st_released \<or> s = st_consumed \<or> s = st_finalized_success"

definition environment_stopped :: "'h Storage_scheme \<Rightarrow> bool" where
  "environment_stopped w \<longleftrightarrow> (case db_environment_state w of None \<Rightarrow> False | Some state \<Rightarrow> env_status state = ''stopped'')"

text \<open>\<open>current.attemptIds.some((id, i) => record.attemptIds[i] !== id)\<close>, negated.\<close>

definition keeps_attempts :: "string list \<Rightarrow> string list \<Rightarrow> bool" where
  "keeps_attempts current new \<longleftrightarrow> list_all (\<lambda>i. i < length new \<and> new ! i = current ! i) [0..<length current]"

section \<open>Statements\<close>

definition insert_attempt :: "Scope \<Rightarrow> string \<Rightarrow> nat \<times> string \<Rightarrow> ('h Storage_scheme, service_error, unit) run" where
  "insert_attempt scope recordId attempt = einsert (\<lambda>w. map_sum id (\<lambda>t. w\<lparr>db_operation_attempts := t\<rparr>)
     (insert_row SqlConstraint attempt_key
       \<lparr>at_deployment_id = sc_deploymentId scope, at_owner = toLowerCase (sc_owner scope), at_record_id = recordId,
        at_position = fst attempt, at_attempt_id = snd attempt\<rparr> (db_operation_attempts w)))"

definition insert_attempts :: "Scope \<Rightarrow> string \<Rightarrow> nat \<Rightarrow> string list \<Rightarrow> ('h Storage_scheme, service_error, unit) run" where
  "insert_attempts scope recordId start ids =
     efoldM (\<lambda>_ attempt. insert_attempt scope recordId attempt) () (zip [start..<start + length ids] ids)"

definition update_operation :: "Scope \<Rightarrow> string \<Rightarrow> (OperationRow \<Rightarrow> OperationRow) \<Rightarrow> 'h Storage_scheme \<Rightarrow> 'h Storage_scheme" where
  "update_operation scope recordId f w = w\<lparr>db_operations :=
     update_rows (\<lambda>r. operation_key r = scope_key scope recordId) f (db_operations w)\<rparr>"

definition delete_reservation :: "Scope \<Rightarrow> string \<Rightarrow> string \<Rightarrow> 'h Storage_scheme \<Rightarrow> 'h Storage_scheme" where
  "delete_reservation scope inputId recordId w = w\<lparr>db_active_reservations :=
     delete_rows (\<lambda>r. reservation_key r = scope_key scope inputId \<and> re_record_id r = recordId) (db_active_reservations w)\<rparr>"

definition active_reservation :: "Scope \<Rightarrow> string \<Rightarrow> 'h Storage_scheme \<Rightarrow> string option" where
  "active_reservation scope inputId w =
     map_option re_record_id (select_first (\<lambda>r. reservation_key r = scope_key scope inputId) (db_active_reservations w))"

text \<open>The \<open>INSERT\<close> into \<open>active_reservations\<close>, whose record is unique too.\<close>

definition insert_reservation :: "Scope \<Rightarrow> string \<Rightarrow> string \<Rightarrow> ('h Storage_scheme, service_error, unit) run" where
  "insert_reservation scope inputId recordId = einsert (\<lambda>w.
     if scope_key scope recordId \<in> reservation_record ` set (db_active_reservations w) then Inl SqlConstraint
     else map_sum id (\<lambda>t. w\<lparr>db_active_reservations := t\<rparr>)
       (insert_row SqlConstraint reservation_key
         \<lparr>re_deployment_id = sc_deploymentId scope, re_owner = toLowerCase (sc_owner scope), re_input_id = inputId,
          re_record_id = recordId\<rparr> (db_active_reservations w)))"

definition insert_operation :: "Scope \<Rightarrow> OperationRecord \<Rightarrow> ('h Storage_scheme, service_error, unit) run" where
  "insert_operation scope r = einsert (\<lambda>w. map_sum id (\<lambda>t. w\<lparr>db_operations := t\<rparr>)
     (insert_row SqlConstraint operation_key
       \<lparr>deployment_id = sc_deploymentId scope, row_owner = toLowerCase (sc_owner scope), record_id = rb_recordId r,
        input_id = rb_inputId r, operation_id = rb_operationId r, row_kind = columns_of_kind (rec_kind r),
        content_hash = rb_contentHash r, encrypted_bundle_json = rb_encryptedBundle r,
        signature_started = (if rb_signatureStarted r then 1 else 0), revision = 1, state_version = 1,
        row_status = st_reserved, row_checkpoint = None\<rparr> (db_operations w)))"

text \<open>\<open>return getOperation(\<dots>)!\<close>.\<close>

definition return_operation :: "Scope \<Rightarrow> string \<Rightarrow> ('h Storage_scheme, service_error, StoredOperation) run" where
  "return_operation scope recordId =
     ebind (equery (getOperation scope recordId)) (\<lambda>saved. case saved of None \<Rightarrow> ethrow (PortFailure ''undefined'') | Some s \<Rightarrow> ereturn s)"

section \<open>Putting and releasing an operation\<close>

definition conflict :: service_error where
  "conflict = ServiceError ''RESERVATION_CONFLICT''"

definition stale_revision :: service_error where
  "stale_revision = ServiceError ''REVISION_CONFLICT''"

definition check_scope :: "Scope \<Rightarrow> OperationRecord \<Rightarrow> ('w, service_error, unit) run" where
  "check_scope scope r = ewhen (sc_deploymentId (rb_scope r) \<noteq> sc_deploymentId scope \<or>
     \<not> sameText (sc_owner (rb_scope r)) (sc_owner scope)) (ServiceError ''SCOPE_MISMATCH'')"

definition put_existing :: "Scope \<Rightarrow> OperationRecord \<Rightarrow> int \<Rightarrow> StoredOperation \<Rightarrow> ('h Storage_scheme, service_error, StoredOperation) run" where
  "put_existing scope r expectedRevision current =
     ebind (ewhen (\<not> sameImmutable (so_record current) r) conflict) (\<lambda>_.
     if sameMutable (so_record current) r then ereturn current else
     ebind (ewhen (terminal (st_status current)) conflict) (\<lambda>_.
     ebind (ewhen (so_revision current \<noteq> expectedRevision) stale_revision) (\<lambda>_.
     ebind (ewhen (rb_signatureStarted (so_record current) \<and> \<not> rb_signatureStarted r) stale_revision) (\<lambda>_.
     ebind (ewhen (\<not> keeps_attempts (rb_attemptIds (so_record current)) (rb_attemptIds r)) stale_revision) (\<lambda>_.
     ebind (ewhen (eb_nonce (rb_encryptedBundle (so_record current)) = eb_nonce (rb_encryptedBundle r) \<or>
                   rb_encryptedBundle (so_record current) = rb_encryptedBundle r) stale_revision) (\<lambda>_.
     ebind (eupdate (update_operation scope (rb_recordId r) (\<lambda>row. row\<lparr>encrypted_bundle_json := rb_encryptedBundle r,
              signature_started := (if rb_signatureStarted r then 1 else 0), revision := revision row + 1\<rparr>))) (\<lambda>_.
     ebind (insert_attempts scope (rb_recordId r) (length (rb_attemptIds (so_record current)))
              (drop (length (rb_attemptIds (so_record current))) (rb_attemptIds r))) (\<lambda>_.
     return_operation scope (rb_recordId r)))))))))"

definition put_new :: "Scope \<Rightarrow> OperationRecord \<Rightarrow> int \<Rightarrow> ('h Storage_scheme, service_error, StoredOperation) run" where
  "put_new scope r expectedRevision =
     ebind (ewhen (expectedRevision \<noteq> 0) stale_revision) (\<lambda>_.
     ebind (equery (active_reservation scope (rb_inputId r))) (\<lambda>reserved.
     ebind (ewhen (reserved \<noteq> None) conflict) (\<lambda>_.
     ebind (insert_operation scope r) (\<lambda>_.
     ebind (insert_attempts scope (rb_recordId r) 0 (rb_attemptIds r)) (\<lambda>_.
     ebind (insert_reservation scope (rb_inputId r) (rb_recordId r)) (\<lambda>_.
     return_operation scope (rb_recordId r)))))))"

text \<open>The callback of \<open>transactionSync\<close>; \<open>r\<close> is normalized.\<close>

definition put_commit :: "Scope \<Rightarrow> OperationRecord \<Rightarrow> int \<Rightarrow> ('h Storage_scheme, service_error, unit) run \<Rightarrow>
    ('h Storage_scheme, service_error, StoredOperation) run" where
  "put_commit scope r expectedRevision assertWritable =
     ebind assertWritable (\<lambda>_.
     ebind (equery environment_stopped) (\<lambda>stopped.
     ebind (ewhen stopped (ServiceError ''SERVICE_UNAVAILABLE'')) (\<lambda>_.
     ebind (equery (getOperation scope (rb_recordId r))) (\<lambda>current.
     case current of Some c \<Rightarrow> put_existing scope r expectedRevision c | None \<Rightarrow> put_new scope r expectedRevision))))"

definition check_new :: "(Scope \<Rightarrow> string \<Rightarrow> ('h Storage_scheme, service_error, InputState) run) \<Rightarrow> Scope \<Rightarrow> OperationRecord \<Rightarrow>
    ('h Storage_scheme, service_error, unit) run" where
  "check_new readInput scope r =
     ebind (ewhen (rb_signatureStarted r \<or> rb_attemptIds r \<noteq> []) stale_revision) (\<lambda>_.
     ebind (readInput scope (rb_inputId r)) (\<lambda>state.
     ebind (ewhen (state = unknown_input) (ServiceError ''SERVICE_UNAVAILABLE'')) (\<lambda>_.
     ewhen (state \<noteq> owned_unspent) conflict)))"

definition putOperation :: "(Scope \<Rightarrow> string \<Rightarrow> ('h Storage_scheme, service_error, InputState) run) \<Rightarrow>
    ('h Storage_scheme, service_error, unit) run \<Rightarrow> Scope \<Rightarrow> OperationRecord \<Rightarrow> int \<Rightarrow>
    ('h Storage_scheme, service_error, StoredOperation) run" where
  "putOperation readInput assertWritable scope r0 expectedRevision =
     (let r = normalize_record r0
      in ebind (check_scope scope r) (\<lambda>_.
         ebind (equery (getOperation scope (rb_recordId r))) (\<lambda>existing.
         ebind (if existing = None then check_new readInput scope r else ereturn ()) (\<lambda>_.
         transactionSync (put_commit scope r expectedRevision assertWritable)))))"

definition release_current :: "Scope \<Rightarrow> OperationRecord \<Rightarrow> int \<Rightarrow> FinalizedCheckpoint \<Rightarrow> StoredOperation \<Rightarrow>
    ('h Storage_scheme, service_error, ReservedOperation) run" where
  "release_current scope r expectedRevision checkpoint current =
     (if st_status current = st_released \<and> sameImmutable (so_record current) r \<and> sameMutable (so_record current) r then
        ebind (ewhen (so_revision current \<noteq> expectedRevision + 1 \<or>
            map_option (\<lambda>c. toLowerCase (fc_blockHash c)) (st_checkpoint current) \<noteq> Some (toLowerCase (fc_blockHash checkpoint)))
          stale_revision) (\<lambda>_. ereturn (asReservation current))
      else
        ebind (ewhen (st_status current \<noteq> st_reserved \<and> st_status current \<noteq> st_unknown) conflict) (\<lambda>_.
        ebind (ewhen (\<not> is_pay (rec_kind r) \<or> \<not> sameImmutable (so_record current) r \<or>
            rb_signatureStarted (so_record current) \<noteq> rb_signatureStarted r \<or>
            rb_attemptIds (so_record current) \<noteq> rb_attemptIds r) conflict) (\<lambda>_.
        ebind (ewhen (so_revision current \<noteq> expectedRevision \<or> sameMutable (so_record current) r \<or>
            eb_nonce (rb_encryptedBundle (so_record current)) = eb_nonce (rb_encryptedBundle r)) stale_revision) (\<lambda>_.
        ebind (equery (active_reservation scope (rb_inputId r))) (\<lambda>reserved.
        ebind (ewhen (reserved \<noteq> Some (rb_recordId r)) conflict) (\<lambda>_.
        ebind (eupdate (update_operation scope (rb_recordId r) (\<lambda>row. row\<lparr>encrypted_bundle_json := rb_encryptedBundle r,
            revision := revision row + 1, state_version := state_version row + 1, row_status := st_released,
            row_checkpoint := Some checkpoint\<rparr>))) (\<lambda>_.
        ebind (eupdate (delete_reservation scope (rb_inputId r) (rb_recordId r))) (\<lambda>_.
        ebind (return_operation scope (rb_recordId r)) (\<lambda>saved. ereturn (asReservation saved))))))))))"

definition release_commit :: "Scope \<Rightarrow> OperationRecord \<Rightarrow> int \<Rightarrow> FinalizedCheckpoint \<Rightarrow> ('h Storage_scheme, service_error, unit) run \<Rightarrow>
    ('h Storage_scheme, service_error, ReservedOperation) run" where
  "release_commit scope r expectedRevision checkpoint assertWritable =
     ebind assertWritable (\<lambda>_.
     ebind (equery (getOperation scope (rb_recordId r))) (\<lambda>current.
     case current of None \<Rightarrow> ethrow (ServiceError ''NOT_FOUND'')
     | Some c \<Rightarrow> release_current scope r expectedRevision checkpoint c))"

definition releaseOperation :: "('h Storage_scheme, service_error, unit) run \<Rightarrow> Scope \<Rightarrow> OperationRecord \<Rightarrow> int \<Rightarrow> FinalizedCheckpoint \<Rightarrow>
    ('h Storage_scheme, service_error, ReservedOperation) run" where
  "releaseOperation assertWritable scope r0 expectedRevision checkpoint =
     (let r = normalize_record r0
      in ebind (check_scope scope r) (\<lambda>_.
         transactionSync (release_commit scope r expectedRevision checkpoint assertWritable)))"

section \<open>Reconciling with a finalized view\<close>

record FinalizedView =
  fv_checkpoint :: FinalizedCheckpoint
  fv_input_blockHash :: string
  fv_input_spent :: bool
  fv_pay_blockHash :: string
  fv_pay_succeeded :: bool
  fv_operation :: "(string \<times> bool) option"

definition view_consistent :: "FinalizedView \<Rightarrow> bool" where
  "view_consistent v \<longleftrightarrow> sameText (fv_input_blockHash v) (fc_blockHash (fv_checkpoint v)) \<and>
     sameText (fv_pay_blockHash v) (fc_blockHash (fv_checkpoint v)) \<and>
     (case fv_operation v of None \<Rightarrow> True | Some (h, _) \<Rightarrow> sameText h (fc_blockHash (fv_checkpoint v)))"

definition after_deadline :: "record_kind \<Rightarrow> FinalizedView \<Rightarrow> bool" where
  "after_deadline k v \<longleftrightarrow> (case k of Pay _ deadline \<Rightarrow> BigInt_dec (fc_blockTimestamp (fv_checkpoint v)) > deadline | Withdraw \<Rightarrow> False)"

definition classify :: "record_kind \<Rightarrow> FinalizedView \<Rightarrow> OperationStatus" where
  "classify k v =
     (if \<not> view_consistent v then st_unknown
      else if is_pay k \<and> fv_pay_succeeded v then st_finalized_success
      else if \<not> is_pay k \<and> (\<exists>h. fv_operation v = Some (h, True)) then st_finalized_success
      else if fv_input_spent v then st_consumed
      else if after_deadline k v then st_released
      else st_reserved)"

text \<open>A view that contradicts a terminal status: another block at the height of its checkpoint, or another outcome.\<close>

definition conflicting_view :: "StoredOperation \<Rightarrow> FinalizedView option \<Rightarrow> OperationStatus \<Rightarrow> bool" where
  "conflicting_view current view nextStatus \<longleftrightarrow> (case view of None \<Rightarrow> False | Some v \<Rightarrow>
     (case st_checkpoint current of None \<Rightarrow> False | Some c \<Rightarrow>
        fc_blockNumber c = fc_blockNumber (fv_checkpoint v) \<and> \<not> sameText (fc_blockHash c) (fc_blockHash (fv_checkpoint v))) \<or>
     nextStatus \<noteq> st_unknown \<and> nextStatus \<noteq> st_status current)"

definition reconcile_terminal :: "Scope \<Rightarrow> string \<Rightarrow> StoredOperation \<Rightarrow> FinalizedView option \<Rightarrow> OperationStatus \<Rightarrow>
    ('h Storage_scheme, service_error, StoredOperation) run" where
  "reconcile_terminal scope recordId current view nextStatus =
     (if \<not> conflicting_view current view nextStatus then ereturn current else
      ebind (eupdate (stop_environment [] ''finalized-reorg'')) (\<lambda>_.
      ebind (eupdate (update_operation scope recordId (\<lambda>row. row\<lparr>row_status := st_unknown,
          state_version := state_version row + 1, row_checkpoint := None\<rparr>))) (\<lambda>_.
      return_operation scope recordId)))"

text \<open>The \<open>UPDATE\<close> with its test of the state version, and the \<open>DELETE\<close> of the reservation of a terminal operation.\<close>

definition reconcile_active :: "Scope \<Rightarrow> string \<Rightarrow> StoredOperation \<Rightarrow> FinalizedView option \<Rightarrow> OperationStatus \<Rightarrow>
    ('h Storage_scheme, service_error, StoredOperation) run" where
  "reconcile_active scope recordId current view nextStatus =
     (if nextStatus = st_status current \<and> (case view of None \<Rightarrow> True | Some v \<Rightarrow>
          map_option fc_blockHash (st_checkpoint current) = Some (fc_blockHash (fv_checkpoint v)))
      then ereturn current else
      (let checkpoint = (if nextStatus = st_unknown then None else map_option fv_checkpoint view)
       in ebind (eupdate (update_operation scope recordId (\<lambda>row. if state_version row = st_stateVersion current
              then row\<lparr>row_status := nextStatus, state_version := state_version row + 1, row_checkpoint := checkpoint\<rparr>
              else row))) (\<lambda>_.
          ebind (if terminal nextStatus then eupdate (delete_reservation scope (rb_inputId (so_record current)) recordId)
                 else ereturn ()) (\<lambda>_.
          return_operation scope recordId))))"

definition reconcile_commit :: "Scope \<Rightarrow> string \<Rightarrow> StoredOperation \<Rightarrow> FinalizedView option \<Rightarrow> ('h Storage_scheme, service_error, unit) run \<Rightarrow>
    ('h Storage_scheme, service_error, StoredOperation) run" where
  "reconcile_commit scope recordId before view assertWritable =
     (let nextStatus = (case view of None \<Rightarrow> st_unknown | Some v \<Rightarrow> classify (rec_kind (so_record before)) v)
      in ebind assertWritable (\<lambda>_.
         ebind (equery environment_stopped) (\<lambda>stopped.
         if stopped then return_operation scope recordId else
         ebind (equery (getOperation scope recordId)) (\<lambda>saved. case saved of
           None \<Rightarrow> ethrow (ServiceError ''NOT_FOUND'')
         | Some current \<Rightarrow>
             if st_stateVersion current \<noteq> st_stateVersion before \<or> so_revision current \<noteq> so_revision before then ereturn current
             else if terminal (st_status current) then reconcile_terminal scope recordId current view nextStatus
             else reconcile_active scope recordId current view nextStatus))))"

definition reconcileOperation :: "(Scope \<Rightarrow> OperationRecord \<Rightarrow> ('h Storage_scheme, service_error, FinalizedView option) run) \<Rightarrow>
    ('h Storage_scheme, service_error, unit) run \<Rightarrow> Scope \<Rightarrow> string \<Rightarrow> ('h Storage_scheme, service_error, StoredOperation) run" where
  "reconcileOperation readFinalizedView assertWritable scope recordId0 =
     (let recordId = toLowerCase recordId0
      in ebind (equery (getOperation scope recordId)) (\<lambda>saved. case saved of
           None \<Rightarrow> ethrow (ServiceError ''NOT_FOUND'')
         | Some before \<Rightarrow>
             ebind (ecatch (readFinalizedView scope (so_record before)) (\<lambda>_. ereturn None)) (\<lambda>view.
             transactionSync (reconcile_commit scope recordId before view assertWritable))))"

end
