(* ===== verification/ServiceStoreProperties.thy ===== *)
theory ServiceStoreProperties
  imports ServiceStore
begin

text \<open>
  What the tables of saved operations keep: the invariant of the reservations and attempts, the effect of each
  statement on it, and how a saved operation may evolve.
\<close>

section \<open>The statements\<close>

lemma update_operation_fields [simp]:
  "db_active_reservations (update_operation scope i f w) = db_active_reservations w"
  "db_operation_attempts (update_operation scope i f w) = db_operation_attempts w"
  "db_environment_state (update_operation scope i f w) = db_environment_state w"
  "attempts scope' j (update_operation scope i f w) = attempts scope' j w"
  by (simp_all add: update_operation_def attempts_def)

lemma delete_reservation_fields [simp]:
  "db_operations (delete_reservation scope i r w) = db_operations w"
  "db_operation_attempts (delete_reservation scope i r w) = db_operation_attempts w"
  "db_environment_state (delete_reservation scope i r w) = db_environment_state w"
  "getOperation scope' j (delete_reservation scope i r w) = getOperation scope' j w"
  by (simp_all add: delete_reservation_def getOperation_def operation_row_def fromRow_def attempts_def)

lemma stop_environment_fields [simp]:
  "db_operations (stop_environment g r w) = db_operations w"
  "db_operation_attempts (stop_environment g r w) = db_operation_attempts w"
  "db_active_reservations (stop_environment g r w) = db_active_reservations w"
  "environment_stopped (stop_environment g r w)"
  by (auto simp: stop_environment_def environment_stopped_def split: option.split)

lemma operation_row_update:
  assumes "\<And>r. operation_key (f r) = operation_key r"
  shows "operation_row scope j (update_operation scope i f w) =
    map_option (\<lambda>r. if operation_key r = scope_key scope i then f r else r) (operation_row scope j w)"
proof -
  have "select_first (\<lambda>r. operation_key r = scope_key scope j)
      (map (\<lambda>r. if operation_key r = scope_key scope i then f r else r) (db_operations w)) =
    map_option (\<lambda>r. if operation_key r = scope_key scope i then f r else r)
      (select_first (\<lambda>r. operation_key r = scope_key scope j) (db_operations w))"
    by (rule select_first_update) (simp add: assms)
  then show ?thesis by (simp add: operation_row_def update_operation_def update_rows_def)
qed

lemma operation_row_key: "operation_row scope i w = Some row \<Longrightarrow> row \<in> set (db_operations w) \<and> operation_key row = scope_key scope i"
  unfolding operation_row_def by (rule select_first_eq_Some)

lemma operation_row_updated:
  assumes "operation_row scope i w = Some row" and "\<And>r. operation_key (f r) = operation_key r"
  shows "operation_row scope i (update_operation scope i f w) = Some (f row)"
proof -
  have "operation_row scope i (update_operation scope i f w) =
    map_option (\<lambda>r. if operation_key r = scope_key scope i then f r else r) (operation_row scope i w)"
    by (rule operation_row_update) (rule assms(2))
  then show ?thesis using operation_row_key [OF assms(1)] assms(1) by simp
qed

lemma getOperation_eq_Some:
  "getOperation scope i w = Some s \<longleftrightarrow> (\<exists>row. operation_row scope (toLowerCase i) w = Some row \<and> s = fromRow scope row w)"
  by (auto simp: getOperation_def)

lemma getOperation_eq_None:
  "getOperation scope i w = None \<longleftrightarrow> scope_key scope (toLowerCase i) \<notin> operation_key ` set (db_operations w)"
  by (force simp: getOperation_def operation_row_def select_first_eq_None)

lemma return_operation_eq_Inr [eff_simps]:
  "return_operation scope i w = (Inr s, w') \<longleftrightarrow> getOperation scope i w = Some s \<and> w' = w"
  by (auto simp: return_operation_def ebind_equery split: option.splits)

definition attempt_rows :: "Scope \<Rightarrow> string \<Rightarrow> nat \<Rightarrow> string list \<Rightarrow> AttemptRow list" where
  "attempt_rows scope i start ids = map (\<lambda>(n, a). \<lparr>at_deployment_id = sc_deploymentId scope, at_owner = toLowerCase (sc_owner scope),
     at_record_id = i, at_position = n, at_attempt_id = a\<rparr>) (zip [start..<start + length ids] ids)"

lemma attempt_rows_Cons:
  "attempt_rows scope i start (a # ids) = \<lparr>at_deployment_id = sc_deploymentId scope, at_owner = toLowerCase (sc_owner scope),
     at_record_id = i, at_position = start, at_attempt_id = a\<rparr> # attempt_rows scope i (Suc start) ids"
  by (simp add: attempt_rows_def upt_rec)

lemma insert_attempts_Cons:
  "insert_attempts scope i start (a # ids) = ebind (insert_attempt scope i (start, a)) (\<lambda>_. insert_attempts scope i (Suc start) ids)"
  by (simp add: insert_attempts_def upt_rec)

lemma insert_attempts_eq_Inr:
  "insert_attempts scope i start ids w = (Inr u, w') \<Longrightarrow>
   w' = w\<lparr>db_operation_attempts := db_operation_attempts w @ attempt_rows scope i start ids\<rparr>"
proof (induction ids arbitrary: start w)
  case Nil
  then show ?case by (simp add: insert_attempts_def attempt_rows_def)
next
  case (Cons a ids)
  from Cons.prems obtain u v where "insert_attempt scope i (start, a) w = (Inr u, v)"
    and rest: "insert_attempts scope i (Suc start) ids v = (Inr u', w')" for u'
    by (auto simp: insert_attempts_Cons ebind_eq_Inr)
  then have "v = w\<lparr>db_operation_attempts := db_operation_attempts w @ [\<lparr>at_deployment_id = sc_deploymentId scope,
      at_owner = toLowerCase (sc_owner scope), at_record_id = i, at_position = start, at_attempt_id = a\<rparr>]\<rparr>"
    by (auto simp: insert_attempt_def eff_simps insert_row_def split: if_splits)
  with Cons.IH [OF rest] show ?case by (simp add: attempt_rows_Cons)
qed

lemma attempt_rows_props:
  "map at_position (attempt_rows scope i start ids) = [start..<start + length ids]"
  "map at_attempt_id (attempt_rows scope i start ids) = ids"
  "set (map attempt_record (attempt_rows scope i start ids)) \<subseteq> {scope_key scope i}"
  by (auto simp: attempt_rows_def attempt_record_def scope_key_def comp_def case_prod_beta simp flip: map_map)
     (simp_all add: comp_def case_prod_beta)

section \<open>The invariant\<close>

definition attempts_of :: "string \<times> string \<times> string \<Rightarrow> 'h Storage_scheme \<Rightarrow> AttemptRow list" where
  "attempts_of k w = filter (\<lambda>a. attempt_record a = k) (db_operation_attempts w)"

text \<open>The positions of the attempts of a record count from zero, and attempts belong to saved records.\<close>

definition attempts_inv :: "'h Storage_scheme \<Rightarrow> bool" where
  "attempts_inv w \<longleftrightarrow> (\<forall>k. map at_position (attempts_of k w) = [0..<length (attempts_of k w)]) \<and>
     attempt_record ` set (db_operation_attempts w) \<subseteq> operation_key ` set (db_operations w)"

text \<open>A reservation belongs to one live operation over its input, and no two reservations share an input or a record.\<close>

definition reservations_inv :: "'h Storage_scheme \<Rightarrow> bool" where
  "reservations_inv w \<longleftrightarrow> distinct (map reservation_key (db_active_reservations w)) \<and>
     distinct (map reservation_record (db_active_reservations w)) \<and>
     (\<forall>res \<in> set (db_active_reservations w). \<exists>row \<in> set (db_operations w).
        operation_key row = reservation_record res \<and> input_id row = re_input_id res \<and> \<not> terminal (row_status row))"

definition rows_inv :: "'h Storage_scheme \<Rightarrow> bool" where
  "rows_inv w \<longleftrightarrow> distinct (map operation_key (db_operations w)) \<and>
     list_all (\<lambda>r. 1 \<le> revision r \<and> 1 \<le> state_version r \<and> toLowerCase (record_id r) = record_id r) (db_operations w)"

definition store_inv :: "'h Storage_scheme \<Rightarrow> bool" where
  "store_inv w \<longleftrightarrow> rows_inv w \<and> reservations_inv w \<and> attempts_inv w"

text \<open>Every live operation holds the reservation of its input.\<close>

definition reserved_inv :: "'h Storage_scheme \<Rightarrow> bool" where
  "reserved_inv w \<longleftrightarrow> (\<forall>row \<in> set (db_operations w). \<not> terminal (row_status row) \<longrightarrow>
     (\<exists>res \<in> set (db_active_reservations w). reservation_record res = operation_key row \<and> re_input_id res = input_id row))"

lemma sort_positions: "map f xs = [0..<length xs] \<Longrightarrow> sort_key (f :: _ \<Rightarrow> nat) xs = xs"
  by (rule sort_key_id_if_sorted) simp

lemma attempts_eq: "attempts_inv w \<Longrightarrow> attempts scope i w = map at_attempt_id (attempts_of (scope_key scope i) w)"
  unfolding attempts_def attempts_inv_def attempts_of_def by (metis sort_positions)

lemma attempts_invD:
  assumes "attempts_inv w"
  shows "map at_position (attempts_of k w) = [0..<length (attempts_of k w)]"
    and "a \<in> set (db_operation_attempts w) \<Longrightarrow> attempt_record a \<in> operation_key ` set (db_operations w)"
  using assms unfolding attempts_inv_def by blast+

definition touches :: "(OperationRow \<Rightarrow> OperationRow) \<Rightarrow> bool" where
  "touches f \<longleftrightarrow> (\<forall>r. operation_key (f r) = operation_key r \<and> record_id (f r) = record_id r \<and> input_id (f r) = input_id r \<and>
     revision r \<le> revision (f r) \<and> state_version r \<le> state_version (f r))"

lemma update_operation_rows:
  "set (db_operations (update_operation scope i f w)) =
   (\<lambda>r. if operation_key r = scope_key scope i then f r else r) ` set (db_operations w)"
  by (simp add: update_operation_def set_update_rows)

lemma update_operation_keys:
  "touches f \<Longrightarrow> map operation_key (db_operations (update_operation scope i f w)) = map operation_key (db_operations w)"
  by (simp add: update_operation_def map_update_rows touches_def)

lemma rows_inv_update:
  assumes "rows_inv w" and "touches f"
  shows "rows_inv (update_operation scope i f w)"
proof -
  have "1 \<le> revision (f r) \<and> 1 \<le> state_version (f r) \<and> toLowerCase (record_id (f r)) = record_id (f r)"
    if "r \<in> set (db_operations w)" for r
    using assms that unfolding rows_inv_def touches_def list_all_iff by (metis order_trans)
  with assms show ?thesis
    by (auto simp: rows_inv_def update_operation_keys update_operation_rows list_all_iff)
qed

lemma attempts_inv_update: "attempts_inv w \<Longrightarrow> touches f \<Longrightarrow> attempts_inv (update_operation scope i f w)"
  using update_operation_keys [of f scope i w] unfolding attempts_inv_def attempts_of_def
  by (metis list.set_map update_operation_fields(2))

text \<open>An update of one row, with what is left of the reservations.\<close>

lemma reservations_inv_update:
  assumes "reservations_inv w" and "touches f" and "A = filter p (db_active_reservations w)"
    and "(\<forall>r. terminal (row_status (f r)) \<longrightarrow> terminal (row_status r)) \<or> scope_key scope i \<notin> reservation_record ` set A"
  shows "reservations_inv (update_operation scope i f w\<lparr>db_active_reservations := A\<rparr>)"
proof -
  have "\<exists>row \<in> set (db_operations (update_operation scope i f w)).
      operation_key row = reservation_record res \<and> input_id row = re_input_id res \<and> \<not> terminal (row_status row)"
    if res: "res \<in> set A" for res
  proof -
    obtain row where row: "row \<in> set (db_operations w)" "operation_key row = reservation_record res"
      "input_id row = re_input_id res" "\<not> terminal (row_status row)"
      using assms(1,3) res unfolding reservations_inv_def by auto
    let ?row = "if operation_key row = scope_key scope i then f row else row"
    have "?row \<in> set (db_operations (update_operation scope i f w))"
      using row(1) unfolding update_operation_rows by blast
    moreover have "\<not> terminal (row_status ?row)"
      using row(2,4) assms(4) imageI [OF res, of reservation_record] by auto
    moreover have "operation_key ?row = reservation_record res" "input_id ?row = re_input_id res"
      using row(2,3) assms(2) by (auto simp: touches_def)
    ultimately show ?thesis by blast
  qed
  then show ?thesis
    using assms(1,3) by (simp add: reservations_inv_def distinct_map_filter)
qed

lemma active_update [simp]: "attempts_inv (w\<lparr>db_active_reservations := A\<rparr>) = attempts_inv w"
  "rows_inv (w\<lparr>db_active_reservations := A\<rparr>) = rows_inv w"
  by (simp_all add: attempts_inv_def attempts_of_def rows_inv_def)

lemma store_inv_update:
  assumes "store_inv w" and "touches f" and "A = filter p (db_active_reservations w)"
    and "(\<forall>r. terminal (row_status (f r)) \<longrightarrow> terminal (row_status r)) \<or> scope_key scope i \<notin> reservation_record ` set A"
  shows "store_inv (update_operation scope i f w\<lparr>db_active_reservations := A\<rparr>)"
  using assms by (simp add: store_inv_def rows_inv_update attempts_inv_update reservations_inv_update)

lemma store_inv_update_live:
  assumes "store_inv w" and "touches f" and "\<And>r. terminal (row_status (f r)) \<Longrightarrow> terminal (row_status r)"
  shows "store_inv (update_operation scope i f w)"
  using store_inv_update [OF assms(1,2), of "db_active_reservations w" "\<lambda>_. True" scope i] assms(3)
  by (simp add: update_operation_def)

text \<open>What is left when the reservation of an operation is deleted: none of that operation.\<close>

lemma delete_reservation_eq:
  "delete_reservation scope inp i w = w\<lparr>db_active_reservations :=
     filter (\<lambda>r. \<not> (reservation_key r = scope_key scope inp \<and> re_record_id r = i)) (db_active_reservations w)\<rparr>"
  by (simp add: delete_reservation_def delete_rows_def)

lemma reservation_deleted:
  assumes inv: "store_inv w" and row: "operation_row scope i w = Some row" and inp: "inp = input_id row"
  shows "scope_key scope i \<notin> reservation_record `
    set (filter (\<lambda>r. \<not> (reservation_key r = scope_key scope inp \<and> re_record_id r = i)) (db_active_reservations w))"
proof (rule notI)
  assume "scope_key scope i \<in> reservation_record `
    set (filter (\<lambda>r. \<not> (reservation_key r = scope_key scope inp \<and> re_record_id r = i)) (db_active_reservations w))"
  then obtain res where res: "res \<in> set (db_active_reservations w)" "reservation_record res = scope_key scope i"
    and left: "\<not> (reservation_key res = scope_key scope inp \<and> re_record_id res = i)" by auto
  obtain r where r: "r \<in> set (db_operations w)" "operation_key r = reservation_record res" "input_id r = re_input_id res"
    using inv res(1) unfolding store_inv_def reservations_inv_def by blast
  have "row \<in> set (db_operations w)" "operation_key row = scope_key scope i" using operation_row_key [OF row] by auto
  with r res(2) have "r = row" using inv unfolding store_inv_def rows_inv_def by (metis distinct_map inj_onD)
  with r(3) inp res(2) have "reservation_key res = scope_key scope inp \<and> re_record_id res = i"
    by (simp add: reservation_key_def reservation_record_def scope_key_def)
  with left show False ..
qed

lemma store_inv_release:
  assumes "store_inv w" and "touches f" and "operation_row scope i w = Some row" and "inp = input_id row"
  shows "store_inv (delete_reservation scope inp i (update_operation scope i f w))"
  using store_inv_update [OF assms(1,2), OF refl, of scope i] reservation_deleted [OF assms(1,3,4)]
  by (simp add: delete_reservation_eq)

lemma reserved_inv_update_live:
  assumes "reserved_inv w" and "touches f" and "\<And>r. terminal (row_status r) \<Longrightarrow> terminal (row_status (f r))"
  shows "reserved_inv (update_operation scope i f w)"
  unfolding reserved_inv_def update_operation_rows
proof (intro ballI impI)
  fix row assume row: "row \<in> (\<lambda>r. if operation_key r = scope_key scope i then f r else r) ` set (db_operations w)"
    and live: "\<not> terminal (row_status row)"
  then obtain r where r: "r \<in> set (db_operations w)" "row = (if operation_key r = scope_key scope i then f r else r)" by blast
  with live assms(3) have "\<not> terminal (row_status r)" by (auto split: if_splits)
  moreover have "operation_key row = operation_key r" "input_id row = input_id r"
    using r(2) assms(2) by (auto simp: touches_def)
  ultimately show "\<exists>res \<in> set (db_active_reservations (update_operation scope i f w)).
      reservation_record res = operation_key row \<and> re_input_id res = input_id row"
    using assms(1) r(1) by (simp add: reserved_inv_def)
qed

lemma reserved_inv_release:
  assumes "reserved_inv w" and "touches f" and "\<And>r. terminal (row_status (f r))"
  shows "reserved_inv (delete_reservation scope inp i (update_operation scope i f w))"
proof -
  have "\<exists>res \<in> set (db_active_reservations (delete_reservation scope inp i w)).
      reservation_record res = operation_key row \<and> re_input_id res = input_id row"
    if "row \<in> set (db_operations w)" "operation_key row \<noteq> scope_key scope i" "\<not> terminal (row_status row)" for row
  proof -
    obtain res where res: "res \<in> set (db_active_reservations w)" "reservation_record res = operation_key row"
      "re_input_id res = input_id row" using assms(1) \<open>row \<in> _\<close> \<open>\<not> terminal _\<close> by (auto simp: reserved_inv_def)
    have "\<not> (reservation_key res = scope_key scope inp \<and> re_record_id res = i)"
      using res(2) that(2) by (auto simp: reservation_key_def reservation_record_def scope_key_def)
    with res show ?thesis by (auto simp: delete_reservation_eq)
  qed
  then show ?thesis
    using assms(3) by (auto simp: reserved_inv_def update_operation_rows delete_reservation_eq)
qed

section \<open>New rows\<close>

lemma attempts_of_append:
  "attempts_of k (w\<lparr>db_operation_attempts := db_operation_attempts w @ attempt_rows scope i start ids\<rparr>) =
   attempts_of k w @ (if k = scope_key scope i then attempt_rows scope i start ids else [])"
proof -
  have "attempt_record a = scope_key scope i" if "a \<in> set (attempt_rows scope i start ids)" for a
    using attempt_rows_props(3) [of scope i start ids] that by auto
  then have "filter (\<lambda>a. attempt_record a = k) (attempt_rows scope i start ids) =
      (if k = scope_key scope i then attempt_rows scope i start ids else [])"
    by (auto simp: filter_id_conv filter_empty_conv)
  then show ?thesis by (simp add: attempts_of_def)
qed

lemma attempts_inv_append:
  assumes inv: "attempts_inv w" and known: "scope_key scope i \<in> operation_key ` set (db_operations w)"
    and start: "start = length (attempts_of (scope_key scope i) w)"
  shows "attempts_inv (w\<lparr>db_operation_attempts := db_operation_attempts w @ attempt_rows scope i start ids\<rparr>)"
proof -
  let ?w = "w\<lparr>db_operation_attempts := db_operation_attempts w @ attempt_rows scope i start ids\<rparr>"
  have "map at_position (attempts_of k ?w) = [0..<length (attempts_of k ?w)]" for k
  proof (cases "k = scope_key scope i")
    case True
    have "map at_position (attempts_of k w) = [0..<start]" using inv True start unfolding attempts_inv_def by blast
    moreover have "length (attempt_rows scope i start ids) = length ids" by (simp add: attempt_rows_def)
    ultimately show ?thesis
      using True start attempt_rows_props(1) [of scope i start ids] upt_add_eq_append [of 0 start "length ids"]
      by (simp add: attempts_of_append)
  next
    case False
    then show ?thesis using attempts_invD(1) [OF inv, of k] by (simp add: attempts_of_append)
  qed
  moreover have "attempt_record ` set (db_operation_attempts ?w) \<subseteq> operation_key ` set (db_operations ?w)"
    using inv known attempt_rows_props(3) [of scope i start ids] by (auto simp: attempts_inv_def)
  ultimately show ?thesis unfolding attempts_inv_def by blast
qed

text \<open>The rows of a new operation.\<close>

definition new_row :: "Scope \<Rightarrow> OperationRecord \<Rightarrow> OperationRow" where
  "new_row scope r = \<lparr>deployment_id = sc_deploymentId scope, row_owner = toLowerCase (sc_owner scope), record_id = rb_recordId r,
     input_id = rb_inputId r, operation_id = rb_operationId r, row_kind = columns_of_kind (rec_kind r),
     content_hash = rb_contentHash r, encrypted_bundle_json = rb_encryptedBundle r,
     signature_started = (if rb_signatureStarted r then 1 else 0), revision = 1, state_version = 1,
     row_status = st_reserved, row_checkpoint = None\<rparr>"

definition new_reservation :: "Scope \<Rightarrow> OperationRecord \<Rightarrow> ReservationRow" where
  "new_reservation scope r = \<lparr>re_deployment_id = sc_deploymentId scope, re_owner = toLowerCase (sc_owner scope),
     re_input_id = rb_inputId r, re_record_id = rb_recordId r\<rparr>"

definition with_new :: "Scope \<Rightarrow> OperationRecord \<Rightarrow> 'h Storage_scheme \<Rightarrow> 'h Storage_scheme" where
  "with_new scope r w = w\<lparr>db_operations := db_operations w @ [new_row scope r],
     db_operation_attempts := db_operation_attempts w @ attempt_rows scope (rb_recordId r) 0 (rb_attemptIds r),
     db_active_reservations := db_active_reservations w @ [new_reservation scope r]\<rparr>"

lemma insert_operation_eq_Inr:
  "insert_operation scope r w = (Inr u, w') \<longleftrightarrow>
   operation_key (new_row scope r) \<notin> operation_key ` set (db_operations w) \<and>
   w' = w\<lparr>db_operations := db_operations w @ [new_row scope r]\<rparr>"
  by (auto simp: insert_operation_def einsert_eq_Inr insert_row_def new_row_def)

lemma insert_reservation_eq_Inr:
  "insert_reservation scope (rb_inputId r) (rb_recordId r) w = (Inr u, w') \<longleftrightarrow>
   reservation_key (new_reservation scope r) \<notin> reservation_key ` set (db_active_reservations w) \<and>
   reservation_record (new_reservation scope r) \<notin> reservation_record ` set (db_active_reservations w) \<and>
   w' = w\<lparr>db_active_reservations := db_active_reservations w @ [new_reservation scope r]\<rparr>"
  by (auto simp: insert_reservation_def einsert_eq_Inr insert_row_def new_reservation_def reservation_record_def scope_key_def)

lemma new_keys:
  "operation_key (new_row scope r) = scope_key scope (rb_recordId r)"
  "reservation_record (new_reservation scope r) = scope_key scope (rb_recordId r)"
  "reservation_key (new_reservation scope r) = scope_key scope (rb_inputId r)"
  by (simp_all add: new_row_def new_reservation_def operation_key_def reservation_record_def reservation_key_def scope_key_def)

lemma put_new_eq_Inr:
  assumes "put_new scope r e w = (Inr s, w')"
  shows "e = 0" and "active_reservation scope (rb_inputId r) w = None"
    and "w' = with_new scope r w" and "getOperation scope (rb_recordId r) w' = Some s"
    and "scope_key scope (rb_recordId r) \<notin> operation_key ` set (db_operations w)"
    and "scope_key scope (rb_inputId r) \<notin> reservation_key ` set (db_active_reservations w)"
    and "scope_key scope (rb_recordId r) \<notin> reservation_record ` set (db_active_reservations w)"
proof -
  from assms obtain w1 w2 w3 u1 u2 u3 where guards: "e = 0" "active_reservation scope (rb_inputId r) w = None"
    and w1: "insert_operation scope r w = (Inr u1, w1)"
    and w2: "insert_attempts scope (rb_recordId r) 0 (rb_attemptIds r) w1 = (Inr u2, w2)"
    and w3: "insert_reservation scope (rb_inputId r) (rb_recordId r) w2 = (Inr u3, w3)"
    and s: "getOperation scope (rb_recordId r) w3 = Some s" "w' = w3"
    unfolding put_new_def statement_simps by (auto simp: ebind_eq_Inr return_operation_eq_Inr statement_simps split: if_splits)
  from w1 w3 insert_attempts_eq_Inr [OF w2] s guards
  show "e = 0" and "active_reservation scope (rb_inputId r) w = None"
    and "w' = with_new scope r w" and "getOperation scope (rb_recordId r) w' = Some s"
    and "scope_key scope (rb_recordId r) \<notin> operation_key ` set (db_operations w)"
    and "scope_key scope (rb_inputId r) \<notin> reservation_key ` set (db_active_reservations w)"
    and "scope_key scope (rb_recordId r) \<notin> reservation_record ` set (db_active_reservations w)"
    by (simp_all add: insert_operation_eq_Inr insert_reservation_eq_Inr with_new_def new_keys)
qed

lemma store_inv_new:
  assumes inv: "store_inv w" and lower: "toLowerCase (rb_recordId r) = rb_recordId r"
    and fresh: "scope_key scope (rb_recordId r) \<notin> operation_key ` set (db_operations w)"
      "scope_key scope (rb_inputId r) \<notin> reservation_key ` set (db_active_reservations w)"
      "scope_key scope (rb_recordId r) \<notin> reservation_record ` set (db_active_reservations w)"
  shows "store_inv (with_new scope r w)"
proof -
  let ?w = "w\<lparr>db_operations := db_operations w @ [new_row scope r],
    db_active_reservations := db_active_reservations w @ [new_reservation scope r]\<rparr>"
  have "attempts_of (scope_key scope (rb_recordId r)) w = []"
    using inv fresh(1) attempts_invD(2) [of w] unfolding store_inv_def attempts_of_def filter_empty_conv by metis
  moreover have "attempts_of k ?w = attempts_of k w" for k by (simp add: attempts_of_def)
  moreover have "attempts_inv ?w"
    using inv unfolding store_inv_def attempts_inv_def attempts_of_def by auto
  ultimately have "attempts_inv (?w\<lparr>db_operation_attempts :=
      db_operation_attempts ?w @ attempt_rows scope (rb_recordId r) 0 (rb_attemptIds r)\<rparr>)"
    by (intro attempts_inv_append) (simp_all add: new_keys)
  moreover have "with_new scope r w = ?w\<lparr>db_operation_attempts :=
      db_operation_attempts ?w @ attempt_rows scope (rb_recordId r) 0 (rb_attemptIds r)\<rparr>"
    by (simp add: with_new_def)
  ultimately have attempts: "attempts_inv (with_new scope r w)" by (simp only:)
  have rows: "rows_inv (with_new scope r w)"
    using inv fresh lower by (auto simp: store_inv_def rows_inv_def with_new_def new_keys) (simp_all add: new_row_def)
  have "\<exists>row \<in> set (db_operations (with_new scope r w)).
      operation_key row = reservation_record res \<and> input_id row = re_input_id res \<and> \<not> terminal (row_status row)"
    if "res \<in> set (db_active_reservations w) \<or> res = new_reservation scope r" for res
    using that
  proof
    assume "res \<in> set (db_active_reservations w)"
    then show ?thesis using inv by (auto simp: store_inv_def reservations_inv_def with_new_def)
  next
    assume "res = new_reservation scope r"
    moreover have "input_id (new_row scope r) = re_input_id (new_reservation scope r)" "\<not> terminal (row_status (new_row scope r))"
      by (simp_all add: new_row_def new_reservation_def terminal_def)
    ultimately show ?thesis by (auto simp: with_new_def new_keys)
  qed
  then have "\<forall>res \<in> set (db_active_reservations (with_new scope r w)). \<exists>row \<in> set (db_operations (with_new scope r w)).
      operation_key row = reservation_record res \<and> input_id row = re_input_id res \<and> \<not> terminal (row_status row)"
    by (auto simp: with_new_def [of scope r w])
  moreover have "distinct (map reservation_key (db_active_reservations (with_new scope r w)))"
    "distinct (map reservation_record (db_active_reservations (with_new scope r w)))"
    using inv fresh by (auto simp: store_inv_def reservations_inv_def with_new_def new_keys)
  ultimately have "reservations_inv (with_new scope r w)"
    unfolding reservations_inv_def by blast
  with attempts rows show ?thesis by (simp add: store_inv_def)
qed

lemma reserved_inv_new: "reserved_inv w \<Longrightarrow> reserved_inv (with_new scope r w)"
  unfolding reserved_inv_def with_new_def
  by (auto simp: new_keys) (simp_all add: new_row_def new_reservation_def)

section \<open>What a committed request did\<close>

definition put_update :: "OperationRecord \<Rightarrow> OperationRow \<Rightarrow> OperationRow" where
  "put_update r row = row\<lparr>encrypted_bundle_json := rb_encryptedBundle r,
     signature_started := (if rb_signatureStarted r then 1 else 0), revision := revision row + 1\<rparr>"

definition put_written :: "Scope \<Rightarrow> OperationRecord \<Rightarrow> nat \<Rightarrow> 'h Storage_scheme \<Rightarrow> 'h Storage_scheme" where
  "put_written scope r start w = update_operation scope (rb_recordId r) (put_update r) w
     \<lparr>db_operation_attempts := db_operation_attempts w @ attempt_rows scope (rb_recordId r) start (drop start (rb_attemptIds r))\<rparr>"

definition release_update :: "OperationRecord \<Rightarrow> FinalizedCheckpoint \<Rightarrow> OperationRow \<Rightarrow> OperationRow" where
  "release_update r checkpoint row = row\<lparr>encrypted_bundle_json := rb_encryptedBundle r,
     revision := revision row + 1, state_version := state_version row + 1, row_status := st_released,
     row_checkpoint := Some checkpoint\<rparr>"

lemma touches_updates: "touches (put_update r)" "touches (release_update r c)"
  by (simp_all add: touches_def put_update_def release_update_def operation_key_def)

lemma put_existing_eq_Inr:
  assumes "put_existing scope r e c w = (Inr s, w')"
  shows "sameImmutable (so_record c) r"
    and "sameMutable (so_record c) r \<and> w' = w \<and> s = c \<or>
      \<not> terminal (st_status c) \<and> so_revision c = e \<and> (rb_signatureStarted (so_record c) \<longrightarrow> rb_signatureStarted r) \<and>
      keeps_attempts (rb_attemptIds (so_record c)) (rb_attemptIds r) \<and>
      eb_nonce (rb_encryptedBundle (so_record c)) \<noteq> eb_nonce (rb_encryptedBundle r) \<and>
      w' = put_written scope r (length (rb_attemptIds (so_record c))) w \<and> getOperation scope (rb_recordId r) w' = Some s"
proof -
  show "sameImmutable (so_record c) r"
    using assms by (auto simp: put_existing_def statement_simps split: if_splits)
  show "sameMutable (so_record c) r \<and> w' = w \<and> s = c \<or>
      \<not> terminal (st_status c) \<and> so_revision c = e \<and> (rb_signatureStarted (so_record c) \<longrightarrow> rb_signatureStarted r) \<and>
      keeps_attempts (rb_attemptIds (so_record c)) (rb_attemptIds r) \<and>
      eb_nonce (rb_encryptedBundle (so_record c)) \<noteq> eb_nonce (rb_encryptedBundle r) \<and>
      w' = put_written scope r (length (rb_attemptIds (so_record c))) w \<and> getOperation scope (rb_recordId r) w' = Some s"
  proof (cases "sameMutable (so_record c) r")
    case True
    with assms show ?thesis by (auto simp: put_existing_def statement_simps split: if_splits)
  next
    case False
    let ?w = "update_operation scope (rb_recordId r) (put_update r) w"
    have "\<not> terminal (st_status c) \<and> so_revision c = e \<and> (rb_signatureStarted (so_record c) \<longrightarrow> rb_signatureStarted r) \<and>
        keeps_attempts (rb_attemptIds (so_record c)) (rb_attemptIds r) \<and>
        eb_nonce (rb_encryptedBundle (so_record c)) \<noteq> eb_nonce (rb_encryptedBundle r)"
      using assms False by (auto simp: put_existing_def statement_simps split: if_splits)
    moreover obtain u v where "insert_attempts scope (rb_recordId r) (length (rb_attemptIds (so_record c)))
          (drop (length (rb_attemptIds (so_record c))) (rb_attemptIds r)) ?w = (Inr u, v)"
        and "getOperation scope (rb_recordId r) v = Some s" "w' = v"
      using assms False by (auto simp: put_existing_def statement_simps ebind_eq_Inr return_operation_eq_Inr put_update_def [abs_def]
          split: if_splits)
    ultimately show ?thesis
      using insert_attempts_eq_Inr by (fastforce simp: put_written_def)
  qed
qed

lemma ensureWritable_eq_Inr: "ensureWritable gate w = (Inr u, w') \<longleftrightarrow> getAvailability gate w = healthy \<and> w' = w"
  by (auto simp: ensureWritable_def statement_simps ewhen_eq_Inr split: if_splits)

lemma put_commit_eq_Inr:
  "put_commit scope r e (ensureWritable gate) w = (Inr s, w') \<longleftrightarrow>
   getAvailability gate w = healthy \<and> \<not> environment_stopped w \<and>
   (case getOperation scope (rb_recordId r) w of Some c \<Rightarrow> put_existing scope r e c w | None \<Rightarrow> put_new scope r e w) = (Inr s, w')"
  by (auto simp: put_commit_def ebind_eq_Inr ensureWritable_eq_Inr statement_simps split: option.splits)

lemma release_current_eq_Inr:
  assumes "release_current scope r e checkpoint c w = (Inr s, w')"
  shows "sameImmutable (so_record c) r"
    and "st_status c = st_released \<and> sameMutable (so_record c) r \<and> so_revision c = e + 1 \<and> w' = w \<and> s = asReservation c \<or>
      \<not> terminal (st_status c) \<and> so_revision c = e \<and> is_pay (rec_kind r) \<and>
      rb_attemptIds (so_record c) = rb_attemptIds r \<and> rb_signatureStarted (so_record c) = rb_signatureStarted r \<and>
      eb_nonce (rb_encryptedBundle (so_record c)) \<noteq> eb_nonce (rb_encryptedBundle r) \<and>
      active_reservation scope (rb_inputId r) w = Some (rb_recordId r) \<and>
      w' = delete_reservation scope (rb_inputId r) (rb_recordId r) (update_operation scope (rb_recordId r) (release_update r checkpoint) w) \<and>
      (\<exists>saved. getOperation scope (rb_recordId r) w' = Some saved \<and> s = asReservation saved)"
  using assms
  by (auto simp: release_current_def statement_simps ebind_eq_Inr return_operation_eq_Inr release_update_def [abs_def] terminal_def
      split: if_splits)

lemma release_commit_eq_Inr:
  "release_commit scope r e checkpoint (ensureWritable gate) w = (Inr s, w') \<longleftrightarrow>
   getAvailability gate w = healthy \<and> (\<exists>c. getOperation scope (rb_recordId r) w = Some c \<and>
     release_current scope r e checkpoint c w = (Inr s, w'))"
  by (auto simp: release_commit_def ebind_eq_Inr ensureWritable_eq_Inr statement_simps split: option.splits)

lemma BigInt_text_bigint_text [simp]: "BigInt_text (bigint_text n) = n"
proof (cases "n < 0")
  case False
  have "hd (toString10 (nat n)) \<noteq> CHR ''-''"
  proof -
    have "is_digit (hd (toString10 (nat n)))"
      using digits_toString10 [of "nat n"] toString10_nonempty [of "nat n"] by (simp add: list_all_iff)
    then show ?thesis by (auto simp: is_digit_def)
  qed
  with False show ?thesis by (simp add: BigInt_text_def bigint_text_def BigInt_dec_def)
qed (simp add: BigInt_text_def bigint_text_def BigInt_dec_def)

lemma kind_columns_roundtrip [simp]: "kind_of_columns (columns_of_kind k) = k"
  by (cases k) simp_all

end
