(* ===== verification/ServiceSteps.thy ===== *)
theory ServiceSteps
  imports ServiceStoreProperties "HOL-Library.Sublist"
begin

text \<open>
  The store as a state machine: its events are the commits of the requests, the operator's changes of the
  environment, and everything else that happens to the rest of the state.  The invariant holds along every run,
  saved operations only evolve, and without a reorganization of finalized history no input is reserved twice.
\<close>

datatype store_event = PutEvent | ReleaseEvent | ReconcileEvent | ReorgEvent | EnvironmentEvent | OtherEvent

inductive store_step :: "store_event \<Rightarrow> 'h Storage_scheme \<Rightarrow> 'h Storage_scheme \<Rightarrow> bool" where
  put: "put_commit scope (normalize_record r) e (ensureWritable gate) w = (Inr s, w') \<Longrightarrow> store_step PutEvent w w'"
| release: "release_commit scope (normalize_record r) e c (ensureWritable gate) w = (Inr s', w') \<Longrightarrow> store_step ReleaseEvent w w'"
| reconcile: "reconcile_commit scope (toLowerCase i) before view (ensureWritable gate) w = (Inr s, w') \<Longrightarrow>
    store_step (if environment_stopped w' \<and> \<not> environment_stopped w then ReorgEvent else ReconcileEvent) w w'"
| initialize: "initializeEnvironment gate w = (Inr u, w') \<Longrightarrow> store_step EnvironmentEvent w w'"
| restore: "beginRestore gate w = (Inr u, w') \<Longrightarrow> store_step EnvironmentEvent w w'"
| restored: "completeRestore gate acknowledged reconciled w = (Inr u, w') \<Longrightarrow> store_step EnvironmentEvent w w'"
| other: "db_operations w' = db_operations w \<Longrightarrow> db_active_reservations w' = db_active_reservations w \<Longrightarrow>
    db_operation_attempts w' = db_operation_attempts w \<Longrightarrow> db_environment_state w' = db_environment_state w \<Longrightarrow>
    store_step OtherEvent w w'"

inductive store_run :: "store_event list \<Rightarrow> 'h Storage_scheme \<Rightarrow> 'h Storage_scheme \<Rightarrow> bool" where
  nil: "store_run [] w w"
| cons: "store_step x w w1 \<Longrightarrow> store_run xs w1 w2 \<Longrightarrow> store_run (x # xs) w w2"

inductive_cases store_run_ConsE: "store_run (x # xs) w w'"
inductive_simps store_run_Nil [simp]: "store_run [] w w'"

lemma store_run_append: "store_run xs w w1 \<Longrightarrow> store_run ys w1 w2 \<Longrightarrow> store_run (xs @ ys) w w2"
  by (induction rule: store_run.induct) (auto intro: store_run.cons)

text \<open>What every event that is not excluded keeps, every run without excluded events keeps.\<close>

lemma store_run_keeps:
  assumes "store_run xs w w'" and "Q w" and "list_all P xs"
    and "\<And>x v v'. store_step x v v' \<Longrightarrow> P x \<Longrightarrow> Q v \<Longrightarrow> Q v'"
  shows "Q w'"
  using assms(1-3) by (induction rule: store_run.induct) (auto dest: assms(4))

section \<open>The effects of the events\<close>

lemma normalized_lower: "toLowerCase (rb_recordId (normalize_record r)) = rb_recordId (normalize_record r)"
  by (simp add: normalize_record_def)

definition reconcile_update :: "OperationStatus \<Rightarrow> int \<Rightarrow> FinalizedCheckpoint option \<Rightarrow> OperationRow \<Rightarrow> OperationRow" where
  "reconcile_update status version checkpoint row = (if state_version row = version
     then row\<lparr>row_status := status, state_version := state_version row + 1, row_checkpoint := checkpoint\<rparr> else row)"

definition reorg_update :: "OperationRow \<Rightarrow> OperationRow" where
  "reorg_update row = row\<lparr>row_status := st_unknown, state_version := state_version row + 1, row_checkpoint := None\<rparr>"

lemma touches_reconcile: "touches (reconcile_update status version checkpoint)" "touches reorg_update"
  by (simp_all add: touches_def reconcile_update_def reorg_update_def operation_key_def)

lemma reconcile_commit_cases:
  assumes "reconcile_commit scope i before view (ensureWritable gate) w = (Inr s, w')"
  obtains (same) "w' = w"
  | (reorg) c where "\<not> environment_stopped w" "getOperation scope i w = Some c" "terminal (st_status c)"
      "w' = update_operation scope i reorg_update (stop_environment [] ''finalized-reorg'' w)"
  | (active) c status checkpoint where "getOperation scope i w = Some c" "\<not> terminal (st_status c)"
      "w' = (if terminal status then delete_reservation scope (rb_inputId (so_record c)) i else id)
        (update_operation scope i (reconcile_update status (st_stateVersion c) checkpoint) w)"
proof -
  let ?next = "case view of None \<Rightarrow> st_unknown | Some v \<Rightarrow> classify (rec_kind (so_record before)) v"
  from assms consider "w' = w" | c where "\<not> environment_stopped w" "getOperation scope i w = Some c" "terminal (st_status c)"
      "reconcile_terminal scope i c view ?next w = (Inr s, w')"
    | c where "getOperation scope i w = Some c" "\<not> terminal (st_status c)"
      "reconcile_active scope i c view ?next w = (Inr s, w')"
    by (auto simp: reconcile_commit_def Let_def ebind_eq_Inr ensureWritable_eq_Inr statement_simps return_operation_eq_Inr
        split: if_splits option.splits)
  then show thesis
  proof cases
    case 1
    then show ?thesis by (rule same)
  next
    case (2 c)
    then have "w' = w \<or> w' = update_operation scope i reorg_update (stop_environment [] ''finalized-reorg'' w)"
      by (auto simp: reconcile_terminal_def statement_simps return_operation_eq_Inr reorg_update_def [abs_def] split: if_splits)
    then show ?thesis using 2 same reorg by blast
  next
    case (3 c)
    let ?checkpoint = "if ?next = st_unknown then None else map_option fv_checkpoint view"
    have "w' = w \<or> w' = (if terminal ?next then delete_reservation scope (rb_inputId (so_record c)) i else id)
        (update_operation scope i (reconcile_update ?next (st_stateVersion c) ?checkpoint) w)"
      using 3(3) by (auto simp: reconcile_active_def statement_simps Let_def return_operation_eq_Inr reconcile_update_def [abs_def]
          ebind_eq_Inr split: if_splits)
    then show ?thesis using 3 same active by blast
  qed
qed

lemma environment_eq_Inr:
  "initializeEnvironment gate w = (Inr u, w') \<Longrightarrow> \<exists>state. w' = w\<lparr>db_environment_state := state\<rparr>"
  "beginRestore gate w = (Inr u, w') \<Longrightarrow> \<exists>state. w' = w\<lparr>db_environment_state := state\<rparr>"
  "completeRestore gate acknowledged reconciled w = (Inr u, w') \<Longrightarrow> \<exists>state. w' = w\<lparr>db_environment_state := state\<rparr>"
  by (auto simp: initializeEnvironment_def beginRestore_def completeRestore_def stop_environment_def statement_simps split: if_splits)

lemma fromRow_fields [simp]:
  "st_status (fromRow scope row w) = row_status row" "so_revision (fromRow scope row w) = revision row"
  "st_stateVersion (fromRow scope row w) = state_version row" "rb_inputId (so_record (fromRow scope row w)) = input_id row"
  "rb_attemptIds (so_record (fromRow scope row w)) = attempts scope (record_id row) w"
  "rb_signatureStarted (so_record (fromRow scope row w)) = (signature_started row \<noteq> 0)"
  "rb_recordId (so_record (fromRow scope row w)) = record_id row"
  "rb_encryptedBundle (so_record (fromRow scope row w)) = encrypted_bundle_json row"
  by (simp_all add: fromRow_def)

lemma operation_row_id: "operation_row scope i w = Some row \<Longrightarrow> record_id row = i"
  using operation_row_key [of scope i w row] by (simp add: operation_key_def scope_key_def)

section \<open>The invariant along runs\<close>

lemma store_inv_cong:
  assumes "db_operations w' = db_operations w" and "db_active_reservations w' = db_active_reservations w"
    and "db_operation_attempts w' = db_operation_attempts w"
  shows "store_inv w' = store_inv w" and "reserved_inv w' = reserved_inv w"
  using assms by (simp_all add: store_inv_def rows_inv_def reservations_inv_def attempts_inv_def attempts_of_def reserved_inv_def)

lemma environment_keeps:
  assumes "initializeEnvironment gate w = (Inr u, w') \<or> beginRestore gate w = (Inr u, w') \<or>
    completeRestore gate acknowledged reconciled w = (Inr u, w')"
  shows "store_inv w' = store_inv w" and "reserved_inv w' = reserved_inv w"
proof -
  obtain state where "w' = w\<lparr>db_environment_state := state\<rparr>" using assms environment_eq_Inr by metis
  then show "store_inv w' = store_inv w" and "reserved_inv w' = reserved_inv w"
    using store_inv_cong [of w' w] by simp_all
qed

lemma put_written_inv:
  assumes inv: "store_inv w" and row: "operation_row scope (rb_recordId r) w = Some row"
    and start: "start = length (attempts scope (rb_recordId r) w)"
  shows "store_inv (put_written scope r start w)"
proof -
  let ?w = "update_operation scope (rb_recordId r) (put_update r) w"
  have "store_inv ?w"
    by (rule store_inv_update_live [OF inv touches_updates(1)]) (simp add: put_update_def)
  moreover have "attempts_inv (?w\<lparr>db_operation_attempts := db_operation_attempts ?w @
      attempt_rows scope (rb_recordId r) start (drop start (rb_attemptIds r))\<rparr>)"
  proof (rule attempts_inv_append)
    show attempts: "attempts_inv ?w" using calculation by (simp add: store_inv_def)
    show "scope_key scope (rb_recordId r) \<in> operation_key ` set (db_operations ?w)"
    proof -
      have "map operation_key (db_operations ?w) = map operation_key (db_operations w)"
        by (rule update_operation_keys [OF touches_updates(1)])
      then show ?thesis using operation_row_key [OF row] by (metis image_eqI list.set_map)
    qed
    show "start = length (attempts_of (scope_key scope (rb_recordId r)) ?w)"
      using start attempts_eq [OF attempts, of scope "rb_recordId r"] by simp
  qed
  ultimately show ?thesis
    by (simp add: store_inv_def put_written_def rows_inv_def reservations_inv_def)
qed

lemma reserved_inv_put: "reserved_inv w \<Longrightarrow> reserved_inv (put_written scope r start w)"
proof -
  assume "reserved_inv w"
  then have "reserved_inv (update_operation scope (rb_recordId r) (put_update r) w)"
    by (rule reserved_inv_update_live [OF _ touches_updates(1)]) (simp add: put_update_def)
  then show ?thesis by (simp add: put_written_def reserved_inv_def)
qed

text \<open>What a put committed: nothing, an update of the saved operation, or a new one.\<close>

lemma put_commit_cases:
  assumes "put_commit scope (normalize_record r) e (ensureWritable gate) w = (Inr s, w')"
  obtains (same) "w' = w"
  | (written) row where "operation_row scope (rb_recordId (normalize_record r)) w = Some row" "\<not> terminal (row_status row)"
      "signature_started row \<noteq> 0 \<longrightarrow> rb_signatureStarted (normalize_record r)"
      "keeps_attempts (attempts scope (record_id row) w) (rb_attemptIds (normalize_record r))"
      "w' = put_written scope (normalize_record r) (length (attempts scope (record_id row) w)) w"
  | (new) "w' = with_new scope (normalize_record r) w"
      "scope_key scope (rb_recordId (normalize_record r)) \<notin> operation_key ` set (db_operations w)"
      "scope_key scope (rb_inputId (normalize_record r)) \<notin> reservation_key ` set (db_active_reservations w)"
      "scope_key scope (rb_recordId (normalize_record r)) \<notin> reservation_record ` set (db_active_reservations w)"
proof (cases "getOperation scope (rb_recordId (normalize_record r)) w")
  case None
  with assms have "put_new scope (normalize_record r) e w = (Inr s, w')" by (simp add: put_commit_eq_Inr)
  from put_new_eq_Inr [OF this] show ?thesis by (intro new)
next
  case (Some c)
  with assms have put: "put_existing scope (normalize_record r) e c w = (Inr s, w')" by (simp add: put_commit_eq_Inr)
  from Some obtain row where row: "operation_row scope (rb_recordId (normalize_record r)) w = Some row" "c = fromRow scope row w"
    by (auto simp: getOperation_eq_Some normalized_lower)
  from put_existing_eq_Inr(2) [OF put] same written [OF row(1)] show ?thesis by (auto simp: row(2))
qed

lemma reconcile_active_inv:
  assumes inv: "store_inv w" and saved: "getOperation scope i w = Some c" and lower: "toLowerCase i = i"
    and w': "w' = (if terminal status then delete_reservation scope (rb_inputId (so_record c)) i else id)
        (update_operation scope i (reconcile_update status (st_stateVersion c) checkpoint) w)"
  shows "store_inv w'" and "reserved_inv w \<Longrightarrow> \<not> terminal (st_status c) \<Longrightarrow> reserved_inv w'"
proof -
  from saved lower obtain row where row: "operation_row scope i w = Some row" "c = fromRow scope row w"
    by (auto simp: getOperation_eq_Some)
  let ?f = "\<lambda>r. if operation_key r = scope_key scope i then reconcile_update status (st_stateVersion c) checkpoint row else r"
  have one: "r = row" if "r \<in> set (db_operations w)" "operation_key r = scope_key scope i" for r
    using that operation_row_key [OF row(1)] inv unfolding store_inv_def rows_inv_def by (metis distinct_map inj_onD)
  have upd: "update_operation scope i (reconcile_update status (st_stateVersion c) checkpoint) w =
      update_operation scope i (\<lambda>r. r\<lparr>row_status := status, state_version := state_version r + 1, row_checkpoint := checkpoint\<rparr>) w"
    using one by (auto simp: update_operation_def update_rows_def reconcile_update_def row(2))
  have touches: "touches (\<lambda>r. r\<lparr>row_status := status, state_version := state_version r + 1, row_checkpoint := checkpoint\<rparr>)"
    by (simp add: touches_def operation_key_def)
  show "store_inv w'"
    using store_inv_release [OF inv touches row(1)] store_inv_update_live [OF inv touches, of scope i]
    unfolding w' upd by (auto simp: row(2))
  show "reserved_inv w'" if res: "reserved_inv w" and live: "\<not> terminal (st_status c)"
  proof (cases "terminal status")
    case True
    then show ?thesis unfolding w' upd using reserved_inv_release [OF res touches] by simp
  next
    case False
    have "reserved_inv (update_operation scope i (\<lambda>r. if terminal (row_status r) then r else
        r\<lparr>row_status := status, state_version := state_version r + 1, row_checkpoint := checkpoint\<rparr>) w)"
      by (rule reserved_inv_update_live [OF res]) (simp_all add: touches_def operation_key_def)
    moreover have "update_operation scope i (\<lambda>r. r\<lparr>row_status := status, state_version := state_version r + 1, row_checkpoint := checkpoint\<rparr>) w =
      update_operation scope i (\<lambda>r. if terminal (row_status r) then r else
        r\<lparr>row_status := status, state_version := state_version r + 1, row_checkpoint := checkpoint\<rparr>) w"
      unfolding update_operation_def update_rows_def
      using one live by (intro arg_cong [where f = "\<lambda>t. w\<lparr>db_operations := t\<rparr>"] map_cong) (auto simp: row(2))
    ultimately show ?thesis using False unfolding w' upd by simp
  qed
qed

lemma release_row:
  assumes "release_commit scope (normalize_record r) e cp (ensureWritable gate) w = (Inr s, w')" and "w' \<noteq> w"
  obtains row where "operation_row scope (rb_recordId (normalize_record r)) w = Some row" "\<not> terminal (row_status row)"
    "input_id row = rb_inputId (normalize_record r)" "attempts scope (record_id row) w = rb_attemptIds (normalize_record r)"
    "w' = delete_reservation scope (rb_inputId (normalize_record r)) (rb_recordId (normalize_record r))
      (update_operation scope (rb_recordId (normalize_record r)) (release_update (normalize_record r) cp) w)"
proof -
  let ?r = "normalize_record r"
  from assms(1) obtain c where c: "getOperation scope (rb_recordId ?r) w = Some c" "release_current scope ?r e cp c w = (Inr s, w')"
    by (auto simp: release_commit_eq_Inr)
  from c(1) obtain row where row: "operation_row scope (rb_recordId ?r) w = Some row" "c = fromRow scope row w"
    by (auto simp: getOperation_eq_Some normalized_lower)
  from release_current_eq_Inr [OF c(2)] assms(2) that [OF row(1)] show thesis
    by (auto simp: row(2) sameImmutable_def)
qed

lemma terminal_release_update: "terminal (row_status (release_update r c row))"
  by (simp add: release_update_def terminal_def)

theorem store_inv_step:
  assumes "store_step x w w'" and "store_inv w"
  shows "store_inv w'"
  using assms(1)
proof cases
  case (put scope r e gate s)
  from put(2) show ?thesis
  proof (cases rule: put_commit_cases)
    case same
    with assms(2) show ?thesis by simp
  next
    case (written row)
    then show ?thesis using put_written_inv [OF assms(2) written(1)] operation_row_id [OF written(1)] by simp
  next
    case new
    then show ?thesis using store_inv_new [OF assms(2) normalized_lower new(2-4)] by simp
  qed
next
  case (release scope r e c gate s)
  show ?thesis
  proof (cases "w' = w")
    case False
    from release_row [OF release(2) False] show ?thesis
      using store_inv_release [OF assms(2) touches_updates(2)] by metis
  qed (use assms(2) in simp)
next
  case (reconcile scope i before view gate s)
  from reconcile(2) show ?thesis
  proof (cases rule: reconcile_commit_cases)
    case same
    with assms(2) show ?thesis by simp
  next
    case (reorg c)
    have "store_inv (stop_environment [] ''finalized-reorg'' w)"
      using assms(2) store_inv_cong(1) [of "stop_environment [] ''finalized-reorg'' w" w] by simp
    then show ?thesis unfolding reorg(4)
      by (rule store_inv_update_live [OF _ touches_reconcile(2)]) (simp add: reorg_update_def terminal_def)
  next
    case (active c status checkpoint)
    then show ?thesis using reconcile_active_inv(1) [OF assms(2) active(1) lower_idem active(3)] by simp
  qed
next
  case other
  then show ?thesis using assms(2) store_inv_cong(1) by metis
qed (use assms(2) environment_keeps(1) in metis)+

theorem reserved_inv_step:
  assumes "store_step x w w'" and "x \<noteq> ReorgEvent" and "store_inv w" and "reserved_inv w"
  shows "reserved_inv w'"
  using assms(1)
proof cases
  case (put scope r e gate s)
  from put(2) show ?thesis
    by (cases rule: put_commit_cases) (use assms(4) reserved_inv_put reserved_inv_new in auto)
next
  case (release scope r e c gate s)
  show ?thesis
  proof (cases "w' = w")
    case False
    from release_row [OF release(2) False] show ?thesis
      using reserved_inv_release [OF assms(4) touches_updates(2)] by (metis terminal_release_update)
  qed (use assms(4) in simp)
next
  case (reconcile scope i before view gate s)
  from reconcile(2) show ?thesis
  proof (cases rule: reconcile_commit_cases)
    case same
    with assms(4) show ?thesis by simp
  next
    case (reorg c)
    then have "environment_stopped w'" by (simp add: environment_stopped_def update_operation_def stop_environment_def split: option.split)
    with reorg(1) reconcile(1) assms(2) show ?thesis by simp
  next
    case (active c status checkpoint)
    then show ?thesis using reconcile_active_inv(2) [OF assms(3) active(1) lower_idem active(3) assms(4)] by simp
  qed
next
  case other
  then show ?thesis using assms(4) store_inv_cong(2) by metis
qed (use assms(4) environment_keeps(2) in metis)+

section \<open>How a saved operation evolves\<close>

text \<open>The same operation later: its fixed content, its attempts and its start of signing are kept, versions only
  grow, equal revisions mean equal content, equal state versions mean equal status; if \<open>final\<close>, which a
  reorganization of finalized history ends, a terminal status stays.\<close>

definition operation_evolves :: "bool \<Rightarrow> StoredOperation \<Rightarrow> StoredOperation \<Rightarrow> bool" where
  "operation_evolves final s t \<longleftrightarrow> sameImmutable (so_record s) (so_record t) \<and>
     prefix (rb_attemptIds (so_record s)) (rb_attemptIds (so_record t)) \<and>
     (rb_signatureStarted (so_record s) \<longrightarrow> rb_signatureStarted (so_record t)) \<and>
     so_revision s \<le> so_revision t \<and> st_stateVersion s \<le> st_stateVersion t \<and>
     (so_revision s = so_revision t \<longrightarrow> sameMutable (so_record s) (so_record t)) \<and>
     (st_stateVersion s = st_stateVersion t \<longrightarrow> st_status s = st_status t) \<and>
     (final \<longrightarrow> terminal (st_status s) \<longrightarrow> st_status s = st_status t)"

lemma sameImmutable_refl [simp]: "sameImmutable r r"
  by (cases "rec_kind r") (simp_all add: sameImmutable_def)

lemma same_kind_eq: "same_kind a b \<longleftrightarrow> a = b"
  by (cases a; cases b) auto

lemma operation_evolves_refl: "operation_evolves final s s"
  by (simp add: operation_evolves_def sameMutable_def)

lemma operation_evolvesD:
  assumes "operation_evolves final s t"
  shows "sameImmutable (so_record s) (so_record t)" and "prefix (rb_attemptIds (so_record s)) (rb_attemptIds (so_record t))"
    and "rb_signatureStarted (so_record s) \<Longrightarrow> rb_signatureStarted (so_record t)"
    and "so_revision s \<le> so_revision t" and "st_stateVersion s \<le> st_stateVersion t"
    and "so_revision s = so_revision t \<Longrightarrow> sameMutable (so_record s) (so_record t)"
    and "st_stateVersion s = st_stateVersion t \<Longrightarrow> st_status s = st_status t"
    and "final \<Longrightarrow> terminal (st_status s) \<Longrightarrow> st_status s = st_status t"
  using assms unfolding operation_evolves_def by (elim conjE, (assumption | blast))+

lemma operation_evolves_trans:
  "operation_evolves f s t \<Longrightarrow> operation_evolves g t u \<Longrightarrow> operation_evolves (f \<and> g) s u"
proof -
  assume st: "operation_evolves f s t" and tu: "operation_evolves g t u"
  note D = operation_evolvesD [OF st] and E = operation_evolvesD [OF tu]
  have fixed: "sameImmutable (so_record s) (so_record u)"
    using D(1) E(1) by (simp add: sameImmutable_def same_kind_eq)
  have grown: "prefix (rb_attemptIds (so_record s)) (rb_attemptIds (so_record u))"
    by (rule prefix_order.trans [OF D(2) E(2)])
  have content: "sameMutable (so_record s) (so_record u)" if "so_revision s = so_revision u"
  proof -
    have "so_revision s = so_revision t" "so_revision t = so_revision u" using that D(4) E(4) by linarith+
    from D(6) [OF this(1)] E(6) [OF this(2)] show ?thesis by (simp add: sameMutable_def)
  qed
  have status: "st_status s = st_status u" if "st_stateVersion s = st_stateVersion u"
  proof -
    have "st_stateVersion s = st_stateVersion t" "st_stateVersion t = st_stateVersion u" using that D(5) E(5) by linarith+
    from D(7) [OF this(1)] E(7) [OF this(2)] show ?thesis by simp
  qed
  have last: "st_status s = st_status u" if "f \<and> g" "terminal (st_status s)"
    using D(8) [OF _ that(2)] E(8) that by simp
  show "operation_evolves (f \<and> g) s u"
    unfolding operation_evolves_def
    using fixed grown content status last D(3) E(3) order_trans [OF D(4) E(4)] order_trans [OF D(5) E(5)] by blast
qed

definition row_evolves :: "bool \<Rightarrow> OperationRow \<Rightarrow> OperationRow \<Rightarrow> bool" where
  "row_evolves final a b \<longleftrightarrow> record_id a = record_id b \<and> input_id a = input_id b \<and> operation_id a = operation_id b \<and>
     content_hash a = content_hash b \<and> row_kind a = row_kind b \<and>
     (signature_started a \<noteq> 0 \<longrightarrow> signature_started b \<noteq> 0) \<and> revision a \<le> revision b \<and> state_version a \<le> state_version b \<and>
     (revision a = revision b \<longrightarrow> encrypted_bundle_json a = encrypted_bundle_json b \<and> (signature_started a \<noteq> 0) = (signature_started b \<noteq> 0)) \<and>
     (state_version a = state_version b \<longrightarrow> row_status a = row_status b) \<and>
     (final \<longrightarrow> terminal (row_status a) \<longrightarrow> row_status a = row_status b)"

lemma row_evolves_refl [simp]: "row_evolves final a a"
  by (simp add: row_evolves_def)

lemma evolved:
  assumes "getOperation scope i w = Some s" and "operation_row scope (toLowerCase i) w = Some a"
    and "operation_row scope (toLowerCase i) w' = Some b" and "row_evolves final a b"
    and "prefix (attempts scope (toLowerCase i) w) (attempts scope (toLowerCase i) w')"
    and "revision a = revision b \<longrightarrow> attempts scope (toLowerCase i) w = attempts scope (toLowerCase i) w'"
  shows "\<exists>t. getOperation scope i w' = Some t \<and> operation_evolves final s t"
proof -
  have ids: "record_id a = toLowerCase i" "record_id b = toLowerCase i"
    using operation_row_id [OF assms(2)] operation_row_id [OF assms(3)] by simp_all
  have "operation_evolves final (fromRow scope a w) (fromRow scope b w')"
    using assms(4-6) ids
    by (auto simp: operation_evolves_def row_evolves_def fromRow_def sameImmutable_def sameMutable_def same_kind_eq)
  with assms(1-3) show ?thesis by (simp add: getOperation_def)
qed

lemma attempts_put:
  assumes "attempts_inv w" and "attempts_inv (put_written scope r start w)" and "start = length (attempts scope (rb_recordId r) w)"
  shows "attempts scope' j (put_written scope r start w) =
    attempts scope' j w @ (if scope_key scope' j = scope_key scope (rb_recordId r) then drop start (rb_attemptIds r) else [])"
proof -
  have "attempts_of k (put_written scope r start w) =
      attempts_of k w @ (if k = scope_key scope (rb_recordId r) then attempt_rows scope (rb_recordId r) start (drop start (rb_attemptIds r)) else [])" for k
    using attempts_of_append [of k "update_operation scope (rb_recordId r) (put_update r) w" scope "rb_recordId r" start "drop start (rb_attemptIds r)"]
    unfolding put_written_def by (simp add: attempts_of_def)
  then show ?thesis
    using attempts_eq [OF assms(1)] attempts_eq [OF assms(2)] attempt_rows_props(2) by simp
qed

lemma operation_row_put_written:
  "operation_row scope' j (put_written scope r start w) =
   operation_row scope' j (update_operation scope (rb_recordId r) (put_update r) w)"
  by (simp add: put_written_def operation_row_def)

lemma operation_row_update_key:
  assumes "touches f"
  shows "operation_row scope' j (update_operation scope i f w) =
    map_option (\<lambda>r. if operation_key r = scope_key scope i then f r else r) (operation_row scope' j w)"
proof -
  have "select_first (\<lambda>r. operation_key r = scope_key scope' j)
      (map (\<lambda>r. if operation_key r = scope_key scope i then f r else r) (db_operations w)) =
    map_option (\<lambda>r. if operation_key r = scope_key scope i then f r else r)
      (select_first (\<lambda>r. operation_key r = scope_key scope' j) (db_operations w))"
    by (rule select_first_update) (use assms in \<open>simp add: touches_def\<close>)
  then show ?thesis by (simp add: operation_row_def update_operation_def update_rows_def)
qed

text \<open>An update of a row that evolves, with the attempts unchanged.\<close>

lemma evolved_update:
  assumes "getOperation scope' j w = Some s" and "touches f"
    and "\<And>a. operation_row scope' (toLowerCase j) w = Some a \<Longrightarrow> operation_key a = scope_key scope i \<Longrightarrow> row_evolves final a (f a)"
    and "\<And>scope k. operation_row scope k w' = operation_row scope k (update_operation scope0 i f w)" and "scope0 = scope"
    and "\<And>scope k. attempts scope k w' = attempts scope k w"
  shows "\<exists>t. getOperation scope' j w' = Some t \<and> operation_evolves final s t"
proof -
  from assms(1) obtain a where a: "operation_row scope' (toLowerCase j) w = Some a" by (auto simp: getOperation_eq_Some)
  let ?b = "if operation_key a = scope_key scope i then f a else a"
  have "operation_row scope' (toLowerCase j) w' = Some ?b"
    using a by (simp add: assms(4,5) operation_row_update_key [OF assms(2)])
  moreover have "row_evolves final a ?b" using assms(3) [OF a] by simp
  ultimately show ?thesis by (intro evolved [OF assms(1) a]) (simp_all add: assms(6))
qed

lemma getOperation_cong:
  assumes "db_operations w' = db_operations w" and "db_operation_attempts w' = db_operation_attempts w"
  shows "getOperation scope i w' = getOperation scope i w"
  using assms by (simp add: getOperation_def operation_row_def fromRow_def attempts_def)

lemma attempts_cong: "db_operation_attempts w' = db_operation_attempts w \<Longrightarrow> attempts scope i w' = attempts scope i w"
  by (simp add: attempts_def)

lemma operation_row_same_key: "scope_key scope i = scope_key scope' j \<Longrightarrow> operation_row scope i w = operation_row scope' j w"
  by (simp add: operation_row_def)

lemma row_of_key:
  assumes "operation_row scope' j w = Some a" and "operation_key a = scope_key scope i" and "operation_row scope i w = Some row"
  shows "a = row"
  using assms operation_row_key [OF assms(1)] operation_row_same_key [of scope i scope' j w] by simp

lemma evolves_put_written:
  assumes inv: "store_inv w" and row: "operation_row scope (rb_recordId r) w = Some row" and live: "\<not> terminal (row_status row)"
    and started: "signature_started row \<noteq> 0 \<longrightarrow> rb_signatureStarted r"
    and w': "w' = put_written scope r (length (attempts scope (rb_recordId r) w)) w"
    and saved: "getOperation scope' j w = Some s"
  shows "\<exists>t. getOperation scope' j w' = Some t \<and> operation_evolves final s t"
proof -
  from saved obtain a where a: "operation_row scope' (toLowerCase j) w = Some a" by (auto simp: getOperation_eq_Some)
  let ?same = "operation_key a = scope_key scope (rb_recordId r)"
  let ?b = "if ?same then put_update r a else a"
  have b: "operation_row scope' (toLowerCase j) w' = Some ?b"
    using a by (simp add: w' operation_row_put_written operation_row_update_key [OF touches_updates(1)])
  have "row_evolves final a ?b"
  proof (cases ?same)
    case True
    then have "signature_started a \<noteq> 0 \<longrightarrow> rb_signatureStarted r" using row_of_key [OF a True row] started by simp
    then show ?thesis using True by (simp add: row_evolves_def put_update_def)
  qed simp
  moreover have "attempts scope' (toLowerCase j) w' = attempts scope' (toLowerCase j) w @
      (if scope_key scope' (toLowerCase j) = scope_key scope (rb_recordId r)
       then drop (length (attempts scope (rb_recordId r) w)) (rb_attemptIds r) else [])"
    unfolding w' by (rule attempts_put [OF _ _ refl]) (use inv put_written_inv [OF inv row refl] in \<open>simp_all only: store_inv_def\<close>)
  moreover have "operation_key a = scope_key scope' (toLowerCase j)" using operation_row_key [OF a] by simp
  moreover have "revision a = revision ?b \<longrightarrow> \<not> ?same" by (simp add: put_update_def)
  ultimately show ?thesis by (intro evolved [OF saved a b]) auto
qed

lemma evolves_with_new:
  assumes inv: "store_inv w" and inv': "store_inv (with_new scope r w)"
    and fresh: "scope_key scope (rb_recordId r) \<notin> operation_key ` set (db_operations w)"
    and saved: "getOperation scope' j w = Some s"
  shows "getOperation scope' j (with_new scope r w) = Some s"
proof -
  from saved obtain a where a: "operation_row scope' (toLowerCase j) w = Some a" "s = fromRow scope' a w"
    by (auto simp: getOperation_eq_Some)
  have other: "scope_key scope' (toLowerCase j) \<noteq> scope_key scope (rb_recordId r)"
    using operation_row_key [OF a(1)] fresh by (metis imageI)
  have row: "operation_row scope' (toLowerCase j) (with_new scope r w) = Some a"
    using a(1) by (simp add: operation_row_def with_new_def select_first_append)
  have "attempts_of (scope_key scope' (toLowerCase j)) (with_new scope r w) = attempts_of (scope_key scope' (toLowerCase j)) w"
    using other attempts_of_append [of "scope_key scope' (toLowerCase j)" w scope "rb_recordId r" 0 "rb_attemptIds r"]
    by (simp add: attempts_of_def with_new_def)
  then have "attempts scope' (toLowerCase j) (with_new scope r w) = attempts scope' (toLowerCase j) w"
    using attempts_eq [of w scope' "toLowerCase j"] attempts_eq [of "with_new scope r w" scope' "toLowerCase j"] inv inv'
    by (simp add: store_inv_def)
  then have "fromRow scope' a (with_new scope r w) = fromRow scope' a w"
    using operation_row_id [OF a(1)] by (simp add: fromRow_def)
  then show ?thesis using row a by (simp add: getOperation_def)
qed

lemma evolves_step:
  assumes step: "store_step x w w'" and inv: "store_inv w" and saved: "getOperation scope j w = Some s"
  shows "\<exists>t. getOperation scope j w' = Some t \<and> operation_evolves (x \<noteq> ReorgEvent) s t"
  using step
proof cases
  case (put scope' r e gate u)
  from put(2) show ?thesis
  proof (cases rule: put_commit_cases)
    case same
    with saved operation_evolves_refl show ?thesis by blast
  next
    case (written row)
    then show ?thesis using evolves_put_written [OF inv written(1,2,3) _ saved] operation_row_id [OF written(1)] by simp
  next
    case new
    have "store_inv w'" by (rule store_inv_step [OF step inv])
    then show ?thesis using evolves_with_new [OF inv _ new(2) saved] operation_evolves_refl unfolding new(1) by blast
  qed
next
  case (release scope' r e c gate u)
  show ?thesis
  proof (cases "w' = w")
    case True
    with saved operation_evolves_refl show ?thesis by blast
  next
    case False
    from release_row [OF release(2) False] obtain row where
      row: "operation_row scope' (rb_recordId (normalize_record r)) w = Some row" "\<not> terminal (row_status row)"
      and w': "w' = delete_reservation scope' (rb_inputId (normalize_record r)) (rb_recordId (normalize_record r))
        (update_operation scope' (rb_recordId (normalize_record r)) (release_update (normalize_record r) c) w)" by metis
    show ?thesis
    proof (rule evolved_update [OF saved touches_updates(2) _ _ refl])
      fix a assume "operation_row scope (toLowerCase j) w = Some a" "operation_key a = scope_key scope' (rb_recordId (normalize_record r))"
      then have "a = row" using row_of_key [OF _ _ row(1)] by blast
      then show "row_evolves (x \<noteq> ReorgEvent) a (release_update (normalize_record r) c a)"
        using row(2) by (simp add: row_evolves_def release_update_def)
    qed (simp_all add: w' operation_row_def attempts_def)
  qed
next
  case (reconcile scope' i before view gate u)
  from reconcile(2) show ?thesis
  proof (cases rule: reconcile_commit_cases)
    case same
    with saved operation_evolves_refl show ?thesis by blast
  next
    case (reorg c)
    then have "environment_stopped w'" by (simp add: environment_stopped_def update_operation_def stop_environment_def split: option.split)
    with reorg(1) reconcile(1) have x: "x = ReorgEvent" by simp
    show ?thesis
      by (rule evolved_update [OF saved touches_reconcile(2) _ _ refl])
        (simp_all add: x reorg(4) row_evolves_def reorg_update_def operation_row_def attempts_def update_operation_def
          stop_environment_def)
  next
    case (active c status checkpoint)
    from active(1,2) obtain row where row: "operation_row scope' (toLowerCase i) w = Some row" "\<not> terminal (row_status row)"
      by (auto simp: getOperation_eq_Some)
    show ?thesis
    proof (rule evolved_update [OF saved touches_reconcile(1) _ _ refl])
      fix a assume "operation_row scope (toLowerCase j) w = Some a" "operation_key a = scope_key scope' (toLowerCase i)"
      then have "a = row" using row_of_key [OF _ _ row(1)] by blast
      then show "row_evolves (x \<noteq> ReorgEvent) a (reconcile_update status (st_stateVersion c) checkpoint a)"
        using row(2) by (simp add: row_evolves_def reconcile_update_def)
    qed (simp_all add: active(3) operation_row_def attempts_def)
  qed
next
  case (initialize gate u)
  then show ?thesis using saved operation_evolves_refl environment_eq_Inr(1) [OF initialize(2)] getOperation_cong [of w' w] by auto
next
  case (restore gate u)
  then show ?thesis using saved operation_evolves_refl environment_eq_Inr(2) [OF restore(2)] getOperation_cong [of w' w] by auto
next
  case (restored gate acknowledged reconciled u)
  then show ?thesis using saved operation_evolves_refl environment_eq_Inr(3) [OF restored(2)] getOperation_cong [of w' w] by auto
next
  case other
  then show ?thesis using saved operation_evolves_refl getOperation_cong [of w' w] by auto
qed

text \<open>A reorganization stops the environment and puts one terminal operation back to unknown.\<close>

lemma reorg_effect:
  assumes "store_step ReorgEvent w w'" and "getOperation scope j w = Some s" and "getOperation scope j w' = Some t"
  shows "environment_stopped w' \<and> (st_status t = st_status s \<or> terminal (st_status s) \<and> st_status t = st_unknown)"
  using assms(1)
proof cases
  case (reconcile scope' i before view gate u)
  then have stopped: "environment_stopped w'" "\<not> environment_stopped w" by (simp_all split: if_splits)
  from reconcile(2) show ?thesis
  proof (cases rule: reconcile_commit_cases)
    case same
    with stopped show ?thesis by simp
  next
    case (reorg c)
    from assms(2) obtain a where a: "operation_row scope (toLowerCase j) w = Some a" "s = fromRow scope a w"
      by (auto simp: getOperation_eq_Some)
    have "operation_row scope (toLowerCase j) (stop_environment [] ''finalized-reorg'' w) = operation_row scope (toLowerCase j) w"
      by (simp add: operation_row_def stop_environment_def)
    then have "operation_row scope (toLowerCase j) w' =
        Some (if operation_key a = scope_key scope' (toLowerCase i) then reorg_update a else a)"
      using a(1) by (simp add: reorg(4) operation_row_update_key [OF touches_reconcile(2)])
    then have status: "st_status t = (if operation_key a = scope_key scope' (toLowerCase i) then st_unknown else st_status s)"
      using assms(3) a(2) by (auto simp: getOperation_eq_Some reorg_update_def)
    from reorg(2) obtain row where row: "operation_row scope' (toLowerCase i) w = Some row" "c = fromRow scope' row w"
      by (auto simp: getOperation_eq_Some)
    show ?thesis using status stopped(1) row_of_key [OF a(1) _ row(1)] reorg(3) row(2) a(2) by auto
  next
    case (active c status checkpoint)
    then have "environment_stopped w' = environment_stopped w"
      by (auto simp: environment_stopped_def update_operation_def delete_reservation_def)
    with stopped show ?thesis by simp
  qed
qed

end
