(* ===== verification/ServiceContract.thy ===== *)
theory ServiceContract
  imports ServiceSteps
begin

text \<open>
  The contract that the store's clients rely on, and what follows from it.  A versioned store keeps one value per
  key; a write names the version it replaces.  Both writes of the service, the put and the release of an operation,
  are such writes, and the store's other events only move versions forward, so no update is ever lost.
\<close>

locale versioned_store =
  fixes inv :: "'w \<Rightarrow> bool"
    and key :: "'r \<Rightarrow> 'k"
    and lookup :: "'k \<Rightarrow> 'w \<Rightarrow> 'v option"
    and version :: "'v \<Rightarrow> int"
    and holds :: "'v \<Rightarrow> 'r \<Rightarrow> bool"
    and put_at :: "'r \<Rightarrow> int \<Rightarrow> ('w, 'e, 'v) run"
  assumes write_inv: "inv w \<Longrightarrow> put_at r e w = (res, w') \<Longrightarrow> inv w'"
    and write_found: "inv w \<Longrightarrow> lookup (key r) w = Some u \<Longrightarrow> put_at r e w = (Inr v, w') \<Longrightarrow>
      v = u \<and> w' = w \<and> holds u r \<or> version u = e \<and> version v = e + 1 \<and> holds v r \<and> lookup (key r) w' = Some v"
    and write_new: "inv w \<Longrightarrow> lookup (key r) w = None \<Longrightarrow> put_at r e w = (Inr v, w') \<Longrightarrow>
      e = 0 \<and> version v = 1 \<and> holds v r \<and> lookup (key r) w' = Some v"
    and write_failed: "put_at r e w = (Inl x, w') \<Longrightarrow> w' = w"
begin

lemma written:
  assumes "inv w" and "put_at r e w = (Inr v, w')"
  shows "lookup (key r) w' = Some v" and "holds v r"
  using write_found [OF assms(1) _ assms(2)] write_new [OF assms(1) _ assms(2)]
  by (cases "lookup (key r) w"; auto)+

lemma stale_write:
  assumes "inv w" and "lookup (key r) w = Some u" and "e < version u" and "put_at r e w = (Inr v, w')"
  shows "v = u \<and> w' = w \<and> holds u r"
  using write_found [OF assms(1,2,4)] assms(3) by auto

end

text \<open>A store that is shared: between two writes, runs of other events move its versions forward.\<close>

locale shared_store = versioned_store inv key lookup version holds put_at
  for inv :: "'w \<Rightarrow> bool" and key :: "'r \<Rightarrow> 'k" and lookup :: "'k \<Rightarrow> 'w \<Rightarrow> 'v option" and version :: "'v \<Rightarrow> int"
    and holds :: "'v \<Rightarrow> 'r \<Rightarrow> bool" and put_at :: "'r \<Rightarrow> int \<Rightarrow> ('w, 'e, 'v) run" +
  fixes runs :: "'w \<Rightarrow> 'w \<Rightarrow> bool"
  assumes runs_inv: "inv w \<Longrightarrow> runs w w' \<Longrightarrow> inv w'"
    and runs_forward: "inv w \<Longrightarrow> runs w w' \<Longrightarrow> lookup k w = Some u \<Longrightarrow> \<exists>v. lookup k w' = Some v \<and> version u \<le> version v"
begin

text \<open>Two writers that read the same version: the second one succeeds only when its content is already there.\<close>

lemma no_lost_update:
  assumes "inv w" and first: "put_at r e w = (Inr v, w1)" "version v = e + 1"
    and between: "runs w1 w2" and second: "put_at q e w2 = (Inr u, w3)" and "key q = key r"
  shows "w3 = w2 \<and> lookup (key r) w2 = Some u \<and> holds u q"
proof -
  have inv1: "inv w1" by (rule write_inv [OF assms(1) first(1)])
  from runs_forward [OF inv1 between written(1) [OF assms(1) first(1)]]
  obtain t where t: "lookup (key r) w2 = Some t" "version v \<le> version t" by blast
  have "u = t \<and> w3 = w2 \<and> holds t q"
    by (rule stale_write [OF runs_inv [OF inv1 between] _ _ second]) (use t first(2) assms(6) in auto)
  with t(1) show ?thesis by simp
qed

end

section \<open>The writes of the service\<close>

definition request_key :: "Scope \<times> OperationRecord \<Rightarrow> Scope \<times> string" where
  "request_key q = (fst q, rb_recordId (normalize_record (snd q)))"

definition saved_at :: "Scope \<times> string \<Rightarrow> 'h Storage_scheme \<Rightarrow> StoredOperation option" where
  "saved_at k w = getOperation (fst k) (snd k) w"

definition put_transaction :: "RecoveryGate \<Rightarrow> Scope \<times> OperationRecord \<Rightarrow> int \<Rightarrow> ('h Storage_scheme, service_error, StoredOperation) run" where
  "put_transaction gate q e = transactionSync (put_commit (fst q) (normalize_record (snd q)) e (ensureWritable gate))"

definition content_saved :: "StoredOperation \<Rightarrow> Scope \<times> OperationRecord \<Rightarrow> bool" where
  "content_saved s q \<longleftrightarrow> sameImmutable (so_record s) (normalize_record (snd q)) \<and> sameMutable (so_record s) (normalize_record (snd q))"

text \<open>Any run of the store's events, reorganizations included.\<close>

definition steps :: "'h Storage_scheme \<Rightarrow> 'h Storage_scheme \<Rightarrow> bool" where
  "steps w w' \<longleftrightarrow> (\<exists>xs. store_run xs w w')"

lemma put_transaction_eq_Inr:
  "put_transaction gate q e w = (Inr v, w') \<longleftrightarrow> put_commit (fst q) (normalize_record (snd q)) e (ensureWritable gate) w = (Inr v, w')"
  by (simp add: put_transaction_def transactionSync_eq_Inr)

lemma put_transaction_inv: "store_inv w \<Longrightarrow> put_transaction gate q e w = (x, w') \<Longrightarrow> store_inv w'"
proof (cases x)
  case (Inl a)
  assume "store_inv w" "put_transaction gate q e w = (x, w')"
  then show ?thesis using Inl transactionSync_Inl unfolding put_transaction_def by metis
next
  case (Inr b)
  assume inv: "store_inv w" and put: "put_transaction gate q e w = (x, w')"
  have "store_step PutEvent w w'" using put unfolding Inr put_transaction_eq_Inr by (rule store_step.put)
  then show ?thesis using inv by (rule store_inv_step)
qed

lemma keeps_attempts_append:
  "keeps_attempts xs ys \<Longrightarrow> xs @ drop (length xs) ys = ys"
  by (rule nth_equalityI) (auto simp: keeps_attempts_def list_all_iff nth_append)

lemma written_content:
  assumes inv: "store_inv w" and c: "getOperation scope (rb_recordId r) w = Some c" and lower: "toLowerCase (rb_recordId r) = rb_recordId r"
    and same: "sameImmutable (so_record c) r" and keeps: "keeps_attempts (rb_attemptIds (so_record c)) (rb_attemptIds r)"
    and s: "getOperation scope (rb_recordId r) (put_written scope r (length (rb_attemptIds (so_record c))) w) = Some s"
  shows "so_revision s = so_revision c + 1" and "sameImmutable (so_record s) r \<and> sameMutable (so_record s) r"
proof -
  from c lower obtain row where row: "operation_row scope (rb_recordId r) w = Some row" "c = fromRow scope row w"
    by (auto simp: getOperation_eq_Some)
  let ?start = "length (rb_attemptIds (so_record c))"
  have start: "?start = length (attempts scope (rb_recordId r) w)" using row operation_row_id [OF row(1)] by simp
  have "operation_key row = scope_key scope (rb_recordId r)" using operation_row_key [OF row(1)] by simp
  then have "operation_row scope (rb_recordId r) (put_written scope r ?start w) = Some (put_update r row)"
    using row(1) by (simp add: operation_row_put_written operation_row_update_key [OF touches_updates(1)])
  then have s': "s = fromRow scope (put_update r row) (put_written scope r ?start w)"
    using s lower by (auto simp: getOperation_eq_Some)
  have "attempts_inv w" "attempts_inv (put_written scope r ?start w)"
    using inv put_written_inv [OF inv row(1) start] by (simp_all add: store_inv_def)
  then have "attempts scope (rb_recordId r) (put_written scope r ?start w) = rb_attemptIds r"
    using attempts_put [OF _ _ start, of scope "rb_recordId r"] keeps_attempts_append [OF keeps] row operation_row_id [OF row(1)]
    by simp
  moreover have "record_id (put_update r row) = rb_recordId r" using operation_row_id [OF row(1)] by (simp add: put_update_def)
  ultimately have "rb_attemptIds (so_record s) = rb_attemptIds r" by (simp add: s')
  then show "sameImmutable (so_record s) r \<and> sameMutable (so_record s) r"
    using same by (auto simp: s' row(2) sameImmutable_def sameMutable_def fromRow_def put_update_def)
  show "so_revision s = so_revision c + 1" by (simp add: s' row(2) put_update_def)
qed

lemma new_content:
  assumes inv: "store_inv w" and lower: "toLowerCase (rb_recordId r) = rb_recordId r" and put: "put_new scope r e w = (Inr s, w')"
  shows "so_revision s = 1" and "sameImmutable (so_record s) r \<and> sameMutable (so_record s) r"
proof -
  note new = put_new_eq_Inr [OF put]
  have inv': "store_inv (with_new scope r w)" by (rule store_inv_new [OF inv lower new(5-7)])
  have "operation_row scope (rb_recordId r) w = None"
    using new(5) by (force simp: operation_row_def select_first_eq_None)
  then have "operation_row scope (rb_recordId r) (with_new scope r w) = Some (new_row scope r)"
    using new_keys(1) [of scope r] by (simp add: operation_row_def with_new_def select_first_append) (simp add: select_first_def)
  then have s: "s = fromRow scope (new_row scope r) (with_new scope r w)"
    using new(4) lower unfolding new(3) by (auto simp: getOperation_eq_Some)
  have "attempts_of (scope_key scope (rb_recordId r)) w = []"
    using inv new(5) attempts_invD(2) [of w] unfolding store_inv_def attempts_of_def filter_empty_conv by metis
  then have "attempts_of (scope_key scope (rb_recordId r)) (with_new scope r w) = attempt_rows scope (rb_recordId r) 0 (rb_attemptIds r)"
    using attempts_of_append [of "scope_key scope (rb_recordId r)" w scope "rb_recordId r" 0 "rb_attemptIds r"]
    by (simp add: attempts_of_def with_new_def)
  then have "attempts scope (rb_recordId r) (with_new scope r w) = rb_attemptIds r"
    using attempts_eq [of "with_new scope r w" scope "rb_recordId r"] inv' attempt_rows_props(2) by (simp add: store_inv_def)
  then show "sameImmutable (so_record s) r \<and> sameMutable (so_record s) r"
    by (simp add: s sameImmutable_def sameMutable_def fromRow_def new_row_def same_kind_eq)
  show "so_revision s = 1" by (simp add: s fromRow_def new_row_def)
qed

lemma put_transaction_found:
  assumes inv: "store_inv w" and found: "saved_at (request_key q) w = Some c" and put: "put_transaction gate q e w = (Inr v, w')"
  shows "v = c \<and> w' = w \<and> content_saved c q \<or>
    so_revision c = e \<and> so_revision v = e + 1 \<and> content_saved v q \<and> saved_at (request_key q) w' = Some v"
proof -
  let ?r = "normalize_record (snd q)"
  have c: "getOperation (fst q) (rb_recordId ?r) w = Some c" using found by (simp add: saved_at_def request_key_def)
  then have existing: "put_existing (fst q) ?r e c w = (Inr v, w')"
    using put by (simp add: put_transaction_eq_Inr put_commit_eq_Inr)
  from put_existing_eq_Inr(2) [OF this] show ?thesis
  proof
    assume "sameMutable (so_record c) ?r \<and> w' = w \<and> v = c"
    then show ?thesis using put_existing_eq_Inr(1) [OF existing] by (simp add: content_saved_def)
  next
    assume written: "\<not> terminal (st_status c) \<and> so_revision c = e \<and> (rb_signatureStarted (so_record c) \<longrightarrow> rb_signatureStarted ?r) \<and>
      keeps_attempts (rb_attemptIds (so_record c)) (rb_attemptIds ?r) \<and>
      eb_nonce (rb_encryptedBundle (so_record c)) \<noteq> eb_nonce (rb_encryptedBundle ?r) \<and>
      w' = put_written (fst q) ?r (length (rb_attemptIds (so_record c))) w \<and> getOperation (fst q) (rb_recordId ?r) w' = Some v"
    then have keeps: "keeps_attempts (rb_attemptIds (so_record c)) (rb_attemptIds ?r)"
      and v: "getOperation (fst q) (rb_recordId ?r) (put_written (fst q) ?r (length (rb_attemptIds (so_record c))) w) = Some v"
      by auto
    show ?thesis
      using written written_content [OF inv c normalized_lower put_existing_eq_Inr(1) [OF existing] keeps v]
      by (intro disjI2) (auto simp: content_saved_def saved_at_def request_key_def)
  qed
qed

lemma put_transaction_new:
  assumes inv: "store_inv w" and missing: "saved_at (request_key q) w = None" and put: "put_transaction gate q e w = (Inr v, w')"
  shows "e = 0 \<and> so_revision v = 1 \<and> content_saved v q \<and> saved_at (request_key q) w' = Some v"
proof -
  have new: "put_new (fst q) (normalize_record (snd q)) e w = (Inr v, w')"
    using missing put by (simp add: put_transaction_eq_Inr put_commit_eq_Inr saved_at_def request_key_def)
  from put_new_eq_Inr(1,4) [OF new] new_content [OF inv normalized_lower new] show ?thesis
    by (simp add: content_saved_def saved_at_def request_key_def)
qed

lemma steps_inv: "store_inv w \<Longrightarrow> steps w w' \<Longrightarrow> store_inv w'"
proof -
  assume inv: "store_inv w" and "steps w w'"
  then obtain xs where "store_run xs w w'" by (auto simp: steps_def)
  then show ?thesis
    by (rule store_run_keeps [where P = "\<lambda>_. True"]) (use inv store_inv_step in \<open>auto simp: list_all_iff\<close>)
qed

lemma run_evolves:
  assumes "store_run xs w w'" and "store_inv w" and "getOperation scope i w = Some s"
  shows "\<exists>t. getOperation scope i w' = Some t \<and> operation_evolves (ReorgEvent \<notin> set xs) s t"
  using assms
proof (induction arbitrary: s rule: store_run.induct)
  case (nil w)
  then show ?case using operation_evolves_refl by blast
next
  case (cons x w w1 xs w2)
  obtain t where t: "getOperation scope i w1 = Some t" "operation_evolves (x \<noteq> ReorgEvent) s t"
    using evolves_step [OF cons.hyps(1) cons.prems(1,2)] by blast
  obtain u where "getOperation scope i w2 = Some u" "operation_evolves (ReorgEvent \<notin> set xs) t u"
    using cons.IH [OF store_inv_step [OF cons.hyps(1) cons.prems(1)] t(1)] by blast
  then show ?case using operation_evolves_trans [OF t(2)] by (fastforce simp: eq_commute [of ReorgEvent])
qed

lemma steps_forward:
  "store_inv w \<Longrightarrow> steps w w' \<Longrightarrow> saved_at k w = Some u \<Longrightarrow> \<exists>v. saved_at k w' = Some v \<and> so_revision u \<le> so_revision v"
  unfolding steps_def saved_at_def using run_evolves operation_evolvesD(4) by blast

interpretation puts: shared_store store_inv request_key saved_at so_revision content_saved "put_transaction gate" steps
  for gate :: RecoveryGate
proof unfold_locales
  fix w :: "'a Storage_scheme" and q e x w'
  show "put_transaction gate q e w = (Inl x, w') \<Longrightarrow> w' = w"
    unfolding put_transaction_def by (rule transactionSync_Inl)
qed (fact put_transaction_inv put_transaction_found put_transaction_new steps_inv steps_forward)+

section \<open>Releases\<close>

definition release_key :: "Scope \<times> OperationRecord \<times> FinalizedCheckpoint \<Rightarrow> Scope \<times> string" where
  "release_key q = request_key (fst q, fst (snd q))"

definition reserved_at :: "Scope \<times> string \<Rightarrow> 'h Storage_scheme \<Rightarrow> ReservedOperation option" where
  "reserved_at k w = map_option asReservation (saved_at k w)"

definition release_transaction :: "RecoveryGate \<Rightarrow> Scope \<times> OperationRecord \<times> FinalizedCheckpoint \<Rightarrow> int \<Rightarrow>
    ('h Storage_scheme, service_error, ReservedOperation) run" where
  "release_transaction gate q e = transactionSync (release_commit (fst q) (normalize_record (fst (snd q))) e (snd (snd q)) (ensureWritable gate))"

definition release_saved :: "ReservedOperation \<Rightarrow> Scope \<times> OperationRecord \<times> FinalizedCheckpoint \<Rightarrow> bool" where
  "release_saved s q \<longleftrightarrow> st_status s = st_released \<and> sameImmutable (so_record s) (normalize_record (fst (snd q))) \<and>
     sameMutable (so_record s) (normalize_record (fst (snd q)))"

lemma asReservation_fields [simp]:
  "so_record (asReservation s) = so_record s" "so_revision (asReservation s) = so_revision s"
  "st_status (asReservation s) = st_status s" "st_stateVersion (asReservation s) = st_stateVersion s"
  "st_checkpoint (asReservation s) = st_checkpoint s"
  by (simp_all add: asReservation_def StoredOperation.extend_def)

lemma release_transaction_eq_Inr:
  "release_transaction gate q e w = (Inr v, w') \<longleftrightarrow>
   release_commit (fst q) (normalize_record (fst (snd q))) e (snd (snd q)) (ensureWritable gate) w = (Inr v, w')"
  by (simp add: release_transaction_def transactionSync_eq_Inr)

lemma release_transaction_inv: "store_inv w \<Longrightarrow> release_transaction gate q e w = (x, w') \<Longrightarrow> store_inv w'"
proof (cases x)
  case (Inl a)
  assume "store_inv w" "release_transaction gate q e w = (x, w')"
  then show ?thesis using Inl transactionSync_Inl unfolding release_transaction_def by metis
next
  case (Inr b)
  assume inv: "store_inv w" and rel: "release_transaction gate q e w = (x, w')"
  have "store_step ReleaseEvent w w'" using rel unfolding Inr release_transaction_eq_Inr by (rule store_step.release)
  then show ?thesis using inv by (rule store_inv_step)
qed

lemma released_content:
  assumes c: "getOperation scope (rb_recordId r) w = Some c" and lower: "toLowerCase (rb_recordId r) = rb_recordId r"
    and same: "sameImmutable (so_record c) r" "rb_attemptIds (so_record c) = rb_attemptIds r" "rb_signatureStarted (so_record c) = rb_signatureStarted r"
    and s: "getOperation scope (rb_recordId r) (delete_reservation scope (rb_inputId r) (rb_recordId r)
      (update_operation scope (rb_recordId r) (release_update r cp) w)) = Some s"
  shows "so_revision s = so_revision c + 1 \<and> st_status s = st_released \<and> st_checkpoint s = Some cp \<and>
    sameImmutable (so_record s) r \<and> sameMutable (so_record s) r"
proof -
  from c lower obtain row where row: "operation_row scope (rb_recordId r) w = Some row" "c = fromRow scope row w"
    by (auto simp: getOperation_eq_Some)
  have "operation_key row = scope_key scope (rb_recordId r)" using operation_row_key [OF row(1)] by simp
  then have "operation_row scope (rb_recordId r) (update_operation scope (rb_recordId r) (release_update r cp) w) = Some (release_update r cp row)"
    using row(1) by (simp add: operation_row_update_key [OF touches_updates(2)])
  then have "s = fromRow scope (release_update r cp row) (update_operation scope (rb_recordId r) (release_update r cp) w)"
    using s lower by (auto simp: getOperation_eq_Some)
  then show ?thesis
    using same by (auto simp: row(2) sameImmutable_def sameMutable_def fromRow_def release_update_def)
qed

lemma release_transaction_found:
  assumes "store_inv w" and found: "reserved_at (release_key q) w = Some u" and rel: "release_transaction gate q e w = (Inr v, w')"
  shows "v = u \<and> w' = w \<and> release_saved u q \<or>
    so_revision u = e \<and> so_revision v = e + 1 \<and> release_saved v q \<and> reserved_at (release_key q) w' = Some v"
proof -
  let ?r = "normalize_record (fst (snd q))"
  obtain c where c: "getOperation (fst q) (rb_recordId ?r) w = Some c" "u = asReservation c"
    using found by (auto simp: reserved_at_def saved_at_def release_key_def request_key_def)
  have current: "release_current (fst q) ?r e (snd (snd q)) c w = (Inr v, w')"
    using rel c(1) by (simp add: release_transaction_eq_Inr release_commit_eq_Inr)
  note same = release_current_eq_Inr(1) [OF current]
  from release_current_eq_Inr(2) [OF current] show ?thesis
  proof (elim disjE conjE exE)
    fix saved
    assume d: "so_revision c = e" "rb_attemptIds (so_record c) = rb_attemptIds ?r" "rb_signatureStarted (so_record c) = rb_signatureStarted ?r"
      and w': "w' = delete_reservation (fst q) (rb_inputId ?r) (rb_recordId ?r) (update_operation (fst q) (rb_recordId ?r) (release_update ?r (snd (snd q))) w)"
      and saved: "getOperation (fst q) (rb_recordId ?r) w' = Some saved" "v = asReservation saved"
    have content: "so_revision saved = so_revision c + 1 \<and> st_status saved = st_released \<and> st_checkpoint saved = Some (snd (snd q)) \<and>
        sameImmutable (so_record saved) ?r \<and> sameMutable (so_record saved) ?r"
      by (rule released_content [OF c(1) normalized_lower same d(2,3)]) (use saved(1) w' in simp)
    then show ?thesis using d saved(1)
      by (intro disjI2) (simp add: saved(2) c(2) release_saved_def reserved_at_def saved_at_def release_key_def request_key_def)
  qed (use same in \<open>simp add: release_saved_def c(2)\<close>)
qed

lemma release_transaction_missing: "reserved_at (release_key q) w = None \<Longrightarrow> release_transaction gate q e w = (Inr v, w') \<Longrightarrow> False"
  by (auto simp: reserved_at_def saved_at_def release_key_def request_key_def release_transaction_eq_Inr release_commit_eq_Inr)

lemma steps_forward_reserved:
  "store_inv w \<Longrightarrow> steps w w' \<Longrightarrow> reserved_at k w = Some u \<Longrightarrow> \<exists>v. reserved_at k w' = Some v \<and> so_revision u \<le> so_revision v"
  using steps_forward by (fastforce simp: reserved_at_def)

interpretation releases: shared_store store_inv release_key reserved_at so_revision release_saved "release_transaction gate" steps
  for gate :: RecoveryGate
proof unfold_locales
  fix w :: "'a Storage_scheme" and q e x w'
  show "release_transaction gate q e w = (Inl x, w') \<Longrightarrow> w' = w"
    unfolding release_transaction_def by (rule transactionSync_Inl)
next
  fix w :: "'a Storage_scheme" and r e v w'
  show "reserved_at (release_key r) w = None \<Longrightarrow> release_transaction gate r e w = (Inr v, w') \<Longrightarrow>
      e = 0 \<and> so_revision v = 1 \<and> release_saved v r \<and> reserved_at (release_key r) w' = Some v"
    by (drule release_transaction_missing) simp_all
qed (fact release_transaction_inv release_transaction_found steps_inv steps_forward_reserved)+

section \<open>Requests\<close>

lemma steps_refl [simp]: "steps w w"
  unfolding steps_def using store_run.nil by blast

lemma steps_trans: "steps u v \<Longrightarrow> steps v w \<Longrightarrow> steps u w"
  unfolding steps_def using store_run_append by blast

lemma steps_one: "store_step x w w' \<Longrightarrow> steps w w'"
  unfolding steps_def using store_run.intros by blast

lemma put_transaction_steps: "transactionSync (put_commit scope (normalize_record r) e (ensureWritable gate)) w = (res, w') \<Longrightarrow> steps w w'"
  by (cases res) (auto simp: transactionSync_eq_Inr dest: transactionSync_Inl intro: steps_one store_step.put)

text \<open>While a request waits for its reader, other events may happen; the whole request is a run of events.\<close>

lemma putOperation_steps:
  assumes reader: "\<And>s i v res v'. readInput s i v = (res, v') \<Longrightarrow> steps v v'"
    and "putOperation readInput (ensureWritable gate) scope r e w = (res, w')"
  shows "steps w w'"
proof -
  have check: "steps v v'" if "check_new readInput scope (normalize_record r) v = (x, v')" for v x v'
    using that reader unfolding check_new_def ebind_def
    by (auto simp: ewhen_def split: if_splits prod.splits sum.splits)
  show ?thesis
    using assms(2) check put_transaction_steps steps_trans
    unfolding putOperation_def Let_def check_scope_def ebind_def
    by (auto simp: ewhen_def split: if_splits prod.splits sum.splits) (blast intro: steps_trans)+
qed

lemma releaseOperation_steps:
  "releaseOperation (ensureWritable gate) scope r e cp w = (res, w') \<Longrightarrow> steps w w'"
  unfolding releaseOperation_def Let_def check_scope_def ebind_ewhen
  by (cases res) (auto simp: transactionSync_eq_Inr dest: transactionSync_Inl intro: steps_one store_step.release split: if_splits)

lemma reconcileOperation_steps:
  assumes reader: "\<And>s r v res v'. readView s r v = (res, v') \<Longrightarrow> steps v v'"
    and "reconcileOperation readView (ensureWritable gate) scope i w = (res, w')"
  shows "steps w w'"
proof -
  have commit: "steps v v'" if "transactionSync (reconcile_commit scope (toLowerCase i) before view (ensureWritable gate)) v = (x, v')" for before view v x v'
    using that by (cases x) (auto simp: transactionSync_eq_Inr dest: transactionSync_Inl intro: steps_one store_step.reconcile)
  show ?thesis
    using assms(2) reader commit
    unfolding reconcileOperation_def Let_def ebind_def ecatch_def
    by (auto split: option.splits prod.splits sum.splits) (blast intro: steps_trans)+
qed

end
