(* ===== verification/ServiceAuth.thy ===== *)
theory ServiceAuth
  imports ServiceContract
begin

text \<open>
  \<open>apps/uniswap-service/src/auth.ts\<close> and \<open>config.ts\<close>: challenges, the sessions that answers to them open, and the
  deployments a service knows.  Sign-in messages (\<open>viem/siwe\<close>), signature verification, the hash of a session token
  and the random source are parameters.
\<close>

section \<open>Deployments\<close>

record DeploymentConfig =
  dc_origin :: string
  dc_siweUri :: string
  dc_chainId :: int
  dc_pool :: string
  dc_finalityMode :: FinalityMode

text \<open>The parts of a parsed URL that the service reads; \<open>None\<close> where \<open>new URL\<close> throws.\<close>

record ParsedUrl =
  pu_protocol :: string
  pu_origin :: string
  pu_host :: string

definition invalid_config :: service_error where
  "invalid_config = ServiceError ''INVALID_DEPLOYMENT_CONFIG''"

definition finality_mode_of :: "js_value \<Rightarrow> FinalityMode option" where
  "finality_mode_of v = (if v = JString ''finalized'' then Some finalized
     else if v = JString ''local-simulated'' then Some local_simulated else None)"

text \<open>\<open>new URL(value)\<close> of an entry of the catalog, which its cast presumes to be a string.\<close>

definition url_entry :: "(string \<Rightarrow> ParsedUrl option) \<Rightarrow> js_value \<Rightarrow> service_error + (string \<times> ParsedUrl)" where
  "url_entry new_URL v = (case v of
     JString s \<Rightarrow> (case new_URL s of Some u \<Rightarrow> Inr (s, u) | None \<Rightarrow> Inl (PortFailure ''TypeError''))
   | _ \<Rightarrow> Inl (PortFailure ''TypeError''))"

definition chain_id_of :: "js_value \<Rightarrow> int option" where
  "chain_id_of v = (case v of JNumber n \<Rightarrow> if safe_integer n \<and> integer_of n > 0 then Some (integer_of n) else None | _ \<Rightarrow> None)"

definition pool_of :: "js_value \<Rightarrow> string option" where
  "pool_of v = (case v of JString s \<Rightarrow> if bytes s 20 then Some s else None | _ \<Rightarrow> None)"

definition resolve_entry :: "(string \<Rightarrow> ParsedUrl option) \<Rightarrow> (string \<times> js_value) list \<Rightarrow> service_error + DeploymentConfig" where
  "resolve_entry new_URL entry = (case chain_id_of (property entry ''chainId'') of
     None \<Rightarrow> Inl invalid_config
   | Some chainId \<Rightarrow>
       rbind (url_entry new_URL (property entry ''origin'')) (\<lambda>(origin, o').
       rbind (url_entry new_URL (property entry ''siweUri'')) (\<lambda>(siweUri, s).
       case (pool_of (property entry ''pool''), finality_mode_of (property entry ''finalityMode'')) of
         (Some pool, Some mode) \<Rightarrow>
           if pu_protocol o' \<noteq> ''https:'' \<or> pu_origin o' \<noteq> origin \<or> pu_origin s \<noteq> pu_origin o' \<or>
              mode = local_simulated \<and> chainId \<noteq> 31337 then Inl invalid_config
           else Inr \<lparr>dc_origin = origin, dc_siweUri = siweUri, dc_chainId = chainId, dc_pool = pool, dc_finalityMode = mode\<rparr>
       | _ \<Rightarrow> Inl invalid_config)))"

definition resolveDeployment :: "(string \<Rightarrow> ParsedUrl option) \<Rightarrow> string \<Rightarrow> (string \<times> js_value) list \<Rightarrow> service_error + DeploymentConfig" where
  "resolveDeployment new_URL deploymentId catalog =
     (if deploymentId \<notin> fst ` set catalog then Inl (ServiceError ''UNKNOWN_DEPLOYMENT'') else
      case property catalog deploymentId of
        JObject entry \<Rightarrow> resolve_entry new_URL entry
      | JNull \<Rightarrow> Inl (PortFailure ''TypeError'')
      | _ \<Rightarrow> Inl invalid_config)"

definition parseDeploymentCatalog :: "(string \<Rightarrow> js_value option) \<Rightarrow> string \<Rightarrow> service_error + (string \<times> js_value) list" where
  "parseDeploymentCatalog JSON_parse source = (case JSON_parse source of
     None \<Rightarrow> Inl (PortFailure ''SyntaxError'')
   | Some (JObject entries) \<Rightarrow> Inr entries
   | Some _ \<Rightarrow> Inl invalid_config)"

section \<open>Challenges\<close>

definition CHALLENGE_MS :: int where "CHALLENGE_MS = 300000"
definition SESSION_MS :: int where "SESSION_MS = 1800000"

text \<open>The entries of a sign-in message; a time is in milliseconds.\<close>

record SiweMessage =
  siwe_address :: "string option"
  siwe_domain :: "string option"
  siwe_uri :: "string option"
  siwe_version :: "string option"
  siwe_chainId :: "int option"
  siwe_nonce :: "string option"
  siwe_issuedAt :: "int option"
  siwe_expirationTime :: "int option"

record 'w auth_ports =
  randomHex :: "('w, service_error, string) run"
  parseSiweMessage :: "string \<Rightarrow> SiweMessage option"
  createSiweMessage :: "SiweMessage \<Rightarrow> service_error + string"
  verifyMessage :: "string \<Rightarrow> string \<Rightarrow> string \<Rightarrow> ('w, service_error, bool) run"
  sha256 :: "string \<Rightarrow> string"

definition unauthenticated :: service_error where
  "unauthenticated = ServiceError ''UNAUTHENTICATED''"

definition insert_challenge :: "ChallengeRow \<Rightarrow> ('h Storage_scheme, service_error, unit) run" where
  "insert_challenge row = einsert (\<lambda>w. map_sum id (\<lambda>t. w\<lparr>db_challenges := t\<rparr>)
     (insert_row SqlConstraint challenge_id row (db_challenges w)))"

definition createChallenge :: "'h Storage_scheme auth_ports \<Rightarrow> Scope \<Rightarrow> int \<Rightarrow> ('h Storage_scheme, service_error, ChallengeRow) run" where
  "createChallenge ports scope nowMs =
     ebind (randomHex ports) (\<lambda>challengeId.
     ebind (randomHex ports) (\<lambda>nonce.
     let row = \<lparr>challenge_id = challengeId, ch_deployment_id = sc_deploymentId scope, ch_owner = toLowerCase (sc_owner scope),
           ch_nonce = nonce, issued_at_ms = nowMs, expires_at_ms = nowMs + CHALLENGE_MS, used_at_ms = None\<rparr>
     in ebind (insert_challenge row) (\<lambda>_. ereturn row)))"

definition canonical_fields :: "string \<Rightarrow> DeploymentConfig \<Rightarrow> ChallengeRow \<Rightarrow> string \<Rightarrow> SiweMessage" where
  "canonical_fields host config issued address = \<lparr>siwe_address = Some address, siwe_domain = Some host,
     siwe_uri = Some (dc_siweUri config), siwe_version = Some ''1'', siwe_chainId = Some (dc_chainId config),
     siwe_nonce = Some (ch_nonce issued), siwe_issuedAt = Some (issued_at_ms issued),
     siwe_expirationTime = Some (expires_at_ms issued)\<rparr>"

text \<open>The comparisons of the parsed message; the address is compared without case.\<close>

definition siwe_matches :: "string \<Rightarrow> DeploymentConfig \<Rightarrow> ChallengeRow \<Rightarrow> Scope \<Rightarrow> SiweMessage \<Rightarrow> bool" where
  "siwe_matches host config issued scope m \<longleftrightarrow> (case siwe_address m of None \<Rightarrow> False | Some a \<Rightarrow>
     toLowerCase a = toLowerCase (sc_owner scope)) \<and> siwe_chainId m = Some (dc_chainId config) \<and> siwe_domain m = Some host \<and>
     siwe_uri m = Some (dc_siweUri config) \<and> siwe_nonce m = Some (ch_nonce issued) \<and> siwe_version m = Some ''1'' \<and>
     siwe_issuedAt m = Some (issued_at_ms issued) \<and> siwe_expirationTime m = Some (expires_at_ms issued)"

definition challenge_of :: "string \<Rightarrow> 'h Storage_scheme \<Rightarrow> ChallengeRow option" where
  "challenge_of challengeId w = select_first (\<lambda>c. challenge_id c = challengeId) (db_challenges w)"

definition check_challenge :: "Scope \<Rightarrow> int \<Rightarrow> ChallengeRow option \<Rightarrow> service_error + ChallengeRow" where
  "check_challenge scope nowMs row = (case row of
     None \<Rightarrow> Inl unauthenticated
   | Some c \<Rightarrow>
       if ch_deployment_id c \<noteq> sc_deploymentId scope \<or> ch_owner c \<noteq> toLowerCase (sc_owner scope) then Inl unauthenticated
       else if used_at_ms c \<noteq> None then Inl (ServiceError ''CHALLENGE_USED'')
       else if nowMs \<ge> expires_at_ms c then Inl (ServiceError ''CHALLENGE_EXPIRED'')
       else Inr c)"

text \<open>The sign-in message against the challenge: the address that it names, if it is the canonical message.\<close>

definition check_message :: "'w auth_ports \<Rightarrow> string \<Rightarrow> DeploymentConfig \<Rightarrow> Scope \<Rightarrow> ChallengeRow \<Rightarrow> string \<Rightarrow> string \<Rightarrow> service_error + string" where
  "check_message ports host config scope issued message sg = (case parseSiweMessage ports message of
     None \<Rightarrow> Inl unauthenticated
   | Some m \<Rightarrow>
       if \<not> siwe_matches host config issued scope m then Inl unauthenticated
       else rbind (createSiweMessage ports (canonical_fields host config issued (the (siwe_address m)))) (\<lambda>canonical.
            if message \<noteq> canonical \<or> \<not> bytes sg 65 then Inl unauthenticated else Inr (the (siwe_address m))))"

text \<open>The condition of the \<open>UPDATE\<close>, and the transaction that uses the challenge and opens the session.\<close>

definition usable_challenge :: "string \<Rightarrow> int \<Rightarrow> ChallengeRow \<Rightarrow> bool" where
  "usable_challenge challengeId nowMs c \<longleftrightarrow> challenge_id c = challengeId \<and> used_at_ms c = None \<and> expires_at_ms c > nowMs"

definition insert_session :: "SessionRow \<Rightarrow> ('h Storage_scheme, service_error, unit) run" where
  "insert_session row = einsert (\<lambda>w. map_sum id (\<lambda>t. w\<lparr>db_sessions := t\<rparr>)
     (insert_row SqlConstraint session_hash row (db_sessions w)))"

definition open_session :: "Scope \<Rightarrow> string \<Rightarrow> string \<Rightarrow> int \<Rightarrow> ('h Storage_scheme, service_error, unit) run" where
  "open_session scope challengeId hash nowMs =
     ebind (equery (\<lambda>w. length (filter (usable_challenge challengeId nowMs) (db_challenges w)))) (\<lambda>rowsWritten.
     ebind (eupdate (\<lambda>w. w\<lparr>db_challenges := update_rows (usable_challenge challengeId nowMs)
       (\<lambda>c. c\<lparr>used_at_ms := Some nowMs\<rparr>) (db_challenges w)\<rparr>)) (\<lambda>_.
     ebind (ewhen (rowsWritten \<noteq> 1) (ServiceError ''CHALLENGE_USED'')) (\<lambda>_.
     insert_session \<lparr>session_hash = hash, se_deployment_id = sc_deploymentId scope, se_owner = toLowerCase (sc_owner scope),
       se_expires_at_ms = nowMs + SESSION_MS\<rparr>)))"

definition COOKIE_NAME :: string where "COOKIE_NAME = ''ecu_session''"

definition session_cookie :: "string \<Rightarrow> string" where
  "session_cookie token = COOKIE_NAME @ ''='' @ token @ ''; Secure; HttpOnly; SameSite=Strict; Path=/; Max-Age=1800''"

definition verifyChallenge :: "'h Storage_scheme auth_ports \<Rightarrow> string \<Rightarrow> DeploymentConfig \<Rightarrow> Scope \<Rightarrow> string \<Rightarrow> string \<Rightarrow> string \<Rightarrow> int \<Rightarrow>
    ('h Storage_scheme, service_error, string \<times> int) run" where
  "verifyChallenge ports host config scope challengeId message sg nowMs =
     ebind (equery (challenge_of challengeId)) (\<lambda>row.
     ebind (elift (check_challenge scope nowMs row)) (\<lambda>issued.
     ebind (elift (check_message ports host config scope issued message sg)) (\<lambda>address.
     ebind (ecast unauthenticated (verifyMessage ports address message sg)) (\<lambda>valid.
     ebind (ewhen (\<not> valid) unauthenticated) (\<lambda>_.
     ebind (randomHex ports) (\<lambda>token.
     ebind (transactionSync (open_session scope challengeId (sha256 ports token) nowMs)) (\<lambda>_.
     ereturn (session_cookie token, nowMs + SESSION_MS))))))))"

section \<open>Sessions\<close>

definition is_space :: "char \<Rightarrow> bool" where
  "is_space c = (let n = (of_char c :: nat) in n = 32 \<or> 9 \<le> n \<and> n \<le> 13 \<or> n = 160)"

text \<open>\<open>ecu_session=(0x[0-9a-fA-F]{64})(?:;|$)\<close> at the start of a text, and the search of the expression from left to right.\<close>

definition token_at :: "string \<Rightarrow> string option" where
  "token_at s = (let n = length COOKIE_NAME + 1; token = take 66 (drop n s); rest = drop (n + 66) s
     in if take n s = COOKIE_NAME @ ''='' \<and> bytes token 32 \<and> (rest = [] \<or> hd rest = CHR '';'') then Some token else None)"

fun token_after :: "string \<Rightarrow> string option" where
  "token_after [] = None"
| "token_after (c # s) = (case (if c = CHR '';'' then token_at (dropWhile is_space s) else None) of
     Some token \<Rightarrow> Some token | None \<Rightarrow> token_after s)"

definition session_token :: "string \<Rightarrow> string option" where
  "session_token cookie = (case token_at cookie of Some token \<Rightarrow> Some token | None \<Rightarrow> token_after cookie)"

definition readSessionIdentity :: "(string \<Rightarrow> string) \<Rightarrow> string option \<Rightarrow> int \<Rightarrow> 'h Storage_scheme \<Rightarrow> Scope option" where
  "readSessionIdentity hash cookie nowMs w =
     (case session_token (case cookie of None \<Rightarrow> [] | Some c \<Rightarrow> c) of
        None \<Rightarrow> None
      | Some token \<Rightarrow> (case select_first (\<lambda>s. session_hash s = hash token) (db_sessions w) of
          None \<Rightarrow> None
        | Some s \<Rightarrow> if nowMs \<ge> se_expires_at_ms s then None
                    else Some \<lparr>sc_deploymentId = se_deployment_id s, sc_owner = se_owner s\<rparr>))"

definition readSession :: "(string \<Rightarrow> string) \<Rightarrow> string option \<Rightarrow> Scope \<Rightarrow> int \<Rightarrow> 'h Storage_scheme \<Rightarrow> Scope option" where
  "readSession hash cookie scope nowMs w = (case readSessionIdentity hash cookie nowMs w of
     None \<Rightarrow> None
   | Some identity \<Rightarrow> if sc_deploymentId identity \<noteq> sc_deploymentId scope \<or> \<not> sameText (sc_owner identity) (sc_owner scope)
                      then None else Some scope)"

section \<open>A challenge opens one session\<close>

text \<open>What happens to the challenges: one is issued, one is used to open a session, or none is concerned.\<close>

datatype auth_event = Issued string | Opened string | OtherEvent

inductive auth_step :: "auth_event \<Rightarrow> 'h Storage_scheme \<Rightarrow> 'h Storage_scheme \<Rightarrow> bool" where
  issued: "insert_challenge row w = (Inr (), w') \<Longrightarrow> used_at_ms row = None \<Longrightarrow> auth_step (Issued (challenge_id row)) w w'"
| opened: "open_session scope challengeId hash nowMs w = (Inr (), w') \<Longrightarrow> auth_step (Opened challengeId) w w'"
| other: "db_challenges w' = db_challenges w \<Longrightarrow> auth_step OtherEvent w w'"

inductive auth_run :: "auth_event list \<Rightarrow> 'h Storage_scheme \<Rightarrow> 'h Storage_scheme \<Rightarrow> bool" where
  nil: "auth_run [] w w"
| cons: "auth_step x w w1 \<Longrightarrow> auth_run xs w1 w2 \<Longrightarrow> auth_run (x # xs) w w2"

inductive_cases auth_run_NilE: "auth_run [] w w'"
inductive_cases auth_run_ConsE: "auth_run (x # xs) w w'"

text \<open>While a signature is checked, other requests may run.\<close>

definition quiet_ports :: "'h Storage_scheme auth_ports \<Rightarrow> bool" where
  "quiet_ports ports \<longleftrightarrow> (\<forall>w. db_challenges (snd (randomHex ports w)) = db_challenges w) \<and>
     (\<forall>w token w'. randomHex ports w = (Inr token, w') \<longrightarrow> bytes token 32) \<and>
     (\<forall>a m s w. \<exists>xs. auth_run xs w (snd (verifyMessage ports a m s w)))"

definition distinct_challenges :: "'h Storage_scheme \<Rightarrow> bool" where
  "distinct_challenges w \<longleftrightarrow> distinct (map challenge_id (db_challenges w))"

definition challenge_used :: "string \<Rightarrow> 'h Storage_scheme \<Rightarrow> bool" where
  "challenge_used challengeId w \<longleftrightarrow> list_ex (\<lambda>c. challenge_id c = challengeId \<and> used_at_ms c \<noteq> None) (db_challenges w)"

lemma auth_run_append: "auth_run xs w w1 \<Longrightarrow> auth_run ys w1 w2 \<Longrightarrow> auth_run (xs @ ys) w w2"
  by (induction rule: auth_run.induct) (auto intro: auth_run.intros)

lemma auth_run_one: "auth_step x w w' \<Longrightarrow> auth_run [x] w w'"
  by (blast intro: auth_run.intros)

lemma insert_challenge_eq_Inr:
  "insert_challenge row w = (Inr u, w') \<longleftrightarrow>
   challenge_id row \<notin> challenge_id ` set (db_challenges w) \<and> w' = w\<lparr>db_challenges := db_challenges w @ [row]\<rparr>"
  by (auto simp: insert_challenge_def einsert_eq_Inr insert_row_def map_sum_def split: if_splits)

lemma open_session_challenges:
  assumes "open_session scope challengeId hash nowMs w = (Inr u, w')"
  shows "length (filter (usable_challenge challengeId nowMs) (db_challenges w)) = 1"
    and "db_challenges w' = update_rows (usable_challenge challengeId nowMs) (\<lambda>c. c\<lparr>used_at_ms := Some nowMs\<rparr>) (db_challenges w)"
  using assms
  by (auto simp: open_session_def statement_simps insert_session_def einsert_eq_Inr insert_row_def split: if_splits)

lemma usable_row:
  assumes "length (filter (usable_challenge challengeId nowMs) t) = 1"
  obtains c where "c \<in> set t" "usable_challenge challengeId nowMs c"
proof -
  from assms have "filter (usable_challenge challengeId nowMs) t \<noteq> []" by auto
  then show ?thesis using that by (auto simp: filter_empty_conv)
qed

lemma distinct_challenges_step: "auth_step x w w' \<Longrightarrow> distinct_challenges w \<Longrightarrow> distinct_challenges w'"
proof (induction rule: auth_step.induct)
  case (issued row w w')
  then show ?case by (simp add: insert_challenge_eq_Inr distinct_challenges_def)
next
  case (opened scope challengeId hash nowMs w w')
  then show ?case
    using open_session_challenges(2) [OF opened.hyps]
    by (simp add: distinct_challenges_def map_update_rows)
qed (simp add: distinct_challenges_def)

lemma challenge_used_step: "auth_step x w w' \<Longrightarrow> challenge_used i w \<Longrightarrow> challenge_used i w'"
proof (induction rule: auth_step.induct)
  case (issued row w w')
  then show ?case by (simp add: insert_challenge_eq_Inr challenge_used_def)
next
  case (opened scope challengeId hash nowMs w w')
  then show ?case
    using open_session_challenges(2) [OF opened.hyps]
    by (auto simp: challenge_used_def list_ex_iff set_update_rows usable_challenge_def intro!: rev_bexI)
qed (simp add: challenge_used_def)

lemma opened_once:
  assumes step: "auth_step (Opened i) w w'" and distinct: "distinct_challenges w"
  shows "\<not> challenge_used i w" and "challenge_used i w'"
proof -
  from step obtain scope hash nowMs where run: "open_session scope i hash nowMs w = (Inr (), w')"
    by cases auto
  from usable_row [OF open_session_challenges(1) [OF run]] obtain c where
    c: "c \<in> set (db_challenges w)" "usable_challenge i nowMs c" by blast
  show "\<not> challenge_used i w"
    using c distinct
    by (auto simp: challenge_used_def list_ex_iff distinct_challenges_def usable_challenge_def distinct_map dest: inj_onD)
  have "c\<lparr>used_at_ms := Some nowMs\<rparr> \<in> set (db_challenges w')"
    using c by (force simp: open_session_challenges(2) [OF run] set_update_rows)
  moreover have "challenge_id c = i" using c(2) by (simp add: usable_challenge_def)
  ultimately show "challenge_used i w'"
    unfolding challenge_used_def list_ex_iff by (intro bexI [of _ "c\<lparr>used_at_ms := Some nowMs\<rparr>"]) simp_all
qed

lemma distinct_challenges_run: "auth_run xs w w' \<Longrightarrow> distinct_challenges w \<Longrightarrow> distinct_challenges w'"
  by (induction rule: auth_run.induct) (simp_all add: distinct_challenges_step)

lemma challenge_used_run: "auth_run xs w w' \<Longrightarrow> challenge_used i w \<Longrightarrow> challenge_used i w'"
  by (induction rule: auth_run.induct) (simp_all add: challenge_used_step)

lemma used_never_opened:
  "auth_run xs w w' \<Longrightarrow> distinct_challenges w \<Longrightarrow> challenge_used i w \<Longrightarrow> Opened i \<notin> set xs"
proof (induction rule: auth_run.induct)
  case (cons x w w1 xs w2)
  have "x \<noteq> Opened i" using opened_once(1) cons.hyps(1) cons.prems by blast
  moreover have "Opened i \<notin> set xs"
    by (rule cons.IH) (rule distinct_challenges_step [OF cons.hyps(1) cons.prems(1)], rule challenge_used_step [OF cons.hyps(1) cons.prems(2)])
  ultimately show ?case by simp
qed simp

lemma auth_run_appendE:
  assumes "auth_run (xs @ ys) w w'"
  obtains w1 where "auth_run xs w w1" "auth_run ys w1 w'"
  using assms
proof (induction xs arbitrary: w thesis)
  case Nil
  then show ?case by (auto intro: auth_run.nil)
next
  case (Cons x xs)
  from Cons.prems(2) obtain w1 where w1: "auth_step x w w1" "auth_run (xs @ ys) w1 w'" by (auto elim: auth_run_ConsE)
  show ?case
  proof (rule Cons.IH [OF _ w1(2)])
    fix w2 assume "auth_run xs w1 w2" "auth_run ys w2 w'"
    with w1(1) show ?thesis using Cons.prems(1) auth_run.cons by blast
  qed
qed

lemma opened_by_run:
  assumes "auth_run (xs @ [Opened i]) w w'" and "distinct_challenges w"
  shows "distinct_challenges w' \<and> challenge_used i w'"
proof -
  from assms(1) obtain w1 where "auth_run xs w w1" and "auth_step (Opened i) w1 w'"
    by (elim auth_run_appendE auth_run_ConsE) (auto elim: auth_run_NilE)
  then show ?thesis
    using opened_once(2) distinct_challenges_run [OF assms(1,2)] distinct_challenges_run [OF _ assms(2)] by blast
qed

lemma challenge_of_used:
  assumes "distinct_challenges w"
  shows "challenge_used i w \<longleftrightarrow> (\<exists>c. challenge_of i w = Some c \<and> used_at_ms c \<noteq> None)"
proof
  assume "challenge_used i w"
  then obtain c where c: "c \<in> set (db_challenges w)" "challenge_id c = i" "used_at_ms c \<noteq> None"
    by (auto simp: challenge_used_def list_ex_iff)
  have "challenge_of i w = Some c"
    unfolding challenge_of_def
    by (rule select_first_unique [where key = challenge_id]) (use assms c in \<open>auto simp: distinct_challenges_def\<close>)
  with c(3) show "\<exists>c. challenge_of i w = Some c \<and> used_at_ms c \<noteq> None" by blast
next
  assume "\<exists>c. challenge_of i w = Some c \<and> used_at_ms c \<noteq> None"
  then obtain c where c: "challenge_of i w = Some c" "used_at_ms c \<noteq> None" by blast
  from select_first_eq_Some [OF c(1) [unfolded challenge_of_def]] c(2) show "challenge_used i w"
    by (auto simp: challenge_used_def list_ex_iff)
qed

text \<open>What a service that answers with a session has checked.\<close>

definition signed_in :: "'w auth_ports \<Rightarrow> string \<Rightarrow> DeploymentConfig \<Rightarrow> Scope \<Rightarrow> string \<Rightarrow> string \<Rightarrow> int \<Rightarrow> 'w \<Rightarrow> ChallengeRow \<Rightarrow> bool" where
  "signed_in ports host config scope message sg nowMs w c \<longleftrightarrow>
     ch_deployment_id c = sc_deploymentId scope \<and> ch_owner c = toLowerCase (sc_owner scope) \<and>
     used_at_ms c = None \<and> nowMs < expires_at_ms c \<and>
     (\<exists>m a. parseSiweMessage ports message = Some m \<and> siwe_matches host config c scope m \<and> siwe_address m = Some a \<and>
        toLowerCase a = toLowerCase (sc_owner scope) \<and>
        createSiweMessage ports (canonical_fields host config c a) = Inr message \<and>
        (\<exists>w'. verifyMessage ports a message sg w = (Inr True, w')))"

lemma check_challenge_eq_Inr:
  "check_challenge scope nowMs r = Inr c \<longleftrightarrow> r = Some c \<and> ch_deployment_id c = sc_deploymentId scope \<and>
     ch_owner c = toLowerCase (sc_owner scope) \<and> used_at_ms c = None \<and> nowMs < expires_at_ms c"
  by (auto simp: check_challenge_def split: option.splits if_splits)

lemma check_message_eq_Inr:
  "check_message ports host config scope c message sg = Inr a \<Longrightarrow>
   \<exists>m. parseSiweMessage ports message = Some m \<and> siwe_matches host config c scope m \<and> siwe_address m = Some a \<and>
     toLowerCase a = toLowerCase (sc_owner scope) \<and>
     createSiweMessage ports (canonical_fields host config c a) = Inr message"
  by (auto simp: check_message_def siwe_matches_def rbind_eq_Inr split: option.splits if_splits)

lemma verifyChallenge_success:
  assumes ports: "quiet_ports ports"
    and success: "verifyChallenge ports host config scope challengeId message sg nowMs w = (Inr r, w')"
  shows "\<exists>c xs. challenge_of challengeId w = Some c \<and> signed_in ports host config scope message sg nowMs w c \<and>
    auth_run (xs @ [Opened challengeId]) w w'"
proof -
  from success obtain c a w1 token w2 where
    c: "check_challenge scope nowMs (challenge_of challengeId w) = Inr c"
    and a: "check_message ports host config scope c message sg = Inr a"
    and valid: "verifyMessage ports a message sg w = (Inr True, w1)"
    and token: "randomHex ports w1 = (Inr token, w2)"
    and commit: "open_session scope challengeId (sha256 ports token) nowMs w2 = (Inr (), w')"
    unfolding verifyChallenge_def by (auto simp: eff_simps)
  have "\<exists>xs. auth_run xs w (snd (verifyMessage ports a message sg w))" using ports unfolding quiet_ports_def by blast
  then obtain xs where xs: "auth_run xs w w1" unfolding valid by auto
  have "db_challenges (snd (randomHex ports w1)) = db_challenges w1" using ports unfolding quiet_ports_def by blast
  then have "auth_run [OtherEvent] w1 w2" unfolding token by (intro auth_run_one auth_step.other) simp
  moreover have "auth_run [Opened challengeId] w2 w'" by (rule auth_run_one) (rule auth_step.opened [OF commit])
  ultimately have "auth_run ((xs @ [OtherEvent]) @ [Opened challengeId]) w w'"
    using xs by (blast intro: auth_run_append)
  moreover have "signed_in ports host config scope message sg nowMs w c"
    using c check_message_eq_Inr [OF a] valid unfolding check_challenge_eq_Inr signed_in_def by blast
  ultimately show ?thesis using c unfolding check_challenge_eq_Inr by blast
qed

lemma verifyChallenge_used:
  assumes "distinct_challenges w" and "challenge_used challengeId w"
  shows "\<exists>e. verifyChallenge ports host config scope challengeId message sg nowMs w = (Inl e, w) \<and>
    (e = unauthenticated \<or> e = ServiceError ''CHALLENGE_USED'')"
proof -
  from assms obtain c where c: "challenge_of challengeId w = Some c" "used_at_ms c \<noteq> None" by (auto simp: challenge_of_used)
  then show ?thesis by (simp add: verifyChallenge_def statement_simps check_challenge_def)
qed

section \<open>The session that a sign-in opens\<close>

lemma session_token_cookie:
  assumes "bytes token 32"
  shows "session_token (session_cookie token) = Some token"
proof -
  have n: "length token = 66" using assms by (simp add: bytes_def)
  let ?rest = "''; Secure; HttpOnly; SameSite=Strict; Path=/; Max-Age=1800''"
  have "take 66 (token @ ?rest) = token" "drop 66 (token @ ?rest) = ?rest" by (simp_all add: n)
  then have "token_at (COOKIE_NAME @ ''='' @ token @ ?rest) = Some token"
    using assms by (simp add: token_at_def COOKIE_NAME_def Let_def)
  then show ?thesis by (simp add: session_token_def session_cookie_def)
qed

lemma open_session_sessions:
  assumes "open_session scope challengeId hash nowMs w = (Inr u, w')"
  shows "hash \<notin> session_hash ` set (db_sessions w)"
    and "db_sessions w' = db_sessions w @ [\<lparr>session_hash = hash, se_deployment_id = sc_deploymentId scope,
      se_owner = toLowerCase (sc_owner scope), se_expires_at_ms = nowMs + SESSION_MS\<rparr>]"
  using assms
  by (auto simp: open_session_def statement_simps insert_session_def einsert_eq_Inr insert_row_def split: if_splits)

lemma session_readable:
  assumes token: "bytes token 32" and run: "open_session scope challengeId h nowMs w = (Inr u, w')" and "h = hash token"
  shows "readSession hash (Some (session_cookie token)) scope t w' = (if t < nowMs + SESSION_MS then Some scope else None)"
proof -
  note rows = open_session_sessions [OF run [unfolded assms(3)]]
  have "select_first (\<lambda>s. session_hash s = hash token) (db_sessions w) = None"
    using rows(1) by (force simp: select_first_eq_None)
  then have "select_first (\<lambda>s. session_hash s = hash token) (db_sessions w') =
      Some \<lparr>session_hash = hash token, se_deployment_id = sc_deploymentId scope,
        se_owner = toLowerCase (sc_owner scope), se_expires_at_ms = nowMs + SESSION_MS\<rparr>"
    unfolding rows(2) select_first_append by (simp add: select_first_def)
  then show ?thesis
    by (simp add: readSession_def readSessionIdentity_def session_token_cookie [OF token] sameText_def)
qed

lemma verifyChallenge_session:
  assumes ports: "quiet_ports ports"
    and success: "verifyChallenge ports host config scope challengeId message sg nowMs w = (Inr r, w')"
  shows "snd r = nowMs + SESSION_MS \<and>
    readSession (sha256 ports) (Some (fst r)) scope t w' = (if t < nowMs + SESSION_MS then Some scope else None)"
proof -
  from success obtain w1 token w2 where
    token: "randomHex ports w1 = (Inr token, w2)"
    and commit: "open_session scope challengeId (sha256 ports token) nowMs w2 = (Inr (), w')"
    and r: "r = (session_cookie token, nowMs + SESSION_MS)"
    unfolding verifyChallenge_def by (auto simp: eff_simps)
  have "bytes token 32" using ports token unfolding quiet_ports_def by blast
  from session_readable [where hash = "sha256 ports", OF this commit refl] r show ?thesis by simp
qed

text \<open>C39: A challenge is used at most once.  A sign-in that succeeds had a challenge of its own deployment and owner that
  was unused and not expired, and a message that is the canonical one for it, with a signature that was accepted.  Its cookie
  opens the scope until it expires.  Whatever happens to the challenges afterwards, the challenge opens no other session:
  every later attempt with it fails and changes nothing.  While a signature is checked, other sign-ins may run.\<close>

theorem challenge_used_once:
  assumes "distinct_challenges w" and "quiet_ports ports"
    and "verifyChallenge ports host config scope challengeId message sg nowMs w = (Inr r, w1)" and "auth_run xs w1 w2"
  shows "(\<exists>c. challenge_of challengeId w = Some c \<and> signed_in ports host config scope message sg nowMs w c) \<and>
    readSession (sha256 ports) (Some (fst r)) scope t w1 = (if t < nowMs + SESSION_MS then Some scope else None) \<and>
    Opened challengeId \<notin> set xs \<and>
    (\<exists>e. verifyChallenge ports' host' config' scope' challengeId message' sg' nowMs' w2 = (Inl e, w2) \<and>
      (e = unauthenticated \<or> e = ServiceError ''CHALLENGE_USED''))"
proof -
  obtain c ys where c: "challenge_of challengeId w = Some c" "signed_in ports host config scope message sg nowMs w c"
    and run: "auth_run (ys @ [Opened challengeId]) w w1"
    using verifyChallenge_success [OF assms(2,3)] by blast
  from opened_by_run [OF run assms(1)] have w1: "distinct_challenges w1" "challenge_used challengeId w1" by blast+
  have "distinct_challenges w2" "challenge_used challengeId w2"
    by (rule distinct_challenges_run [OF assms(4) w1(1)], rule challenge_used_run [OF assms(4) w1(2)])
  note later = verifyChallenge_used [OF this, of ports' host' config' scope' message' sg' nowMs']
  show ?thesis
    by (intro conjI) (use c verifyChallenge_session [OF assms(2,3)] used_never_opened [OF assms(4) w1] later in blast)+
qed

definition example_challenge :: ChallengeRow where
  "example_challenge = \<lparr>challenge_id = ''c1'', ch_deployment_id = ''d'', ch_owner = ''0xab'', ch_nonce = ''n'',
     issued_at_ms = 0, expires_at_ms = 300000, used_at_ms = None\<rparr>"

definition example_auth_store :: Storage where
  "example_auth_store = \<lparr>db_challenges = [example_challenge], db_sessions = [], db_operations = [], db_active_reservations = [],
     db_operation_attempts = [], db_environment_state = None, db_deploymentId = Some ''d''\<rparr>"

definition example_token :: string where
  "example_token = ''0x'' @ replicate 64 CHR ''a''"

definition example_config :: DeploymentConfig where
  "example_config = \<lparr>dc_origin = ''https://s'', dc_siweUri = ''https://s/'', dc_chainId = 31337, dc_pool = ''0x'' @ replicate 40 CHR ''1'',
     dc_finalityMode = local_simulated\<rparr>"

definition example_auth_ports :: "Storage auth_ports" where
  "example_auth_ports = \<lparr>randomHex = ereturn example_token,
     parseSiweMessage = (\<lambda>m. if m = ''hello'' then Some (canonical_fields ''s'' example_config example_challenge ''0xAB'') else None),
     createSiweMessage = (\<lambda>_. Inr ''hello''), verifyMessage = (\<lambda>_ _ _. ereturn True), sha256 = (\<lambda>s. s)\<rparr>"

definition example_signature :: string where
  "example_signature = ''0x'' @ replicate 130 CHR ''5''"

lemma example_auth_values: "bytes example_token 32" "bytes example_signature 65" "toLowerCase ''0xAB'' = ''0xab''"
  by code_simp+

lemma example_sign_in:
  "\<exists>r w. verifyChallenge example_auth_ports ''s'' example_config \<lparr>sc_deploymentId = ''d'', sc_owner = ''0xAB''\<rparr> ''c1'' ''hello''
     example_signature 5 example_auth_store = (Inr r, w)"
  by (simp add: verifyChallenge_def statement_simps challenge_of_def select_first_def check_challenge_def check_message_def
      siwe_matches_def canonical_fields_def example_auth_store_def example_challenge_def example_auth_ports_def
      example_auth_values example_config_def ebind_def ecast_def ecatch_def transactionSync_def open_session_def insert_session_def
      einsert_def insert_row_def usable_challenge_def ewhen_def)

lemma challenge_used_once_witness:
  "\<exists>w r. verifyChallenge example_auth_ports ''s'' example_config \<lparr>sc_deploymentId = ''d'', sc_owner = ''0xAB''\<rparr> ''c1'' ''hello''
     example_signature 5 example_auth_store = (Inr r, w) \<and>
   readSession (sha256 example_auth_ports) (Some (fst r)) \<lparr>sc_deploymentId = ''d'', sc_owner = ''0xAB''\<rparr> 1800004 w \<noteq> None \<and>
   (\<exists>e. verifyChallenge example_auth_ports ''s'' example_config \<lparr>sc_deploymentId = ''d'', sc_owner = ''0xAB''\<rparr> ''c1'' ''hello''
     example_signature 6 w = (Inl e, w))"
proof -
  from example_sign_in obtain r w where run: "verifyChallenge example_auth_ports ''s'' example_config
    \<lparr>sc_deploymentId = ''d'', sc_owner = ''0xAB''\<rparr> ''c1'' ''hello'' example_signature 5 example_auth_store = (Inr r, w)" by blast
  have distinct: "distinct_challenges example_auth_store" by (simp add: distinct_challenges_def example_auth_store_def)
  have quiet: "quiet_ports example_auth_ports"
    by (auto simp: quiet_ports_def example_auth_ports_def example_auth_values intro: auth_run.nil)
  note used = challenge_used_once [OF distinct quiet run auth_run.nil, where t = 1800004 and ports' = example_auth_ports
    and host' = "''s''" and config' = example_config and scope' = "\<lparr>sc_deploymentId = ''d'', sc_owner = ''0xAB''\<rparr>"
    and message' = "''hello''" and sg' = example_signature and nowMs' = 6]
  have "readSession (sha256 example_auth_ports) (Some (fst r)) \<lparr>sc_deploymentId = ''d'', sc_owner = ''0xAB''\<rparr> 1800004 w \<noteq> None"
    using used by (simp add: SESSION_MS_def)
  with used run show ?thesis by blast
qed

end
