(* ===== verification/ServiceObject.thy ===== *)
theory ServiceObject
  imports ServiceAuth
begin

text \<open>
  The object that serves one deployment (\<open>apps/uniswap-service/src/durable-object.ts\<close>), with the bodies of its requests
  and responses (\<open>http.ts\<close>), the reader of its inputs (\<open>core-reader.ts\<close>) and the worker in front of it (\<open>index.ts\<close>).
  The platform's parsers, the clock, the chain and the handlers of the reward routes are parameters.
\<close>

section \<open>Bodies\<close>

definition MAX_BODY_BYTES :: nat where "MAX_BODY_BYTES = 1048576"
definition MAX_BUNDLE_BYTES :: nat where "MAX_BUNDLE_BYTES = 524288"

record Response =
  resp_status :: int
  resp_headers :: "(string \<times> string) list"
  resp_body :: js_value

definition error_text :: "ErrorCode \<Rightarrow> string" where
  "error_text code = (case find (\<lambda>entry. snd entry = code) ERROR_CODES of Some entry \<Rightarrow> fst entry | None \<Rightarrow> [])"

definition apiError :: "int \<Rightarrow> ErrorCode \<Rightarrow> Response" where
  "apiError status code = \<lparr>resp_status = status, resp_headers = [(''Cache-Control'', ''no-store'')],
     resp_body = JObject [(''error'', JObject [(''code'', JString (error_text code)), (''message'', JString (error_text code)),
       (''allowedActions'', JArray [])])]\<rparr>"

definition apiSuccess :: "js_value \<Rightarrow> (string \<times> string) list \<Rightarrow> Response" where
  "apiSuccess body headers =
     \<lparr>resp_status = 200, resp_headers = (''Cache-Control'', ''no-store'') # headers, resp_body = body\<rparr>"

text \<open>The chunks of a body, read until they are more than the limit.\<close>

fun read_chunks :: "nat \<Rightarrow> octets list \<Rightarrow> service_error + octets" where
  "read_chunks n [] = Inr []"
| "read_chunks n (chunk # chunks) =
     (if n + length chunk > MAX_BODY_BYTES then Inl BodyTooLarge
      else rbind (read_chunks (n + length chunk) chunks) (\<lambda>rest. Inr (chunk @ rest)))"

definition readLimitedJson :: "(octets \<Rightarrow> string option) \<Rightarrow> (string \<Rightarrow> js_value option) \<Rightarrow> octets list option \<Rightarrow> service_error + js_value" where
  "readLimitedJson decode JSON_parse body = (case body of
     None \<Rightarrow> Inr JUndefined
   | Some chunks \<Rightarrow> rbind (read_chunks 0 chunks) (\<lambda>all. case decode all of
       None \<Rightarrow> Inl (PortFailure ''TypeError'')
     | Some source \<Rightarrow> (case JSON_parse source of None \<Rightarrow> Inl (PortFailure ''SyntaxError'') | Some v \<Rightarrow> Inr v)))"

text \<open>\<open>value?.name\<close> of a JSON value.\<close>

definition member :: "js_value \<Rightarrow> string \<Rightarrow> js_value" where
  "member v name = (case v of JObject entries \<Rightarrow> property entries name | _ \<Rightarrow> JUndefined)"

definition assertBundleSize :: "js_value \<Rightarrow> service_error + unit" where
  "assertBundleSize body = (case member (member (member body ''record'') ''encryptedBundle'') ''ciphertext'' of
     JString ciphertext \<Rightarrow> require (\<not> length ciphertext > 4 * ((MAX_BUNDLE_BYTES + 2) div 3)) BodyTooLarge
   | _ \<Rightarrow> Inr ())"

section \<open>The reader of inputs\<close>

fun read_observation :: "'a Observation \<Rightarrow> Checkpoint \<Rightarrow> 'a option" where
  "read_observation (Complete blockHash v) point = (if sameText blockHash (cp_hash point) then Some v else None)"
| "read_observation (Incomplete _) point = None"

definition matchesContext :: "Context \<Rightarrow> DeploymentConfig \<Rightarrow> bool" where
  "matchesContext ctx config \<longleftrightarrow> ctx_chainId ctx = dc_chainId config \<and> sameText (ctx_pool ctx) (dc_pool config) \<and>
     ctx_finalityMode ctx = dc_finalityMode config \<and> ctx_deploymentBlock ctx \<ge> 0"

definition classify_input :: "UtxoState \<Rightarrow> Scope \<Rightarrow> InputState" where
  "classify_input state scope =
     (if \<not> us_exists state then other_owner
      else if (case us_owner state of None \<Rightarrow> True | Some owner \<Rightarrow> \<not> sameText owner (sc_owner scope)) then other_owner
      else if us_consumedBy state \<noteq> None then spent_input
      else if us_commitment state = None then unknown_input else owned_unspent)"

text \<open>An observation that is read at its point, or the answer \<open>'unknown'\<close>.\<close>

definition observed :: "('w, 'a Observation) eff \<Rightarrow> Checkpoint \<Rightarrow> ('a \<Rightarrow> ('w, InputState) eff) \<Rightarrow> ('w, InputState) eff" where
  "observed port point k = ebind port (\<lambda>ob. case read_observation ob point of None \<Rightarrow> ereturn unknown_input | Some v \<Rightarrow> k v)"

definition read_latest :: "'w HistoryPort \<Rightarrow> DeploymentConfig \<Rightarrow> Scope \<Rightarrow> string \<Rightarrow> Context \<Rightarrow> Checkpoint \<Rightarrow> ('w, InputState) eff" where
  "read_latest history config scope inputId ctx latestPoint =
     observed (getContext history latestPoint) latestPoint (\<lambda>latestContext.
     if \<not> matchesContext latestContext config \<or> \<not> sameContext ctx latestContext then ereturn unknown_input else
     observed (getLatestUtxo history inputId latestPoint) latestPoint (\<lambda>atLatest.
     observed (getCanonicalHeader history (cp_number latestPoint) latestPoint) latestPoint (\<lambda>current.
     if hd_number current \<noteq> cp_number latestPoint \<or> \<not> sameText (hd_hash current) (cp_hash latestPoint) then ereturn unknown_input
     else ereturn (classify_input atLatest scope))))"

definition read_pinned :: "'w HistoryPort \<Rightarrow> DeploymentConfig \<Rightarrow> Scope \<Rightarrow> string \<Rightarrow> Checkpoint \<Rightarrow> ('w, InputState) eff" where
  "read_pinned history config scope inputId pinned =
     observed (getContext history pinned) pinned (\<lambda>ctx.
     if \<not> matchesContext ctx config \<or> cp_number pinned < ctx_deploymentBlock ctx then ereturn unknown_input else
     ebind (getLatestHeader history) (\<lambda>latest. case latest of None \<Rightarrow> ereturn unknown_input | Some header \<Rightarrow>
     if hd_number header < cp_number pinned then ereturn unknown_input else
     (let latestPoint = \<lparr>cp_number = hd_number header, cp_hash = hd_hash header, cp_mode = dc_finalityMode config\<rparr>
      in observed (getCanonicalHeader history (cp_number pinned) latestPoint) latestPoint (\<lambda>ancestor.
         if hd_number ancestor \<noteq> cp_number pinned \<or> \<not> sameText (hd_hash ancestor) (cp_hash pinned) then ereturn unknown_input else
         observed (getUtxo history inputId pinned) pinned (\<lambda>atFinalized.
         if classify_input atFinalized scope \<noteq> owned_unspent then ereturn (classify_input atFinalized scope)
         else read_latest history config scope inputId ctx latestPoint)))))"

definition readInput :: "'w HistoryPort \<Rightarrow> DeploymentConfig \<Rightarrow> Scope \<Rightarrow> string \<Rightarrow> ('w, 'e, InputState) run" where
  "readInput history config scope inputId =
     ecatch (ebind (getFinalizedCheckpoint history) (\<lambda>found. case found of None \<Rightarrow> ereturn unknown_input | Some pinned \<Rightarrow>
       if cp_mode pinned \<noteq> dc_finalityMode config then ereturn unknown_input
       else read_pinned history config scope inputId pinned)) (\<lambda>_. ereturn unknown_input)"

section \<open>Requests\<close>

record ServiceEnv =
  DEPLOYMENTS_JSON :: string
  RECOVERY_JSON :: string
  RPC_DEPLOYMENTS_JSON :: "string option"

text \<open>A request: its method, the origin and the rest of its URL, two of its headers, and the chunks of its body.\<close>

record ServiceRequest =
  rq_method :: string
  rq_origin :: string
  rq_path :: string
  rq_header_origin :: "string option"
  rq_cookie :: "string option"
  rq_body :: "octets list option"

record EthBlock =
  blk_number :: "int option"
  blk_hash :: "string option"
  blk_timestamp :: int

record 'w EthereumRuntime =
  rt_history :: "'w HistoryPort"
  rt_getBlock :: "string \<Rightarrow> ('w, service_error, EthBlock) run"

record 'w service_ports =
  sv_JSON_parse :: "string \<Rightarrow> js_value option"
  sv_decode :: "octets \<Rightarrow> string option"
  sv_config_URL :: "string \<Rightarrow> ParsedUrl option"
  sv_request_URL :: "string \<Rightarrow> Url pay_res"
  sv_now :: "'w \<Rightarrow> int"
  sv_auth :: "'w auth_ports"
  sv_provider :: "(string \<Rightarrow> DeploymentConfig \<Rightarrow> service_error + 'w HistoryPort) option"
  sv_runtime :: "string \<Rightarrow> DeploymentConfig \<Rightarrow> string option \<Rightarrow> ('w, service_error, 'w EthereumRuntime) run"
  sv_extensions :: "(ApiRoute \<times> (ParsedApiRequest \<Rightarrow> ('w, service_error, Response) run)) list"

definition read_body :: "'w service_ports \<Rightarrow> ServiceRequest \<Rightarrow> service_error + js_value" where
  "read_body ports rq = (if rq_method rq = ''GET'' then Inr JUndefined
     else readLimitedJson (sv_decode ports) (sv_JSON_parse ports) (rq_body rq))"

definition parse_with :: "'w service_ports \<Rightarrow> ServiceRequest \<Rightarrow> js_value \<Rightarrow> service_error + ParsedApiRequest" where
  "parse_with ports rq body = map_sum RequestError id (parseApiRequest (sv_request_URL ports) (rq_method rq) (rq_path rq) body True)"

definition read_request :: "'w service_ports \<Rightarrow> ServiceRequest \<Rightarrow> service_error + ParsedApiRequest" where
  "read_request ports rq = rbind (read_body ports rq) (parse_with ports rq)"

definition deployment_config :: "'w service_ports \<Rightarrow> ServiceEnv \<Rightarrow> string \<Rightarrow> service_error + DeploymentConfig" where
  "deployment_config ports env deploymentId =
     rbind (parseDeploymentCatalog (sv_JSON_parse ports) (DEPLOYMENTS_JSON env)) (resolveDeployment (sv_config_URL ports) deploymentId)"

text \<open>\<open>new URL(config.origin).host\<close>.\<close>

definition config_host :: "'w service_ports \<Rightarrow> DeploymentConfig \<Rightarrow> string" where
  "config_host ports config = (case sv_config_URL ports (dc_origin config) of Some url \<Rightarrow> pu_host url | None \<Rightarrow> [])"

definition loadEthereumHistory :: "'w service_ports \<Rightarrow> ServiceEnv \<Rightarrow> string \<Rightarrow> DeploymentConfig \<Rightarrow> ('w, service_error, 'w HistoryPort) run" where
  "loadEthereumHistory ports env deploymentId config =
     ebind (sv_runtime ports deploymentId config (RPC_DEPLOYMENTS_JSON env)) (\<lambda>runtime. ereturn (rt_history runtime))"

section \<open>Responses\<close>

definition text_of :: "(string \<times> 'a) list \<Rightarrow> 'a \<Rightarrow> js_value" where
  "text_of names x = (case find (\<lambda>entry. snd entry = x) names of Some entry \<Rightarrow> JString (fst entry) | None \<Rightarrow> JUndefined)"

definition json_checkpoint :: "FinalizedCheckpoint \<Rightarrow> js_value" where
  "json_checkpoint c = JObject [(''blockNumber'', JString (fc_blockNumber c)), (''blockHash'', JString (fc_blockHash c)),
     (''blockTimestamp'', JString (fc_blockTimestamp c))]"

fun json_kind :: "record_kind \<Rightarrow> (string \<times> js_value) list" where
  "json_kind (Pay paymentId deadline) = [(''kind'', JString ''pay''), (''paymentId'', JString paymentId),
     (''deadline'', JString (bigint_text deadline))]"
| "json_kind Withdraw = [(''kind'', JString ''withdraw'')]"

text \<open>\<open>{ ...item.record, deadline }\<close>: the record with its own scope; \<open>JSON.stringify\<close> leaves out what is undefined.\<close>

definition json_record :: "OperationRecord \<Rightarrow> js_value" where
  "json_record r = JObject ([(''recordId'', JString (rb_recordId r)), (''scope'', wire_scope (rb_scope r)),
     (''inputId'', JString (rb_inputId r)), (''operationId'', JString (rb_operationId r)),
     (''contentHash'', JString (rb_contentHash r)), (''encryptedBundle'', wire_bundle (rb_encryptedBundle r)),
     (''signatureStarted'', JBoolean (rb_signatureStarted r)),
     (''attemptIds'', JArray (map JString (rb_attemptIds r)))] @ json_kind (rec_kind r))"

definition json_operation :: "Scope \<Rightarrow> ReservedOperation \<Rightarrow> js_value" where
  "json_operation scope saved = JObject ([(''record'', json_record (so_record saved)), (''revision'', wire_number (so_revision saved)),
     (''status'', text_of OPERATION_STATUSES (st_status saved)), (''stateVersion'', wire_number (st_stateVersion saved)),
     (''reservationState'', JString (if ro_reservationState saved = active then ''active'' else ''released'')),
     (''scope'', wire_scope scope)] @
     (case st_checkpoint saved of None \<Rightarrow> [] | Some c \<Rightarrow> [(''checkpoint'', json_checkpoint c)]))"

definition json_page :: "Scope \<Rightarrow> Availability \<Rightarrow> StoredOperation list \<times> Bytes32 option \<Rightarrow> js_value" where
  "json_page scope availability page = JObject ([
     (''availability'', JString (if availability = healthy then ''healthy'' else ''rollback'')),
     (''records'', JArray (map (\<lambda>saved. json_operation scope (asReservation saved)) (fst page)))] @
     (case snd page of None \<Rightarrow> [] | Some cursor \<Rightarrow> [(''nextCursor'', JString cursor)]))"

definition json_challenge :: "ChallengeRow \<Rightarrow> js_value" where
  "json_challenge c = JObject [(''challengeId'', JString (challenge_id c)), (''nonce'', JString (ch_nonce c)),
     (''issuedAt'', wire_number (issued_at_ms c)), (''expiresAt'', wire_number (expires_at_ms c))]"

text \<open>The outer \<open>catch\<close>: the errors that have a status of their own.\<close>

definition ERROR_RESPONSES :: "(string \<times> int \<times> ErrorCode) list" where
  "ERROR_RESPONSES = [(''UNKNOWN_DEPLOYMENT'', 503, API_SERVICE_UNAVAILABLE), (''CHALLENGE_USED'', 401, API_CHALLENGE_USED),
     (''CHALLENGE_EXPIRED'', 401, API_CHALLENGE_EXPIRED), (''UNAUTHENTICATED'', 401, API_UNAUTHENTICATED),
     (''SCOPE_MISMATCH'', 403, API_SCOPE_MISMATCH), (''RESERVATION_CONFLICT'', 409, API_RESERVATION_CONFLICT),
     (''REVISION_CONFLICT'', 409, API_REVISION_CONFLICT), (''NOT_FOUND'', 404, API_NOT_FOUND),
     (''SERVICE_UNAVAILABLE'', 503, API_SERVICE_UNAVAILABLE), (''INVALID_RECOVERY_GATE'', 503, API_SERVICE_UNAVAILABLE)]"

fun failure_response :: "service_error \<Rightarrow> Response" where
  "failure_response BodyTooLarge = apiError 413 API_PAYLOAD_TOO_LARGE"
| "failure_response (ServiceError message) = (case map_of ERROR_RESPONSES message of
     Some (status, code) \<Rightarrow> apiError status code | None \<Rightarrow> apiError 400 API_INVALID_REQUEST)"
| "failure_response (PortFailure name) = (if name = ''InvalidAddressError'' \<or> name = ''InvalidSiweMessageError''
     then apiError 401 API_UNAUTHENTICATED else apiError 400 API_INVALID_REQUEST)"
| "failure_response (RequestError e) = apiError 400 API_INVALID_REQUEST"
| "failure_response SqlConstraint = apiError 400 API_INVALID_REQUEST"

abbreviation unavailable :: Response where
  "unavailable \<equiv> apiError 503 API_SERVICE_UNAVAILABLE"

section \<open>The handler\<close>

text \<open>\<open>try { x = await call } catch { return apiError(503, 'SERVICE_UNAVAILABLE') }\<close>, then the rest.\<close>

definition attempt_port :: "('w, 'x, 'a) run \<Rightarrow> ('a \<Rightarrow> ('w, 'e, Response) run) \<Rightarrow> ('w, 'e, Response) run" where
  "attempt_port call rest = ebind (ecatch (ebind call (\<lambda>a. ereturn (Some a))) (\<lambda>_. ereturn None)) (\<lambda>found. case found of
     None \<Rightarrow> ereturn unavailable | Some a \<Rightarrow> rest a)"

definition list_request :: "RecoveryGate \<Rightarrow> ParsedApiRequest \<Rightarrow> ('h Storage_scheme, service_error, Response) run" where
  "list_request gate parsed =
     ebind (equery (listOperations (pa_scope parsed) (pa_cursor parsed))) (\<lambda>page.
     ebind (equery (getAvailability gate)) (\<lambda>availability.
     ereturn (apiSuccess (json_page (pa_scope parsed) availability page) [])))"

definition get_request :: "ParsedApiRequest \<Rightarrow> ('h Storage_scheme, service_error, Response) run" where
  "get_request parsed = ebind (equery (getOperation (pa_scope parsed) (the (pa_id parsed)))) (\<lambda>found. case found of
     None \<Rightarrow> ereturn (apiError 404 API_NOT_FOUND)
   | Some saved \<Rightarrow> ereturn (apiSuccess (json_operation (pa_scope parsed) (asReservation saved)) []))"

definition release_with :: "RecoveryGate \<Rightarrow> ParsedApiRequest \<Rightarrow> FinalizedCheckpoint \<Rightarrow> ('h Storage_scheme, service_error, Response) run" where
  "release_with gate parsed checkpoint =
     ebind (releaseOperation (ensureWritable gate) (pa_scope parsed) (the (pa_record parsed)) (the (pa_expectedRevision parsed)) checkpoint)
       (\<lambda>saved. ereturn (apiSuccess (json_operation (pa_scope parsed) saved) []))"

text \<open>The block of the release, the end of the payment's term and its failure, all at the finalized point.\<close>

definition release_point :: "DeploymentConfig \<Rightarrow> ParsedApiRequest \<Rightarrow> Checkpoint option \<Rightarrow> Checkpoint option" where
  "release_point config parsed found = (case found of None \<Rightarrow> None | Some point \<Rightarrow>
     if cp_mode point \<noteq> dc_finalityMode config \<or> \<not> sameText (cp_hash point) (the (pa_blockHash parsed)) then None else Some point)"

definition block_confirms :: "Checkpoint \<Rightarrow> int \<Rightarrow> EthBlock \<Rightarrow> bool" where
  "block_confirms point deadline block \<longleftrightarrow> map_option toLowerCase (blk_hash block) = Some (toLowerCase (cp_hash point)) \<and>
     blk_number block = Some (cp_number point) \<and> blk_timestamp block > deadline"

definition not_executed :: "Checkpoint \<Rightarrow> OperationSuccess Observation \<Rightarrow> bool" where
  "not_executed point ob \<longleftrightarrow> (case read_observation ob point of None \<Rightarrow> False | Some success \<Rightarrow> \<not> os_executed success)"

definition release_finalized :: "'h Storage_scheme service_ports \<Rightarrow> ServiceEnv \<Rightarrow> DeploymentConfig \<Rightarrow> RecoveryGate \<Rightarrow> ParsedApiRequest \<Rightarrow>
    OperationRecord \<Rightarrow> int \<Rightarrow> ('h Storage_scheme, service_error, Response) run" where
  "release_finalized ports env config gate parsed rec deadline =
     attempt_port (sv_runtime ports (sc_deploymentId (pa_scope parsed)) config (RPC_DEPLOYMENTS_JSON env)) (\<lambda>runtime.
     attempt_port (getFinalizedCheckpoint (rt_history runtime)) (\<lambda>found.
     case release_point config parsed found of None \<Rightarrow> ereturn unavailable | Some point \<Rightarrow>
     attempt_port (rt_getBlock runtime (if dc_finalityMode config = local_simulated then ''latest'' else ''finalized'')) (\<lambda>block.
     if \<not> block_confirms point deadline block then ereturn unavailable else
     attempt_port (getOperationSuccess (rt_history runtime) (rb_operationId rec) point) (\<lambda>success.
     if \<not> not_executed point success then ereturn unavailable else
     ebind (readInput (rt_history runtime) config (pa_scope parsed) (rb_inputId rec)) (\<lambda>input.
     if input \<noteq> owned_unspent then ereturn unavailable else
     release_with gate parsed \<lparr>fc_blockNumber = bigint_text (cp_number point), fc_blockHash = cp_hash point,
       fc_blockTimestamp = bigint_text (blk_timestamp block)\<rparr>)))))"

definition release_request :: "'h Storage_scheme service_ports \<Rightarrow> ServiceEnv \<Rightarrow> DeploymentConfig \<Rightarrow> RecoveryGate \<Rightarrow> ParsedApiRequest \<Rightarrow>
    ('h Storage_scheme, service_error, Response) run" where
  "release_request ports env config gate parsed =
     ebind (ensureWritable gate) (\<lambda>_.
     ebind (equery (getOperation (pa_scope parsed) (the (pa_id parsed)))) (\<lambda>found. case found of
       None \<Rightarrow> ereturn (apiError 404 API_NOT_FOUND)
     | Some current \<Rightarrow> (case rec_kind (so_record current) of
         Withdraw \<Rightarrow> ereturn (apiError 409 API_RESERVATION_CONFLICT)
       | Pay paymentId deadline \<Rightarrow> (case (st_status current, st_checkpoint current) of
           (st_released, Some checkpoint) \<Rightarrow> release_with gate parsed checkpoint
         | _ \<Rightarrow> release_finalized ports env config gate parsed (so_record current) deadline))))"

definition history_for :: "'w service_ports \<Rightarrow> ServiceEnv \<Rightarrow> string \<Rightarrow> DeploymentConfig \<Rightarrow> ('w, service_error, 'w HistoryPort) run" where
  "history_for ports env deploymentId config = (case sv_provider ports of
     None \<Rightarrow> loadEthereumHistory ports env deploymentId config
   | Some provider \<Rightarrow> elift (provider deploymentId config))"

definition put_request :: "'h Storage_scheme service_ports \<Rightarrow> ServiceEnv \<Rightarrow> DeploymentConfig \<Rightarrow> RecoveryGate \<Rightarrow> ParsedApiRequest \<Rightarrow>
    ('h Storage_scheme, service_error, Response) run" where
  "put_request ports env config gate parsed =
     ebind (ensureWritable gate) (\<lambda>_.
     attempt_port (history_for ports env (sc_deploymentId (pa_scope parsed)) config) (\<lambda>history.
     ebind (putOperation (readInput history config) (ensureWritable gate) (pa_scope parsed) (the (pa_record parsed))
         (the (pa_expectedRevision parsed)))
       (\<lambda>saved. ereturn (apiSuccess (json_operation (pa_scope parsed) (asReservation saved)) []))))"

definition is_get :: "ApiRoute \<Rightarrow> bool" where
  "is_get route \<longleftrightarrow> route \<in> {GET_operations, GET_operation, GET_rewards, GET_reward}"

definition extension_request :: "'h Storage_scheme service_ports \<Rightarrow> RecoveryGate \<Rightarrow> ParsedApiRequest \<Rightarrow>
    ('h Storage_scheme, service_error, Response) run" where
  "extension_request ports gate parsed = (case map_of (sv_extensions ports) (pa_route parsed) of
     None \<Rightarrow> ereturn unavailable
   | Some handle \<Rightarrow> ebind (if is_get (pa_route parsed) then ereturn () else ensureWritable gate) (\<lambda>_. handle parsed))"

text \<open>The routes that need a session.\<close>

definition session_request :: "'h Storage_scheme service_ports \<Rightarrow> ServiceEnv \<Rightarrow> DeploymentConfig \<Rightarrow> RecoveryGate \<Rightarrow> ParsedApiRequest \<Rightarrow>
    ('h Storage_scheme, service_error, Response) run" where
  "session_request ports env config gate parsed = (case pa_route parsed of
     GET_operations \<Rightarrow> list_request gate parsed
   | GET_operation \<Rightarrow> get_request parsed
   | POST_release \<Rightarrow> release_request ports env config gate parsed
   | PUT_operation \<Rightarrow> put_request ports env config gate parsed
   | _ \<Rightarrow> extension_request ports gate parsed)"

definition authorized_request :: "'h Storage_scheme service_ports \<Rightarrow> ServiceEnv \<Rightarrow> ServiceRequest \<Rightarrow> DeploymentConfig \<Rightarrow> RecoveryGate \<Rightarrow>
    ParsedApiRequest \<Rightarrow> ('h Storage_scheme, service_error, Response) run" where
  "authorized_request ports env rq config gate parsed =
     ebind (equery (\<lambda>w. readSessionIdentity (sha256 (sv_auth ports)) (rq_cookie rq) (sv_now ports w) w)) (\<lambda>identity. case identity of
       None \<Rightarrow> ereturn (apiError 401 API_UNAUTHENTICATED)
     | Some s \<Rightarrow>
         if sc_deploymentId s \<noteq> sc_deploymentId (pa_scope parsed) \<or> \<not> sameText (sc_owner s) (sc_owner (pa_scope parsed))
         then ereturn (apiError 403 API_SCOPE_MISMATCH)
         else session_request ports env config gate parsed)"

definition challenge_request :: "'h Storage_scheme service_ports \<Rightarrow> ParsedApiRequest \<Rightarrow> ('h Storage_scheme, service_error, Response) run" where
  "challenge_request ports parsed =
     ebind (equery (sv_now ports)) (\<lambda>now.
     ebind (createChallenge (sv_auth ports) (pa_scope parsed) now) (\<lambda>issued. ereturn (apiSuccess (json_challenge issued) [])))"

definition verify_request :: "'h Storage_scheme service_ports \<Rightarrow> DeploymentConfig \<Rightarrow> ParsedApiRequest \<Rightarrow> ('h Storage_scheme, service_error, Response) run" where
  "verify_request ports config parsed =
     ebind (equery (sv_now ports)) (\<lambda>now.
     ebind (verifyChallenge (sv_auth ports) (config_host ports config) config (pa_scope parsed) (the (pa_challengeId parsed))
         (the (pa_siweMessage parsed)) (the (pa_signature parsed)) now)
       (\<lambda>(cookie, expiresAt). ereturn (apiSuccess (JObject [(''sessionExpiresAt'', wire_number expiresAt)]) [(''Set-Cookie'', cookie)])))"

definition route_handler :: "'h Storage_scheme service_ports \<Rightarrow> ServiceEnv \<Rightarrow> ServiceRequest \<Rightarrow> DeploymentConfig \<Rightarrow> RecoveryGate \<Rightarrow>
    ParsedApiRequest \<Rightarrow> ('h Storage_scheme, service_error, Response) run" where
  "route_handler ports env rq config gate parsed = (case pa_route parsed of
     POST_challenge \<Rightarrow> challenge_request ports parsed
   | POST_verify \<Rightarrow> verify_request ports config parsed
   | _ \<Rightarrow> authorized_request ports env rq config gate parsed)"

definition foreign_origin :: "ServiceRequest \<Rightarrow> DeploymentConfig \<Rightarrow> bool" where
  "foreign_origin rq config \<longleftrightarrow> rq_origin rq \<noteq> dc_origin config \<or>
     rq_method rq \<noteq> ''GET'' \<and> rq_header_origin rq \<noteq> Some (dc_origin config)"

text \<open>An object is bound to the deployment of its first request.\<close>

definition bind_deployment :: "string \<Rightarrow> 'h Storage_scheme \<Rightarrow> 'h Storage_scheme" where
  "bind_deployment deploymentId w = (case db_deploymentId w of None \<Rightarrow> w\<lparr>db_deploymentId := Some deploymentId\<rparr> | Some _ \<Rightarrow> w)"

definition handle_request :: "'h Storage_scheme service_ports \<Rightarrow> ServiceEnv \<Rightarrow> ServiceRequest \<Rightarrow> ('h Storage_scheme, service_error, Response) run" where
  "handle_request ports env rq =
     ebind (elift (read_request ports rq)) (\<lambda>parsed.
     let deploymentId = sc_deploymentId (pa_scope parsed)
     in ebind (elift (deployment_config ports env deploymentId)) (\<lambda>config.
        ebind (elift (resolveRecoveryGate (sv_JSON_parse ports) (RECOVERY_JSON env) deploymentId)) (\<lambda>gate.
        ebind (equery db_deploymentId) (\<lambda>bound.
        if bound \<noteq> None \<and> bound \<noteq> Some deploymentId then ereturn (apiError 403 API_SCOPE_MISMATCH) else
        ebind (eupdate (bind_deployment deploymentId)) (\<lambda>_.
        if foreign_origin rq config then ereturn (apiError 403 API_SCOPE_MISMATCH)
        else route_handler ports env rq config gate parsed)))))"

definition service_fetch :: "'h Storage_scheme service_ports \<Rightarrow> ServiceEnv \<Rightarrow> ServiceRequest \<Rightarrow> ('h Storage_scheme, service_error, Response) run" where
  "service_fetch ports env rq = ecatch (handle_request ports env rq) (\<lambda>e. ereturn (failure_response e))"

text \<open>The operator's first call on an object, and its alarm; the alarms of the extensions are the argument.\<close>

definition initializeForDeployment :: "'h Storage_scheme service_ports \<Rightarrow> ServiceEnv \<Rightarrow> string \<Rightarrow> ('h Storage_scheme, service_error, unit) run" where
  "initializeForDeployment ports env deploymentId =
     ebind (elift (deployment_config ports env deploymentId)) (\<lambda>_.
     ebind (elift (resolveRecoveryGate (sv_JSON_parse ports) (RECOVERY_JSON env) deploymentId)) (\<lambda>gate.
     ebind (equery db_deploymentId) (\<lambda>bound.
     ebind (ewhen (bound \<noteq> None \<and> bound \<noteq> Some deploymentId) (ServiceError ''SCOPE_MISMATCH'')) (\<lambda>_.
     ebind (eupdate (bind_deployment deploymentId)) (\<lambda>_.
     initializeEnvironment gate)))))"

definition alarm :: "'h Storage_scheme service_ports \<Rightarrow> ServiceEnv \<Rightarrow> (DeploymentConfig \<Rightarrow> ('h Storage_scheme, service_error, unit) run) list \<Rightarrow>
    ('h Storage_scheme, service_error, unit) run" where
  "alarm ports env extensions =
     ebind (equery db_deploymentId) (\<lambda>bound. case bound of
       None \<Rightarrow> ethrow (ServiceError ''UNKNOWN_DEPLOYMENT'')
     | Some deploymentId \<Rightarrow>
         ebind (elift (resolveRecoveryGate (sv_JSON_parse ports) (RECOVERY_JSON env) deploymentId)) (\<lambda>gate.
         ebind (elift (deployment_config ports env deploymentId)) (\<lambda>config.
         ebind (ensureWritable gate) (\<lambda>_.
         efoldM (\<lambda>_ extension. extension config) () extensions))))"

section \<open>The worker\<close>

text \<open>The worker reads the body once, checks it, and forwards the request with the body written again.\<close>

definition worker_failure :: "service_error \<Rightarrow> Response" where
  "worker_failure e = (if e = BodyTooLarge then apiError 413 API_PAYLOAD_TOO_LARGE
     else if e = ServiceError ''UNKNOWN_DEPLOYMENT'' then unavailable else apiError 400 API_INVALID_REQUEST)"

definition worker_request :: "'w service_ports \<Rightarrow> (js_value \<Rightarrow> octets list) \<Rightarrow> (string \<Rightarrow> ServiceRequest \<Rightarrow> ('v, 'x, Response) run) \<Rightarrow>
    ServiceEnv \<Rightarrow> ServiceRequest \<Rightarrow> ('v, service_error, Response) run" where
  "worker_request ports JSON_stringify object_fetch env rq =
     ebind (elift (read_body ports rq)) (\<lambda>body.
     ebind (elift (assertBundleSize body)) (\<lambda>_.
     ebind (elift (parse_with ports rq body)) (\<lambda>parsed.
     ebind (elift (deployment_config ports env (sc_deploymentId (pa_scope parsed)))) (\<lambda>config.
     if foreign_origin rq config then ereturn (apiError 403 API_SCOPE_MISMATCH) else
     attempt_port (object_fetch (sc_deploymentId (pa_scope parsed))
         (rq\<lparr>rq_body := (if body = JUndefined then None else Some (JSON_stringify body))\<rparr>)) ereturn))))"

definition worker_fetch :: "'w service_ports \<Rightarrow> (js_value \<Rightarrow> octets list) \<Rightarrow> (string \<Rightarrow> ServiceRequest \<Rightarrow> ('v, 'x, Response) run) \<Rightarrow>
    ServiceEnv \<Rightarrow> ServiceRequest \<Rightarrow> ('v, service_error, Response) run" where
  "worker_fetch ports JSON_stringify object_fetch env rq =
     ecatch (worker_request ports JSON_stringify object_fetch env rq) (\<lambda>e. ereturn (worker_failure e))"

end
