(* ===== verification/ServiceClient.thy ===== *)
theory ServiceClient
  imports ServiceObject
begin

text \<open>
  \<open>packages/cli/src/service-client.ts\<close>: the client of the service.  Its transport, the signer, the clock and the
  platform's parsers are parameters; the cookie of the session is the client's own state, beside the world.  A
  \<open>ServiceClientError\<close> is the \<open>PortError\<close> of its code, as the payment process sees it.
\<close>

record HttpRequest =
  hq_method :: string
  hq_path :: string
  hq_json :: bool
  hq_origin :: "string option"
  hq_cookie :: "string option"
  hq_body :: "js_value option"

record HttpResponse =
  hs_status :: int
  hs_text :: string
  hs_setCookie :: "string option"

record 'w Client =
  cl_cookie :: "string option"
  cl_world :: 'w

type_synonym ('w, 'a) client_run = "('w Client, pay_error, 'a) run"

text \<open>The parts of a parsed URL that the client checks.\<close>

record ClientUrl =
  cu_url :: ParsedUrl
  cu_username :: string
  cu_password :: string
  cu_keys :: "string list"

record 'w ServiceClientOptions =
  op_baseUrl :: string
  op_origin :: string
  op_siweUri :: string
  op_chainId :: int
  op_scope :: Scope
  op_address :: string
  op_signMessage :: "string \<Rightarrow> ('w, pay_error, string) run"
  op_fetch :: "HttpRequest \<Rightarrow> ('w, pay_error, HttpResponse) run"
  op_now :: "'w \<Rightarrow> int"
  op_new_URL :: "string \<Rightarrow> ClientUrl option"
  op_JSON_parse :: "string \<Rightarrow> js_value option"
  op_searchParams :: "(string \<times> string) list \<Rightarrow> string"
  op_createSiwe :: "SiweMessage \<Rightarrow> pay_error + string"

definition client_error :: "string \<Rightarrow> pay_error" where
  "client_error code = PortError code"

abbreviation protocol_error :: pay_error where
  "protocol_error \<equiv> client_error ''SERVICE_PROTOCOL_ERROR''"

text \<open>The loop of the pages is run with fuel; this is not an error of the code.\<close>

definition unfinished :: pay_error where
  "unfinished = PortError ''unfinished''"

fun contains_text :: "string \<Rightarrow> string \<Rightarrow> bool" where
  "contains_text word [] = (word = [])"
| "contains_text word (c # s) = (take (length word) (c # s) = word \<or> contains_text word s)"

definition secret_key :: "string \<Rightarrow> bool" where
  "secret_key key = list_ex (\<lambda>word. contains_text word (toLowerCase key))
     [''key'', ''secret'', ''token'', ''auth'', ''password'', ''credential'']"

definition cleanUrl :: "(string \<Rightarrow> ClientUrl option) \<Rightarrow> string \<Rightarrow> ParsedUrl pay_res" where
  "cleanUrl new_URL v = (case new_URL v of
     None \<Rightarrow> Inl TypeError
   | Some url \<Rightarrow> if cu_username url = [] \<and> cu_password url = [] \<and> \<not> list_ex secret_key (cu_keys url) then Inr (cu_url url)
                 else Inl (client_error ''INVALID_SERVICE_URL''))"

section \<open>One request\<close>

definition on_world :: "('w, pay_error, 'a) run \<Rightarrow> ('w, 'a) client_run" where
  "on_world m = (\<lambda>c. case m (cl_world c) of (r, w) \<Rightarrow> (r, c\<lparr>cl_world := w\<rparr>))"

definition MAX_RESPONSE :: nat where "MAX_RESPONSE = 2 * 1024 * 1024"

text \<open>Every failure of reading the response is the one error of its \<open>catch\<close>.\<close>

definition read_response :: "'w ServiceClientOptions \<Rightarrow> ApiRoute \<Rightarrow> HttpResponse \<Rightarrow> ApiResponse pay_res" where
  "read_response options route response =
     recast protocol_error
       (rbind (require (\<not> length (hs_text response) > MAX_RESPONSE) TypeError) (\<lambda>_.
        rbind (case op_JSON_parse options (hs_text response) of None \<Rightarrow> Inl TypeError | Some v \<Rightarrow> Inr v) (\<lambda>body.
        parseApiResponse route (hs_status response) body)))"

definition store_cookie :: "HttpResponse \<Rightarrow> ('w, unit) client_run" where
  "store_cookie response = (case token_at (case hs_setCookie response of None \<Rightarrow> [] | Some s \<Rightarrow> s) of
     None \<Rightarrow> ethrow protocol_error
   | Some token \<Rightarrow> eupdate (\<lambda>c. c\<lparr>cl_cookie := Some (COOKIE_NAME @ ''='' @ token)\<rparr>))"

definition service_request :: "'w ServiceClientOptions \<Rightarrow> ApiRoute \<Rightarrow> string \<Rightarrow> string \<Rightarrow> js_value option \<Rightarrow> ('w, ApiResponse) client_run" where
  "service_request options route verb path body =
     ebind (equery cl_cookie) (\<lambda>cookie.
     ebind (ecast (client_error ''SERVICE_UNAVAILABLE'') (on_world (op_fetch options
       \<lparr>hq_method = verb, hq_path = path, hq_json = (body \<noteq> None),
        hq_origin = (if body \<noteq> None then Some (op_origin options) else None), hq_cookie = cookie, hq_body = body\<rparr>))) (\<lambda>response.
     ebind (elift (read_response options route response)) (\<lambda>parsed. case parsed of
       ErrorResponse e \<Rightarrow> ethrow (client_error (error_text (err_code e)))
     | _ \<Rightarrow> ebind (if route = POST_verify then store_cookie response else ereturn ()) (\<lambda>_. ereturn parsed))))"

text \<open>A request with a body, in the format of the service.\<close>

definition body_request :: "'w ServiceClientOptions \<Rightarrow> ApiRoute \<Rightarrow> Bytes32 \<Rightarrow> ApiRequestBody \<Rightarrow> ('w, ApiResponse) client_run" where
  "body_request options route i body =
     service_request options route (fst (request_line i body)) (snd (request_line i body)) (Some (wire_body body))"

definition scopeQuery :: "'w ServiceClientOptions \<Rightarrow> string" where
  "scopeQuery options = op_searchParams options [(''deploymentId'', sc_deploymentId (op_scope options)), (''owner'', sc_owner (op_scope options))]"

definition scope_request :: "'w ServiceClientOptions \<Rightarrow> ApiRoute \<Rightarrow> string \<Rightarrow> string \<Rightarrow> ('w, ApiResponse) client_run" where
  "scope_request options route path extra = service_request options route ''GET'' (path @ ''?'' @ scopeQuery options @ extra) None"

section \<open>Signing in\<close>

definition challenge_current :: "int \<Rightarrow> int \<Rightarrow> int \<Rightarrow> bool" where
  "challenge_current now issuedAt expiresAt \<longleftrightarrow> \<not> (issuedAt > now + 30000 \<or> expiresAt \<le> now \<or> expiresAt \<le> issuedAt)"

definition authenticate :: "'w ServiceClientOptions \<Rightarrow> string \<Rightarrow> ('w, unit) client_run" where
  "authenticate options host =
     ebind (body_request options POST_challenge [] (ChallengeBody (op_scope options))) (\<lambda>response. case response of
       ChallengeResponse challengeId nonce issuedAt expiresAt \<Rightarrow>
         ebind (equery (\<lambda>c. op_now options (cl_world c))) (\<lambda>now.
         ebind (ewhen (\<not> challenge_current now issuedAt expiresAt) (client_error ''CHALLENGE_EXPIRED'')) (\<lambda>_.
         ebind (elift (op_createSiwe options \<lparr>siwe_address = Some (op_address options), siwe_domain = Some host,
           siwe_uri = Some (op_siweUri options), siwe_version = Some ''1'', siwe_chainId = Some (op_chainId options),
           siwe_nonce = Some nonce, siwe_issuedAt = Some issuedAt, siwe_expirationTime = Some expiresAt\<rparr>)) (\<lambda>siweMessage.
         ebind (ecast (client_error ''SIGNATURE_REJECTED'') (on_world (op_signMessage options siweMessage))) (\<lambda>sg.
         ebind (body_request options POST_verify [] (VerifyBody (op_scope options) challengeId siweMessage sg)) (\<lambda>_. ereturn ())))))
     | _ \<Rightarrow> ethrow protocol_error)"

section \<open>Operations\<close>

definition saved_item :: "OperationResponse \<Rightarrow> SavedReservation pay_res" where
  "saved_item r = (case or_reservationState r of
     None \<Rightarrow> Inl protocol_error
   | Some state \<Rightarrow> Inr \<lparr>so_record = or_record r, so_revision = or_revision r, sr_reservationState = state\<rparr>)"

definition put_record :: "'w ServiceClientOptions \<Rightarrow> OperationRecord \<Rightarrow> int \<Rightarrow> int \<Rightarrow> ('w, SavedReservation) client_run" where
  "put_record options r expectedRevision sealedRevision =
     ebind (body_request options PUT_operation (rb_recordId r) (PutBody (op_scope options) expectedRevision sealedRevision r)) (\<lambda>response. case response of
       OneOperation saved \<Rightarrow> if or_reservationState saved \<noteq> Some active then ethrow protocol_error else elift (saved_item saved)
     | _ \<Rightarrow> ethrow protocol_error)"

definition check_options_scope :: "'w ServiceClientOptions \<Rightarrow> Scope \<Rightarrow> ('v, pay_error, unit) run" where
  "check_options_scope options scope = ewhen (sc_deploymentId scope \<noteq> sc_deploymentId (op_scope options) \<or>
     \<not> sameText (sc_owner scope) (sc_owner (op_scope options))) (client_error ''SERVICE_SCOPE_INVALID'')"

definition get_record :: "'w ServiceClientOptions \<Rightarrow> Scope \<Rightarrow> Bytes32 \<Rightarrow> ('w, SavedReservation option) client_run" where
  "get_record options scope recordId =
     ebind (check_options_scope options scope) (\<lambda>_.
     ecatch (ebind (scope_request options GET_operation (''/v1/operations/'' @ recordId) []) (\<lambda>response. case response of
         OneOperation saved \<Rightarrow> ebind (elift (saved_item saved)) (\<lambda>item. ereturn (Some item))
       | _ \<Rightarrow> ethrow protocol_error))
       (\<lambda>e. if e = client_error ''NOT_FOUND'' then ereturn None else ethrow e))"

definition cursor_suffix :: "Bytes32 option \<Rightarrow> string" where
  "cursor_suffix cursor = (case cursor of None \<Rightarrow> [] | Some c \<Rightarrow> ''&cursor='' @ c)"

fun list_pages :: "nat \<Rightarrow> 'w ServiceClientOptions \<Rightarrow> Bytes32 option \<Rightarrow> SavedReservation list \<Rightarrow>
    ('w, list_availability \<times> SavedReservation list) client_run" where
  "list_pages 0 options cursor records = ethrow unfinished"
| "list_pages (Suc fuel) options cursor records =
     ebind (scope_request options GET_operations ''/v1/operations'' (cursor_suffix cursor)) (\<lambda>response. case response of
       OperationList ok items nextCursor \<Rightarrow>
         ebind (elift (mapM saved_item items)) (\<lambda>page.
         if nextCursor \<noteq> None \<and> ok then list_pages fuel options nextCursor (records @ page)
         else ereturn (if ok then list_healthy else list_rollback, records @ page))
     | _ \<Rightarrow> ethrow protocol_error)"

definition list_records :: "nat \<Rightarrow> 'w ServiceClientOptions \<Rightarrow> Scope \<Rightarrow> ('w, list_availability \<times> SavedReservation list) client_run" where
  "list_records fuel options scope = ebind (check_options_scope options scope) (\<lambda>_. list_pages fuel options None [])"

definition release_record :: "'w ServiceClientOptions \<Rightarrow> OperationRecord \<Rightarrow> ReleaseEvidence \<Rightarrow> int \<Rightarrow> int \<Rightarrow> ('w, SavedReservation) client_run" where
  "release_record options r evidence expectedRevision sealedRevision =
     ebind (body_request options POST_release (rb_recordId r)
         (ReleaseBody (op_scope options) expectedRevision sealedRevision (re_blockHash evidence) r)) (\<lambda>response. case response of
       OneOperation saved \<Rightarrow> elift (saved_item saved)
     | _ \<Rightarrow> ethrow protocol_error)"

section \<open>Rewards\<close>

definition one_reward :: "ApiResponse \<Rightarrow> RewardRecord pay_res" where
  "one_reward response = (case response of OneReward r \<Rightarrow> Inr r | _ \<Rightarrow> Inl protocol_error)"

definition createReward :: "'w ServiceClientOptions \<Rightarrow> RewardRequest \<Rightarrow> ('w, RewardRecord) client_run" where
  "createReward options reward =
     ebind (check_options_scope options (rr_scope reward)) (\<lambda>_.
     ebind (body_request options POST_rewards [] (RewardsBody reward)) (\<lambda>response. elift (one_reward response)))"

definition listRewards :: "'w ServiceClientOptions \<Rightarrow> ('w, RewardRecord list) client_run" where
  "listRewards options = ebind (scope_request options GET_rewards ''/v1/rewards'' []) (\<lambda>response. case response of
     RewardList rewards \<Rightarrow> ereturn rewards | _ \<Rightarrow> ethrow protocol_error)"

definition getReward :: "'w ServiceClientOptions \<Rightarrow> Bytes32 \<Rightarrow> ('w, RewardRecord) client_run" where
  "getReward options i = ebind (scope_request options GET_reward (''/v1/rewards/'' @ i) []) (\<lambda>response. elift (one_reward response))"

definition markReceived :: "'w ServiceClientOptions \<Rightarrow> Bytes32 \<Rightarrow> Bytes32 \<Rightarrow> Bytes32 \<Rightarrow> ('w, RewardRecord) client_run" where
  "markReceived options i outId blockHash =
     ebind (body_request options POST_received i (ReceivedBody (op_scope options) outId blockHash)) (\<lambda>response. elift (one_reward response))"

section \<open>The client\<close>

record 'w ServiceClient =
  sc_authenticate :: "('w, unit) client_run"
  sc_createReward :: "RewardRequest \<Rightarrow> ('w, RewardRecord) client_run"
  sc_listRewards :: "('w, RewardRecord list) client_run"
  sc_getReward :: "Bytes32 \<Rightarrow> ('w, RewardRecord) client_run"
  sc_markReceived :: "Bytes32 \<Rightarrow> Bytes32 \<Rightarrow> Bytes32 \<Rightarrow> ('w, RewardRecord) client_run"
  sc_reservations :: "'w Client ReservationPort"

definition client_reservations :: "nat \<Rightarrow> 'w ServiceClientOptions \<Rightarrow> 'w Client ReservationPort" where
  "client_reservations fuel options = \<lparr>rp_reserve = put_record options, rp_update = put_record options, rp_get = get_record options,
     rp_list = list_records fuel options, rp_release = release_record options\<rparr>"

definition createServiceClient :: "nat \<Rightarrow> 'w ServiceClientOptions \<Rightarrow> 'w ServiceClient pay_res" where
  "createServiceClient fuel options =
     rbind (cleanUrl (op_new_URL options) (op_baseUrl options)) (\<lambda>base.
     rbind (cleanUrl (op_new_URL options) (op_origin options)) (\<lambda>origin.
     rbind (cleanUrl (op_new_URL options) (op_siweUri options)) (\<lambda>siweUri.
     if pu_origin origin \<noteq> op_origin options \<or> pu_origin siweUri \<noteq> pu_origin origin \<or> \<not> isSafeInteger (op_chainId options) \<or>
        op_chainId options \<le> 0 \<or> \<not> sameText (sc_owner (op_scope options)) (op_address options)
     then Inl (client_error ''SERVICE_SCOPE_INVALID'')
     else Inr \<lparr>sc_authenticate = authenticate options (pu_host origin), sc_createReward = createReward options,
       sc_listRewards = listRewards options, sc_getReward = getReward options, sc_markReceived = markReceived options,
       sc_reservations = client_reservations fuel options\<rparr>)))"

end
