(* ===== verification/ServiceProperties.thy ===== *)
theory ServiceProperties
  imports ServiceContract
begin

text \<open>What the store promises to its clients, from its first state on.\<close>

definition initial_store :: "'h Storage_scheme \<Rightarrow> bool" where
  "initial_store w \<longleftrightarrow> db_operations w = [] \<and> db_active_reservations w = [] \<and> db_operation_attempts w = []"

lemma initial_inv: "initial_store w \<Longrightarrow> store_inv w \<and> reserved_inv w"
  by (simp add: initial_store_def store_inv_def rows_inv_def reservations_inv_def attempts_inv_def attempts_of_def reserved_inv_def)

lemma reachable_inv:
  assumes "store_run xs w0 w" and "initial_store w0"
  shows "store_inv w" and "list_all (\<lambda>x. x \<noteq> ReorgEvent) xs \<Longrightarrow> reserved_inv w"
proof -
  show "store_inv w"
    by (rule store_run_keeps [OF assms(1), where P = "\<lambda>_. True"])
      (use initial_inv [OF assms(2)] store_inv_step in \<open>auto simp: list_all_iff\<close>)
  show "reserved_inv w" if quiet: "list_all (\<lambda>x. x \<noteq> ReorgEvent) xs"
  proof -
    have "store_inv w \<and> reserved_inv w"
      by (rule store_run_keeps [OF assms(1), where Q = "\<lambda>w. store_inv w \<and> reserved_inv w", OF _ quiet])
        (use initial_inv [OF assms(2)] store_inv_step reserved_inv_step in blast)+
    then show ?thesis ..
  qed
qed

section \<open>A put that is accepted\<close>

lemma insert_attempts_succeeds:
  assumes "\<And>n. start \<le> n \<Longrightarrow> (scope_key scope i, n) \<notin> attempt_key ` set (db_operation_attempts w)"
  shows "insert_attempts scope i start ids w =
    (Inr (), w\<lparr>db_operation_attempts := db_operation_attempts w @ attempt_rows scope i start ids\<rparr>)"
  using assms
proof (induction ids arbitrary: start w)
  case Nil
  show ?case by (simp add: insert_attempts_def attempt_rows_def)
next
  case (Cons a ids)
  let ?row = "\<lparr>at_deployment_id = sc_deploymentId scope, at_owner = toLowerCase (sc_owner scope), at_record_id = i,
    at_position = start, at_attempt_id = a\<rparr>"
  let ?w = "w\<lparr>db_operation_attempts := db_operation_attempts w @ [?row]\<rparr>"
  have "attempt_key ?row = (scope_key scope i, start)" by (simp add: attempt_key_def scope_key_def)
  then have one: "insert_attempt scope i (start, a) w = (Inr (), ?w)"
    using Cons.prems [of start] by (simp add: insert_attempt_def einsert_def insert_row_def)
  have "insert_attempts scope i (Suc start) ids ?w =
      (Inr (), ?w\<lparr>db_operation_attempts := db_operation_attempts ?w @ attempt_rows scope i (Suc start) ids\<rparr>)"
    using Cons.prems Cons.IH [of "Suc start" ?w] by (auto simp: attempt_key_def scope_key_def)
  then show ?case by (simp add: insert_attempts_Cons ebind_def one attempt_rows_Cons)
qed

lemma put_new_completes:
  assumes inv: "store_inv w" and lower: "toLowerCase (rb_recordId r) = rb_recordId r"
    and missing: "getOperation scope (rb_recordId r) w = None" and free: "active_reservation scope (rb_inputId r) w = None"
  shows "\<exists>s. put_new scope r 0 w = (Inr s, with_new scope r w)"
proof -
  have fresh: "scope_key scope (rb_recordId r) \<notin> operation_key ` set (db_operations w)"
    using missing lower by (simp add: getOperation_eq_None)
  have free': "scope_key scope (rb_inputId r) \<notin> reservation_key ` set (db_active_reservations w)"
    using free by (force simp: active_reservation_def select_first_eq_None)
  have unreserved: "scope_key scope (rb_recordId r) \<notin> reservation_record ` set (db_active_reservations w)"
  proof
    assume "scope_key scope (rb_recordId r) \<in> reservation_record ` set (db_active_reservations w)"
    then obtain res where res: "res \<in> set (db_active_reservations w)" "scope_key scope (rb_recordId r) = reservation_record res" by auto
    then obtain row where "row \<in> set (db_operations w)" "operation_key row = reservation_record res"
      using inv unfolding store_inv_def reservations_inv_def by blast
    with fresh res(2) show False by force
  qed
  let ?w1 = "w\<lparr>db_operations := db_operations w @ [new_row scope r]\<rparr>"
  let ?w2 = "?w1\<lparr>db_operation_attempts := db_operation_attempts ?w1 @ attempt_rows scope (rb_recordId r) 0 (rb_attemptIds r)\<rparr>"
  have "insert_operation scope r w = (Inr (), ?w1)"
    using fresh by (simp add: insert_operation_eq_Inr new_keys)
  moreover have "insert_attempts scope (rb_recordId r) 0 (rb_attemptIds r) ?w1 = (Inr (), ?w2)"
  proof (rule insert_attempts_succeeds)
    fix n show "(scope_key scope (rb_recordId r), n) \<notin> attempt_key ` set (db_operation_attempts ?w1)"
      using fresh inv attempts_invD(2) [of w] unfolding store_inv_def by (auto simp: attempt_key_def attempt_record_def)
  qed
  moreover have "insert_reservation scope (rb_inputId r) (rb_recordId r) ?w2 = (Inr (), with_new scope r w)"
    using free' unreserved by (simp add: insert_reservation_eq_Inr new_keys with_new_def)
  moreover have "operation_row scope (rb_recordId r) (with_new scope r w) \<noteq> None"
    by (simp add: operation_row_def with_new_def select_first_eq_None new_keys del: not_None_eq)
  then have "\<exists>s. getOperation scope (rb_recordId r) (with_new scope r w) = Some s"
    using lower by (auto simp: getOperation_def)
  ultimately show ?thesis
    using free by (auto simp: put_new_def ebind_def return_operation_def)
qed

lemma put_transaction_completes:
  assumes "store_inv w" and "getAvailability gate w = healthy" and "\<not> environment_stopped w"
    and "saved_at (request_key q) w = None" and "active_reservation (fst q) (rb_inputId (normalize_record (snd q))) w = None"
  shows "\<exists>v. put_transaction gate q 0 w = (Inr v, with_new (fst q) (normalize_record (snd q)) w)"
  using put_new_completes [OF assms(1) normalized_lower _ assms(5)] assms(2-4)
  by (auto simp: put_transaction_eq_Inr put_commit_eq_Inr saved_at_def request_key_def)

text \<open>The same put again, without a new attempt: it returns what is saved.\<close>

lemma put_transaction_again:
  assumes "getAvailability gate w = healthy" and "\<not> environment_stopped w"
    and "saved_at (request_key q) w = Some s" and "content_saved s q"
  shows "put_transaction gate q e w = (Inr s, w)"
  using assms
  by (simp add: put_transaction_eq_Inr put_commit_eq_Inr saved_at_def request_key_def content_saved_def put_existing_def statement_simps)

definition example_gate :: RecoveryGate where
  "example_gate = \<lparr>gate_generation = ''g1'', gate_stopped = False, gate_initialize = None\<rparr>"

definition example_store :: Storage where
  "example_store = \<lparr>db_challenges = [], db_sessions = [], db_operations = [], db_active_reservations = [],
     db_operation_attempts = [], db_environment_state = Some \<lparr>env_status = ''healthy'', env_generation = ''g1'', env_reason = None\<rparr>,
     db_deploymentId = None\<rparr>"

definition example_put :: "Scope \<times> OperationRecord" where
  "example_put = (example_scope, example_pay_record)"

lemma example_store_facts:
  "initial_store example_store" "getAvailability example_gate example_store = healthy" "\<not> environment_stopped example_store"
  "saved_at k example_store = None" "active_reservation scope i example_store = None"
  by (simp_all add: initial_store_def example_store_def example_gate_def getAvailability_def environment_stopped_def saved_at_def
      getOperation_def operation_row_def active_reservation_def select_first_def)

lemma example_put_commits:
  obtains v where "put_transaction example_gate example_put 0 example_store = (Inr v, with_new example_scope (normalize_record example_pay_record) example_store)"
  using put_transaction_completes [OF _ example_store_facts(2,3,4,5), of example_put] initial_inv [OF example_store_facts(1)]
  by (auto simp: example_put_def)

section \<open>Reservations\<close>

lemma live_reservation:
  assumes "store_inv w" and "reserved_inv w" and "operation_row scope i w = Some row" and "\<not> terminal (row_status row)"
  shows "active_reservation scope (input_id row) w = Some i"
proof -
  have row: "row \<in> set (db_operations w)" "operation_key row = scope_key scope i" using operation_row_key [OF assms(3)] by auto
  then obtain res where res: "res \<in> set (db_active_reservations w)" "reservation_record res = operation_key row" "re_input_id res = input_id row"
    using assms(2,4) unfolding reserved_inv_def by blast
  have key: "reservation_key res = scope_key scope (input_id row)" "re_record_id res = i"
    using res(2,3) row(2) by (simp_all add: reservation_key_def reservation_record_def scope_key_def)
  have "select_first (\<lambda>r. reservation_key r = scope_key scope (input_id row)) (db_active_reservations w) = Some res"
    by (rule select_first_unique [of reservation_key]) (use assms(1) res(1) key in \<open>auto simp: store_inv_def reservations_inv_def\<close>)
  with key(2) show ?thesis by (simp add: active_reservation_def)
qed

lemma active_status: "ro_reservationState (asReservation s) = active \<longleftrightarrow> \<not> terminal (st_status s)"
  by (simp add: asReservation_def StoredOperation.extend_def terminal_def)

text \<open>C35: no input is reserved twice: as long as no finalized history was reorganized, two operations of one scope that
  the service reports as active over the same input are the same operation.\<close>

theorem inputs_reserved_once:
  assumes "store_run xs w0 w" and "initial_store w0" and "list_all (\<lambda>x. x \<noteq> ReorgEvent) xs"
    and "getOperation scope i w = Some s" and "getOperation scope j w = Some t"
    and "ro_reservationState (asReservation s) = active" and "ro_reservationState (asReservation t) = active"
    and "rb_inputId (so_record s) = rb_inputId (so_record t)"
  shows "toLowerCase i = toLowerCase j \<and> s = t"
proof -
  note inv = reachable_inv(1) [OF assms(1,2)] reachable_inv(2) [OF assms(1-3)]
  obtain a b where a: "operation_row scope (toLowerCase i) w = Some a" "s = fromRow scope a w"
    and b: "operation_row scope (toLowerCase j) w = Some b" "t = fromRow scope b w"
    using assms(4,5) by (auto simp: getOperation_eq_Some)
  have "active_reservation scope (input_id a) w = Some (toLowerCase i)"
    by (rule live_reservation [OF inv a(1)]) (use assms(6) in \<open>simp add: active_status a(2)\<close>)
  moreover have "active_reservation scope (input_id b) w = Some (toLowerCase j)"
    by (rule live_reservation [OF inv b(1)]) (use assms(7) in \<open>simp add: active_status b(2)\<close>)
  moreover have "input_id a = input_id b" using assms(8) by (simp add: a(2) b(2))
  ultimately show ?thesis using a b by simp
qed

theorem inputs_reserved_once_witness:
  "\<exists>w s. store_run [PutEvent] example_store w \<and> getOperation example_scope (hash_of (CHR ''1'')) w = Some s \<and>
     toLowerCase (hash_of (CHR ''1'')) = toLowerCase (hash_of (CHR ''1'')) \<and> s = s"
proof -
  obtain v where put: "put_transaction example_gate example_put 0 example_store =
    (Inr v, with_new example_scope (normalize_record example_pay_record) example_store)" by (rule example_put_commits)
  let ?w = "with_new example_scope (normalize_record example_pay_record) example_store"
  have run: "store_run [PutEvent] example_store ?w"
    using put store_step.put by (auto simp: put_transaction_eq_Inr intro!: store_run.intros)
  have "saved_at (request_key example_put) ?w = Some v" "so_revision v = 1"
    using put_transaction_new [OF _ example_store_facts(4) put] initial_inv [OF example_store_facts(1)] by simp_all
  then have saved: "getOperation example_scope (hash_of (CHR ''1'')) ?w = Some v"
    by (simp add: saved_at_def request_key_def example_put_def normalize_record_def example_pay_record_def getOperation_def)
  have "row_status row = st_reserved" if "operation_row example_scope i ?w = Some row" for i row
    using operation_row_key [OF that] by (auto simp: with_new_def example_store_def new_row_def)
  then have "ro_reservationState (asReservation v) = active"
    using saved by (auto simp: active_status getOperation_eq_Some terminal_def)
  from inputs_reserved_once [OF run example_store_facts(1) _ saved saved this this refl] run saved
  show ?thesis by auto
qed

text \<open>C36: along every run of the store, reorganizations of finalized history included, a saved operation is never lost and
  only evolves: its identifiers, terms and content hash stay, its attempts are only appended, its start of signing is not
  undone, its versions only grow and identify its content and its status.  A terminal status is final unless the run
  contains a reorganization; that event stops the environment, and the only status it changes is a terminal one, to
  unknown.\<close>

theorem saved_operation_evolves:
  assumes "store_run xs w0 w" and "initial_store w0"
    and "store_run ys w w'" and "getOperation scope i w = Some s"
  shows "\<exists>t. getOperation scope i w' = Some t \<and> operation_evolves (ReorgEvent \<notin> set ys) s t \<and>
    (ys = [ReorgEvent] \<longrightarrow> environment_stopped w' \<and>
      (st_status t = st_status s \<or> terminal (st_status s) \<and> st_status t = st_unknown))"
proof -
  obtain t where t: "getOperation scope i w' = Some t" "operation_evolves (ReorgEvent \<notin> set ys) s t"
    using run_evolves [OF assms(3) reachable_inv(1) [OF assms(1,2)] assms(4)] by blast
  moreover have "environment_stopped w' \<and> (st_status t = st_status s \<or> terminal (st_status s) \<and> st_status t = st_unknown)"
    if "ys = [ReorgEvent]"
    using reorg_effect [OF _ assms(4) t(1)] assms(3) that by (auto elim: store_run_ConsE)
  ultimately show ?thesis by blast
qed

theorem saved_operation_evolves_witness:
  "\<exists>w s t. store_run [PutEvent] example_store w \<and> getOperation example_scope (hash_of (CHR ''1'')) w = Some s \<and>
     getOperation example_scope (hash_of (CHR ''1'')) (w\<lparr>db_sessions := []\<rparr>) = Some t \<and> operation_evolves True s t"
proof -
  obtain v where put: "put_transaction example_gate example_put 0 example_store =
    (Inr v, with_new example_scope (normalize_record example_pay_record) example_store)" by (rule example_put_commits)
  let ?w = "with_new example_scope (normalize_record example_pay_record) example_store"
  have run: "store_run [PutEvent] example_store ?w"
    using put store_step.put by (auto simp: put_transaction_eq_Inr intro!: store_run.intros)
  have "saved_at (request_key example_put) ?w = Some v"
    using put_transaction_new [OF _ example_store_facts(4) put] initial_inv [OF example_store_facts(1)] by simp
  then have saved: "getOperation example_scope (hash_of (CHR ''1'')) ?w = Some v"
    by (simp add: saved_at_def request_key_def example_put_def normalize_record_def example_pay_record_def getOperation_def)
  have "store_run [OtherEvent] ?w (?w\<lparr>db_sessions := []\<rparr>)"
    by (intro store_run.intros store_step.other) simp_all
  from saved_operation_evolves [OF run example_store_facts(1) this saved] saved run show ?thesis by auto
qed

text \<open>C37: no update is lost: after a put that replaced revision \<open>e\<close>, whatever run of the store follows, reorganizations of
  finalized history included, another put at revision \<open>e\<close> of the same record succeeds only when its content is what is
  saved, and changes nothing.\<close>

theorem put_loses_no_update:
  assumes "store_run xs w0 w" and "initial_store w0"
    and "put_transaction gate q e w = (Inr v, w1)" and "so_revision v = e + 1"
    and "store_run ys w1 w2"
    and "put_transaction gate q' e w2 = (Inr u, w3)" and "request_key q' = request_key q"
  shows "w3 = w2 \<and> saved_at (request_key q) w2 = Some u \<and> content_saved u q'"
proof -
  have "steps w1 w2" using assms(5) by (auto simp: steps_def)
  then show ?thesis
    by (rule puts.no_lost_update [OF reachable_inv(1) [OF assms(1,2)] assms(3,4) _ assms(6,7)])
qed

theorem put_loses_no_update_witness:
  "\<exists>w v. put_transaction example_gate example_put 0 example_store = (Inr v, w) \<and> so_revision v = 1 \<and>
     put_transaction example_gate example_put 0 w = (Inr v, w) \<and> saved_at (request_key example_put) w = Some v \<and> content_saved v example_put"
proof -
  obtain v where put: "put_transaction example_gate example_put 0 example_store =
    (Inr v, with_new example_scope (normalize_record example_pay_record) example_store)" by (rule example_put_commits)
  let ?w = "with_new example_scope (normalize_record example_pay_record) example_store"
  have new: "so_revision v = 1" "content_saved v example_put" "saved_at (request_key example_put) ?w = Some v"
    using put_transaction_new [OF _ example_store_facts(4) put] initial_inv [OF example_store_facts(1)] by simp_all
  have env: "getAvailability example_gate ?w = healthy" "\<not> environment_stopped ?w"
    by (simp_all add: getAvailability_def environment_stopped_def with_new_def example_store_def example_gate_def)
  have again: "put_transaction example_gate example_put 0 ?w = (Inr v, ?w)"
    by (rule put_transaction_again [OF env new(3,2)])
  have "?w = ?w \<and> saved_at (request_key example_put) ?w = Some v \<and> content_saved v example_put"
    by (rule put_loses_no_update [OF store_run.nil example_store_facts(1) put _ store_run.nil again refl]) (simp_all add: new(1))
  then show ?thesis using put again new(1) by blast
qed

section \<open>Pages\<close>

definition scope_rows :: "Scope \<Rightarrow> string option \<Rightarrow> 'h Storage_scheme \<Rightarrow> OperationRow list" where
  "scope_rows scope cursor w = sort_key record_id (filter (\<lambda>r. deployment_id r = sc_deploymentId scope \<and>
     row_owner r = toLowerCase (sc_owner scope) \<and> (case cursor of None \<Rightarrow> [] | Some c \<Rightarrow> toLowerCase c) < record_id r) (db_operations w))"

lemma listOperations_rows:
  "listOperations scope cursor w = (map (\<lambda>row. fromRow scope row w) (take 100 (scope_rows scope cursor w)),
     if length (scope_rows scope cursor w) > 100 then Some (record_id (scope_rows scope cursor w ! 99)) else None)"
  by (auto simp: listOperations_def scope_rows_def Let_def)

lemma scope_rows_distinct: "store_inv w \<Longrightarrow> distinct (map record_id (scope_rows scope cursor w))"
proof -
  assume "store_inv w"
  then have keys: "distinct (map operation_key (db_operations w))" by (simp add: store_inv_def rows_inv_def)
  have "inj_on record_id (set (scope_rows scope cursor w))"
  proof (rule inj_onI)
    fix a b assume "a \<in> set (scope_rows scope cursor w)" "b \<in> set (scope_rows scope cursor w)" "record_id a = record_id b"
    then have "a \<in> set (db_operations w)" "b \<in> set (db_operations w)" "operation_key a = operation_key b"
      by (auto simp: scope_rows_def operation_key_def)
    with keys show "a = b" by (metis distinct_map inj_onD)
  qed
  moreover have "distinct (scope_rows scope cursor w)"
    using keys by (simp add: scope_rows_def distinct_map)
  ultimately show ?thesis by (simp add: distinct_map)
qed

lemma filter_after:
  assumes "sorted (map f xs)" and "distinct (map f xs)" and "i < length xs"
  shows "filter (\<lambda>x. f (xs ! i) < (f x :: 'a :: linorder)) xs = drop (Suc i) xs"
proof -
  have strict: "f (xs ! j) < f (xs ! k)" if "j < k" "k < length xs" for j k
    using that assms(1,2) by (simp add: sorted_iff_nth_mono distinct_conv_nth less_le nth_map)
  have "filter (\<lambda>x. f (xs ! i) < f x) (take (Suc i) xs) = []"
    using strict assms(3) by (fastforce simp: filter_empty_conv in_set_conv_nth less_Suc_eq_le not_less le_less)
  moreover have "filter (\<lambda>x. f (xs ! i) < f x) (drop (Suc i) xs) = drop (Suc i) xs"
    using strict by (auto simp: filter_id_conv in_set_conv_nth)
  ultimately show ?thesis by (metis append_Nil append_take_drop_id filter_append)
qed

lemma scope_rows_lower: "store_inv w \<Longrightarrow> r \<in> set (scope_rows scope cursor w) \<Longrightarrow> toLowerCase (record_id r) = record_id r"
  by (auto simp: scope_rows_def store_inv_def rows_inv_def list_all_iff)

text \<open>The rows after the cursor of a page are those that the page left out.\<close>

lemma next_page:
  assumes inv: "store_inv w" and long: "length (scope_rows scope cursor w) > 100"
  shows "scope_rows scope (Some (record_id (scope_rows scope cursor w ! 99))) w = drop 100 (scope_rows scope cursor w)"
proof -
  let ?rows = "scope_rows scope cursor w" and ?c = "record_id (scope_rows scope cursor w ! 99)"
  let ?after = "case cursor of None \<Rightarrow> [] | Some c \<Rightarrow> toLowerCase c"
  have nth: "?rows ! 99 \<in> set ?rows" using long by simp
  then have c: "toLowerCase ?c = ?c" "?after < ?c" using scope_rows_lower [OF inv] by (auto simp: scope_rows_def)
  have "scope_rows scope (Some ?c) w = filter (\<lambda>r. ?c < record_id r) ?rows"
    unfolding scope_rows_def [of scope "Some ?c"] filter_sort [symmetric] filter_filter
    using c by (auto simp: scope_rows_def filter_sort [symmetric] intro!: arg_cong [where f = "sort_key record_id"] filter_cong
        intro: less_trans)
  also have "\<dots> = drop (Suc 99) ?rows"
    by (rule filter_after) (use long scope_rows_distinct [OF inv] in \<open>auto simp: scope_rows_def\<close>)
  finally show ?thesis by simp
qed

end
