(* ===== verification/ServiceExample.thy ===== *)
theory ServiceExample
  imports ServiceObject ServiceProperties
begin

text \<open>A deployment on which the theorems about the service are instantiated: one scope with an open session, a healthy
  environment, and a platform that answers with fixed values.\<close>

definition served_config :: DeploymentConfig where
  "served_config = \<lparr>dc_origin = ''https://s'', dc_siweUri = ''https://s/'', dc_chainId = 31337,
     dc_pool = ''0x'' @ replicate 40 CHR ''1'', dc_finalityMode = local_simulated\<rparr>"

definition served_env :: ServiceEnv where
  "served_env = \<lparr>DEPLOYMENTS_JSON = ''catalog'', RECOVERY_JSON = ''gate'', RPC_DEPLOYMENTS_JSON = None\<rparr>"

definition served_catalog :: js_value where
  "served_catalog = JObject [(sc_deploymentId example_scope, JObject [(''origin'', JString (dc_origin served_config)),
     (''siweUri'', JString (dc_siweUri served_config)), (''chainId'', wire_number 31337), (''pool'', JString (dc_pool served_config)),
     (''finalityMode'', JString ''local-simulated'')])]"

definition served_gates :: js_value where
  "served_gates = JObject [(sc_deploymentId example_scope, JObject [(''generation'', JString ''g1''), (''stopped'', JBoolean False)])]"

definition session_text :: string where
  "session_text = ''0x'' @ replicate 64 CHR ''a''"

definition ready_store :: Storage where
  "ready_store = example_store\<lparr>db_sessions := [\<lparr>session_hash = session_text, se_deployment_id = sc_deploymentId example_scope,
     se_owner = toLowerCase (sc_owner example_scope), se_expires_at_ms = 1000\<rparr>],
     db_deploymentId := Some (sc_deploymentId example_scope)\<rparr>"

definition saved_store :: Storage where
  "saved_store = with_new example_scope (normalize_record example_pay_record) ready_store"

definition served_cookie :: string where
  "served_cookie = COOKIE_NAME @ ''='' @ session_text"

text \<open>The chain on which the input is unspent, at one block.\<close>

definition served_context :: Context where
  "served_context = \<lparr>ctx_chainId = 31337, ctx_pool = dc_pool served_config, ctx_deploymentBlock = 0, ctx_verifier = ''v'',
     ctx_parametersHash = ''p'', ctx_finalityMode = local_simulated\<rparr>"

definition served_history :: "Storage HistoryPort" where
  "served_history = (let utxo = ereturn (Complete ''h'' \<lparr>us_exists = True, us_owner = Some (sc_owner example_scope),
       us_commitment = Some H_base, us_consumedBy = None\<rparr>)
   in \<lparr>getFinalizedCheckpoint = ereturn (Some \<lparr>cp_number = 5, cp_hash = ''h'', cp_mode = local_simulated\<rparr>),
      getContext = (\<lambda>_. ereturn (Complete ''h'' served_context)),
      getCanonicalHeader = (\<lambda>_ _. ereturn (Complete ''h'' \<lparr>hd_number = 5, hd_hash = ''h''\<rparr>)),
      getOperations = (\<lambda>_ _. ereturn (Incomplete INC_GAP)), getUtxo = (\<lambda>_ _. utxo),
      getOperationSuccess = (\<lambda>_ _. ereturn (Incomplete INC_GAP)), getLatestHeader = ereturn (Some \<lparr>hd_number = 5, hd_hash = ''h''\<rparr>),
      getLatestUtxo = (\<lambda>_ _. utxo), getLatestOperationSuccess = (\<lambda>_ _. ereturn (Incomplete INC_GAP))\<rparr>)"

definition served_put :: ApiRequestBody where
  "served_put = PutBody example_scope 0 1 example_pay_record"

definition served_ports :: "(string \<Rightarrow> Url pay_res) \<Rightarrow> Storage service_ports" where
  "served_ports new_URL = \<lparr>sv_JSON_parse = (\<lambda>s. if s = ''catalog'' then Some served_catalog else if s = ''gate'' then Some served_gates
       else if s = ''put'' then Some (wire_body served_put) else None),
     sv_decode = (\<lambda>_. Some ''put''), sv_config_URL = (\<lambda>_. Some \<lparr>pu_protocol = ''https:'', pu_origin = ''https://s'', pu_host = ''s''\<rparr>),
     sv_request_URL = new_URL, sv_now = (\<lambda>_. 5), sv_auth = \<lparr>randomHex = ereturn session_text, parseSiweMessage = (\<lambda>_. None),
       createSiweMessage = (\<lambda>_. Inl unauthenticated), verifyMessage = (\<lambda>_ _ _. ereturn False), sha256 = (\<lambda>s. s)\<rparr>,
     sv_provider = Some (\<lambda>_ _. Inr served_history), sv_runtime = (\<lambda>_ _ _. ethrow (PortFailure ''offline'')), sv_extensions = []\<rparr>"

lemma session_text_bytes: "bytes session_text 32" "bytes (dc_pool served_config) 20"
  by code_simp+

lemma served_deployment:
  "deployment_config (served_ports new_URL) served_env (sc_deploymentId example_scope) = Inr served_config"
  using session_text_bytes(2)
  by (simp add: deployment_config_def served_ports_def served_env_def parseDeploymentCatalog_def served_catalog_def
      resolveDeployment_def resolve_entry_def chain_id_of_def wire_number_def isSafeInteger_def url_entry_def pool_of_def
      finality_mode_of_def served_config_def)

lemma served_gate:
  "resolveRecoveryGate (sv_JSON_parse (served_ports new_URL)) (RECOVERY_JSON served_env) (sc_deploymentId example_scope) = Inr example_gate"
  by (simp add: resolveRecoveryGate_def served_ports_def served_env_def served_gates_def own_property_def optional_boolean_def
      example_gate_def)

lemma served_availability: "getAvailability example_gate ready_store = healthy" "getAvailability example_gate saved_store = healthy"
  by (simp_all add: getAvailability_def ready_store_def saved_store_def with_new_def example_store_def example_gate_def)

lemma served_token: "session_token served_cookie = Some session_text"
proof -
  have n: "length session_text = 66" by (simp add: session_text_def)
  have "take 66 session_text = session_text" "drop 66 session_text = []" by (simp_all add: n)
  then have "token_at served_cookie = Some session_text"
    using session_text_bytes(1) by (simp add: token_at_def served_cookie_def COOKIE_NAME_def Let_def)
  then show ?thesis by (simp add: session_token_def)
qed

lemma served_session:
  assumes "w = ready_store \<or> w = saved_store"
  shows "readSession (sha256 (sv_auth (served_ports new_URL))) (Some served_cookie) example_scope (sv_now (served_ports new_URL) w) w = Some example_scope"
  using assms
  by (auto simp: readSession_def readSessionIdentity_def served_token ready_store_def saved_store_def with_new_def select_first_def
      served_ports_def sameText_def)

lemma ready_inv: "store_inv ready_store"
  using initial_inv [of ready_store] by (simp add: initial_store_def ready_store_def example_store_def)

lemma ready_facts:
  "getOperation example_scope i ready_store = None" "active_reservation example_scope i ready_store = None" "\<not> environment_stopped ready_store"
  by (simp_all add: getOperation_def operation_row_def active_reservation_def select_first_def ready_store_def
      example_store_def environment_stopped_def)

lemma saved_commit:
  "\<exists>v. put_transaction example_gate (example_scope, example_pay_record) 0 ready_store = (Inr v, saved_store)"
  using put_transaction_completes [OF ready_inv served_availability(1) ready_facts(3), of "(example_scope, example_pay_record)"]
  by (simp add: saved_store_def saved_at_def request_key_def ready_facts)

lemma saved_inv: "store_inv saved_store"
  using saved_commit put_transaction_inv [OF ready_inv] by blast

lemma example_normalized [simp]: "normalize_record example_pay_record = example_pay_record"
  using example_hashes by (simp add: normalize_record_def example_pay_record_def wf_bytes32_def)

lemma saved_store_rows:
  "db_operations saved_store = [new_row example_scope example_pay_record]" "db_operation_attempts saved_store = []"
  by (simp_all add: saved_store_def with_new_def ready_store_def example_store_def) (simp add: example_pay_record_def attempt_rows_def)

lemma saved_store_operation:
  "getOperation scope i saved_store = Some s \<Longrightarrow> s = fromRow scope (new_row example_scope example_pay_record) saved_store"
  by (auto simp: getOperation_eq_Some operation_row_def saved_store_rows select_first_def split: if_splits)

lemma saved_store_pages:
  "listOperations scope cursor saved_store = ([fromRow scope (new_row example_scope example_pay_record) saved_store], None) \<or>
   listOperations scope cursor saved_store = ([], None)"
  by (simp add: listOperations_def Let_def saved_store_rows)

text \<open>The request that saves the example's record.\<close>

definition put_rq :: ServiceRequest where
  "put_rq = \<lparr>rq_method = ''PUT'', rq_origin = ''https://s'', rq_path = ''/v1/operations/'' @ hash_of (CHR ''1''),
     rq_header_origin = Some ''https://s'', rq_cookie = Some served_cookie, rq_body = Some [[]]\<rparr>"

lemma read_put:
  "read_request (served_ports plain_URL) put_rq = Inr (request_of (hash_of (CHR ''1'')) served_put)"
proof -
  have "path_id ''/v1/operations/'' [] (''/v1/operations/'' @ hash_of (CHR ''1'') @ []) = Some (hash_of (CHR ''1''))"
    by (rule path_id_match [OF example_hashes(1)])
  then have path: "path_id ''/v1/operations/'' [] (''/v1/operations/'' @ hash_of (CHR ''1'')) = Some (hash_of (CHR ''1''))" by (simp only: append_Nil2)
  have scope: "rb_scope example_pay_record = example_scope" "rb_recordId example_pay_record = hash_of (CHR ''1'')"
    by (simp_all add: example_pay_record_def)
  have "parse_put True (hash_of (CHR ''1'')) (wire_body served_put) = Inr (request_of (hash_of (CHR ''1'')) served_put)"
    using example_hashes(1) example_scope_wf example_record_wf
    by (simp add: served_put_def parse_put_def parseJsonObject_def request_shape_simps wf_revision_def isSafeInteger_def scope)
  then have "parseApiRequest plain_URL ''PUT'' (''/v1/operations/'' @ hash_of (CHR ''1'')) (wire_body served_put) True =
      Inr (request_of (hash_of (CHR ''1'')) served_put)"
    unfolding parseApiRequest_def plain_URL_def route_request_def Let_def rbind_Inr Url.simps path by simp
  then show ?thesis
    by (simp add: read_request_def read_body_def parse_with_def readLimitedJson_def served_ports_def put_rq_def MAX_BODY_BYTES_def)
qed

lemma served_input: "readInput served_history served_config example_scope i w = (Inr owned_unspent, w)"
  by (simp add: readInput_def ecatch_def ebind_def served_history_def served_config_def read_pinned_def read_latest_def
      observed_def Let_def matchesContext_def served_context_def classify_input_def sameText_def sameContext_def)

lemma served_put_operation:
  "\<exists>v. putOperation (readInput served_history served_config) (ensureWritable example_gate) example_scope example_pay_record 0 ready_store =
    (Inr v, saved_store)"
proof -
  obtain v where "put_transaction example_gate (example_scope, example_pay_record) 0 ready_store = (Inr v, saved_store)"
    using saved_commit by blast
  moreover have "check_scope example_scope example_pay_record w = (Inr (), w)" for w :: Storage
    by (simp add: check_scope_def example_pay_record_def sameText_def)
  moreover have "check_new (readInput served_history served_config) example_scope example_pay_record ready_store = (Inr (), ready_store)"
    by (simp add: check_new_def statement_simps ebind_def served_input) (simp add: example_pay_record_def)
  ultimately show ?thesis
    by (simp add: putOperation_def Let_def ebind_def ready_facts put_transaction_def)
qed

lemma served_fetch:
  "\<exists>resp. service_fetch (served_ports plain_URL) served_env put_rq ready_store = (Inr resp, saved_store)"
proof -
  obtain v where "putOperation (readInput served_history served_config) (ensureWritable example_gate) example_scope example_pay_record 0 ready_store =
    (Inr v, saved_store)" using served_put_operation by blast
  moreover have "history_for (served_ports plain_URL) served_env d config w = (Inr served_history, w)" for d config w
    by (simp add: history_for_def served_ports_def)
  moreover have "ensureWritable example_gate ready_store = (Inr (), ready_store)"
    using ensureWritable_eq_Inr [of example_gate ready_store] served_availability(1) by simp
  moreover have "\<not> foreign_origin put_rq served_config" by (simp add: foreign_origin_def put_rq_def served_config_def)
  moreover have "db_deploymentId ready_store = Some (sc_deploymentId example_scope)" by (simp add: ready_store_def)
  moreover obtain s where "readSessionIdentity (sha256 (sv_auth (served_ports plain_URL))) (rq_cookie put_rq) (sv_now (served_ports plain_URL) ready_store) ready_store = Some s"
      "sc_deploymentId s = sc_deploymentId example_scope" "sameText (sc_owner s) (sc_owner example_scope)"
    using served_session [of ready_store plain_URL] by (auto simp: readSession_def put_rq_def split: option.splits if_splits)
  ultimately show ?thesis
    using served_deployment [of plain_URL] served_gate [of plain_URL]
    by (simp add: service_fetch_def ecatch_def handle_request_def read_put Let_def statement_simps served_put_def request_for_def
        bind_deployment_def route_handler_def authorized_request_def session_request_def put_request_def attempt_port_def ebind_def)
qed

end
