(* ===== verification/ServiceListing.thy ===== *)
theory ServiceListing
  imports ServiceClient ServiceExample
begin

text \<open>
  The client and the service together: what the object stores, the client reads back.  A stored operation survives
  its way through the response, and the loop over the pages ends with every saved operation of the scope.
\<close>

section \<open>A stored operation in a response\<close>

definition checkpoint_ok :: "FinalizedCheckpoint \<Rightarrow> bool" where
  "checkpoint_ok c \<longleftrightarrow> decimal_text (fc_blockNumber c) \<and> wf_bytes32 (fc_blockHash c) \<and> decimal_text (fc_blockTimestamp c)"

definition readable_operation :: "StoredOperation \<Rightarrow> bool" where
  "readable_operation s \<longleftrightarrow> wf_record (so_record s) \<and> wf_revision (so_revision s) \<and> wf_revision (st_stateVersion s) \<and>
     wf_optional checkpoint_ok (st_checkpoint s) \<and> (terminal (st_status s) \<longrightarrow> st_checkpoint s \<noteq> None)"

definition reservation_of :: "StoredOperation \<Rightarrow> SavedReservation" where
  "reservation_of s = \<lparr>so_record = so_record s, so_revision = so_revision s,
     sr_reservationState = ro_reservationState (asReservation s)\<rparr>"

lemma json_kind_wire: "wf_kind k \<Longrightarrow> json_kind k = wire_kind k"
  by (cases k) (simp_all add: wire_kind_def bigint_text_def)

lemma parseOperationRecord_json:
  assumes "wf_record r"
  shows "parseOperationRecord (json_record r) (rb_scope r) = Inr r"
proof -
  have "string_array (\<lambda>s. s \<noteq> []) ''record.attemptIds'' (JArray (map JString (rb_attemptIds r))) = Inr (rb_attemptIds r)"
    using assms by (simp add: parser_simps wf_record_def)
  moreover have "wf_kind (rec_kind r)" using assms by (simp add: wf_record_def)
  ultimately show ?thesis
    using assms by (cases r) (simp add: parseOperationRecord_def json_record_def parseJsonObject_def wf_record_def
      json_kind_wire parse_kind_wire property_wire_kind)
qed

lemma parse_status_text: "parse_enum OPERATION_STATUSES f (text_of OPERATION_STATUSES s) = Inr s"
  by (cases s) (simp_all add: text_of_def OPERATION_STATUSES_def parse_enum_def)

lemma text_of_status_defined: "text_of OPERATION_STATUSES s \<noteq> JUndefined"
  by (cases s) (simp_all add: text_of_def OPERATION_STATUSES_def)

lemma parse_checkpoint_json: "checkpoint_ok c \<Longrightarrow> \<exists>c'. parse_checkpoint (json_checkpoint c) = Inr c'"
  by (simp add: parse_checkpoint_def json_checkpoint_def parseJsonObject_def checkpoint_ok_def parseUintString_def)

lemma reservation_text:
  "parseReservationState (JString (if s = active then ''active'' else ''released'')) = Inr s"
  by (cases s) (simp_all add: parseReservationState_def parse_enum_def)

lemma parseOperationResponse_json:
  assumes ok: "readable_operation s" and scope: "rb_scope (so_record s) = scope"
  shows "\<exists>r. parseOperationResponse (json_operation scope (asReservation s)) required = Inr r \<and> saved_item r = Inr (reservation_of s)"
proof -
  have wf: "wf_scope scope" using ok scope by (auto simp: readable_operation_def wf_record_def)
  have rec: "parseOperationRecord (json_record (so_record s)) scope = Inr (so_record s)"
    using parseOperationRecord_json ok scope by (auto simp: readable_operation_def)
  have rev: "wf_revision (so_revision s)" "wf_revision (st_stateVersion s)" using ok by (simp_all add: readable_operation_def)
  show ?thesis
  proof (cases "st_checkpoint s")
    case None
    then have "\<not> terminal (st_status s)" using ok by (simp add: readable_operation_def)
    then have "st_status s \<notin> {st_released, st_consumed, st_finalized_success}" by (simp add: terminal_def)
    then show ?thesis using wf rec rev None
      by (simp add: parseOperationResponse_def json_operation_def parseJsonObject_def parse_optional_def parse_status_text
          text_of_status_defined reservation_text saved_item_def reservation_of_def)
  next
    case (Some c)
    then have "checkpoint_ok c" using ok by (simp add: readable_operation_def)
    then obtain c' where "parse_checkpoint (json_checkpoint c) = Inr c'" using parse_checkpoint_json by blast
    moreover have "json_checkpoint c \<noteq> JUndefined" by (simp add: json_checkpoint_def)
    ultimately show ?thesis using wf rec rev Some
      by (simp add: parseOperationResponse_def json_operation_def parseJsonObject_def parse_optional_def parse_status_text
          text_of_status_defined reservation_text saved_item_def reservation_of_def)
  qed
qed

lemma mapM_compose:
  assumes "\<And>x. x \<in> set xs \<Longrightarrow> \<exists>y. f (g x) = Inr y \<and> h y = Inr (k x)"
  shows "\<exists>ys. mapM f (map g xs) = Inr ys \<and> mapM h ys = Inr (map k xs)"
  using assms
proof (induction xs)
  case (Cons x xs)
  obtain y where "f (g x) = Inr y" "h y = Inr (k x)" using Cons.prems by auto
  moreover obtain ys where "mapM f (map g xs) = Inr ys" "mapM h ys = Inr (map k xs)" using Cons by auto
  ultimately show ?case by auto
qed simp

text \<open>A page of readable operations is read back as their reservations, with its cursor.\<close>

lemma parse_page:
  assumes "\<And>s. s \<in> set (fst page) \<Longrightarrow> readable_operation s \<and> rb_scope (so_record s) = scope"
    and "wf_optional wf_bytes32 (snd page)"
  shows "\<exists>rs. parseApiResponse GET_operations 200 (json_page scope a page) = Inr (OperationList (a = healthy) rs (snd page)) \<and>
    mapM saved_item rs = Inr (map reservation_of (fst page))"
proof -
  obtain rs where rs: "mapM (\<lambda>item. parseOperationResponse item False) (map (\<lambda>s. json_operation scope (asReservation s)) (fst page)) = Inr rs"
      "mapM saved_item rs = Inr (map reservation_of (fst page))"
    using mapM_compose [of "fst page" "\<lambda>item. parseOperationResponse item False" "\<lambda>s. json_operation scope (asReservation s)" saved_item reservation_of]
      parseOperationResponse_json assms(1) by blast
  then show ?thesis using assms(2)
    by (cases "snd page"; cases a) (simp_all add: parseApiResponse_def json_page_def parseJsonObject_def parse_operation_list_def js_array_def
        parse_enum_def parse_optional_def)
qed

section \<open>The client attached to the object\<close>

text \<open>The transport that hands a request to the object, and writes the response as text.\<close>

definition served :: "'h Storage_scheme service_ports \<Rightarrow> ServiceEnv \<Rightarrow> (js_value \<Rightarrow> octets) \<Rightarrow> (js_value \<Rightarrow> string) \<Rightarrow> string \<Rightarrow>
    HttpRequest \<Rightarrow> ('h Storage_scheme, pay_error, HttpResponse) run" where
  "served ports env encode stringify origin hq = (\<lambda>w.
     case service_fetch ports env \<lparr>rq_method = hq_method hq, rq_origin = origin, rq_path = hq_path hq,
         rq_header_origin = hq_origin hq, rq_cookie = hq_cookie hq, rq_body = map_option (\<lambda>v. [encode v]) (hq_body hq)\<rparr> w of
       (Inr resp, w') \<Rightarrow> (Inr \<lparr>hs_status = resp_status resp, hs_text = stringify (resp_body resp),
         hs_setCookie = map_of (resp_headers resp) ''Set-Cookie''\<rparr>, w')
     | (Inl e, w') \<Rightarrow> (Inl (PortError ''unreachable''), w'))"

definition attached :: "'h Storage_scheme service_ports \<Rightarrow> ServiceEnv \<Rightarrow> (js_value \<Rightarrow> octets) \<Rightarrow> (js_value \<Rightarrow> string) \<Rightarrow>
    'h Storage_scheme ServiceClientOptions \<Rightarrow> 'h Storage_scheme ServiceClientOptions" where
  "attached ports env encode stringify options = options\<lparr>op_fetch := served ports env encode stringify (op_origin options)\<rparr>"

text \<open>The object serves the deployment of the client, whose session is open, under the recovery gate \<open>gate\<close>.\<close>

definition serving :: "'h Storage_scheme service_ports \<Rightarrow> ServiceEnv \<Rightarrow> 'h Storage_scheme ServiceClientOptions \<Rightarrow> RecoveryGate \<Rightarrow>
    'h Storage_scheme Client \<Rightarrow> bool" where
  "serving ports env options gate c \<longleftrightarrow> (let scope = op_scope options; w = cl_world c in
     db_deploymentId w = Some (sc_deploymentId scope) \<and>
     (\<exists>config. deployment_config ports env (sc_deploymentId scope) = Inr config \<and> dc_origin config = op_origin options) \<and>
     resolveRecoveryGate (sv_JSON_parse ports) (RECOVERY_JSON env) (sc_deploymentId scope) = Inr gate \<and>
     readSession (sha256 (sv_auth ports)) (cl_cookie c) scope (sv_now ports w) w = Some scope)"

text \<open>The platform reads back the URLs that it writes, and the JSON text of the pages.\<close>

definition operations_url :: "Scope \<Rightarrow> Bytes32 option \<Rightarrow> Url" where
  "operations_url scope cursor = \<lparr>url_pathname = ''/v1/operations'',
     url_searchParams = [(''deploymentId'', sc_deploymentId scope), (''owner'', sc_owner scope)] @
       (case cursor of None \<Rightarrow> [] | Some c \<Rightarrow> [(''cursor'', c)])\<rparr>"

definition page_of :: "RecoveryGate \<Rightarrow> Scope \<Rightarrow> 'h Storage_scheme \<Rightarrow> Bytes32 option \<Rightarrow> js_value" where
  "page_of gate scope w cursor = json_page scope (getAvailability gate w) (listOperations scope cursor w)"

definition platform_reads :: "'h Storage_scheme service_ports \<Rightarrow> (js_value \<Rightarrow> string) \<Rightarrow> 'h Storage_scheme ServiceClientOptions \<Rightarrow>
    RecoveryGate \<Rightarrow> 'h Storage_scheme \<Rightarrow> bool" where
  "platform_reads ports stringify options gate w \<longleftrightarrow> (\<forall>cursor.
     sv_request_URL ports (''/v1/operations'' @ ''?'' @ scopeQuery options @ cursor_suffix cursor) = Inr (operations_url (op_scope options) cursor) \<and>
     op_JSON_parse options (stringify (page_of gate (op_scope options) w cursor)) = Some (page_of gate (op_scope options) w cursor))"

text \<open>The client refuses a longer response.\<close>

definition page_fits :: "(js_value \<Rightarrow> string) \<Rightarrow> RecoveryGate \<Rightarrow> Scope \<Rightarrow> 'h Storage_scheme \<Rightarrow> Bytes32 option \<Rightarrow> bool" where
  "page_fits stringify gate scope w cursor \<longleftrightarrow> length (stringify (page_of gate scope w cursor)) \<le> 2 * 1024 * 1024"

lemma parse_operations_request:
  assumes "wf_scope scope" and "wf_optional wf_bytes32 cursor"
  shows "route_request ''GET'' (operations_url scope cursor) body legacy = Inr ((request_for GET_operations scope)\<lparr>pa_cursor := cursor\<rparr>)"
proof -
  have short: "path_id ''/v1/operations/'' post ''/v1/operations'' = None" for post
    by (rule path_id_short) simp
  have query: "parseQueryScope (operations_url scope cursor) = Inr scope"
    using assms(1) by (simp add: parseQueryScope_def operations_url_def search_param_def wf_scope_def parser_simps)
  have "parse_operations (operations_url scope cursor) = Inr ((request_for GET_operations scope)\<lparr>pa_cursor := cursor\<rparr>)"
    using assms(2) unfolding parse_operations_def query
    by (cases cursor) (simp_all add: operations_url_def request_for_def)
  then show ?thesis
    by (simp add: route_request_def Let_def) (simp add: operations_url_def short)
qed

lemma fetch_page:
  assumes "serving ports env options gate c" and "wf_scope (op_scope options)" and "wf_optional wf_bytes32 cursor"
    and url: "sv_request_URL ports path = Inr (operations_url (op_scope options) cursor)"
  shows "service_fetch ports env \<lparr>rq_method = ''GET'', rq_origin = op_origin options, rq_path = path, rq_header_origin = None,
    rq_cookie = cl_cookie c, rq_body = None\<rparr> (cl_world c) =
    (Inr (apiSuccess (page_of gate (op_scope options) (cl_world c) cursor) []), cl_world c)"
proof -
  let ?scope = "op_scope options" and ?w = "cl_world c"
  from assms(1) obtain config where
    config: "deployment_config ports env (sc_deploymentId ?scope) = Inr config" "dc_origin config = op_origin options"
    and gate: "resolveRecoveryGate (sv_JSON_parse ports) (RECOVERY_JSON env) (sc_deploymentId ?scope) = Inr gate"
    and bound: "db_deploymentId ?w = Some (sc_deploymentId ?scope)"
    and session: "readSession (sha256 (sv_auth ports)) (cl_cookie c) ?scope (sv_now ports ?w) ?w = Some ?scope"
    by (auto simp: serving_def Let_def)
  from session obtain identity where
    identity: "readSessionIdentity (sha256 (sv_auth ports)) (cl_cookie c) (sv_now ports ?w) ?w = Some identity"
      "sc_deploymentId identity = sc_deploymentId ?scope" "sameText (sc_owner identity) (sc_owner ?scope)"
    by (auto simp: readSession_def split: option.splits if_splits)
  have parsed: "read_request ports \<lparr>rq_method = ''GET'', rq_origin = op_origin options, rq_path = path, rq_header_origin = None,
      rq_cookie = cl_cookie c, rq_body = None\<rparr> = Inr ((request_for GET_operations ?scope)\<lparr>pa_cursor := cursor\<rparr>)"
    by (simp add: read_request_def read_body_def parse_with_def parseApiRequest_def url parse_operations_request assms(2,3))
  show ?thesis
    using config gate bound identity
    by (simp add: service_fetch_def ecatch_def handle_request_def parsed statement_simps Let_def request_for_def bind_deployment_def
        foreign_origin_def route_handler_def authorized_request_def session_request_def list_request_def page_of_def)
qed

lemma list_page:
  assumes ready: "serving ports env options gate c" "platform_reads ports stringify options gate (cl_world c)" "wf_scope (op_scope options)"
    and cursor: "wf_optional wf_bytes32 cursor"
    and page: "\<And>s. s \<in> set (fst (listOperations (op_scope options) cursor (cl_world c))) \<Longrightarrow> readable_operation s \<and> rb_scope (so_record s) = op_scope options"
      "wf_optional wf_bytes32 (snd (listOperations (op_scope options) cursor (cl_world c)))"
  shows "if page_fits stringify gate (op_scope options) (cl_world c) cursor
    then \<exists>rs. scope_request (attached ports env encode stringify options) GET_operations ''/v1/operations'' (cursor_suffix cursor) c =
        (Inr (OperationList (getAvailability gate (cl_world c) = healthy) rs (snd (listOperations (op_scope options) cursor (cl_world c)))), c) \<and>
      mapM saved_item rs = Inr (map reservation_of (fst (listOperations (op_scope options) cursor (cl_world c))))
    else scope_request (attached ports env encode stringify options) GET_operations ''/v1/operations'' (cursor_suffix cursor) c =
      (Inl protocol_error, c)"
proof -
  let ?page = "listOperations (op_scope options) cursor (cl_world c)" and ?a = "getAvailability gate (cl_world c)"
  obtain rs where rs: "parseApiResponse GET_operations 200 (json_page (op_scope options) ?a ?page) = Inr (OperationList (?a = healthy) rs (snd ?page))"
      "mapM saved_item rs = Inr (map reservation_of (fst ?page))"
    using parse_page [OF page] by blast
  define path where "path = ''/v1/operations'' @ ''?'' @ scopeQuery options @ cursor_suffix cursor"
  have reads: "sv_request_URL ports path = Inr (operations_url (op_scope options) cursor)"
      "op_JSON_parse options (stringify (page_of gate (op_scope options) (cl_world c) cursor)) = Some (page_of gate (op_scope options) (cl_world c) cursor)"
    using ready(2) unfolding platform_reads_def path_def by blast+
  have query: "scopeQuery (attached ports env encode stringify options) = scopeQuery options"
    by (simp add: attached_def scopeQuery_def)
  have fetch: "op_fetch (attached ports env encode stringify options) \<lparr>hq_method = ''GET'', hq_path = path,
      hq_json = False, hq_origin = None, hq_cookie = cl_cookie c, hq_body = None\<rparr> (cl_world c) =
    (Inr \<lparr>hs_status = 200, hs_text = stringify (page_of gate (op_scope options) (cl_world c) cursor), hs_setCookie = None\<rparr>, cl_world c)"
    by (simp add: attached_def served_def fetch_page [OF ready(1,3) cursor reads(1)] apiSuccess_def)
  have response: "read_response (attached ports env encode stringify options) GET_operations
      \<lparr>hs_status = 200, hs_text = stringify (page_of gate (op_scope options) (cl_world c) cursor), hs_setCookie = None\<rparr> =
    (if page_fits stringify gate (op_scope options) (cl_world c) cursor then Inr (OperationList (?a = healthy) rs (snd ?page)) else Inl protocol_error)"
    using reads(2) rs(1)
    by (simp add: read_response_def attached_def page_of_def page_fits_def MAX_RESPONSE_def recast_def require_def rbind_def)
  have "scope_request (attached ports env encode stringify options) GET_operations ''/v1/operations'' (cursor_suffix cursor) c =
      (if page_fits stringify gate (op_scope options) (cl_world c) cursor then Inr (OperationList (?a = healthy) rs (snd ?page)) else Inl protocol_error, c)"
    unfolding scope_request_def service_request_def query path_def [symmetric]
    by (simp add: statement_simps ebind_def ecast_def ecatch_def on_world_def fetch response)
  with rs(2) show ?thesis by simp
qed

section \<open>The loop over the pages\<close>

lemma fromRow_scope [simp]: "rb_scope (so_record (fromRow scope row w)) = scope"
  by (simp add: fromRow_def)

lemma readable_id: "readable_operation (fromRow scope row w) \<Longrightarrow> wf_bytes32 (record_id row)"
  by (simp add: readable_operation_def wf_record_def)

text \<open>The cursors of the pages of the loop: the first, and the last identifier of every page that is not the last.\<close>

definition page_cursors :: "Scope \<Rightarrow> Bytes32 option \<Rightarrow> 'h Storage_scheme \<Rightarrow> Bytes32 option list" where
  "page_cursors scope cursor w = (let rows = scope_rows scope cursor w in
     cursor # map (\<lambda>k. Some (record_id (rows ! (100 * k + 99)))) [0..<(length rows - 1) div 100])"

lemma page_cursors_last: "length (scope_rows scope cursor w) \<le> 100 \<Longrightarrow> page_cursors scope cursor w = [cursor]"
  by (simp add: page_cursors_def Let_def)

lemma page_cursors_next:
  assumes "store_inv w" and long: "length (scope_rows scope cursor w) > 100"
  shows "page_cursors scope cursor w = cursor # page_cursors scope (Some (record_id (scope_rows scope cursor w ! 99))) w"
proof -
  let ?rows = "scope_rows scope cursor w"
  have "(length ?rows - 1) div 100 = Suc ((length ?rows - 101) div 100)"
    using long by (subst Suc_diff_Suc [symmetric]) (auto simp: div_eq_dividend_iff le_div_geq)
  then have "[0..<(length ?rows - 1) div 100] = 0 # map Suc [0..<(length (drop 100 ?rows) - 1) div 100]"
    by (simp only: upt_conv_Cons map_Suc_upt length_drop diff_diff_left) simp
  then show ?thesis
    unfolding page_cursors_def Let_def next_page [OF assms] by (simp add: add.commute [of 100] comp_def)
qed

text \<open>With fuel for the pages that are left, the loop returns them all and stops, or it stops at a page that is too long.\<close>

lemma list_pages_all:
  assumes ready: "serving ports env options gate c" "platform_reads ports stringify options gate (cl_world c)" "wf_scope (op_scope options)"
    and inv: "store_inv (cl_world c)" and healthy: "getAvailability gate (cl_world c) = healthy"
    and readable: "list_all (\<lambda>row. readable_operation (fromRow (op_scope options) row (cl_world c))) (scope_rows (op_scope options) cursor (cl_world c))"
    and cursor: "wf_optional wf_bytes32 cursor"
    and fuel: "length (scope_rows (op_scope options) cursor (cl_world c)) < 100 * fuel"
  shows "list_pages fuel (attached ports env encode stringify options) cursor records c =
    (if \<forall>cur \<in> set (page_cursors (op_scope options) cursor (cl_world c)). page_fits stringify gate (op_scope options) (cl_world c) cur
     then Inr (list_healthy, records @ map (\<lambda>row. reservation_of (fromRow (op_scope options) row (cl_world c)))
       (scope_rows (op_scope options) cursor (cl_world c))) else Inl protocol_error, c)"
  using readable cursor fuel
proof (induction fuel arbitrary: cursor records)
  case (Suc fuel)
  let ?rows = "scope_rows (op_scope options) cursor (cl_world c)" and ?saved = "\<lambda>row. fromRow (op_scope options) row (cl_world c)"
  let ?ask = "scope_request (attached ports env encode stringify options) GET_operations ''/v1/operations'' (cursor_suffix cursor) c"
  let ?fits = "page_fits stringify gate (op_scope options) (cl_world c)"
  have pages: "fst (listOperations (op_scope options) cursor (cl_world c)) = map ?saved (take 100 ?rows)"
    "snd (listOperations (op_scope options) cursor (cl_world c)) = (if length ?rows > 100 then Some (record_id (?rows ! 99)) else None)"
    by (simp_all add: listOperations_rows)
  have page: "readable_operation s \<and> rb_scope (so_record s) = op_scope options" if "s \<in> set (map ?saved (take 100 ?rows))" for s
    using that Suc.prems(1) by (auto simp: list_all_iff dest: in_set_takeD)
  have id99: "wf_bytes32 (record_id (?rows ! 99))" if "length ?rows > 100"
    using that Suc.prems(1) by (auto simp: list_all_iff intro!: readable_id)
  have asked: "if ?fits cursor then \<exists>rs. ?ask = (Inr (OperationList (getAvailability gate (cl_world c) = healthy) rs
        (snd (listOperations (op_scope options) cursor (cl_world c)))), c) \<and>
      mapM saved_item rs = Inr (map reservation_of (fst (listOperations (op_scope options) cursor (cl_world c))))
    else ?ask = (Inl protocol_error, c)"
    by (rule list_page [OF ready Suc.prems(2)]) (use page id99 in \<open>simp_all only: pages, simp add: wf_optional_def\<close>)
  show ?case
  proof (cases "?fits cursor")
    case False
    then have "?ask = (Inl protocol_error, c)" using asked by simp
    moreover have "cursor \<in> set (page_cursors (op_scope options) cursor (cl_world c))" by (simp add: page_cursors_def Let_def)
    ultimately show ?thesis using False by (auto simp: ebind_def)
  next
    case fits: True
    then obtain rs where rs: "?ask = (Inr (OperationList True rs (if length ?rows > 100 then Some (record_id (?rows ! 99)) else None)), c)"
      "mapM saved_item rs = Inr (map (\<lambda>row. reservation_of (?saved row)) (take 100 ?rows))"
      using asked unfolding pages by (auto simp: comp_def healthy)
    show ?thesis
    proof (cases "length ?rows > 100")
      case True
      note rest = next_page [OF inv True]
      let ?next = "Some (record_id (?rows ! 99))"
      have "list_pages fuel (attached ports env encode stringify options) ?next
          (records @ map (\<lambda>row. reservation_of (?saved row)) (take 100 ?rows)) c =
        (if \<forall>cur \<in> set (page_cursors (op_scope options) ?next (cl_world c)). ?fits cur
         then Inr (list_healthy, (records @ map (\<lambda>row. reservation_of (?saved row)) (take 100 ?rows)) @
          map (\<lambda>row. reservation_of (?saved row)) (scope_rows (op_scope options) ?next (cl_world c))) else Inl protocol_error, c)"
        by (rule Suc.IH) (use Suc.prems(1,3) id99 [OF True] True in \<open>auto simp: rest list_all_iff dest: in_set_dropD\<close>)
      then show ?thesis
        using rs True fits page_cursors_next [OF inv True] by (simp add: ebind_def rest map_append [symmetric] del: map_append)
    next
      case False
      then show ?thesis using rs fits page_cursors_last [of "op_scope options" cursor "cl_world c"] by (simp add: ebind_def)
    qed
  qed
qed simp

lemma scope_rows_saved:
  assumes inv: "store_inv w"
  shows "row \<in> set (scope_rows scope None w) \<longleftrightarrow> (\<exists>i. operation_row scope (toLowerCase i) w = Some row) \<and> record_id row \<noteq> []"
proof
  assume row: "row \<in> set (scope_rows scope None w)"
  then have member: "row \<in> set (db_operations w)" "operation_key row = scope_key scope (record_id row)" "record_id row \<noteq> []"
    by (auto simp: scope_rows_def operation_key_def scope_key_def)
  have "operation_row scope (record_id row) w = Some row"
    unfolding operation_row_def
    by (rule select_first_unique [of operation_key]) (use inv member in \<open>auto simp: store_inv_def rows_inv_def\<close>)
  then show "(\<exists>i. operation_row scope (toLowerCase i) w = Some row) \<and> record_id row \<noteq> []"
    using scope_rows_lower [OF inv row] member(3) by metis
next
  assume "(\<exists>i. operation_row scope (toLowerCase i) w = Some row) \<and> record_id row \<noteq> []"
  then obtain i where "operation_row scope (toLowerCase i) w = Some row" "record_id row \<noteq> []" by blast
  then show "row \<in> set (scope_rows scope None w)"
    using operation_row_key [of scope "toLowerCase i" w row]
    by (auto simp: scope_rows_def operation_key_def scope_key_def neq_Nil_conv)
qed

text \<open>The listed rows are the saved operations.\<close>

lemma listed_records:
  assumes inv: "store_inv w" and readable: "\<And>i s. getOperation scope i w = Some s \<Longrightarrow> readable_operation s"
  shows "set (map (\<lambda>row. reservation_of (fromRow scope row w)) (scope_rows scope None w)) =
    {reservation_of s | i s. getOperation scope i w = Some s}"
proof
  show "set (map (\<lambda>row. reservation_of (fromRow scope row w)) (scope_rows scope None w)) \<subseteq> {reservation_of s | i s. getOperation scope i w = Some s}"
    unfolding set_map using scope_rows_saved [OF inv] by (force simp: getOperation_eq_Some)
  show "{reservation_of s | i s. getOperation scope i w = Some s} \<subseteq> set (map (\<lambda>row. reservation_of (fromRow scope row w)) (scope_rows scope None w))"
  proof clarify
    fix i s assume s: "getOperation scope i w = Some s"
    then obtain row where row: "operation_row scope (toLowerCase i) w = Some row" "s = fromRow scope row w"
      by (auto simp: getOperation_eq_Some)
    have "wf_bytes32 (record_id row)" using readable [OF s] row(2) by (intro readable_id) simp
    then have "record_id row \<noteq> []" by (auto simp: wf_bytes32_def dest: bytes_text_nonempty)
    then have "row \<in> set (scope_rows scope None w)" using row(1) unfolding scope_rows_saved [OF inv] by blast
    then show "reservation_of s \<in> set (map (\<lambda>row. reservation_of (fromRow scope row w)) (scope_rows scope None w))"
      unfolding row(2) set_map by (rule imageI)
  qed
qed


definition listing_URL :: "string \<Rightarrow> Url pay_res" where
  "listing_URL path = Inr (operations_url example_scope
     (if path = ''/v1/operations?q'' then None else Some (drop (length ''/v1/operations?q&cursor='') path)))"

definition listing_page :: js_value where
  "listing_page = json_page example_scope healthy ([fromRow example_scope (new_row example_scope example_pay_record) saved_store], None)"

definition listing_text :: "js_value \<Rightarrow> string" where
  "listing_text v = (if v = listing_page then ''1'' else ''0'')"

definition listing_options :: "Storage ServiceClientOptions" where
  "listing_options = \<lparr>op_baseUrl = ''https://s'', op_origin = ''https://s'', op_siweUri = ''https://s/'', op_chainId = 31337,
     op_scope = example_scope, op_address = sc_owner example_scope, op_signMessage = (\<lambda>_. ereturn []),
     op_fetch = (\<lambda>_. ethrow TypeError), op_now = (\<lambda>_. 5), op_new_URL = (\<lambda>_. None),
     op_JSON_parse = (\<lambda>s. Some (if s = ''1'' then listing_page else json_page example_scope healthy ([], None))),
     op_searchParams = (\<lambda>_. ''q''), op_createSiwe = (\<lambda>_. Inr [])\<rparr>"

definition listing_client :: "Storage Client" where
  "listing_client = \<lparr>cl_cookie = Some served_cookie, cl_world = saved_store\<rparr>"

lemma listing_serving: "serving (served_ports listing_URL) served_env listing_options example_gate listing_client"
  using served_session [of saved_store listing_URL]
  by (simp add: serving_def listing_options_def listing_client_def served_deployment served_gate served_availability(2))
    (simp add: saved_store_def with_new_def ready_store_def served_config_def)

lemma listing_reads: "platform_reads (served_ports listing_URL) listing_text listing_options example_gate saved_store"
proof -
  have url: "listing_URL (''/v1/operations'' @ ''?'' @ ''q'' @ cursor_suffix cursor) = Inr (operations_url example_scope cursor)" for cursor
    by (cases cursor) (simp_all add: listing_URL_def cursor_suffix_def)
  have page: "page_of example_gate example_scope saved_store cursor = listing_page \<or> page_of example_gate example_scope saved_store cursor = json_page example_scope healthy ([], None)" for cursor
    using saved_store_pages [of example_scope cursor] by (auto simp: page_of_def listing_page_def served_availability(2))
  have query: "scopeQuery listing_options = ''q''" "op_scope listing_options = example_scope" "sv_request_URL (served_ports listing_URL) = listing_URL"
    by (simp_all add: scopeQuery_def listing_options_def served_ports_def)
  have parse: "op_JSON_parse listing_options (listing_text v) = Some v" if "v = listing_page \<or> v = json_page example_scope healthy ([], None)" for v
    using that by (auto simp: listing_options_def listing_text_def)
  show ?thesis
    unfolding platform_reads_def query by (intro allI conjI) (rule url, rule parse [OF page])
qed

lemma listing_readable: "readable_operation (fromRow example_scope (new_row example_scope example_pay_record) saved_store)"
proof -
  have "so_record (fromRow example_scope (new_row example_scope example_pay_record) saved_store) = example_pay_record"
    by (simp add: fromRow_def new_row_def example_pay_record_def attempts_def saved_store_rows(2))
  then show ?thesis
    by (simp add: readable_operation_def example_record_wf) (simp add: new_row_def fromRow_def wf_revision_def isSafeInteger_def terminal_def)
qed


end
