(* ===== verification/ServiceGuard.thy ===== *)
theory ServiceGuard
  imports ServiceExample
begin

text \<open>
  Who may change and read what through \<open>fetch\<close>.  What belongs to one operation is a operation_slice of the tables; a commit
  changes the operation_slice of its own record only; and between the parsing of a request and its commit there is the check of
  the session.
\<close>

section \<open>Slices\<close>

definition operation_slice :: "string \<times> string \<times> string \<Rightarrow> 'h Storage_scheme \<Rightarrow> OperationRow list \<times> AttemptRow list" where
  "operation_slice k w = (filter (\<lambda>r. operation_key r = k) (db_operations w), attempts_of k w)"

lemma select_first_filter: "select_first p xs = select_first p (filter p xs)"
  by (induction xs) (simp_all add: select_first_def)

lemma slice_getOperation:
  assumes "operation_slice (scope_key scope (toLowerCase i)) w' = operation_slice (scope_key scope (toLowerCase i)) w"
  shows "getOperation scope i w' = getOperation scope i w"
proof -
  have row: "operation_row scope (toLowerCase i) w' = operation_row scope (toLowerCase i) w"
    using assms unfolding operation_row_def operation_slice_def by (metis (no_types, lifting) Pair_inject select_first_filter)
  have "attempts scope (toLowerCase i) w' = attempts scope (toLowerCase i) w"
    using assms by (simp add: attempts_def operation_slice_def attempts_of_def)
  then show ?thesis
    using row by (auto simp: getOperation_def fromRow_def dest!: operation_row_id split: option.split intro!: map_option_cong)
qed

lemma slice_update:
  assumes "touches f" and "k \<noteq> scope_key scope i"
  shows "operation_slice k (update_operation scope i f w) = operation_slice k w"
proof -
  have "filter (\<lambda>r. operation_key r = k) (map (\<lambda>r. if operation_key r = scope_key scope i then f r else r) rows) =
    filter (\<lambda>r. operation_key r = k) rows" for rows
    by (induction rows) (use assms in \<open>auto simp: touches_def\<close>)
  then show ?thesis by (simp add: operation_slice_def update_operation_def update_rows_def attempts_of_def)
qed

lemma slice_put_written: "k \<noteq> scope_key scope (rb_recordId r) \<Longrightarrow> operation_slice k (put_written scope r start w) = operation_slice k w"
  using slice_update [OF touches_updates(1), of k scope "rb_recordId r" r w]
    attempts_of_append [of k "update_operation scope (rb_recordId r) (put_update r) w" scope "rb_recordId r" start "drop start (rb_attemptIds r)"]
  by (simp add: operation_slice_def put_written_def)

lemma slice_with_new: "k \<noteq> scope_key scope (rb_recordId r) \<Longrightarrow> operation_slice k (with_new scope r w) = operation_slice k w"
  using attempts_of_append [of k w scope "rb_recordId r" 0 "rb_attemptIds r"] new_keys(1) [of scope r]
  by (simp add: operation_slice_def with_new_def attempts_of_def)

lemma slice_put_commit:
  assumes "put_commit scope (normalize_record r) e (ensureWritable gate) w = (Inr s, w')"
    and "k \<noteq> scope_key scope (rb_recordId (normalize_record r))"
  shows "operation_slice k w' = operation_slice k w"
  using assms(1) by (cases rule: put_commit_cases) (simp_all add: slice_put_written slice_with_new assms(2))

lemma slice_release_commit:
  assumes "release_commit scope (normalize_record r) e c (ensureWritable gate) w = (Inr s, w')"
    and "k \<noteq> scope_key scope (rb_recordId (normalize_record r))"
  shows "operation_slice k w' = operation_slice k w"
proof (cases "w' = w")
  case False
  from release_row [OF assms(1) this] obtain row where "w' = delete_reservation scope (rb_inputId (normalize_record r)) (rb_recordId (normalize_record r))
      (update_operation scope (rb_recordId (normalize_record r)) (release_update (normalize_record r) c) w)" by metis
  then show ?thesis
    using slice_update [OF touches_updates(2) assms(2), of "normalize_record r" c w] by (simp add: operation_slice_def attempts_of_def)
qed simp

text \<open>What a commit that succeeded returns is what is saved.\<close>

lemma put_commit_saved:
  "put_commit scope (normalize_record r) e (ensureWritable gate) w = (Inr s, w') \<Longrightarrow>
   getOperation scope (rb_recordId (normalize_record r)) w' = Some s"
  using put_existing_eq_Inr(2) put_new_eq_Inr(4) by (fastforce simp: put_commit_eq_Inr split: option.splits)

lemma release_commit_saved:
  "release_commit scope (normalize_record r) e c (ensureWritable gate) w = (Inr s, w') \<Longrightarrow>
   \<exists>saved. getOperation scope (rb_recordId (normalize_record r)) w' = Some saved \<and> s = asReservation saved"
  using release_current_eq_Inr(2) by (fastforce simp: release_commit_eq_Inr)

section \<open>Calls that leave the store alone\<close>

definition same_store :: "'h Storage_scheme \<Rightarrow> 'h Storage_scheme \<Rightarrow> bool" where
  "same_store w w' \<longleftrightarrow> db_operations w' = db_operations w \<and> db_active_reservations w' = db_active_reservations w \<and>
     db_operation_attempts w' = db_operation_attempts w \<and> db_environment_state w' = db_environment_state w \<and>
     db_deploymentId w' = db_deploymentId w"

definition keeps_store :: "('h Storage_scheme, 'e, 'a) run \<Rightarrow> bool" where
  "keeps_store m \<longleftrightarrow> (\<forall>w. same_store w (snd (m w)))"

named_theorems keeps_intros \<open>calls that leave the store alone\<close>

lemma same_store_refl [simp]: "same_store w w"
  and same_store_trans: "same_store u v \<Longrightarrow> same_store v w \<Longrightarrow> same_store u w"
  by (simp_all add: same_store_def)

lemma same_store_slice: "same_store w w' \<Longrightarrow> operation_slice k w' = operation_slice k w"
  by (simp add: same_store_def operation_slice_def attempts_of_def)

lemma keeps_storeD: "keeps_store m \<Longrightarrow> m w = (r, w') \<Longrightarrow> same_store w w'"
  unfolding keeps_store_def by (metis snd_conv)

lemma keeps_simple [keeps_intros]:
  "keeps_store (ereturn a)" "keeps_store (ethrow e)" "keeps_store (elift m)" "keeps_store (equery f)" "keeps_store (ewhen b e)"
  by (simp_all add: keeps_store_def ewhen_def)

lemma keeps_store_bind [keeps_intros]: "keeps_store m \<Longrightarrow> (\<And>a. keeps_store (f a)) \<Longrightarrow> keeps_store (ebind m f)"
  unfolding keeps_store_def ebind_def by (auto split: prod.split sum.split dest: same_store_trans) (metis same_store_trans snd_conv)+

lemma keeps_store_catch [keeps_intros]: "keeps_store m \<Longrightarrow> (\<And>e. keeps_store (h e)) \<Longrightarrow> keeps_store (ecatch m h)"
  unfolding keeps_store_def ecatch_def by (auto split: prod.split sum.split dest: same_store_trans) (metis same_store_trans snd_conv)+

lemma keeps_cast [keeps_intros]: "keeps_store m \<Longrightarrow> keeps_store (ecast e m)"
  unfolding ecast_def by (intro keeps_intros)

lemma keeps_if [keeps_intros]: "(b \<Longrightarrow> keeps_store m) \<Longrightarrow> (\<not> b \<Longrightarrow> keeps_store n) \<Longrightarrow> keeps_store (if b then m else n)"
  by simp

lemma keeps_option [keeps_intros]:
  "(x = None \<Longrightarrow> keeps_store m) \<Longrightarrow> (\<And>a. x = Some a \<Longrightarrow> keeps_store (f a)) \<Longrightarrow> keeps_store (case x of None \<Rightarrow> m | Some a \<Rightarrow> f a)"
  by (cases x) simp_all

lemma keeps_attempt [keeps_intros]: "keeps_store m \<Longrightarrow> (\<And>a. keeps_store (f a)) \<Longrightarrow> keeps_store (attempt_port m f)"
  unfolding attempt_port_def by (intro keeps_intros)

lemma keeps_update: "(\<And>w. same_store w (f w)) \<Longrightarrow> keeps_store (eupdate f)"
  by (simp add: keeps_store_def)

lemma keeps_transaction [keeps_intros]: "keeps_store m \<Longrightarrow> keeps_store (transactionSync m)"
  unfolding keeps_store_def transactionSync_def by (auto split: prod.split sum.split) (metis snd_conv)

text \<open>The ports of a service whose calls leave the store alone: other requests are not served meanwhile.\<close>

definition quiet_history :: "'h Storage_scheme HistoryPort \<Rightarrow> bool" where
  "quiet_history h \<longleftrightarrow> keeps_store (getFinalizedCheckpoint h) \<and> (\<forall>p. keeps_store (getContext h p)) \<and>
     (\<forall>n p. keeps_store (getCanonicalHeader h n p)) \<and> (\<forall>i p. keeps_store (getUtxo h i p)) \<and>
     (\<forall>i p. keeps_store (getOperationSuccess h i p)) \<and> keeps_store (getLatestHeader h) \<and> (\<forall>i p. keeps_store (getLatestUtxo h i p))"

definition quiet_service :: "'h Storage_scheme service_ports \<Rightarrow> bool" where
  "quiet_service ports \<longleftrightarrow> keeps_store (randomHex (sv_auth ports)) \<and>
     (\<forall>a m s. keeps_store (verifyMessage (sv_auth ports) a m s)) \<and>
     (\<forall>provider d config h. sv_provider ports = Some provider \<longrightarrow> provider d config = Inr h \<longrightarrow> quiet_history h) \<and>
     (\<forall>d config source. keeps_store (sv_runtime ports d config source)) \<and>
     (\<forall>d config source w runtime w'. sv_runtime ports d config source w = (Inr runtime, w') \<longrightarrow>
        quiet_history (rt_history runtime) \<and> (\<forall>t. keeps_store (rt_getBlock runtime t))) \<and>
     (\<forall>route handle parsed. map_of (sv_extensions ports) route = Some handle \<longrightarrow> keeps_store (handle parsed))"

lemma keeps_observed [keeps_intros]: "keeps_store m \<Longrightarrow> (\<And>a. keeps_store (f a)) \<Longrightarrow> keeps_store (observed m p f)"
  unfolding observed_def by (intro keeps_intros)

lemma keeps_readInput [keeps_intros]: "quiet_history h \<Longrightarrow> keeps_store (readInput h config scope i)"
  unfolding readInput_def read_pinned_def read_latest_def Let_def quiet_history_def by (intro keeps_intros) auto

lemma keeps_insert:
  "(\<And>w w'. f w = Inr w' \<Longrightarrow> same_store w w') \<Longrightarrow> keeps_store (einsert f)"
  by (auto simp: keeps_store_def einsert_def split: sum.split)

lemma keeps_insert_challenge [keeps_intros]: "keeps_store (insert_challenge row)"
  and keeps_insert_session [keeps_intros]: "keeps_store (insert_session s)"
  unfolding insert_challenge_def insert_session_def
  by (rule keeps_insert; auto simp: same_store_def insert_row_def map_sum_def split: if_splits)+

lemma keeps_sign_in [keeps_intros]:
  assumes "keeps_store (randomHex ports)" and "\<And>a m s. keeps_store (verifyMessage ports a m s)"
  shows "keeps_store (createChallenge ports scope now)" and "keeps_store (verifyChallenge ports host config scope i message sg now)"
proof -
  show "keeps_store (createChallenge ports scope now)"
    unfolding createChallenge_def Let_def by (intro keeps_intros assms)
  have "keeps_store (eupdate (\<lambda>w :: 'a Storage_scheme. w\<lparr>db_challenges := t w\<rparr>))" for t
    by (rule keeps_update) (simp add: same_store_def)
  then have "keeps_store (open_session scope i hash now :: ('a Storage_scheme, service_error, unit) run)" for hash
    unfolding open_session_def by (intro keeps_intros)
  then show "keeps_store (verifyChallenge ports host config scope i message sg now)"
    unfolding verifyChallenge_def by (intro keeps_intros assms)
qed

lemma keeps_ensureWritable [keeps_intros]: "keeps_store (ensureWritable gate)"
  unfolding ensureWritable_def by (intro keeps_intros)

section \<open>The commit of a request\<close>

text \<open>How a request of a scope ends: the store is as before, or its own record was committed and is the response.\<close>

definition answered :: "ParsedApiRequest \<Rightarrow> service_error + Response \<Rightarrow> 'h Storage_scheme \<Rightarrow> 'h Storage_scheme \<Rightarrow> bool" where
  "answered parsed r w w' \<longleftrightarrow> same_store w w' \<or>
     db_deploymentId w' = db_deploymentId w \<and> pa_route parsed \<in> {PUT_operation, POST_release} \<and> pa_record parsed \<noteq> None \<and>
     (let i = toLowerCase (rb_recordId (the (pa_record parsed)))
      in (\<forall>k. k \<noteq> scope_key (pa_scope parsed) i \<longrightarrow> operation_slice k w' = operation_slice k w) \<and>
         (\<exists>saved. getOperation (pa_scope parsed) i w' = Some saved \<and>
           r = Inr (apiSuccess (json_operation (pa_scope parsed) (asReservation saved)) [])))"

lemma answered_same: "same_store w w' \<Longrightarrow> answered parsed r w w'"
  by (simp add: answered_def)

lemma answered_after: "same_store w w1 \<Longrightarrow> answered parsed r w1 w' \<Longrightarrow> answered parsed r w w'"
  unfolding answered_def Let_def by (auto simp: same_store_slice dest: same_store_trans) (simp_all add: same_store_def)

lemma bound_stays:
  "put_commit scope (normalize_record r) e (ensureWritable gate) w = (Inr s, w') \<Longrightarrow> db_deploymentId w' = db_deploymentId w"
  "release_commit scope (normalize_record r) e c (ensureWritable gate) w = (Inr s', w') \<Longrightarrow> db_deploymentId w' = db_deploymentId w"
proof -
  show "db_deploymentId w' = db_deploymentId w" if "put_commit scope (normalize_record r) e (ensureWritable gate) w = (Inr s, w')"
    using that by (cases rule: put_commit_cases) (simp_all add: put_written_def with_new_def update_operation_def)
  show "db_deploymentId w' = db_deploymentId w" if "release_commit scope (normalize_record r) e c (ensureWritable gate) w = (Inr s', w')"
  proof (cases "w' = w")
    case False
    from release_row [OF that this] obtain row where "w' = delete_reservation scope (rb_inputId (normalize_record r)) (rb_recordId (normalize_record r))
        (update_operation scope (rb_recordId (normalize_record r)) (release_update (normalize_record r) c) w)" by metis
    then show ?thesis by (simp add: delete_reservation_def update_operation_def)
  qed simp
qed

lemma putOperation_answer:
  assumes quiet: "\<And>s i. keeps_store (reader s i)"
    and run: "putOperation reader (ensureWritable gate) scope r e w = (x, w')"
  shows "same_store w w' \<or> (\<exists>w1 saved. same_store w w1 \<and> x = Inr saved \<and>
    put_commit scope (normalize_record r) e (ensureWritable gate) w1 = (Inr saved, w'))"
proof -
  define before where "before = ebind (check_scope scope (normalize_record r)) (\<lambda>_.
    ebind (equery (getOperation scope (rb_recordId (normalize_record r)))) (\<lambda>existing.
      if existing = None then check_new reader scope (normalize_record r) else ereturn ()))"
  let ?commit = "transactionSync (put_commit scope (normalize_record r) e (ensureWritable gate))"
  have keeps: "keeps_store before"
    unfolding before_def check_scope_def check_new_def by (intro keeps_intros quiet)
  have "putOperation reader (ensureWritable gate) scope r e w = ebind before (\<lambda>_. ?commit) w"
    unfolding putOperation_def before_def Let_def by (auto simp: ebind_def split: prod.split sum.split)
  then have "ebind before (\<lambda>_. ?commit) w = (x, w')" using run by simp
  then obtain y w1 where before: "before w = (y, w1)" "y = Inl e' \<Longrightarrow> x = Inl e' \<and> w' = w1" "y = Inr u \<Longrightarrow> ?commit w1 = (x, w')" for e' u
    by (cases "before w"; cases "fst (before w)") (auto simp: ebind_def)
  have same: "same_store w w1" by (rule keeps_storeD [OF keeps before(1)])
  show ?thesis
  proof (cases y)
    case (Inl a)
    then show ?thesis using before(2) same by blast
  next
    case (Inr u)
    note commit = before(3) [OF this]
    show ?thesis
    proof (cases x)
      case Inl
      then have "w' = w1" using commit transactionSync_Inl by metis
      then show ?thesis using same by simp
    next
      case (Inr saved)
      then show ?thesis using commit same by (auto simp: transactionSync_eq_Inr)
    qed
  qed
qed

lemma releaseOperation_answer:
  assumes "releaseOperation (ensureWritable gate) scope r e c w = (x, w')"
  shows "w' = w \<or> (\<exists>saved. x = Inr saved \<and> release_commit scope (normalize_record r) e c (ensureWritable gate) w = (Inr saved, w'))"
  using assms unfolding releaseOperation_def Let_def check_scope_def ebind_ewhen
  by (cases x) (auto simp: transactionSync_eq_Inr dest: transactionSync_Inl split: if_splits)

text \<open>Calls that answer a request; a call that leaves the store alone may come before.\<close>

definition answers :: "ParsedApiRequest \<Rightarrow> ('h Storage_scheme, service_error, Response) run \<Rightarrow> bool" where
  "answers parsed m \<longleftrightarrow> (\<forall>w r w'. m w = (r, w') \<longrightarrow> answered parsed r w w')"

lemma answers_keeps: "keeps_store m \<Longrightarrow> answers parsed m"
  unfolding answers_def using answered_same keeps_storeD by blast

lemma answers_bind:
  assumes "keeps_store m" and "\<And>a w w'. m w = (Inr a, w') \<Longrightarrow> answers parsed (f a)"
  shows "answers parsed (ebind m f)"
  unfolding answers_def
proof (intro allI impI)
  fix w r w' assume run: "ebind m f w = (r, w')"
  obtain y w1 where m: "m w = (y, w1)" by (cases "m w")
  have same: "same_store w w1" by (rule keeps_storeD [OF assms(1) m])
  show "answered parsed r w w'"
  proof (cases y)
    case (Inl e)
    then show ?thesis using run m same by (auto simp: ebind_def intro: answered_same)
  next
    case (Inr a)
    then have "f a w1 = (r, w')" using run m by (simp add: ebind_def)
    then show ?thesis
      using assms(2) [of w a w1] m Inr answered_after [OF same] unfolding answers_def by blast
  qed
qed

lemma answers_attempt:
  assumes "keeps_store m" and "\<And>a w w'. m w = (Inr a, w') \<Longrightarrow> answers parsed (f a)"
  shows "answers parsed (attempt_port m f)"
  unfolding attempt_port_def
proof (rule answers_bind)
  show "keeps_store (ecatch (ebind m (\<lambda>a. ereturn (Some a))) (\<lambda>_. ereturn None))" by (intro keeps_intros assms(1))
  fix found w w' assume run: "ecatch (ebind m (\<lambda>a. ereturn (Some a))) (\<lambda>_. ereturn None) w = (Inr found, w')"
  show "answers parsed (case found of None \<Rightarrow> ereturn unavailable | Some a \<Rightarrow> f a)"
  proof (cases found)
    case None
    then show ?thesis by (auto intro: answers_keeps keeps_intros)
  next
    case (Some a)
    then have "m w = (Inr a, w')" using run by (auto simp: ecatch_eq_Inr ebind_eq_Inr)
    then show ?thesis using Some assms(2) by simp
  qed
qed

lemma answers_put_request:
  assumes quiet: "quiet_service ports" and rec: "pa_record parsed \<noteq> None" "pa_route parsed = PUT_operation"
  shows "answers parsed (put_request ports env config gate parsed)"
  unfolding put_request_def
proof (rule answers_bind [OF keeps_ensureWritable], rule answers_attempt)
  show "keeps_store (history_for ports env (sc_deploymentId (pa_scope parsed)) config)"
    unfolding history_for_def loadEthereumHistory_def
    by (intro keeps_intros) (use quiet in \<open>simp add: quiet_service_def\<close>)
  fix history and w w' :: "'a Storage_scheme"
  assume "history_for ports env (sc_deploymentId (pa_scope parsed)) config w = (Inr history, w')"
  then have "quiet_history history"
    using quiet unfolding history_for_def loadEthereumHistory_def quiet_service_def
    by (auto simp: ebind_eq_Inr split: option.splits) blast+
  then have reader: "keeps_store (readInput history config s i :: ('a Storage_scheme, service_error, InputState) run)" for s i
    by (rule keeps_readInput)
  let ?r = "the (pa_record parsed)"
  show "answers parsed (ebind (putOperation (readInput history config) (ensureWritable gate) (pa_scope parsed) ?r
      (the (pa_expectedRevision parsed))) (\<lambda>saved. ereturn (apiSuccess (json_operation (pa_scope parsed) (asReservation saved)) [])))"
    unfolding answers_def
  proof (intro allI impI)
    fix w r w' assume "ebind (putOperation (readInput history config) (ensureWritable gate) (pa_scope parsed) ?r
      (the (pa_expectedRevision parsed))) (\<lambda>saved. ereturn (apiSuccess (json_operation (pa_scope parsed) (asReservation saved)) [])) w = (r, w')"
    then obtain x where x: "putOperation (readInput history config) (ensureWritable gate) (pa_scope parsed) ?r (the (pa_expectedRevision parsed)) w = (x, w')"
      "x = Inr saved \<Longrightarrow> r = Inr (apiSuccess (json_operation (pa_scope parsed) (asReservation saved)) [])" for saved
      by (auto simp: ebind_def split: prod.splits sum.splits)
    from putOperation_answer [OF reader x(1)] show "answered parsed r w w'"
    proof
      assume "\<exists>w1 saved. same_store w w1 \<and> x = Inr saved \<and>
        put_commit (pa_scope parsed) (normalize_record ?r) (the (pa_expectedRevision parsed)) (ensureWritable gate) w1 = (Inr saved, w')"
      then obtain w1 saved where same: "same_store w w1" and saved: "x = Inr saved"
        and commit: "put_commit (pa_scope parsed) (normalize_record ?r) (the (pa_expectedRevision parsed)) (ensureWritable gate) w1 = (Inr saved, w')" by blast
      have "answered parsed r w1 w'"
        using rec slice_put_commit [OF commit] put_commit_saved [OF commit] bound_stays(1) [OF commit] x(2) [OF saved]
        by (auto simp: answered_def Let_def normalize_record_def)
      then show ?thesis by (rule answered_after [OF same])
    qed (rule answered_same)
  qed
qed

lemma answers_release_with:
  assumes rec: "pa_record parsed \<noteq> None" "pa_route parsed = POST_release"
  shows "answers parsed (release_with gate parsed c)"
  unfolding answers_def
proof (intro allI impI)
  fix w r w'
  let ?r = "the (pa_record parsed)"
  assume "release_with gate parsed c w = (r, w')"
  then obtain x where x: "releaseOperation (ensureWritable gate) (pa_scope parsed) ?r (the (pa_expectedRevision parsed)) c w = (x, w')"
    "x = Inr saved \<Longrightarrow> r = Inr (apiSuccess (json_operation (pa_scope parsed) saved) [])" for saved
    by (auto simp: release_with_def ebind_def split: prod.splits sum.splits)
  from releaseOperation_answer [OF x(1)] show "answered parsed r w w'"
  proof
    assume "\<exists>saved. x = Inr saved \<and> release_commit (pa_scope parsed) (normalize_record ?r) (the (pa_expectedRevision parsed)) c (ensureWritable gate) w = (Inr saved, w')"
    then obtain saved where saved: "x = Inr saved"
      and commit: "release_commit (pa_scope parsed) (normalize_record ?r) (the (pa_expectedRevision parsed)) c (ensureWritable gate) w = (Inr saved, w')" by blast
    show ?thesis
      using rec slice_release_commit [OF commit] release_commit_saved [OF commit] bound_stays(2) [OF commit] x(2) [OF saved]
      by (auto simp: answered_def Let_def normalize_record_def)
  qed (simp add: answered_same)
qed

lemma answers_if: "(b \<Longrightarrow> answers parsed m) \<Longrightarrow> (\<not> b \<Longrightarrow> answers parsed n) \<Longrightarrow> answers parsed (if b then m else n)"
  by simp

lemma answers_release_request:
  assumes quiet: "quiet_service ports" and rec: "pa_record parsed \<noteq> None" "pa_route parsed = POST_release"
  shows "answers parsed (release_request ports env config gate parsed)"
proof -
  note rel = answers_release_with [OF rec]
  have stop: "answers parsed (ereturn resp :: ('a Storage_scheme, service_error, Response) run)" for resp
    by (intro answers_keeps keeps_intros)
  have finalized: "answers parsed (release_finalized ports env config gate parsed rec' deadline)" for rec' deadline
    unfolding release_finalized_def
  proof (rule answers_attempt)
    show "keeps_store (sv_runtime ports (sc_deploymentId (pa_scope parsed)) config (RPC_DEPLOYMENTS_JSON env))"
      using quiet by (simp add: quiet_service_def)
    fix runtime w w' assume "sv_runtime ports (sc_deploymentId (pa_scope parsed)) config (RPC_DEPLOYMENTS_JSON env) w = (Inr runtime, w')"
    then have runtime: "quiet_history (rt_history runtime)" "\<And>t. keeps_store (rt_getBlock runtime t)"
      using quiet unfolding quiet_service_def by blast+
    then have calls: "keeps_store (getFinalizedCheckpoint (rt_history runtime))"
      "\<And>i p. keeps_store (getOperationSuccess (rt_history runtime) i p)" by (simp_all add: quiet_history_def)
    show "answers parsed (attempt_port (getFinalizedCheckpoint (rt_history runtime)) (\<lambda>found.
       case release_point config parsed found of None \<Rightarrow> ereturn unavailable | Some point \<Rightarrow>
       attempt_port (rt_getBlock runtime (if dc_finalityMode config = local_simulated then ''latest'' else ''finalized'')) (\<lambda>block.
       if \<not> block_confirms point deadline block then ereturn unavailable else
       attempt_port (getOperationSuccess (rt_history runtime) (rb_operationId rec') point) (\<lambda>success.
       if \<not> not_executed point success then ereturn unavailable else
       ebind (readInput (rt_history runtime) config (pa_scope parsed) (rb_inputId rec')) (\<lambda>input.
       if input \<noteq> owned_unspent then ereturn unavailable else
       release_with gate parsed \<lparr>fc_blockNumber = bigint_text (cp_number point), fc_blockHash = cp_hash point,
         fc_blockTimestamp = bigint_text (blk_timestamp block)\<rparr>)))))"
      by (auto intro!: answers_attempt answers_bind answers_if stop rel calls runtime(2) keeps_readInput [OF runtime(1)] split: option.split)
  qed
  show ?thesis
    unfolding release_request_def
    by (auto intro!: answers_bind keeps_ensureWritable keeps_intros stop rel finalized
        split: option.split record_kind.split OperationStatus.split)
qed

lemma answers_session_request:
  assumes quiet: "quiet_service ports" and wf: "wf_request parsed"
  shows "answers parsed (session_request ports env config gate parsed)"
proof -
  have extension: "answers parsed (extension_request ports gate parsed)"
    unfolding extension_request_def
    by (intro answers_keeps keeps_intros) (use quiet in \<open>auto simp: quiet_service_def\<close>)
  have list: "answers parsed (list_request gate parsed)" "answers parsed (get_request parsed :: ('a Storage_scheme, service_error, Response) run)"
    unfolding list_request_def get_request_def by (intro answers_keeps keeps_intros)+
  have rec: "pa_record parsed \<noteq> None" if "pa_route parsed = PUT_operation \<or> pa_route parsed = POST_release"
    using wf that by (auto simp: wf_request_def wf_record_request_def split: option.splits)
  show ?thesis
    using extension list rec answers_put_request [OF quiet, of parsed] answers_release_request [OF quiet, of parsed]
    by (auto simp: session_request_def split: ApiRoute.split)
qed

section \<open>The session\<close>

text \<open>The cookie of the request names a session of the scope that is open when the request is routed.\<close>

definition session_open :: "'h Storage_scheme service_ports \<Rightarrow> ServiceRequest \<Rightarrow> Scope \<Rightarrow> 'h Storage_scheme \<Rightarrow> bool" where
  "session_open ports rq scope w \<longleftrightarrow> readSession (sha256 (sv_auth ports)) (rq_cookie rq) scope
     (sv_now ports (bind_deployment (sc_deploymentId scope) w)) w = Some scope"

definition admitted :: "'h Storage_scheme service_ports \<Rightarrow> ServiceEnv \<Rightarrow> ServiceRequest \<Rightarrow> ParsedApiRequest \<Rightarrow> 'h Storage_scheme \<Rightarrow> bool" where
  "admitted ports env rq parsed w \<longleftrightarrow> session_open ports rq (pa_scope parsed) w \<and>
     (\<exists>config. deployment_config ports env (sc_deploymentId (pa_scope parsed)) = Inr config \<and> \<not> foreign_origin rq config)"

lemma bind_deployment_fields [simp]:
  "db_sessions (bind_deployment d w) = db_sessions w" "operation_slice k (bind_deployment d w) = operation_slice k w"
  by (simp_all add: bind_deployment_def operation_slice_def attempts_of_def split: option.split)

lemma bind_deployment_bound: "db_deploymentId w = None \<or> db_deploymentId w = Some d \<Longrightarrow> db_deploymentId (bind_deployment d w) = Some d"
  by (auto simp: bind_deployment_def)

lemma session_identity:
  assumes "readSessionIdentity (sha256 (sv_auth ports)) (rq_cookie rq) (sv_now ports w1) w1 = Some s"
    and "w1 = bind_deployment (sc_deploymentId scope) w"
    and "sc_deploymentId s = sc_deploymentId scope" and "sameText (sc_owner s) (sc_owner scope)"
  shows "session_open ports rq scope w"
proof -
  have "readSessionIdentity (sha256 (sv_auth ports)) (rq_cookie rq) t w1 = readSessionIdentity (sha256 (sv_auth ports)) (rq_cookie rq) t w" for t
    unfolding assms(2) readSessionIdentity_def bind_deployment_fields ..
  then show ?thesis using assms by (simp add: session_open_def readSession_def)
qed

lemma session_open_scope:
  "session_open ports rq a w \<Longrightarrow> sc_deploymentId a = sc_deploymentId b \<Longrightarrow> sameText (sc_owner a) (sc_owner b) \<Longrightarrow> session_open ports rq b w"
  by (auto simp: session_open_def readSession_def sameText_def split: option.splits if_splits)

lemma route_handler_guarded:
  assumes quiet: "quiet_service ports" and wf: "wf_request parsed"
    and w1: "w1 = bind_deployment (sc_deploymentId (pa_scope parsed)) w"
    and run: "route_handler ports env rq config gate parsed w1 = (r, w')"
  shows "same_store w1 w' \<or> session_open ports rq (pa_scope parsed) w \<and> answered parsed r w1 w'"
    and "r = Inr resp \<Longrightarrow> resp_status resp = 200 \<Longrightarrow>
      pa_route parsed \<in> {POST_challenge, POST_verify} \<or> session_open ports rq (pa_scope parsed) w"
proof -
  have auth: "keeps_store (challenge_request ports parsed)" "keeps_store (verify_request ports config parsed)"
    unfolding challenge_request_def verify_request_def
    using quiet by (auto intro!: keeps_intros simp: quiet_service_def split: prod.split)
  have *: "(same_store w1 w' \<or> session_open ports rq (pa_scope parsed) w \<and> answered parsed r w1 w') \<and>
    (\<forall>resp. r = Inr resp \<and> resp_status resp = 200 \<longrightarrow>
      pa_route parsed \<in> {POST_challenge, POST_verify} \<or> session_open ports rq (pa_scope parsed) w)"
  proof (cases "pa_route parsed \<in> {POST_challenge, POST_verify}")
    case True
    then show ?thesis using run auth keeps_storeD by (auto simp: route_handler_def) blast+
  next
    case False
    then have run': "authorized_request ports env rq config gate parsed w1 = (r, w')"
      using run by (cases "pa_route parsed") (simp_all add: route_handler_def)
    show ?thesis
    proof (cases "session_open ports rq (pa_scope parsed) w")
      case False
      then have "\<exists>resp. r = Inr resp \<and> resp_status resp \<noteq> 200 \<and> w' = w1"
        using run' session_identity [OF _ w1, of ports rq]
        by (auto simp: authorized_request_def statement_simps apiError_def split: option.splits if_splits)
      then show ?thesis by auto
    next
      case True
      have "same_store w1 w' \<or> answered parsed r w1 w'"
        using run' answers_session_request [OF quiet wf, of env config gate]
        by (auto simp: authorized_request_def statement_simps answers_def split: option.splits if_splits)
      then show ?thesis using True by (auto intro: answered_same)
    qed
  qed
  then show "same_store w1 w' \<or> session_open ports rq (pa_scope parsed) w \<and> answered parsed r w1 w'"
    and "r = Inr resp \<Longrightarrow> resp_status resp = 200 \<Longrightarrow>
      pa_route parsed \<in> {POST_challenge, POST_verify} \<or> session_open ports rq (pa_scope parsed) w" by blast+
qed

text \<open>How \<open>fetch\<close> ends: without a commit and without a success, or after the routing of a request it admitted.\<close>

lemma failure_status: "resp_status (failure_response e) \<noteq> 200"
  by (cases e) (auto simp: apiError_def ERROR_RESPONSES_def split: option.split)

lemma service_fetch_cases:
  assumes "service_fetch ports env rq w = (x, w')"
  obtains (refused) resp where "x = Inr resp" "resp_status resp \<noteq> 200" "\<And>k. operation_slice k w' = operation_slice k w"
  | (routed) parsed config gate r where "read_request ports rq = Inr parsed"
      "deployment_config ports env (sc_deploymentId (pa_scope parsed)) = Inr config" "\<not> foreign_origin rq config"
      "db_deploymentId (bind_deployment (sc_deploymentId (pa_scope parsed)) w) = Some (sc_deploymentId (pa_scope parsed))"
      "route_handler ports env rq config gate parsed (bind_deployment (sc_deploymentId (pa_scope parsed)) w) = (r, w')"
      "x = Inr (case r of Inl e \<Rightarrow> failure_response e | Inr resp \<Rightarrow> resp)"
proof -
  obtain r where handle: "handle_request ports env rq w = (r, w')" and x: "x = Inr (case r of Inl e \<Rightarrow> failure_response e | Inr resp \<Rightarrow> resp)"
    using assms by (auto simp: service_fetch_def ecatch_def split: prod.splits sum.splits)
  show ?thesis
  proof (cases "\<exists>parsed config gate. read_request ports rq = Inr parsed \<and>
      deployment_config ports env (sc_deploymentId (pa_scope parsed)) = Inr config \<and>
      resolveRecoveryGate (sv_JSON_parse ports) (RECOVERY_JSON env) (sc_deploymentId (pa_scope parsed)) = Inr gate")
    case False
    then have "w' = w \<and> (\<exists>e. r = Inl e)"
      using handle by (auto simp: handle_request_def Let_def ebind_def split: sum.splits prod.splits)
    then show ?thesis using refused [of "case r of Inl e \<Rightarrow> failure_response e | Inr resp \<Rightarrow> resp"] x failure_status by auto
  next
    case True
    then obtain parsed config gate where ok: "read_request ports rq = Inr parsed"
      "deployment_config ports env (sc_deploymentId (pa_scope parsed)) = Inr config"
      "resolveRecoveryGate (sv_JSON_parse ports) (RECOVERY_JSON env) (sc_deploymentId (pa_scope parsed)) = Inr gate" by blast
    let ?d = "sc_deploymentId (pa_scope parsed)"
    consider (bound) "db_deploymentId w \<noteq> None" "db_deploymentId w \<noteq> Some ?d" | (foreign) "foreign_origin rq config" "db_deploymentId w = None \<or> db_deploymentId w = Some ?d"
      | (route) "\<not> foreign_origin rq config" "db_deploymentId w = None \<or> db_deploymentId w = Some ?d"
      by (cases "foreign_origin rq config"; cases "db_deploymentId w = None \<or> db_deploymentId w = Some ?d") auto
    then show ?thesis
    proof cases
      case route
      then have "route_handler ports env rq config gate parsed (bind_deployment ?d w) = (r, w')"
        using handle ok by (auto simp: handle_request_def Let_def statement_simps)
      then show ?thesis using routed [OF ok(1,2) route(1) bind_deployment_bound [OF route(2)] _ x] by blast
    qed (use handle ok x refused in \<open>auto simp: handle_request_def Let_def statement_simps apiError_def\<close>)
  qed
qed

lemma read_request_wf: "read_request ports rq = Inr parsed \<Longrightarrow> wf_request parsed"
proof -
  assume "read_request ports rq = Inr parsed"
  then obtain body where "map_sum RequestError id (parseApiRequest (sv_request_URL ports) (rq_method rq) (rq_path rq) body True) = Inr parsed"
    by (auto simp: read_request_def parse_with_def rbind_eq_Inr)
  then have "parseApiRequest (sv_request_URL ports) (rq_method rq) (rq_path rq) body True = Inr parsed"
    by (cases "parseApiRequest (sv_request_URL ports) (rq_method rq) (rq_path rq) body True") simp_all
  then show ?thesis by (auto simp: parseApiRequest_def rbind_eq_Inr route_request_wf)
qed

lemma request_record_id:
  assumes "wf_request parsed" and "pa_route parsed = PUT_operation \<or> pa_route parsed = POST_release" and "pa_record parsed = Some rec"
  shows "pa_id parsed = Some (toLowerCase (rb_recordId rec))"
  using assms by (auto simp: wf_request_def wf_record_request_def wf_bytes32_def split: option.splits)

text \<open>A change of an operation comes from the commit of an admitted request for it.\<close>

definition committed :: "'h Storage_scheme service_ports \<Rightarrow> ServiceEnv \<Rightarrow> ServiceRequest \<Rightarrow> Scope \<Rightarrow> string \<Rightarrow> 'h Storage_scheme \<Rightarrow>
    ParsedApiRequest \<Rightarrow> Response \<Rightarrow> 'h Storage_scheme \<Rightarrow> bool" where
  "committed ports env rq scope i w parsed resp w' \<longleftrightarrow> pa_route parsed \<in> {PUT_operation, POST_release} \<and>
     pa_id parsed = Some (toLowerCase i) \<and> sc_deploymentId (pa_scope parsed) = sc_deploymentId scope \<and>
     sameText (sc_owner (pa_scope parsed)) (sc_owner scope) \<and> admitted ports env rq parsed w \<and> session_open ports rq scope w \<and>
     db_deploymentId w' = Some (sc_deploymentId scope) \<and>
     (\<exists>saved. getOperation (pa_scope parsed) i w' = Some saved \<and>
       resp = apiSuccess (json_operation (pa_scope parsed) (asReservation saved)) [])"

lemma routed_change:
  assumes quiet: "quiet_service ports" and wf: "wf_request parsed"
    and config: "deployment_config ports env (sc_deploymentId (pa_scope parsed)) = Inr config" "\<not> foreign_origin rq config"
    and bound: "db_deploymentId (bind_deployment (sc_deploymentId (pa_scope parsed)) w) = Some (sc_deploymentId (pa_scope parsed))"
    and run: "route_handler ports env rq config gate parsed (bind_deployment (sc_deploymentId (pa_scope parsed)) w) = (r, w')"
    and resp: "resp = (case r of Inl e \<Rightarrow> failure_response e | Inr resp \<Rightarrow> resp)"
  shows "getOperation scope i w' = getOperation scope i w \<or> committed ports env rq scope i w parsed resp w'"
proof (cases "operation_slice (scope_key scope (toLowerCase i)) w' = operation_slice (scope_key scope (toLowerCase i)) w")
  case True
  then show ?thesis using slice_getOperation by blast
next
  case False
  then have changed: "\<not> same_store (bind_deployment (sc_deploymentId (pa_scope parsed)) w) w'" by (auto dest: same_store_slice)
  then have session: "session_open ports rq (pa_scope parsed) w" and "answered parsed r (bind_deployment (sc_deploymentId (pa_scope parsed)) w) w'" using route_handler_guarded(1) [OF quiet wf refl run] by blast+
  then have put: "pa_route parsed \<in> {PUT_operation, POST_release}" "pa_record parsed \<noteq> None" "db_deploymentId w' = db_deploymentId (bind_deployment (sc_deploymentId (pa_scope parsed)) w)"
    using changed unfolding answered_def by blast+
  from put(2) obtain rec where rec: "pa_record parsed = Some rec" by auto
  then obtain saved where others: "\<And>k. k \<noteq> scope_key (pa_scope parsed) (toLowerCase (rb_recordId rec)) \<Longrightarrow> operation_slice k w' = operation_slice k w"
    and saved: "getOperation (pa_scope parsed) (toLowerCase (rb_recordId rec)) w' = Some saved"
      "r = Inr (apiSuccess (json_operation (pa_scope parsed) (asReservation saved)) [])"
    using \<open>answered parsed r (bind_deployment (sc_deploymentId (pa_scope parsed)) w) w'\<close> changed unfolding answered_def Let_def rec by (auto simp del: split_paired_All)
  have key: "scope_key scope (toLowerCase i) = scope_key (pa_scope parsed) (toLowerCase (rb_recordId rec))"
    using False others by blast
  have requested: "pa_id parsed = Some (toLowerCase (rb_recordId rec))"
    using request_record_id [OF wf _ rec] put(1) by blast
  from key have same: "sc_deploymentId (pa_scope parsed) = sc_deploymentId scope" "sameText (sc_owner (pa_scope parsed)) (sc_owner scope)"
    "toLowerCase (rb_recordId rec) = toLowerCase i" by (simp_all add: scope_key_def sameText_def)
  then show ?thesis
    using saved put(1,3) requested session config bound
      session_open_scope [of ports rq "pa_scope parsed" w scope]
    by (auto simp: committed_def admitted_def getOperation_def resp)
qed

text \<open>C40: what \<open>fetch\<close> lets pass.  It always answers.  A saved operation changes only by the \<open>PUT\<close> or the release of its
  own record, sent from the deployment's origin with a cookie whose session is open for the operation's deployment and
  owner; the answer is then the operation as it is saved.  And every success outside the sign-in was for such a session.
  Other scopes' operations are never touched.\<close>

theorem fetch_guarded:
  assumes "quiet_service ports" and "service_fetch ports env rq w = (x, w')"
  shows "\<exists>resp. x = Inr resp \<and>
    (getOperation scope i w' = getOperation scope i w \<or>
      (\<exists>parsed. read_request ports rq = Inr parsed \<and> committed ports env rq scope i w parsed resp w')) \<and>
    (resp_status resp \<noteq> 200 \<or> (\<exists>parsed. read_request ports rq = Inr parsed \<and>
      (pa_route parsed \<in> {POST_challenge, POST_verify} \<or> admitted ports env rq parsed w)))"
  using assms(2)
proof (cases rule: service_fetch_cases)
  case (refused resp)
  then show ?thesis using slice_getOperation by blast
next
  case (routed parsed config gate r)
  let ?w1 = "bind_deployment (sc_deploymentId (pa_scope parsed)) w" and ?resp = "case r of Inl e \<Rightarrow> failure_response e | Inr resp \<Rightarrow> resp"
  have wf: "wf_request parsed" using routed(1) by (rule read_request_wf)
  note guarded = route_handler_guarded [OF assms(1) wf refl routed(5)]
  have admitted: "admitted ports env rq parsed w" if "session_open ports rq (pa_scope parsed) w"
    using that routed(2,3) by (auto simp: admitted_def)
  have success: "resp_status ?resp \<noteq> 200 \<or> pa_route parsed \<in> {POST_challenge, POST_verify} \<or> admitted ports env rq parsed w"
    using guarded(2) admitted failure_status by (cases r) auto
  have change: "getOperation scope i w' = getOperation scope i w \<or> committed ports env rq scope i w parsed ?resp w'"
    by (rule routed_change [OF assms(1) wf routed(2-5) refl])
  show ?thesis
    using routed(1,6) success change by blast
qed

lemma served_quiet: "quiet_service (served_ports plain_URL)"
proof -
  have "quiet_history served_history"
    by (auto simp: quiet_history_def served_history_def Let_def intro: keeps_intros)
  then show ?thesis
    by (auto simp: quiet_service_def served_ports_def intro: keeps_intros)
qed

theorem fetch_guarded_witness:
  "\<exists>resp parsed saved. service_fetch (served_ports plain_URL) served_env put_rq ready_store = (Inr resp, saved_store) \<and>
     read_request (served_ports plain_URL) put_rq = Inr parsed \<and> admitted (served_ports plain_URL) served_env put_rq parsed ready_store \<and>
     getOperation (pa_scope parsed) (hash_of (CHR ''1'')) saved_store = Some saved \<and>
     resp = apiSuccess (json_operation (pa_scope parsed) (asReservation saved)) []"
proof -
  obtain resp where run: "service_fetch (served_ports plain_URL) served_env put_rq ready_store = (Inr resp, saved_store)"
    using served_fetch by blast
  have "toLowerCase (hash_of (CHR ''1'')) = hash_of (CHR ''1'')" using example_hashes(1) by (simp add: wf_bytes32_def)
  then have "getOperation example_scope (hash_of (CHR ''1'')) saved_store \<noteq> None"
    by (simp add: getOperation_def operation_row_def saved_store_rows select_first_def new_keys)
      (simp add: example_pay_record_def)
  then have "getOperation example_scope (hash_of (CHR ''1'')) saved_store \<noteq> getOperation example_scope (hash_of (CHR ''1'')) ready_store"
    by (simp add: ready_facts)
  with fetch_guarded [OF served_quiet run, of example_scope "hash_of (CHR ''1'')"] run show ?thesis by (auto simp: committed_def)
qed

end
