(* ===== verification/Spec2Isabelle.thy ===== *)
theory Spec2Isabelle
  imports RangeCompleteness Tracking PayProcessProperties ServiceListing ServiceGuard
begin

text \<open>
  A model of the TypeScript packages of ethereum-confidential-utxo: confidential coins on Ethereum whose amounts are
  hidden in commitments, proved with a balance proof and a range proof, delivered in encrypted receipts, and paid out
  through a payment adapter with the help of a small service.

  The parts of the program and how they interact.  \<open>packages/crypto\<close> builds the proofs and receipts that
  \<open>packages/core\<close> puts into operations: core selects coins, fixes an operation, has it authorized and proved, submits
  it, tracks it, and synchronizes the coins of an owner from public history.  \<open>packages/uniswap\<close> is the client of a
  payment: it withdraws a coin into an adapter call, keeps an encrypted record of every operation at the service before
  it signs or submits anything, and recovers from that record and from finalized history.
  \<open>apps/uniswap-service\<close> is the store of those records.  Clients and service meet in the requests and responses of
  \<open>packages/uniswap/src/api.ts\<close>.

  Theories, in the order of the code:

  \<^item> \<open>Prelude\<close>, \<open>Effects\<close>, \<open>Triples\<close>, \<open>JsMap\<close>, \<open>Sql\<close>: fallible computations as sums, effectful computations as
    functions of a world, pre- and postconditions, the insertion-ordered map, tables and transactions.
  \<^item> \<open>Bytes\<close>, \<open>ScalarSource\<close>, \<open>FixedParameters\<close>, \<open>Group\<close>, \<open>CurveLaws\<close>, \<open>Balance\<close>, \<open>CryptoReceipt\<close>, \<open>RangeTranscript\<close>,
    \<open>RangeProof\<close>, \<open>RangeFold\<close>: \<open>packages/crypto/src\<close> (\<open>bytes\<close>, \<open>random\<close>, \<open>fixed-parameters\<close>, \<open>group\<close>, \<open>balance\<close>,
    \<open>receipt\<close>, \<open>range/*\<close>).  Lemmas: words and hexadecimal text, the balance equation and its proof, extraction, the
    packet round trip, the folded relation of the inner-product argument.
  \<^item> \<open>RangeVerifier\<close>, \<open>RangeCompleteness\<close>: the contract's verifier of the range proof,
    \<open>contracts/src/verifier/RangeProofV3.sol\<close> with its transcript and the operations of \<open>Bn254.sol\<close> it calls.  Lemmas:
    the two transcripts agree, the verifier's weights are the fold's, its two equations hold of every body, and so
    every generated range proof is accepted.
  \<^item> \<open>CoreTypes\<close>, \<open>Encoding\<close>, \<open>AbiModel\<close>, \<open>EncodingProperties\<close>, \<open>Selection\<close>, \<open>Authorization\<close>, \<open>Operation\<close>,
    \<open>OperationProperties\<close>, \<open>Receipt\<close>, \<open>Sync\<close>, \<open>SyncProperties\<close>, \<open>Tracking\<close>: \<open>packages/core/src\<close>, one theory per
    module.  Lemmas: well-formed requests, binding identifiers, optimal coin selection, signatures that bind, sound
    receipts, synchronization as a refinement of an abstract ledger, monotone tracking, safe submissions.
  \<^item> \<open>Decimal\<close>, \<open>JsValue\<close>, \<open>PayAmount\<close>, \<open>PayRecovery\<close>, \<open>Payment\<close>, \<open>PayProcess\<close>, \<open>WriteAhead\<close>, \<open>WriteAheadClient\<close>,
    \<open>PayProcessProperties\<close>: \<open>packages/uniswap/src\<close> (\<open>domain\<close>, \<open>storage\<close>, \<open>schema\<close>, \<open>amount\<close>, \<open>selection\<close>, \<open>quote\<close>,
    \<open>reservation\<close>, \<open>recovery\<close>, \<open>reconcile\<close>, \<open>payment\<close>, \<open>process\<close>).  Lemmas: exact amounts, bounds of terms, recovery
    decisions, calls bound to terms, the write-ahead discipline of the client, its completion.
  \<^item> \<open>Api\<close>, \<open>ApiProperties\<close>: \<open>api.ts\<close>.  Lemmas: parsed values are well formed, requests round trip.
  \<^item> \<open>ServiceTypes\<close>, \<open>ServiceStore\<close>, \<open>ServiceStoreProperties\<close>, \<open>ServiceSteps\<close>, \<open>ServiceContract\<close>,
    \<open>ServiceProperties\<close>: the tables of the service and \<open>store.ts\<close>, \<open>reconcile.ts\<close>, \<open>recovery.ts\<close>.  Lemmas: the invariant
    of reservations and attempts along every run of commits, the evolution of saved operations, and a contract of
    versioned stores (a locale) that puts and releases satisfy.
  \<^item> \<open>ServiceAuth\<close>, \<open>ServiceObject\<close>, \<open>ServiceExample\<close>, \<open>ServiceGuard\<close>: \<open>auth.ts\<close> and \<open>config.ts\<close>, the object and worker
    of \<open>durable-object.ts\<close>, \<open>http.ts\<close>, \<open>core-reader.ts\<close> and \<open>index.ts\<close>, and a concrete deployment for the witnesses.
    Lemmas: a challenge opens one session, which its cookie reads until it expires; every route leaves the store alone
    or commits the record of its own request; no change and no success without an open session of the scope.
  \<^item> \<open>ServiceClient\<close>, \<open>ServiceListing\<close>: \<open>packages/cli/src/service-client.ts\<close>, and the client connected to the object.
    Lemmas: a stored operation survives its way through the response; the loop over the pages ends, with all of
    them if every page is within the client's bound of 2 MiB and with its protocol error otherwise.

  How state and operations correspond to the code.  A TypeScript interface is a record, a union a datatype, a bigint or
  safe integer an \<open>int\<close>, a byte array a list of 8-bit words, a string a list of 8-bit characters (texts outside that
  range are not covered).  A thrown error is the left of a sum; an \<open>async\<close> port is a function that takes the world
  and returns a result or an error with the next world, so that two calls may answer differently and other activity may
  happen in between.  Freezing, cloning and wiping of values have no counterpart on immutable values.

  Parameters of the model are the libraries the code calls: the curve and hash functions of noble, the HPKE suite,
  viem's ABI encoder, typed-data hash, signature recovery and SIWE messages, the URL parser, JSON text, and the ports to
  nodes, wallets and storage.  Where a property needs a law of one of them (the group laws of the curve, injectivity of
  the ABI encoding, correctness of HPKE), it is a hypothesis of the property, and a witness satisfies it with a concrete
  function.

  Bounds and fuel.  Loops that the code bounds are counted as the code counts them (256 candidates of a scalar or of a
  challenge); their exhaustion is an error value.  The loop of \<open>list_pages\<close> follows the cursors that a
  service sends, which need not end, so it has fuel; for the modelled service, more than one hundredth of the number of
  stored operations is proved to be enough.  Every other function is total.

  Not modelled: the Solidity contracts (except their verifiers of the balance proof and the range proof), the vendored verifier, the generated
  ABI, the command line and its files (except the service client), the RPC adapters of \<open>packages/ethereum\<close>, the rewards of the service with the operator's calls on them, the web
  pages, scripts, benchmarks and experiments.  They are input and output around the parts above, or measure them; the
  manifest lists each with its reason.
\<close>

end
